(* ===== verification/Prelude.thy ===== *)
theory Prelude
  imports
    Complex_Main
    "HOL-Library.Multiset"
    "HOL-Library.AList"
    "HOL-Library.Char_ord"
    "HOL-Library.List_Lexorder"
    "HOL-Library.Product_Lexorder"
begin

text \<open>
  Shared vocabulary of the development: type names, insertion-ordered Python dictionaries as
  association lists with the lemmas every component uses, Python slices, the
  \<open>del d[k]; d[k] = v\<close> deduplication idiom (last occurrence wins and moves to the end) and
  facts on stable sorting.
\<close>

type_synonym tenant = string
type_synonym dataset = string
type_synonym vid = string
type_synonym uri = string
type_synonym key = "tenant \<times> dataset"
type_synonym time = int

section \<open>Python dictionaries\<close>

text \<open>
  A Python \<open>dict\<close> keeps insertion order: storing an existing key overwrites in place, a new key
  goes to the end. \<open>AList.update\<close> and \<open>AList.delete\<close> behave exactly so; \<open>map_of\<close> is the lookup.
\<close>

type_synonym ('k, 'v) pdict = "('k \<times> 'v) list"

abbreviation dget :: "('k, 'v) pdict \<Rightarrow> 'k \<Rightarrow> 'v option" where
  "dget d k \<equiv> map_of d k"

abbreviation dset :: "'k \<Rightarrow> 'v \<Rightarrow> ('k, 'v) pdict \<Rightarrow> ('k, 'v) pdict" where
  "dset k v d \<equiv> AList.update k v d"

abbreviation ddel :: "'k \<Rightarrow> ('k, 'v) pdict \<Rightarrow> ('k, 'v) pdict" where
  "ddel k d \<equiv> AList.delete k d"

definition dget_or :: "('k, 'v) pdict \<Rightarrow> 'k \<Rightarrow> 'v \<Rightarrow> 'v" where
  "dget_or d k v = (case dget d k of None \<Rightarrow> v | Some w \<Rightarrow> w)"

definition dkeys_ok :: "('k, 'v) pdict \<Rightarrow> bool" where
  "dkeys_ok d \<longleftrightarrow> distinct (map fst d)"

named_theorems pdict_simps \<open>lookup and key facts of Python dictionaries\<close>

declare update_conv' [pdict_simps]
declare delete_conv' [pdict_simps]

lemma dkeys_ok_Nil [simp]: "dkeys_ok []"
  by (simp add: dkeys_ok_def)

lemma dkeys_ok_dset [simp, intro]: "dkeys_ok d \<Longrightarrow> dkeys_ok (dset k v d)"
  by (simp add: dkeys_ok_def distinct_update)

lemma dkeys_ok_ddel [simp, intro]: "dkeys_ok d \<Longrightarrow> dkeys_ok (ddel k d)"
  by (simp add: dkeys_ok_def distinct_delete)

lemma dkeys_ok_filter [simp, intro]: "dkeys_ok d \<Longrightarrow> dkeys_ok (filter P d)"
  by (simp add: dkeys_ok_def distinct_map_filter)

lemma dget_or_dset [pdict_simps]:
  "dget_or (dset k v d) k' w = (if k' = k then v else dget_or d k' w)"
  by (simp add: dget_or_def pdict_simps)

lemma dget_in: "dkeys_ok d \<Longrightarrow> (k, v) \<in> set d \<longleftrightarrow> dget d k = Some v"
  by (simp add: dkeys_ok_def)

lemma dget_filter:
  "dkeys_ok d \<Longrightarrow>
   dget (filter P d) k = (case dget d k of None \<Rightarrow> None | Some v \<Rightarrow> if P (k, v) then Some v else None)"
proof (induction d)
  case (Cons p d)
  then have "dget (filter P d) (fst p) = None" "dget d (fst p) = None"
    by (auto simp: dkeys_ok_def map_of_eq_None_iff)
  with Cons show ?case by (cases p) (auto simp: dkeys_ok_def split: option.splits)
qed simp

lemma ddel_notin: "dget d k = None \<Longrightarrow> ddel k d = d"
  by (simp add: map_of_eq_None_iff delete_id)

lemma dset_notin: "dget d k = None \<Longrightarrow> dset k v d = d @ [(k, v)]"
  by (induction d) (auto split: if_splits)

lemma ddel_then_dset: "dset k v (ddel k d) = ddel k d @ [(k, v)]"
  by (rule dset_notin) (simp add: pdict_simps)

lemma length_ddel_le: "length (ddel k d) \<le> length d"
  by (rule length_delete_le)

lemma dget_map_values: "dget (map (\<lambda>(k, v). (k, f v)) d) x = map_option f (dget d x)"
  by (induction d) auto

section \<open>Last occurrence wins\<close>

text \<open>
  The loop \<open>for rec in records: if rid in deduped: del deduped[rid]; deduped[rid] = rec\<close>, which
  several write paths share: one entry per id, the last one, at the position of its last
  occurrence.
\<close>

definition last_wins :: "('a \<Rightarrow> 'k) \<Rightarrow> 'a list \<Rightarrow> ('k, 'a) pdict" where
  "last_wins f xs = foldl (\<lambda>d x. dset (f x) x (ddel (f x) d)) [] xs"

definition find_last :: "('a \<Rightarrow> bool) \<Rightarrow> 'a list \<Rightarrow> 'a option" where
  "find_last P xs = find P (rev xs)"

lemma find_last_simps [simp]:
  "find_last P [] = None"
  "find_last P (xs @ [x]) = (if P x then Some x else find_last P xs)"
  by (simp_all add: find_last_def)

lemma find_last_None: "find_last P xs = None \<longleftrightarrow> (\<forall>x \<in> set xs. \<not> P x)"
  by (auto simp: find_last_def find_None_iff)

lemma find_last_SomeD: "find_last P xs = Some x \<Longrightarrow> x \<in> set xs \<and> P x"
proof (induction xs rule: rev_induct)
  case (snoc y ys)
  then show ?case by (auto split: if_splits)
qed simp

lemma last_wins_snoc: "last_wins f (xs @ [x]) = ddel (f x) (last_wins f xs) @ [(f x, x)]"
  by (simp add: last_wins_def ddel_then_dset)

lemma dkeys_ok_last_wins: "dkeys_ok (last_wins f xs)"
proof (induction xs rule: rev_induct)
  case (snoc x xs)
  then show ?case by (simp add: last_wins_snoc flip: ddel_then_dset)
qed (simp add: last_wins_def)

lemma dget_last_wins: "dget (last_wins f xs) k = find_last (\<lambda>x. f x = k) xs"
proof (induction xs rule: rev_induct)
  case (snoc x xs)
  then show ?case by (auto simp: last_wins_snoc pdict_simps simp flip: ddel_then_dset)
qed (simp add: last_wins_def)

lemma last_wins_fst: "(k, x) \<in> set (last_wins f xs) \<Longrightarrow> f x = k"
  by (auto simp: dget_in dkeys_ok_last_wins dget_last_wins dest: find_last_SomeD)

lemma last_wins_keys: "map fst (last_wins f xs) = map f (map snd (last_wins f xs))"
  by (auto dest: last_wins_fst)

lemma distinct_last_wins: "distinct (map f (map snd (last_wins f xs)))"
  using dkeys_ok_last_wins[of f xs] last_wins_keys[of f xs] by (simp add: dkeys_ok_def)

lemma set_last_wins: "set (map snd (last_wins f xs)) \<subseteq> set xs"
  by (auto simp: dget_in dkeys_ok_last_wins dget_last_wins dest: find_last_SomeD)

lemma last_wins_ids: "set (map f (map snd (last_wins f xs))) = f ` set xs"
proof -
  have "k \<in> set (map fst (last_wins f xs)) \<longleftrightarrow> k \<in> f ` set xs" for k
  proof -
    have "k \<in> set (map fst (last_wins f xs)) \<longleftrightarrow> dget (last_wins f xs) k \<noteq> None"
      by (metis dom_map_of_conv_image_fst domIff list.set_map)
    also have "\<dots> \<longleftrightarrow> (\<exists>x \<in> set xs. f x = k)"
      by (auto simp: dget_last_wins find_last_None)
    finally show ?thesis by auto
  qed
  then show ?thesis unfolding last_wins_keys by blast
qed

lemma last_wins_Nil_iff: "last_wins f xs = [] \<longleftrightarrow> xs = []"
  by (cases xs rule: rev_cases) (auto simp: last_wins_snoc, simp add: last_wins_def)

section \<open>Slices, fallbacks and sorting\<close>

text \<open>\<open>xs[:k]\<close> for a non-negative \<open>k\<close>, and \<open>xs[a:b]\<close> for non-negative bounds.\<close>

definition py_take :: "int \<Rightarrow> 'a list \<Rightarrow> 'a list" where
  "py_take k xs = take (nat k) xs"

definition py_slice :: "int \<Rightarrow> int \<Rightarrow> 'a list \<Rightarrow> 'a list" where
  "py_slice a b xs = take (nat (b - a)) (drop (nat a) xs)"

text \<open>\<open>int(x or 0)\<close>: a missing value and zero both read as zero.\<close>

definition or0 :: "int option \<Rightarrow> int" where
  "or0 x = (case x of None \<Rightarrow> 0 | Some n \<Rightarrow> n)"

lemma or0_simps [simp]: "or0 None = 0" "or0 (Some n) = n"
  by (simp_all add: or0_def)

lemma sort_key_map_filter_stable: "filter (\<lambda>x. f x = k) (sort_key f xs) = filter (\<lambda>x. f x = k) xs"
  by (rule sort_key_stable)

lemma distinct_map_sort_key [simp]: "distinct (map g (sort_key f xs)) \<longleftrightarrow> distinct (map g xs)"
proof -
  have "mset (map g (sort_key f xs)) = mset (map g xs)" by (simp only: mset_map mset_sort)
  then show ?thesis by (rule mset_eq_imp_distinct_iff)
qed

lemma take_sorted_le:
  assumes "sorted (map f xs)" and "x \<in> set (take n xs)" and "y \<in> set (drop n xs)"
  shows "f x \<le> f y"
proof -
  have "sorted (map f (take n xs @ drop n xs))" using assms(1) by simp
  then show ?thesis using assms(2,3) by (simp only: map_append sorted_append) auto
qed

lemma Max_list_ge: "x \<in> set xs \<Longrightarrow> x \<le> Max (set xs)" for x :: "'a::linorder"
  by simp

end
