(* ===== verification/Json.thy ===== *)
theory Json
  imports Prelude
begin

text \<open>
  JSON values as \<open>json.loads\<close> decodes them, Python's \<open>==\<close> and \<open>type()\<close> on them, the
  AND-of-equals metadata filter (the query service's copy and the recall adapter's copy), and the
  per-record validation of the ingest endpoint. A Python float is an exact rational, an infinity
  or a NaN; an exception that escapes is a value of the type \<open>pyexc\<close>.
\<close>

section \<open>Values\<close>

datatype pyfloat = Fin rat | PInf | NInf | NaN

datatype json =
    JNull
  | JBool bool
  | JInt int
  | JFloat pyfloat
  | JStr string
  | JList "json list"
  | JObj "(string \<times> json) list"

type_synonym vec = "pyfloat list"
type_synonym meta = "(string \<times> json) list"

datatype pytype = TNone | TBool | TInt | TFloat | TStr | TList | TDict

fun py_type :: "json \<Rightarrow> pytype" where
  "py_type JNull = TNone"
| "py_type (JBool _) = TBool"
| "py_type (JInt _) = TInt"
| "py_type (JFloat _) = TFloat"
| "py_type (JStr _) = TStr"
| "py_type (JList _) = TList"
| "py_type (JObj _) = TDict"

text \<open>The numeric reading Python's \<open>==\<close> compares bool, int and float by.\<close>

fun num_val :: "json \<Rightarrow> pyfloat option" where
  "num_val (JBool b) = Some (Fin (if b then 1 else 0))"
| "num_val (JInt n) = Some (Fin (of_int n))"
| "num_val (JFloat f) = Some f"
| "num_val _ = None"

fun py_eq :: "json \<Rightarrow> json \<Rightarrow> bool"
  and py_eq_list :: "json list \<Rightarrow> json list \<Rightarrow> bool"
  and py_eq_items :: "(string \<times> json) list \<Rightarrow> (string \<times> json) list \<Rightarrow> bool" where
  "py_eq JNull b = (b = JNull)"
| "py_eq (JStr s) b = (b = JStr s)"
| "py_eq (JBool x) b = (case num_val b of None \<Rightarrow> False | Some f \<Rightarrow> f = Fin (if x then 1 else 0))"
| "py_eq (JInt n) b = (case num_val b of None \<Rightarrow> False | Some f \<Rightarrow> f = Fin (of_int n))"
| "py_eq (JFloat f) b = (f \<noteq> NaN \<and> num_val b = Some f)"
| "py_eq (JList xs) b = (case b of JList ys \<Rightarrow> py_eq_list xs ys | _ \<Rightarrow> False)"
| "py_eq (JObj xs) b = (case b of JObj ys \<Rightarrow> length xs = length ys \<and> py_eq_items xs ys | _ \<Rightarrow> False)"
| "py_eq_list [] ys = (ys = [])"
| "py_eq_list (x # xs) ys = (case ys of [] \<Rightarrow> False | y # ys' \<Rightarrow> py_eq x y \<and> py_eq_list xs ys')"
| "py_eq_items [] ys = True"
| "py_eq_items ((k, v) # xs) ys =
     (case dget ys k of None \<Rightarrow> False | Some w \<Rightarrow> py_eq v w \<and> py_eq_items xs ys)"

section \<open>The metadata filter\<close>

text \<open>
  \<open>v1_query.metadata_matches_filter\<close>: a loop over the filter's items with early returns.
\<close>

fun metadata_matches_filter :: "meta \<Rightarrow> meta \<Rightarrow> bool" where
  "metadata_matches_filter metadata [] = True"
| "metadata_matches_filter metadata ((key, want) # flt) =
     (if want = JNull then False
      else case dget metadata key of
        None \<Rightarrow> False
      | Some got \<Rightarrow>
          if py_type got \<noteq> py_type want then False
          else if \<not> py_eq got want then False
          else metadata_matches_filter metadata flt)"

text \<open>\<open>recall._metadata_matches_filter\<close>: the recall adapter's duplicate.\<close>

fun recall_metadata_matches_filter :: "meta \<Rightarrow> meta \<Rightarrow> bool" where
  "recall_metadata_matches_filter metadata [] = True"
| "recall_metadata_matches_filter metadata ((key, want) # flt) =
     (case want of
        JNull \<Rightarrow> False
      | _ \<Rightarrow>
         (case dget metadata key of
            None \<Rightarrow> False
          | Some got \<Rightarrow>
              if py_type got = py_type want \<and> py_eq got want
              then recall_metadata_matches_filter metadata flt else False))"

text \<open>What the filter promises: every entry present, same type, equal, and never null.\<close>

definition filter_spec :: "meta \<Rightarrow> meta \<Rightarrow> bool" where
  "filter_spec metadata flt \<longleftrightarrow>
     (\<forall>(key, want) \<in> set flt. want \<noteq> JNull \<and>
        (\<exists>got. dget metadata key = Some got \<and> py_type got = py_type want \<and> py_eq got want))"

lemma metadata_matches_filter_iff: "metadata_matches_filter m flt \<longleftrightarrow> filter_spec m flt"
  by (induction m flt rule: metadata_matches_filter.induct)
     (auto simp: filter_spec_def split: option.splits)

lemma recall_filter_eq: "recall_metadata_matches_filter m flt = metadata_matches_filter m flt"
  by (induction m flt rule: recall_metadata_matches_filter.induct)
     (auto split: option.splits json.splits)

section \<open>Python's int to float conversion\<close>

datatype pyexc = OverflowError | ValueError string | KeyError | RuntimeError string | OtherError string

text \<open>
  \<open>float(n)\<close> for an int: exact up to 53 bits, else rounded half to even at the 53rd bit; a value
  that rounds to \<open>2^1024\<close> raises OverflowError.
\<close>

function py_bitlen :: "int \<Rightarrow> nat" where
  "py_bitlen n = (if n \<le> 0 then 0 else Suc (py_bitlen (n div 2)))"
  by pat_completeness auto
termination
  by (relation "measure nat") auto

declare py_bitlen.simps [simp del]

definition round_half_even :: "int \<Rightarrow> nat \<Rightarrow> int" where
  "round_half_even m k =
     (let q = m div 2 ^ k; r = m mod 2 ^ k; h = 2 ^ (k - 1)
      in if k = 0 then m else if r > h \<or> (r = h \<and> odd q) then (q + 1) * 2 ^ k else q * 2 ^ k)"

definition float_of_int :: "int \<Rightarrow> pyexc + pyfloat" where
  "float_of_int n =
     (let m = \<bar>n\<bar> in
      if m < 2 ^ 53 then Inr (Fin (of_int n))
      else let r = round_half_even m (py_bitlen m - 53)
           in if r \<ge> 2 ^ 1024 then Inl OverflowError else Inr (Fin (of_int (sgn n * r))))"

section \<open>Record validation of the ingest endpoint\<close>

text \<open>\<open>isinstance(x, (int, float)) and not isinstance(x, bool)\<close>\<close>

fun is_number :: "json \<Rightarrow> bool" where
  "is_number (JInt _) = True"
| "is_number (JFloat _) = True"
| "is_number _ = False"

definition float4_max :: rat where
  "float4_max = 34028235 * 10 ^ 31"

text \<open>
  \<open>math.isfinite(x) and abs(x) <= _FLOAT4_MAX\<close>; \<open>math.isfinite\<close> converts an int to a double
  first and raises OverflowError when it does not fit.
\<close>

fun finite_float4 :: "json \<Rightarrow> pyexc + bool" where
  "finite_float4 (JInt n) =
     (case float_of_int n of Inl e \<Rightarrow> Inl e | Inr _ \<Rightarrow> Inr (\<bar>of_int n\<bar> \<le> float4_max))"
| "finite_float4 (JFloat (Fin q)) = Inr (\<bar>q\<bar> \<le> float4_max)"
| "finite_float4 _ = Inr False"

fun all_finite_float4 :: "json list \<Rightarrow> pyexc + bool" where
  "all_finite_float4 [] = Inr True"
| "all_finite_float4 (x # xs) =
     (case finite_float4 x of
        Inl e \<Rightarrow> Inl e
      | Inr False \<Rightarrow> Inr False
      | Inr True \<Rightarrow> all_finite_float4 xs)"

datatype reject =
    NotObject | BadId | IdTooLong | BadValues | DimensionMismatch nat int | NotFinite | BadMetadata

text \<open>
  \<open>_validate_ndjson_record\<close>: \<open>Inr None\<close> accepts, \<open>Inr (Some r)\<close> rejects with a reason,
  \<open>Inl\<close> is an exception that escapes.
\<close>

definition validate_ndjson_record :: "json \<Rightarrow> int \<Rightarrow> pyexc + reject option" where
  "validate_ndjson_record obj expected_dim =
     (case obj of
        JObj fields \<Rightarrow>
         (case dget fields ''id'' of
            Some (JStr rid) \<Rightarrow>
              if rid = [] then Inr (Some BadId)
              else if length rid > 256 then Inr (Some IdTooLong)
              else (case dget fields ''values'' of
                Some (JList vs) \<Rightarrow>
                  if \<not> list_all is_number vs then Inr (Some BadValues)
                  else if int (length vs) \<noteq> expected_dim
                    then Inr (Some (DimensionMismatch (length vs) expected_dim))
                  else (case all_finite_float4 vs of
                    Inl e \<Rightarrow> Inl e
                  | Inr False \<Rightarrow> Inr (Some NotFinite)
                  | Inr True \<Rightarrow>
                     (case dget fields ''metadata'' of
                        None \<Rightarrow> Inr None
                      | Some JNull \<Rightarrow> Inr None
                      | Some (JObj _) \<Rightarrow> Inr None
                      | Some _ \<Rightarrow> Inr (Some BadMetadata)))
              | _ \<Rightarrow> Inr (Some BadValues))
          | _ \<Rightarrow> Inr (Some BadId))
      | _ \<Rightarrow> Inr (Some NotObject))"

end
