(* ===== verification/Memtable.thy ===== *)
theory Memtable
  imports Json
begin

text \<open>
  The embedded recall backend, \<open>adapters/recall/memtable.py\<close>: the process-wide store \<open>_MemRecall\<close>
  as a record of the two class-level dictionaries, one definition per function. Each function
  runs under the module's lock, so a call is one atomic step. The clock (\<open>_now\<close>) is an argument;
  the float32 squared distance numpy computes is the argument \<open>sqdist\<close>.
\<close>

section \<open>State\<close>

record row =
  r_values :: vec
  r_metadata :: meta
  r_lsn :: int
  r_deleted :: bool
  r_created_at :: time

type_synonym part = "(vid, row) pdict"

record memrecall =
  mem_parts :: "(key, part) pdict"
  mem_lsn :: "(key, int) pdict"

text \<open>A validated ingest record; \<open>rec.get("metadata")\<close> may be missing or null.\<close>

record vrec =
  rec_id :: vid
  rec_values :: vec
  rec_metadata :: "meta option"

definition meta_or :: "meta option \<Rightarrow> meta" where
  "meta_or m = (case m of None \<Rightarrow> [] | Some d \<Rightarrow> d)"

text \<open>A row copied out of a snapshot.\<close>

record snap =
  s_id :: vid
  s_values :: vec
  s_metadata :: meta
  s_lsn :: int
  s_deleted :: bool

record 's match =
  m_id :: vid
  m_score :: 's
  m_metadata :: meta

datatype status = Live | Tombstone

definition mem_reset :: "memrecall \<Rightarrow> memrecall" where
  "mem_reset _ = \<lparr>mem_parts = [], mem_lsn = []\<rparr>"

definition mem_part :: "memrecall \<Rightarrow> key \<Rightarrow> part" where
  "mem_part s k = dget_or (mem_parts s) k []"

section \<open>Writes\<close>

definition alloc_block :: "memrecall \<Rightarrow> key \<Rightarrow> int \<Rightarrow> int \<times> memrecall" where
  "alloc_block s k n =
     (let cur = dget_or (mem_lsn s) k 0 + n in (cur, s\<lparr>mem_lsn := dset k cur (mem_lsn s)\<rparr>))"

definition live_row :: "time \<Rightarrow> int \<Rightarrow> vrec \<Rightarrow> row" where
  "live_row now l rec =
     \<lparr>r_values = rec_values rec, r_metadata = meta_or (rec_metadata rec), r_lsn = l,
      r_deleted = False, r_created_at = now\<rparr>"

text \<open>The loop \<open>for offset, rec in enumerate(winners)\<close>.\<close>

fun put_winners :: "time \<Rightarrow> int \<Rightarrow> vrec list \<Rightarrow> part \<Rightarrow> part" where
  "put_winners now l [] p = p"
| "put_winners now l (rec # recs) p =
     put_winners now (l + 1) recs (dset (rec_id rec) (live_row now l rec) p)"

definition mem_upsert :: "memrecall \<Rightarrow> key \<Rightarrow> time \<Rightarrow> vrec list \<Rightarrow> int \<times> memrecall" where
  "mem_upsert s k now records =
     (if records = [] then (0, s)
      else
        let winners = map snd (last_wins rec_id records);
            n = int (length winners);
            (last_lsn, s1) = alloc_block s k n;
            first_lsn = last_lsn - n + 1;
            p = put_winners now first_lsn winners (mem_part s1 k)
        in (n, s1\<lparr>mem_parts := dset k p (mem_parts s1)\<rparr>))"

definition zero_vec :: "int \<Rightarrow> vec" where
  "zero_vec dimension = replicate (nat (max 1 dimension)) (Fin 0)"

definition mem_delete :: "memrecall \<Rightarrow> key \<Rightarrow> time \<Rightarrow> vid \<Rightarrow> int \<Rightarrow> int \<times> memrecall" where
  "mem_delete s k now i dimension =
     (let (l, s1) = alloc_block s k 1;
          p = mem_part s1 k;
          vals = (case dget p i of None \<Rightarrow> zero_vec dimension | Some r \<Rightarrow> r_values r);
          md = (case dget p i of None \<Rightarrow> [] | Some r \<Rightarrow> r_metadata r);
          r = \<lparr>r_values = vals, r_metadata = md, r_lsn = l, r_deleted = True, r_created_at = now\<rparr>
      in (l, s1\<lparr>mem_parts := dset k (dset i r p) (mem_parts s1)\<rparr>))"

section \<open>Reads\<close>

definition snapshot_above :: "memrecall \<Rightarrow> key \<Rightarrow> int \<Rightarrow> snap list" where
  "snapshot_above s k watermark =
     [\<lparr>s_id = i, s_values = r_values r, s_metadata = r_metadata r, s_lsn = r_lsn r,
       s_deleted = r_deleted r\<rparr>. (i, r) \<leftarrow> mem_part s k, r_lsn r > watermark]"

text \<open>The scoring loop of \<open>recall_search\<close>: the suppress set, and the live filter-passing rows.\<close>

fun score_rows :: "(vec \<Rightarrow> vec \<Rightarrow> 's) \<Rightarrow> vec \<Rightarrow> meta \<Rightarrow> snap list \<Rightarrow> vid set \<times> 's match list" where
  "score_rows sqdist q flt [] = ({}, [])"
| "score_rows sqdist q flt (r # rs) =
     (let (sup, ms) = score_rows sqdist q flt rs in
      (insert (s_id r) sup,
       if s_deleted r then ms
       else if flt \<noteq> [] \<and> \<not> recall_metadata_matches_filter (s_metadata r) flt then ms
       else \<lparr>m_id = s_id r, m_score = sqdist q (s_values r), m_metadata = s_metadata r\<rparr> # ms))"

definition mem_search ::
  "(vec \<Rightarrow> vec \<Rightarrow> 's::linorder) \<Rightarrow> memrecall \<Rightarrow> key \<Rightarrow> vec \<Rightarrow> int \<Rightarrow> int \<Rightarrow> meta option
   \<Rightarrow> vid set \<times> 's match list" where
  "mem_search sqdist s k q top_k watermark flt =
     (let (suppress_ids, scored) = score_rows sqdist q (meta_or flt) (snapshot_above s k watermark)
      in (suppress_ids,
          py_take (max 0 top_k) (sort_key (\<lambda>m. (m_score m, m_id m)) scored)))"

definition mem_row_above :: "memrecall \<Rightarrow> key \<Rightarrow> vid \<Rightarrow> int \<Rightarrow> row option" where
  "mem_row_above s k i watermark =
     (case dget (mem_part s k) i of
        None \<Rightarrow> None
      | Some r \<Rightarrow> if r_lsn r \<le> watermark then None else Some r)"

definition mem_get_vector ::
  "memrecall \<Rightarrow> key \<Rightarrow> vid \<Rightarrow> int \<Rightarrow> status option \<times> meta option" where
  "mem_get_vector s k i watermark =
     (case mem_row_above s k i watermark of
        None \<Rightarrow> (None, None)
      | Some r \<Rightarrow> if r_deleted r then (Some Tombstone, None) else (Some Live, Some (r_metadata r)))"

definition mem_get_vector_with_embedding ::
  "memrecall \<Rightarrow> key \<Rightarrow> vid \<Rightarrow> int \<Rightarrow> status option \<times> meta option \<times> vec option" where
  "mem_get_vector_with_embedding s k i watermark =
     (case mem_row_above s k i watermark of
        None \<Rightarrow> (None, None, None)
      | Some r \<Rightarrow> if r_deleted r then (Some Tombstone, None, None)
                  else (Some Live, Some (r_metadata r), Some (r_values r)))"

definition mem_list_rows :: "memrecall \<Rightarrow> key \<Rightarrow> int \<Rightarrow> (vid \<times> meta) list \<times> vid set" where
  "mem_list_rows s k watermark =
     (let sn = snapshot_above s k watermark in
      ([(s_id r, s_metadata r). r \<leftarrow> sn, \<not> s_deleted r], set (map s_id sn)))"

definition snap_of :: "vid \<times> row \<Rightarrow> snap" where
  "snap_of = (\<lambda>(i, r). \<lparr>s_id = i, s_values = r_values r, s_metadata = r_metadata r,
     s_lsn = r_lsn r, s_deleted = r_deleted r\<rparr>)"

definition mem_snapshot_for_consolidation :: "memrecall \<Rightarrow> key \<Rightarrow> int \<times> snap list" where
  "mem_snapshot_for_consolidation s k =
     (let rows = sort_key s_lsn (map snap_of (mem_part s k)) in
      (if rows = [] then 0 else s_lsn (last rows), rows))"

definition mem_partition_count :: "memrecall \<Rightarrow> key \<Rightarrow> int" where
  "mem_partition_count s k = int (length (mem_part s k))"

definition mem_trim :: "memrecall \<Rightarrow> key \<Rightarrow> int \<Rightarrow> int \<times> memrecall" where
  "mem_trim s k grace =
     (if grace \<le> 0 then (0, s)
      else case dget (mem_parts s) k of
        None \<Rightarrow> (0, s)
      | Some p \<Rightarrow>
          if p = [] then (0, s)
          else (int (length (filter (\<lambda>(i, r). r_lsn r \<le> grace) p)),
                s\<lparr>mem_parts := dset k (filter (\<lambda>(i, r). \<not> r_lsn r \<le> grace) p) (mem_parts s)\<rparr>))"

definition mem_idle_partitions :: "memrecall \<Rightarrow> time \<Rightarrow> int \<Rightarrow> key list" where
  "mem_idle_partitions s now idle =
     [k. (k, p) \<leftarrow> mem_parts s, p \<noteq> [] \<and> Max (set (map (r_created_at \<circ> snd) p)) \<le> now - idle]"

end
