(* ===== verification/Recall_Spec.thy ===== *)
theory Recall_Spec
  imports Memtable
begin

text \<open>
  The contract of a recall backend: what the write path, the query union and the consolidation
  rely on, whichever store is behind it. The abstraction reads a partition as a map from ids to
  cells; \<open>overlay\<close> is the union of recall and cold tier at a watermark. The lemmas inside the
  locale are the read-your-writes and watermark arguments, proved once for both backends.
\<close>

section \<open>Cells and the union at a watermark\<close>

record cell =
  c_values :: vec
  c_metadata :: meta
  c_lsn :: int
  c_deleted :: bool

type_synonym doc = "vec \<times> meta"

definition cell_doc :: "cell \<Rightarrow> doc option" where
  "cell_doc c = (if c_deleted c then None else Some (c_values c, c_metadata c))"

definition overlay :: "(vid \<Rightarrow> cell option) \<Rightarrow> int \<Rightarrow> (vid \<Rightarrow> doc option) \<Rightarrow> vid \<Rightarrow> doc option" where
  "overlay look w cold i =
     (case look i of
        None \<Rightarrow> cold i
      | Some c \<Rightarrow> if c_lsn c > w then cell_doc c else cold i)"

text \<open>Rows at or below the watermark have been folded: the cold tier agrees with them.\<close>

definition agrees :: "(vid \<Rightarrow> cell option) \<Rightarrow> int \<Rightarrow> (vid \<Rightarrow> doc option) \<Rightarrow> bool" where
  "agrees look w cold \<longleftrightarrow> (\<forall>i c. look i = Some c \<longrightarrow> c_lsn c \<le> w \<longrightarrow> cold i = cell_doc c)"

definition snap_cell :: "snap \<Rightarrow> cell" where
  "snap_cell r = \<lparr>c_values = s_values r, c_metadata = s_metadata r, c_lsn = s_lsn r,
     c_deleted = s_deleted r\<rparr>"

text \<open>Applying a snapshot's rows, in order, to a cold tier.\<close>

definition apply_row :: "(vid \<Rightarrow> doc option) \<Rightarrow> snap \<Rightarrow> vid \<Rightarrow> doc option" where
  "apply_row cold r = cold(s_id r := cell_doc (snap_cell r))"

definition apply_rows :: "(vid \<Rightarrow> doc option) \<Rightarrow> snap list \<Rightarrow> vid \<Rightarrow> doc option" where
  "apply_rows cold rows = foldl apply_row cold rows"

lemma apply_rows_notin:
  "i \<notin> s_id ` set rows \<Longrightarrow> apply_rows cold rows i = cold i"
  unfolding apply_rows_def
  by (induction rows arbitrary: cold) (auto simp: apply_row_def)

lemma apply_rows_in:
  "distinct (map s_id rows) \<Longrightarrow> r \<in> set rows \<Longrightarrow> apply_rows cold rows (s_id r) = cell_doc (snap_cell r)"
proof (induction rows arbitrary: cold)
  case (Cons x rows)
  show ?case
  proof (cases "r = x")
    case True
    with Cons.prems have "s_id r \<notin> s_id ` set rows" by simp
    with True show ?thesis
      by (simp add: apply_rows_def apply_row_def apply_rows_notin[unfolded apply_rows_def])
  next
    case False
    with Cons show ?thesis by (simp add: apply_rows_def)
  qed
qed simp

lemma overlay_agrees_zero:
  "agrees look w cold \<Longrightarrow> overlay look w cold i = (case look i of None \<Rightarrow> cold i | Some c \<Rightarrow> cell_doc c)"
  by (auto simp: overlay_def agrees_def split: option.splits)

section \<open>The contract\<close>

locale recall_store =
  fixes upsert :: "'s \<Rightarrow> key \<Rightarrow> time \<Rightarrow> vrec list \<Rightarrow> int \<times> 's"
    and delete :: "'s \<Rightarrow> key \<Rightarrow> time \<Rightarrow> vid \<Rightarrow> int \<Rightarrow> int \<times> 's"
    and trim :: "'s \<Rightarrow> key \<Rightarrow> int \<Rightarrow> int \<times> 's"
    and snapshot :: "'s \<Rightarrow> key \<Rightarrow> int \<times> snap list"
    and look :: "'s \<Rightarrow> key \<Rightarrow> vid \<Rightarrow> cell option"
    and top :: "'s \<Rightarrow> key \<Rightarrow> int"
    and store :: "vec \<Rightarrow> vec"
    and ok :: "'s \<Rightarrow> bool"
  assumes top_nonneg: "ok s \<Longrightarrow> 0 \<le> top s k"
    and look_bounds: "ok s \<Longrightarrow> look s k i = Some c \<Longrightarrow> 0 < c_lsn c \<and> c_lsn c \<le> top s k"
    and look_inj: "ok s \<Longrightarrow> look s k i = Some c \<Longrightarrow> look s k j = Some d \<Longrightarrow> c_lsn c = c_lsn d \<Longrightarrow> i = j"
    and upsert_ok: "ok s \<Longrightarrow> ok (snd (upsert s k now recs))"
    and upsert_count: "fst (upsert s k now recs) = int (card (rec_id ` set recs))"
    and upsert_top: "top (snd (upsert s k now recs)) k = top s k + int (card (rec_id ` set recs))"
    and upsert_hit: "ok s \<Longrightarrow> find_last (\<lambda>r. rec_id r = i) recs = Some r \<Longrightarrow>
      \<exists>l. top s k < l \<and> look (snd (upsert s k now recs)) k i =
        Some \<lparr>c_values = store (rec_values r), c_metadata = meta_or (rec_metadata r), c_lsn = l,
          c_deleted = False\<rparr>"
    and upsert_miss: "ok s \<Longrightarrow> i \<notin> rec_id ` set recs \<Longrightarrow>
      look (snd (upsert s k now recs)) k i = look s k i"
    and upsert_frame: "k' \<noteq> k \<Longrightarrow> look (snd (upsert s k now recs)) k' = look s k' \<and>
      top (snd (upsert s k now recs)) k' = top s k'"
    and delete_ok: "ok s \<Longrightarrow> ok (snd (delete s k now i dm))"
    and delete_top: "top (snd (delete s k now i dm)) k = top s k + 1"
    and delete_lsn: "fst (delete s k now i dm) = top s k + 1"
    and delete_hit: "ok s \<Longrightarrow> \<exists>c. look (snd (delete s k now i dm)) k i = Some c \<and>
      c_deleted c \<and> c_lsn c = top s k + 1"
    and delete_miss: "ok s \<Longrightarrow> j \<noteq> i \<Longrightarrow> look (snd (delete s k now i dm)) k j = look s k j"
    and delete_frame: "k' \<noteq> k \<Longrightarrow> look (snd (delete s k now i dm)) k' = look s k' \<and>
      top (snd (delete s k now i dm)) k' = top s k'"
    and trim_ok: "ok s \<Longrightarrow> ok (snd (trim s k g))"
    and trim_top: "top (snd (trim s k g)) = top s"
    and trim_look: "ok s \<Longrightarrow> look (snd (trim s k g)) k i =
      (case look s k i of None \<Rightarrow> None | Some c \<Rightarrow> if c_lsn c \<le> g then None else Some c)"
    and trim_frame: "ok s \<Longrightarrow> k' \<noteq> k \<Longrightarrow> look (snd (trim s k g)) k' = look s k'"
    and snapshot_rows: "ok s \<Longrightarrow> x \<in> set (snd (snapshot s k)) \<longleftrightarrow> look s k (s_id x) = Some (snap_cell x)"
    and snapshot_distinct: "ok s \<Longrightarrow> distinct (map s_id (snd (snapshot s k)))"
    and snapshot_sorted: "sorted (map s_lsn (snd (snapshot s k)))"
    and snapshot_max: "fst (snapshot s k) =
      (if snd (snapshot s k) = [] then 0 else s_lsn (last (snd (snapshot s k))))"
begin

text \<open>A snapshot has exactly the partition's rows, and its bound covers all of them.\<close>

lemma look_snapshot:
  assumes "ok s" and "look s k i = Some c"
  obtains r where "r \<in> set (snd (snapshot s k))" and "s_id r = i" and "snap_cell r = c"
proof -
  let ?r = "\<lparr>s_id = i, s_values = c_values c, s_metadata = c_metadata c, s_lsn = c_lsn c,
    s_deleted = c_deleted c\<rparr>"
  have "snap_cell ?r = c" by (simp add: snap_cell_def)
  moreover have "?r \<in> set (snd (snapshot s k))"
    using assms by (simp add: snapshot_rows snap_cell_def)
  ultimately show thesis using that[of ?r] by simp
qed

lemma snapshot_bound:
  assumes "r \<in> set (snd (snapshot s k))"
  shows "s_lsn r \<le> fst (snapshot s k)"
proof -
  let ?rs = "snd (snapshot s k)"
  from assms have ne: "?rs \<noteq> []" by auto
  then have rs: "?rs = butlast ?rs @ [last ?rs]" by simp
  have "sorted (map s_lsn (butlast ?rs @ [last ?rs]))" using snapshot_sorted[of s k] rs by simp
  then have "\<forall>x \<in> set (butlast ?rs). s_lsn x \<le> s_lsn (last ?rs)" by (simp add: sorted_append)
  moreover have "r \<in> set (butlast ?rs) \<or> r = last ?rs" using assms rs by (metis Un_iff empty_iff
    list.set(1) list.set(2) insert_iff set_append)
  ultimately have "s_lsn r \<le> s_lsn (last ?rs)" by auto
  with ne show ?thesis by (simp add: snapshot_max)
qed

lemma snapshot_top: "ok s \<Longrightarrow> fst (snapshot s k) \<le> top s k"
proof -
  assume ok: "ok s"
  show ?thesis
  proof (cases "snd (snapshot s k) = []")
    case True
    then show ?thesis using ok by (simp add: snapshot_max top_nonneg)
  next
    case False
    then have "look s k (s_id (last (snd (snapshot s k)))) = Some (snap_cell (last (snd (snapshot s k))))"
      using ok snapshot_rows last_in_set by blast
    from look_bounds[OF ok this] False show ?thesis by (simp add: snapshot_max snap_cell_def)
  qed
qed

lemma look_bound: "ok s \<Longrightarrow> look s k i = Some c \<Longrightarrow> c_lsn c \<le> fst (snapshot s k)"
  using look_snapshot snapshot_bound by (metis cell.select_convs(3) snap_cell_def)

lemma bound_reached:
  assumes "ok s" and "look s k i = Some c"
  obtains j d where "look s k j = Some d" and "c_lsn d = fst (snapshot s k)"
proof -
  have ne: "snd (snapshot s k) \<noteq> []" using look_snapshot[OF assms] by force
  then have "look s k (s_id (last (snd (snapshot s k)))) = Some (snap_cell (last (snd (snapshot s k))))"
    using assms(1) snapshot_rows last_in_set by blast
  moreover have "c_lsn (snap_cell (last (snd (snapshot s k)))) = fst (snapshot s k)"
    using ne by (simp add: snapshot_max snap_cell_def)
  ultimately show thesis by (rule that)
qed

text \<open>A bound on the snapshot survives writes, and trims up to it.\<close>

lemma bound_upsert:
  assumes "ok s" and "look s k i = Some c"
  shows "fst (snapshot s k) \<le> fst (snapshot (snd (upsert s k now recs)) k)"
proof -
  obtain j d where d: "look s k j = Some d" "c_lsn d = fst (snapshot s k)" by (rule bound_reached[OF assms])
  show ?thesis
  proof (cases "j \<in> rec_id ` set recs")
    case True
    then obtain r where "find_last (\<lambda>r. rec_id r = j) recs = Some r" 
      by (cases "find_last (\<lambda>r. rec_id r = j) recs") (auto simp: find_last_None)
    from upsert_hit[OF assms(1) this, of k now] obtain l where "top s k < l"
      and "look (snd (upsert s k now recs)) k j = Some \<lparr>c_values = store (rec_values r),
        c_metadata = meta_or (rec_metadata r), c_lsn = l, c_deleted = False\<rparr>" by blast
    from look_bound[OF upsert_ok[OF assms(1)] this(2)] this(1) snapshot_top[OF assms(1), of k] show ?thesis by simp
  next
    case False
    from upsert_miss[OF assms(1) this, of k now] d(1)
    have "look (snd (upsert s k now recs)) k j = Some d" by simp
    from look_bound[OF upsert_ok[OF assms(1)] this] d(2) show ?thesis by simp
  qed
qed

lemma bound_delete:
  assumes "ok s" and "look s k i = Some c"
  shows "fst (snapshot s k) \<le> fst (snapshot (snd (delete s k now j dm)) k)"
proof -
  obtain e where e: "look (snd (delete s k now j dm)) k j = Some e" "c_lsn e = top s k + 1"
    using delete_hit[OF assms(1)] by blast
  from look_bound[OF delete_ok[OF assms(1)] e(1)] e(2) snapshot_top[OF assms(1), of k] show ?thesis by simp
qed

lemma bound_trim:
  assumes "ok s" and "look (snd (trim s k g)) k i = Some c"
  shows "fst (snapshot s k) \<le> fst (snapshot (snd (trim s k g)) k)"
proof -
  have c: "look s k i = Some c" "\<not> c_lsn c \<le> g"
    using assms trim_look[OF assms(1), of k g i] by (auto split: option.splits if_splits)
  obtain j d where d: "look s k j = Some d" "c_lsn d = fst (snapshot s k)" by (rule bound_reached[OF assms(1) c(1)])
  have "\<not> c_lsn d \<le> g" using look_bound[OF assms(1) c(1)] c(2) d(2) by simp
  then have "look (snd (trim s k g)) k j = Some d" using d(1) by (simp add: trim_look[OF assms(1)])
  from look_bound[OF trim_ok[OF assms(1)] this] d(2) show ?thesis by simp
qed

text \<open>Read-your-writes: an upsert is visible at every watermark the counter has reached.\<close>

lemma upsert_overlay:
  assumes "ok s" and "w \<le> top s k"
  shows "overlay (look (snd (upsert s k now recs)) k) w cold i =
    (case find_last (\<lambda>r. rec_id r = i) recs of
       None \<Rightarrow> overlay (look s k) w cold i
     | Some r \<Rightarrow> Some (store (rec_values r), meta_or (rec_metadata r)))"
proof (cases "find_last (\<lambda>r. rec_id r = i) recs")
  case None
  then have "i \<notin> rec_id ` set recs" by (auto simp: find_last_None)
  with None show ?thesis using assms by (simp add: overlay_def upsert_miss)
next
  case (Some r)
  then show ?thesis using upsert_hit[OF assms(1) Some, of k now] assms(2)
    by (auto simp: overlay_def cell_doc_def)
qed

lemma delete_overlay:
  assumes "ok s" and "w \<le> top s k"
  shows "overlay (look (snd (delete s k now i dm)) k) w cold =
    (overlay (look s k) w cold)(i := None)"
proof
  fix j
  show "overlay (look (snd (delete s k now i dm)) k) w cold j = ((overlay (look s k) w cold)(i := None)) j"
    using delete_hit[OF assms(1), of k now i dm] assms delete_miss[OF assms(1), of j i k now dm]
    by (auto simp: overlay_def cell_doc_def)
qed

text \<open>Trimming at or below the watermark is invisible to the union.\<close>

lemma trim_overlay:
  assumes "ok s" and "g \<le> w"
  shows "overlay (look (snd (trim s k g)) k) w cold = overlay (look s k) w cold"
  using assms by (auto simp: overlay_def trim_look fun_eq_iff split: option.splits)

lemma trim_agrees: "ok s \<Longrightarrow> agrees (look s k) w cold \<Longrightarrow> agrees (look (snd (trim s k g)) k) w cold"
  by (auto simp: agrees_def trim_look split: option.splits if_splits)

text \<open>
  Consolidation: folding a snapshot and moving the watermark to the snapshot's bound leaves the
  union as it was, also when earlier rows are folded a second time.
\<close>

lemma fold_lookup:
  assumes "ok s"
  shows "apply_rows cold (snd (snapshot s k)) i =
    (case look s k i of None \<Rightarrow> cold i | Some c \<Rightarrow> cell_doc c)"
proof (cases "look s k i")
  case None
  then have "i \<notin> s_id ` set (snd (snapshot s k))" using assms by (auto simp: snapshot_rows)
  with None show ?thesis by (simp add: apply_rows_notin)
next
  case (Some c)
  then obtain r where "r \<in> set (snd (snapshot s k))" "s_id r = i" "snap_cell r = c"
    using assms by (elim look_snapshot)
  with Some assms show ?thesis
    using apply_rows_in[OF snapshot_distinct, of s r k cold] by simp
qed

lemma fold_agrees:
  assumes "ok s"
  shows "agrees (look s k) (fst (snapshot s k)) (apply_rows cold (snd (snapshot s k)))"
  using assms by (auto simp: agrees_def fold_lookup)

lemma fold_overlay:
  assumes "ok s" and "agrees (look s k) w cold"
  shows "overlay (look s k) (fst (snapshot s k)) (apply_rows cold (snd (snapshot s k))) =
    overlay (look s k) w cold"
  using assms fold_agrees[OF assms(1)]
  by (auto simp: overlay_agrees_zero fold_lookup fun_eq_iff split: option.splits)

text \<open>A write after the snapshot stays above the new watermark.\<close>

lemma write_above_snapshot:
  assumes "ok s" and "find_last (\<lambda>r. rec_id r = i) recs = Some r"
  shows "\<exists>c. look (snd (upsert s k now recs)) k i = Some c \<and> fst (snapshot s k) < c_lsn c"
proof -
  from upsert_hit[OF assms, of k now] obtain l where "top s k < l"
    and "look (snd (upsert s k now recs)) k i =
        Some \<lparr>c_values = store (rec_values r), c_metadata = meta_or (rec_metadata r), c_lsn = l,
          c_deleted = False\<rparr>" by blast
  with snapshot_top[OF assms(1), of k] show ?thesis by auto
qed

end

end
