(* ===== verification/Recall_Pg.thy ===== *)
theory Recall_Pg
  imports Recall_Spec
begin

text \<open>
  The pgvector recall backend, \<open>adapters/recall/__init__.py\<close>: the tables \<open>recall_vectors\<close>
  (keyed by its primary key) and \<open>recall_lsn_seq\<close>, and one definition per function with the SQL
  each one runs. A function is one transaction, so a call is one atomic step. What lies outside
  the repository is a parameter: Python's \<open>repr\<close> and \<open>float\<close> on floats, the text pgvector returns
  for a stored literal (its column holds float4 components), and the distance operator.
\<close>

section \<open>Vector literals\<close>

fun py_join :: "string \<Rightarrow> string list \<Rightarrow> string" where
  "py_join sep [] = []"
| "py_join sep [x] = x"
| "py_join sep (x # xs) = x @ sep @ py_join sep xs"

fun py_split :: "char \<Rightarrow> string \<Rightarrow> string list" where
  "py_split c [] = [[]]"
| "py_split c (x # xs) =
     (if x = c then [] # py_split c xs
      else case py_split c xs of [] \<Rightarrow> [[x]] | y # ys \<Rightarrow> (x # y) # ys)"

definition is_space :: "char \<Rightarrow> bool" where
  "is_space c \<longleftrightarrow> c \<in> {CHR '' '', CHR 0x09, CHR 0x0A, CHR 0x0B, CHR 0x0C, CHR 0x0D}"

definition py_strip :: "string \<Rightarrow> string" where
  "py_strip s = rev (dropWhile is_space (rev (dropWhile is_space s)))"

definition to_pgvector_literal :: "(pyfloat \<Rightarrow> string) \<Rightarrow> vec \<Rightarrow> string" where
  "to_pgvector_literal repr vs = ''['' @ py_join '','' (map repr vs) @ '']''"

fun parse_floats :: "(string \<Rightarrow> pyfloat option) \<Rightarrow> string list \<Rightarrow> pyexc + vec" where
  "parse_floats fl [] = Inr []"
| "parse_floats fl (p # ps) =
     (case fl p of
        None \<Rightarrow> Inl (ValueError p)
      | Some x \<Rightarrow> (case parse_floats fl ps of Inl e \<Rightarrow> Inl e | Inr xs \<Rightarrow> Inr (x # xs)))"

definition unbracket :: "string \<Rightarrow> string" where
  "unbracket s =
     (if s \<noteq> [] \<and> hd s = CHR ''['' \<and> last s = CHR '']'' then butlast (tl s) else s)"

definition pgvector_literal_to_list :: "(string \<Rightarrow> pyfloat option) \<Rightarrow> string \<Rightarrow> pyexc + vec" where
  "pgvector_literal_to_list fl literal =
     (let s = py_strip (unbracket (py_strip literal)) in
      if s = [] then Inr [] else parse_floats fl (py_split (CHR '','') s))"

section \<open>Tables\<close>

record pgcols =
  e_text :: string
  e_metadata :: meta
  e_lsn :: int
  e_deleted :: bool
  e_created_at :: time

record pgrecall =
  pg_vectors :: "(key \<times> vid, pgcols) pdict"
  pg_seq :: "(key, int) pdict"

record pgenv =
  pv_repr :: "pyfloat \<Rightarrow> string"
  pv_float :: "string \<Rightarrow> pyfloat option"
  pv_col :: "string \<Rightarrow> string"

text \<open>\<open>INSERT INTO recall_lsn_seq ... ON CONFLICT DO UPDATE SET last_lsn = last_lsn + n RETURNING\<close>\<close>

definition pg_bump :: "pgrecall \<Rightarrow> key \<Rightarrow> int \<Rightarrow> int \<times> pgrecall" where
  "pg_bump s k n =
     (let l = (case dget (pg_seq s) k of None \<Rightarrow> n | Some cur \<Rightarrow> cur + n)
      in (l, s\<lparr>pg_seq := dset k l (pg_seq s)\<rparr>))"

text \<open>The multi-row UPSERT: a conflict overwrites embedding, metadata, lsn and clears \<open>deleted\<close>.\<close>

definition pg_upsert_row :: "pgenv \<Rightarrow> key \<Rightarrow> time \<Rightarrow> int \<Rightarrow> vrec \<Rightarrow> pgcols option \<Rightarrow> pgcols" where
  "pg_upsert_row env k now l rec old =
     (let text = pv_col env (to_pgvector_literal (pv_repr env) (rec_values rec));
          md = meta_or (rec_metadata rec)
      in case old of
           None \<Rightarrow> \<lparr>e_text = text, e_metadata = md, e_lsn = l, e_deleted = False, e_created_at = now\<rparr>
         | Some c \<Rightarrow> c\<lparr>e_text := text, e_metadata := md, e_lsn := l, e_deleted := False\<rparr>)"

fun pg_put_rows ::
  "pgenv \<Rightarrow> key \<Rightarrow> time \<Rightarrow> int \<Rightarrow> vrec list \<Rightarrow> (key \<times> vid, pgcols) pdict
   \<Rightarrow> (key \<times> vid, pgcols) pdict" where
  "pg_put_rows env k now l [] t = t"
| "pg_put_rows env k now l (rec # recs) t =
     pg_put_rows env k now (l + 1) recs
       (dset (k, rec_id rec) (pg_upsert_row env k now l rec (dget t (k, rec_id rec))) t)"

definition pg_upsert :: "pgenv \<Rightarrow> pgrecall \<Rightarrow> key \<Rightarrow> time \<Rightarrow> vrec list \<Rightarrow> int \<times> pgrecall" where
  "pg_upsert env s k now records =
     (if records = [] then (0, s)
      else
        let winners = map snd (last_wins rec_id records);
            n = int (length winners);
            (last_lsn, s1) = pg_bump s k n;
            first_lsn = last_lsn - n + 1
        in (n, s1\<lparr>pg_vectors := pg_put_rows env k now first_lsn winners (pg_vectors s1)\<rparr>))"

definition pg_delete :: "pgenv \<Rightarrow> pgrecall \<Rightarrow> key \<Rightarrow> time \<Rightarrow> vid \<Rightarrow> int \<Rightarrow> int \<times> pgrecall" where
  "pg_delete env s k now i dm =
     (let placeholder = pv_col env (to_pgvector_literal (pv_repr env) (zero_vec dm));
          (l, s1) = pg_bump s k 1;
          c = (case dget (pg_vectors s1) (k, i) of
                 None \<Rightarrow> \<lparr>e_text = placeholder, e_metadata = [], e_lsn = l, e_deleted = True,
                          e_created_at = now\<rparr>
               | Some c \<Rightarrow> c\<lparr>e_lsn := l, e_deleted := True\<rparr>)
      in (l, s1\<lparr>pg_vectors := dset (k, i) c (pg_vectors s1)\<rparr>))"

section \<open>Reads\<close>

text \<open>\<open>WHERE tenant_id = ? AND dataset = ?\<close>\<close>

definition pg_rows :: "pgrecall \<Rightarrow> key \<Rightarrow> (vid \<times> pgcols) list" where
  "pg_rows s k = [(i, c). ((k', i), c) \<leftarrow> pg_vectors s, k' = k]"

datatype dberr = PoolCheckoutTimeout | OperationalError | InterfaceError | OtherDbError string

datatype recall_error = RecallUnavailable | DbError dberr

fun recall_connectivity :: "dberr \<Rightarrow> bool" where
  "recall_connectivity (OtherDbError _) = False"
| "recall_connectivity _ = True"

text \<open>The Python split of the scan's rows, with the running \<open>live_count\<close>.\<close>

fun pg_split ::
  "int \<Rightarrow> meta \<Rightarrow> (vid \<times> bool \<times> 's \<times> meta) list \<Rightarrow> int \<Rightarrow> vid set \<times> 's match list" where
  "pg_split top_k flt [] live_count = ({}, [])"
| "pg_split top_k flt ((rid, del, score, metadata) # rows) live_count =
     (if del \<or> live_count \<ge> top_k \<or> (flt \<noteq> [] \<and> \<not> recall_metadata_matches_filter metadata flt)
      then (let (sup, ms) = pg_split top_k flt rows live_count in (insert rid sup, ms))
      else (let (sup, ms) = pg_split top_k flt rows (live_count + 1)
            in (insert rid sup, \<lparr>m_id = rid, m_score = score, m_metadata = metadata\<rparr> # ms)))"

definition pg_scan ::
  "pgenv \<Rightarrow> (string \<Rightarrow> string \<Rightarrow> 's::linorder) \<Rightarrow> ('s \<Rightarrow> 't) \<Rightarrow> pgrecall \<Rightarrow> key \<Rightarrow> vec \<Rightarrow> int
   \<Rightarrow> (vid \<times> bool \<times> 't \<times> meta) list" where
  "pg_scan env dst sq s k q watermark =
     (let qlit = to_pgvector_literal (pv_repr env) q in
      map (\<lambda>(i, c). (i, e_deleted c, sq (dst (e_text c) qlit), e_metadata c))
        (sort_key (\<lambda>(i, c). dst (e_text c) qlit)
          (filter (\<lambda>(i, c). e_lsn c > watermark) (pg_rows s k))))"

definition pg_search ::
  "pgenv \<Rightarrow> (string \<Rightarrow> string \<Rightarrow> 's::linorder) \<Rightarrow> ('s \<Rightarrow> 't) \<Rightarrow> dberr option \<Rightarrow> pgrecall \<Rightarrow> key \<Rightarrow> vec
   \<Rightarrow> int \<Rightarrow> int \<Rightarrow> meta option \<Rightarrow> recall_error + (vid set \<times> 't match list)" where
  "pg_search env dst sq fault s k q top_k watermark flt =
     (case fault of
        Some e \<Rightarrow> Inl (if recall_connectivity e then RecallUnavailable else DbError e)
      | None \<Rightarrow> Inr (pg_split top_k (meta_or flt) (pg_scan env dst sq s k q watermark) 0))"

definition pg_row_above :: "pgrecall \<Rightarrow> key \<Rightarrow> vid \<Rightarrow> int \<Rightarrow> pgcols option" where
  "pg_row_above s k i watermark =
     (case dget (pg_vectors s) (k, i) of
        None \<Rightarrow> None
      | Some c \<Rightarrow> if e_lsn c > watermark then Some c else None)"

definition pg_get_vector ::
  "pgrecall \<Rightarrow> key \<Rightarrow> vid \<Rightarrow> int \<Rightarrow> status option \<times> meta option" where
  "pg_get_vector s k i watermark =
     (case pg_row_above s k i watermark of
        None \<Rightarrow> (None, None)
      | Some c \<Rightarrow> if e_deleted c then (Some Tombstone, None) else (Some Live, Some (e_metadata c)))"

definition pg_get_vector_with_embedding ::
  "pgenv \<Rightarrow> pgrecall \<Rightarrow> key \<Rightarrow> vid \<Rightarrow> int \<Rightarrow> pyexc + (status option \<times> meta option \<times> vec option)" where
  "pg_get_vector_with_embedding env s k i watermark =
     (case pg_row_above s k i watermark of
        None \<Rightarrow> Inr (None, None, None)
      | Some c \<Rightarrow>
          if e_deleted c then Inr (Some Tombstone, None, None)
          else (case pgvector_literal_to_list (pv_float env) (e_text c) of
                  Inl e \<Rightarrow> Inl e
                | Inr v \<Rightarrow> Inr (Some Live, Some (e_metadata c), Some v)))"

definition pg_list_rows :: "pgrecall \<Rightarrow> key \<Rightarrow> int \<Rightarrow> (vid \<times> meta) list \<times> vid set" where
  "pg_list_rows s k watermark =
     (let rows = filter (\<lambda>(i, c). e_lsn c > watermark) (pg_rows s k) in
      ([(i, e_metadata c). (i, c) \<leftarrow> rows, \<not> e_deleted c], set (map fst rows)))"

text \<open>
  The snapshot statement: the bound is a scalar sub-select over the same table, the rows come
  back ordered by LSN, and the watermark is read off the last returned row.
\<close>

fun decode_rows :: "(string \<Rightarrow> pyfloat option) \<Rightarrow> (vid \<times> pgcols) list \<Rightarrow> pyexc + snap list" where
  "decode_rows fl [] = Inr []"
| "decode_rows fl ((i, c) # rows) =
     (case pgvector_literal_to_list fl (e_text c) of
        Inl e \<Rightarrow> Inl e
      | Inr v \<Rightarrow>
         (case decode_rows fl rows of
            Inl e \<Rightarrow> Inl e
          | Inr rs \<Rightarrow> Inr (\<lparr>s_id = i, s_values = v, s_metadata = e_metadata c, s_lsn = e_lsn c,
                           s_deleted = e_deleted c\<rparr> # rs)))"

definition pg_snapshot_for_consolidation ::
  "pgenv \<Rightarrow> pgrecall \<Rightarrow> key \<Rightarrow> pyexc + (int \<times> snap list)" where
  "pg_snapshot_for_consolidation env s k =
     (let bound = Max (insert 0 (set (map (e_lsn \<circ> snd) (pg_rows s k))));
          selected = sort_key (e_lsn \<circ> snd) (filter (\<lambda>(i, c). e_lsn c \<le> bound) (pg_rows s k))
      in case decode_rows (pv_float env) selected of
           Inl e \<Rightarrow> Inl e
         | Inr rows \<Rightarrow> Inr (if rows = [] then 0 else s_lsn (last rows), rows))"

definition pg_partition_count :: "pgrecall \<Rightarrow> key \<Rightarrow> int" where
  "pg_partition_count s k = int (length (pg_rows s k))"

definition pg_trim :: "pgrecall \<Rightarrow> key \<Rightarrow> int \<Rightarrow> int \<times> pgrecall" where
  "pg_trim s k grace =
     (if grace \<le> 0 then (0, s)
      else (int (length (filter (\<lambda>((k', i), c). k' = k \<and> e_lsn c \<le> grace) (pg_vectors s))),
            s\<lparr>pg_vectors := filter (\<lambda>((k', i), c). \<not> (k' = k \<and> e_lsn c \<le> grace)) (pg_vectors s)\<rparr>))"

definition pg_idle_partitions :: "pgrecall \<Rightarrow> time \<Rightarrow> int \<Rightarrow> key list" where
  "pg_idle_partitions s now idle =
     [k. k \<leftarrow> remdups (map (fst \<circ> fst) (pg_vectors s)),
         Max (set (map (e_created_at \<circ> snd) (pg_rows s k))) \<le> now - idle]"

section \<open>Literal round trip\<close>

lemma py_split_ne [simp]: "py_split c xs \<noteq> []"
  by (induction xs) (auto split: list.splits)

lemma py_split_no: "c \<notin> set xs \<Longrightarrow> py_split c xs = [xs]"
  by (induction xs) auto

lemma py_split_append: "c \<notin> set xs \<Longrightarrow> py_split c (xs @ c # ys) = xs # py_split c ys"
  by (induction xs) auto

lemma py_split_join:
  "xs \<noteq> [] \<Longrightarrow> \<forall>x \<in> set xs. c \<notin> set x \<Longrightarrow> py_split c (py_join [c] xs) = xs"
  by (induction "[c]" xs rule: py_join.induct) (auto simp: py_split_no py_split_append)

lemma parse_floats_ok: "\<forall>x \<in> set vs. fl (f x) = Some x \<Longrightarrow> parse_floats fl (map f vs) = Inr vs"
  by (induction vs) auto

lemma py_strip_id:
  assumes "s = [] \<or> (\<not> is_space (hd s) \<and> \<not> is_space (last s))"
  shows "py_strip s = s"
proof (cases "s = []")
  case False
  then have "dropWhile is_space s = s" using assms by (cases s) auto
  moreover have "dropWhile is_space (rev s) = rev s"
    using assms False by (cases "rev s") (auto simp: hd_rev)
  ultimately show ?thesis by (simp add: py_strip_def)
qed (simp add: py_strip_def)

lemma py_join_chars: "set (py_join sep xs) \<subseteq> set sep \<union> \<Union> (set ` set xs)"
  by (induction sep xs rule: py_join.induct) auto

lemma strip_no_space:
  assumes "\<forall>c \<in> set s. \<not> is_space c"
  shows "py_strip s = s"
  using assms by (intro py_strip_id) (auto simp: hd_in_set last_in_set)

text \<open>What the code relies on of \<open>repr\<close> and \<open>float\<close>: the printed form reads back as the same float and holds no comma or blank.\<close>

definition repr_ok :: "(pyfloat \<Rightarrow> string) \<Rightarrow> (string \<Rightarrow> pyfloat option) \<Rightarrow> pyfloat \<Rightarrow> bool" where
  "repr_ok repr fl x \<longleftrightarrow> fl (repr x) = Some x \<and> repr x \<noteq> [] \<and>
     (\<forall>c \<in> set (repr x). c \<noteq> CHR '','' \<and> \<not> is_space c)"

lemma literal_roundtrip:
  assumes "\<forall>x \<in> set vs. repr_ok repr fl x"
  shows "pgvector_literal_to_list fl (to_pgvector_literal repr vs) = Inr vs"
proof -
  let ?j = "py_join '','' (map repr vs)"
  have nosp: "\<forall>c \<in> set ?j. \<not> is_space c"
    using py_join_chars[of "'',''" "map repr vs"] assms
    by (fastforce simp: repr_ok_def is_space_def)
  have "py_strip (to_pgvector_literal repr vs) = to_pgvector_literal repr vs"
    by (rule py_strip_id) (simp add: to_pgvector_literal_def is_space_def)
  moreover have "unbracket (to_pgvector_literal repr vs) = ?j"
    by (simp add: unbracket_def to_pgvector_literal_def butlast_append)
  ultimately have s: "py_strip (unbracket (py_strip (to_pgvector_literal repr vs))) = ?j"
    using nosp by (simp add: strip_no_space)
  show ?thesis
  proof (cases vs)
    case Nil
    then show ?thesis using s by (simp add: pgvector_literal_to_list_def Let_def)
  next
    case (Cons x xs)
    then have "?j \<noteq> []" using assms by (cases xs) (auto simp: repr_ok_def)
    moreover have "py_split (CHR '','') ?j = map repr vs"
      using assms Cons by (intro py_split_join) (auto simp: repr_ok_def)
    moreover have "parse_floats fl (map repr vs) = Inr vs"
      using assms by (intro parse_floats_ok) (auto simp: repr_ok_def)
    ultimately show ?thesis using s by (simp add: pgvector_literal_to_list_def Let_def)
  qed
qed

end
