(* ===== verification/Memtable_Correct.thy ===== *)
theory Memtable_Correct
  imports Recall_Spec
begin

text \<open>
  The memtable satisfies the recall contract: well-formedness of its dictionaries (\<open>mem_ok\<close>:
  unique ids, LSNs positive, bounded by the partition's counter and pairwise distinct), and one
  lookup lemma per operation.
\<close>

section \<open>Abstraction and invariant\<close>

definition mem_top :: "memrecall \<Rightarrow> key \<Rightarrow> int" where
  "mem_top s k = dget_or (mem_lsn s) k 0"

definition row_cell :: "row \<Rightarrow> cell" where
  "row_cell r = \<lparr>c_values = r_values r, c_metadata = r_metadata r, c_lsn = r_lsn r,
     c_deleted = r_deleted r\<rparr>"

definition mem_look :: "memrecall \<Rightarrow> key \<Rightarrow> vid \<Rightarrow> cell option" where
  "mem_look s k i = map_option row_cell (dget (mem_part s k) i)"

definition part_ok :: "int \<Rightarrow> part \<Rightarrow> bool" where
  "part_ok t p \<longleftrightarrow> dkeys_ok p \<and> 0 \<le> t \<and> (\<forall>i r. dget p i = Some r \<longrightarrow> 0 < r_lsn r \<and> r_lsn r \<le> t) \<and>
     (\<forall>i j r x. dget p i = Some r \<longrightarrow> dget p j = Some x \<longrightarrow> r_lsn r = r_lsn x \<longrightarrow> i = j)"

definition mem_ok :: "memrecall \<Rightarrow> bool" where
  "mem_ok s \<longleftrightarrow> (\<forall>k. part_ok (mem_top s k) (mem_part s k))"

lemma mem_okD: "mem_ok s \<Longrightarrow> part_ok (mem_top s k) (mem_part s k)"
  by (cases k) (simp add: mem_ok_def)

lemma mem_okI: "(\<And>k. part_ok (mem_top s k) (mem_part s k)) \<Longrightarrow> mem_ok s"
  unfolding mem_ok_def by blast

lemma row_cell_sel [simp]:
  "c_values (row_cell r) = r_values r" "c_metadata (row_cell r) = r_metadata r"
  "c_lsn (row_cell r) = r_lsn r" "c_deleted (row_cell r) = r_deleted r"
  by (simp_all add: row_cell_def)

lemma snap_of_sel [simp]:
  "s_id (snap_of (i, r)) = i" "s_lsn (snap_of (i, r)) = r_lsn r"
  "s_deleted (snap_of (i, r)) = r_deleted r" "s_metadata (snap_of (i, r)) = r_metadata r"
  "s_values (snap_of (i, r)) = r_values r" "snap_cell (snap_of (i, r)) = row_cell r"
  by (simp_all add: snap_of_def snap_cell_def row_cell_def)

lemma mem_part_set_parts [simp]:
  "mem_part (s\<lparr>mem_parts := dset k p (mem_parts s)\<rparr>) k' = (if k' = k then p else mem_part s k')"
  by (simp add: mem_part_def pdict_simps)

lemma mem_top_set_parts [simp]: "mem_top (s\<lparr>mem_parts := ps\<rparr>) k = mem_top s k"
  by (simp add: mem_top_def)

lemma alloc_block_facts:
  assumes "alloc_block s k n = (l, s1)"
  shows "l = mem_top s k + n" and "mem_top s1 k' = (if k' = k then l else mem_top s k')"
    and "mem_part s1 k' = mem_part s k'"
  using assms by (auto simp: alloc_block_def mem_top_def mem_part_def Let_def pdict_simps)

section \<open>The loop over the winners\<close>

lemma put_winners_notin:
  "i \<notin> rec_id ` set ws \<Longrightarrow> dget (put_winners now l ws p) i = dget p i"
  by (induction ws arbitrary: l p) (auto simp: pdict_simps)

lemma put_winners_in:
  "distinct (map rec_id ws) \<Longrightarrow> r \<in> set ws \<Longrightarrow>
   \<exists>m. l \<le> m \<and> m < l + int (length ws) \<and>
     dget (put_winners now l ws p) (rec_id r) = Some (live_row now m r)"
proof (induction ws arbitrary: l p)
  case (Cons w ws)
  show ?case
  proof (cases "r = w")
    case True
    with Cons.prems have "rec_id r \<notin> rec_id ` set ws" by simp
    with True show ?thesis by (auto simp: put_winners_notin pdict_simps intro!: exI[of _ l])
  next
    case False
    with Cons.prems have "distinct (map rec_id ws)" "r \<in> set ws" by auto
    from Cons.IH[OF this, of "l + 1" "dset (rec_id w) (live_row now l w) p"]
    obtain m where "l + 1 \<le> m" "m < l + 1 + int (length ws)"
      "dget (put_winners now (l + 1) ws (dset (rec_id w) (live_row now l w) p)) (rec_id r) =
        Some (live_row now m r)" by blast
    then show ?thesis by (intro exI[of _ m]) simp
  qed
qed simp

lemma part_ok_dset:
  assumes "part_ok t p" and "t < r_lsn r" and "t' = r_lsn r"
  shows "part_ok t' (dset i r p)"
  using assms unfolding part_ok_def
  by (auto simp: pdict_simps split: if_splits) fastforce+

lemma part_ok_mono: "part_ok t p \<Longrightarrow> t \<le> t' \<Longrightarrow> part_ok t' p"
  by (auto simp: part_ok_def) (meson order_trans)

lemma part_ok_filter: "part_ok t p \<Longrightarrow> part_ok t (filter P p)"
  by (auto simp: part_ok_def dget_filter split: option.splits if_splits)

lemma part_ok_put_winners:
  "part_ok (l - 1) p \<Longrightarrow> 0 < l \<Longrightarrow> part_ok (l - 1 + int (length ws)) (put_winners now l ws p)"
proof (induction ws arbitrary: l p)
  case (Cons w ws)
  have "part_ok l (dset (rec_id w) (live_row now l w) p)"
    using Cons.prems by (intro part_ok_dset[of "l - 1"]) (auto simp: live_row_def)
  with Cons.IH[of "l + 1" "dset (rec_id w) (live_row now l w) p"] Cons.prems(2)
  show ?case by (simp add: algebra_simps)
qed simp

section \<open>One lemma per operation\<close>

abbreviation winners :: "vrec list \<Rightarrow> vrec list" where
  "winners recs \<equiv> map snd (last_wins rec_id recs)"

lemma length_winners: "int (length (winners recs)) = int (card (rec_id ` set recs))"
  by (metis distinct_card distinct_last_wins last_wins_ids length_map)

lemma mem_upsert_eq:
  assumes "recs \<noteq> []"
  shows "snd (mem_upsert s k now recs) =
    (let s1 = snd (alloc_block s k (int (length (winners recs)))) in
     s1\<lparr>mem_parts := dset k (put_winners now (mem_top s k + 1) (winners recs) (mem_part s k))
          (mem_parts s1)\<rparr>)"
  using assms
  by (auto simp: mem_upsert_def alloc_block_def Let_def mem_top_def mem_part_def)

lemma mem_upsert_part:
  "mem_part (snd (mem_upsert s k now recs)) k' =
     (if k' = k then put_winners now (mem_top s k + 1) (winners recs) (mem_part s k)
      else mem_part s k')"
proof (cases "recs = []")
  case True
  then show ?thesis by (simp add: mem_upsert_def last_wins_def)
next
  case False
  then show ?thesis
    by (auto simp: mem_upsert_eq Let_def alloc_block_def mem_part_def pdict_simps)
qed

lemma mem_upsert_top:
  "mem_top (snd (mem_upsert s k now recs)) k' =
     (if k' = k then mem_top s k + int (card (rec_id ` set recs)) else mem_top s k')"
proof (cases "recs = []")
  case True
  then show ?thesis by (simp add: mem_upsert_def)
next
  case False
  then show ?thesis
    using length_winners[of recs]
    by (auto simp: mem_upsert_eq Let_def alloc_block_def mem_top_def pdict_simps)
qed

lemma mem_upsert_count: "fst (mem_upsert s k now recs) = int (card (rec_id ` set recs))"
  using length_winners[of recs]
  by (auto simp: mem_upsert_def alloc_block_def Let_def)

lemma mem_upsert_ok:
  assumes "mem_ok s"
  shows "mem_ok (snd (mem_upsert s k now recs))"
proof -
  have "part_ok (mem_top s k) (mem_part s k)" "0 \<le> mem_top s k"
    using mem_okD[OF assms, of k] by (auto simp: part_ok_def)
  then have "part_ok (mem_top s k + int (length (winners recs)))
      (put_winners now (mem_top s k + 1) (winners recs) (mem_part s k))"
    using part_ok_put_winners[of "mem_top s k + 1" "mem_part s k" "winners recs" now] by simp
  then show ?thesis
    using assms length_winners[of recs]
    by (intro mem_okI) (simp add: mem_okD mem_upsert_part mem_upsert_top)
qed

lemma mem_upsert_hit:
  assumes "find_last (\<lambda>r. rec_id r = i) recs = Some r"
  shows "\<exists>l. mem_top s k < l \<and> mem_look (snd (mem_upsert s k now recs)) k i =
    Some \<lparr>c_values = rec_values r, c_metadata = meta_or (rec_metadata r), c_lsn = l, c_deleted = False\<rparr>"
proof -
  have r: "r \<in> set (winners recs)" and i: "rec_id r = i"
    using assms dget_in[OF dkeys_ok_last_wins, of i r rec_id recs] find_last_SomeD[OF assms]
    by (force simp: dget_last_wins)+
  from put_winners_in[OF distinct_last_wins r, of "mem_top s k + 1" now "mem_part s k"] i
  show ?thesis by (auto simp: mem_look_def mem_upsert_part live_row_def row_cell_def)
qed

lemma mem_upsert_miss:
  assumes "i \<notin> rec_id ` set recs"
  shows "mem_look (snd (mem_upsert s k now recs)) k i = mem_look s k i"
proof -
  have "i \<notin> rec_id ` set (winners recs)"
    using assms last_wins_ids[of rec_id recs] by (metis list.set_map)
  then show ?thesis by (simp add: mem_look_def mem_upsert_part put_winners_notin)
qed

lemma mem_delete_parts:
  "mem_part (snd (mem_delete s k now i dm)) k' =
     (if k' = k
      then dset i \<lparr>r_values = (case dget (mem_part s k) i of None \<Rightarrow> zero_vec dm | Some r \<Rightarrow> r_values r),
                   r_metadata = (case dget (mem_part s k) i of None \<Rightarrow> [] | Some r \<Rightarrow> r_metadata r),
                   r_lsn = mem_top s k + 1, r_deleted = True, r_created_at = now\<rparr> (mem_part s k)
      else mem_part s k')"
  by (auto simp: mem_delete_def alloc_block_def Let_def mem_part_def mem_top_def pdict_simps)

lemma mem_delete_top:
  "mem_top (snd (mem_delete s k now i dm)) k' = (if k' = k then mem_top s k + 1 else mem_top s k')"
  by (auto simp: mem_delete_def alloc_block_def Let_def mem_top_def pdict_simps)

lemma mem_delete_lsn: "fst (mem_delete s k now i dm) = mem_top s k + 1"
  by (simp add: mem_delete_def alloc_block_def Let_def mem_top_def)

lemma mem_delete_ok: "mem_ok s \<Longrightarrow> mem_ok (snd (mem_delete s k now i dm))"
  by (intro mem_okI) (auto simp: mem_okD mem_delete_parts mem_delete_top intro!: part_ok_dset[of "mem_top s k"])

lemma mem_trim_part:
  assumes "mem_ok s"
  shows "mem_part (snd (mem_trim s k g)) k' =
    (if k' = k then filter (\<lambda>(i, r). \<not> r_lsn r \<le> g) (mem_part s k) else mem_part s k')"
proof -
  have pos: "0 < r_lsn r" if "(i, r) \<in> set (mem_part s k)" for i r
    using mem_okD[OF assms, of k] that by (auto simp: part_ok_def dget_in)
  show ?thesis
  proof (cases "g \<le> 0")
    case True
    then have "filter (\<lambda>(i, r). \<not> r_lsn r \<le> g) (mem_part s k) = mem_part s k"
      using pos by (fastforce simp: filter_id_conv)
    with True show ?thesis by (simp add: mem_trim_def)
  next
    case False
    then show ?thesis
      by (auto simp: mem_trim_def mem_part_def dget_or_def pdict_simps split: option.splits)
  qed
qed

lemma mem_trim_top: "mem_top (snd (mem_trim s k g)) = mem_top s"
  by (auto simp: mem_trim_def mem_top_def fun_eq_iff split: option.splits)

lemma mem_trim_ok: "mem_ok s \<Longrightarrow> mem_ok (snd (mem_trim s k g))"
  by (intro mem_okI) (simp add: mem_okD mem_trim_part mem_trim_top part_ok_filter)

lemma mem_trim_look:
  assumes "mem_ok s"
  shows "mem_look (snd (mem_trim s k g)) k i =
    (case mem_look s k i of None \<Rightarrow> None | Some c \<Rightarrow> if c_lsn c \<le> g then None else Some c)"
proof -
  have "dkeys_ok (mem_part s k)" using mem_okD[OF assms, of k] by (simp add: part_ok_def)
  then show ?thesis
    by (auto simp: mem_look_def mem_trim_part[OF assms] dget_filter split: option.splits)
qed

section \<open>Snapshots\<close>

lemma snapshot_rows_mem:
  "snd (mem_snapshot_for_consolidation s k) = sort_key s_lsn (map snap_of (mem_part s k))"
  by (simp add: mem_snapshot_for_consolidation_def Let_def)

lemma mem_snapshot_in:
  assumes "mem_ok s"
  shows "x \<in> set (snd (mem_snapshot_for_consolidation s k)) \<longleftrightarrow> mem_look s k (s_id x) = Some (snap_cell x)"
proof -
  have ok: "dkeys_ok (mem_part s k)" using mem_okD[OF assms, of k] by (simp add: part_ok_def)
  have "x \<in> set (map snap_of (mem_part s k)) \<longleftrightarrow> (\<exists>r. (s_id x, r) \<in> set (mem_part s k) \<and> snap_of (s_id x, r) = x)"
    by force
  also have "\<dots> \<longleftrightarrow> (\<exists>r. dget (mem_part s k) (s_id x) = Some r \<and> snap_of (s_id x, r) = x)"
    by (simp add: dget_in[OF ok])
  also have "\<dots> \<longleftrightarrow> mem_look s k (s_id x) = Some (snap_cell x)"
    by (cases x) (auto simp: mem_look_def snap_of_def snap_cell_def row_cell_def)
  finally show ?thesis by (simp add: snapshot_rows_mem)
qed

lemma mem_snapshot_distinct:
  assumes "mem_ok s"
  shows "distinct (map s_id (snd (mem_snapshot_for_consolidation s k)))"
proof -
  have fs: "map s_id (map snap_of p) = map fst p" for p by auto
  have "distinct (map s_id (map snap_of (mem_part s k)))"
    using mem_okD[OF assms, of k] unfolding fs by (simp add: part_ok_def dkeys_ok_def)
  then show ?thesis by (simp add: snapshot_rows_mem)
qed

interpretation mem: recall_store mem_upsert mem_delete mem_trim mem_snapshot_for_consolidation
  mem_look mem_top "\<lambda>v. v" mem_ok
proof (unfold_locales, goal_cases)
  case (1 s k) then show ?case using mem_okD[of s k] by (simp add: part_ok_def)
next
  case (2 s k i c) then show ?case using mem_okD[of s k] by (auto simp: part_ok_def mem_look_def)
next
  case (3 s k i c j d)
  then show ?case using mem_okD[of s k] by (auto simp: part_ok_def mem_look_def)
next
  case (4 s k now recs) then show ?case by (rule mem_upsert_ok)
next
  case (5 s k now recs) show ?case by (rule mem_upsert_count)
next
  case (6 s k now recs) show ?case by (simp add: mem_upsert_top)
next
  case (7 s i recs r k now) then show ?case by (intro mem_upsert_hit)
next
  case (8 s i recs k now) then show ?case by (intro mem_upsert_miss)
next
  case (9 k' k s now recs) then show ?case by (auto simp: mem_look_def mem_upsert_part mem_upsert_top)
next
  case (10 s k now i dm) then show ?case by (rule mem_delete_ok)
next
  case (11 s k now i dm) show ?case by (simp add: mem_delete_top)
next
  case (12 s k now i dm) show ?case by (rule mem_delete_lsn)
next
  case (13 s k now i dm) show ?case by (simp add: mem_look_def mem_delete_parts pdict_simps)
next
  case (14 s j i k now dm) then show ?case by (simp add: mem_look_def mem_delete_parts pdict_simps)
next
  case (15 k' k s now i dm) then show ?case by (auto simp: mem_look_def mem_delete_parts mem_delete_top)
next
  case (16 s k g) then show ?case by (rule mem_trim_ok)
next
  case (17 s k g) show ?case by (rule mem_trim_top)
next
  case (18 s k g i) then show ?case by (rule mem_trim_look)
next
  case (19 s k' k g)
  then show ?case by (auto simp: mem_look_def mem_trim_def mem_part_def dget_or_def pdict_simps split: option.splits)
next
  case (20 s x k) then show ?case by (rule mem_snapshot_in)
next
  case (21 s k) then show ?case by (rule mem_snapshot_distinct)
next
  case (22 s k) show ?case by (simp add: snapshot_rows_mem)
next
  case (23 s k) show ?case by (simp add: mem_snapshot_for_consolidation_def Let_def)
qed

end
