(* ===== verification/Recall_Pg_Correct.thy ===== *)
theory Recall_Pg_Correct
  imports Recall_Pg Memtable_Correct
begin

text \<open>
  The pgvector backend satisfies the same recall contract as the memtable, with \<open>pg_store\<close> (the
  value a vector has after its trip through the column) in place of the identity. The invariant
  adds what the code relies on of pgvector: the text of every stored embedding parses.
\<close>

section \<open>Abstraction and invariant\<close>

definition pg_top :: "pgrecall \<Rightarrow> key \<Rightarrow> int" where
  "pg_top s k = dget_or (pg_seq s) k 0"

definition pg_decode :: "pgenv \<Rightarrow> string \<Rightarrow> vec" where
  "pg_decode env t = (case pgvector_literal_to_list (pv_float env) t of Inl _ \<Rightarrow> [] | Inr v \<Rightarrow> v)"

definition pg_readable :: "pgenv \<Rightarrow> string \<Rightarrow> bool" where
  "pg_readable env t \<longleftrightarrow> (\<exists>v. pgvector_literal_to_list (pv_float env) t = Inr v)"

definition pg_store :: "pgenv \<Rightarrow> vec \<Rightarrow> vec" where
  "pg_store env v = pg_decode env (pv_col env (to_pgvector_literal (pv_repr env) v))"

definition pg_env_ok :: "pgenv \<Rightarrow> bool" where
  "pg_env_ok env \<longleftrightarrow> (\<forall>v. pg_readable env (pv_col env (to_pgvector_literal (pv_repr env) v)))"

definition pg_cell :: "pgenv \<Rightarrow> pgcols \<Rightarrow> cell" where
  "pg_cell env c = \<lparr>c_values = pg_decode env (e_text c), c_metadata = e_metadata c,
     c_lsn = e_lsn c, c_deleted = e_deleted c\<rparr>"

definition pg_look :: "pgenv \<Rightarrow> pgrecall \<Rightarrow> key \<Rightarrow> vid \<Rightarrow> cell option" where
  "pg_look env s k i = map_option (pg_cell env) (dget (pg_vectors s) (k, i))"

type_synonym pgtable = "(key \<times> vid, pgcols) pdict"

definition tab_ok :: "pgenv \<Rightarrow> key \<Rightarrow> int \<Rightarrow> pgtable \<Rightarrow> bool" where
  "tab_ok env k t tab \<longleftrightarrow> 0 \<le> t \<and>
     (\<forall>i c. dget tab (k, i) = Some c \<longrightarrow> 0 < e_lsn c \<and> e_lsn c \<le> t \<and> pg_readable env (e_text c)) \<and>
     (\<forall>i j c d. dget tab (k, i) = Some c \<longrightarrow> dget tab (k, j) = Some d \<longrightarrow> e_lsn c = e_lsn d \<longrightarrow> i = j)"

definition pg_ok :: "pgenv \<Rightarrow> pgrecall \<Rightarrow> bool" where
  "pg_ok env s \<longleftrightarrow> pg_env_ok env \<and> dkeys_ok (pg_vectors s) \<and>
     (\<forall>k. tab_ok env k (pg_top s k) (pg_vectors s))"

text \<open>A snapshot of readable rows does not raise, so its value can be taken.\<close>

definition pg_snap :: "pgenv \<Rightarrow> pgrecall \<Rightarrow> key \<Rightarrow> int \<times> snap list" where
  "pg_snap env s k = (case pg_snapshot_for_consolidation env s k of Inl _ \<Rightarrow> (0, []) | Inr x \<Rightarrow> x)"

lemma pg_okD:
  assumes "pg_ok env s"
  shows "pg_env_ok env" "dkeys_ok (pg_vectors s)" "tab_ok env k (pg_top s k) (pg_vectors s)"
  using assms by (cases k, simp_all add: pg_ok_def)+

lemma pg_okI:
  "pg_env_ok env \<Longrightarrow> dkeys_ok (pg_vectors s) \<Longrightarrow> (\<And>k. tab_ok env k (pg_top s k) (pg_vectors s)) \<Longrightarrow> pg_ok env s"
  unfolding pg_ok_def by blast

lemma pg_cell_sel [simp]:
  "c_values (pg_cell env c) = pg_decode env (e_text c)" "c_metadata (pg_cell env c) = e_metadata c"
  "c_lsn (pg_cell env c) = e_lsn c" "c_deleted (pg_cell env c) = e_deleted c"
  by (simp_all add: pg_cell_def)

lemma tab_ok_dset:
  assumes "tab_ok env k t tab" and "t < e_lsn c" and "pg_readable env (e_text c)" and "t' = e_lsn c"
  shows "tab_ok env k t' (dset (k, i) c tab)"
  using assms unfolding tab_ok_def
  by (auto simp: pdict_simps split: if_splits) fastforce+

lemma tab_ok_dset_other:
  "k' \<noteq> k \<Longrightarrow> tab_ok env k' t (dset (k, i) c tab) \<longleftrightarrow> tab_ok env k' t tab"
  by (simp add: tab_ok_def pdict_simps)

lemma tab_ok_filter: "dkeys_ok tab \<Longrightarrow> tab_ok env k t tab \<Longrightarrow> tab_ok env k t (filter P tab)"
  by (auto simp: tab_ok_def dget_filter split: option.splits if_splits)

section \<open>The multi-row upsert\<close>

lemma pg_upsert_row_sel [simp]:
  "e_lsn (pg_upsert_row env k now l rec old) = l"
  "e_deleted (pg_upsert_row env k now l rec old) = False"
  "e_metadata (pg_upsert_row env k now l rec old) = meta_or (rec_metadata rec)"
  "e_text (pg_upsert_row env k now l rec old) = pv_col env (to_pgvector_literal (pv_repr env) (rec_values rec))"
  by (simp_all add: pg_upsert_row_def Let_def split: option.splits)

lemma pg_put_rows_notin:
  "k' \<noteq> k \<or> i \<notin> rec_id ` set ws \<Longrightarrow> dget (pg_put_rows env k now l ws t) (k', i) = dget t (k', i)"
  by (induction ws arbitrary: l t) (auto simp: pdict_simps)

lemma pg_put_rows_in:
  "distinct (map rec_id ws) \<Longrightarrow> r \<in> set ws \<Longrightarrow>
   \<exists>m c. l \<le> m \<and> dget (pg_put_rows env k now l ws t) (k, rec_id r) = Some c \<and> e_lsn c = m \<and>
     \<not> e_deleted c \<and> e_metadata c = meta_or (rec_metadata r) \<and>
     e_text c = pv_col env (to_pgvector_literal (pv_repr env) (rec_values r))"
proof (induction ws arbitrary: l t)
  case (Cons w ws)
  let ?t = "dset (k, rec_id w) (pg_upsert_row env k now l w (dget t (k, rec_id w))) t"
  show ?case
  proof (cases "r = w")
    case True
    with Cons.prems have "rec_id r \<notin> rec_id ` set ws" by simp
    with True show ?thesis by (simp add: pg_put_rows_notin pdict_simps)
  next
    case False
    with Cons.prems have "distinct (map rec_id ws)" "r \<in> set ws" by auto
    from Cons.IH[OF this, of "l + 1" ?t] show ?thesis by force
  qed
qed simp

lemma tab_ok_put_rows:
  "pg_env_ok env \<Longrightarrow> tab_ok env k (l - 1) t \<Longrightarrow> 0 < l \<Longrightarrow>
   tab_ok env k (l - 1 + int (length ws)) (pg_put_rows env k now l ws t)"
proof (induction ws arbitrary: l t)
  case (Cons w ws)
  let ?t = "dset (k, rec_id w) (pg_upsert_row env k now l w (dget t (k, rec_id w))) t"
  have "tab_ok env k l ?t"
    using Cons.prems by (intro tab_ok_dset[of env k "l - 1"]) (auto simp: pg_env_ok_def)
  with Cons.IH[of "l + 1" ?t] Cons.prems show ?case by (simp add: algebra_simps)
qed simp

lemma tab_ok_put_rows_other:
  "k' \<noteq> k \<Longrightarrow> tab_ok env k' t (pg_put_rows env k now l ws tab) \<longleftrightarrow> tab_ok env k' t tab"
  by (simp add: tab_ok_def pg_put_rows_notin)

lemma dkeys_ok_put_rows: "dkeys_ok t \<Longrightarrow> dkeys_ok (pg_put_rows env k now l ws t)"
  by (induction ws arbitrary: l t) auto

section \<open>One lemma per operation\<close>

lemma pg_bump_eq: "pg_bump s k n = (pg_top s k + n, s\<lparr>pg_seq := dset k (pg_top s k + n) (pg_seq s)\<rparr>)"
  by (simp add: pg_bump_def pg_top_def dget_or_def Let_def add.commute split: option.splits)

lemma pg_upsert_vectors:
  "pg_vectors (snd (pg_upsert env s k now recs)) =
     pg_put_rows env k now (pg_top s k + 1) (winners recs) (pg_vectors s)"
  by (simp add: pg_upsert_def pg_bump_eq Let_def last_wins_Nil_iff)
     (simp add: last_wins_def)

lemma pg_upsert_top:
  "pg_top (snd (pg_upsert env s k now recs)) k' =
     (if k' = k then pg_top s k + int (card (rec_id ` set recs)) else pg_top s k')"
  using length_winners[of recs]
  by (simp add: pg_upsert_def pg_bump_eq Let_def) (simp add: pg_top_def pdict_simps)

lemma pg_upsert_ok:
  assumes "pg_ok env s"
  shows "pg_ok env (snd (pg_upsert env s k now recs))"
proof (rule pg_okI)
  show "pg_env_ok env" by (rule pg_okD[OF assms])
  show "dkeys_ok (pg_vectors (snd (pg_upsert env s k now recs)))"
    using pg_okD(2)[OF assms] by (simp add: pg_upsert_vectors dkeys_ok_put_rows)
  fix k'
  have "tab_ok env k (pg_top s k) (pg_vectors s)" "0 \<le> pg_top s k"
    using pg_okD(3)[OF assms, of k] by (auto simp: tab_ok_def)
  then have "tab_ok env k (pg_top s k + int (length (winners recs)))
      (pg_put_rows env k now (pg_top s k + 1) (winners recs) (pg_vectors s))"
    using tab_ok_put_rows[of env k "pg_top s k + 1" "pg_vectors s" "winners recs" now] pg_okD(1)[OF assms]
    by simp
  then show "tab_ok env k' (pg_top (snd (pg_upsert env s k now recs)) k')
      (pg_vectors (snd (pg_upsert env s k now recs)))"
    using pg_okD(3)[OF assms, of k'] length_winners[of recs]
    by (cases "k' = k") (simp_all add: pg_upsert_vectors pg_upsert_top tab_ok_put_rows_other)
qed

lemma pg_upsert_hit:
  assumes "find_last (\<lambda>r. rec_id r = i) recs = Some r"
  shows "\<exists>l. pg_top s k < l \<and> pg_look env (snd (pg_upsert env s k now recs)) k i =
    Some \<lparr>c_values = pg_store env (rec_values r), c_metadata = meta_or (rec_metadata r), c_lsn = l,
      c_deleted = False\<rparr>"
proof -
  have r: "r \<in> set (winners recs)" and i: "rec_id r = i"
    using assms dget_in[OF dkeys_ok_last_wins, of i r rec_id recs] find_last_SomeD[OF assms]
    by (force simp: dget_last_wins)+
  from pg_put_rows_in[OF distinct_last_wins r, of "pg_top s k + 1" env k now "pg_vectors s"] i
  show ?thesis by (auto simp: pg_look_def pg_upsert_vectors pg_cell_def pg_store_def)
qed

lemma pg_upsert_miss:
  assumes "i \<notin> rec_id ` set recs"
  shows "pg_look env (snd (pg_upsert env s k now recs)) k i = pg_look env s k i"
proof -
  have "i \<notin> rec_id ` set (winners recs)"
    using assms last_wins_ids[of rec_id recs] by (metis list.set_map)
  then show ?thesis by (simp add: pg_look_def pg_upsert_vectors pg_put_rows_notin)
qed

lemma pg_delete_eq:
  "pg_delete env s k now i dm =
     (pg_top s k + 1,
      s\<lparr>pg_seq := dset k (pg_top s k + 1) (pg_seq s),
        pg_vectors := dset (k, i)
          (case dget (pg_vectors s) (k, i) of
             None \<Rightarrow> \<lparr>e_text = pv_col env (to_pgvector_literal (pv_repr env) (zero_vec dm)), e_metadata = [],
                      e_lsn = pg_top s k + 1, e_deleted = True, e_created_at = now\<rparr>
           | Some c \<Rightarrow> c\<lparr>e_lsn := pg_top s k + 1, e_deleted := True\<rparr>) (pg_vectors s)\<rparr>)"
  by (simp add: pg_delete_def pg_bump_eq Let_def)

lemma pg_top_vectors [simp]:
  "pg_top (s\<lparr>pg_seq := q\<rparr>) k = dget_or q k 0" "pg_top (s\<lparr>pg_vectors := t\<rparr>) k = pg_top s k"
  by (simp_all add: pg_top_def)

lemma pg_delete_ok:
  assumes "pg_ok env s"
  shows "pg_ok env (snd (pg_delete env s k now i dm))"
proof (rule pg_okI)
  show "pg_env_ok env" by (rule pg_okD[OF assms])
  show "dkeys_ok (pg_vectors (snd (pg_delete env s k now i dm)))"
    using pg_okD(2)[OF assms] by (simp add: pg_delete_eq)
  fix k'
  show "tab_ok env k' (pg_top (snd (pg_delete env s k now i dm)) k')
      (pg_vectors (snd (pg_delete env s k now i dm)))"
  proof (cases "k' = k")
    case True
    obtain c where c: "pg_vectors (snd (pg_delete env s k now i dm)) = dset (k, i) c (pg_vectors s)"
      and "e_lsn c = pg_top s k + 1" and "pg_readable env (e_text c)"
      using pg_okD(1)[OF assms] pg_okD(3)[OF assms, of k]
      by (auto simp: pg_delete_eq pg_env_ok_def tab_ok_def split: option.splits)
    then have "tab_ok env k (pg_top s k + 1) (pg_vectors (snd (pg_delete env s k now i dm)))"
      unfolding c using pg_okD(3)[OF assms, of k] by (intro tab_ok_dset[of env k "pg_top s k"]) auto
    with True show ?thesis by (simp add: pg_delete_eq pdict_simps)
  next
    case False
    then show ?thesis
      using pg_okD(3)[OF assms, of k'] by (simp add: pg_delete_eq pdict_simps tab_ok_dset_other pg_top_def)
  qed
qed

lemma pg_trim_vectors:
  assumes "pg_ok env s"
  shows "pg_vectors (snd (pg_trim s k g)) =
    filter (\<lambda>((k', i), c). \<not> (k' = k \<and> e_lsn c \<le> g)) (pg_vectors s)"
proof -
  have "0 < e_lsn c" if "((k, i), c) \<in> set (pg_vectors s)" for i c
    using pg_okD(2)[OF assms] pg_okD(3)[OF assms, of k] that by (auto simp: tab_ok_def dget_in)
  then have "g \<le> 0 \<Longrightarrow> filter (\<lambda>((k', i), c). \<not> (k' = k \<and> e_lsn c \<le> g)) (pg_vectors s) = pg_vectors s"
    by (fastforce simp: filter_id_conv)
  then show ?thesis by (simp add: pg_trim_def)
qed

lemma pg_trim_top: "pg_top (snd (pg_trim s k g)) = pg_top s"
  by (simp add: pg_trim_def fun_eq_iff)

lemma pg_trim_ok: "pg_ok env s \<Longrightarrow> pg_ok env (snd (pg_trim s k g))"
  by (intro pg_okI) (simp_all add: pg_okD pg_trim_vectors pg_trim_top tab_ok_filter)

section \<open>Snapshots\<close>

definition pg_snap_of :: "pgenv \<Rightarrow> vid \<times> pgcols \<Rightarrow> snap" where
  "pg_snap_of env = (\<lambda>(i, c). \<lparr>s_id = i, s_values = pg_decode env (e_text c), s_metadata = e_metadata c,
     s_lsn = e_lsn c, s_deleted = e_deleted c\<rparr>)"

lemma decode_rows_ok:
  "\<forall>(i, c) \<in> set rows. pg_readable env (e_text c) \<Longrightarrow>
   decode_rows (pv_float env) rows = Inr (map (pg_snap_of env) rows)"
  by (induction rows) (auto simp: pg_readable_def pg_snap_of_def pg_decode_def)

lemma decode_rows_lsn:
  "decode_rows fl rows = Inr rs \<Longrightarrow> map s_lsn rs = map (e_lsn \<circ> snd) rows"
  by (induction fl rows arbitrary: rs rule: decode_rows.induct) (auto split: sum.splits)

lemma pg_rows_in: "(i, c) \<in> set (pg_rows s k) \<longleftrightarrow> ((k, i), c) \<in> set (pg_vectors s)"
proof -
  have "(i, c) \<in> set [(i, c). ((k', i), c) \<leftarrow> t, k' = k] \<longleftrightarrow> ((k, i), c) \<in> set t" for t :: pgtable
    by (induction t) (auto split: prod.splits)
  then show ?thesis by (simp add: pg_rows_def)
qed

lemma distinct_pg_rows:
  assumes "dkeys_ok (pg_vectors s)"
  shows "distinct (map fst (pg_rows s k))"
proof -
  have "distinct (map fst t) \<Longrightarrow> distinct (map fst [(i, c). ((k', i), c) \<leftarrow> t, k' = k])" for t :: pgtable
    by (induction t) (auto simp: image_iff)
  with assms show ?thesis by (simp add: pg_rows_def dkeys_ok_def)
qed

lemma pg_bound: "filter (\<lambda>(i, c). e_lsn c \<le> Max (insert 0 (set (map (e_lsn \<circ> snd) (pg_rows s k))))) (pg_rows s k)
  = pg_rows s k"
proof -
  have "e_lsn c \<le> Max (insert 0 (set (map (e_lsn \<circ> snd) (pg_rows s k))))"
    if "(i, c) \<in> set (pg_rows s k)" for i c
  proof (rule Max_ge)
    show "e_lsn c \<in> insert 0 (set (map (e_lsn \<circ> snd) (pg_rows s k)))"
      using imageI[OF that, of "e_lsn \<circ> snd"] by simp
  qed simp
  then show ?thesis by (auto simp: filter_id_conv)
qed

lemma pg_snap_rows:
  assumes "pg_ok env s"
  shows "snd (pg_snap env s k) = map (pg_snap_of env) (sort_key (e_lsn \<circ> snd) (pg_rows s k))"
proof -
  have "\<forall>(i, c) \<in> set (sort_key (e_lsn \<circ> snd) (pg_rows s k)). pg_readable env (e_text c)"
    using pg_okD(2)[OF assms] pg_okD(3)[OF assms, of k] by (auto simp: tab_ok_def pg_rows_in dget_in)
  from decode_rows_ok[OF this] show ?thesis
    unfolding pg_snap_def pg_snapshot_for_consolidation_def Let_def pg_bound by simp
qed

lemma pg_snap_in:
  assumes "pg_ok env s"
  shows "x \<in> set (snd (pg_snap env s k)) \<longleftrightarrow> pg_look env s k (s_id x) = Some (snap_cell x)"
proof -
  have "x \<in> set (snd (pg_snap env s k)) \<longleftrightarrow>
      (\<exists>c. (s_id x, c) \<in> set (pg_rows s k) \<and> pg_snap_of env (s_id x, c) = x)"
    unfolding pg_snap_rows[OF assms] by (force simp: pg_snap_of_def)
  also have "\<dots> \<longleftrightarrow> (\<exists>c. dget (pg_vectors s) (k, s_id x) = Some c \<and> pg_snap_of env (s_id x, c) = x)"
    using pg_okD(2)[OF assms] by (simp add: pg_rows_in dget_in)
  also have "\<dots> \<longleftrightarrow> pg_look env s k (s_id x) = Some (snap_cell x)"
    by (cases x) (auto simp: pg_look_def pg_snap_of_def snap_cell_def pg_cell_def)
  finally show ?thesis .
qed

lemma pg_snap_distinct:
  assumes "pg_ok env s"
  shows "distinct (map s_id (snd (pg_snap env s k)))"
proof -
  have "map s_id (map (pg_snap_of env) xs) = map fst xs" for xs by (auto simp: pg_snap_of_def)
  moreover have "distinct (map fst (sort_key (e_lsn \<circ> snd) (pg_rows s k)))"
    using distinct_pg_rows[OF pg_okD(2)[OF assms], of k] by simp
  ultimately show ?thesis unfolding pg_snap_rows[OF assms] by (simp only:)
qed

lemma pg_snap_sorted: "sorted (map s_lsn (snd (pg_snap env s k)))"
  by (auto simp: pg_snap_def pg_snapshot_for_consolidation_def Let_def split: sum.splits
      dest!: decode_rows_lsn)

interpretation pg: recall_store "pg_upsert env" "pg_delete env" pg_trim "pg_snap env"
  "pg_look env" pg_top "pg_store env" "pg_ok env" for env
proof (unfold_locales, goal_cases)
  case (1 s k) then show ?case using pg_okD(3)[of env s k] by (simp add: tab_ok_def)
next
  case (2 s k i c) then show ?case using pg_okD(3)[of env s k] by (auto simp: tab_ok_def pg_look_def)
next
  case (3 s k i c j d)
  then show ?case using pg_okD(3)[of env s k] by (auto simp: tab_ok_def pg_look_def)
next
  case (4 s k now recs) then show ?case by (rule pg_upsert_ok)
next
  case (5 s k now recs) show ?case using length_winners[of recs]
    by (simp add: pg_upsert_def pg_bump_eq Let_def)
next
  case (6 s k now recs) show ?case by (simp add: pg_upsert_top)
next
  case (7 s i recs r k now) then show ?case by (intro pg_upsert_hit)
next
  case (8 s i recs k now) then show ?case by (intro pg_upsert_miss)
next
  case (9 k' k s now recs)
  then show ?case by (auto simp: pg_look_def pg_upsert_vectors pg_upsert_top pg_put_rows_notin)
next
  case (10 s k now i dm) then show ?case by (rule pg_delete_ok)
next
  case (11 s k now i dm) show ?case by (simp add: pg_delete_eq pdict_simps)
next
  case (12 s k now i dm) show ?case by (simp add: pg_delete_eq)
next
  case (13 s k now i dm) show ?case by (simp add: pg_look_def pg_delete_eq pdict_simps split: option.splits)
next
  case (14 s j i k now dm) then show ?case by (simp add: pg_look_def pg_delete_eq pdict_simps)
next
  case (15 k' k s now i dm)
  then show ?case by (auto simp: pg_look_def pg_delete_eq pdict_simps pg_top_def)
next
  case (16 s k g) then show ?case by (rule pg_trim_ok)
next
  case (17 s k g) show ?case by (rule pg_trim_top)
next
  case (18 s k g i)
  then show ?case using pg_okD(2)[of env s]
    by (auto simp: pg_look_def pg_trim_vectors dget_filter split: option.splits)
next
  case (19 s k' k g)
  then show ?case using pg_okD(2)[of env s]
    by (auto simp: pg_look_def pg_trim_vectors dget_filter split: option.splits)
next
  case (20 s x k) then show ?case by (rule pg_snap_in)
next
  case (21 s k) then show ?case by (rule pg_snap_distinct)
next
  case (22 s k) show ?case by (rule pg_snap_sorted)
next
  case (23 s k) show ?case
    by (simp add: pg_snap_def pg_snapshot_for_consolidation_def Let_def split: sum.splits)
qed

end
