(* ===== verification/Topk.thy ===== *)
theory Topk
  imports Memtable
begin

text \<open>
  The abstract contract of every ranked result in the system: the \<open>k\<close> candidates with the least
  scores, ascending. Search, the memtable and pgvector scans and the query union are each shown to
  meet it; two results that meet it for the same candidates have the same scores.
\<close>

definition top_of :: "'s::linorder match list \<Rightarrow> int \<Rightarrow> 's match list \<Rightarrow> bool" where
  "top_of cs k ms \<longleftrightarrow>
     sorted (map m_score ms) \<and> mset ms \<subseteq># mset cs \<and> length ms = min (nat k) (length cs) \<and>
     (\<forall>x \<in> set ms. \<forall>y \<in># mset cs - mset ms. m_score x \<le> m_score y)"

lemma mset_minus_take: "mset xs - mset (take n xs) = mset (drop n xs)"
  by (metis add_diff_cancel_left' append_take_drop_id mset_append)

lemma top_of_take_sorted:
  assumes "sorted (map m_score xs)" and "mset xs = mset cs"
  shows "top_of cs k (take (nat k) xs)"
proof -
  have "mset cs - mset (take (nat k) xs) = mset (drop (nat k) xs)"
    using assms(2) mset_minus_take by metis
  then have "\<forall>x \<in> set (take (nat k) xs). \<forall>y \<in># mset cs - mset (take (nat k) xs). m_score x \<le> m_score y"
    using take_sorted_le[OF assms(1)] by simp
  moreover have "mset (take (nat k) xs) \<subseteq># mset cs"
    using assms(2) by (metis append_take_drop_id mset_append mset_subset_eq_add_left)
  moreover have "length xs = length cs" using assms(2) by (metis size_mset)
  moreover have "sorted (map m_score (take (nat k) xs))"
    using assms(1) by (simp flip: take_map)
  ultimately show ?thesis by (simp add: top_of_def)
qed

lemma top_of_sort_key:
  assumes "\<And>x y. f x \<le> f y \<Longrightarrow> m_score x \<le> m_score y"
  shows "top_of cs k (take (nat k) (sort_key f cs))"
proof (rule top_of_take_sorted)
  have "sorted_wrt (\<lambda>x y. f x \<le> f y) (sort_key f cs)"
    using sorted_sort_key[of f cs] by (simp add: sorted_wrt_map)
  then have "sorted_wrt (\<lambda>x y. m_score x \<le> m_score y) (sort_key f cs)"
    by (rule sorted_wrt_mono_rel[rotated]) (use assms in auto)
  then show "sorted (map m_score (sort_key f cs))" by (simp add: sorted_wrt_map)
qed simp

text \<open>The scores of a top-k result are determined: the first \<open>k\<close> of the sorted scores.\<close>

lemma top_of_scores:
  assumes "top_of cs k ms"
  shows "map m_score ms = take (nat k) (sort (map m_score cs))"
proof -
  let ?rest = "mset cs - mset ms"
  obtain ys where ys: "mset ys = ?rest" by (metis ex_mset)
  let ?all = "map m_score ms @ sort (map m_score ys)"
  have "sorted ?all"
    using assms ys by (auto simp: top_of_def sorted_append simp flip: set_mset_mset)
  moreover have "mset ?all = mset (map m_score cs)"
    using assms ys by (simp add: top_of_def flip: image_mset_union)
  ultimately have all: "?all = sort (map m_score cs)" by (metis properties_for_sort)
  have len: "length ms = min (nat k) (length cs)" using assms by (simp add: top_of_def)
  show ?thesis
  proof (cases "nat k \<le> length cs")
    case True
    then show ?thesis using len by (simp flip: all)
  next
    case False
    then have "length ?all = length ms" using len all by simp
    then have "?all = map m_score ms" by simp
    with all False show ?thesis using len by simp
  qed
qed

corollary top_of_same_scores:
  assumes "top_of cs k ms" and "top_of cs' k ns" and "mset (map m_score cs) = mset (map m_score cs')"
  shows "map m_score ms = map m_score ns"
proof -
  have "sort (map m_score cs) = sort (map m_score cs')"
    by (rule properties_for_sort) (simp_all only: mset_sort assms(3) sorted_sort)
  then show ?thesis using assms(1,2) by (simp add: top_of_scores)
qed

lemma top_of_subset: "top_of cs k ms \<Longrightarrow> set ms \<subseteq> set cs"
  by (metis mset_subset_eqD set_mset_mset subsetI top_of_def)

text \<open>A candidate that is not returned is outranked by everything returned, and the list is full.\<close>

lemma top_of_missing:
  assumes "top_of cs k ms" and "c \<in> set cs" and "c \<notin> set ms"
  shows "length ms = nat k \<and> (\<forall>m \<in> set ms. m_score m \<le> m_score c)"
proof -
  have "c \<in># mset cs - mset ms" using assms(2,3)
    by (metis count_greater_zero_iff count_inI in_diff_count set_mset_mset)
  moreover have "length ms < length cs"
  proof -
    have "mset ms \<noteq> mset cs" using assms(2,3) by (metis set_mset_mset)
    with assms(1) have "mset ms \<subset># mset cs" by (simp add: top_of_def subset_mset.less_le)
    then show ?thesis by (metis mset_subset_size size_mset)
  qed
  ultimately show ?thesis using assms(1) by (auto simp: top_of_def)
qed

lemma top_of_distinct:
  assumes "top_of cs k ms" and "distinct (map m_id cs)"
  shows "distinct (map m_id ms)"
proof -
  obtain ys where "mset cs = mset (ms @ ys)"
    using assms(1) by (metis ex_mset mset_append subset_mset.le_iff_add top_of_def)
  then have "mset (map m_id cs) = mset (map m_id (ms @ ys))" by (simp only: mset_map)
  with assms(2) have "distinct (map m_id (ms @ ys))" by (metis mset_eq_imp_distinct_iff)
  then show ?thesis by simp
qed

end
