(* ===== verification/Recall.thy ===== *)
theory Recall
  imports Recall_Pg_Correct Topk
begin

text \<open>
  The recall package's dispatch, \<open>adapters/recall/__init__.py\<close>: every public function goes to the
  memtable when \<open>RB_RECALL_BACKEND=memory\<close> and to pgvector otherwise. The dispatcher meets the
  recall contract whichever backend the configuration picks; both searches meet one ranking
  contract (\<open>search_result\<close>).
\<close>

section \<open>Configuration and dispatch\<close>

record recall_cfg =
  cfg_recall :: bool
  cfg_dsn :: "string option"
  cfg_backend :: string

record recall_state =
  rs_mem :: memrecall
  rs_pg :: pgrecall

definition use_memory_backend :: "recall_cfg \<Rightarrow> bool" where
  "use_memory_backend cfg = (cfg_backend cfg = ''memory'')"

definition recall_enabled :: "recall_cfg \<Rightarrow> bool" where
  "recall_enabled cfg =
     (if \<not> cfg_recall cfg then False else cfg_dsn cfg \<noteq> None \<or> use_memory_backend cfg)"

definition on_mem :: "recall_state \<Rightarrow> 'a \<times> memrecall \<Rightarrow> 'a \<times> recall_state" where
  "on_mem s r = (fst r, s\<lparr>rs_mem := snd r\<rparr>)"

definition on_pg :: "recall_state \<Rightarrow> 'a \<times> pgrecall \<Rightarrow> 'a \<times> recall_state" where
  "on_pg s r = (fst r, s\<lparr>rs_pg := snd r\<rparr>)"

definition recall_upsert_vectors ::
  "pgenv \<Rightarrow> recall_cfg \<Rightarrow> recall_state \<Rightarrow> key \<Rightarrow> time \<Rightarrow> vrec list \<Rightarrow> int \<times> recall_state" where
  "recall_upsert_vectors env cfg s k now records =
     (if use_memory_backend cfg then on_mem s (mem_upsert (rs_mem s) k now records)
      else on_pg s (pg_upsert env (rs_pg s) k now records))"

definition recall_delete_vector ::
  "pgenv \<Rightarrow> recall_cfg \<Rightarrow> recall_state \<Rightarrow> key \<Rightarrow> time \<Rightarrow> vid \<Rightarrow> int \<Rightarrow> int \<times> recall_state" where
  "recall_delete_vector env cfg s k now i dm =
     (if use_memory_backend cfg then on_mem s (mem_delete (rs_mem s) k now i dm)
      else on_pg s (pg_delete env (rs_pg s) k now i dm))"

definition recall_trim :: "recall_cfg \<Rightarrow> recall_state \<Rightarrow> key \<Rightarrow> int \<Rightarrow> int \<times> recall_state" where
  "recall_trim cfg s k grace =
     (if use_memory_backend cfg then on_mem s (mem_trim (rs_mem s) k grace)
      else on_pg s (pg_trim (rs_pg s) k grace))"

definition recall_snapshot_for_consolidation ::
  "pgenv \<Rightarrow> recall_cfg \<Rightarrow> recall_state \<Rightarrow> key \<Rightarrow> pyexc + (int \<times> snap list)" where
  "recall_snapshot_for_consolidation env cfg s k =
     (if use_memory_backend cfg then Inr (mem_snapshot_for_consolidation (rs_mem s) k)
      else pg_snapshot_for_consolidation env (rs_pg s) k)"

definition recall_search ::
  "pgenv \<Rightarrow> recall_cfg \<Rightarrow> (vec \<Rightarrow> vec \<Rightarrow> 's::linorder) \<Rightarrow> (string \<Rightarrow> string \<Rightarrow> 's) \<Rightarrow> ('s \<Rightarrow> 's)
   \<Rightarrow> dberr option \<Rightarrow> recall_state \<Rightarrow> key \<Rightarrow> vec \<Rightarrow> int \<Rightarrow> int \<Rightarrow> meta option
   \<Rightarrow> recall_error + (vid set \<times> 's match list)" where
  "recall_search env cfg sqdist dst sq fault s k q top_k watermark flt =
     (if use_memory_backend cfg then Inr (mem_search sqdist (rs_mem s) k q top_k watermark flt)
      else pg_search env dst sq fault (rs_pg s) k q top_k watermark flt)"

definition recall_get_vector ::
  "recall_cfg \<Rightarrow> recall_state \<Rightarrow> key \<Rightarrow> vid \<Rightarrow> int \<Rightarrow> status option \<times> meta option" where
  "recall_get_vector cfg s k i watermark =
     (if use_memory_backend cfg then mem_get_vector (rs_mem s) k i watermark
      else pg_get_vector (rs_pg s) k i watermark)"

definition recall_get_vector_with_embedding ::
  "pgenv \<Rightarrow> recall_cfg \<Rightarrow> recall_state \<Rightarrow> key \<Rightarrow> vid \<Rightarrow> int
   \<Rightarrow> pyexc + (status option \<times> meta option \<times> vec option)" where
  "recall_get_vector_with_embedding env cfg s k i watermark =
     (if use_memory_backend cfg then Inr (mem_get_vector_with_embedding (rs_mem s) k i watermark)
      else pg_get_vector_with_embedding env (rs_pg s) k i watermark)"

definition recall_list_rows :: "recall_cfg \<Rightarrow> recall_state \<Rightarrow> key \<Rightarrow> int \<Rightarrow> (vid \<times> meta) list \<times> vid set" where
  "recall_list_rows cfg s k watermark =
     (if use_memory_backend cfg then mem_list_rows (rs_mem s) k watermark
      else pg_list_rows (rs_pg s) k watermark)"

definition recall_partition_count :: "recall_cfg \<Rightarrow> recall_state \<Rightarrow> key \<Rightarrow> int" where
  "recall_partition_count cfg s k =
     (if use_memory_backend cfg then mem_partition_count (rs_mem s) k
      else pg_partition_count (rs_pg s) k)"

definition recall_idle_partitions :: "recall_cfg \<Rightarrow> recall_state \<Rightarrow> time \<Rightarrow> int \<Rightarrow> key list" where
  "recall_idle_partitions cfg s now idle =
     (if use_memory_backend cfg then mem_idle_partitions (rs_mem s) now idle
      else pg_idle_partitions (rs_pg s) now idle)"

section \<open>The dispatcher meets the contract\<close>

definition rs_look :: "pgenv \<Rightarrow> recall_cfg \<Rightarrow> recall_state \<Rightarrow> key \<Rightarrow> vid \<Rightarrow> cell option" where
  "rs_look env cfg s = (if use_memory_backend cfg then mem_look (rs_mem s) else pg_look env (rs_pg s))"

definition rs_top :: "recall_cfg \<Rightarrow> recall_state \<Rightarrow> key \<Rightarrow> int" where
  "rs_top cfg s = (if use_memory_backend cfg then mem_top (rs_mem s) else pg_top (rs_pg s))"

definition rs_store :: "pgenv \<Rightarrow> recall_cfg \<Rightarrow> vec \<Rightarrow> vec" where
  "rs_store env cfg = (if use_memory_backend cfg then (\<lambda>v. v) else pg_store env)"

definition rs_ok :: "pgenv \<Rightarrow> recall_cfg \<Rightarrow> recall_state \<Rightarrow> bool" where
  "rs_ok env cfg s = (if use_memory_backend cfg then mem_ok (rs_mem s) else pg_ok env (rs_pg s))"

definition rs_snap :: "pgenv \<Rightarrow> recall_cfg \<Rightarrow> recall_state \<Rightarrow> key \<Rightarrow> int \<times> snap list" where
  "rs_snap env cfg s k =
     (if use_memory_backend cfg then mem_snapshot_for_consolidation (rs_mem s) k
      else pg_snap env (rs_pg s) k)"

lemmas rs_defs = rs_look_def rs_top_def rs_store_def rs_ok_def rs_snap_def on_mem_def on_pg_def
  recall_upsert_vectors_def recall_delete_vector_def recall_trim_def

interpretation rs: recall_store "recall_upsert_vectors env cfg" "recall_delete_vector env cfg"
  "recall_trim cfg" "rs_snap env cfg" "rs_look env cfg" "rs_top cfg" "rs_store env cfg" "rs_ok env cfg"
  for env cfg
proof (cases "use_memory_backend cfg")
  case True
  then show "recall_store (recall_upsert_vectors env cfg) (recall_delete_vector env cfg)
      (recall_trim cfg) (rs_snap env cfg) (rs_look env cfg) (rs_top cfg) (rs_store env cfg) (rs_ok env cfg)"
    by unfold_locales
       (simp_all add: rs_defs mem.top_nonneg mem.upsert_ok mem.upsert_count mem.upsert_top
         mem.upsert_hit mem.upsert_miss mem.upsert_frame mem.delete_ok mem.delete_top mem.delete_lsn
         mem.delete_hit mem.delete_miss mem.delete_frame mem.trim_ok mem.trim_top mem.trim_look
         mem.trim_frame mem.snapshot_rows mem.snapshot_distinct mem.snapshot_sorted mem.snapshot_max
         mem.look_bounds mem.look_inj)
next
  case False
  then show "recall_store (recall_upsert_vectors env cfg) (recall_delete_vector env cfg)
      (recall_trim cfg) (rs_snap env cfg) (rs_look env cfg) (rs_top cfg) (rs_store env cfg) (rs_ok env cfg)"
    by unfold_locales
       (simp_all add: rs_defs pg.top_nonneg pg.upsert_ok pg.upsert_count pg.upsert_top
         pg.upsert_hit pg.upsert_miss pg.upsert_frame pg.delete_ok pg.delete_top pg.delete_lsn
         pg.delete_hit pg.delete_miss pg.delete_frame pg.trim_ok pg.trim_top pg.trim_look
         pg.trim_frame pg.snapshot_rows pg.snapshot_distinct pg.snapshot_sorted pg.snapshot_max
         pg.look_bounds pg.look_inj)
qed

lemma rs_snap_Inr:
  assumes "rs_ok env cfg s"
  shows "recall_snapshot_for_consolidation env cfg s k = Inr (rs_snap env cfg s k)"
proof (cases "use_memory_backend cfg")
  case False
  with assms have ok: "pg_ok env (rs_pg s)" by (simp add: rs_ok_def)
  have "\<forall>(i, c) \<in> set (sort_key (e_lsn \<circ> snd) (pg_rows (rs_pg s) k)). pg_readable env (e_text c)"
    using pg_okD(2)[OF ok] pg_okD(3)[OF ok, of k] by (auto simp: tab_ok_def pg_rows_in dget_in)
  from decode_rows_ok[OF this] False show ?thesis
    unfolding recall_snapshot_for_consolidation_def rs_snap_def pg_snap_def
      pg_snapshot_for_consolidation_def Let_def pg_bound by simp
qed (simp add: recall_snapshot_for_consolidation_def rs_snap_def)

section \<open>The ranking contract of both searches\<close>

definition cand_set :: "(vec \<Rightarrow> 's) \<Rightarrow> (vid \<Rightarrow> cell option) \<Rightarrow> int \<Rightarrow> meta \<Rightarrow> 's match set" where
  "cand_set sc look w flt =
     {\<lparr>m_id = i, m_score = sc (c_values c), m_metadata = c_metadata c\<rparr> | i c.
        look i = Some c \<and> w < c_lsn c \<and> \<not> c_deleted c \<and> metadata_matches_filter (c_metadata c) flt}"

definition search_result ::
  "(vec \<Rightarrow> 's::linorder) \<Rightarrow> (vid \<Rightarrow> cell option) \<Rightarrow> int \<Rightarrow> int \<Rightarrow> meta \<Rightarrow> vid set \<times> 's match list \<Rightarrow> bool" where
  "search_result sc look top_k w flt r \<longleftrightarrow>
     fst r = {i. \<exists>c. look i = Some c \<and> w < c_lsn c} \<and>
     (\<exists>cs. distinct (map m_id cs) \<and> set cs = cand_set sc look w flt \<and> top_of cs top_k (snd r))"

lemma search_result_fst:
  "search_result sc look top_k w flt r \<Longrightarrow> fst r = {i. \<exists>c. look i = Some c \<and> w < c_lsn c}"
  unfolding search_result_def by (elim conjE)

text \<open>Two results for the same candidates suppress the same ids and list the same scores.\<close>

lemma search_result_unique:
  assumes "search_result sc look top_k w flt r" and "search_result sc look top_k w flt r'"
  shows "fst r = fst r' \<and> map m_score (snd r) = map m_score (snd r')"
proof -
  obtain cs cs' where cs: "distinct (map m_id cs)" "set cs = cand_set sc look w flt" "top_of cs top_k (snd r)"
    "distinct (map m_id cs')" "set cs' = cand_set sc look w flt" "top_of cs' top_k (snd r')"
    using assms by (auto simp: search_result_def)
  then have "mset cs = mset cs'"
    using set_eq_iff_mset_eq_distinct[of cs cs'] by (simp add: distinct_map)
  then have "mset (map m_score cs) = mset (map m_score cs')" by (simp only: mset_map)
  then have "map m_score (snd r) = map m_score (snd r')" by (rule top_of_same_scores[OF cs(3,6)])
  moreover have "fst r = {i. \<exists>c. look i = Some c \<and> w < c_lsn c}"
    and "fst r' = {i. \<exists>c. look i = Some c \<and> w < c_lsn c}"
    by (rule search_result_fst[OF assms(1)], rule search_result_fst[OF assms(2)])
  ultimately show ?thesis by (simp only:)
qed

lemma search_result_suppresses:
  assumes "search_result sc look top_k w flt r"
  shows "m_id ` set (snd r) \<subseteq> fst r"
proof
  fix i
  assume "i \<in> m_id ` set (snd r)"
  then obtain m where m: "m \<in> set (snd r)" "i = m_id m" by blast
  obtain cs where "set cs = cand_set sc look w flt" "top_of cs top_k (snd r)"
    using assms unfolding search_result_def by blast
  with m(1) have "m \<in> cand_set sc look w flt" using top_of_subset by blast
  then show "i \<in> fst r" using m(2) by (auto simp: cand_set_def search_result_fst[OF assms])
qed

definition snap_live :: "meta \<Rightarrow> snap \<Rightarrow> bool" where
  "snap_live flt r \<longleftrightarrow> \<not> s_deleted r \<and> metadata_matches_filter (s_metadata r) flt"

definition snap_match :: "(vec \<Rightarrow> 's) \<Rightarrow> snap \<Rightarrow> 's match" where
  "snap_match sc r = \<lparr>m_id = s_id r, m_score = sc (s_values r), m_metadata = s_metadata r\<rparr>"

lemma score_rows_eq:
  "score_rows sqdist q flt rs = (set (map s_id rs), map (snap_match (sqdist q)) (filter (snap_live flt) rs))"
  by (induction sqdist q flt rs rule: score_rows.induct)
     (auto simp: snap_live_def snap_match_def recall_filter_eq)

lemma snapshot_above_eq:
  "snapshot_above s k w = map snap_of (filter (\<lambda>(i, r). r_lsn r > w) (mem_part s k))"
proof -
  have "[\<lparr>s_id = i, s_values = r_values r, s_metadata = r_metadata r, s_lsn = r_lsn r,
       s_deleted = r_deleted r\<rparr>. (i, r) \<leftarrow> p, r_lsn r > w] =
     map snap_of (filter (\<lambda>(i, r). r_lsn r > w) p)" for p :: part
    by (induction p) (auto simp: snap_of_def)
  then show ?thesis by (simp add: snapshot_above_def)
qed

lemma snapshot_above_in:
  assumes "mem_ok s"
  shows "x \<in> set (snapshot_above s k w) \<longleftrightarrow> mem_look s k (s_id x) = Some (snap_cell x) \<and> s_lsn x > w"
  using mem_snapshot_in[OF assms, of x k] by (auto simp: snapshot_above_eq snapshot_rows_mem)

lemma distinct_snapshot_above:
  assumes "mem_ok s"
  shows "distinct (map s_id (snapshot_above s k w))"
proof -
  have "map s_id (map snap_of p) = map fst p" for p by auto
  with mem_okD[OF assms, of k] show ?thesis
    unfolding snapshot_above_eq by (simp only: part_ok_def dkeys_ok_def distinct_map_filter)
qed

lemma snap_cand_set:
  assumes "\<And>x. x \<in> set rs \<longleftrightarrow> look (s_id x) = Some (snap_cell x) \<and> s_lsn x > w"
  shows "set (map (snap_match sc) (filter (snap_live flt) rs)) = cand_set sc look w flt"
proof (intro set_eqI iffI)
  fix m
  assume "m \<in> set (map (snap_match sc) (filter (snap_live flt) rs))"
  then obtain x where "x \<in> set rs" "snap_live flt x" "m = snap_match sc x" by auto
  with assms[of x] show "m \<in> cand_set sc look w flt"
    by (auto simp: cand_set_def snap_live_def snap_match_def snap_cell_def)
next
  fix m
  assume "m \<in> cand_set sc look w flt"
  then obtain i c where c: "look i = Some c" "w < c_lsn c" "\<not> c_deleted c"
    "metadata_matches_filter (c_metadata c) flt"
    "m = \<lparr>m_id = i, m_score = sc (c_values c), m_metadata = c_metadata c\<rparr>" by (auto simp: cand_set_def)
  let ?x = "\<lparr>s_id = i, s_values = c_values c, s_metadata = c_metadata c, s_lsn = c_lsn c,
    s_deleted = c_deleted c\<rparr>"
  have "?x \<in> set rs" using assms[of ?x] c by (simp add: snap_cell_def)
  moreover have "snap_live flt ?x" "m = snap_match sc ?x"
    using c by (simp_all add: snap_live_def snap_match_def)
  ultimately show "m \<in> set (map (snap_match sc) (filter (snap_live flt) rs))" by auto
qed

lemma suppressed_ids:
  assumes "\<And>x. x \<in> set rs \<longleftrightarrow> look (s_id x) = Some (snap_cell x) \<and> s_lsn x > w"
  shows "set (map s_id rs) = {i. \<exists>c. look i = Some c \<and> w < c_lsn c}"
proof (intro set_eqI iffI)
  fix i
  assume "i \<in> {i. \<exists>c. look i = Some c \<and> w < c_lsn c}"
  then obtain c where c: "look i = Some c" "w < c_lsn c" by blast
  let ?x = "\<lparr>s_id = i, s_values = c_values c, s_metadata = c_metadata c, s_lsn = c_lsn c,
    s_deleted = c_deleted c\<rparr>"
  have "?x \<in> set rs" using assms[of ?x] c by (simp add: snap_cell_def)
  then show "i \<in> set (map s_id rs)" by force
next
  fix i
  assume "i \<in> set (map s_id rs)"
  then obtain x where "x \<in> set rs" "i = s_id x" by auto
  with assms[of x] show "i \<in> {i. \<exists>c. look i = Some c \<and> w < c_lsn c}"
    by (simp add: snap_cell_def)
qed

lemma mem_search_result:
  assumes "mem_ok s"
  shows "search_result (sqdist q) (mem_look s k) top_k w (meta_or flt) (mem_search sqdist s k q top_k w flt)"
proof -
  let ?rs = "snapshot_above s k w"
  let ?cs = "map (snap_match (sqdist q)) (filter (snap_live (meta_or flt)) ?rs)"
  have "map m_id ?cs = map s_id (filter (snap_live (meta_or flt)) ?rs)" by (simp add: snap_match_def)
  then have dist: "distinct (map m_id ?cs)"
    using distinct_snapshot_above[OF assms, of k w] by (simp only: distinct_map_filter)
  have top: "top_of ?cs top_k (py_take (max 0 top_k) (sort_key (\<lambda>m. (m_score m, m_id m)) ?cs))"
  proof -
    have "nat (max 0 top_k) = nat top_k" by simp
    then show ?thesis unfolding py_take_def
      by (simp only:) (rule top_of_sort_key, auto)
  qed
  have eq: "mem_search sqdist s k q top_k w flt =
      (set (map s_id ?rs), py_take (max 0 top_k) (sort_key (\<lambda>m. (m_score m, m_id m)) ?cs))"
    unfolding mem_search_def score_rows_eq by simp
  have cands: "set ?cs = cand_set (sqdist q) (mem_look s k) w (meta_or flt)"
    by (rule snap_cand_set[OF snapshot_above_in[OF assms]])
  have sup: "set (map s_id ?rs) = {i. \<exists>c. mem_look s k i = Some c \<and> w < c_lsn c}"
    by (rule suppressed_ids[OF snapshot_above_in[OF assms]])
  show ?thesis
    unfolding search_result_def eq fst_conv snd_conv
    by (intro conjI exI[of _ ?cs] sup dist cands top)
qed

end
