(* ===== verification/Recall_Search.thy ===== *)
theory Recall_Search
  imports Recall
begin

text \<open>
  The pgvector scan meets the ranking contract too, so the dispatcher's search does, and the two
  backends agree on any partition they both hold.
\<close>

section \<open>The Python split of the scan\<close>

definition pg_live :: "meta \<Rightarrow> vid \<times> bool \<times> 's \<times> meta \<Rightarrow> bool" where
  "pg_live flt = (\<lambda>(rid, del, score, md). \<not> del \<and> metadata_matches_filter md flt)"

definition pg_match :: "vid \<times> bool \<times> 's \<times> meta \<Rightarrow> 's match" where
  "pg_match = (\<lambda>(rid, del, score, md). \<lparr>m_id = rid, m_score = score, m_metadata = md\<rparr>)"

lemma filter_guard: "flt \<noteq> [] \<and> \<not> recall_metadata_matches_filter md flt \<longleftrightarrow> \<not> metadata_matches_filter md flt"
  by (cases flt) (auto simp: recall_filter_eq)

lemma pg_split_eq:
  "pg_split top_k flt rows n =
     (set (map fst rows), map pg_match (take (nat (top_k - n)) (filter (pg_live flt) rows)))"
proof (induction top_k flt rows n rule: pg_split.induct)
  case (2 top_k flt rid del score md rows n)
  show ?case
  proof (cases "del \<or> top_k \<le> n \<or> \<not> metadata_matches_filter md flt")
    case True
    then have "pg_split top_k flt ((rid, del, score, md) # rows) n =
        (insert rid (fst (pg_split top_k flt rows n)), snd (pg_split top_k flt rows n))"
      by (simp add: filter_guard split_def Let_def)
    moreover have "take (nat (top_k - n)) (filter (pg_live flt) ((rid, del, score, md) # rows)) =
        take (nat (top_k - n)) (filter (pg_live flt) rows)"
      using True by (auto simp: pg_live_def)
    ultimately show ?thesis using 2(1) True by (simp add: filter_guard)
  next
    case False
    then have "nat (top_k - n) = Suc (nat (top_k - (n + 1)))" by linarith
    with False 2(2) show ?thesis
      by (simp add: filter_guard pg_live_def pg_match_def)
  qed
qed simp

section \<open>What is relied on of the distance operator\<close>

text \<open>
  The squared distance of a stored row is the score of its decoded vector, and squaring keeps the
  order the scan sorts by.
\<close>

definition pg_dist_ok ::
  "pgenv \<Rightarrow> (string \<Rightarrow> string \<Rightarrow> 's::linorder) \<Rightarrow> ('s \<Rightarrow> 's) \<Rightarrow> (vec \<Rightarrow> 's) \<Rightarrow> vec \<Rightarrow> bool" where
  "pg_dist_ok env dst sq sc q \<longleftrightarrow>
     (\<forall>t. sq (dst t (to_pgvector_literal (pv_repr env) q)) = sc (pg_decode env t)) \<and>
     (\<forall>t u. dst t (to_pgvector_literal (pv_repr env) q) \<le> dst u (to_pgvector_literal (pv_repr env) q) \<longrightarrow>
        sq (dst t (to_pgvector_literal (pv_repr env) q)) \<le> sq (dst u (to_pgvector_literal (pv_repr env) q)))"

lemma pg_scan_eq:
  assumes "pg_dist_ok env dst sq sc q"
  shows "pg_scan env dst sq s k q w =
    map (\<lambda>x. (s_id x, s_deleted x, sc (s_values x), s_metadata x))
      (map (pg_snap_of env) (sort_key (\<lambda>(i, c). dst (e_text c) (to_pgvector_literal (pv_repr env) q))
         (filter (\<lambda>(i, c). e_lsn c > w) (pg_rows s k))))"
  using assms by (auto simp: pg_scan_def pg_snap_of_def pg_dist_ok_def)

lemma pg_scan_sorted:
  assumes "pg_dist_ok env dst sq sc q"
  shows "sorted (map (\<lambda>(i, del, score, md). score) (pg_scan env dst sq s k q w))"
proof -
  let ?d = "\<lambda>(i, c). dst (e_text c) (to_pgvector_literal (pv_repr env) q)"
  let ?xs = "sort_key ?d (filter (\<lambda>(i, c). e_lsn c > w) (pg_rows s k))"
  have "sorted_wrt (\<lambda>x y. ?d x \<le> ?d y) ?xs"
    using sorted_sort_key[of ?d] by (simp only: sorted_wrt_map)
  then have "sorted_wrt (\<lambda>x y. sq (?d x) \<le> sq (?d y)) ?xs"
    by (rule sorted_wrt_mono_rel[rotated]) (use assms in \<open>auto simp: pg_dist_ok_def\<close>)
  moreover have "map (\<lambda>(i, del, score, md). score) (pg_scan env dst sq s k q w) = map (\<lambda>x. sq (?d x)) ?xs"
    by (auto simp: pg_scan_def Let_def)
  ultimately show ?thesis by (simp only: sorted_wrt_map)
qed

section \<open>Both searches meet the contract\<close>

lemma pg_search_result:
  assumes ok: "pg_ok env s" and d: "pg_dist_ok env dst sq sc q"
  shows "search_result sc (pg_look env s k) top_k w (meta_or flt)
    (pg_split top_k (meta_or flt) (pg_scan env dst sq s k q w) 0)"
proof -
  let ?flt = "meta_or flt"
  let ?rs = "map (pg_snap_of env) (sort_key (\<lambda>(i, c). dst (e_text c) (to_pgvector_literal (pv_repr env) q))
         (filter (\<lambda>(i, c). e_lsn c > w) (pg_rows s k)))"
  let ?scan = "pg_scan env dst sq s k q w"
  let ?cs = "map pg_match (filter (pg_live ?flt) ?scan)"
  have cs: "?cs = map (snap_match sc) (filter (snap_live ?flt) ?rs)"
    unfolding pg_scan_eq[OF d] filter_map
    by (simp add: pg_match_def snap_match_def pg_live_def snap_live_def o_def)
  have ids: "map fst ?scan = map s_id ?rs" unfolding pg_scan_eq[OF d] by simp
  have rs_in: "x \<in> set ?rs \<longleftrightarrow> pg_look env s k (s_id x) = Some (snap_cell x) \<and> s_lsn x > w" for x
  proof -
    have "?rs = map (pg_snap_of env) (sort_key (\<lambda>(i, c). dst (e_text c) (to_pgvector_literal (pv_repr env) q))
        (filter (\<lambda>y. s_lsn (pg_snap_of env y) > w) (pg_rows s k)))"
      by (simp add: pg_snap_of_def split_def)
    then have "x \<in> set ?rs \<longleftrightarrow> x \<in> set (snd (pg_snap env s k)) \<and> s_lsn x > w"
      unfolding pg_snap_rows[OF ok] by auto
    then show ?thesis using pg_snap_in[OF ok] by blast
  qed
  have "distinct (map s_id ?rs)"
  proof -
    have "map s_id (map (pg_snap_of env) xs) = map fst xs" for xs by (auto simp: pg_snap_of_def)
    moreover have "distinct (map fst (filter (\<lambda>(i, c). e_lsn c > w) (pg_rows s k)))"
      using distinct_pg_rows[OF pg_okD(2)[OF ok], of k] by (simp add: distinct_map_filter)
    ultimately show ?thesis by (simp only: distinct_map_sort_key)
  qed
  moreover have "map m_id (map (snap_match sc) (filter P rs)) = map s_id (filter P rs)" for P rs
    by (simp add: snap_match_def)
  ultimately have dist: "distinct (map m_id ?cs)" unfolding cs by (simp only: distinct_map_filter)
  have "map m_score ?cs = map (\<lambda>(i, del, score, md). score) (filter (pg_live ?flt) ?scan)"
    by (auto simp: pg_match_def)
  then have "sorted (map m_score ?cs)"
    using pg_scan_sorted[OF d, of s k w] by (simp only: sorted_filter)
  from top_of_take_sorted[OF this refl, of top_k]
  have top: "top_of ?cs top_k (map pg_match (take (nat (top_k - 0)) (filter (pg_live ?flt) ?scan)))"
    by (simp add: take_map)
  have cands: "set ?cs = cand_set sc (pg_look env s k) w ?flt"
    unfolding cs by (rule snap_cand_set[OF rs_in])
  have sup: "set (map fst ?scan) = {i. \<exists>c. pg_look env s k i = Some c \<and> w < c_lsn c}"
    unfolding ids by (rule suppressed_ids[OF rs_in])
  show ?thesis
    unfolding search_result_def pg_split_eq fst_conv snd_conv
    by (intro conjI exI[of _ ?cs] sup dist cands top)
qed

lemma recall_search_result:
  assumes ok: "rs_ok env cfg s"
    and d: "use_memory_backend cfg \<or> pg_dist_ok env dst sq (sqdist q) q"
    and r: "recall_search env cfg sqdist dst sq fault s k q top_k w flt = Inr r"
  shows "search_result (sqdist q) (rs_look env cfg s k) top_k w (meta_or flt) r"
proof (cases "use_memory_backend cfg")
  case True
  with r have "r = mem_search sqdist (rs_mem s) k q top_k w flt" by (simp add: recall_search_def)
  with True ok show ?thesis by (simp only: rs_ok_def rs_look_def if_True mem_search_result)
next
  case False
  with r have "r = pg_split top_k (meta_or flt) (pg_scan env dst sq (rs_pg s) k q w) 0"
    by (auto simp: recall_search_def pg_search_def split: option.splits)
  with False ok d show ?thesis by (simp only: rs_ok_def rs_look_def if_False pg_search_result simp_thms)
qed

lemma backend_parity:
  assumes "mem_ok m" and "pg_ok env p" and "pg_dist_ok env dst sq (sqdist q) q"
    and "mem_look m k = pg_look env p k"
    and "pg_search env dst sq None p k q top_k w flt = Inr r"
  shows "fst r = fst (mem_search sqdist m k q top_k w flt) \<and>
    map m_score (snd r) = map m_score (snd (mem_search sqdist m k q top_k w flt))"
proof (rule search_result_unique)
  show "search_result (sqdist q) (pg_look env p k) top_k w (meta_or flt) r"
    using pg_search_result[OF assms(2,3), of k top_k w flt] assms(5) by (simp add: pg_search_def)
  show "search_result (sqdist q) (pg_look env p k) top_k w (meta_or flt) (mem_search sqdist m k q top_k w flt)"
    using mem_search_result[OF assms(1), of sqdist q k top_k w flt] assms(4) by simp
qed

end
