(* ===== verification/Recall_Agree.thy ===== *)
theory Recall_Agree
  imports Recall_Search
begin

text \<open>
  The two recall backends side by side: the same sequence of writes, deletes and trims leaves the
  same LSN counter and the same cells in both, as long as the vector column gives back the vectors
  it was given. \<open>created_at\<close> is not part of a cell: there the backends differ
  (\<open>idle_partitions_differ\<close>).
\<close>

datatype recall_op = OpUpsert time "vrec list" | OpDelete time vid int | OpTrim int

fun mem_run :: "memrecall \<Rightarrow> key \<Rightarrow> recall_op list \<Rightarrow> memrecall" where
  "mem_run s k [] = s"
| "mem_run s k (OpUpsert now recs # ops) = mem_run (snd (mem_upsert s k now recs)) k ops"
| "mem_run s k (OpDelete now i dm # ops) = mem_run (snd (mem_delete s k now i dm)) k ops"
| "mem_run s k (OpTrim g # ops) = mem_run (snd (mem_trim s k g)) k ops"

fun pg_run :: "pgenv \<Rightarrow> pgrecall \<Rightarrow> key \<Rightarrow> recall_op list \<Rightarrow> pgrecall" where
  "pg_run env s k [] = s"
| "pg_run env s k (OpUpsert now recs # ops) = pg_run env (snd (pg_upsert env s k now recs)) k ops"
| "pg_run env s k (OpDelete now i dm # ops) = pg_run env (snd (pg_delete env s k now i dm)) k ops"
| "pg_run env s k (OpTrim g # ops) = pg_run env (snd (pg_trim s k g)) k ops"

fun op_vectors :: "recall_op \<Rightarrow> vec set" where
  "op_vectors (OpUpsert _ recs) = rec_values ` set recs"
| "op_vectors (OpDelete _ _ dm) = {zero_vec dm}"
| "op_vectors (OpTrim _) = {}"

definition same_cells :: "pgenv \<Rightarrow> key \<Rightarrow> memrecall \<Rightarrow> pgrecall \<Rightarrow> bool" where
  "same_cells env k m p \<longleftrightarrow> mem_top m k = pg_top p k \<and> (\<forall>i. mem_look m k i = pg_look env p k i)"

lemma put_rows_agree:
  assumes "\<forall>w \<in> set ws. pg_store env (rec_values w) = rec_values w"
    and "\<And>i. map_option row_cell (dget p i) = map_option (pg_cell env) (dget t (k, i))"
  shows "map_option row_cell (dget (put_winners now l ws p) i) =
    map_option (pg_cell env) (dget (pg_put_rows env k now l ws t) (k, i))"
  using assms
proof (induction ws arbitrary: l p t)
  case (Cons w ws)
  have "row_cell (live_row now l w) = pg_cell env (pg_upsert_row env k now l w old)" for old
    using Cons.prems(1) by (simp add: row_cell_def pg_cell_def live_row_def pg_store_def)
  then have "map_option row_cell (dget (dset (rec_id w) (live_row now l w) p) i) =
      map_option (pg_cell env) (dget (dset (k, rec_id w)
        (pg_upsert_row env k now l w (dget t (k, rec_id w))) t) (k, i))" for i
    using Cons.prems(2) by (simp add: pdict_simps)
  with Cons.IH Cons.prems(1) show ?case by simp
qed simp

lemma same_upsert:
  assumes "same_cells env k m p" and "\<forall>v \<in> rec_values ` set recs. pg_store env v = v"
  shows "same_cells env k (snd (mem_upsert m k now recs)) (snd (pg_upsert env p k now recs))"
proof -
  have "set (winners recs) \<subseteq> set recs" by (rule set_last_wins)
  then have ws: "\<forall>w \<in> set (winners recs). pg_store env (rec_values w) = rec_values w"
    using assms(2) by auto
  have "map_option row_cell (dget (mem_part m k) i) = map_option (pg_cell env) (dget (pg_vectors p) (k, i))" for i
    using assms(1) by (simp add: same_cells_def mem_look_def pg_look_def)
  from put_rows_agree[OF ws this] assms(1) show ?thesis
    by (simp add: same_cells_def mem_look_def pg_look_def mem_upsert_part mem_upsert_top
        pg_upsert_vectors pg_upsert_top)
qed

lemma same_delete:
  assumes "same_cells env k m p" and "pg_store env (zero_vec dm) = zero_vec dm"
  shows "same_cells env k (snd (mem_delete m k now i dm)) (snd (pg_delete env p k now i dm))"
proof -
  have top: "mem_top m k = pg_top p k" and
    look: "map_option row_cell (dget (mem_part m k) j) = map_option (pg_cell env) (dget (pg_vectors p) (k, j))" for j
    using assms(1) by (simp_all add: same_cells_def mem_look_def pg_look_def)
  have "mem_look (snd (mem_delete m k now i dm)) k j = pg_look env (snd (pg_delete env p k now i dm)) k j" for j
    using look[of i] look[of j] top assms(2)
    by (auto simp: mem_look_def pg_look_def mem_delete_parts pg_delete_def pg_bump_eq Let_def pdict_simps
        row_cell_def pg_cell_def pg_store_def split: option.splits)
  moreover have "pg_top (snd (pg_delete env p k now i dm)) k = pg_top p k + 1" by (rule pg.delete_top)
  ultimately show ?thesis using top by (simp add: same_cells_def mem_delete_top)
qed

lemma same_trim:
  assumes "mem_ok m" and "pg_ok env p" and "same_cells env k m p"
  shows "same_cells env k (snd (mem_trim m k g)) (snd (pg_trim p k g))"
  using assms(3) mem_trim_look[OF assms(1), of k g] pg.trim_look[OF assms(2), of k g]
  by (simp add: same_cells_def mem_trim_top pg_trim_top)

lemma same_run:
  assumes "mem_ok m" and "pg_ok env p" and "same_cells env k m p"
    and "\<forall>v \<in> \<Union> (op_vectors ` set ops). pg_store env v = v"
  shows "mem_ok (mem_run m k ops) \<and> pg_ok env (pg_run env p k ops) \<and>
    same_cells env k (mem_run m k ops) (pg_run env p k ops)"
  using assms
proof (induction ops arbitrary: m p)
  case (Cons op ops)
  show ?case
  proof (cases op)
    case (OpUpsert now recs)
    then show ?thesis
      using Cons.IH[of "snd (mem_upsert m k now recs)" "snd (pg_upsert env p k now recs)"] Cons.prems
      by (simp add: mem.upsert_ok pg.upsert_ok same_upsert)
  next
    case (OpDelete now i dm)
    then show ?thesis
      using Cons.IH[of "snd (mem_delete m k now i dm)" "snd (pg_delete env p k now i dm)"] Cons.prems
      by (simp add: mem.delete_ok pg.delete_ok same_delete)
  next
    case (OpTrim g)
    then show ?thesis
      using Cons.IH[of "snd (mem_trim m k g)" "snd (pg_trim p k g)"] Cons.prems
      by (simp add: mem.trim_ok pg.trim_ok same_trim)
  qed
qed simp

end
