(* ===== verification/Recall_Properties.thy ===== *)
theory Recall_Properties
  imports Recall_Agree
begin

text \<open>
  What the recall tier promises its callers, stated over the dispatcher of
  \<open>adapters/recall/__init__.py\<close>, and the concrete stores the statements are tried on.
\<close>

section \<open>Concrete stores\<close>

text \<open>A float printer and reader for a few floats, and an embedding column that keeps its text.\<close>

fun demo_repr :: "pyfloat \<Rightarrow> string" where
  "demo_repr (Fin q) = (if q = 0 then ''0.0'' else if q = 1 then ''1.0'' else if q = 2 then ''2.0'' else ''3.0'')"
| "demo_repr PInf = ''inf''"
| "demo_repr NInf = ''-inf''"
| "demo_repr NaN = ''nan''"

definition demo_float :: "string \<Rightarrow> pyfloat option" where
  "demo_float s = Some (if s = ''0.0'' then Fin 0 else if s = ''1.0'' then Fin 1 else
     if s = ''2.0'' then Fin 2 else if s = ''3.0'' then Fin 3 else NaN)"

definition demo_env :: pgenv where
  "demo_env = \<lparr>pv_repr = demo_repr, pv_float = demo_float, pv_col = (\<lambda>t. t)\<rparr>"

definition mem_cfg :: recall_cfg where
  "mem_cfg = \<lparr>cfg_recall = True, cfg_dsn = None, cfg_backend = ''memory''\<rparr>"

definition pg_cfg :: recall_cfg where
  "pg_cfg = \<lparr>cfg_recall = True, cfg_dsn = Some ''dsn'', cfg_backend = ''''\<rparr>"

definition no_recall :: recall_state where
  "no_recall = \<lparr>rs_mem = \<lparr>mem_parts = [], mem_lsn = []\<rparr>, rs_pg = \<lparr>pg_vectors = [], pg_seq = []\<rparr>\<rparr>"

abbreviation demo_key :: key where
  "demo_key \<equiv> (''acme'', ''docs'')"

definition demo_rec :: "vid \<Rightarrow> rat \<Rightarrow> vrec" where
  "demo_rec i x = \<lparr>rec_id = i, rec_values = [Fin x], rec_metadata = None\<rparr>"

lemma parse_demo: "\<exists>v. parse_floats demo_float ps = Inr v"
  by (induction ps) (auto simp: demo_float_def)

lemma demo_env_ok: "pg_env_ok demo_env"
  using parse_demo
  by (auto simp: pg_env_ok_def pg_readable_def pgvector_literal_to_list_def Let_def demo_env_def)

lemma no_recall_ok: "rs_ok demo_env cfg no_recall"
  by (auto simp: rs_ok_def no_recall_def mem_ok_def part_ok_def mem_part_def mem_top_def dget_or_def
      pg_ok_def demo_env_ok tab_ok_def pg_top_def)

lemma demo_store: "x \<in> {0, 1, 2, 3} \<Longrightarrow> pg_store demo_env [Fin x] = [Fin x]"
  by (auto simp: pg_store_def pg_decode_def demo_env_def to_pgvector_literal_def
      pgvector_literal_to_list_def unbracket_def py_strip_def is_space_def demo_float_def)

definition demo_state :: "recall_cfg \<Rightarrow> recall_state" where
  "demo_state cfg = snd (recall_upsert_vectors demo_env cfg no_recall demo_key 10
     [demo_rec ''a'' 1, demo_rec ''b'' 2, demo_rec ''a'' 3])"

lemma demo_state_ok: "rs_ok demo_env cfg (demo_state cfg)"
  unfolding demo_state_def by (intro rs.upsert_ok no_recall_ok)

lemma demo_state_top: "rs_top cfg (demo_state cfg) demo_key = 2"
proof -
  have "rs_top cfg no_recall demo_key = 0" by (simp add: rs_top_def no_recall_def mem_top_def pg_top_def dget_or_def)
  moreover have "rec_id ` set [demo_rec ''a'' 1, demo_rec ''b'' 2, demo_rec ''a'' 3] = {''a'', ''b''}"
    by (auto simp: demo_rec_def)
  ultimately show ?thesis
    unfolding demo_state_def using rs.upsert_top[of cfg demo_env no_recall demo_key 10
      "[demo_rec ''a'' 1, demo_rec ''b'' 2, demo_rec ''a'' 3]"] by simp
qed

section \<open>The union at the watermark\<close>

text \<open>
  C1. Read-your-writes. After an upsert, at any watermark the partition's counter has reached, the
  union of recall and cold tier shows every written id with the values and metadata of its last
  record in the batch, and every other id as before; the counter grows by the distinct ids.
\<close>

theorem upsert_read_your_writes:
  assumes "rs_ok env cfg s" and "w \<le> rs_top cfg s k"
    and "recall_upsert_vectors env cfg s k now recs = (n, s')"
  shows "rs_ok env cfg s' \<and> n = int (card (rec_id ` set recs)) \<and> rs_top cfg s' k = rs_top cfg s k + n \<and>
    (\<forall>i. overlay (rs_look env cfg s' k) w cold i =
      (case find_last (\<lambda>r. rec_id r = i) recs of
         None \<Rightarrow> overlay (rs_look env cfg s k) w cold i
       | Some r \<Rightarrow> Some (rs_store env cfg (rec_values r), meta_or (rec_metadata r))))"
proof -
  have s': "s' = snd (recall_upsert_vectors env cfg s k now recs)"
    and n: "n = fst (recall_upsert_vectors env cfg s k now recs)" using assms(3) by simp_all
  show ?thesis unfolding s' n
    by (simp add: rs.upsert_ok[OF assms(1)] rs.upsert_count rs.upsert_top
        rs.upsert_overlay[OF assms(1,2)])
qed

theorem upsert_read_your_writes_witness:
  "\<exists>n s'. recall_upsert_vectors demo_env pg_cfg (demo_state pg_cfg) demo_key 20
       [demo_rec ''b'' 1, demo_rec ''b'' 3] = (n, s') \<and>
     overlay (rs_look demo_env pg_cfg s' demo_key) 2 Map.empty ''b'' = Some ([Fin 3], [])"
proof -
  obtain n s' where u: "recall_upsert_vectors demo_env pg_cfg (demo_state pg_cfg) demo_key 20
       [demo_rec ''b'' 1, demo_rec ''b'' 3] = (n, s')" by fastforce
  have "rs_store demo_env pg_cfg [Fin 3] = [Fin 3]"
    by (simp add: rs_store_def use_memory_backend_def pg_cfg_def demo_store)
  with u upsert_read_your_writes[OF demo_state_ok _ u, of 2 Map.empty] show ?thesis
    by (auto simp: demo_state_top find_last_def demo_rec_def meta_or_def)
qed

text \<open>
  C2. Read-your-deletes. A delete takes the next LSN of its partition, writes a tombstone that
  hides the id from the union at every watermark reached before it, and hides nothing else; every
  other partition is untouched.
\<close>

theorem delete_read_your_deletes:
  assumes "rs_ok env cfg s" and "w \<le> rs_top cfg s k"
    and "recall_delete_vector env cfg s k now i dm = (l, s')"
  shows "rs_ok env cfg s' \<and> l = rs_top cfg s k + 1 \<and> rs_top cfg s' k = l \<and>
    overlay (rs_look env cfg s' k) w cold = (overlay (rs_look env cfg s k) w cold)(i := None) \<and>
    (\<forall>k'. k' \<noteq> k \<longrightarrow> rs_look env cfg s' k' = rs_look env cfg s k')"
proof -
  have s': "s' = snd (recall_delete_vector env cfg s k now i dm)"
    and l: "l = fst (recall_delete_vector env cfg s k now i dm)" using assms(3) by simp_all
  show ?thesis unfolding s' l
    by (simp add: rs.delete_ok[OF assms(1)] rs.delete_lsn rs.delete_top
        rs.delete_overlay[OF assms(1,2)] rs.delete_frame del: fun_upd_apply)
qed

theorem delete_read_your_deletes_witness:
  "\<exists>l s'. recall_delete_vector demo_env mem_cfg (demo_state mem_cfg) demo_key 20 ''a'' 1 = (l, s') \<and>
     l = 3 \<and> overlay (rs_look demo_env mem_cfg s' demo_key) 0 (\<lambda>_. Some ([Fin 9], [])) ''a'' = None"
proof -
  obtain l s' where u: "recall_delete_vector demo_env mem_cfg (demo_state mem_cfg) demo_key 20 ''a'' 1 = (l, s')"
    by fastforce
  from u delete_read_your_deletes[OF demo_state_ok _ u, of 0 "\<lambda>_. Some ([Fin 9], [])"] show ?thesis
    by (simp add: demo_state_top)
qed

text \<open>
  C3. Consolidation preserves what a reader sees. The snapshot of a well-formed partition never
  fails; its watermark is at most the partition's counter and bounds every row in it; folding its
  rows into a cold tier that agrees with the old watermark and then moving to the snapshot's
  watermark leaves the union unchanged, and the new cold tier agrees with the new watermark.
\<close>

theorem consolidation_preserves_union:
  assumes "rs_ok env cfg s" and "agrees (rs_look env cfg s k) w cold"
  shows "\<exists>w' rows. recall_snapshot_for_consolidation env cfg s k = Inr (w', rows) \<and>
    w' \<le> rs_top cfg s k \<and> (\<forall>r \<in> set rows. s_lsn r \<le> w') \<and>
    overlay (rs_look env cfg s k) w' (apply_rows cold rows) = overlay (rs_look env cfg s k) w cold \<and>
    agrees (rs_look env cfg s k) w' (apply_rows cold rows)"
proof (intro exI conjI)
  show "recall_snapshot_for_consolidation env cfg s k =
      Inr (fst (rs_snap env cfg s k), snd (rs_snap env cfg s k))"
    using rs_snap_Inr[OF assms(1)] by simp
qed (use rs.snapshot_top[OF assms(1)] rs.snapshot_bound rs.fold_overlay[OF assms] rs.fold_agrees[OF assms(1)]
  in \<open>simp_all\<close>)

theorem consolidation_preserves_union_witness:
  "\<exists>w' rows. recall_snapshot_for_consolidation demo_env mem_cfg (demo_state mem_cfg) demo_key = Inr (w', rows) \<and>
     overlay (rs_look demo_env mem_cfg (demo_state mem_cfg) demo_key) w' (apply_rows Map.empty rows) =
     overlay (rs_look demo_env mem_cfg (demo_state mem_cfg) demo_key) 0 Map.empty"
proof -
  have "agrees (rs_look demo_env mem_cfg (demo_state mem_cfg) demo_key) 0 Map.empty"
    using rs.look_bounds[OF demo_state_ok, of mem_cfg demo_key] by (force simp: agrees_def)
  from consolidation_preserves_union[OF demo_state_ok this] show ?thesis by blast
qed

text \<open>
  C4. A write that lands while a consolidation runs survives it: after the snapshot was taken, a
  batch is written and the partition is trimmed at any watermark up to the snapshot's, the union
  at the new watermark still shows the batch's records, whatever cold tier was built.
\<close>

theorem write_during_consolidation_survives:
  assumes "rs_ok env cfg s" and "recall_snapshot_for_consolidation env cfg s k = Inr (w', rows)"
    and "find_last (\<lambda>r. rec_id r = i) recs = Some r" and "g \<le> w'"
  shows "overlay (rs_look env cfg
      (snd (recall_trim cfg (snd (recall_upsert_vectors env cfg s k now recs)) k g)) k) w' cold i =
    Some (rs_store env cfg (rec_values r), meta_or (rec_metadata r))"
proof -
  let ?s = "snd (recall_upsert_vectors env cfg s k now recs)"
  have "w' = fst (rs_snap env cfg s k)" using assms(2) rs_snap_Inr[OF assms(1), of k] by simp
  then have "w' \<le> rs_top cfg s k" using rs.snapshot_top[OF assms(1)] by simp
  then have "overlay (rs_look env cfg ?s k) w' cold i =
      Some (rs_store env cfg (rec_values r), meta_or (rec_metadata r))"
    using assms(3) by (simp add: rs.upsert_overlay[OF assms(1)])
  then show ?thesis using rs.trim_overlay[OF rs.upsert_ok[OF assms(1)] assms(4)] by simp
qed

theorem write_during_consolidation_survives_witness:
  "overlay (rs_look demo_env mem_cfg (snd (recall_trim mem_cfg (snd (recall_upsert_vectors demo_env mem_cfg
      (demo_state mem_cfg) demo_key 20 [demo_rec ''a'' 2])) demo_key 2)) demo_key) 2 Map.empty ''a'' =
   Some ([Fin 2], [])"
proof -
  have "recall_snapshot_for_consolidation demo_env mem_cfg (demo_state mem_cfg) demo_key =
      Inr (2, snd (rs_snap demo_env mem_cfg (demo_state mem_cfg) demo_key))"
    using rs_snap_Inr[OF demo_state_ok, of mem_cfg demo_key]
    by (simp add: rs_snap_def demo_state_def recall_upsert_vectors_def use_memory_backend_def mem_cfg_def
        on_mem_def mem_upsert_def last_wins_def alloc_block_def Let_def no_recall_def mem_part_def
        dget_or_def demo_rec_def live_row_def mem_snapshot_for_consolidation_def snap_of_def)
  from write_during_consolidation_survives[OF demo_state_ok this, of "''a''" "[demo_rec ''a'' 2]" "demo_rec ''a'' 2" 2 20 Map.empty]
  show ?thesis
    by (simp add: find_last_def demo_rec_def rs_store_def use_memory_backend_def mem_cfg_def meta_or_def)
qed


section \<open>Search\<close>

definition demo_l2 :: "vec \<Rightarrow> vec \<Rightarrow> rat" where
  "demo_l2 q v = (case (q, v) of ([Fin a], [Fin b]) \<Rightarrow> (a - b) * (a - b) | _ \<Rightarrow> 1000)"

text \<open>
  C5. The recall search is the exact answer to its query, on either backend. It fails only when
  pgvector does, with \<open>RecallUnavailable\<close> for a connectivity failure; otherwise the suppress set
  is every id with a row above the watermark, tombstones included, and the matches are the
  \<open>top_k\<close> nearest of the live rows above the watermark that pass the filter, each id once, all of
  them suppressed.
\<close>

theorem recall_search_correct:
  assumes "rs_ok env cfg s" and "use_memory_backend cfg \<or> pg_dist_ok env dst sq (sqdist q) q"
  shows "case recall_search env cfg sqdist dst sq fault s k q top_k w flt of
      Inl e \<Rightarrow> \<not> use_memory_backend cfg \<and>
        (\<exists>f. fault = Some f \<and> e = (if recall_connectivity f then RecallUnavailable else DbError f))
    | Inr (hid, ms) \<Rightarrow>
        hid = {i. \<exists>c. rs_look env cfg s k i = Some c \<and> w < c_lsn c} \<and>
        m_id ` set ms \<subseteq> hid \<and> distinct (map m_id ms) \<and>
        (\<exists>cs. set cs = cand_set (sqdist q) (rs_look env cfg s k) w (meta_or flt) \<and> top_of cs top_k ms)"
proof (cases "recall_search env cfg sqdist dst sq fault s k q top_k w flt")
  case (Inl e)
  then have "\<not> use_memory_backend cfg" by (auto simp: recall_search_def)
  with Inl show ?thesis by (auto simp: recall_search_def pg_search_def split: option.splits)
next
  case (Inr r)
  have sr: "search_result (sqdist q) (rs_look env cfg s k) top_k w (meta_or flt) r"
    by (rule recall_search_result[OF assms Inr])
  then obtain cs where cs: "distinct (map m_id cs)" "top_of cs top_k (snd r)"
    "set cs = cand_set (sqdist q) (rs_look env cfg s k) w (meta_or flt)"
    by (auto simp: search_result_def)
  have "distinct (map m_id (snd r))" by (rule top_of_distinct[OF cs(2,1)])
  with cs sr Inr show ?thesis
    using search_result_fst[OF sr] search_result_suppresses[OF sr] by (cases r) auto
qed

theorem recall_search_correct_witness:
  "\<exists>hid ms. recall_search demo_env mem_cfg demo_l2 (\<lambda>_ _. 0) (\<lambda>x. x) None (demo_state mem_cfg) demo_key
      [Fin 0] 1 0 None = Inr (hid, ms) \<and> map m_id ms = [''b''] \<and>
     hid = {i. \<exists>c. rs_look demo_env mem_cfg (demo_state mem_cfg) demo_key i = Some c \<and> 0 < c_lsn c}"
proof -
  have r: "recall_search demo_env mem_cfg demo_l2 (\<lambda>_ _. 0) (\<lambda>x. x) None (demo_state mem_cfg) demo_key
      [Fin 0] 1 0 None = Inr ({''b'', ''a''}, [\<lparr>m_id = ''b'', m_score = 4, m_metadata = []\<rparr>])"
    by (simp add: recall_search_def use_memory_backend_def mem_cfg_def demo_state_def
        recall_upsert_vectors_def on_mem_def mem_upsert_def last_wins_def alloc_block_def Let_def
        no_recall_def mem_part_def dget_or_def demo_rec_def live_row_def mem_search_def
        snapshot_above_def demo_l2_def py_take_def meta_or_def insert_commute)
  have u: "use_memory_backend mem_cfg \<or> pg_dist_ok demo_env (\<lambda>_ _. 0) (\<lambda>x. x) (demo_l2 [Fin 0]) [Fin 0]"
    by (simp add: use_memory_backend_def mem_cfg_def)
  have "{''b'', ''a''} = {i. \<exists>c. rs_look demo_env mem_cfg (demo_state mem_cfg) demo_key i = Some c \<and> 0 < c_lsn c}"
    using recall_search_correct[where sqdist = demo_l2, OF demo_state_ok u, where fault = None and k = demo_key
        and top_k = 1 and w = 0 and flt = None]
    unfolding r by simp
  then show ?thesis by (simp only: r sum.inject prod.inject) simp
qed






text \<open>
  Round trip of the vector literal: what \<open>_to_pgvector_literal\<close> prints,
  \<open>_pgvector_literal_to_list\<close> reads back, for every vector whose floats print without commas or
  blanks and read back from their printed form.
\<close>

lemma pgvector_literal_roundtrip:
  assumes "\<forall>x \<in> set vs. repr_ok repr fl x"
  shows "pgvector_literal_to_list fl (to_pgvector_literal repr vs) = Inr vs"
  by (rule literal_roundtrip[OF assms])

text \<open>
  \<open>created_at\<close> is the one column the backends treat differently: the memtable refreshes it on every
  write, the UPSERT's conflict branch does not. A partition whose rows are only ever overwritten
  looks idle to one and busy to the other.
\<close>

lemma idle_partitions_differ:
  defines "ops \<equiv> [OpUpsert 10 [demo_rec ''a'' 1], OpUpsert 500 [demo_rec ''a'' 2]]"
  shows "mem_idle_partitions (mem_run (rs_mem no_recall) demo_key ops) 510 300 = [] \<and>
    pg_idle_partitions (pg_run demo_env (rs_pg no_recall) demo_key ops) 510 300 = [demo_key]"
  by (simp add: ops_def mem_idle_partitions_def pg_idle_partitions_def mem_upsert_def pg_upsert_def
      last_wins_def alloc_block_def pg_bump_def Let_def no_recall_def mem_part_def dget_or_def demo_rec_def
      live_row_def pg_upsert_row_def pg_rows_def)

end
