(* ===== verification/Json_Properties.thy ===== *)
theory Json_Properties
  imports Json
begin

text \<open>
  The two copies of the metadata filter agree with each other and with their specification, and
  the ingest endpoint's record validation accepts exactly the well-formed records.
\<close>

section \<open>Rounding to a double\<close>

lemma py_bitlen_bounds: "0 < m \<Longrightarrow> 0 < py_bitlen m \<and> 2 ^ (py_bitlen m - 1) \<le> m \<and> m < 2 ^ py_bitlen m"
proof (induction m rule: py_bitlen.induct)
  case (1 n)
  show ?case
  proof (cases "n = 1")
    case True
    then show ?thesis by (simp add: py_bitlen.simps[of 1] py_bitlen.simps[of 0])
  next
    case False
    with 1 have ih: "0 < py_bitlen (n div 2) \<and> 2 ^ (py_bitlen (n div 2) - 1) \<le> n div 2 \<and>
        n div 2 < 2 ^ py_bitlen (n div 2)" by simp
    then obtain b where b: "py_bitlen (n div 2) = Suc b" using gr0_conv_Suc by blast
    have "py_bitlen n = Suc (Suc b)" using 1(2) b by (simp add: py_bitlen.simps[of n])
    with ih b show ?thesis by auto
  qed
qed

lemma round_half_even_bounds:
  assumes "0 \<le> m"
  shows "m - 2 ^ k < round_half_even m k" and "round_half_even m k \<le> m + 2 ^ k"
proof -
  let ?p = "2 ^ k :: int"
  have m: "m = m div ?p * ?p + m mod ?p" and r: "0 \<le> m mod ?p" "m mod ?p < ?p"
    by (auto simp: div_mult_mod_eq)
  have cases: "round_half_even m k = m \<or> round_half_even m k = m div ?p * ?p + ?p \<or>
      round_half_even m k = m div ?p * ?p"
    by (auto simp: round_half_even_def Let_def algebra_simps)
  show "m - ?p < round_half_even m k" "round_half_even m k \<le> m + ?p"
    using cases m r by (smt (verit) zero_less_power)+
qed

lemma float_of_int_small:
  assumes "\<bar>n\<bar> < 2 ^ 1022"
  shows "\<exists>f. float_of_int n = Inr f"
proof (cases "\<bar>n\<bar> < 2 ^ 53")
  case False
  let ?m = "\<bar>n\<bar>"
  let ?k = "py_bitlen ?m - 53"
  have pos: "0 < ?m" using False by simp
  have "(2::int) ^ ?k \<le> 2 ^ (py_bitlen ?m - 1)" by (rule power_increasing) auto
  also have "\<dots> \<le> ?m" using py_bitlen_bounds[OF pos] by blast
  finally have "round_half_even ?m ?k \<le> 2 * ?m" using round_half_even_bounds(2)[of ?m ?k] by simp
  also have "\<dots> < 2 * 2 ^ 1022" using assms by linarith
  also have "\<dots> < 2 ^ 1024" by simp
  finally have "round_half_even ?m ?k < 2 ^ 1024" .
  then show ?thesis by (simp add: float_of_int_def Let_def linorder_not_le)
qed (simp add: float_of_int_def)

lemma quarter_le: "n < 2 * r \<Longrightarrow> y = 4 * x \<Longrightarrow> y \<le> n \<Longrightarrow> 0 \<le> x \<Longrightarrow> x \<le> r" for x y n r :: int
  by linarith

lemma float_of_int_huge:
  assumes "2 ^ 1026 \<le> n"
  shows "float_of_int n = Inl OverflowError"
proof -
  let ?k = "py_bitlen n - 53"
  have pos: "0 < n" using assms by (smt (verit) zero_less_power)
  note b = py_bitlen_bounds[OF pos]
  have "(2::int) ^ 1026 < 2 ^ py_bitlen n" using assms b by linarith
  then have len: "1026 < py_bitlen n" by (simp add: power_less_imp_less_exp[of "2::int"])
  then have "(2::int) * 2 ^ ?k \<le> 2 ^ (py_bitlen n - 1)"
    using power_increasing[of "Suc ?k" "py_bitlen n - 1" "2::int"] by simp
  then have "n < 2 * round_half_even n ?k" using round_half_even_bounds(1)[of n ?k] pos b by linarith
  moreover have "2 ^ 1026 = 4 * (2::int) ^ 1024" by (simp add: power_add[of _ 2 1024, simplified])
  ultimately have "2 ^ 1024 \<le> round_half_even n ?k"
    by (rule quarter_le[OF _ _ assms]) (rule zero_le_power, simp)
  moreover have "\<not> n < 2 ^ 53" using assms by (smt (verit) power_increasing one_le_numeral numeral_le_iff semiring_norm)
  ultimately show ?thesis using pos by (simp add: float_of_int_def Let_def)
qed

section \<open>The metadata filter\<close>

text \<open>
  The metadata filter holds exactly when every entry of the filter is present in the metadata
  with a value of the same JSON type that is equal to it, and no entry asks for null; the recall
  adapter's copy of the function is equivalent to the query service's.
\<close>

theorem metadata_filter_correct:
  "metadata_matches_filter m flt = (\<forall>(key, want) \<in> set flt. want \<noteq> JNull \<and>
      (\<exists>got. dget m key = Some got \<and> py_type got = py_type want \<and> py_eq got want)) \<and>
   recall_metadata_matches_filter m flt = metadata_matches_filter m flt"
  using metadata_matches_filter_iff[of m flt] unfolding filter_spec_def recall_filter_eq
  by (intro conjI refl)

theorem metadata_filter_correct_witness:
  "metadata_matches_filter [(''n'', JInt 1), (''s'', JStr ''x'')] [(''s'', JStr ''x''), (''n'', JInt 1)] \<and>
   \<not> metadata_matches_filter [(''n'', JInt 1)] [(''n'', JBool True)]"
  using metadata_filter_correct[of "[(''n'', JInt 1), (''s'', JStr ''x'')]" "[(''s'', JStr ''x''), (''n'', JInt 1)]"]
    metadata_filter_correct[of "[(''n'', JInt 1)]" "[(''n'', JBool True)]"] by simp

section \<open>Record validation\<close>

fun fits_float4 :: "json \<Rightarrow> bool" where
  "fits_float4 (JInt n) = (\<bar>of_int n\<bar> \<le> float4_max)"
| "fits_float4 (JFloat (Fin q)) = (\<bar>q\<bar> \<le> float4_max)"
| "fits_float4 _ = False"

definition record_ok :: "json \<Rightarrow> int \<Rightarrow> bool" where
  "record_ok obj dm \<longleftrightarrow> (\<exists>fields rid vs. obj = JObj fields \<and>
     dget fields ''id'' = Some (JStr rid) \<and> rid \<noteq> [] \<and> length rid \<le> 256 \<and>
     dget fields ''values'' = Some (JList vs) \<and> int (length vs) = dm \<and> list_all fits_float4 vs \<and>
     (\<forall>m. dget fields ''metadata'' = Some m \<longrightarrow> m = JNull \<or> (\<exists>d. m = JObj d)))"

lemma fits_number: "fits_float4 v \<Longrightarrow> is_number v"
  by (induction v rule: fits_float4.induct) auto

lemma finite_float4_fits:
  assumes "fits_float4 v"
  shows "finite_float4 v = Inr True"
proof (cases v)
  case (JInt n)
  with assms have "\<bar>rat_of_int n\<bar> \<le> float4_max" by simp
  also have "\<dots> < of_int (2 ^ 1022)" by (simp add: float4_max_def)
  finally have "\<bar>n\<bar> < 2 ^ 1022" by (simp only: of_int_less_iff flip: of_int_abs)
  with float_of_int_small obtain f where "float_of_int n = Inr f" by blast
  with JInt assms show ?thesis by simp
next
  case (JFloat f)
  with assms show ?thesis by (cases f) auto
qed (use assms in auto)

lemma finite_float4_True: "finite_float4 v = Inr True \<Longrightarrow> fits_float4 v"
  by (induction v rule: finite_float4.induct) (auto split: sum.splits)

lemma finite_float4_exn: "finite_float4 v = Inl e \<Longrightarrow> e = OverflowError"
  by (induction v rule: finite_float4.induct)
     (auto simp: float_of_int_def Let_def split: sum.splits if_splits)

lemma all_finite_float4_iff: "all_finite_float4 vs = Inr True \<longleftrightarrow> list_all fits_float4 vs"
proof (induction vs)
  case (Cons v vs)
  then show ?case using finite_float4_fits[of v] finite_float4_True[of v]
    by (cases "fits_float4 v") (auto split: sum.splits bool.splits)
qed simp

lemma all_finite_float4_exn: "all_finite_float4 vs = Inl e \<Longrightarrow> e = OverflowError"
  by (induction vs) (auto split: sum.splits bool.splits dest: finite_float4_exn)

lemma validate_accepts:
  assumes "record_ok obj dm"
  shows "validate_ndjson_record obj dm = Inr None"
proof -
  obtain fields rid vs where r: "obj = JObj fields" "dget fields ''id'' = Some (JStr rid)" "rid \<noteq> []"
    "length rid \<le> 256" "dget fields ''values'' = Some (JList vs)" "int (length vs) = dm"
    "list_all fits_float4 vs"
    and m: "\<forall>m. dget fields ''metadata'' = Some m \<longrightarrow> m = JNull \<or> (\<exists>d. m = JObj d)"
    using assms unfolding record_ok_def by blast
  have "list_all is_number vs" using r(7) by (auto simp: list_all_iff dest: fits_number)
  moreover have "all_finite_float4 vs = Inr True" using r(7) by (simp add: all_finite_float4_iff)
  moreover have "(case dget fields ''metadata'' of None \<Rightarrow> Inr None | Some JNull \<Rightarrow> Inr None
      | Some (JObj _) \<Rightarrow> Inr None | Some _ \<Rightarrow> Inr (Some BadMetadata)) = Inr None"
    using m by (cases "dget fields ''metadata''") auto
  ultimately show ?thesis using r by (simp add: validate_ndjson_record_def)
qed

lemma validate_exn: "validate_ndjson_record obj dm = Inl e \<Longrightarrow> \<exists>vs. all_finite_float4 vs = Inl e"
  unfolding validate_ndjson_record_def
  by (simp split: json.split_asm option.split_asm if_split_asm sum.split_asm bool.split_asm; blast)

text \<open>
  The ingest endpoint accepts a decoded NDJSON record exactly when it is an object with a
  non-empty string id of at most 256 characters, as many values as the dataset's dimension, every
  value an int or float (never a bool) inside the float4 range, and metadata absent, null or an
  object; the only exception that can escape the check is OverflowError.
\<close>

theorem ndjson_record_accepted_iff:
  "(validate_ndjson_record obj dm = Inr None \<longleftrightarrow> record_ok obj dm) \<and>
   (validate_ndjson_record obj dm \<in> range Inr \<union> {Inl OverflowError})"
proof
  show "validate_ndjson_record obj dm = Inr None \<longleftrightarrow> record_ok obj dm"
  proof
    assume "validate_ndjson_record obj dm = Inr None"
    then show "record_ok obj dm"
      by (auto simp: validate_ndjson_record_def record_ok_def all_finite_float4_iff
          split: json.splits option.splits sum.splits bool.splits if_splits)
  next
    assume "record_ok obj dm"
    then show "validate_ndjson_record obj dm = Inr None" by (rule validate_accepts)
  qed
  have "e = OverflowError" if "validate_ndjson_record obj dm = Inl e" for e
    using validate_exn[OF that] all_finite_float4_exn by blast
  then show "validate_ndjson_record obj dm \<in> range Inr \<union> {Inl OverflowError}"
    by (cases "validate_ndjson_record obj dm") auto
qed

text \<open>
  The exception is reachable: \<open>math.isfinite\<close> converts an int to a double before the range test, so
  a record whose only fault is a huge integer is answered by an unhandled OverflowError.
\<close>

lemma ndjson_overflow_escapes:
  "validate_ndjson_record (JObj [(''id'', JStr ''a''), (''values'', JList [JInt (2 ^ 1026)])]) 1 = Inl OverflowError"
proof -
  have "finite_float4 (JInt (2 ^ 1026)) = Inl OverflowError"
    by (simp only: finite_float4.simps float_of_int_huge order_refl sum.case)
  then have "all_finite_float4 [JInt (2 ^ 1026)] = Inl OverflowError"
    by (simp only: all_finite_float4.simps sum.case)
  then show ?thesis
    unfolding validate_ndjson_record_def by (simp del: all_finite_float4.simps power_numeral finite_float4.simps)
qed

end
