(* ===== verification/Queue.thy ===== *)
theory Queue
  imports Json
begin

text \<open>
  The queue adapter, \<open>adapters/queue/queue.py\<close>: the reliable-delivery Redis backend (a main list,
  a processing list, a dead-letter list and the \<open>attempts\<close> and \<open>received\<close> hashes per topic) and the
  in-process backend. Each definition performs the Redis commands of its function in order, on the
  record of one topic; \<open>publish\<close>, \<open>consume\<close>, \<open>ack\<close>, ... lift them to the whole store and choose the
  backend. The fresh message id, the trace carrier and the clock are arguments.
\<close>

section \<open>The wire format\<close>

text \<open>
  An entry on a list is a JSON text; \<open>Wire\<close> is one that parses, \<open>Garbled\<close> one that does not. Two
  entries are the same text exactly when these values are equal.
\<close>

datatype wire = Wire json | Garbled string

text \<open>
  \<open>decoded.get("_msg_id", "") if isinstance(decoded, dict) else ""\<close>. \<open>publish\<close> stamps a string; an id
  of another JSON type, which no writer produces, reads as the empty one.
\<close>

definition wire_id :: "json \<Rightarrow> string" where
  "wire_id d = (case d of
     JObj fs \<Rightarrow> (case dget fs ''_msg_id'' of Some (JStr i) \<Rightarrow> i | _ \<Rightarrow> [])
   | _ \<Rightarrow> [])"

definition strip_envelope :: "meta \<Rightarrow> meta" where
  "strip_envelope fs = ddel ''_otel'' (ddel ''_msg_id'' fs)"

definition envelope :: "meta \<Rightarrow> string \<Rightarrow> meta \<Rightarrow> wire" where
  "envelope message fresh carrier =
     (let enveloped = dset ''_msg_id'' (JStr fresh) message in
      Wire (JObj (if carrier \<noteq> [] then dset ''_otel'' (JObj carrier) enveloped else enveloped)))"

record message =
  msg_payload :: meta
  msg_topic :: string
  msg_id :: string
  msg_raw :: wire

section \<open>One topic in Redis\<close>

record topicq =
  q_main :: "wire list"
  q_proc :: "wire list"
  q_dlq :: "wire list"
  q_attempts :: "(string, int) pdict"
  q_received :: "(string, time) pdict"

definition empty_topic :: topicq where
  "empty_topic = \<lparr>q_main = [], q_proc = [], q_dlq = [], q_attempts = [], q_received = []\<rparr>"

definition lpush_main :: "wire \<Rightarrow> topicq \<Rightarrow> topicq" where
  "lpush_main raw t = t\<lparr>q_main := raw # q_main t\<rparr>"

text \<open>\<open>LMOVE topic topic:processing LEFT RIGHT\<close>\<close>

definition redis_take :: "topicq \<Rightarrow> wire option \<times> topicq" where
  "redis_take t =
     (case q_main t of
        [] \<Rightarrow> (None, t)
      | raw # rest \<Rightarrow> (Some raw, t\<lparr>q_main := rest, q_proc := q_proc t @ [raw]\<rparr>))"

text \<open>The MULTI/EXEC pipeline of \<open>consume\<close>.\<close>

definition stamp :: "time \<Rightarrow> string \<Rightarrow> topicq \<Rightarrow> topicq" where
  "stamp now i t =
     (if i = [] then t
      else t\<lparr>q_attempts := dset i (dget_or (q_attempts t) i 0 + 1) (q_attempts t),
             q_received := dset i now (q_received t)\<rparr>)"

definition message_of :: "string \<Rightarrow> json \<Rightarrow> message" where
  "message_of topic d =
     \<lparr>msg_payload = (case d of JObj fs \<Rightarrow> strip_envelope fs | _ \<Rightarrow> []),
      msg_topic = topic, msg_id = wire_id d, msg_raw = Wire d\<rparr>"

definition tq_consume :: "string \<Rightarrow> time \<Rightarrow> topicq \<Rightarrow> (pyexc + message option) \<times> topicq" where
  "tq_consume topic now t =
     (case redis_take t of
        (None, t1) \<Rightarrow> (Inr None, t1)
      | (Some (Garbled s), t1) \<Rightarrow> (Inl (ValueError s), t1)
      | (Some (Wire d), t1) \<Rightarrow> (Inr (Some (message_of topic d)), stamp now (wire_id d) t1))"

text \<open>Both hashes forget an id; a message without an id has no entries to forget.\<close>

definition forget_received :: "string \<Rightarrow> topicq \<Rightarrow> topicq" where
  "forget_received i t = (if i = [] then t else t\<lparr>q_received := ddel i (q_received t)\<rparr>)"

definition forget :: "string \<Rightarrow> topicq \<Rightarrow> topicq" where
  "forget i t = (if i = [] then t
     else t\<lparr>q_attempts := ddel i (q_attempts t), q_received := ddel i (q_received t)\<rparr>)"

definition tq_ack :: "message \<Rightarrow> topicq \<Rightarrow> topicq" where
  "tq_ack m t = forget (msg_id m) (t\<lparr>q_proc := remove1 (msg_raw m) (q_proc t)\<rparr>)"

definition attempts_of :: "string \<Rightarrow> topicq \<Rightarrow> int" where
  "attempts_of i t = (if i = [] then 0 else dget_or (q_attempts t) i 0)"

text \<open>
  The end of \<open>nack\<close> and of a reclaim, after the entry has left the processing list: the dead-letter
  list once the attempts are used up (or no requeue is wanted), else the main list's far end.
\<close>

definition dead_letter :: "string \<Rightarrow> wire \<Rightarrow> topicq \<Rightarrow> topicq" where
  "dead_letter i raw t = forget i (t\<lparr>q_dlq := raw # q_dlq t\<rparr>)"

definition tq_nack :: "int \<Rightarrow> message \<Rightarrow> bool \<Rightarrow> topicq \<Rightarrow> bool \<times> topicq" where
  "tq_nack max_attempts m requeue t =
     (if msg_raw m \<notin> set (q_proc t) then (False, t)
      else
        let t1 = t\<lparr>q_proc := remove1 (msg_raw m) (q_proc t)\<rparr>
        in if \<not> requeue \<or> attempts_of (msg_id m) t1 \<ge> max_attempts
           then (True, dead_letter (msg_id m) (msg_raw m) t1)
           else (let t2 = forget_received (msg_id m) t1
                 in (False, t2\<lparr>q_main := q_main t2 @ [msg_raw m]\<rparr>)))"

text \<open>One iteration of the reaper's loop over the processing list.\<close>

definition raw_id :: "wire \<Rightarrow> string" where
  "raw_id raw = (case raw of Garbled _ \<Rightarrow> [] | Wire d \<Rightarrow> wire_id d)"

definition reclaim_entry :: "int \<Rightarrow> time \<Rightarrow> int \<Rightarrow> wire \<Rightarrow> int \<times> topicq \<Rightarrow> int \<times> topicq" where
  "reclaim_entry max_attempts now older raw = (\<lambda>(reclaimed, t).
     let i = raw_id raw;
         received_at = (if i = [] then None else dget (q_received t) i)
     in case received_at of
          None \<Rightarrow> (reclaimed, if i = [] then t else t\<lparr>q_received := dset i now (q_received t)\<rparr>)
        | Some since \<Rightarrow>
            if now - since < older then (reclaimed, t)
            else if raw \<notin> set (q_proc t) then (reclaimed, t)
            else
              let t1 = t\<lparr>q_proc := remove1 raw (q_proc t)\<rparr>
              in (reclaimed + 1,
                  if attempts_of i t1 \<ge> max_attempts then dead_letter i raw t1
                  else forget_received i (t1\<lparr>q_main := q_main t1 @ [raw]\<rparr>)))"

definition tq_reclaim :: "int \<Rightarrow> time \<Rightarrow> int \<Rightarrow> topicq \<Rightarrow> int \<times> topicq" where
  "tq_reclaim max_attempts now older t =
     fold (reclaim_entry max_attempts now older) (q_proc t) (0, t)"

section \<open>The adapter\<close>

record qcfg =
  q_redis :: bool
  q_max_attempts :: int

record qstate =
  qs_topics :: "(string, topicq) pdict"
  qs_lock :: "(string \<times> time) option"
  qs_local :: "(string, wire list) pdict"

definition topic_state :: "qstate \<Rightarrow> string \<Rightarrow> topicq" where
  "topic_state s topic = dget_or (qs_topics s) topic empty_topic"

definition set_topic :: "qstate \<Rightarrow> string \<Rightarrow> topicq \<Rightarrow> qstate" where
  "set_topic s topic t = s\<lparr>qs_topics := dset topic t (qs_topics s)\<rparr>"

definition publish :: "qcfg \<Rightarrow> qstate \<Rightarrow> string \<Rightarrow> meta \<Rightarrow> string \<Rightarrow> meta \<Rightarrow> qstate" where
  "publish cfg s topic message fresh carrier =
     (let raw = envelope message fresh carrier in
      if q_redis cfg then set_topic s topic (lpush_main raw (topic_state s topic))
      else s\<lparr>qs_local := dset topic (dget_or (qs_local s) topic [] @ [raw]) (qs_local s)\<rparr>)"

definition local_take :: "qstate \<Rightarrow> string \<Rightarrow> wire option \<times> qstate" where
  "local_take s topic =
     (case dget_or (qs_local s) topic [] of
        [] \<Rightarrow> (None, s\<lparr>qs_local := dset topic [] (qs_local s)\<rparr>)
      | raw # rest \<Rightarrow> (Some raw, s\<lparr>qs_local := dset topic rest (qs_local s)\<rparr>))"

definition consume :: "qcfg \<Rightarrow> qstate \<Rightarrow> string \<Rightarrow> time \<Rightarrow> (pyexc + message option) \<times> qstate" where
  "consume cfg s topic now =
     (if q_redis cfg then
        let (r, t) = tq_consume topic now (topic_state s topic) in (r, set_topic s topic t)
      else case local_take s topic of
          (None, s1) \<Rightarrow> (Inr None, s1)
        | (Some (Garbled x), s1) \<Rightarrow> (Inl (ValueError x), s1)
        | (Some (Wire d), s1) \<Rightarrow> (Inr (Some (message_of topic d)), s1))"

definition ack :: "qcfg \<Rightarrow> qstate \<Rightarrow> message option \<Rightarrow> qstate" where
  "ack cfg s message =
     (case message of
        None \<Rightarrow> s
      | Some m \<Rightarrow>
          if \<not> q_redis cfg then s
          else set_topic s (msg_topic m) (tq_ack m (topic_state s (msg_topic m))))"

definition nack :: "qcfg \<Rightarrow> qstate \<Rightarrow> message option \<Rightarrow> bool \<Rightarrow> string \<Rightarrow> meta \<Rightarrow> bool \<times> qstate" where
  "nack cfg s message requeue fresh carrier =
     (case message of
        None \<Rightarrow> (False, s)
      | Some m \<Rightarrow>
          if \<not> q_redis cfg then
            (False, if requeue then publish cfg s (msg_topic m) (msg_payload m) fresh carrier else s)
          else
            let (r, t) = tq_nack (q_max_attempts cfg) m requeue (topic_state s (msg_topic m))
            in (r, set_topic s (msg_topic m) t))"

definition dlq_size :: "qcfg \<Rightarrow> qstate \<Rightarrow> string \<Rightarrow> int" where
  "dlq_size cfg s topic = (if \<not> q_redis cfg then 0 else int (length (q_dlq (topic_state s topic))))"

definition processing_size :: "qcfg \<Rightarrow> qstate \<Rightarrow> string \<Rightarrow> int" where
  "processing_size cfg s topic =
     (if \<not> q_redis cfg then 0 else int (length (q_proc (topic_state s topic))))"

fun peek_entries :: "wire list \<Rightarrow> json list" where
  "peek_entries [] = []"
| "peek_entries (Garbled _ # rs) = peek_entries rs"
| "peek_entries (Wire (JObj fs) # rs) = JObj (strip_envelope fs) # peek_entries rs"
| "peek_entries (Wire d # rs) = d # peek_entries rs"

definition peek_dlq :: "qcfg \<Rightarrow> qstate \<Rightarrow> string \<Rightarrow> json list" where
  "peek_dlq cfg s topic =
     (if \<not> q_redis cfg then [] else peek_entries (q_dlq (topic_state s topic)))"

text \<open>\<open>SET reaper:lock id NX EX max(1, int(ttl))\<close>: an expired lock is absent.\<close>

definition lock_holder :: "qstate \<Rightarrow> time \<Rightarrow> string option" where
  "lock_holder s now =
     (case qs_lock s of None \<Rightarrow> None | Some (h, till) \<Rightarrow> if now < till then Some h else None)"

definition acquire_reaper_lock :: "qcfg \<Rightarrow> qstate \<Rightarrow> string \<Rightarrow> int \<Rightarrow> time \<Rightarrow> bool \<times> qstate" where
  "acquire_reaper_lock cfg s lock_id ttl now =
     (if \<not> q_redis cfg then (True, s)
      else if lock_holder s now \<noteq> None then (False, s)
      else (True, s\<lparr>qs_lock := Some (lock_id, now + max 1 ttl)\<rparr>))"

definition release_reaper_lock :: "qcfg \<Rightarrow> qstate \<Rightarrow> string \<Rightarrow> time \<Rightarrow> qstate" where
  "release_reaper_lock cfg s lock_id now =
     (if \<not> q_redis cfg then s
      else if lock_holder s now = Some lock_id then s\<lparr>qs_lock := None\<rparr> else s)"

definition reclaim_stale_processing :: "qcfg \<Rightarrow> qstate \<Rightarrow> string \<Rightarrow> int \<Rightarrow> time \<Rightarrow> int \<times> qstate" where
  "reclaim_stale_processing cfg s topic older now =
     (if \<not> q_redis cfg then (0, s)
      else let (n, t) = tq_reclaim (q_max_attempts cfg) now older (topic_state s topic)
           in (n, set_topic s topic t))"

end
