(* ===== verification/Queue_Correct.thy ===== *)
theory Queue_Correct
  imports Queue
begin

text \<open>
  Delivery guarantees of one Redis topic, as an inductive system of everything producers, workers
  (also ones whose message was taken from them) and reapers do, one queue command of the code per
  step: conservation of messages, the attempts cap, and the exact effect of a reclaim pass.
\<close>

section \<open>Reachable states\<close>

text \<open>
  \<open>pub\<close> are the entries published, \<open>dn\<close> the entries an \<open>ack\<close> has removed. \<open>reach_crash\<close> is a
  worker that dies between the move and the stamp; an \<open>ack\<close> or \<open>nack\<close> may come from any worker that
  was ever handed the message, and a reaper may act on an entry of an old \<open>LRANGE\<close>.
\<close>

inductive reach :: "int \<Rightarrow> string \<Rightarrow> topicq \<Rightarrow> wire list \<Rightarrow> wire list \<Rightarrow> bool" for mx topic where
  reach_init: "reach mx topic empty_topic [] []"
| reach_publish: "reach mx topic t pub dn \<Longrightarrow> fresh \<noteq> [] \<Longrightarrow> fresh \<notin> raw_id ` set pub \<Longrightarrow>
    raw = envelope m fresh carrier \<Longrightarrow> reach mx topic (lpush_main raw t) (raw # pub) dn"
| reach_consume: "reach mx topic t pub dn \<Longrightarrow> tq_consume topic now t = (r, t') \<Longrightarrow> reach mx topic t' pub dn"
| reach_crash: "reach mx topic t pub dn \<Longrightarrow> redis_take t = (r, t') \<Longrightarrow> reach mx topic t' pub dn"
| reach_ack: "reach mx topic t pub dn \<Longrightarrow> Wire d \<in> set pub \<Longrightarrow> t' = tq_ack (message_of topic d) t \<Longrightarrow>
    dn' = (if Wire d \<in> set (q_proc t) then Wire d # dn else dn) \<Longrightarrow> reach mx topic t' pub dn'"
| reach_nack: "reach mx topic t pub dn \<Longrightarrow> Wire d \<in> set pub \<Longrightarrow>
    tq_nack mx (message_of topic d) requeue t = (dead, t') \<Longrightarrow> reach mx topic t' pub dn"
| reach_reclaim: "reach mx topic t pub dn \<Longrightarrow> raw \<in> set pub \<Longrightarrow>
    reclaim_entry mx now older raw (n, t) = (n', t') \<Longrightarrow> reach mx topic t' pub dn"

section \<open>The invariant\<close>

definition pub_ok :: "wire list \<Rightarrow> bool" where
  "pub_ok pub \<longleftrightarrow> distinct (map raw_id pub) \<and> [] \<notin> raw_id ` set pub"

definition conserved :: "topicq \<Rightarrow> wire list \<Rightarrow> wire list \<Rightarrow> bool" where
  "conserved t pub dn \<longleftrightarrow> mset pub = mset (q_main t) + mset (q_proc t) + mset (q_dlq t) + mset dn"

definition capped :: "int \<Rightarrow> topicq \<Rightarrow> wire list \<Rightarrow> bool" where
  "capped mx t pub \<longleftrightarrow> (\<forall>i. i \<notin> raw_id ` set pub \<longrightarrow> attempts_of i t = 0) \<and>
     (\<forall>raw \<in> set (q_main t). attempts_of (raw_id raw) t < mx) \<and>
     (\<forall>raw \<in> set (q_proc t). attempts_of (raw_id raw) t \<le> mx)"

lemma raw_id_simps [simp]: "raw_id (Wire d) = wire_id d" "raw_id (Garbled s) = []"
  by (simp_all add: raw_id_def)

lemma message_of_sel [simp]:
  "msg_id (message_of topic d) = wire_id d" "msg_raw (message_of topic d) = Wire d"
  "msg_topic (message_of topic d) = topic"
  by (simp_all add: message_of_def)

lemma raw_id_envelope [simp]: "raw_id (envelope m fresh carrier) = fresh"
  by (simp add: envelope_def Let_def wire_id_def pdict_simps)

lemma lists_of_dead_letter [simp]:
  "q_main (dead_letter i raw t) = q_main t" "q_proc (dead_letter i raw t) = q_proc t"
  "q_dlq (dead_letter i raw t) = raw # q_dlq t"
  by (simp_all add: dead_letter_def forget_def)

lemma lists_of_forget [simp]:
  "q_main (forget i t) = q_main t" "q_proc (forget i t) = q_proc t" "q_dlq (forget i t) = q_dlq t"
  "q_main (forget_received i t) = q_main t" "q_proc (forget_received i t) = q_proc t"
  "q_dlq (forget_received i t) = q_dlq t" "q_attempts (forget_received i t) = q_attempts t"
  by (simp_all add: forget_def forget_received_def)

lemma lists_of_stamp [simp]:
  "q_main (stamp now i t) = q_main t" "q_proc (stamp now i t) = q_proc t" "q_dlq (stamp now i t) = q_dlq t"
  by (simp_all add: stamp_def)

lemma attempts_of_simps [simp]:
  "attempts_of j (dead_letter i raw t) = (if j = i then 0 else attempts_of j t)"
  "attempts_of j (forget i t) = (if j = i then 0 else attempts_of j t)"
  "attempts_of j (forget_received i t) = attempts_of j t"
  "attempts_of j (stamp now i t) = (if j = i \<and> i \<noteq> [] then attempts_of j t + 1 else attempts_of j t)"
  "attempts_of j (t\<lparr>q_main := x\<rparr>) = attempts_of j t"
  "attempts_of j (t\<lparr>q_proc := x\<rparr>) = attempts_of j t"
  "attempts_of j (t\<lparr>q_received := y\<rparr>) = attempts_of j t"
  by (auto simp: attempts_of_def dead_letter_def forget_def forget_received_def stamp_def dget_or_def
      pdict_simps)

lemma conserved_distinct:
  assumes "pub_ok pub" and "conserved t pub dn"
  shows "distinct (q_main t @ q_proc t @ q_dlq t @ dn)" and "set pub = set (q_main t @ q_proc t @ q_dlq t @ dn)"
proof -
  have m: "mset pub = mset (q_main t @ q_proc t @ q_dlq t @ dn)" using assms(2) by (simp add: conserved_def)
  then show "set pub = set (q_main t @ q_proc t @ q_dlq t @ dn)" by (rule mset_eq_setD)
  have "distinct pub" using assms(1) by (simp add: pub_ok_def distinct_map)
  with m show "distinct (q_main t @ q_proc t @ q_dlq t @ dn)" by (metis mset_eq_imp_distinct_iff)
qed

lemma pub_ok_inj: "pub_ok pub \<Longrightarrow> x \<in> set pub \<Longrightarrow> y \<in> set pub \<Longrightarrow> raw_id x = raw_id y \<Longrightarrow> x = y"
  by (auto simp: pub_ok_def distinct_map dest: inj_onD)

text \<open>The moves between the lists that the steps are made of.\<close>

lemma conserved_take: "conserved t pub dn \<Longrightarrow> redis_take t = (r, t') \<Longrightarrow> conserved t' pub dn"
  by (auto simp: redis_take_def conserved_def ac_simps split: list.splits)

lemma conserved_lists:
  "q_main t' = q_main t \<Longrightarrow> q_proc t' = q_proc t \<Longrightarrow> q_dlq t' = q_dlq t \<Longrightarrow>
   conserved t' pub dn \<longleftrightarrow> conserved t pub dn"
  by (simp add: conserved_def)

lemma take_stamp:
  "tq_consume topic now t = (r, t') \<Longrightarrow>
   \<exists>x t1. redis_take t = (x, t1) \<and> (t' = t1 \<or> (\<exists>d. x = Some (Wire d) \<and> t' = stamp now (wire_id d) t1))"
  by (auto simp: tq_consume_def split: prod.splits option.splits wire.splits)

lemma mset_remove1_add: "x \<in> set xs \<Longrightarrow> add_mset x (mset (remove1 x xs)) = mset xs"
  by simp

definition settled :: "wire \<Rightarrow> int \<Rightarrow> topicq \<Rightarrow> topicq \<Rightarrow> bool" where
  "settled raw mx t t' \<longleftrightarrow>
     (raw \<in> set (q_proc t) \<and> q_proc t' = remove1 raw (q_proc t) \<and>
      (q_main t' = q_main t @ [raw] \<and> q_dlq t' = q_dlq t \<and> attempts_of (raw_id raw) t < mx \<and>
         (\<forall>j. attempts_of j t' = attempts_of j t) \<or>
       q_main t' = q_main t \<and> q_dlq t' = raw # q_dlq t \<and>
         (\<forall>j. attempts_of j t' = (if j = raw_id raw then 0 else attempts_of j t)))) \<or>
     (q_main t' = q_main t \<and> q_proc t' = q_proc t \<and> q_dlq t' = q_dlq t \<and>
      (\<forall>j. attempts_of j t' = attempts_of j t))"

text \<open>A nack and a reclaim settle their entry: requeued under the cap, dead-lettered, or left alone.\<close>

lemma nack_settled:
  "tq_nack mx (message_of topic d) requeue t = (dead, t') \<Longrightarrow> settled (Wire d) mx t t'"
  by (auto simp: tq_nack_def settled_def Let_def split: if_splits)

lemma reclaim_settled:
  "reclaim_entry mx now older raw (n, t) = (n', t') \<Longrightarrow> settled raw mx t t'"
  by (auto simp: reclaim_entry_def settled_def Let_def split: if_splits option.splits)

lemma settled_conserved:
  assumes "settled raw mx t t'" and "conserved t pub dn"
  shows "conserved t' pub dn"
proof -
  have "raw \<in> set (q_proc t) \<Longrightarrow> mset (q_proc t) = add_mset raw (mset (remove1 raw (q_proc t)))" by simp
  then show ?thesis using assms unfolding settled_def conserved_def
    by (elim disjE conjE) (simp_all del: mset_remove1)
qed

lemma settled_capped:
  assumes "settled raw mx t t'" and "capped mx t pub" and "0 < mx"
  shows "capped mx t' pub"
proof -
  have sub: "set (q_proc t') \<subseteq> set (q_proc t)"
    using assms(1) set_remove1_subset[of raw "q_proc t"] by (auto simp: settled_def)
  show ?thesis using assms sub unfolding settled_def capped_def by (elim disjE conjE) auto
qed

lemma capped_take:
  assumes "pub_ok pub" and "conserved t pub dn" and "capped mx t pub" and "redis_take t = (x, t1)"
    and "t' = t1 \<or> (\<exists>d. x = Some (Wire d) \<and> t' = stamp now (wire_id d) t1)"
  shows "capped mx t' pub"
proof (cases "q_main t")
  case Nil
  with assms show ?thesis by (auto simp: redis_take_def)
next
  case (Cons raw rest)
  then have x: "x = Some raw" and t1: "t1 = t\<lparr>q_main := rest, q_proc := q_proc t @ [raw]\<rparr>"
    using assms(4) by (auto simp: redis_take_def)
  have att: "attempts_of j t1 = attempts_of j t" for j by (simp add: t1)
  have c1: "capped mx t1 pub" using assms(3) Cons t1 by (auto simp: capped_def att)
  show ?thesis
  proof (cases "t' = t1")
    case False
    then obtain d where d: "raw = Wire d" and t': "t' = stamp now (wire_id d) t1"
      using assms(5) x by auto
    note dst = conserved_distinct[OF assms(1,2)]
    have "raw_id y \<noteq> wire_id d" if "y \<in> set rest \<union> set (q_proc t)" for y
      using pub_ok_inj[OF assms(1), of y raw] that d Cons dst by auto
    moreover have "wire_id d \<in> raw_id ` set pub" using dst(2) Cons d by force
    ultimately show ?thesis using c1 assms(3) Cons d
      unfolding t' capped_def by (auto simp: att t1)
  qed (use c1 in simp)
qed

lemma reach_invariant:
  assumes "reach mx topic t pub dn"
  shows "pub_ok pub \<and> conserved t pub dn \<and> (0 < mx \<longrightarrow> capped mx t pub)"
  using assms
proof (induction rule: reach.induct)
  case reach_init
  then show ?case by (simp add: pub_ok_def conserved_def capped_def empty_topic_def attempts_of_def dget_or_def)
next
  case (reach_publish t pub dn fresh raw m carrier)
  then show ?case
    by (auto simp: pub_ok_def conserved_def capped_def lpush_main_def)
next
  case (reach_consume t pub dn now r t')
  obtain x t1 where x: "redis_take t = (x, t1)"
    "t' = t1 \<or> (\<exists>d. x = Some (Wire d) \<and> t' = stamp now (wire_id d) t1)"
    using take_stamp[OF reach_consume(2)] by blast
  have "conserved t1 pub dn" using reach_consume.IH x conserved_take by blast
  then have "conserved t' pub dn" using x(2) by (auto simp: conserved_def)
  with reach_consume.IH capped_take[OF _ _ _ x] show ?case by blast
next
  case (reach_crash t pub dn r t')
  then show ?case using conserved_take capped_take[of pub t dn mx r t' t' 0] by blast
next
  case (reach_ack t pub dn d t' dn')
  have "set (remove1 (Wire d) (q_proc t)) \<subseteq> set (q_proc t)" by (rule set_remove1_subset)
  then have "0 < mx \<longrightarrow> capped mx t' pub"
    using reach_ack by (auto simp: capped_def tq_ack_def)
  moreover have "conserved t' pub dn'"
  proof (cases "Wire d \<in> set (q_proc t)")
    case True
    then have "add_mset (Wire d) (mset (q_proc t')) = mset (q_proc t)"
      using reach_ack.hyps by (simp add: tq_ack_def)
    with True reach_ack show ?thesis by (auto simp: conserved_def tq_ack_def)
  next
    case False
    with reach_ack show ?thesis by (simp add: conserved_def tq_ack_def remove1_idem)
  qed
  ultimately show ?case using reach_ack.IH by blast
next
  case (reach_nack t pub dn d requeue dead t')
  then show ?case using nack_settled settled_conserved settled_capped by metis
next
  case (reach_reclaim t pub dn raw now older n n' t')
  then show ?case using reclaim_settled settled_conserved settled_capped by metis
qed

section \<open>A whole reclaim pass\<close>

definition stale :: "time \<Rightarrow> int \<Rightarrow> topicq \<Rightarrow> wire \<Rightarrow> bool" where
  "stale now older t raw \<longleftrightarrow> raw_id raw \<noteq> [] \<and>
     (case dget (q_received t) (raw_id raw) of None \<Rightarrow> False | Some since \<Rightarrow> older \<le> now - since)"

definition exhausted :: "int \<Rightarrow> topicq \<Rightarrow> wire \<Rightarrow> bool" where
  "exhausted mx t raw \<longleftrightarrow> mx \<le> attempts_of (raw_id raw) t"

lemma reclaim_entry_other:
  assumes "reclaim_entry mx now older raw (n, t) = (n', t')" and "raw_id x \<noteq> raw_id raw"
  shows "stale now older t' x = stale now older t x" and "exhausted mx t' x = exhausted mx t x"
    and "dget (q_received t') (raw_id x) = dget (q_received t) (raw_id x)"
proof -
  show r: "dget (q_received t') (raw_id x) = dget (q_received t) (raw_id x)"
    using assms by (auto simp: reclaim_entry_def Let_def dead_letter_def forget_def forget_received_def
        pdict_simps split: if_splits option.splits)
  then show "stale now older t' x = stale now older t x" by (simp add: stale_def)
  show "exhausted mx t' x = exhausted mx t x"
    using assms by (auto simp: reclaim_entry_def Let_def exhausted_def split: if_splits option.splits)
qed

lemma reclaim_entry_self:
  assumes "raw \<in> set (q_proc t)"
  shows "reclaim_entry mx now older raw (n, t) = (n', t') \<Longrightarrow>
    n' = (if stale now older t raw then n + 1 else n) \<and>
    q_proc t' = (if stale now older t raw then remove1 raw (q_proc t) else q_proc t) \<and>
    q_main t' = (if stale now older t raw \<and> \<not> exhausted mx t raw then q_main t @ [raw] else q_main t) \<and>
    q_dlq t' = (if stale now older t raw \<and> exhausted mx t raw then raw # q_dlq t else q_dlq t) \<and>
    (raw_id raw \<noteq> [] \<longrightarrow> dget (q_received t) (raw_id raw) = None \<longrightarrow> dget (q_received t') (raw_id raw) = Some now)"
  using assms by (auto simp: reclaim_entry_def Let_def stale_def exhausted_def pdict_simps
      split: if_splits option.splits)

lemma fold_reclaim:
  "fold (reclaim_entry mx now older) xs (n, t) = (n', t') \<Longrightarrow>
   distinct (map raw_id (ys @ xs)) \<Longrightarrow> q_proc t = ys @ xs \<Longrightarrow>
   n' = n + int (length (filter (stale now older t) xs)) \<and>
   q_proc t' = ys @ filter (\<lambda>r. \<not> stale now older t r) xs \<and>
   q_main t' = q_main t @ filter (\<lambda>r. stale now older t r \<and> \<not> exhausted mx t r) xs \<and>
   q_dlq t' = rev (filter (\<lambda>r. stale now older t r \<and> exhausted mx t r) xs) @ q_dlq t \<and>
   (\<forall>r \<in> set xs. raw_id r \<noteq> [] \<longrightarrow> dget (q_received t) (raw_id r) = None \<longrightarrow>
      dget (q_received t') (raw_id r) = Some now) \<and>
   (\<forall>i. i \<notin> raw_id ` set xs \<longrightarrow> dget (q_received t') i = dget (q_received t) i)"
proof (induction xs arbitrary: n t ys)
  case (Cons x xs)
  obtain n1 t1 where e: "reclaim_entry mx now older x (n, t) = (n1, t1)" by fastforce
  have x: "x \<in> set (q_proc t)" using Cons.prems(3) by simp
  note self = reclaim_entry_self[OF x e]
  have oth: "raw_id y \<noteq> raw_id x" if "y \<in> set xs \<union> set ys" for y
    using Cons.prems(2) that by (auto simp: image_iff)
  have fr: "filter (stale now older t1) xs = filter (stale now older t) xs"
    "filter (\<lambda>r. \<not> stale now older t1 r) xs = filter (\<lambda>r. \<not> stale now older t r) xs"
    "filter (\<lambda>r. stale now older t1 r \<and> \<not> exhausted mx t1 r) xs = filter (\<lambda>r. stale now older t r \<and> \<not> exhausted mx t r) xs"
    "filter (\<lambda>r. stale now older t1 r \<and> exhausted mx t1 r) xs = filter (\<lambda>r. stale now older t r \<and> exhausted mx t r) xs"
    using reclaim_entry_other[OF e] oth by (auto intro!: filter_cong)
  have rc: "\<forall>i. i \<noteq> raw_id x \<longrightarrow> dget (q_received t1) i = dget (q_received t) i"
    using e by (auto simp: reclaim_entry_def Let_def dead_letter_def forget_def forget_received_def
        pdict_simps split: if_splits option.splits)
  let ?ys = "if stale now older t x then ys else ys @ [x]"
  have "x \<notin> set ys" using Cons.prems(2) by auto
  then have "q_proc t1 = ?ys @ xs" using self Cons.prems(3) by (simp add: remove1_append)
  moreover have "distinct (map raw_id (?ys @ xs))" using Cons.prems(2) by auto
  moreover have "fold (reclaim_entry mx now older) xs (n1, t1) = (n', t')" using Cons.prems(1) e by simp
  ultimately have ih: "n' = n1 + int (length (filter (stale now older t) xs)) \<and>
   q_proc t' = ?ys @ filter (\<lambda>r. \<not> stale now older t r) xs \<and>
   q_main t' = q_main t1 @ filter (\<lambda>r. stale now older t r \<and> \<not> exhausted mx t r) xs \<and>
   q_dlq t' = rev (filter (\<lambda>r. stale now older t r \<and> exhausted mx t r) xs) @ q_dlq t1 \<and>
   (\<forall>r \<in> set xs. raw_id r \<noteq> [] \<longrightarrow> dget (q_received t1) (raw_id r) = None \<longrightarrow>
      dget (q_received t') (raw_id r) = Some now) \<and>
   (\<forall>i. i \<notin> raw_id ` set xs \<longrightarrow> dget (q_received t') i = dget (q_received t1) i)"
    using Cons.IH[of n1 t1 ?ys] unfolding fr by blast
  have "raw_id x \<notin> raw_id ` set xs" using Cons.prems(2) by auto
  with ih self rc oth show ?case by auto
qed simp

lemma reclaim_pass:
  assumes "distinct (map raw_id (q_proc t))" and "tq_reclaim mx now older t = (n, t')"
  shows "n = int (length (filter (stale now older t) (q_proc t)))"
    and "q_proc t' = filter (\<lambda>r. \<not> stale now older t r) (q_proc t)"
    and "q_main t' = q_main t @ filter (\<lambda>r. stale now older t r \<and> \<not> exhausted mx t r) (q_proc t)"
    and "q_dlq t' = rev (filter (\<lambda>r. stale now older t r \<and> exhausted mx t r) (q_proc t)) @ q_dlq t"
    and "\<forall>r \<in> set (q_proc t). raw_id r \<noteq> [] \<longrightarrow> dget (q_received t) (raw_id r) = None \<longrightarrow>
      dget (q_received t') (raw_id r) = Some now"
  using fold_reclaim[of mx now older "q_proc t" 0 t n t' "[]"] assms by (simp_all add: tq_reclaim_def)

lemma reach_distinct_ids: "reach mx topic t pub dn \<Longrightarrow> distinct (map raw_id (q_proc t))"
proof -
  assume "reach mx topic t pub dn"
  from reach_invariant[OF this] have inv: "pub_ok pub" "conserved t pub dn" by auto
  then have "mset (map raw_id pub) = mset (map raw_id (q_main t @ q_proc t @ q_dlq t @ dn))"
    by (simp add: conserved_def)
  then have "distinct (map raw_id (q_main t @ q_proc t @ q_dlq t @ dn))"
    using inv(1) by (metis mset_eq_imp_distinct_iff pub_ok_def)
  then show ?thesis by simp
qed

end
