(* ===== verification/Catalog.thy ===== *)
theory Catalog
  imports Prelude
begin

text \<open>
  The dataset and shard catalog, \<open>adapters/state/catalog.py\<close>: the in-memory stores and the
  Postgres tables as one record, with one definition per method of \<open>_MemoryBackend\<close> (prefix
  \<open>mc_\<close>) and \<open>_PostgresBackend\<close> (prefix \<open>pc_\<close>) and one per public function, which picks the backend.
  Every method runs under the catalog lock or in one transaction, so a call is one atomic step here;
  theory \<open>Catalog_Sessions\<close> has the statements of concurrent transactions.
  Notifications are a log of the payloads fired.
\<close>

section \<open>State\<close>

record dsrow =
  d_dimension :: int
  d_row_count :: int
  d_status :: string
  d_error :: "string option"
  d_source_uris :: "uri list"
  d_landing_format :: string
  d_last_indexed :: "time option"
  d_status_updated :: "time option"
  d_deleted :: "time option"
  d_created :: time

record shard =
  sh_id :: int
  sh_key :: key
  sh_uri :: uri
  sh_checksum :: string
  sh_count :: int
  sh_index_type :: string
  sh_build_type :: string
  sh_landing :: "uri list"
  sh_lsn :: int
  sh_created :: time
  sh_qver :: int
  sh_parent :: "int option"
  sh_level :: int
  sh_lo :: int
  sh_hi :: int
  sh_tombs :: "int list"

record catalog =
  c_memory :: bool
  c_datasets :: "(key, dsrow) pdict"
  c_shards :: "shard list"
  c_last_id :: int
  c_notices :: "(key \<times> uri) list"

datatype cat_error = DatasetExists

definition fresh_dataset :: "int \<Rightarrow> string \<Rightarrow> time \<Rightarrow> dsrow" where
  "fresh_dataset dimension fmt now =
     \<lparr>d_dimension = dimension, d_row_count = 0, d_status = ''empty'', d_error = None, d_source_uris = [],
      d_landing_format = fmt, d_last_indexed = None, d_status_updated = Some now, d_deleted = None,
      d_created = now\<rparr>"

definition set_row :: "key \<Rightarrow> dsrow \<Rightarrow> catalog \<Rightarrow> catalog" where
  "set_row k r c = c\<lparr>c_datasets := dset k r (c_datasets c)\<rparr>"

definition cat_row :: "catalog \<Rightarrow> key \<Rightarrow> dsrow option" where
  "cat_row c k = (case dget (c_datasets c) k of
     None \<Rightarrow> None | Some r \<Rightarrow> if d_deleted r \<noteq> None then None else Some r)"

definition notify :: "key \<Rightarrow> uri \<Rightarrow> catalog \<Rightarrow> catalog" where
  "notify k u c = c\<lparr>c_notices := c_notices c @ [(k, u)]\<rparr>"

section \<open>Datasets, in memory\<close>

definition mc_create_dataset :: "catalog \<Rightarrow> key \<Rightarrow> int \<Rightarrow> time \<Rightarrow> (cat_error + dsrow) \<times> catalog" where
  "mc_create_dataset c k dimension now =
     (if cat_row c k \<noteq> None then (Inl DatasetExists, c)
      else let r = fresh_dataset dimension ''jsonl'' now in (Inr r, set_row k r c))"

definition mc_delete_dataset :: "catalog \<Rightarrow> key \<Rightarrow> time \<Rightarrow> bool \<times> catalog" where
  "mc_delete_dataset c k now =
     (case cat_row c k of
        None \<Rightarrow> (False, c)
      | Some r \<Rightarrow>
          (let c1 = set_row k (r\<lparr>d_deleted := Some now\<rparr>) c;
               c2 = c1\<lparr>c_shards := filter (\<lambda>s. \<not> sh_key s = k) (c_shards c1)\<rparr>
           in (True, notify k [] c2)))"

definition mc_update_status ::
  "catalog \<Rightarrow> key \<Rightarrow> string \<Rightarrow> string option \<Rightarrow> time option \<Rightarrow> time \<Rightarrow> catalog" where
  "mc_update_status c k st msg indexed now =
     (case dget (c_datasets c) k of
        None \<Rightarrow> c
      | Some r \<Rightarrow>
          (let r1 = r\<lparr>d_status := st, d_status_updated := Some now\<rparr>;
               r2 = (if msg \<noteq> None then r1\<lparr>d_error := msg\<rparr>
                     else if st \<noteq> ''error'' then r1\<lparr>d_error := None\<rparr> else r1);
               r3 = (if indexed \<noteq> None then r2\<lparr>d_last_indexed := indexed\<rparr> else r2)
           in set_row k r3 c))"

definition mc_find_stale :: "catalog \<Rightarrow> string list \<Rightarrow> time \<Rightarrow> (key \<times> dsrow) list" where
  "mc_find_stale c sts cutoff =
     filter (\<lambda>(k, r). d_deleted r = None \<and> d_status r \<in> set sts \<and>
        (case d_status_updated r of None \<Rightarrow> True | Some t \<Rightarrow> t \<le> cutoff)) (c_datasets c)"

definition mc_fail_if_stale ::
  "catalog \<Rightarrow> key \<Rightarrow> string \<Rightarrow> string list \<Rightarrow> time \<Rightarrow> time \<Rightarrow> bool \<times> catalog" where
  "mc_fail_if_stale c k msg sts cutoff now =
     (case cat_row c k of
        None \<Rightarrow> (False, c)
      | Some r \<Rightarrow>
          if d_status r \<notin> set sts then (False, c)
          else (case d_status_updated r of
              Some t \<Rightarrow> if t > cutoff then (False, c)
                else (True, set_row k (r\<lparr>d_status := ''error'', d_status_updated := Some now, d_error := Some msg\<rparr>) c)
            | None \<Rightarrow> (True, set_row k (r\<lparr>d_status := ''error'', d_status_updated := Some now, d_error := Some msg\<rparr>) c)))"

definition mc_upsert_dataset :: "catalog \<Rightarrow> key \<Rightarrow> int \<Rightarrow> uri \<Rightarrow> string \<Rightarrow> time \<Rightarrow> catalog" where
  "mc_upsert_dataset c k dimension source fmt now =
     (let r = (case dget (c_datasets c) k of None \<Rightarrow> fresh_dataset dimension fmt now | Some r \<Rightarrow> r)
      in set_row k (r\<lparr>d_landing_format := fmt, d_source_uris := d_source_uris r @ [source]\<rparr>) c)"

definition update_row :: "(dsrow \<Rightarrow> dsrow) \<Rightarrow> catalog \<Rightarrow> key \<Rightarrow> catalog" where
  "update_row f c k = (case dget (c_datasets c) k of None \<Rightarrow> c | Some r \<Rightarrow> set_row k (f r) c)"

section \<open>Datasets, in Postgres\<close>

text \<open>The re-create of a soft-deleted name keeps the columns its SET clause does not name.\<close>

definition pc_create_dataset :: "catalog \<Rightarrow> key \<Rightarrow> int \<Rightarrow> time \<Rightarrow> (cat_error + dsrow) \<times> catalog" where
  "pc_create_dataset c k dimension now =
     (if cat_row c k \<noteq> None then (Inl DatasetExists, c)
      else
        let r = (case dget (c_datasets c) k of
              None \<Rightarrow> fresh_dataset dimension ''jsonl'' now
            | Some old \<Rightarrow> old\<lparr>d_dimension := dimension, d_row_count := 0, d_status := ''empty'',
                d_error := None, d_source_uris := [], d_last_indexed := None, d_deleted := None,
                d_created := now\<rparr>)
        in (Inr r, set_row k r c))"

definition pc_delete_dataset :: "catalog \<Rightarrow> key \<Rightarrow> time \<Rightarrow> bool \<times> catalog" where
  "pc_delete_dataset c k now =
     (let c1 = c\<lparr>c_shards := filter (\<lambda>s. \<not> sh_key s = k) (c_shards c)\<rparr> in
      case cat_row c1 k of
        None \<Rightarrow> (False, c1)
      | Some r \<Rightarrow> (True, notify k [] (set_row k (r\<lparr>d_deleted := Some now\<rparr>) c1)))"

definition pc_update_status ::
  "catalog \<Rightarrow> key \<Rightarrow> string \<Rightarrow> string option \<Rightarrow> time option \<Rightarrow> time \<Rightarrow> catalog" where
  "pc_update_status c k st msg indexed now =
     update_row (\<lambda>r.
       let r1 = (if msg \<noteq> None then r\<lparr>d_status := st, d_error := msg, d_status_updated := Some now\<rparr>
                 else r\<lparr>d_status := st, d_status_updated := Some now,
                        d_error := (if st = ''error'' then d_error r else None)\<rparr>)
       in if indexed \<noteq> None then r1\<lparr>d_last_indexed := Some now\<rparr> else r1) c k"

definition pc_stale :: "string list \<Rightarrow> time \<Rightarrow> dsrow \<Rightarrow> bool" where
  "pc_stale sts cutoff r \<longleftrightarrow> d_deleted r = None \<and> d_status r \<in> set sts \<and>
     (case d_status_updated r of None \<Rightarrow> False | Some t \<Rightarrow> t \<le> cutoff)"

definition pc_find_stale :: "catalog \<Rightarrow> string list \<Rightarrow> time \<Rightarrow> (key \<times> dsrow) list" where
  "pc_find_stale c sts cutoff = filter (\<lambda>(k, r). pc_stale sts cutoff r) (c_datasets c)"

definition pc_fail_if_stale ::
  "catalog \<Rightarrow> key \<Rightarrow> string \<Rightarrow> string list \<Rightarrow> time \<Rightarrow> time \<Rightarrow> bool \<times> catalog" where
  "pc_fail_if_stale c k msg sts cutoff now =
     (case dget (c_datasets c) k of
        Some r \<Rightarrow>
          if pc_stale sts cutoff r
          then (True, set_row k (r\<lparr>d_status := ''error'', d_status_updated := Some now, d_error := Some msg\<rparr>) c)
          else (False, c)
      | None \<Rightarrow> (False, c))"

definition pc_upsert_dataset :: "catalog \<Rightarrow> key \<Rightarrow> int \<Rightarrow> uri \<Rightarrow> string \<Rightarrow> time \<Rightarrow> catalog" where
  "pc_upsert_dataset c k dimension source fmt now =
     (case dget (c_datasets c) k of
        None \<Rightarrow> set_row k ((fresh_dataset dimension fmt now)\<lparr>d_source_uris := [source]\<rparr>) c
      | Some r \<Rightarrow> set_row k (r\<lparr>d_source_uris := d_source_uris r @ [source], d_landing_format := fmt\<rparr>) c)"

section \<open>Shards\<close>

text \<open>
  A new shard row: the caller's columns with the next id and the insertion time. \<open>list_shards\<close> is
  newest first: by id in memory, by \<open>created_at\<close> then id in Postgres.
\<close>

definition store_shard :: "catalog \<Rightarrow> shard \<Rightarrow> time \<Rightarrow> int \<times> catalog" where
  "store_shard c sh now =
     (let i = c_last_id c + 1;
          c1 = c\<lparr>c_last_id := i, c_shards := c_shards c @ [sh\<lparr>sh_id := i, sh_created := now\<rparr>]\<rparr>
      in (i, notify (sh_key sh) (sh_uri sh) c1))"

definition mc_list_shards :: "catalog \<Rightarrow> key \<Rightarrow> shard list" where
  "mc_list_shards c k = filter (\<lambda>s. sh_key s = k) (rev (sort_key sh_id (rev (c_shards c))))"

definition pc_list_shards :: "catalog \<Rightarrow> key \<Rightarrow> shard list" where
  "pc_list_shards c k =
     rev (sort_key (\<lambda>s. (sh_created s, sh_id s)) (filter (\<lambda>s. sh_key s = k) (c_shards c)))"

definition drop_shards :: "catalog \<Rightarrow> key \<Rightarrow> int list \<Rightarrow> int \<times> catalog" where
  "drop_shards c k ids =
     (let kept = filter (\<lambda>s. \<not> (sh_key s = k \<and> sh_id s \<in> set ids)) (c_shards c)
      in (int (length (c_shards c)) - int (length kept), c\<lparr>c_shards := kept\<rparr>))"

section \<open>The public functions\<close>

definition non_terminal_statuses :: "string list" where
  "non_terminal_statuses = [''validating'', ''indexing'']"

definition create_dataset :: "catalog \<Rightarrow> key \<Rightarrow> int \<Rightarrow> time \<Rightarrow> (cat_error + dsrow) \<times> catalog" where
  "create_dataset c = (if c_memory c then mc_create_dataset c else pc_create_dataset c)"

definition get_dataset :: "catalog \<Rightarrow> key \<Rightarrow> dsrow option" where
  "get_dataset c k = cat_row c k"

definition list_datasets :: "catalog \<Rightarrow> tenant \<Rightarrow> (key \<times> dsrow) list" where
  "list_datasets c tn =
     sort_key (\<lambda>(k, r). snd k) (filter (\<lambda>(k, r). fst k = tn \<and> d_deleted r = None) (c_datasets c))"

definition delete_dataset :: "catalog \<Rightarrow> key \<Rightarrow> time \<Rightarrow> bool \<times> catalog" where
  "delete_dataset c = (if c_memory c then mc_delete_dataset c else pc_delete_dataset c)"

definition update_dataset_status ::
  "catalog \<Rightarrow> key \<Rightarrow> string \<Rightarrow> string option \<Rightarrow> time option \<Rightarrow> time \<Rightarrow> catalog" where
  "update_dataset_status c = (if c_memory c then mc_update_status c else pc_update_status c)"

definition find_stale_datasets :: "catalog \<Rightarrow> int \<Rightarrow> time \<Rightarrow> (key \<times> dsrow) list" where
  "find_stale_datasets c older now =
     (if c_memory c then mc_find_stale c else pc_find_stale c) non_terminal_statuses (now - older)"

definition fail_dataset_if_stale :: "catalog \<Rightarrow> key \<Rightarrow> int \<Rightarrow> string \<Rightarrow> time \<Rightarrow> bool \<times> catalog" where
  "fail_dataset_if_stale c k older msg now =
     (if c_memory c then mc_fail_if_stale c else pc_fail_if_stale c) k msg non_terminal_statuses (now - older) now"

definition upsert_dataset :: "catalog \<Rightarrow> key \<Rightarrow> int \<Rightarrow> uri \<Rightarrow> string \<Rightarrow> time \<Rightarrow> catalog" where
  "upsert_dataset c = (if c_memory c then mc_upsert_dataset c else pc_upsert_dataset c)"

definition increment_row_count :: "catalog \<Rightarrow> key \<Rightarrow> int \<Rightarrow> catalog" where
  "increment_row_count c k n = update_row (\<lambda>r. r\<lparr>d_row_count := d_row_count r + n\<rparr>) c k"

definition set_row_count :: "catalog \<Rightarrow> key \<Rightarrow> int \<Rightarrow> catalog" where
  "set_row_count c k n = update_row (\<lambda>r. r\<lparr>d_row_count := max 0 n\<rparr>) c k"

definition add_shard :: "catalog \<Rightarrow> shard \<Rightarrow> time \<Rightarrow> int \<times> catalog" where
  "add_shard c sh now = store_shard c sh now"

definition list_shards :: "catalog \<Rightarrow> key \<Rightarrow> shard list" where
  "list_shards c = (if c_memory c then mc_list_shards c else pc_list_shards c)"

definition get_latest_shard :: "catalog \<Rightarrow> key \<Rightarrow> shard option" where
  "get_latest_shard c k = (case list_shards c k of [] \<Rightarrow> None | s # _ \<Rightarrow> Some s)"

definition delete_shards :: "catalog \<Rightarrow> key \<Rightarrow> int list \<Rightarrow> int \<times> catalog" where
  "delete_shards c k ids = (if ids = [] then (0, c) else drop_shards c k ids)"

text \<open>
  The advisory lock id of a dataset: the first four digest bytes, big endian, as a signed 32-bit
  integer. The digest function is a parameter.
\<close>

definition dataset_lock_objid :: "(string \<Rightarrow> nat list) \<Rightarrow> key \<Rightarrow> int" where
  "dataset_lock_objid sha1 k =
     (let digest = sha1 (fst k @ [CHR 0x00] @ snd k);
          val = foldl (\<lambda>acc b. acc * 256 + int b) 0 (take 4 digest)
      in if val \<ge> 0x80000000 then val - 0x100000000 else val)"

end
