(* ===== verification/Generations.thy ===== *)
theory Generations
  imports Catalog
begin

text \<open>
  Generations of shards and the watermarks derived from them, \<open>adapters/state/generations.py\<close>. The
  functions on a newest-first shard list come first, their catalog versions after; a generation is a
  base and its deltas, the base in front.
\<close>

section \<open>On a shard list\<close>

definition shard_frontier :: "shard \<Rightarrow> int" where
  "shard_frontier s = (if sh_hi s > 0 then sh_hi s else sh_lsn s)"

definition kids_of :: "shard list \<Rightarrow> shard \<Rightarrow> shard list" where
  "kids_of shards base =
     filter (\<lambda>d. sh_qver d = sh_qver base)
       (filter (\<lambda>s. sh_level s \<noteq> 0 \<and> sh_parent s = Some (sh_id base)) shards)"

definition generations :: "shard list \<Rightarrow> shard list list" where
  "generations shards = [base # kids_of shards base. base \<leftarrow> shards, sh_level base = 0]"

record generation =
  g_base :: shard
  g_deltas :: "shard list"

definition gen_rows :: "generation \<Rightarrow> shard list" where
  "gen_rows g = g_base g # g_deltas g"

definition current_generation :: "shard list \<Rightarrow> generation option" where
  "current_generation shards =
     (case generations shards of
        [] \<Rightarrow> None
      | [] # _ \<Rightarrow> None
      | (base # deltas) # _ \<Rightarrow>
          Some \<lparr>g_base = base, g_deltas = sort_key (\<lambda>s. (sh_lo s, sh_id s)) deltas\<rparr>)"

definition watermark_of :: "shard list \<Rightarrow> int" where
  "watermark_of shards =
     (case current_generation shards of
        None \<Rightarrow> 0 | Some g \<Rightarrow> Max (set (map sh_lsn (gen_rows g))))"

definition grace_of :: "int \<Rightarrow> shard list \<Rightarrow> int" where
  "grace_of keep shards =
     (let n = nat (max 1 keep); gens = generations shards in
      if length gens < n then 0 else Max (set (map shard_frontier (gens ! (n - 1)))))"

definition live_ids :: "int \<Rightarrow> shard list \<Rightarrow> int set" where
  "live_ids keep shards = set (map sh_id (concat (take (nat (max 1 keep)) (generations shards))))"

definition superseded_of :: "int \<Rightarrow> shard list \<Rightarrow> shard list" where
  "superseded_of keep shards = filter (\<lambda>s. sh_id s \<notin> live_ids keep shards) shards"

section \<open>On the catalog\<close>

definition live_generation :: "catalog \<Rightarrow> key \<Rightarrow> generation option" where
  "live_generation c k = current_generation (list_shards c k)"

definition dataset_watermark :: "catalog \<Rightarrow> key \<Rightarrow> int" where
  "dataset_watermark c k = watermark_of (list_shards c k)"

definition grace_watermark :: "catalog \<Rightarrow> key \<Rightarrow> int \<Rightarrow> int" where
  "grace_watermark c k keep = grace_of keep (list_shards c k)"

definition superseded_shards :: "catalog \<Rightarrow> key \<Rightarrow> int \<Rightarrow> shard list" where
  "superseded_shards c k keep = superseded_of keep (list_shards c k)"

section \<open>Facts on generations\<close>

lemma kids_of_in:
  "d \<in> set (kids_of shards b) \<longleftrightarrow> d \<in> set shards \<and> sh_level d \<noteq> 0 \<and> sh_parent d = Some (sh_id b) \<and>
     sh_qver d = sh_qver b"
  by (auto simp: kids_of_def)

lemma generations_bases: "generations shards = map (\<lambda>b. b # kids_of shards b) (filter (\<lambda>s. sh_level s = 0) shards)"
proof -
  have "[base # K base. base \<leftarrow> xs, sh_level base = 0] = map (\<lambda>b. b # K b) (filter (\<lambda>s. sh_level s = 0) xs)"
    for K :: "shard \<Rightarrow> shard list" and xs by (induction xs) auto
  then show ?thesis by (simp add: generations_def)
qed

lemma generations_base_only:
  assumes "\<forall>s \<in> set shards. sh_level s = 0"
  shows "generations shards = map (\<lambda>s. [s]) shards"
proof -
  have "kids_of shards b = []" for b using assms by (auto simp: kids_of_def filter_empty_conv)
  moreover have "filter (\<lambda>s. sh_level s = 0) shards = shards" using assms by (simp add: filter_id_conv)
  ultimately show ?thesis by (simp add: generations_bases)
qed

lemma in_live_ids:
  "i \<in> live_ids keep shards \<longleftrightarrow>
     (\<exists>b \<in> set (take (nat (max 1 keep)) (filter (\<lambda>s. sh_level s = 0) shards)).
        i = sh_id b \<or> (\<exists>d \<in> set (kids_of shards b). i = sh_id d))"
  by (auto simp: live_ids_def generations_bases take_map)

lemma distinct_ids_inj:
  "distinct (map sh_id shards) \<Longrightarrow> x \<in> set shards \<Longrightarrow> y \<in> set shards \<Longrightarrow> sh_id x = sh_id y \<Longrightarrow> x = y"
  by (auto simp: distinct_map dest: inj_onD)

lemma in_take_filter: "x \<in> set (take n (filter P xs)) \<Longrightarrow> x \<in> set xs \<and> P x"
  by (auto dest!: in_set_takeD)

lemma filter_in_take:
  assumes "distinct ys"
  shows "filter (\<lambda>x. x \<in> set (take n ys)) ys = take n ys"
proof -
  let ?bs = "take n ys"
  have "set ?bs \<inter> set (drop n ys) = {}"
    using assms by (intro set_take_disj_set_drop_if_distinct) simp_all
  then have "filter (\<lambda>x. x \<in> set ?bs) (?bs @ drop n ys) = ?bs"
    unfolding filter_append by (auto simp: filter_id_conv filter_empty_conv)
  then show ?thesis by simp
qed

lemma take_filter_mem:
  assumes "distinct xs"
  shows "filter (\<lambda>x. x \<in> set (take n (filter P xs))) xs = take n (filter P xs)"
proof -
  have "filter (\<lambda>x. x \<in> set (take n (filter P xs))) xs =
      filter (\<lambda>x. x \<in> set (take n (filter P xs))) (filter P xs)"
    unfolding filter_filter by (rule filter_cong[OF refl]) (use in_take_filter[of _ n P xs] in blast)
  then show ?thesis using filter_in_take[of "filter P xs" n] assms by (simp only: distinct_filter)
qed

text \<open>Removing the superseded shards keeps exactly the newest \<open>keep\<close> generations.\<close>

lemma generations_sweep:
  assumes "distinct (map sh_id shards)"
  shows "generations (filter (\<lambda>s. sh_id s \<in> live_ids keep shards) shards) =
    take (nat (max 1 keep)) (generations shards)"
proof -
  let ?n = "nat (max 1 keep)"
  let ?bases = "filter (\<lambda>s. sh_level s = 0) shards"
  let ?live = "filter (\<lambda>s. sh_id s \<in> live_ids keep shards) shards"
  have base_live: "sh_id s \<in> live_ids keep shards \<longleftrightarrow> s \<in> set (take ?n ?bases)"
    if "s \<in> set shards" "sh_level s = 0" for s
  proof
    assume "sh_id s \<in> live_ids keep shards"
    then obtain b where b: "b \<in> set (take ?n ?bases)"
      and c: "sh_id s = sh_id b \<or> (\<exists>d \<in> set (kids_of shards b). sh_id s = sh_id d)"
      by (auto simp: in_live_ids)
    have "b \<in> set shards" using b by (auto dest: in_set_takeD)
    with c that assms b show "s \<in> set (take ?n ?bases)"
      by (metis distinct_ids_inj kids_of_in)
  qed (auto simp: in_live_ids)
  have "filter (\<lambda>s. sh_level s = 0) ?live = filter (\<lambda>s. s \<in> set (take ?n ?bases)) shards"
    unfolding filter_filter by (rule filter_cong[OF refl]) (use base_live in_take_filter[of _ ?n "\<lambda>s. sh_level s = 0" shards] in blast)
  also have "\<dots> = take ?n ?bases" using assms by (intro take_filter_mem) (simp add: distinct_map)
  finally have bases: "filter (\<lambda>s. sh_level s = 0) ?live = take ?n ?bases" .
  have kids: "kids_of ?live b = kids_of shards b" if "b \<in> set (take ?n ?bases)" for b
  proof -
    have "sh_id d \<in> live_ids keep shards" if "d \<in> set (kids_of shards b)" for d
      using that \<open>b \<in> _\<close> by (auto simp: in_live_ids)
    then have "filter (\<lambda>s. sh_id s \<in> live_ids keep shards) (kids_of shards b) = kids_of shards b"
      by (simp add: filter_id_conv)
    then show ?thesis unfolding kids_of_def filter_filter by (simp add: conj_ac)
  qed
  have "map (\<lambda>b. b # kids_of ?live b) (take ?n ?bases) = map (\<lambda>b. b # kids_of shards b) (take ?n ?bases)"
    using kids by (intro map_cong refl) simp
  then show ?thesis by (simp only: generations_bases bases take_map)
qed

lemma superseded_complement:
  "filter (\<lambda>s. sh_id s \<notin> set (map sh_id (superseded_of keep shards))) shards =
   filter (\<lambda>s. sh_id s \<in> live_ids keep shards) shards"
  by (auto simp: superseded_of_def intro!: filter_cong)

lemma current_of_generations:
  "generations xs = g # gs \<Longrightarrow> generations ys = g # gs' \<Longrightarrow> current_generation xs = current_generation ys"
  by (simp add: current_generation_def)

lemma generations_Nil_current: "generations shards = [] \<Longrightarrow> current_generation shards = None"
  by (simp add: current_generation_def)

lemma current_sweep:
  assumes "distinct (map sh_id shards)"
  shows "current_generation (filter (\<lambda>s. sh_id s \<in> live_ids keep shards) shards) = current_generation shards"
proof (cases "generations shards")
  case Nil
  then show ?thesis using generations_sweep[OF assms, of keep] by (simp add: current_generation_def)
next
  case (Cons g gs)
  then have "take (nat (max 1 keep)) (generations shards) = g # take (nat (max 1 keep) - 1) gs"
    by (simp add: take_Cons' flip: One_nat_def)
  with Cons show ?thesis using generations_sweep[OF assms, of keep] by (simp add: current_generation_def)
qed

lemma grace_sweep:
  assumes "distinct (map sh_id shards)"
  shows "grace_of keep (filter (\<lambda>s. sh_id s \<in> live_ids keep shards) shards) = grace_of keep shards"
  using generations_sweep[OF assms, of keep] by (simp add: grace_of_def Let_def)

lemma in_generation_not_superseded:
  assumes "g \<in> set (take (nat (max 1 keep)) (generations shards))" and "s \<in> set g"
  shows "s \<notin> set (superseded_of keep shards)"
  using assms by (auto simp: superseded_of_def live_ids_def)

end
