(* ===== verification/Catalog_Correct.thy ===== *)
theory Catalog_Correct
  imports Generations
begin

text \<open>
  The listing contract of the shard catalog (newest first, unique ids, new rows in front) as a
  locale, with what generations and watermarks do under additions and sweeps proved inside it, and
  its interpretation on both catalog backends.
\<close>

section \<open>The contract\<close>

locale shard_listing =
  fixes listing :: "'c \<Rightarrow> key \<Rightarrow> shard list"
    and add :: "'c \<Rightarrow> shard \<Rightarrow> time \<Rightarrow> int \<times> 'c"
    and del :: "'c \<Rightarrow> key \<Rightarrow> int list \<Rightarrow> int \<times> 'c"
    and ok :: "'c \<Rightarrow> bool"
    and tick :: "'c \<Rightarrow> time \<Rightarrow> bool"
  assumes ids_desc: "ok c \<Longrightarrow> sorted_wrt (\<lambda>x y. sh_id y < sh_id x) (listing c k)"
    and keys: "s \<in> set (listing c k) \<Longrightarrow> sh_key s = k"
    and add_ok: "ok c \<Longrightarrow> tick c now \<Longrightarrow> ok (snd (add c sh now))"
    and add_list: "ok c \<Longrightarrow> tick c now \<Longrightarrow> listing (snd (add c sh now)) k =
      (if k = sh_key sh then sh\<lparr>sh_id := fst (add c sh now), sh_created := now\<rparr> # listing c k
       else listing c k)"
    and del_ok: "ok c \<Longrightarrow> ok (snd (del c k ids))"
    and del_list: "ok c \<Longrightarrow> listing (snd (del c k ids)) k' =
      (if k' = k then filter (\<lambda>s. sh_id s \<notin> set ids) (listing c k') else listing c k')"
begin

lemma distinct_listing: "ok c \<Longrightarrow> distinct (map sh_id (listing c k))"
proof -
  assume "ok c"
  from ids_desc[OF this, of k] have "sorted_wrt (\<lambda>x y. sh_id x \<noteq> sh_id y) (listing c k)"
    by (rule sorted_wrt_mono_rel[rotated]) auto
  then show ?thesis by (simp add: distinct_conv_nth sorted_wrt_iff_nth_less nth_eq_iff_index_eq)
     (metis linorder_neqE_nat)
qed

text \<open>Sweeping the superseded shards changes no watermark and no live generation.\<close>

lemma sweep_listing:
  assumes "ok c"
  shows "listing (snd (del c k (map sh_id (superseded_of keep (listing c k))))) k =
    filter (\<lambda>s. sh_id s \<in> live_ids keep (listing c k)) (listing c k)"
  unfolding del_list[OF assms] by (simp only: simp_thms if_True superseded_complement)

lemma sweep_preserves:
  fixes k keep
  assumes "ok c"
  defines "c' \<equiv> snd (del c k (map sh_id (superseded_of keep (listing c k))))"
  shows "generations (listing c' k) = take (nat (max 1 keep)) (generations (listing c k))"
    and "current_generation (listing c' k) = current_generation (listing c k)"
    and "watermark_of (listing c' k) = watermark_of (listing c k)"
    and "grace_of keep (listing c' k) = grace_of keep (listing c k)"
    and "superseded_of keep (listing c' k) = []"
proof -
  note l = sweep_listing[OF assms(1), of k keep, folded c'_def]
  note dst = distinct_listing[OF assms(1), of k]
  show g: "generations (listing c' k) = take (nat (max 1 keep)) (generations (listing c k))"
    unfolding l by (rule generations_sweep[OF dst])
  show cur: "current_generation (listing c' k) = current_generation (listing c k)"
    unfolding l by (rule current_sweep[OF dst])
  then show "watermark_of (listing c' k) = watermark_of (listing c k)" by (simp add: watermark_of_def)
  show "grace_of keep (listing c' k) = grace_of keep (listing c k)"
    unfolding l by (rule grace_sweep[OF dst])
  have "live_ids keep (listing c' k) = live_ids keep (listing c k)"
    unfolding live_ids_def g by simp
  then show "superseded_of keep (listing c' k) = []"
    unfolding superseded_of_def by (simp add: l filter_empty_conv)
qed

lemma add_base_current:
  assumes "ok c" and "tick c now" and "sh_level sh = 0"
    and "\<forall>s \<in> set (listing c (sh_key sh)). sh_parent s \<noteq> Some (fst (add c sh now))"
  shows "current_generation (listing (snd (add c sh now)) (sh_key sh)) =
    Some \<lparr>g_base = sh\<lparr>sh_id := fst (add c sh now), sh_created := now\<rparr>, g_deltas = []\<rparr>"
proof -
  let ?b = "sh\<lparr>sh_id := fst (add c sh now), sh_created := now\<rparr>"
  have "kids_of (?b # listing c (sh_key sh)) ?b = []"
    using assms(3,4) by (auto simp: kids_of_def filter_empty_conv)
  with assms(3) show ?thesis
    by (simp add: current_generation_def generations_bases add_list[OF assms(1,2)])
qed

end

section \<open>The catalog meets it\<close>

definition cat_ok :: "catalog \<Rightarrow> bool" where
  "cat_ok c \<longleftrightarrow> dkeys_ok (c_datasets c) \<and>
     sorted_wrt (\<lambda>s t. sh_id s < sh_id t \<and> sh_created s \<le> sh_created t) (c_shards c) \<and>
     (\<forall>s \<in> set (c_shards c). sh_id s \<le> c_last_id c)"

definition cat_tick :: "catalog \<Rightarrow> time \<Rightarrow> bool" where
  "cat_tick c now \<longleftrightarrow> (\<forall>s \<in> set (c_shards c). sh_created s \<le> now)"

lemma sort_key_strict:
  assumes "sorted_wrt (\<lambda>x y. f x < (f y :: 'b::linorder)) xs" and "mset ys = mset xs"
  shows "sort_key f ys = xs"
proof (rule sort_key_inj_key_eq[OF assms(2)])
  have st: "sorted_wrt (<) (map f xs)" using assms(1) by (simp add: sorted_wrt_map)
  then show "sorted (map f xs)" by (simp add: strict_sorted_iff)
  have "inj_on f (set xs)" using st by (simp add: strict_sorted_iff distinct_map)
  then show "inj_on f (set ys)" using assms(2) by (metis mset_eq_setD)
qed

lemma list_shards_eq:
  assumes "cat_ok c"
  shows "list_shards c k = rev (filter (\<lambda>s. sh_key s = k) (c_shards c))"
proof -
  have st: "sorted_wrt (\<lambda>s t. sh_id s < sh_id t \<and> sh_created s \<le> sh_created t) (c_shards c)"
    using assms by (simp add: cat_ok_def)
  have "sort_key sh_id (rev (c_shards c)) = c_shards c"
    by (rule sort_key_strict[OF sorted_wrt_mono_rel[OF _ st]]) simp_all
  then have m: "mc_list_shards c k = rev (filter (\<lambda>s. sh_key s = k) (c_shards c))"
    by (simp add: mc_list_shards_def rev_filter)
  have "sorted_wrt (\<lambda>s t. sh_id s < sh_id t \<and> sh_created s \<le> sh_created t) (filter (\<lambda>s. sh_key s = k) (c_shards c))"
    using st by (rule sorted_wrt_filter)
  then have "sort_key (\<lambda>s. (sh_created s, sh_id s)) (filter (\<lambda>s. sh_key s = k) (c_shards c)) =
      filter (\<lambda>s. sh_key s = k) (c_shards c)"
    by (intro sort_key_strict refl) (rule sorted_wrt_mono_rel, auto)
  with m show ?thesis by (simp add: list_shards_def pc_list_shards_def)
qed

lemma cat_ok_add: "cat_ok c \<Longrightarrow> cat_tick c now \<Longrightarrow> cat_ok (snd (add_shard c sh now))"
  by (auto simp: cat_ok_def cat_tick_def add_shard_def store_shard_def notify_def Let_def sorted_wrt_append)

lemma c_shards_delete:
  "c_shards (snd (delete_shards c k ids)) = filter (\<lambda>s. \<not> (sh_key s = k \<and> sh_id s \<in> set ids)) (c_shards c)"
  by (auto simp: delete_shards_def drop_shards_def Let_def)

lemma delete_shards_frame [simp]:
  "c_datasets (snd (delete_shards c k ids)) = c_datasets c"
  "c_last_id (snd (delete_shards c k ids)) = c_last_id c"
  "c_memory (snd (delete_shards c k ids)) = c_memory c"
  by (auto simp: delete_shards_def drop_shards_def Let_def)

lemma cat_ok_delete: "cat_ok c \<Longrightarrow> cat_ok (snd (delete_shards c k ids))"
  by (simp add: cat_ok_def c_shards_delete sorted_wrt_filter)

interpretation cat: shard_listing list_shards add_shard delete_shards cat_ok cat_tick
proof (unfold_locales, goal_cases)
  case (1 c k)
  have "sorted_wrt (\<lambda>s t. sh_id s < sh_id t) (filter (\<lambda>s. sh_key s = k) (c_shards c))"
    using 1 by (intro sorted_wrt_filter) (auto simp: cat_ok_def elim: sorted_wrt_mono_rel[rotated])
  then show ?case by (simp add: list_shards_eq[OF 1] sorted_wrt_rev)
next
  case (2 s c k)
  then show ?case by (auto simp: list_shards_def mc_list_shards_def pc_list_shards_def split: if_splits)
next
  case (3 c now sh) then show ?case by (rule cat_ok_add)
next
  case (4 c now sh k)
  then show ?case
    by (auto simp: list_shards_eq[OF 4(1)] list_shards_eq[OF cat_ok_add[OF 4]])
       (auto simp: add_shard_def store_shard_def notify_def Let_def)
next
  case (5 c k ids) then show ?case by (rule cat_ok_delete)
next
  case (6 c k ids k')
  then show ?case
    unfolding list_shards_eq[OF 6] list_shards_eq[OF cat_ok_delete[OF 6]] c_shards_delete
    by (auto simp: rev_filter filter_filter intro!: filter_cong)
qed

section \<open>Datasets\<close>

lemma dget_set_row [simp]: "dget (c_datasets (set_row k r c)) k' = (if k' = k then Some r else dget (c_datasets c) k')"
  by (simp add: set_row_def pdict_simps)

lemma set_row_frame [simp]:
  "c_shards (set_row k r c) = c_shards c" "c_memory (set_row k r c) = c_memory c"
  "c_last_id (set_row k r c) = c_last_id c"
  by (simp_all add: set_row_def)

lemma notify_frame [simp]:
  "c_shards (notify k u c) = c_shards c" "c_datasets (notify k u c) = c_datasets c"
  "c_memory (notify k u c) = c_memory c" "c_last_id (notify k u c) = c_last_id c"
  by (simp_all add: notify_def)

lemma cat_ok_set_row [simp]: "cat_ok c \<Longrightarrow> cat_ok (set_row k r c)"
  by (simp add: cat_ok_def) (simp add: set_row_def)

lemma cat_ok_update_row: "cat_ok c \<Longrightarrow> cat_ok (update_row f c k)"
  by (simp add: update_row_def split: option.split)

lemma cat_ok_update_status: "cat_ok c \<Longrightarrow> cat_ok (update_dataset_status c k st msg ix now)"
  by (auto simp: update_dataset_status_def mc_update_status_def pc_update_status_def Let_def
      intro!: cat_ok_update_row split: option.split)

lemma cat_ok_fail_if_stale: "cat_ok c \<Longrightarrow> cat_ok (snd (fail_dataset_if_stale c k older msg now))"
  by (auto simp: fail_dataset_if_stale_def mc_fail_if_stale_def pc_fail_if_stale_def split: option.split)

lemma cat_ok_delete_dataset:
  assumes "cat_ok c"
  shows "cat_ok (snd (delete_dataset c k now))"
proof -
  have "cat_ok (c\<lparr>c_shards := filter (\<lambda>s. \<not> sh_key s = k) (c_shards c)\<rparr>)"
    using assms by (simp add: cat_ok_def sorted_wrt_filter)
  moreover have "cat_ok ((set_row k r c)\<lparr>c_shards := filter (\<lambda>s. \<not> sh_key s = k) (c_shards c)\<rparr>)" for r
    using cat_ok_set_row[OF assms, of k r] by (simp add: cat_ok_def sorted_wrt_filter)
  moreover have "cat_ok (notify k u d) \<longleftrightarrow> cat_ok d" for k u d by (simp add: cat_ok_def)
  ultimately show ?thesis using assms
    by (auto simp: delete_dataset_def mc_delete_dataset_def pc_delete_dataset_def Let_def cat_row_def
        split: option.split)
qed

lemma cat_ok_create: "cat_ok c \<Longrightarrow> cat_ok (snd (create_dataset c k dm now))"
  by (auto simp: create_dataset_def mc_create_dataset_def pc_create_dataset_def Let_def split: option.split)

lemma cat_ok_upsert: "cat_ok c \<Longrightarrow> cat_ok (upsert_dataset c k dm u fmt now)"
  by (auto simp: upsert_dataset_def mc_upsert_dataset_def pc_upsert_dataset_def Let_def split: option.split)

lemmas cat_ok_intros = cat_ok_add cat_ok_delete cat_ok_update_row cat_ok_update_status
  cat_ok_fail_if_stale cat_ok_delete_dataset cat_ok_create cat_ok_upsert

end
