(* ===== verification/Reaper.thy ===== *)
theory Reaper
  imports Queue_Correct Catalog_Correct
begin

text \<open>
  The reaper, \<open>adapters/queue/reaper.py\<close>: one pass reclaims the processing lists of three topics and
  flips datasets stuck in a non-terminal status to \<open>error\<close>, under a short-lived lock.
\<close>

definition reclaimed_topics :: "string list" where
  "reclaimed_topics = [''VALIDATE_DATASET'', ''DATASET_READY'', ''RUN_EPHEMERAL_QUERY'']"

fun reclaim_topics :: "qcfg \<Rightarrow> int \<Rightarrow> time \<Rightarrow> string list \<Rightarrow> qstate \<Rightarrow> int \<times> qstate" where
  "reclaim_topics cfg timeout now [] s = (0, s)"
| "reclaim_topics cfg timeout now (tp # tps) s =
     (let (n, s1) = reclaim_stale_processing cfg s tp timeout now;
          (m, s2) = reclaim_topics cfg timeout now tps s1
      in (n + m, s2))"

definition reclaim_stuck_messages :: "qcfg \<Rightarrow> qstate \<Rightarrow> int \<Rightarrow> time \<Rightarrow> int \<times> qstate" where
  "reclaim_stuck_messages cfg s timeout now = reclaim_topics cfg timeout now reclaimed_topics s"

fun py_dec :: "nat \<Rightarrow> string" where
  "py_dec n = (if n < 10 then [char_of (48 + n)] else py_dec (n div 10) @ [char_of (48 + n mod 10)])"

declare py_dec.simps [simp del]

definition stuck_message :: "string \<Rightarrow> int \<Rightarrow> string" where
  "stuck_message st timeout =
     ''reaper: dataset stuck in '' @ [CHR 0x27] @ st @ [CHR 0x27] @ '' for over '' @ py_dec (nat timeout) @
     ''s -- the worker processing it likely crashed or hung; re-ingest to retry''"

fun fail_each :: "int \<Rightarrow> time \<Rightarrow> (key \<times> dsrow) list \<Rightarrow> catalog \<Rightarrow> int \<times> catalog" where
  "fail_each timeout now [] c = (0, c)"
| "fail_each timeout now ((k, r) # rest) c =
     (let (hit, c1) = fail_dataset_if_stale c k timeout (stuck_message (d_status r) timeout) now;
          (n, c2) = fail_each timeout now rest c1
      in ((if hit then 1 else 0) + n, c2))"

definition reconcile_stuck_datasets :: "catalog \<Rightarrow> int \<Rightarrow> time \<Rightarrow> int \<times> catalog" where
  "reconcile_stuck_datasets c timeout now = fail_each timeout now (find_stale_datasets c timeout now) c"

record reap_summary =
  messages_reclaimed :: int
  datasets_failed :: int
  reap_skipped :: bool

definition reap_once ::
  "qcfg \<Rightarrow> qstate \<Rightarrow> catalog \<Rightarrow> string \<Rightarrow> int \<Rightarrow> int \<Rightarrow> int \<Rightarrow> bool \<Rightarrow> time
   \<Rightarrow> reap_summary \<times> qstate \<times> catalog" where
  "reap_once cfg q c reaper_id lock_ttl reclaim_timeout stuck_timeout gated now =
     (let (got, q1) = (if gated then acquire_reaper_lock cfg q reaper_id lock_ttl now else (True, q)) in
      if \<not> got then
        (\<lparr>messages_reclaimed = 0, datasets_failed = 0, reap_skipped = True\<rparr>, q1, c)
      else
        let (n, q2) = reclaim_stuck_messages cfg q1 reclaim_timeout now;
            (m, c2) = reconcile_stuck_datasets c stuck_timeout now;
            q3 = (if gated then release_reaper_lock cfg q2 reaper_id now else q2)
        in (\<lparr>messages_reclaimed = n, datasets_failed = m, reap_skipped = False\<rparr>, q3, c2))"

section \<open>What a pass does to the catalog\<close>

definition stuck :: "catalog \<Rightarrow> int \<Rightarrow> time \<Rightarrow> dsrow \<Rightarrow> bool" where
  "stuck c timeout now r \<longleftrightarrow> d_deleted r = None \<and> d_status r \<in> set non_terminal_statuses \<and>
     (case d_status_updated r of None \<Rightarrow> c_memory c | Some t \<Rightarrow> t \<le> now - timeout)"

definition failed_row :: "string \<Rightarrow> time \<Rightarrow> dsrow \<Rightarrow> dsrow" where
  "failed_row msg now r = r\<lparr>d_status := ''error'', d_status_updated := Some now, d_error := Some msg\<rparr>"

lemma stuck_set_row [simp]: "stuck (set_row k r c) timeout now x = stuck c timeout now x"
  unfolding stuck_def by (simp only: set_row_frame)

lemma fail_if_stale_eq:
  "fail_dataset_if_stale c k timeout msg now =
     (case dget (c_datasets c) k of
        None \<Rightarrow> (False, c)
      | Some r \<Rightarrow> if stuck c timeout now r then (True, set_row k (failed_row msg now r) c) else (False, c))"
  by (auto simp: fail_dataset_if_stale_def mc_fail_if_stale_def pc_fail_if_stale_def pc_stale_def stuck_def
      failed_row_def cat_row_def split: option.splits)

lemma find_stale_eq: "find_stale_datasets c timeout now = filter (\<lambda>(k, r). stuck c timeout now r) (c_datasets c)"
  by (auto simp: find_stale_datasets_def mc_find_stale_def pc_find_stale_def pc_stale_def stuck_def
      intro!: filter_cong split: option.splits)

lemma fail_each_datasets:
  "distinct (map fst xs) \<Longrightarrow> \<forall>(k, r) \<in> set xs. dget (c_datasets c) k = Some r \<and> stuck c timeout now r \<Longrightarrow>
   fst (fail_each timeout now xs c) = int (length xs) \<and>
   c_memory (snd (fail_each timeout now xs c)) = c_memory c \<and>
   c_shards (snd (fail_each timeout now xs c)) = c_shards c \<and>
   (\<forall>k. dget (c_datasets (snd (fail_each timeout now xs c))) k =
     (case dget xs k of None \<Rightarrow> dget (c_datasets c) k
      | Some r \<Rightarrow> Some (failed_row (stuck_message (d_status r) timeout) now r)))"
proof (induction xs arbitrary: c)
  case (Cons x xs)
  obtain k r where x: "x = (k, r)" by fastforce
  let ?c = "set_row k (failed_row (stuck_message (d_status r) timeout) now r) c"
  have f: "fail_dataset_if_stale c k timeout (stuck_message (d_status r) timeout) now = (True, ?c)"
    using Cons.prems(2) x by (simp add: fail_if_stale_eq)
  have "\<forall>(k', r') \<in> set xs. k' \<noteq> k" using Cons.prems(1) x by (auto simp: image_iff)
  then have "\<forall>(k', r') \<in> set xs. dget (c_datasets ?c) k' = Some r' \<and> stuck ?c timeout now r'"
    using Cons.prems(2) x by auto
  moreover have "dget xs k = None" using Cons.prems(1) x by (auto simp: map_of_eq_None_iff)
  ultimately show ?case using Cons.IH[of ?c] Cons.prems(1) x f
    by (auto simp: split_def split: option.split)
qed simp

lemma reconcile_datasets:
  assumes "cat_ok c" and "reconcile_stuck_datasets c timeout now = (n, c')"
  shows "dget (c_datasets c') k =
      (case dget (c_datasets c) k of None \<Rightarrow> None
       | Some r \<Rightarrow> Some (if stuck c timeout now r
            then failed_row (stuck_message (d_status r) timeout) now r else r))"
    and "n = int (length (filter (\<lambda>(k, r). stuck c timeout now r) (c_datasets c)))"
    and "c_shards c' = c_shards c"
proof -
  have ok: "dkeys_ok (c_datasets c)" using assms(1) by (simp add: cat_ok_def)
  let ?xs = "filter (\<lambda>(k, r). stuck c timeout now r) (c_datasets c)"
  have "distinct (map fst ?xs)" using ok by (simp add: dkeys_ok_def distinct_map_filter)
  moreover have "\<forall>(k, r) \<in> set ?xs. dget (c_datasets c) k = Some r \<and> stuck c timeout now r"
    using ok by (auto simp: dget_in)
  ultimately have all: "n = int (length ?xs) \<and> c_shards c' = c_shards c \<and>
      (\<forall>k. dget (c_datasets c') k = (case dget ?xs k of None \<Rightarrow> dget (c_datasets c) k
        | Some r \<Rightarrow> Some (failed_row (stuck_message (d_status r) timeout) now r)))"
    using fail_each_datasets[of ?xs c timeout now] assms(2)
    by (simp add: reconcile_stuck_datasets_def find_stale_eq)
  then show "n = int (length ?xs)" "c_shards c' = c_shards c" by blast+
  have "dget (c_datasets c') k = (case dget ?xs k of None \<Rightarrow> dget (c_datasets c) k
        | Some r \<Rightarrow> Some (failed_row (stuck_message (d_status r) timeout) now r))"
    using all by blast
  then show "dget (c_datasets c') k = (case dget (c_datasets c) k of None \<Rightarrow> None
       | Some r \<Rightarrow> Some (if stuck c timeout now r
            then failed_row (stuck_message (d_status r) timeout) now r else r))"
    by (simp add: dget_filter[OF ok] split: option.split)
qed

end
