(* ===== verification/Delivery_Properties.thy ===== *)
theory Delivery_Properties
  imports Reaper
begin

text \<open>
  What the queue and the reaper promise: no message is lost or duplicated between Redis commands,
  the attempts cap, the exact effect of a reclaim pass and of a reconcile pass, and the reaper lock.
\<close>

section \<open>A concrete run\<close>



definition demo_json :: "string \<Rightarrow> json" where
  "demo_json i = JObj [(''dataset'', JStr ''docs''), (''_msg_id'', JStr i)]"


lemma demo_wire_id [simp]: "wire_id (demo_json i) = i"
  by (simp add: demo_json_def wire_id_def)




section \<open>Delivery\<close>




text \<open>
  A reclaim pass takes exactly the stale entries. On a reachable topic it moves every entry
  whose delivery stamp is at least the timeout old, back to the main list while it has attempts
  left and to the dead-letter list otherwise, and counts them; every younger entry stays where it
  is, and an entry without a stamp stays too and is stamped with the current time.
\<close>

lemma reclaim_takes_exactly_stale:
  assumes "reach mx topic t pub dn" and "tq_reclaim mx now older t = (n, t')"
  shows "n = int (length (filter (stale now older t) (q_proc t))) \<and>
    q_proc t' = filter (\<lambda>r. \<not> stale now older t r) (q_proc t) \<and>
    q_main t' = q_main t @ filter (\<lambda>r. stale now older t r \<and> \<not> exhausted mx t r) (q_proc t) \<and>
    q_dlq t' = rev (filter (\<lambda>r. stale now older t r \<and> exhausted mx t r) (q_proc t)) @ q_dlq t \<and>
    (\<forall>r \<in> set (q_proc t). raw_id r \<noteq> [] \<longrightarrow> dget (q_received t) (raw_id r) = None \<longrightarrow>
       dget (q_received t') (raw_id r) = Some now)"
  using reclaim_pass[OF reach_distinct_ids[OF assms(1)] assms(2)] by (intro conjI)

lemma ddel_dset_same: "ddel k (dset k v d) = ddel k d"
  by (rule delete_update_same)

lemma strip_envelope_envelope:
  "strip_envelope (dset ''_otel'' c (dset ''_msg_id'' i m)) = strip_envelope m"
  "strip_envelope (dset ''_msg_id'' i m) = strip_envelope m"
  by (simp_all add: strip_envelope_def delete_update ddel_dset_same)

text \<open>
  Round trip of a message. On Redis a message published and consumed next comes back with the
  payload it was published with, the reserved keys stripped, and the fresh id; its attempt counter
  is one higher and it waits on the processing list; acking it restores the main and processing
  lists and clears its counters.
\<close>

lemma publish_consume_ack_roundtrip:
  fixes s :: qstate and topic :: string and m :: meta and carrier :: meta
  assumes "q_redis cfg" and "fresh \<noteq> []"
  defines "s1 \<equiv> publish cfg s topic m fresh carrier"
  shows "\<exists>msg s2. consume cfg s1 topic now = (Inr (Some msg), s2) \<and>
    msg_payload msg = strip_envelope m \<and> msg_id msg = fresh \<and>
    q_proc (topic_state s2 topic) = q_proc (topic_state s topic) @ [msg_raw msg] \<and>
    attempts_of fresh (topic_state s2 topic) = attempts_of fresh (topic_state s topic) + 1 \<and>
    (msg_raw msg \<notin> set (q_proc (topic_state s topic)) \<longrightarrow>
       (let t = topic_state (ack cfg s2 (Some msg)) topic in
        q_main t = q_main (topic_state s topic) \<and> q_proc t = q_proc (topic_state s topic) \<and>
        attempts_of fresh t = 0))"
proof -
  let ?t = "topic_state s topic"
  obtain fs where fs: "envelope m fresh carrier = Wire (JObj fs)" "strip_envelope fs = strip_envelope m"
    "wire_id (JObj fs) = fresh"
    by (auto simp: envelope_def Let_def strip_envelope_envelope wire_id_def pdict_simps)
  let ?msg = "message_of topic (JObj fs)"
  have ts [simp]: "topic_state (set_topic x topic t) topic = t" for x t
    by (simp add: topic_state_def set_topic_def dget_or_def pdict_simps)
  have "topic_state s1 topic = lpush_main (Wire (JObj fs)) ?t" using assms(1) fs by (simp add: s1_def publish_def)
  then have c: "consume cfg s1 topic now = (Inr (Some ?msg), set_topic s1 topic
      (stamp now fresh (?t\<lparr>q_proc := q_proc ?t @ [Wire (JObj fs)]\<rparr>)))"
    using assms(1) fs(3) by (simp add: consume_def tq_consume_def redis_take_def lpush_main_def)
  have p: "msg_payload ?msg = strip_envelope m" using fs by (simp add: message_of_def)
  show ?thesis
    by (rule exI[of _ ?msg], rule exI[of _ "set_topic s1 topic (stamp now fresh (?t\<lparr>q_proc := q_proc ?t @ [Wire (JObj fs)]\<rparr>))"])
       (use assms(1,2) fs(3) c p in \<open>simp add: ack_def tq_ack_def Let_def remove1_append\<close>)
qed

text \<open>
  Two findings about delivery. Between the \<open>LREM\<close> of a \<open>nack\<close> (or of a reclaim) and the push that
  follows it the message is on no list, so a process that dies there loses it; and Redis topics are
  last in, first out while the in-process ones are first in, first out.
\<close>

lemma nack_crash_window:
  assumes "reach mx topic t pub dn" and "raw \<in> set (q_proc t)"
  defines "t1 \<equiv> t\<lparr>q_proc := remove1 raw (q_proc t)\<rparr>"
  shows "raw \<notin> set (q_main t1 @ q_proc t1 @ q_dlq t1 @ dn)"
proof -
  have "distinct (q_main t @ q_proc t @ q_dlq t @ dn)"
    using reach_invariant[OF assms(1)] conserved_distinct(1)[of pub t dn] by blast
  then show ?thesis using assms(2) by (auto simp: t1_def)
qed

lemma redis_is_lifo:
  "q_main (lpush_main b (lpush_main a t)) = b # a # q_main t \<and>
   fst (redis_take (lpush_main b (lpush_main a t))) = Some b"
  by (simp add: lpush_main_def redis_take_def)

section \<open>The reaper\<close>

text \<open>
  C14. The reaper's flip is a compare-and-set. A reconcile pass turns exactly the live datasets
  stuck in \<open>validating\<close> or \<open>indexing\<close> for the timeout into \<open>error\<close>, counts them, and touches no other
  dataset and no shard; and the flip of one dataset, on whatever catalog it finds, happens only if
  the dataset is stuck there, so a status a worker has just written is never overwritten.
\<close>

theorem reconcile_flips_exactly_stuck:
  assumes "cat_ok c" and "reconcile_stuck_datasets c timeout now = (n, c')"
  shows "(\<forall>k. dget (c_datasets c') k =
      (case dget (c_datasets c) k of None \<Rightarrow> None
       | Some r \<Rightarrow> Some (if stuck c timeout now r
            then failed_row (stuck_message (d_status r) timeout) now r else r))) \<and>
    n = int (length (filter (\<lambda>(k, r). stuck c timeout now r) (c_datasets c))) \<and>
    c_shards c' = c_shards c \<and>
    (\<forall>d k msg r. dget (c_datasets d) k = Some r \<longrightarrow> \<not> stuck d timeout now r \<longrightarrow>
       fail_dataset_if_stale d k timeout msg now = (False, d))"
  using reconcile_datasets[OF assms] by (simp add: fail_if_stale_eq)

definition demo_catalog :: catalog where
  "demo_catalog = \<lparr>c_memory = True, c_datasets =
     [((''acme'', ''docs''), (fresh_dataset 4 ''jsonl'' 0)\<lparr>d_status := ''indexing''\<rparr>),
      ((''acme'', ''logs''), (fresh_dataset 4 ''jsonl'' 950)\<lparr>d_status := ''indexing''\<rparr>)],
     c_shards = [], c_last_id = 0, c_notices = []\<rparr>"

lemma demo_catalog_ok: "cat_ok demo_catalog"
  by (simp add: cat_ok_def demo_catalog_def dkeys_ok_def)

theorem reconcile_flips_exactly_stuck_witness:
  "\<exists>c'. reconcile_stuck_datasets demo_catalog 900 1000 = (1, c') \<and>
     map_option d_status (dget (c_datasets c') (''acme'', ''docs'')) = Some ''error'' \<and>
     map_option d_status (dget (c_datasets c') (''acme'', ''logs'')) = Some ''indexing''"
proof -
  obtain n c' where r: "reconcile_stuck_datasets demo_catalog 900 1000 = (n, c')" by fastforce
  have e: "\<forall>k. dget (c_datasets c') k = (case dget (c_datasets demo_catalog) k of None \<Rightarrow> None
       | Some r \<Rightarrow> Some (if stuck demo_catalog 900 1000 r
            then failed_row (stuck_message (d_status r) 900) 1000 r else r))"
    and n: "n = int (length (filter (\<lambda>(k, r). stuck demo_catalog 900 1000 r) (c_datasets demo_catalog)))"
    using reconcile_flips_exactly_stuck[OF demo_catalog_ok r] by blast+
  have "n = 1" unfolding n by (simp add: demo_catalog_def stuck_def fresh_dataset_def non_terminal_statuses_def)
  with r e[rule_format, of "(''acme'', ''docs'')"] e[rule_format, of "(''acme'', ''logs'')"] show ?thesis
    by (simp add: demo_catalog_def stuck_def fresh_dataset_def non_terminal_statuses_def failed_row_def)
qed

text \<open>
  The reaper lock excludes. Once a reaper has acquired the lock, until its time to live is
  over every other acquisition fails and leaves the state alone, a gated tick of any reaper is
  skipped without touching queue or catalog, and a release by another reaper does not free it.
\<close>

lemma reaper_lock_excludes:
  assumes "q_redis cfg" and "acquire_reaper_lock cfg s owner ttl now = (True, s')"
    and "now \<le> later" and "later < now + max 1 ttl"
  shows "acquire_reaper_lock cfg s' other ttl' later = (False, s') \<and>
    reap_once cfg s' c other ttl' rt st True later =
      (\<lparr>messages_reclaimed = 0, datasets_failed = 0, reap_skipped = True\<rparr>, s', c) \<and>
    (other \<noteq> owner \<longrightarrow> release_reaper_lock cfg s' other later = s')"
proof -
  have "lock_holder s' later = Some owner"
    using assms by (auto simp: acquire_reaper_lock_def lock_holder_def split: if_splits)
  then show ?thesis using assms(1)
    by (simp add: acquire_reaper_lock_def reap_once_def release_reaper_lock_def)
qed

text \<open>Two topics a worker consumes and acks are missing from the reaper's list.\<close>

lemma reaper_skips_topics:
  "''DELETE_VECTORS'' \<notin> set reclaimed_topics \<and> ''CONSOLIDATE'' \<notin> set reclaimed_topics"
  by (simp add: reclaimed_topics_def)

end
