(* ===== verification/Catalog_Properties.thy ===== *)
theory Catalog_Properties
  imports Catalog_Correct
begin

text \<open>
  What the catalog promises the builder and the query path: sweeping superseded shards is invisible
  to every live generation, and deleting a dataset leaves no shard behind for its name.
\<close>

section \<open>A concrete catalog\<close>

definition demo_shard :: "int \<Rightarrow> int option \<Rightarrow> int \<Rightarrow> int \<Rightarrow> shard" where
  "demo_shard level parent lo lsn = \<lparr>sh_id = 0, sh_key = (''acme'', ''docs''), sh_uri = ''u'', sh_checksum = ''c'',
     sh_count = 1, sh_index_type = ''ivf'', sh_build_type = ''full'', sh_landing = [], sh_lsn = lsn,
     sh_created = 0, sh_qver = 0, sh_parent = parent, sh_level = level, sh_lo = lo, sh_hi = lsn,
     sh_tombs = []\<rparr>"

definition add_all :: "catalog \<Rightarrow> (shard \<times> time) list \<Rightarrow> catalog" where
  "add_all c xs = fold (\<lambda>(sh, now) c. snd (add_shard c sh now)) xs c"

text \<open>Two bases, the first with a delta, then a delta on the second base and a third base.\<close>

definition gen_catalog :: "bool \<Rightarrow> catalog" where
  "gen_catalog memory = add_all
     \<lparr>c_memory = memory, c_datasets = [((''acme'', ''docs''), fresh_dataset 4 ''jsonl'' 0)], c_shards = [],
      c_last_id = 0, c_notices = []\<rparr>
     [(demo_shard 0 None 0 5, 10), (demo_shard 1 (Some 1) 5 9, 20), (demo_shard 0 None 0 9, 30),
      (demo_shard 1 (Some 3) 9 12, 40), (demo_shard 0 None 0 15, 50)]"

lemma gen_catalog_ok: "cat_ok (gen_catalog memory)"
  by (simp add: gen_catalog_def add_all_def add_shard_def store_shard_def notify_def cat_ok_def demo_shard_def dkeys_ok_def)

lemma gen_catalog_ids: "map sh_id (list_shards (gen_catalog memory) (''acme'', ''docs'')) = [5, 4, 3, 2, 1]"
  unfolding list_shards_eq[OF gen_catalog_ok]
  by (simp add: gen_catalog_def add_all_def add_shard_def store_shard_def notify_def demo_shard_def)

section \<open>Generations\<close>

text \<open>
  C16. Sweeping is invisible. Deleting the shards \<open>superseded_shards\<close> names for a dataset keeps
  exactly its newest \<open>keep\<close> generations, bases and deltas, in order; the live generation, the
  dataset watermark and the trim boundary are what they were, nothing is left to sweep, and no
  other dataset's listing changes.
\<close>

theorem sweep_is_invisible:
  assumes "cat_ok c"
    and "delete_shards c k (map sh_id (superseded_shards c k keep)) = (n, c')"
  shows "generations (list_shards c' k) = take (nat (max 1 keep)) (generations (list_shards c k)) \<and>
    live_generation c' k = live_generation c k \<and> dataset_watermark c' k = dataset_watermark c k \<and>
    grace_watermark c' k keep = grace_watermark c k keep \<and> superseded_shards c' k keep = [] \<and>
    (\<forall>k'. k' \<noteq> k \<longrightarrow> list_shards c' k' = list_shards c k')"
proof -
  have c': "c' = snd (delete_shards c k (map sh_id (superseded_of keep (list_shards c k))))"
    using assms(2) by (simp add: superseded_shards_def)
  have fr: "list_shards c' k' = list_shards c k'" if "k' \<noteq> k" for k'
    using cat.del_list[OF assms(1)] that by (simp add: c')
  show ?thesis
    unfolding live_generation_def dataset_watermark_def grace_watermark_def superseded_shards_def
    using cat.sweep_preserves[OF assms(1), where k = k and keep = keep, folded c'] fr by blast
qed

theorem sweep_is_invisible_witness:
  "\<exists>c'. delete_shards (gen_catalog True) (''acme'', ''docs'')
      (map sh_id (superseded_shards (gen_catalog True) (''acme'', ''docs'') 2)) = (2, c') \<and>
     map (map sh_id) (generations (list_shards c' (''acme'', ''docs''))) = [[5], [3, 4]]"
proof -
  let ?c = "gen_catalog True" and ?k = "(''acme'', ''docs'')"
  obtain n c' where d: "delete_shards ?c ?k (map sh_id (superseded_shards ?c ?k 2)) = (n, c')" by fastforce
  have g: "map (map sh_id) (generations (list_shards ?c ?k)) = [[5], [3, 4], [1, 2]]"
    unfolding list_shards_eq[OF gen_catalog_ok]
    by (simp add: gen_catalog_def add_all_def add_shard_def store_shard_def notify_def demo_shard_def
        generations_def kids_of_def)
  have s: "map sh_id (superseded_shards ?c ?k 2) = [2, 1]"
    unfolding superseded_shards_def list_shards_eq[OF gen_catalog_ok]
    by (simp add: gen_catalog_def add_all_def add_shard_def store_shard_def notify_def demo_shard_def
        superseded_of_def live_ids_def generations_def kids_of_def)
  have "n = 2"
    using d unfolding s
    by (simp add: delete_shards_def drop_shards_def gen_catalog_def add_all_def add_shard_def
        store_shard_def notify_def demo_shard_def)
  moreover have "map (map sh_id) (generations (list_shards c' ?k)) = [[5], [3, 4]]"
  proof -
    have "generations (list_shards c' ?k) = take (nat (max 1 2)) (generations (list_shards ?c ?k))"
      using sweep_is_invisible[OF gen_catalog_ok d] by (elim conjE)
    then have "map (map sh_id) (generations (list_shards c' ?k)) = take (nat (max 1 2)) [[5], [3, 4], [1, 2]]"
      by (simp only: take_map[symmetric] g)
    then show ?thesis by simp
  qed
  ultimately show ?thesis by (intro exI[of _ c'] conjI) (use d in simp_all)
qed

text \<open>
  Liveness is by generation. No shard of the newest \<open>keep\<close> generations is ever superseded,
  wherever it stands in the listing; and on a dataset without deltas the generation logic is the
  plain newest-\<open>keep\<close> rule: the superseded shards are the listing after the first \<open>keep\<close>, the
  watermark is the newest shard's, and the trim boundary is that of the \<open>keep\<close>-th newest shard.
\<close>

lemma generations_extend_newest_keep:
  fixes k :: key and keep :: int
  assumes "cat_ok c"
  defines "xs \<equiv> list_shards c k"
  shows "(\<forall>g \<in> set (take (nat (max 1 keep)) (generations xs)). \<forall>s \<in> set g. s \<notin> set (superseded_shards c k keep)) \<and>
    ((\<forall>s \<in> set xs. sh_level s = 0) \<longrightarrow>
      superseded_shards c k keep = drop (nat (max 1 keep)) xs \<and>
      dataset_watermark c k = (if xs = [] then 0 else sh_lsn (hd xs)) \<and>
      grace_watermark c k keep =
        (if length xs < nat (max 1 keep) then 0 else shard_frontier (xs ! (nat (max 1 keep) - 1))))"
proof (intro conjI impI)
  show "\<forall>g \<in> set (take (nat (max 1 keep)) (generations xs)). \<forall>s \<in> set g. s \<notin> set (superseded_shards c k keep)"
    unfolding superseded_shards_def xs_def by (blast dest: in_generation_not_superseded)
  let ?n = "nat (max 1 keep)"
  assume "\<forall>s \<in> set xs. sh_level s = 0"
  from generations_base_only[OF this] have gens: "generations xs = map (\<lambda>s. [s]) xs" .
  have dst: "distinct (map sh_id xs)" unfolding xs_def by (rule cat.distinct_listing[OF assms(1)])
  have live: "live_ids keep xs = sh_id ` set (take ?n xs)" by (auto simp: live_ids_def gens take_map)
  have "sh_id s \<in> sh_id ` set (take ?n xs) \<longleftrightarrow> s \<in> set (take ?n xs)" if "s \<in> set xs" for s
    using that distinct_ids_inj[OF dst] by (auto dest: in_set_takeD)
  then have "superseded_of keep xs = filter (\<lambda>s. s \<notin> set (take ?n xs)) xs"
    unfolding superseded_of_def live by (auto intro!: filter_cong)
  also have "\<dots> = filter (\<lambda>s. s \<notin> set (take ?n xs)) (take ?n xs @ drop ?n xs)" by simp
  also have "\<dots> = drop ?n xs"
  proof -
    have "set (take ?n xs) \<inter> set (drop ?n xs) = {}"
      using dst by (intro set_take_disj_set_drop_if_distinct) (simp_all add: distinct_map)
    then show ?thesis unfolding filter_append by (auto simp: filter_empty_conv filter_id_conv)
  qed
  finally show "superseded_shards c k keep = drop ?n xs" by (simp add: superseded_shards_def xs_def)
  show "dataset_watermark c k = (if xs = [] then 0 else sh_lsn (hd xs))"
    unfolding dataset_watermark_def watermark_of_def current_generation_def gen_rows_def
    using gens by (cases xs) (simp_all add: xs_def)
  show "grace_watermark c k keep = (if length xs < ?n then 0 else shard_frontier (xs ! (?n - 1)))"
    unfolding grace_watermark_def grace_of_def Let_def using gens by (simp add: xs_def nth_map)
qed

section \<open>Datasets\<close>

text \<open>
  C18. A deleted dataset leaves no ghost in the catalog (theory \<open>Lifecycle\<close> has what it leaves
  elsewhere). Deleting a live dataset succeeds, hides it from \<open>get_dataset\<close>, purges every shard of its
  name, announces the change, and leaves every other dataset's row and shards alone; deleting it again
  reports False; creating the name again yields an empty dataset with no shards; creating it while it is
  live is refused without any change.
\<close>

theorem delete_leaves_no_ghost:
  fixes now now' :: time and dm :: int
  assumes "cat_ok c" and "get_dataset c k = Some r"
  defines "c1 \<equiv> snd (delete_dataset c k now)" and "c2 \<equiv> snd (create_dataset (snd (delete_dataset c k now)) k dm now')"
  shows "fst (delete_dataset c k now) \<and> cat_ok c1 \<and> get_dataset c1 k = None \<and> list_shards c1 k = [] \<and>
    (k, []) \<in> set (c_notices c1) \<and>
    (\<forall>k'. k' \<noteq> k \<longrightarrow> get_dataset c1 k' = get_dataset c k' \<and> list_shards c1 k' = list_shards c k') \<and>
    \<not> fst (delete_dataset c1 k now') \<and>
    (\<exists>r'. get_dataset c2 k = Some r' \<and> d_row_count r' = 0 \<and> d_status r' = ''empty'' \<and> d_dimension r' = dm) \<and>
    list_shards c2 k = [] \<and> create_dataset c k dm now' = (Inl DatasetExists, c)"
proof -
  have live: "cat_row c k = Some r" using assms(2) by (simp add: get_dataset_def)
  then obtain r0 where r0: "dget (c_datasets c) k = Some r0" "d_deleted r0 = None" "r0 = r"
    by (auto simp: cat_row_def split: option.splits if_splits)
  let ?f = "\<lambda>s. \<not> sh_key s = k"
  have sh: "c_shards c1 = filter ?f (c_shards c)" and ds: "c_datasets c1 = dset k (r\<lparr>d_deleted := Some now\<rparr>) (c_datasets c)"
    and ok: "fst (delete_dataset c k now)" "c_memory c1 = c_memory c" "(k, []) \<in> set (c_notices c1)"
    using live by (auto simp: c1_def delete_dataset_def mc_delete_dataset_def pc_delete_dataset_def Let_def
        notify_def set_row_def cat_row_def)
  have ok1: "cat_ok c1" unfolding c1_def by (rule cat_ok_delete_dataset[OF assms(1)])
  have g1: "cat_row c1 k = None" by (simp add: cat_row_def ds pdict_simps)
  have oth: "get_dataset c1 k' = get_dataset c k' \<and> list_shards c1 k' = list_shards c k'" if "k' \<noteq> k" for k'
    using that by (auto simp: get_dataset_def cat_row_def ds pdict_simps list_shards_eq[OF ok1]
        list_shards_eq[OF assms(1)] sh filter_filter intro!: filter_cong)
  have l1: "list_shards c1 k = []" by (simp add: list_shards_eq[OF ok1] sh filter_empty_conv)
  have again: "\<not> fst (delete_dataset c1 k now')"
  proof -
    have "cat_row (c1\<lparr>c_shards := x\<rparr>) k = None" for x using g1 by (simp add: cat_row_def)
    then show ?thesis using g1
      by (simp add: delete_dataset_def mc_delete_dataset_def pc_delete_dataset_def Let_def)
  qed
  have c2: "c2 = snd (create_dataset c1 k dm now')" by (simp add: c2_def c1_def)
  have ok2: "cat_ok c2" unfolding c2 by (rule cat_ok_create[OF ok1])
  have new: "\<exists>r'. dget (c_datasets c2) k = Some r' \<and> d_deleted r' = None \<and> d_row_count r' = 0 \<and>
      d_status r' = ''empty'' \<and> d_dimension r' = dm" and sh2: "c_shards c2 = c_shards c1"
    using g1 by (auto simp: c2 create_dataset_def mc_create_dataset_def pc_create_dataset_def Let_def
        fresh_dataset_def split: option.split)
  have l2: "list_shards c2 k = []" using l1 by (simp add: list_shards_eq[OF ok1] list_shards_eq[OF ok2] sh2)
  have dup: "create_dataset c k dm now' = (Inl DatasetExists, c)"
    using live by (simp add: create_dataset_def mc_create_dataset_def pc_create_dataset_def)
  from new have "\<exists>r'. get_dataset c2 k = Some r' \<and> d_row_count r' = 0 \<and> d_status r' = ''empty'' \<and> d_dimension r' = dm"
    by (auto simp: get_dataset_def cat_row_def)
  moreover have "get_dataset c1 k = None" using g1 by (simp add: get_dataset_def)
  ultimately show ?thesis using ok ok1 oth l1 again l2 dup by blast
qed

theorem delete_leaves_no_ghost_witness:
  "list_shards (snd (delete_dataset (gen_catalog False) (''acme'', ''docs'') 60)) (''acme'', ''docs'') = [] \<and>
   list_shards (gen_catalog False) (''acme'', ''docs'') \<noteq> []"
proof -
  have "\<exists>r. get_dataset (gen_catalog False) (''acme'', ''docs'') = Some r"
    by (simp add: gen_catalog_def add_all_def add_shard_def store_shard_def notify_def demo_shard_def
        get_dataset_def cat_row_def fresh_dataset_def)
  then obtain r where "get_dataset (gen_catalog False) (''acme'', ''docs'') = Some r" by blast
  from delete_leaves_no_ghost[OF gen_catalog_ok this, of 60] gen_catalog_ids[of False] show ?thesis by auto
qed

end
