(* ===== verification/Faiss.thy ===== *)
theory Faiss
  imports Json
begin

text \<open>
  What the code calls of FAISS and of SHA-1, as parameters: an index is a value of an unknown type
  \<open>'i\<close>, a record holds the library's operations, and \<open>faiss_laws\<close> states the documented behaviour
  the proofs use. \<open>list_faiss\<close> is a concrete library (an index as the list of what was added) that
  meets the laws; the witnesses run on it.
\<close>

section \<open>Operations\<close>

text \<open>
  \<open>fx_id_map\<close> is the id list of an \<open>IndexIDMap2\<close> (None for an index without the attribute),
  \<open>fx_ivf_train\<close> a trained bare \<open>IndexIVFFlat\<close>, \<open>fx_wrap\<close> the \<open>IndexIDMap2\<close> constructor,
  \<open>fx_native_ids\<close> the ids in the inverted lists. Serializing and deserializing gives the same index back, so stored bytes are the index.
\<close>

record 'i faiss =
  fx_d :: "'i \<Rightarrow> int"
  fx_id_map :: "'i \<Rightarrow> int list option"
  fx_ntotal :: "'i \<Rightarrow> int"
  fx_ivf :: "'i \<Rightarrow> bool"
  fx_reconstruct :: "'i \<Rightarrow> int \<Rightarrow> pyexc + vec"
  fx_flat :: "int \<Rightarrow> 'i"
  fx_ivf_train :: "int \<Rightarrow> int \<Rightarrow> vec list \<Rightarrow> pyexc + 'i"
  fx_wrap :: "'i \<Rightarrow> 'i"
  fx_add :: "'i \<Rightarrow> int list \<Rightarrow> vec list \<Rightarrow> pyexc + 'i"
  fx_remove :: "'i \<Rightarrow> int list \<Rightarrow> pyexc + 'i"
  fx_direct_map :: "'i \<Rightarrow> pyexc + 'i"
  fx_native_ids :: "'i \<Rightarrow> int list"
  fx_clone :: "'i \<Rightarrow> 'i"
  fx_reset :: "'i \<Rightarrow> 'i"
  fx_nlist :: "'i \<Rightarrow> int"
  fx_dist :: "vec \<Rightarrow> vec \<Rightarrow> rat"
  fx_search :: "'i \<Rightarrow> int option \<Rightarrow> vec \<Rightarrow> int \<Rightarrow> pyexc + (rat \<times> int) list"

section \<open>Ids\<close>

text \<open>\<open>int.from_bytes(digest[:8], "big") & 0x7FFFFFFFFFFFFFFF\<close> of the id's SHA-1 digest, a parameter.\<close>

definition id_to_int64 :: "(string \<Rightarrow> nat list) \<Rightarrow> string \<Rightarrow> int" where
  "id_to_int64 sha1 raw_id =
     foldl (\<lambda>acc b. acc * 256 + int b) 0 (take 8 (sha1 raw_id)) mod 2 ^ 63"

lemma id_to_int64_bounds: "0 \<le> id_to_int64 sha1 i \<and> id_to_int64 sha1 i < 2 ^ 63"
  by (simp add: id_to_int64_def)

section \<open>Documented behaviour\<close>

definition row_width :: "int \<Rightarrow> vec list \<Rightarrow> bool" where
  "row_width dm vs \<longleftrightarrow> (\<forall>v \<in> set vs. int (length v) = dm)"

text \<open>An index that holds exactly the given ids, each with a vector of its width.\<close>

definition holds :: "'i faiss \<Rightarrow> 'i \<Rightarrow> int list \<Rightarrow> bool" where
  "holds fx ix ids \<longleftrightarrow> fx_id_map fx ix = Some ids \<and> fx_ntotal fx ix = int (length ids) \<and>
     (\<forall>n \<in> set ids. \<exists>v. fx_reconstruct fx ix n = Inr v \<and> int (length v) = fx_d fx ix)"

definition law_flat :: "'i faiss \<Rightarrow> bool" where
  "law_flat fx \<longleftrightarrow> (\<forall>dm. holds fx (fx_flat fx dm) [] \<and> fx_d fx (fx_flat fx dm) = dm \<and> \<not> fx_ivf fx (fx_flat fx dm))"

definition law_train :: "'i faiss \<Rightarrow> bool" where
  "law_train fx \<longleftrightarrow> (\<forall>dm nlist vs. 0 < dm \<longrightarrow> 1 \<le> nlist \<longrightarrow> nlist \<le> int (length vs) \<longrightarrow> row_width dm vs \<longrightarrow>
     (\<exists>ix. fx_ivf_train fx dm nlist vs = Inr ix \<and> holds fx (fx_wrap fx ix) [] \<and>
        fx_d fx (fx_wrap fx ix) = dm \<and> fx_ivf fx (fx_wrap fx ix)))"

text \<open>\<open>add_with_ids\<close> of new, distinct ids: it appends them, keeps the old entries and stores the new ones.\<close>

definition ix_added :: "'i faiss \<Rightarrow> 'i \<Rightarrow> int list \<Rightarrow> int list \<Rightarrow> vec list \<Rightarrow> 'i \<Rightarrow> bool" where
  "ix_added fx ix old ids vs ix' \<longleftrightarrow> holds fx ix' (old @ ids) \<and> fx_d fx ix' = fx_d fx ix \<and> fx_ivf fx ix' = fx_ivf fx ix \<and>
     (\<forall>n \<in> set old. fx_reconstruct fx ix' n = fx_reconstruct fx ix n) \<and>
     (\<forall>j < length ids. fx_reconstruct fx ix' (ids ! j) = Inr (vs ! j))"

definition law_add :: "'i faiss \<Rightarrow> bool" where
  "law_add fx \<longleftrightarrow> (\<forall>ix old ids vs. holds fx ix old \<longrightarrow> length ids = length vs \<longrightarrow> row_width (fx_d fx ix) vs \<longrightarrow>
     distinct ids \<longrightarrow> set ids \<inter> set old = {} \<longrightarrow> (\<exists>ix'. fx_add fx ix ids vs = Inr ix' \<and> ix_added fx ix old ids vs ix'))"

definition ix_removed :: "'i faiss \<Rightarrow> 'i \<Rightarrow> int list \<Rightarrow> int list \<Rightarrow> 'i \<Rightarrow> bool" where
  "ix_removed fx ix old rm ix' \<longleftrightarrow> holds fx ix' (filter (\<lambda>n. n \<notin> set rm) old) \<and> fx_d fx ix' = fx_d fx ix \<and>
     \<not> fx_ivf fx ix' \<and>
     (\<forall>n \<in> set old. n \<notin> set rm \<longrightarrow> fx_reconstruct fx ix' n = fx_reconstruct fx ix n)"

definition law_remove :: "'i faiss \<Rightarrow> bool" where
  "law_remove fx \<longleftrightarrow> (\<forall>ix old rm. holds fx ix old \<longrightarrow> \<not> fx_ivf fx ix \<longrightarrow>
     (\<exists>ix'. fx_remove fx ix rm = Inr ix' \<and> ix_removed fx ix old rm ix'))"

text \<open>
  \<open>search(x, k)\<close>: \<open>k\<close> entries, the hits first by ascending distance, each the distance of a stored
  vector, then padding with id -1. A flat index, or an IVF index that probes all its cells, finds
  the \<open>k\<close> nearest; with fewer probes some may be missed.
\<close>

definition covers :: "'i faiss \<Rightarrow> 'i \<Rightarrow> int option \<Rightarrow> bool" where
  "covers fx ix np \<longleftrightarrow> \<not> fx_ivf fx ix \<or> (case np of None \<Rightarrow> False | Some n \<Rightarrow> fx_nlist fx ix \<le> n)"

definition hits_ok :: "'i faiss \<Rightarrow> 'i \<Rightarrow> int list \<Rightarrow> int option \<Rightarrow> vec \<Rightarrow> int \<Rightarrow> (rat \<times> int) list \<Rightarrow> bool" where
  "hits_ok fx ix ids np q k hits \<longleftrightarrow> distinct (map snd hits) \<and> snd ` set hits \<subseteq> set ids \<and> sorted (map fst hits) \<and>
     (\<forall>(s, n) \<in> set hits. \<exists>v. fx_reconstruct fx ix n = Inr v \<and> s = fx_dist fx q v) \<and>
     (covers fx ix np \<longrightarrow> length hits = min (nat k) (length ids) \<and>
        (\<forall>(s, n) \<in> set hits. \<forall>m \<in> set ids - snd ` set hits. \<forall>v. fx_reconstruct fx ix m = Inr v \<longrightarrow> s \<le> fx_dist fx q v))"

definition law_search :: "'i faiss \<Rightarrow> bool" where
  "law_search fx \<longleftrightarrow> (\<forall>ix ids np q k. holds fx ix ids \<longrightarrow> distinct ids \<longrightarrow> int (length q) = fx_d fx ix \<longrightarrow> 0 < k \<longrightarrow>
     (\<exists>hits pad p. fx_search fx ix np q k = Inr (hits @ replicate pad (p, -1)) \<and>
        length hits + pad = nat k \<and> hits_ok fx ix ids np q k hits))"

definition faiss_laws :: "'i faiss \<Rightarrow> bool" where
  "faiss_laws fx \<longleftrightarrow> law_flat fx \<and> law_train fx \<and> law_add fx \<and> law_remove fx"

lemma flat_law:
  "faiss_laws fx \<Longrightarrow> holds fx (fx_flat fx dm) [] \<and> fx_d fx (fx_flat fx dm) = dm \<and> \<not> fx_ivf fx (fx_flat fx dm)"
  unfolding faiss_laws_def law_flat_def by blast

lemma train_law:
  assumes "faiss_laws fx" and "0 < dm" and "1 \<le> nlist" and "nlist \<le> int (length vs)" and "row_width dm vs"
  shows "\<exists>ix. fx_ivf_train fx dm nlist vs = Inr ix \<and> holds fx (fx_wrap fx ix) [] \<and>
    fx_d fx (fx_wrap fx ix) = dm \<and> fx_ivf fx (fx_wrap fx ix)"
proof -
  have "law_train fx" using assms(1) by (simp only: faiss_laws_def)
  then show ?thesis using assms(2-5) unfolding law_train_def by simp
qed

lemma add_law:
  assumes "faiss_laws fx" and "holds fx ix old" and "length ids = length vs" and "row_width (fx_d fx ix) vs"
    and "distinct ids" and "set ids \<inter> set old = {}"
  shows "\<exists>ix'. fx_add fx ix ids vs = Inr ix' \<and> ix_added fx ix old ids vs ix'"
proof -
  have "law_add fx" using assms(1) by (simp only: faiss_laws_def)
  then show ?thesis using assms(2-6) unfolding law_add_def by simp
qed

lemma remove_law:
  assumes "faiss_laws fx" and "holds fx ix old" and "\<not> fx_ivf fx ix"
  shows "\<exists>ix'. fx_remove fx ix rm = Inr ix' \<and> ix_removed fx ix old rm ix'"
proof -
  have "law_remove fx" using assms(1) by (simp only: faiss_laws_def)
  then show ?thesis using assms(2,3) unfolding law_remove_def by simp
qed

section \<open>A concrete library\<close>

text \<open>An index: width, whether it is IVF, whether it is wrapped, and its (id, vector) entries.\<close>

type_synonym list_index = "int \<times> bool \<times> bool \<times> (int \<times> vec) list"

fun sq_dist :: "vec \<Rightarrow> vec \<Rightarrow> rat" where
  "sq_dist (Fin a # q) (Fin b # v) = (a - b) * (a - b) + sq_dist q v"
| "sq_dist _ _ = 0"

definition list_faiss :: "list_index faiss" where
  "list_faiss = \<lparr>
     fx_d = (\<lambda>(d, _, _, _). d),
     fx_id_map = (\<lambda>(_, _, w, es). if w then Some (map fst es) else None),
     fx_ntotal = (\<lambda>(_, _, _, es). int (length es)),
     fx_ivf = (\<lambda>(_, v, _, _). v),
     fx_reconstruct = (\<lambda>(_, _, _, es) n. case map_of es n of
        None \<Rightarrow> Inl (RuntimeError ''key not found'') | Some v \<Rightarrow> Inr v),
     fx_flat = (\<lambda>d. (d, False, True, [])),
     fx_ivf_train = (\<lambda>d nlist vs. if int (length vs) < nlist then Inl (RuntimeError ''nx >= k'')
        else Inr (d, True, False, [])),
     fx_wrap = (\<lambda>(d, v, _, es). (d, v, True, es)),
     fx_add = (\<lambda>(d, v, w, es) ids vs. Inr (d, v, w, es @ zip ids vs)),
     fx_remove = (\<lambda>(d, v, w, es) rm. Inr (d, v, w, filter (\<lambda>(n, _). n \<notin> set rm) es)),
     fx_direct_map = (\<lambda>ix. Inr ix),
     fx_native_ids = (\<lambda>(_, _, _, es). map fst es),
     fx_clone = (\<lambda>ix. ix),
     fx_reset = (\<lambda>(d, v, w, _). (d, v, w, [])),
     fx_nlist = (\<lambda>_. 1),
     fx_dist = sq_dist,
     fx_search = (\<lambda>(d, _, _, es) np q k. if int (length q) \<noteq> d then Inl (OtherError ''AssertionError'')
        else let hits = take (nat k) (sort_key fst (map (\<lambda>(n, v). (sq_dist q v, n)) es))
             in Inr (hits @ replicate (nat k - length hits) (0, -1)))\<rparr>"

text \<open>
  The concrete library keeps the widths it is given, so \<open>holds\<close> there also asks the stored vectors
  to have the index's width; entries of distinct ids are read back by \<open>map_of\<close>.
\<close>

lemma list_holds:
  "holds list_faiss (d, v, w, es) ids \<longleftrightarrow> w \<and> map fst es = ids \<and>
     (\<forall>n \<in> set ids. \<exists>x. map_of es n = Some x \<and> int (length x) = d)"
proof -
  have "(\<exists>x. (case map_of es n of None \<Rightarrow> Inl e | Some x \<Rightarrow> Inr x) = (Inr x :: pyexc + vec) \<and> P x) \<longleftrightarrow>
      (\<exists>x. map_of es n = Some x \<and> P x)" for n P e by (cases "map_of es n") auto
  note e = this
  have "holds list_faiss (d, v, w, es) ids \<longleftrightarrow> (w \<and> map fst es = ids) \<and> length es = length ids \<and>
      (\<forall>n \<in> set ids. \<exists>x. map_of es n = Some x \<and> int (length x) = d)"
    unfolding holds_def list_faiss_def by (simp add: e)
  then show ?thesis by (metis length_map)
qed

lemma map_of_filter_key: "P k \<Longrightarrow> map_of (filter (\<lambda>(n, _). P n) es) k = map_of es k"
  by (induction es) auto

lemma list_faiss_add:
  assumes h: "holds list_faiss (d, v, w, es) old" and len: "length ids = length vs"
    and wd: "row_width d vs" and dst: "distinct ids" and dis: "set ids \<inter> set old = {}"
  shows "holds list_faiss (d, v, w, es @ zip ids vs) (old @ ids) \<and>
    (\<forall>n \<in> set old. map_of (es @ zip ids vs) n = map_of es n) \<and>
    (\<forall>j < length ids. map_of (es @ zip ids vs) (ids ! j) = Some (vs ! j))"
proof -
  have es: "map fst es = old" using h by (simp add: list_holds)
  have none: "map_of es n = None" if "n \<in> set ids" for n
  proof -
    have "fst ` set es = set old" using es by (metis list.set_map)
    with that dis show ?thesis by (auto simp: map_of_eq_None_iff)
  qed
  have none2: "map_of (zip ids vs) n = None" if "n \<in> set old" for n
    using that dis len by (auto simp: map_of_eq_None_iff dest: set_zip_leftD)
  have new: "map_of (es @ zip ids vs) (ids ! j) = Some (vs ! j)" if "j < length ids" for j
    using none[of "ids ! j"] that map_of_zip_nth[OF len dst, of j] len by (simp add: map_add_def)
  have olds: "map_of (es @ zip ids vs) n = map_of es n" if "n \<in> set old" for n
    using none2[OF that] by (simp add: map_add_def split: option.split)
  have "\<exists>x. map_of (es @ zip ids vs) n = Some x \<and> int (length x) = d" if "n \<in> set (old @ ids)" for n
  proof (cases "n \<in> set old")
    case True
    then show ?thesis using h olds[OF True] by (auto simp: list_holds)
  next
    case False
    then have "n \<in> set ids" using that by simp
    then obtain j where "j < length ids" "n = ids ! j" by (auto simp: in_set_conv_nth)
    then show ?thesis using new[of j] wd len by (auto simp: row_width_def)
  qed
  then show ?thesis using es h len new olds by (simp add: list_holds)
qed

lemma list_faiss_remove:
  assumes "holds list_faiss (d, v, w, es) old"
  shows "holds list_faiss (d, v, w, filter (\<lambda>(n, _). n \<notin> set rm) es) (filter (\<lambda>n. n \<notin> set rm) old)"
proof -
  have "map fst (filter (\<lambda>(n, _). n \<notin> set rm) es) = filter (\<lambda>n. n \<notin> set rm) (map fst es)"
    by (induction es) auto
  moreover have "map_of (filter (\<lambda>(n, _). n \<notin> set rm) es) n = map_of es n" if "n \<notin> set rm" for n
    using map_of_filter_key[of "\<lambda>n. n \<notin> set rm" n es] that by simp
  ultimately show ?thesis using assms by (auto simp: list_holds)
qed

lemma list_faiss_laws: "faiss_laws list_faiss"
proof -
  have "law_flat list_faiss" by (simp add: law_flat_def list_faiss_def holds_def)
  moreover have "law_train list_faiss" by (simp add: law_train_def list_faiss_def holds_def)
  moreover have "law_add list_faiss"
  proof -
    have "\<exists>ix'. fx_add list_faiss (d, v, w, es) ids vs = Inr ix' \<and> ix_added list_faiss (d, v, w, es) old ids vs ix'"
      if "holds list_faiss (d, v, w, es) old" "length ids = length vs" "row_width (fx_d list_faiss (d, v, w, es)) vs"
        "distinct ids" "set ids \<inter> set old = {}" for d v w es old ids and vs :: "vec list"
    proof (intro exI conjI)
      show "fx_add list_faiss (d, v, w, es) ids vs = Inr (d, v, w, es @ zip ids vs)"
        by (simp add: list_faiss_def)
      have "fx_d list_faiss (d, v, w, es) = d" by (simp add: list_faiss_def)
      with list_faiss_add[of d v w es old ids vs] that
      show "ix_added list_faiss (d, v, w, es) old ids vs (d, v, w, es @ zip ids vs)"
        unfolding ix_added_def by (simp, simp add: list_faiss_def)
    qed
    then show ?thesis unfolding law_add_def by (simp only: split_paired_All) blast
  qed
  moreover have "law_remove list_faiss"
  proof -
    have "\<exists>ix'. fx_remove list_faiss (d, v, w, es) rm = Inr ix' \<and> ix_removed list_faiss (d, v, w, es) old rm ix'"
      if "holds list_faiss (d, v, w, es) old" "\<not> fx_ivf list_faiss (d, v, w, es)" for d v w es old rm
    proof (intro exI conjI)
      show "fx_remove list_faiss (d, v, w, es) rm = Inr (d, v, w, filter (\<lambda>(n, _). n \<notin> set rm) es)"
        by (simp add: list_faiss_def)
      from list_faiss_remove[of d v w es old rm] that map_of_filter_key[of "\<lambda>n. n \<notin> set rm" _ es]
      show "ix_removed list_faiss (d, v, w, es) old rm (d, v, w, filter (\<lambda>(n, _). n \<notin> set rm) es)"
        unfolding ix_removed_def by (simp, simp add: list_faiss_def)
    qed
    then show ?thesis unfolding law_remove_def by (simp only: split_paired_All) blast
  qed
  ultimately show ?thesis unfolding faiss_laws_def by blast
qed

text \<open>The search of the concrete library is exact: it sorts all entries by distance.\<close>

lemma list_faiss_hits:
  fixes q :: vec
  assumes h: "holds list_faiss (d, v, w, es) ids" and dst: "distinct ids"
  defines "scored \<equiv> sort_key fst (map (\<lambda>(n, x). (sq_dist q x, n)) es)"
  shows "hits_ok list_faiss (d, v, w, es) ids np q k (take (nat k) scored)" and "length scored = length ids"
proof -
  have keys: "map fst es = ids" using h by (simp add: list_holds)
  then have des: "distinct (map fst es)" using dst by simp
  show len: "length scored = length ids" using keys by (auto simp: scored_def)
  have "mset (map snd scored) = mset (map snd (map (\<lambda>(n, x). (sq_dist q x, n)) es))"
    unfolding scored_def by (metis mset_map mset_sort)
  also have "map snd (map (\<lambda>(n, x). (sq_dist q x, n)) es) = ids" using keys by (auto simp: case_prod_unfold comp_def)
  finally have perm: "mset (map snd scored) = mset ids" .
  then have "distinct (map snd scored)" using dst by (metis mset_eq_imp_distinct_iff)
  then have d1: "distinct (map snd (take (nat k) scored))" by (simp add: take_map[symmetric])
  have entry: "\<exists>x. map_of es n = Some x \<and> s = sq_dist q x" if "(s, n) \<in> set scored" for s n
    using that des by (auto simp: scored_def)
  have rec: "fx_reconstruct list_faiss (d, v, w, es) n = Inr x \<longleftrightarrow> map_of es n = Some x" for n x
    by (simp add: list_faiss_def split: option.split)
  have dist: "fx_dist list_faiss = sq_dist" by (simp add: list_faiss_def)
  have sub: "set (take (nat k) scored) \<subseteq> set scored" by (rule set_take_subset)
  have ids: "snd ` set scored = set ids" using perm by (metis list.set_map set_mset_mset)
  have srt: "sorted (map fst scored)" by (simp add: scored_def)
  have low: "s \<le> sq_dist q x"
    if sn: "(s, n) \<in> set (take (nat k) scored)" and m: "m \<in> set ids - snd ` set (take (nat k) scored)" and x: "map_of es m = Some x"
    for s n m x
  proof -
    obtain s' where s': "(s', m) \<in> set scored" using m ids by force
    then have "(s', m) \<in> set (take (nat k) scored) \<union> set (drop (nat k) scored)"
      by (metis append_take_drop_id set_append)
    moreover have "(s', m) \<notin> set (take (nat k) scored)" using m by (metis DiffD2 image_eqI snd_conv)
    ultimately have later: "(s', m) \<in> set (drop (nat k) scored)" by blast
    have "sorted (map fst (take (nat k) scored) @ map fst (drop (nat k) scored))"
      using srt by (simp add: map_append[symmetric] del: map_append)
    then have "s \<le> s'" using sn later unfolding sorted_append by force
    then show ?thesis using entry[OF s'] x by simp
  qed
  show "hits_ok list_faiss (d, v, w, es) ids np q k (take (nat k) scored)"
    unfolding hits_ok_def rec dist
  proof (intro conjI)
    show "sorted (map fst (take (nat k) scored))" using sorted_wrt_take[OF srt] by (simp add: take_map)
    show "covers list_faiss (d, v, w, es) np \<longrightarrow> length (take (nat k) scored) = min (nat k) (length ids) \<and>
      (\<forall>(s, n) \<in> set (take (nat k) scored). \<forall>m \<in> set ids - snd ` set (take (nat k) scored). \<forall>x. map_of es m = Some x \<longrightarrow> s \<le> sq_dist q x)"
      using low len by auto
    show "snd ` set (take (nat k) scored) \<subseteq> set ids" using image_mono[OF sub, of snd] ids by simp
    show "\<forall>(s, n) \<in> set (take (nat k) scored). \<exists>x. map_of es n = Some x \<and> s = sq_dist q x"
      using entry sub by blast
  qed (rule d1)
qed

lemma list_faiss_search: "law_search list_faiss"
proof -
  have "\<exists>hits pad p. fx_search list_faiss (d, v, w, es) np q k = Inr (hits @ replicate pad (p, -1)) \<and>
      length hits + pad = nat k \<and> hits_ok list_faiss (d, v, w, es) ids np q k hits"
    if "holds list_faiss (d, v, w, es) ids" "distinct ids" "int (length q) = fx_d list_faiss (d, v, w, es)" for d v w es ids np q k
  proof -
    let ?hits = "take (nat k) (sort_key fst (map (\<lambda>(n, x). (sq_dist q x, n)) es))"
    have "fx_search list_faiss (d, v, w, es) np q k = Inr (?hits @ replicate (nat k - length ?hits) (0, -1))"
      using that(3) by (simp add: list_faiss_def Let_def)
    moreover have "length ?hits + (nat k - length ?hits) = nat k" by simp
    ultimately show ?thesis using list_faiss_hits(1)[OF that(1,2)] by blast
  qed
  then show ?thesis unfolding law_search_def by (simp only: split_paired_All) blast
qed

end
