(* ===== verification/Store.thy ===== *)
theory Store
  imports Faiss
begin

text \<open>
  Object storage (\<open>adapters/storage/storage.py\<close>) and the landing reader
  (\<open>adapters/landing/parquet_reader.py\<close>). The bucket is a dictionary from URIs to decoded objects:
  a serialized index, a JSON sidecar, a Parquet part, or anything else. \<open>down\<close> is the set of URIs
  whose requests fail.
\<close>

section \<open>Objects\<close>

text \<open>A sidecar's keys are the decimal forms of int64 ids; the model keys it by the ids.\<close>

type_synonym sidecar = "(int, string \<times> meta) pdict"

text \<open>One row of a Parquet part: values as the float32 array the reader makes of them.\<close>

record landing_row =
  lr_id :: string
  lr_values :: vec
  lr_meta :: meta

datatype 'i blob = IndexB 'i | SidecarB sidecar | PartB "landing_row list" | OtherB string

type_synonym 'i bucket = "(uri, 'i blob) pdict"

definition starts_with :: "string \<Rightarrow> string \<Rightarrow> bool" where
  "starts_with p s \<longleftrightarrow> take (length p) s = p"

definition ends_with :: "string \<Rightarrow> string \<Rightarrow> bool" where
  "ends_with p s \<longleftrightarrow> length p \<le> length s \<and> drop (length s - length p) s = p"

text \<open>The schemes reads and writes support; any other URI is a ValueError.\<close>

definition has_scheme :: "uri \<Rightarrow> bool" where
  "has_scheme u \<longleftrightarrow> starts_with ''s3://'' u \<or> starts_with ''memory://'' u"

definition read_bytes :: "(uri \<Rightarrow> bool) \<Rightarrow> 'i bucket \<Rightarrow> uri \<Rightarrow> pyexc + 'i blob" where
  "read_bytes down b u =
     (if \<not> has_scheme u then Inl (ValueError ''Unsupported read URI'')
      else if down u then Inl (OtherError ''storage unavailable'')
      else case dget b u of None \<Rightarrow> Inl (OtherError ''key not found'') | Some x \<Rightarrow> Inr x)"

definition write_bytes :: "(uri \<Rightarrow> bool) \<Rightarrow> 'i bucket \<Rightarrow> uri \<Rightarrow> 'i blob \<Rightarrow> pyexc + 'i bucket" where
  "write_bytes down b u x =
     (if \<not> has_scheme u then Inl (ValueError ''Unsupported write URI'')
      else if down u then Inl (OtherError ''storage unavailable'')
      else Inr (dset u x b))"

definition storage_delete :: "(uri \<Rightarrow> bool) \<Rightarrow> 'i bucket \<Rightarrow> uri \<Rightarrow> pyexc + 'i bucket" where
  "storage_delete down b u =
     (if \<not> has_scheme u then Inl (ValueError ''Unsupported delete URI'')
      else if down u then Inl (OtherError ''storage unavailable'')
      else Inr (ddel u b))"

definition storage_exists :: "(uri \<Rightarrow> bool) \<Rightarrow> 'i bucket \<Rightarrow> uri \<Rightarrow> pyexc + bool" where
  "storage_exists down b u =
     (if \<not> has_scheme u then Inl (ValueError ''Unsupported exists URI'')
      else if down u then Inl (OtherError ''storage unavailable'')
      else Inr (dget b u \<noteq> None))"

definition storage_list :: "(uri \<Rightarrow> bool) \<Rightarrow> 'i bucket \<Rightarrow> string \<Rightarrow> pyexc + uri list" where
  "storage_list down b p =
     (if \<not> has_scheme p then Inl (ValueError ''Unsupported list prefix'')
      else if down p then Inl (OtherError ''storage unavailable'')
      else Inr (filter (starts_with p) (map fst b)))"

text \<open>\<open>faiss.deserialize_index\<close> of bytes that are not an index raises RuntimeError.\<close>

definition read_index :: "(uri \<Rightarrow> bool) \<Rightarrow> 'i bucket \<Rightarrow> uri \<Rightarrow> pyexc + 'i" where
  "read_index down b u =
     (case read_bytes down b u of
        Inl e \<Rightarrow> Inl e
      | Inr (IndexB ix) \<Rightarrow> Inr ix
      | Inr _ \<Rightarrow> Inl (RuntimeError ''not an index''))"

definition sidecar_uri :: "uri \<Rightarrow> uri" where
  "sidecar_uri u = u @ ''.meta.json''"

text \<open>Any failure of a sidecar read is an empty sidecar.\<close>

definition read_shard_sidecar :: "(uri \<Rightarrow> bool) \<Rightarrow> 'i bucket \<Rightarrow> uri \<Rightarrow> sidecar" where
  "read_shard_sidecar down b u =
     (if \<not> has_scheme (sidecar_uri u) then []
      else case read_bytes down b (sidecar_uri u) of Inr (SidecarB sc) \<Rightarrow> sc | _ \<Rightarrow> [])"

section \<open>The landing area\<close>

definition rstrip_slash :: "string \<Rightarrow> string" where
  "rstrip_slash s = rev (dropWhile (\<lambda>c. c = CHR ''/'') (rev s))"

definition list_landing_parts :: "(uri \<Rightarrow> bool) \<Rightarrow> 'i bucket \<Rightarrow> string \<Rightarrow> pyexc + uri list" where
  "list_landing_parts down b landing_prefix =
     (case storage_list down b (rstrip_slash landing_prefix) of
        Inl e \<Rightarrow> Inl e
      | Inr us \<Rightarrow> Inr (sort (filter (ends_with ''.parquet'') us)))"

text \<open>One width for all rows, as a two-dimensional array needs.\<close>

definition same_width :: "vec list \<Rightarrow> bool" where
  "same_width vs \<longleftrightarrow> (case vs of [] \<Rightarrow> True | v # _ \<Rightarrow> list_all (\<lambda>w. length w = length v) vs)"

definition part_width :: "landing_row list \<Rightarrow> nat" where
  "part_width rows = (case rows of [] \<Rightarrow> 0 | r # _ \<Rightarrow> length (lr_values r))"

definition read_part :: "(uri \<Rightarrow> bool) \<Rightarrow> 'i bucket \<Rightarrow> uri \<Rightarrow> pyexc + landing_row list" where
  "read_part down b u =
     (case read_bytes down b u of
        Inl e \<Rightarrow> Inl e
      | Inr (PartB rows) \<Rightarrow>
          if same_width (map lr_values rows) then Inr rows else Inl (ValueError ''inhomogeneous shape'')
      | Inr _ \<Rightarrow> Inl (OtherError ''not a Parquet file''))"

fun read_parts :: "(uri \<Rightarrow> bool) \<Rightarrow> 'i bucket \<Rightarrow> uri list \<Rightarrow> pyexc + landing_row list list" where
  "read_parts down b [] = Inr []"
| "read_parts down b (u # us) =
     (case read_part down b u of
        Inl e \<Rightarrow> Inl e
      | Inr rows \<Rightarrow> (case read_parts down b us of Inl e \<Rightarrow> Inl e | Inr rest \<Rightarrow> Inr (rows # rest)))"

text \<open>\<open>np.concatenate\<close> needs equal widths; an empty part is an array of width zero.\<close>

definition same_parts :: "landing_row list list \<Rightarrow> bool" where
  "same_parts ps \<longleftrightarrow> (case ps of [] \<Rightarrow> True | p # _ \<Rightarrow> list_all (\<lambda>q. part_width q = part_width p) ps)"

definition read_landing_parts :: "(uri \<Rightarrow> bool) \<Rightarrow> 'i bucket \<Rightarrow> uri list \<Rightarrow> pyexc + landing_row list" where
  "read_landing_parts down b parts =
     (case read_parts down b parts of
        Inl e \<Rightarrow> Inl e
      | Inr ps \<Rightarrow> if same_parts ps then Inr (concat ps)
                 else Inl (ValueError ''all the input array dimensions must match''))"

lemma same_width_row_width:
  "same_width vs \<Longrightarrow> row_width (case vs of [] \<Rightarrow> dm | v # _ \<Rightarrow> int (length v)) vs"
  by (cases vs) (auto simp: same_width_def row_width_def list_all_iff)

lemma read_bytes_Inr:
  "read_bytes down b u = Inr x \<longleftrightarrow> has_scheme u \<and> \<not> down u \<and> dget b u = Some x"
  by (simp add: read_bytes_def split: option.split)

lemma read_index_Inr:
  "read_index down b u = Inr ix \<longleftrightarrow> has_scheme u \<and> \<not> down u \<and> dget b u = Some (IndexB ix)"
  using read_bytes_Inr[of down b u]
  by (cases "read_bytes down b u") (auto simp: read_index_def split: blob.split)

lemma write_bytes_Inr:
  "write_bytes down b u x = Inr b' \<longleftrightarrow> has_scheme u \<and> \<not> down u \<and> b' = dset u x b"
  by (auto simp: write_bytes_def)

lemma sidecar_uri_neq [simp]: "sidecar_uri u \<noteq> u" "u \<noteq> sidecar_uri u"
  by (simp_all add: sidecar_uri_def)

lemma sidecar_uri_inj [simp]: "sidecar_uri u = sidecar_uri v \<longleftrightarrow> u = v"
  by (simp add: sidecar_uri_def)

end
