(* ===== verification/World.thy ===== *)
theory World
  imports Recall Reaper Store
begin

text \<open>
  The state the services share, and what the builder and the query path are configured with: the
  catalog, the recall tier, the bucket, the queues and the import jobs as one record, threaded
  through every operation. The import-job rows follow \<open>adapters/state/quota.py\<close>.
\<close>

section \<open>Import jobs\<close>

record import_job =
  ij_id :: string
  ij_key :: key
  ij_format :: string
  ij_status :: string
  ij_error_mode :: string
  ij_max_bad :: "int option"
  ij_upload :: uri
  ij_processed :: int
  ij_accepted :: int
  ij_rejected :: int
  ij_rejected_uri :: "uri option"
  ij_error :: "string option"
  ij_created :: time
  ij_completed :: "time option"

text \<open>Jobs in insertion order; \<open>list_import_jobs\<close> is newest first.\<close>

definition new_import_job ::
  "string \<Rightarrow> key \<Rightarrow> string \<Rightarrow> string \<Rightarrow> int option \<Rightarrow> uri \<Rightarrow> time \<Rightarrow> import_job" where
  "new_import_job i k fmt error_mode max_bad upload now =
     \<lparr>ij_id = i, ij_key = k, ij_format = fmt, ij_status = ''awaiting_upload'', ij_error_mode = error_mode,
      ij_max_bad = max_bad, ij_upload = upload, ij_processed = 0, ij_accepted = 0, ij_rejected = 0,
      ij_rejected_uri = None, ij_error = None, ij_created = now, ij_completed = None\<rparr>"

definition create_import_job ::
  "import_job list \<Rightarrow> string \<Rightarrow> key \<Rightarrow> string \<Rightarrow> string \<Rightarrow> int option \<Rightarrow> uri \<Rightarrow> time
   \<Rightarrow> import_job \<times> import_job list" where
  "create_import_job jobs i k fmt error_mode max_bad upload now =
     (let j = new_import_job i k fmt error_mode max_bad upload now in (j, jobs @ [j]))"

definition get_import_job :: "import_job list \<Rightarrow> tenant \<Rightarrow> string \<Rightarrow> import_job option" where
  "get_import_job jobs tn i = find (\<lambda>j. fst (ij_key j) = tn \<and> ij_id j = i) jobs"

definition get_import_job_by_id :: "import_job list \<Rightarrow> string \<Rightarrow> import_job option" where
  "get_import_job_by_id jobs i = find (\<lambda>j. ij_id j = i) jobs"

definition list_import_jobs :: "import_job list \<Rightarrow> key \<Rightarrow> import_job list" where
  "list_import_jobs jobs k = rev (filter (\<lambda>j. ij_key j = k) jobs)"

text \<open>The mutable columns of \<open>update_import_job\<close>; an absent one keeps its value.\<close>

record import_patch =
  ip_status :: "string option"
  ip_counts :: "(int \<times> int \<times> int) option"
  ip_rejected_uri :: "uri option"
  ip_error :: "string option"
  ip_completed :: "time option"

definition apply_patch :: "import_patch \<Rightarrow> import_job \<Rightarrow> import_job" where
  "apply_patch p j = j\<lparr>
     ij_status := (case ip_status p of None \<Rightarrow> ij_status j | Some s \<Rightarrow> s),
     ij_processed := (case ip_counts p of None \<Rightarrow> ij_processed j | Some (n, _, _) \<Rightarrow> n),
     ij_accepted := (case ip_counts p of None \<Rightarrow> ij_accepted j | Some (_, n, _) \<Rightarrow> n),
     ij_rejected := (case ip_counts p of None \<Rightarrow> ij_rejected j | Some (_, _, n) \<Rightarrow> n),
     ij_rejected_uri := (case ip_rejected_uri p of None \<Rightarrow> ij_rejected_uri j | Some u \<Rightarrow> Some u),
     ij_error := (case ip_error p of None \<Rightarrow> ij_error j | Some m \<Rightarrow> Some m),
     ij_completed := (case ip_completed p of None \<Rightarrow> ij_completed j | Some t \<Rightarrow> Some t)\<rparr>"

fun update_import_job :: "import_job list \<Rightarrow> string \<Rightarrow> import_patch \<Rightarrow> import_job list" where
  "update_import_job [] i p = []"
| "update_import_job (j # js) i p =
     (if ij_id j = i then apply_patch p j # js else j # update_import_job js i p)"

section \<open>Configuration\<close>

record benv =
  be_pg :: pgenv
  be_recall :: recall_cfg
  be_queue :: qcfg
  be_index_type :: string
  be_floor :: int
  be_nlist :: int
  be_delta_tier :: bool
  be_max_deltas :: int
  be_max_deltas_hard :: int
  be_keep :: int
  be_landing :: string
  be_tenant_prefix :: bool
  be_indexes :: string
  be_versioned :: bool
  be_prewarm :: bool
  be_idle :: int
  be_sha1 :: "string \<Rightarrow> nat list"
  be_f32 :: "pyfloat \<Rightarrow> pyfloat"
  be_set :: "int list \<Rightarrow> int list"
  be_down :: "uri \<Rightarrow> bool"

section \<open>State\<close>

record last_build =
  lb_type :: "string option"
  lb_added :: int
  lb_parts :: int
  lb_uris :: "uri list"

record 'i world =
  w_cat :: catalog
  w_recall :: recall_state
  w_bucket :: "'i bucket"
  w_queue :: qstate
  w_jobs :: "import_job list"
  w_last :: last_build
  w_quant :: "(key \<times> int, 'i) pdict"
  w_evicted :: "int list"
  w_swept_at :: time

text \<open>The uuid and clock parts of new names, and the digests of new content.\<close>

record fresh =
  fr_date :: string
  fr_shard :: string
  fr_msg :: string
  fr_hash :: string

definition id64 :: "benv \<Rightarrow> string \<Rightarrow> int" where
  "id64 env = id_to_int64 (be_sha1 env)"

fun exc_text :: "pyexc \<Rightarrow> string" where
  "exc_text OverflowError = ''OverflowError''"
| "exc_text (ValueError s) = s"
| "exc_text KeyError = ''KeyError''"
| "exc_text (RuntimeError s) = s"
| "exc_text (OtherError s) = s"

definition set_status :: "'i world \<Rightarrow> key \<Rightarrow> string \<Rightarrow> string option \<Rightarrow> time option \<Rightarrow> time \<Rightarrow> 'i world" where
  "set_status w k st msg ix now = w\<lparr>w_cat := update_dataset_status (w_cat w) k st msg ix now\<rparr>"

end
