(* ===== verification/Builder.thy ===== *)
theory Builder
  imports World
begin

text \<open>
  The index builder's building blocks and its two shard writers outside the recall tier,
  \<open>services/index_builder/run.py\<close>: training size, sidecars, batch deduplication, the union rebuild,
  \<open>_write_shard\<close>, the sweeps, \<open>run_once\<close> (landing parts to a shard) and \<open>run_delete_once\<close>. A
  two-dimensional float32 array is its width and its rows.
\<close>

type_synonym matrix = "int \<times> vec list"

section \<open>Index building\<close>

text \<open>\<open>int(4 * math.sqrt(n))\<close>, exact for the vector counts in question.\<close>

fun isqrt :: "nat \<Rightarrow> nat" where
  "isqrt n = (if n = 0 then 0
     else let r = 2 * isqrt (n div 4) in if (r + 1) * (r + 1) \<le> n then r + 1 else r)"

declare isqrt.simps [simp del]

definition choose_nlist :: "benv \<Rightarrow> int \<Rightarrow> int" where
  "choose_nlist env n_vectors =
     (let rule_of_thumb = int (isqrt (16 * nat (max 1 n_vectors)));
          nlist = min (min rule_of_thumb (be_nlist env)) (max 1 (n_vectors div 8))
      in max 1 nlist)"

definition use_ivf :: "benv \<Rightarrow> int \<Rightarrow> bool" where
  "use_ivf env n \<longleftrightarrow> be_index_type env = ''ivfflat'' \<and> choose_nlist env n \<ge> 4 \<and> n \<ge> be_floor env"

definition build_flat :: "'i faiss \<Rightarrow> matrix \<Rightarrow> int list \<Rightarrow> pyexc + 'i" where
  "build_flat fx m ids = fx_add fx (fx_flat fx (fst m)) ids (snd m)"

definition build_ivfflat :: "benv \<Rightarrow> 'i faiss \<Rightarrow> matrix \<Rightarrow> int list \<Rightarrow> pyexc + 'i" where
  "build_ivfflat env fx m ids =
     (case fx_ivf_train fx (fst m) (choose_nlist env (int (length (snd m)))) (snd m) of
        Inl e \<Rightarrow> Inl e
      | Inr inner \<Rightarrow> fx_add fx (fx_wrap fx inner) ids (snd m))"

definition build_ivfflat_native :: "benv \<Rightarrow> 'i faiss \<Rightarrow> matrix \<Rightarrow> int list \<Rightarrow> pyexc + 'i" where
  "build_ivfflat_native env fx m ids =
     (case fx_ivf_train fx (fst m) (choose_nlist env (int (length (snd m)))) (snd m) of
        Inl e \<Rightarrow> Inl e
      | Inr inner \<Rightarrow> fx_add fx inner ids (snd m))"

text \<open>The gate that picks the index type of a fresh build, shared by every builder path.\<close>

definition build_fresh :: "benv \<Rightarrow> 'i faiss \<Rightarrow> matrix \<Rightarrow> int list \<Rightarrow> pyexc + ('i \<times> string)" where
  "build_fresh env fx m ids =
     (if use_ivf env (int (length (snd m)))
      then (case build_ivfflat env fx m ids of Inl e \<Rightarrow> Inl e | Inr ix \<Rightarrow> Inr (ix, ''ivfflat''))
      else (case build_flat fx m ids of Inl e \<Rightarrow> Inl e | Inr ix \<Rightarrow> Inr (ix, ''flat'')))"

section \<open>Sidecars and batches\<close>

definition sidecar_add :: "benv \<Rightarrow> sidecar \<Rightarrow> (string \<times> meta) list \<Rightarrow> sidecar" where
  "sidecar_add env sc rows = foldl (\<lambda>d (raw, md). dset (id64 env raw) (raw, md) d) sc rows"

definition sidecar_dict :: "benv \<Rightarrow> string list \<Rightarrow> meta list \<Rightarrow> sidecar" where
  "sidecar_dict env ids metas = sidecar_add env [] (zip ids metas)"

text \<open>\<open>merged = dict(existing); merged.update(_sidecar_dict(ids, metas))\<close>\<close>

definition dict_update :: "('k, 'v) pdict \<Rightarrow> ('k, 'v) pdict \<Rightarrow> ('k, 'v) pdict" where
  "dict_update d d' = foldl (\<lambda>acc (k, v). dset k v acc) d d'"

text \<open>
  \<open>_dedup_batch_last_wins\<close>: the position of the last occurrence of each int64 id, in position order.
\<close>

definition last_positions :: "benv \<Rightarrow> string list \<Rightarrow> (int, nat) pdict" where
  "last_positions env ids = foldl (\<lambda>d (pos, raw). dset (id64 env raw) pos d) [] (enumerate 0 ids)"

definition dedup_batch_last_wins ::
  "benv \<Rightarrow> string list \<Rightarrow> vec list \<Rightarrow> meta list \<Rightarrow> string list \<times> vec list \<times> meta list" where
  "dedup_batch_last_wins env ids vectors metas =
     (let seen = last_positions env ids in
      if length seen = length ids then (ids, vectors, metas)
      else let keep = sort (map snd seen)
           in (map ((!) ids) keep, map ((!) vectors) keep, map ((!) metas) keep))"

definition add_to_index :: "'i faiss \<Rightarrow> 'i \<Rightarrow> matrix \<Rightarrow> int list \<Rightarrow> pyexc + 'i" where
  "add_to_index fx ix m ids =
     (if fst m \<noteq> fx_d fx ix then Inl (ValueError ''dimension mismatch'') else fx_add fx ix ids (snd m))"

definition remove_ids :: "'i faiss \<Rightarrow> 'i \<Rightarrow> int list \<Rightarrow> pyexc + 'i" where
  "remove_ids fx ix ids =
     (case fx_remove fx ix ids of
        Inr ix' \<Rightarrow> Inr ix'
      | Inl (RuntimeError e) \<Rightarrow>
         (case fx_direct_map fx ix of Inl _ \<Rightarrow> Inl (RuntimeError e) | Inr ix1 \<Rightarrow> fx_remove fx ix1 ids)
      | Inl e \<Rightarrow> Inl e)"

fun reconstruct_surviving :: "'i faiss \<Rightarrow> 'i \<Rightarrow> int list \<Rightarrow> pyexc + vec list" where
  "reconstruct_surviving fx ix [] = Inr []"
| "reconstruct_surviving fx ix (n # ns) =
     (case fx_reconstruct fx ix n of
        Inl e \<Rightarrow> Inl e
      | Inr v \<Rightarrow> (case reconstruct_surviving fx ix ns of Inl e \<Rightarrow> Inl e | Inr vs \<Rightarrow> Inr (v # vs)))"

text \<open>The id and metadata a surviving int64 id has in the old sidecar, or its decimal form.\<close>

definition py_int_str :: "int \<Rightarrow> string" where
  "py_int_str n = (if n < 0 then ''-'' else []) @ py_dec (nat \<bar>n\<bar>)"

definition survivor_entry :: "sidecar \<Rightarrow> int \<Rightarrow> string \<times> meta" where
  "survivor_entry sc sid = (case dget sc sid of Some e \<Rightarrow> e | None \<Rightarrow> (py_int_str sid, []))"

text \<open>
  \<open>_union_rebuild_blob\<close>: the surviving entries of an index and the new ones, as one fresh index and
  sidecar. \<open>set(...)\<close> iterates in an order of its own, \<open>be_set\<close>.
\<close>

definition stack :: "matrix \<Rightarrow> matrix \<Rightarrow> pyexc + matrix" where
  "stack a b = (if fst a = fst b then Inr (fst a, snd a @ snd b)
     else Inl (ValueError ''all the input array dimensions must match''))"

definition union_matrix :: "matrix \<Rightarrow> matrix \<Rightarrow> bool \<Rightarrow> pyexc + matrix" where
  "union_matrix survivors new has_new =
     (if snd survivors \<noteq> [] \<and> has_new then stack survivors new
      else Inr (if has_new then new else survivors))"

definition union_rebuild ::
  "benv \<Rightarrow> 'i faiss \<Rightarrow> 'i \<Rightarrow> int list \<Rightarrow> sidecar \<Rightarrow> int set \<Rightarrow> string list \<Rightarrow> matrix \<Rightarrow> meta list \<Rightarrow> bool
   \<Rightarrow> pyexc + ('i \<times> sidecar \<times> string \<times> int)" where
  "union_rebuild env fx ix existing sc drop_ids new_ids new_vectors new_metas has_new =
     (let survivor_ids = filter (\<lambda>n. n \<notin> drop_ids) (be_set env existing) in
      case reconstruct_surviving fx ix survivor_ids of
        Inl e \<Rightarrow> Inl e
      | Inr survivor_vectors \<Rightarrow>
         (case union_matrix (fx_d fx ix, survivor_vectors) new_vectors has_new of
            Inl e \<Rightarrow> Inl e
          | Inr m \<Rightarrow>
             (let union_int_ids = survivor_ids @ map (id64 env) new_ids;
                  entries = map (survivor_entry sc) survivor_ids @ zip new_ids new_metas
              in case build_fresh env fx m union_int_ids of
                   Inl e \<Rightarrow> Inl e
                 | Inr (ix', ty) \<Rightarrow>
                     Inr (ix', dict_update [] (zip union_int_ids entries), ty, int (length (snd m))))))"

section \<open>Writing a shard\<close>

definition compute_shard_uri :: "benv \<Rightarrow> key \<Rightarrow> fresh \<Rightarrow> uri" where
  "compute_shard_uri env k fr =
     (if be_versioned env
      then ''s3://'' @ takeWhile (\<lambda>c. c \<noteq> CHR ''/'') (drop 5 (be_indexes env)) @ ''/'' @ fst k @ ''/'' @ snd k @
        ''/'' @ fr_shard fr @ ''-'' @ take 16 (fr_hash fr) @ ''.bin''
      else be_indexes env @ ''/'' @ fst k @ ''/'' @ snd k @ ''/indexes/'' @ fr_date fr @ ''/'' @ fr_shard fr @ ''.bin'')"

text \<open>The catalog columns a caller of \<open>_write_shard\<close> chooses.\<close>

record shard_args =
  sa_build_type :: string
  sa_uris :: "uri list"
  sa_lsn :: int
  sa_qver :: int
  sa_parent :: "int option"
  sa_level :: int
  sa_lo :: int
  sa_hi :: int
  sa_tombs :: "int list"

definition plain_args :: "string \<Rightarrow> uri list \<Rightarrow> int \<Rightarrow> shard_args" where
  "plain_args build_type uris lsn = \<lparr>sa_build_type = build_type, sa_uris = uris, sa_lsn = lsn, sa_qver = 0,
     sa_parent = None, sa_level = 0, sa_lo = 0, sa_hi = 0, sa_tombs = []\<rparr>"

definition shard_row :: "key \<Rightarrow> uri \<Rightarrow> string \<Rightarrow> int \<Rightarrow> string \<Rightarrow> shard_args \<Rightarrow> shard" where
  "shard_row k u checksum n ty a = \<lparr>sh_id = 0, sh_key = k, sh_uri = u, sh_checksum = checksum, sh_count = n,
     sh_index_type = ty, sh_build_type = sa_build_type a, sh_landing = sa_uris a, sh_lsn = sa_lsn a,
     sh_created = 0, sh_qver = sa_qver a, sh_parent = sa_parent a, sh_level = sa_level a, sh_lo = sa_lo a,
     sh_hi = sa_hi a, sh_tombs = sa_tombs a\<rparr>"

definition prewarm :: "benv \<Rightarrow> 'i world \<Rightarrow> key \<Rightarrow> uri \<Rightarrow> fresh \<Rightarrow> 'i world" where
  "prewarm env w k u fr =
     (if be_prewarm env
      then w\<lparr>w_queue := publish (be_queue env) (w_queue w) ''PREWARM_SHARD''
        [(''tenant'', JStr (fst k)), (''dataset'', JStr (snd k)), (''shard_uri'', JStr u)] (fr_msg fr) []\<rparr>
      else w)"

definition write_shard ::
  "benv \<Rightarrow> 'i world \<Rightarrow> key \<Rightarrow> 'i \<Rightarrow> sidecar \<Rightarrow> int \<Rightarrow> string \<Rightarrow> shard_args \<Rightarrow> time \<Rightarrow> fresh
   \<Rightarrow> (pyexc + uri) \<times> 'i world" where
  "write_shard env w k ix sc nrows ty a now fr =
     (let u = compute_shard_uri env k fr in
      case write_bytes (be_down env) (w_bucket w) u (IndexB ix) of
        Inl e \<Rightarrow> (Inl e, w)
      | Inr b1 \<Rightarrow>
         (case write_bytes (be_down env) b1 (sidecar_uri u) (SidecarB sc) of
            Inl e \<Rightarrow> (Inl e, w\<lparr>w_bucket := b1\<rparr>)
          | Inr b2 \<Rightarrow>
             (let c1 = snd (add_shard (w_cat w) (shard_row k u (fr_hash fr) nrows ty a) now);
                  c2 = set_row_count c1 k nrows
              in (Inr u, prewarm env (w\<lparr>w_bucket := b2, w_cat := c2\<rparr>) k u fr))))"

section \<open>Sweeps\<close>

text \<open>A delete that fails is printed and skipped.\<close>

definition try_delete :: "benv \<Rightarrow> 'i bucket \<Rightarrow> uri \<Rightarrow> 'i bucket" where
  "try_delete env b u = (case storage_delete (be_down env) b u of Inl _ \<Rightarrow> b | Inr b' \<Rightarrow> b')"

definition try_delete_existing :: "benv \<Rightarrow> 'i bucket \<Rightarrow> uri \<Rightarrow> 'i bucket" where
  "try_delete_existing env b u =
     (case storage_exists (be_down env) b u of Inr True \<Rightarrow> try_delete env b u | _ \<Rightarrow> b)"

definition sweep_superseded_shards :: "benv \<Rightarrow> 'i world \<Rightarrow> key \<Rightarrow> 'i world" where
  "sweep_superseded_shards env w k =
     (let stale = superseded_shards (w_cat w) k (be_keep env) in
      if stale = [] then w
      else w\<lparr>w_bucket := foldl (\<lambda>b s. try_delete env (try_delete env b (sh_uri s)) (sidecar_uri (sh_uri s)))
               (w_bucket w) stale,
             w_evicted := w_evicted w @ map sh_id stale,
             w_cat := snd (delete_shards (w_cat w) k (map sh_id stale))\<rparr>)"

definition sweep_indexed_landing :: "benv \<Rightarrow> 'i world \<Rightarrow> key \<Rightarrow> 'i world" where
  "sweep_indexed_landing env w k =
     (let parts = (case get_latest_shard (w_cat w) k of None \<Rightarrow> [] | Some s \<Rightarrow> sh_landing s);
          done_jobs = filter (\<lambda>j. ij_status j = ''completed'' \<or> ij_status j = ''failed'') (list_import_jobs (w_jobs w) k);
          uploads = filter (\<lambda>u. u \<noteq> []) (map ij_upload done_jobs)
      in w\<lparr>w_bucket := foldl (try_delete_existing env) (w_bucket w) (parts @ uploads)\<rparr>)"

section \<open>Building from the landing area\<close>

definition landing_prefix :: "benv \<Rightarrow> key \<Rightarrow> string" where
  "landing_prefix env k =
     (let base = (if ends_with ''/'' (be_landing env) then be_landing env else be_landing env @ ''/'') in
      if be_tenant_prefix env then base @ fst k @ ''/'' @ snd k else base @ snd k)"

definition mark_build :: "'i world \<Rightarrow> string \<Rightarrow> int \<Rightarrow> uri list \<Rightarrow> 'i world" where
  "mark_build w ty added uris =
     w\<lparr>w_last := \<lparr>lb_type = Some ty, lb_added = added, lb_parts = int (length uris), lb_uris = uris\<rparr>\<rparr>"

definition mark_type :: "'i world \<Rightarrow> string \<Rightarrow> 'i world" where
  "mark_type w ty = w\<lparr>w_last := (w_last w)\<lparr>lb_type := Some ty\<rparr>\<rparr>"

definition shard_lsn_or0 :: "shard option \<Rightarrow> int" where
  "shard_lsn_or0 s = (case s of None \<Rightarrow> 0 | Some sh \<Rightarrow> sh_lsn sh)"

text \<open>The build proper of \<open>_run_once_locked\<close>: index, sidecar, index type, row count.\<close>

definition incremental_build ::
  "benv \<Rightarrow> 'i faiss \<Rightarrow> 'i bucket \<Rightarrow> shard \<Rightarrow> string list \<Rightarrow> matrix \<Rightarrow> meta list
   \<Rightarrow> pyexc + ('i \<times> sidecar \<times> string \<times> int)" where
  "incremental_build env fx b latest ids m metas =
     (case read_index (be_down env) b (sh_uri latest) of
        Inl e \<Rightarrow> Inl e
      | Inr ix \<Rightarrow>
         (case fx_id_map fx ix of
            None \<Rightarrow> Inl (RuntimeError ''incremental upsert: loaded shard index has no `id_map`'')
          | Some existing \<Rightarrow>
             (let int_ids = map (id64 env) ids;
                  overlap = filter (\<lambda>n. n \<in> set existing) int_ids;
                  sc = read_shard_sidecar (be_down env) b (sh_uri latest)
              in if overlap \<noteq> [] \<and> fx_ivf fx ix
                 then union_rebuild env fx ix existing sc (set overlap) ids m metas (snd m \<noteq> [] \<and> fst m > 0)
                 else
                   (case (if overlap \<noteq> [] then remove_ids fx ix overlap else Inr ix) of
                      Inl e \<Rightarrow> Inl e
                    | Inr ix1 \<Rightarrow>
                       (case add_to_index fx ix1 m int_ids of
                          Inl e \<Rightarrow> Inl e
                        | Inr ix2 \<Rightarrow> Inr (ix2, dict_update sc (sidecar_dict env ids metas),
                                         sh_index_type latest, fx_ntotal fx ix2))))))"

definition full_build ::
  "benv \<Rightarrow> 'i faiss \<Rightarrow> string list \<Rightarrow> matrix \<Rightarrow> meta list \<Rightarrow> pyexc + ('i \<times> sidecar \<times> string \<times> int)" where
  "full_build env fx ids m metas =
     (case build_fresh env fx m (map (id64 env) ids) of
        Inl e \<Rightarrow> Inl e
      | Inr (ix, ty) \<Rightarrow> Inr (ix, sidecar_dict env ids metas, ty, int (length (snd m))))"

definition build_error :: "'i world \<Rightarrow> key \<Rightarrow> string \<Rightarrow> pyexc \<Rightarrow> time \<Rightarrow> 'i world" where
  "build_error w k what e now =
     mark_type (set_status w k ''error'' (Some (what @ exc_text e)) None now) ''error''"

text \<open>\<open>sorted(already_indexed | set(new_parts))\<close>\<close>

definition sorted_uris :: "uri list \<Rightarrow> uri list" where
  "sorted_uris us = remdups (sort us)"

definition run_once_locked ::
  "benv \<Rightarrow> 'i faiss \<Rightarrow> 'i world \<Rightarrow> key \<Rightarrow> time \<Rightarrow> fresh \<Rightarrow> int \<times> 'i world" where
  "run_once_locked env fx w0 k now fr =
     (let w = w0\<lparr>w_last := \<lparr>lb_type = None, lb_added = 0, lb_parts = 0, lb_uris = []\<rparr>\<rparr>;
          latest = get_latest_shard (w_cat w) k;
          already = (case latest of None \<Rightarrow> [] | Some s \<Rightarrow> sh_landing s)
      in case list_landing_parts (be_down env) (w_bucket w) (landing_prefix env k) of
           Inl e \<Rightarrow> (0, build_error w k ''landing list: '' e now)
         | Inr all_parts \<Rightarrow>
            (let new_parts = filter (\<lambda>p. p \<notin> set already) all_parts in
             if new_parts = [] then (0, mark_type w ''noop'')
             else case read_landing_parts (be_down env) (w_bucket w) new_parts of
                 Inl e \<Rightarrow> (0, build_error w k ''landing read: '' e now)
               | Inr rows \<Rightarrow>
                  (let (ids, vs, metas) = dedup_batch_last_wins env (map lr_id rows) (map lr_values rows) (map lr_meta rows);
                       m = (int (part_width rows), vs)
                   in if rows = [] \<or> part_width rows = 0 then (0, mark_type w ''noop'')
                      else
                        let r = (case latest of
                              Some s \<Rightarrow> incremental_build env fx (w_bucket w) s ids m metas
                            | None \<Rightarrow> full_build env fx ids m metas);
                            bt = (if latest \<noteq> None then ''incremental'' else ''full'')
                        in case r of
                             Inl e \<Rightarrow> (0, build_error w k ''index build: '' e now)
                           | Inr (ix, sc, ty, nrows) \<Rightarrow>
                              (case write_shard env w k ix sc nrows ty
                                  (plain_args bt (sorted_uris (already @ new_parts)) (shard_lsn_or0 latest)) now fr of
                                 (Inl e, w1) \<Rightarrow> (0, build_error w1 k ''index build: '' e now)
                               | (Inr _, w1) \<Rightarrow>
                                  (let w2 = set_status w1 k ''indexed'' None (Some now) now;
                                       w3 = sweep_indexed_landing env (sweep_superseded_shards env w2 k) k
                                   in (int (length vs), mark_build w3 bt (int (length vs)) new_parts))))))"

definition BUILD_SKIPPED :: int where
  "BUILD_SKIPPED = -1"

text \<open>\<open>run_once\<close>: \<open>acquired\<close> is the outcome of the dataset's advisory lock.\<close>

definition run_once ::
  "benv \<Rightarrow> 'i faiss \<Rightarrow> bool \<Rightarrow> 'i world \<Rightarrow> key \<Rightarrow> time \<Rightarrow> fresh \<Rightarrow> int \<times> 'i world" where
  "run_once env fx acquired w k now fr =
     (if \<not> acquired then (BUILD_SKIPPED, mark_build w ''skipped'' 0 [])
      else run_once_locked env fx w k now fr)"

section \<open>Deleting one vector\<close>

definition delete_build ::
  "benv \<Rightarrow> 'i faiss \<Rightarrow> 'i bucket \<Rightarrow> shard \<Rightarrow> int \<Rightarrow> pyexc + ('i \<times> sidecar \<times> string \<times> int) option" where
  "delete_build env fx b latest target =
     (case read_index (be_down env) b (sh_uri latest) of
        Inl e \<Rightarrow> Inl e
      | Inr ix \<Rightarrow>
         (case fx_id_map fx ix of
            None \<Rightarrow> Inl (RuntimeError ''delete: loaded shard index has no `id_map`'')
          | Some existing \<Rightarrow>
              if target \<notin> set existing then Inr None
              else
                let sc = read_shard_sidecar (be_down env) b (sh_uri latest) in
                if fx_ivf fx ix
                then (case union_rebuild env fx ix existing sc {target} [] (fx_d fx ix, []) [] False of
                        Inl e \<Rightarrow> Inl e | Inr r \<Rightarrow> Inr (Some r))
                else (case remove_ids fx ix [target] of
                        Inl e \<Rightarrow> Inl e
                      | Inr ix' \<Rightarrow> Inr (Some (ix', ddel target sc, sh_index_type latest, fx_ntotal fx ix')))))"

definition run_delete_locked ::
  "benv \<Rightarrow> 'i faiss \<Rightarrow> 'i world \<Rightarrow> key \<Rightarrow> string \<Rightarrow> time \<Rightarrow> fresh \<Rightarrow> int \<times> 'i world" where
  "run_delete_locked env fx w k vector_id now fr =
     (case get_latest_shard (w_cat w) k of
        None \<Rightarrow> (0, w)
      | Some latest \<Rightarrow>
         (case delete_build env fx (w_bucket w) latest (id64 env vector_id) of
            Inl e \<Rightarrow> (0, set_status w k ''error'' (Some (''vector delete: '' @ exc_text e)) None now)
          | Inr None \<Rightarrow> (0, set_status w k ''indexed'' None None now)
          | Inr (Some (ix, sc, ty, nrows)) \<Rightarrow>
             (case write_shard env w k ix sc nrows ty (plain_args ''delete'' (sh_landing latest) (sh_lsn latest)) now fr of
                (Inl e, w1) \<Rightarrow> (0, set_status w1 k ''error'' (Some (''vector delete: '' @ exc_text e)) None now)
              | (Inr _, w1) \<Rightarrow>
                  (1, sweep_superseded_shards env (set_status w1 k ''indexed'' None (Some now) now) k))))"

definition run_delete_once ::
  "benv \<Rightarrow> 'i faiss \<Rightarrow> bool \<Rightarrow> 'i world \<Rightarrow> key \<Rightarrow> string \<Rightarrow> time \<Rightarrow> fresh \<Rightarrow> int \<times> 'i world" where
  "run_delete_once env fx acquired w k vector_id now fr =
     (if \<not> acquired then (BUILD_SKIPPED, w) else run_delete_locked env fx w k vector_id now fr)"

end
