(* ===== verification/Consolidate.thy ===== *)
theory Consolidate
  imports Builder
begin

text \<open>
  The recall-to-consolidated fold, \<open>services/index_builder/run.py\<close>: \<open>run_consolidate_once\<close> with the
  plain fold, the delta fold and the major compaction, and the worker's handlers and dispatch.
\<close>

section \<open>Vectors out of the recall tier\<close>

text \<open>\<open>np.array([r["values"] for r in live_rows], dtype=np.float32)\<close>, or the empty (0, 0) array.\<close>

definition rows_matrix :: "benv \<Rightarrow> snap list \<Rightarrow> pyexc + matrix" where
  "rows_matrix env rows =
     (case rows of
        [] \<Rightarrow> Inr (0, [])
      | r # _ \<Rightarrow>
          if same_width (map s_values rows)
          then Inr (int (length (s_values r)), map (\<lambda>x. map (be_f32 env) (s_values x)) rows)
          else Inl (ValueError ''inhomogeneous shape''))"

definition save_quantizer :: "benv \<Rightarrow> 'i faiss \<Rightarrow> 'i world \<Rightarrow> key \<Rightarrow> 'i \<Rightarrow> int \<Rightarrow> (pyexc + unit) \<times> 'i world" where
  "save_quantizer env fx w k inner ver =
     (let u = be_indexes env @ ''/'' @ fst k @ ''/'' @ snd k @ ''/indexes/quantizer-v'' @ py_int_str ver @ ''.index'';
          q = fx_reset fx (fx_clone fx inner)
      in case write_bytes (be_down env) (w_bucket w) u (IndexB q) of
           Inl e \<Rightarrow> (Inl e, w)
         | Inr b \<Rightarrow> (Inr (), w\<lparr>w_bucket := b, w_quant := dset (k, ver) q (w_quant w)\<rparr>))"

definition load_quantizer :: "benv \<Rightarrow> 'i world \<Rightarrow> key \<Rightarrow> int \<Rightarrow> (pyexc + 'i) \<times> 'i world" where
  "load_quantizer env w k ver =
     (case dget (w_quant w) (k, ver) of
        Some q \<Rightarrow> (Inr q, w)
      | None \<Rightarrow>
         (let u = be_indexes env @ ''/'' @ fst k @ ''/'' @ snd k @ ''/indexes/quantizer-v'' @ py_int_str ver @ ''.index''
          in case read_index (be_down env) (w_bucket w) u of
               Inl e \<Rightarrow> (Inl e, w)
             | Inr q \<Rightarrow> (Inr q, w\<lparr>w_quant := dset (k, ver) q (w_quant w)\<rparr>)))"

section \<open>The plain fold\<close>

definition live_of :: "snap list \<Rightarrow> snap list" where
  "live_of rows = filter (\<lambda>r. \<not> s_deleted r) rows"

definition dead_ids :: "snap list \<Rightarrow> vid list" where
  "dead_ids rows = map s_id (filter s_deleted rows)"

text \<open>
  The index a fold onto an existing shard writes: an in-place add when no folded id is in the shard,
  else the union rebuild.
\<close>

definition fold_into ::
  "benv \<Rightarrow> 'i faiss \<Rightarrow> 'i bucket \<Rightarrow> shard \<Rightarrow> snap list \<Rightarrow> vid list \<Rightarrow> matrix
   \<Rightarrow> pyexc + ('i \<times> sidecar \<times> string \<times> int)" where
  "fold_into env fx b latest live tomb_ids m =
     (case read_index (be_down env) b (sh_uri latest) of
        Inl e \<Rightarrow> Inl e
      | Inr ix \<Rightarrow>
         (case fx_id_map fx ix of
            None \<Rightarrow> Inl (RuntimeError ''consolidate: loaded shard index has no `id_map`'')
          | Some existing \<Rightarrow>
             (let sc = read_shard_sidecar (be_down env) b (sh_uri latest);
                  ids = map s_id live;
                  int_ids = map (id64 env) ids;
                  hit = filter (\<lambda>n. n \<in> set existing) (int_ids @ map (id64 env) tomb_ids)
              in if hit = []
                 then (case (if live \<noteq> [] then add_to_index fx ix m int_ids else Inr ix) of
                         Inl e \<Rightarrow> Inl e
                       | Inr ix' \<Rightarrow> Inr (ix', dict_update sc (sidecar_dict env ids (map s_metadata live)),
                                       sh_index_type latest, fx_ntotal fx ix'))
                 else union_rebuild env fx ix existing sc (set hit) ids m (map s_metadata live) (live \<noteq> []))))"

definition build_plain_fold ::
  "benv \<Rightarrow> 'i faiss \<Rightarrow> 'i world \<Rightarrow> key \<Rightarrow> shard option \<Rightarrow> snap list \<Rightarrow> vid list \<Rightarrow> int \<Rightarrow> time \<Rightarrow> fresh
   \<Rightarrow> (pyexc + uri option) \<times> 'i world" where
  "build_plain_fold env fx w k latest live tomb_ids lsn now fr =
     (case rows_matrix env live of
        Inl e \<Rightarrow> (Inl e, w)
      | Inr m \<Rightarrow>
         (case (case latest of
              Some s \<Rightarrow> map_sum id Some (fold_into env fx (w_bucket w) s live tomb_ids m)
            | None \<Rightarrow> if live = [] then Inr None
                      else map_sum id Some (full_build env fx (map s_id live) m (map s_metadata live))) of
            Inl e \<Rightarrow> (Inl e, w)
          | Inr None \<Rightarrow> (Inr None, w)
          | Inr (Some (ix, sc, ty, nrows)) \<Rightarrow>
              (case write_shard env w k ix sc nrows ty
                  (plain_args ''consolidate'' (case latest of None \<Rightarrow> [] | Some s \<Rightarrow> sh_landing s) lsn) now fr of
                 (Inl e, w1) \<Rightarrow> (Inl e, w1)
               | (Inr u, w1) \<Rightarrow> (Inr (Some u), w1))))"

section \<open>The delta tier\<close>

definition delta_tier_applies :: "benv \<Rightarrow> catalog \<Rightarrow> shard option \<Rightarrow> bool" where
  "delta_tier_applies env c latest =
     (if \<not> be_delta_tier env then False
      else case latest of
        None \<Rightarrow> True
      | Some s \<Rightarrow>
         (case live_generation c (sh_key s) of
            None \<Rightarrow> True
          | Some g \<Rightarrow> sh_index_type (g_base g) = ''ivfflat'' \<and> sh_level (g_base g) = 0 \<and> sh_qver (g_base g) \<ge> 1))"

definition build_delta_blob ::
  "benv \<Rightarrow> 'i faiss \<Rightarrow> 'i \<Rightarrow> snap list \<Rightarrow> matrix \<Rightarrow> pyexc + ('i \<times> sidecar)" where
  "build_delta_blob env fx quantizer live m =
     (let ids = map s_id live;
          sc = sidecar_dict env ids (map s_metadata live);
          ix = fx_clone fx quantizer
      in if ids = [] then Inr (ix, sc)
         else case fx_add fx ix (map (id64 env) ids) (snd m) of Inl e \<Rightarrow> Inl e | Inr ix' \<Rightarrow> Inr (ix', sc))"

definition delta_args :: "shard \<Rightarrow> int \<Rightarrow> int \<Rightarrow> int list \<Rightarrow> shard_args" where
  "delta_args base lsn lo tombs = \<lparr>sa_build_type = ''consolidate-delta'', sa_uris = [], sa_lsn = lsn,
     sa_qver = sh_qver base, sa_parent = Some (sh_id base), sa_level = 1, sa_lo = lo, sa_hi = lsn,
     sa_tombs = tombs\<rparr>"

definition base_args :: "int \<Rightarrow> int \<Rightarrow> shard_args" where
  "base_args lsn qver = \<lparr>sa_build_type = ''consolidate'', sa_uris = [], sa_lsn = lsn, sa_qver = qver,
     sa_parent = None, sa_level = 0, sa_lo = 0, sa_hi = lsn, sa_tombs = []\<rparr>"

definition lift_uri :: "(pyexc + uri) \<times> 'i world \<Rightarrow> (pyexc + uri option) \<times> 'i world" where
  "lift_uri r = (map_sum id Some (fst r), snd r)"

definition build_delta_fold ::
  "benv \<Rightarrow> 'i faiss \<Rightarrow> 'i world \<Rightarrow> key \<Rightarrow> snap list \<Rightarrow> vid list \<Rightarrow> int \<Rightarrow> time \<Rightarrow> fresh
   \<Rightarrow> (pyexc + uri option) \<times> 'i world" where
  "build_delta_fold env fx w k live tomb_ids lsn now fr =
     (case rows_matrix env live of
        Inl e \<Rightarrow> (Inl e, w)
      | Inr m \<Rightarrow>
         (let ids = map s_id live; int_ids = map (id64 env) ids; n = int (length (snd m)) in
          case live_generation (w_cat w) k of
            None \<Rightarrow>
              if live = [] then (Inr None, w)
              else if use_ivf env n
              then (case build_ivfflat_native env fx m int_ids of
                      Inl e \<Rightarrow> (Inl e, w)
                    | Inr ix \<Rightarrow>
                       (case save_quantizer env fx w k ix 1 of
                          (Inl e, w1) \<Rightarrow> (Inl e, w1)
                        | (Inr _, w1) \<Rightarrow>
                            lift_uri (write_shard env w1 k ix (sidecar_dict env ids (map s_metadata live)) n
                              ''ivfflat'' (base_args lsn 1) now fr)))
              else (case build_flat fx m int_ids of
                      Inl e \<Rightarrow> (Inl e, w)
                    | Inr ix \<Rightarrow>
                        lift_uri (write_shard env w k ix (sidecar_dict env ids (map s_metadata live)) n
                          ''flat'' (base_args lsn 0) now fr))
          | Some g \<Rightarrow>
              (let frontier = Max (set (map shard_frontier (gen_rows g)));
                   tombs = map (id64 env) tomb_ids
               in if live = [] \<and> tombs = [] then (Inr None, w)
                  else case load_quantizer env w k (sh_qver (g_base g)) of
                      (Inl e, w1) \<Rightarrow> (Inl e, w1)
                    | (Inr q, w1) \<Rightarrow>
                       (case build_delta_blob env fx q live m of
                          Inl e \<Rightarrow> (Inl e, w1)
                        | Inr (ix, sc) \<Rightarrow>
                            lift_uri (write_shard env w1 k ix sc (int (length live)) ''ivfflat''
                              (delta_args (g_base g) lsn (frontier + 1) tombs) now fr)))))"

section \<open>Major compaction\<close>

definition load_bare_ivf :: "benv \<Rightarrow> 'i faiss \<Rightarrow> 'i bucket \<Rightarrow> shard \<Rightarrow> pyexc + 'i" where
  "load_bare_ivf env fx b s =
     (case read_index (be_down env) b (sh_uri s) of
        Inl e \<Rightarrow> Inl e
      | Inr ix \<Rightarrow>
          if fx_id_map fx ix \<noteq> None then Inl (RuntimeError ''major compaction expects a bare IVF base/delta'')
          else if \<not> fx_ivf fx ix then Inl (RuntimeError ''major compaction expects an IVF index'')
          else Inr ix)"

fun load_all :: "benv \<Rightarrow> 'i faiss \<Rightarrow> 'i bucket \<Rightarrow> shard list \<Rightarrow> pyexc + 'i list" where
  "load_all env fx b [] = Inr []"
| "load_all env fx b (s # ss) =
     (case load_bare_ivf env fx b s of
        Inl e \<Rightarrow> Inl e
      | Inr ix \<Rightarrow> (case load_all env fx b ss of Inl e \<Rightarrow> Inl e | Inr ixs \<Rightarrow> Inr (ix # ixs)))"

text \<open>
  The dictionary \<open>final\<close>: for each layer in order, its ids are alive at that layer, then its
  tombstones are dead at it.
\<close>

definition layer_marks :: "nat \<Rightarrow> int list \<Rightarrow> int list \<Rightarrow> (int, nat \<times> bool) pdict \<Rightarrow> (int, nat \<times> bool) pdict" where
  "layer_marks pos ids tombs d =
     foldl (\<lambda>d n. dset n (pos, False) d) (foldl (\<lambda>d n. dset n (pos, True) d) d ids) tombs"

fun final_marks :: "nat \<Rightarrow> (int list \<times> int list) list \<Rightarrow> (int, nat \<times> bool) pdict \<Rightarrow> (int, nat \<times> bool) pdict" where
  "final_marks pos [] d = d"
| "final_marks pos ((ids, tombs) # ls) d = final_marks (Suc pos) ls (layer_marks pos ids tombs d)"

definition survivors_of :: "(int, nat \<times> bool) pdict \<Rightarrow> (int \<times> nat) list" where
  "survivors_of final = [(n, pos). (n, pos, alive) \<leftarrow> final, alive]"

fun gather :: "'i faiss \<Rightarrow> 'i list \<Rightarrow> (int \<times> nat) list \<Rightarrow> pyexc + vec list" where
  "gather fx ixs [] = Inr []"
| "gather fx ixs ((n, pos) # ss) =
     (case fx_reconstruct fx (ixs ! pos) n of
        Inl e \<Rightarrow> Inl e
      | Inr v \<Rightarrow> (case gather fx ixs ss of Inl e \<Rightarrow> Inl e | Inr vs \<Rightarrow> Inr (v # vs)))"

definition merge_sidecars :: "benv \<Rightarrow> 'i bucket \<Rightarrow> shard list \<Rightarrow> int set \<Rightarrow> sidecar" where
  "merge_sidecars env b ss keep =
     filter (\<lambda>(n, _). n \<in> keep)
       (foldl (\<lambda>d s. dict_update d (read_shard_sidecar (be_down env) b (sh_uri s))) [] ss)"

text \<open>The batches of 50,000 adds have the effect of one add; a count mismatch raises.\<close>

definition major_compaction ::
  "benv \<Rightarrow> 'i faiss \<Rightarrow> 'i world \<Rightarrow> key \<Rightarrow> time \<Rightarrow> fresh \<Rightarrow> (pyexc + uri option) \<times> 'i world" where
  "major_compaction env fx w k now fr =
     (case live_generation (w_cat w) k of
        None \<Rightarrow> (Inr None, w)
      | Some g \<Rightarrow>
         (let base = g_base g; ordered = gen_rows g in
          if g_deltas g = [] then (Inr None, w)
          else if sh_index_type base \<noteq> ''ivfflat'' \<or> sh_qver base < 1 then (Inr None, w)
          else case load_all env fx (w_bucket w) ordered of
              Inl e \<Rightarrow> (Inl e, w)
            | Inr loaded \<Rightarrow>
               (let final = final_marks 0 (zip (map (fx_native_ids fx) loaded) (map sh_tombs ordered)) [];
                    survivors = survivors_of final;
                    sc = merge_sidecars env (w_bucket w) ordered (fst ` set survivors)
                in if survivors = [] then (Inr None, w)
                   else case load_quantizer env w k (sh_qver base) of
                       (Inl e, w1) \<Rightarrow> (Inl e, w1)
                     | (Inr q, w1) \<Rightarrow>
                        (case gather fx loaded survivors of
                           Inl e \<Rightarrow> (Inl e, w1)
                         | Inr vs \<Rightarrow>
                            (case fx_add fx (fx_clone fx q) (map fst survivors) vs of
                               Inl e \<Rightarrow> (Inl e, w1)
                             | Inr ix \<Rightarrow>
                                 if fx_ntotal fx ix \<noteq> int (length survivors)
                                 then (Inl (RuntimeError ''major compaction id-count mismatch''), w1)
                                 else
                                   let hi = Max (set (map shard_frontier ordered));
                                       r = lift_uri (write_shard env w1 k ix sc (fx_ntotal fx ix) ''ivfflat''
                                             (base_args hi (sh_qver base)) now fr)
                                   in case r of
                                        (Inl e, w2) \<Rightarrow> (Inl e, w2)
                                      | (Inr u, w2) \<Rightarrow>
                                          (Inr u, mark_build w2 ''major_compaction'' (int (length survivors)) []))))))"

definition maybe_major_compaction :: "benv \<Rightarrow> 'i faiss \<Rightarrow> 'i world \<Rightarrow> key \<Rightarrow> time \<Rightarrow> fresh \<Rightarrow> 'i world" where
  "maybe_major_compaction env fx w k now fr =
     (if \<not> be_delta_tier env then w
      else case live_generation (w_cat w) k of
        None \<Rightarrow> w
      | Some g \<Rightarrow>
         (let n = int (length (g_deltas g)) in
          if n < be_max_deltas_hard env \<and> n < be_max_deltas env then w
          else case major_compaction env fx w k now fr of
              (Inl _, w1) \<Rightarrow> w1
            | (Inr None, w1) \<Rightarrow> w1
            | (Inr (Some _), w1) \<Rightarrow> sweep_superseded_shards env w1 k))"

section \<open>One consolidation\<close>

definition build_consolidated_shard ::
  "benv \<Rightarrow> 'i faiss \<Rightarrow> 'i world \<Rightarrow> key \<Rightarrow> shard option \<Rightarrow> snap list \<Rightarrow> vid list \<Rightarrow> int \<Rightarrow> time \<Rightarrow> fresh
   \<Rightarrow> (pyexc + uri option) \<times> 'i world" where
  "build_consolidated_shard env fx w k latest live tomb_ids lsn now fr =
     (if delta_tier_applies env (w_cat w) latest
      then build_delta_fold env fx w k live tomb_ids lsn now fr
      else build_plain_fold env fx w k latest live tomb_ids lsn now fr)"

text \<open>The rows a delta fold still has to fold: those above the live generation's frontier.\<close>

definition above_frontier :: "benv \<Rightarrow> catalog \<Rightarrow> key \<Rightarrow> shard option \<Rightarrow> snap list \<Rightarrow> snap list" where
  "above_frontier env c k latest rows =
     (if delta_tier_applies env c latest then
        let frontier = (case live_generation c k of None \<Rightarrow> 0
              | Some g \<Rightarrow> Max (set (map shard_frontier (gen_rows g))))
        in if frontier > 0 then filter (\<lambda>r. s_lsn r > frontier) rows else rows
      else rows)"

definition run_consolidate_locked ::
  "benv \<Rightarrow> 'i faiss \<Rightarrow> 'i world \<Rightarrow> key \<Rightarrow> time \<Rightarrow> fresh \<Rightarrow> fresh \<Rightarrow> int \<times> 'i world" where
  "run_consolidate_locked env fx w k now fr fr' =
     (case recall_snapshot_for_consolidation (be_pg env) (be_recall env) (w_recall w) k of
        Inl e \<Rightarrow> (0, set_status w k ''error'' (Some (''consolidate snapshot: '' @ exc_text e)) None now)
      | Inr (max_lsn, recall_rows) \<Rightarrow>
          if max_lsn = 0 \<or> recall_rows = [] then (0, w)
          else
            let latest = get_latest_shard (w_cat w) k;
                rows = above_frontier env (w_cat w) k latest recall_rows;
                live = live_of rows
            in case build_consolidated_shard env fx w k latest live (dead_ids rows) max_lsn now fr of
                 (Inl e, w1) \<Rightarrow> (0, build_error w1 k ''consolidate build: '' e now)
               | (Inr None, w1) \<Rightarrow> (0, w1)
               | (Inr (Some _), w1) \<Rightarrow>
                   (let w2 = sweep_superseded_shards env (set_status w1 k ''indexed'' None (Some now) now) k;
                        w3 = maybe_major_compaction env fx w2 k now fr';
                        grace = grace_watermark (w_cat w3) k (be_keep env);
                        w4 = w3\<lparr>w_recall := snd (recall_trim (be_recall env) (w_recall w3) k grace)\<rparr>
                    in (int (length live), mark_build w4 ''consolidate'' (int (length live)) [])))"

definition run_consolidate_once ::
  "benv \<Rightarrow> 'i faiss \<Rightarrow> bool \<Rightarrow> 'i world \<Rightarrow> key \<Rightarrow> time \<Rightarrow> fresh \<Rightarrow> fresh \<Rightarrow> int \<times> 'i world" where
  "run_consolidate_once env fx acquired w k now fr fr' =
     (if \<not> recall_enabled (be_recall env) then (0, w)
      else if \<not> acquired then (BUILD_SKIPPED, w)
      else run_consolidate_locked env fx w k now fr fr')"

section \<open>The worker\<close>

text \<open>Consolidate-on-idle: at most one sweep per idle window, one CONSOLIDATE per idle partition.\<close>

definition maybe_sweep_idle_recall :: "benv \<Rightarrow> 'i world \<Rightarrow> time \<Rightarrow> (nat \<Rightarrow> string) \<Rightarrow> 'i world" where
  "maybe_sweep_idle_recall env w now msgs =
     (if \<not> recall_enabled (be_recall env) then w
      else if now - w_swept_at w < be_idle env then w
      else
        let parts = recall_idle_partitions (be_recall env) (w_recall w) now (be_idle env);
            q = foldl (\<lambda>q (n, k). publish (be_queue env) q ''CONSOLIDATE''
                  [(''tenant'', JStr (fst k)), (''dataset'', JStr (snd k))] (msgs n) []) (w_queue w) (enumerate 0 parts)
        in w\<lparr>w_swept_at := now, w_queue := q\<rparr>)"

text \<open>
  \<open>_dispatch\<close>: a handler that raised (None) or reports the job skipped is nacked, a finished one acked.
\<close>

definition dispatch_done :: "benv \<Rightarrow> 'i world \<Rightarrow> message \<Rightarrow> bool option \<Rightarrow> string \<Rightarrow> 'i world" where
  "dispatch_done env w msg handled fresh_id =
     (if handled = Some True then w\<lparr>w_queue := ack (be_queue env) (w_queue w) (Some msg)\<rparr>
      else w\<lparr>w_queue := snd (nack (be_queue env) (w_queue w) (Some msg) True fresh_id [])\<rparr>)"

definition msg_key :: "message \<Rightarrow> key option" where
  "msg_key msg =
     (case dget (msg_payload msg) ''dataset'' of
        Some (JStr d) \<Rightarrow> Some (case dget (msg_payload msg) ''tenant'' of Some (JStr t) \<Rightarrow> t | _ \<Rightarrow> ''default'', d)
      | _ \<Rightarrow> None)"

definition handle_delete_vectors ::
  "benv \<Rightarrow> 'i faiss \<Rightarrow> bool \<Rightarrow> 'i world \<Rightarrow> message \<Rightarrow> time \<Rightarrow> fresh \<Rightarrow> bool option \<times> 'i world" where
  "handle_delete_vectors env fx acquired w msg now fr =
     (case msg_key msg of
        None \<Rightarrow> (None, w)
      | Some k \<Rightarrow>
         (case dget (msg_payload msg) ''id'' of
            Some (JStr i) \<Rightarrow>
              if i = [] then (Some True, w)
              else let (r, w1) = run_delete_once env fx acquired w k i now fr in (Some (r \<noteq> BUILD_SKIPPED), w1)
          | _ \<Rightarrow> (Some True, w)))"

definition handle_consolidate ::
  "benv \<Rightarrow> 'i faiss \<Rightarrow> bool \<Rightarrow> 'i world \<Rightarrow> message \<Rightarrow> time \<Rightarrow> fresh \<Rightarrow> fresh \<Rightarrow> bool option \<times> 'i world" where
  "handle_consolidate env fx acquired w msg now fr fr' =
     (case msg_key msg of
        None \<Rightarrow> (None, w)
      | Some k \<Rightarrow> let (r, w1) = run_consolidate_once env fx acquired w k now fr fr' in (Some (r \<noteq> BUILD_SKIPPED), w1))"

end
