(* ===== verification/Builder_Correct.thy ===== *)
theory Builder_Correct
  imports Consolidate
begin

text \<open>
  What a shard holds, as a map from int64 ids to records (\<open>doc_at\<close>) and from ids to documents
  (\<open>ix_docs\<close>), and what the builder's index operations do to it: all of them replace a set of
  entries by new ones (\<open>merged\<close>).
\<close>

section \<open>Contents of an index with its sidecar\<close>

definition doc_at :: "'i faiss \<Rightarrow> 'i \<Rightarrow> sidecar \<Rightarrow> int \<Rightarrow> (string \<times> doc) option" where
  "doc_at fx ix sc n =
     (case fx_id_map fx ix of
        None \<Rightarrow> None
      | Some ids \<Rightarrow>
          if n \<notin> set ids then None
          else (case (fx_reconstruct fx ix n, dget sc n) of
                  (Inr v, Some (raw, md)) \<Rightarrow> Some (raw, (v, md))
                | _ \<Rightarrow> None))"

definition entry_docs :: "benv \<Rightarrow> (int \<Rightarrow> (string \<times> doc) option) \<Rightarrow> vid \<Rightarrow> doc option" where
  "entry_docs env entries v =
     (case entries (id64 env v) of None \<Rightarrow> None | Some (raw, d) \<Rightarrow> if raw = v then Some d else None)"

definition ix_docs :: "benv \<Rightarrow> 'i faiss \<Rightarrow> 'i \<Rightarrow> sidecar \<Rightarrow> vid \<Rightarrow> doc option" where
  "ix_docs env fx ix sc = entry_docs env (doc_at fx ix sc)"

text \<open>A well-formed shard: distinct ids, the dataset's width, and a sidecar entry for every id.\<close>

definition ix_ok :: "benv \<Rightarrow> 'i faiss \<Rightarrow> int \<Rightarrow> 'i \<Rightarrow> sidecar \<Rightarrow> int list \<Rightarrow> bool" where
  "ix_ok env fx dm ix sc ids \<longleftrightarrow> holds fx ix ids \<and> distinct ids \<and> fx_d fx ix = dm \<and>
     (\<forall>n \<in> set ids. \<exists>raw md. dget sc n = Some (raw, md) \<and> id64 env raw = n)"

definition merged :: "(int \<Rightarrow> 'd option) \<Rightarrow> int set \<Rightarrow> (int \<Rightarrow> 'd option) \<Rightarrow> int \<Rightarrow> 'd option" where
  "merged new gone old n = (case new n of Some d \<Rightarrow> Some d | None \<Rightarrow> if n \<in> gone then None else old n)"

definition new_docs :: "benv \<Rightarrow> string list \<Rightarrow> vec list \<Rightarrow> meta list \<Rightarrow> int \<Rightarrow> (string \<times> doc) option" where
  "new_docs env ids vs metas = map_of (zip (map (id64 env) ids) (zip ids (zip vs metas)))"

lemma holdsD:
  "holds fx ix ids \<Longrightarrow> fx_id_map fx ix = Some ids"
  "holds fx ix ids \<Longrightarrow> fx_ntotal fx ix = int (length ids)"
  "holds fx ix ids \<Longrightarrow> n \<in> set ids \<Longrightarrow> \<exists>v. fx_reconstruct fx ix n = Inr v \<and> int (length v) = fx_d fx ix"
  by (simp_all add: holds_def)

lemma doc_at_None: "holds fx ix ids \<Longrightarrow> n \<notin> set ids \<Longrightarrow> doc_at fx ix sc n = None"
  by (simp add: doc_at_def holdsD)

lemma doc_at_in:
  "holds fx ix ids \<Longrightarrow> n \<in> set ids \<Longrightarrow> fx_reconstruct fx ix n = Inr v \<Longrightarrow> dget sc n = Some (raw, md) \<Longrightarrow>
   doc_at fx ix sc n = Some (raw, (v, md))"
  by (simp add: doc_at_def holdsD)

lemma doc_at_dom:
  assumes "ix_ok env fx dm ix sc ids"
  shows "doc_at fx ix sc n = None \<longleftrightarrow> n \<notin> set ids"
proof
  assume n: "doc_at fx ix sc n = None"
  show "n \<notin> set ids"
  proof
    assume "n \<in> set ids"
    moreover from this obtain raw md where "dget sc n = Some (raw, md)" using assms by (auto simp: ix_ok_def)
    moreover from \<open>n \<in> set ids\<close> obtain v where "fx_reconstruct fx ix n = Inr v"
      using assms holdsD(3)[of fx ix ids n] by (auto simp: ix_ok_def)
    ultimately have "doc_at fx ix sc n \<noteq> None"
      using assms doc_at_in[of fx ix ids n v sc raw md] by (simp add: ix_ok_def)
    with n show False by simp
  qed
qed (use assms doc_at_None[of fx ix ids n sc] in \<open>simp add: ix_ok_def\<close>)

lemma doc_at_id64: "ix_ok env fx dm ix sc ids \<Longrightarrow> doc_at fx ix sc n = Some (raw, d) \<Longrightarrow> id64 env raw = n"
  by (auto simp: doc_at_def ix_ok_def holdsD(1) split: option.splits if_splits sum.splits)

section \<open>Dictionaries built from lists\<close>

lemma dget_dict_update:
  "dkeys_ok d' \<Longrightarrow> dget (dict_update d d') n = (case dget d' n of None \<Rightarrow> dget d n | Some v \<Rightarrow> Some v)"
proof (induction d' arbitrary: d)
  case (Cons p d')
  obtain k v where p: "p = (k, v)" by fastforce
  have "dget (dict_update d (p # d')) n = dget (dict_update (dset k v d) d') n" by (simp add: dict_update_def p)
  also have "\<dots> = (case dget d' n of None \<Rightarrow> dget (dset k v d) n | Some v \<Rightarrow> Some v)"
    using Cons by (simp add: dkeys_ok_def)
  also have "\<dots> = (case dget (p # d') n of None \<Rightarrow> dget d n | Some v \<Rightarrow> Some v)"
  proof (cases "n = k")
    case True
    then have "dget d' n = None" using Cons.prems p by (simp add: dkeys_ok_def map_of_eq_None_iff)
    with True p show ?thesis by (simp add: pdict_simps)
  qed (simp add: p pdict_simps split: option.split)
  finally show ?case .
qed (simp add: dict_update_def)

lemma dget_dict_zip:
  assumes "distinct ns" and "length ns = length es"
  shows "dget (dict_update [] (zip ns es)) n = map_of (zip ns es) n"
proof -
  have "dkeys_ok (zip ns es)" using assms by (simp add: dkeys_ok_def)
  from dget_dict_update[OF this, of "[]" n] show ?thesis
    by (cases "map_of (zip ns es) n") (simp_all only: option.case map_of.simps)
qed

lemma sidecar_add_zip:
  "length ids = length metas \<Longrightarrow>
   sidecar_add env sc (zip ids metas) = dict_update sc (zip (map (id64 env) ids) (zip ids metas))"
proof (induction ids metas arbitrary: sc rule: list_induct2)
  case (Cons i ids md metas)
  then show ?case by (simp add: sidecar_add_def dict_update_def)
qed (simp add: sidecar_add_def dict_update_def)

lemma dget_sidecar_dict:
  assumes "length ids = length metas" and "distinct (map (id64 env) ids)"
  shows "dget (sidecar_dict env ids metas) n = map_of (zip (map (id64 env) ids) (zip ids metas)) n"
  unfolding sidecar_dict_def sidecar_add_zip[OF assms(1)]
  using assms by (intro dget_dict_zip) simp_all

lemma dkeys_sidecar_dict:
  assumes "length ids = length metas" and "distinct (map (id64 env) ids)"
  shows "dkeys_ok (sidecar_dict env ids metas)"
proof -
  have "dkeys_ok (foldl (\<lambda>acc (k, v). dset k v acc) d xs)" if "dkeys_ok d" for d :: sidecar and xs
    using that by (induction xs arbitrary: d) auto
  then show ?thesis unfolding sidecar_dict_def sidecar_add_zip[OF assms(1)] dict_update_def by simp
qed

lemma map_of_zip_None: "length ns = length es \<Longrightarrow> map_of (zip ns es) n = None \<longleftrightarrow> n \<notin> set ns"
  by (rule map_of_zip_is_None)

lemma new_docs_nth:
  assumes "length ids = length vs" and "length ids = length metas" and "distinct (map (id64 env) ids)" and "j < length ids"
  shows "new_docs env ids vs metas (id64 env (ids ! j)) = Some (ids ! j, (vs ! j, metas ! j))"
proof -
  have "new_docs env ids vs metas (map (id64 env) ids ! j) = Some (zip ids (zip vs metas) ! j)"
    unfolding new_docs_def using assms by (intro map_of_zip_nth) simp_all
  then show ?thesis using assms by simp
qed

lemma new_docs_None:
  "length ids = length vs \<Longrightarrow> length ids = length metas \<Longrightarrow>
   new_docs env ids vs metas n = None \<longleftrightarrow> n \<notin> id64 env ` set ids"
  by (simp add: new_docs_def map_of_zip_None)

section \<open>Fresh builds\<close>

lemma choose_nlist_le: "1 \<le> n \<Longrightarrow> choose_nlist env n \<le> n"
  by (auto simp: choose_nlist_def Let_def)

lemma choose_nlist_ge: "1 \<le> choose_nlist env n"
  by (simp add: choose_nlist_def Let_def)

lemma use_ivf_pos: "use_ivf env n \<Longrightarrow> 1 \<le> n"
  by (auto simp: use_ivf_def choose_nlist_def Let_def min_def max_def split: if_splits)

lemma build_fresh_ok:
  assumes laws: "faiss_laws fx" and dm: "0 < dm" and w: "row_width dm vs" and len: "length ids = length vs"
    and dst: "distinct ids"
  shows "\<exists>ix ty. build_fresh env fx (dm, vs) ids = Inr (ix, ty) \<and> holds fx ix ids \<and> fx_d fx ix = dm \<and>
    (\<forall>j < length ids. fx_reconstruct fx ix (ids ! j) = Inr (vs ! j))"
proof (cases "use_ivf env (int (length vs))")
  case True
  have le: "choose_nlist env (int (length vs)) \<le> int (length vs)"
    using choose_nlist_le[OF use_ivf_pos[OF True]] .
  obtain inner where i: "fx_ivf_train fx dm (choose_nlist env (int (length vs))) vs = Inr inner"
    "holds fx (fx_wrap fx inner) []" "fx_d fx (fx_wrap fx inner) = dm"
    using train_law[OF laws dm choose_nlist_ge le w] by blast
  obtain ix where "fx_add fx (fx_wrap fx inner) ids vs = Inr ix" "ix_added fx (fx_wrap fx inner) [] ids vs ix"
    using add_law[OF laws i(2) len _ dst] w i(3) by auto
  with True i show ?thesis
    by (auto simp: build_fresh_def build_ivfflat_def ix_added_def)
next
  case False
  have f: "holds fx (fx_flat fx dm) []" "fx_d fx (fx_flat fx dm) = dm" using flat_law[OF laws] by auto
  obtain ix where "fx_add fx (fx_flat fx dm) ids vs = Inr ix" "ix_added fx (fx_flat fx dm) [] ids vs ix"
    using add_law[OF laws f(1) len _ dst] w f(2) by auto
  with False f show ?thesis by (auto simp: build_fresh_def build_flat_def ix_added_def)
qed

lemma reconstruct_surviving_ok:
  assumes "holds fx ix ids" and "set ns \<subseteq> set ids"
  shows "\<exists>vs. reconstruct_surviving fx ix ns = Inr vs \<and> length vs = length ns \<and> row_width (fx_d fx ix) vs \<and>
    (\<forall>j < length ns. fx_reconstruct fx ix (ns ! j) = Inr (vs ! j))"
  using assms(2)
proof (induction ns)
  case (Cons n ns)
  obtain v where v: "fx_reconstruct fx ix n = Inr v" "int (length v) = fx_d fx ix"
    using holdsD(3)[OF assms(1)] Cons.prems by auto
  obtain vs where vs: "reconstruct_surviving fx ix ns = Inr vs" "length vs = length ns"
    "row_width (fx_d fx ix) vs" "\<forall>j < length ns. fx_reconstruct fx ix (ns ! j) = Inr (vs ! j)"
    using Cons by auto
  have "\<forall>j < length (n # ns). fx_reconstruct fx ix ((n # ns) ! j) = Inr ((v # vs) ! j)"
    using v vs(4) by (auto simp: nth_Cons split: nat.split)
  with v vs show ?case by (intro exI[of _ "v # vs"]) (simp add: row_width_def)
qed (simp add: row_width_def)


section \<open>The three index updates\<close>

text \<open>What the code relies on of Python's sets: each element once, in some order.\<close>

definition set_order_ok :: "benv \<Rightarrow> bool" where
  "set_order_ok env \<longleftrightarrow> (\<forall>xs. distinct (be_set env xs) \<and> set (be_set env xs) = set xs)"

text \<open>A batch of new entries, of the dataset's width and with distinct int64 ids.\<close>

definition batch_ok :: "benv \<Rightarrow> int \<Rightarrow> string list \<Rightarrow> vec list \<Rightarrow> meta list \<Rightarrow> bool" where
  "batch_ok env dm ids vs metas \<longleftrightarrow> length ids = length vs \<and> length ids = length metas \<and>
     row_width dm vs \<and> distinct (map (id64 env) ids)"

text \<open>An index built from scratch out of parallel lists of int64 ids, records and vectors.\<close>

lemma doc_at_fresh:
  assumes h: "holds fx ix ns" and dst: "distinct ns" and len: "length ns = length es" "length ns = length vs"
    and r: "\<forall>j < length ns. fx_reconstruct fx ix (ns ! j) = Inr (vs ! j)"
  shows "doc_at fx ix (dict_update [] (zip ns es)) n =
    map_of (zip ns (zip (map fst es) (zip vs (map snd es)))) n"
proof (cases "n \<in> set ns")
  case True
  then obtain j where j: "j < length ns" "n = ns ! j" by (auto simp: in_set_conv_nth)
  have "dget (dict_update [] (zip ns es)) n = Some (es ! j)"
    using dget_dict_zip[OF dst len(1), of n] map_of_zip_nth[OF len(1) dst, of j] j len by simp
  then have "doc_at fx ix (dict_update [] (zip ns es)) n = Some (fst (es ! j), (vs ! j, snd (es ! j)))"
    using doc_at_in[OF h True, of "vs ! j"] r j by (cases "es ! j") simp
  moreover have "map_of (zip ns (zip (map fst es) (zip vs (map snd es)))) n =
      Some (zip (map fst es) (zip vs (map snd es)) ! j)"
    unfolding j(2) using dst len j by (intro map_of_zip_nth) simp_all
  ultimately show ?thesis using j len by simp
next
  case False
  have "map_of (zip ns (zip (map fst es) (zip vs (map snd es)))) n = None"
    using map_of_zip_is_None[of ns "zip (map fst es) (zip vs (map snd es))" n] len False by simp
  then show ?thesis using doc_at_None[OF h False] by (simp only:)
qed

text \<open>Entries kept from an old index, followed by new ones.\<close>

lemma map_of_kept_new:
  assumes lens: "length os = length xs" and d: "distinct os"
    and old: "\<And>j. j < length os \<Longrightarrow> old (os ! j) = Some (xs ! j)"
    and new: "set os \<inter> set ns = {}" and gone: "set os \<inter> gone = {}"
    and rest: "\<And>n. n \<notin> set os \<Longrightarrow> n \<in> gone \<or> old n = None"
    and len2: "length ns = length ys"
  shows "map_of (zip (os @ ns) (xs @ ys)) n = merged (map_of (zip ns ys)) gone old n"
proof (cases "n \<in> set os")
  case True
  then obtain j where j: "j < length os" "n = os ! j" by (auto simp: in_set_conv_nth)
  have new_none: "map_of (zip ns ys) n = None" using True new map_of_zip_is_None[OF len2, of n] by auto
  have "map_of (zip os xs) n = Some (xs ! j)" unfolding j(2) using map_of_zip_nth[OF lens d, of j] lens j by simp
  then have "map_of (zip (os @ ns) (xs @ ys)) n = Some (xs ! j)"
    using new_none by (simp add: zip_append[OF lens] map_add_def)
  moreover have "n \<notin> gone" using True gone by auto
  ultimately show ?thesis using new_none old[OF j(1)] j(2) by (simp add: merged_def)
next
  case False
  have o: "map_of (zip os xs) n = None" using map_of_zip_is_None[OF lens, of n] False by simp
  have "map_of (zip (os @ ns) (xs @ ys)) n = map_of (zip ns ys) n"
    using o by (simp add: zip_append[OF lens] map_add_def split: option.split)
  then show ?thesis using rest[OF False] by (cases "map_of (zip ns ys) n") (auto simp: merged_def)
qed

lemma union_rebuild_ok:
  assumes laws: "faiss_laws fx" and so: "set_order_ok env" and dm: "0 < dm"
    and ok: "ix_ok env fx dm ix sc existing"
    and b: "batch_ok env dm ids vs metas"
    and m: "m = (if ids = [] then m else (dm, vs))" "ids = [] \<longrightarrow> snd m = []"
    and drop: "set (map (id64 env) ids) \<inter> set existing \<subseteq> gone"
  shows "\<exists>ix' sc' ty ns. union_rebuild env fx ix existing sc gone ids m metas (ids \<noteq> []) =
      Inr (ix', sc', ty, int (length ns)) \<and> ix_ok env fx dm ix' sc' ns \<and>
    set ns = (set existing - gone) \<union> id64 env ` set ids \<and>
    (\<forall>n. doc_at fx ix' sc' n = merged (new_docs env ids vs metas) gone (doc_at fx ix sc) n)"
proof -
  let ?old = "filter (\<lambda>n. n \<notin> gone) (be_set env existing)"
  let ?ints = "map (id64 env) ids"
  let ?ns = "?old @ ?ints"
  let ?es = "map (survivor_entry sc) ?old @ zip ids metas"
  have h: "holds fx ix existing" and d: "fx_d fx ix = dm" using ok by (simp_all add: ix_ok_def)
  have len: "length ids = length vs" "length ids = length metas" and w: "row_width dm vs" and di: "distinct ?ints"
    using b by (simp_all add: batch_ok_def)
  have so1: "distinct (be_set env existing)" "set (be_set env existing) = set existing"
    using so by (simp_all add: set_order_ok_def)
  have sub: "set ?old \<subseteq> set existing" using so1 by auto
  obtain ws where ws: "reconstruct_surviving fx ix ?old = Inr ws" "length ws = length ?old"
    "row_width dm ws" "\<forall>j < length ?old. fx_reconstruct fx ix (?old ! j) = Inr (ws ! j)"
    using reconstruct_surviving_ok[OF h sub] d by auto
  have um: "union_matrix (fx_d fx ix, ws) m (ids \<noteq> []) = Inr (dm, ws @ vs)"
    using m len d by (cases "ids = []") (auto simp: union_matrix_def stack_def)
  have dst: "distinct ?ns" using so1 di drop by auto
  have ln: "length ?ns = length (ws @ vs)" "length ?ns = length ?es" using ws(2) len by simp_all
  have rw: "row_width dm (ws @ vs)" using ws(3) w by (auto simp: row_width_def)
  obtain ix' ty where ix': "build_fresh env fx (dm, ws @ vs) ?ns = Inr (ix', ty)" "holds fx ix' ?ns"
    "fx_d fx ix' = dm" "\<forall>j < length ?ns. fx_reconstruct fx ix' (?ns ! j) = Inr ((ws @ vs) ! j)"
    using build_fresh_ok[OF laws dm rw ln(1) dst] by blast
  let ?sc' = "dict_update [] (zip ?ns ?es)"
  have u: "union_rebuild env fx ix existing sc gone ids m metas (ids \<noteq> []) =
      Inr (ix', ?sc', ty, int (length (ws @ vs)))"
    by (simp only: union_rebuild_def Let_def ws(1) um sum.case ix'(1) prod.case snd_conv)
  have entry: "\<exists>md. survivor_entry sc n = (fst (survivor_entry sc n), md) \<and> dget sc n = Some (survivor_entry sc n) \<and>
      id64 env (fst (survivor_entry sc n)) = n" if "n \<in> set ?old" for n
  proof -
    have "n \<in> set existing" using that sub by auto
    then obtain raw md where "dget sc n = Some (raw, md)" "id64 env raw = n" using ok by (auto simp: ix_ok_def)
    then show ?thesis by (simp add: survivor_entry_def)
  qed
  let ?xs = "zip (map fst (map (survivor_entry sc) ?old)) (zip ws (map snd (map (survivor_entry sc) ?old)))"
  have old_at: "doc_at fx ix sc (?old ! j) = Some (?xs ! j)" if "j < length ?old" for j
  proof -
    have "?old ! j \<in> set ?old" using that by (rule nth_mem)
    with sub have mem: "?old ! j \<in> set existing" by blast
    have r: "fx_reconstruct fx ix (?old ! j) = Inr (ws ! j)" using ws(4) that by blast
    have "?xs ! j = (fst (survivor_entry sc (?old ! j)), (ws ! j, snd (survivor_entry sc (?old ! j))))"
      using ws(2) that by simp
    moreover obtain raw md where e: "survivor_entry sc (?old ! j) = (raw, md)" by fastforce
    moreover have "dget sc (?old ! j) = Some (raw, md)"
      using entry[OF \<open>?old ! j \<in> set ?old\<close>] e by auto
    ultimately show ?thesis using doc_at_in[OF h mem r, of sc raw md] by (simp only: fst_conv snd_conv)
  qed
  have docs: "doc_at fx ix' ?sc' n = merged (new_docs env ids vs metas) gone (doc_at fx ix sc) n" for n
  proof -
    have "doc_at fx ix' ?sc' n = map_of (zip ?ns (zip (map fst ?es) (zip (ws @ vs) (map snd ?es)))) n"
      by (rule doc_at_fresh[OF ix'(2) dst ln(2,1) ix'(4)])
    also have "zip (map fst ?es) (zip (ws @ vs) (map snd ?es)) = ?xs @ zip ids (zip vs metas)"
      using ws(2) len by (simp add: zip_append)
    also have "map_of (zip ?ns (?xs @ zip ids (zip vs metas))) n =
        merged (map_of (zip ?ints (zip ids (zip vs metas)))) gone (doc_at fx ix sc) n"
    proof (rule map_of_kept_new[OF _ _ old_at])
      show "length ?old = length ?xs" using ws(2) by simp
      show "distinct ?old" using so1 by simp
      show "set ?old \<inter> set ?ints = {}" using dst by auto
      show "set ?old \<inter> gone = {}" by auto
      show "length ?ints = length (zip ids (zip vs metas))" using len by simp
      fix n
      assume "n \<notin> set ?old"
      then have "n \<notin> set existing \<or> n \<in> gone" using so1 by auto
      then show "n \<in> gone \<or> doc_at fx ix sc n = None" using doc_at_None[OF h, of n sc] by auto
    qed
    finally show ?thesis by (simp only: new_docs_def)
  qed
  have "ix_ok env fx dm ix' ?sc' ?ns"
    unfolding ix_ok_def
  proof (intro conjI ballI ix'(2,3) dst)
    fix n
    assume "n \<in> set ?ns"
    then obtain j where j: "j < length ?ns" "n = ?ns ! j" by (metis in_set_conv_nth)
    have "j < length ?es" using j(1) ln(2) by (simp only:)
    then have e: "dget ?sc' n = Some (?es ! j)"
      unfolding dget_dict_zip[OF dst ln(2)] j(2) by (rule map_of_zip_nth[OF ln(2) dst])
    have "id64 env (fst (?es ! j)) = n"
    proof (cases "j < length ?old")
      case True
      then have "?ns ! j = ?old ! j" "?es ! j = survivor_entry sc (?old ! j)" by (simp_all add: nth_append)
      with j entry[of "?old ! j"] True show ?thesis by (metis nth_mem)
    next
      case False
      then have "?ns ! j = ?ints ! (j - length ?old)" "?es ! j = zip ids metas ! (j - length ?old)"
        by (simp_all add: nth_append)
      with j False len show ?thesis by simp
    qed
    with e show "\<exists>raw md. dget ?sc' n = Some (raw, md) \<and> id64 env raw = n" by (cases "?es ! j") auto
  qed
  moreover have "set ?ns = (set existing - gone) \<union> id64 env ` set ids" using so1 by auto
  ultimately show ?thesis using u docs ln(1) by (intro exI[of _ ix'] exI[of _ ?sc'] exI[of _ ty] exI[of _ ?ns]) auto
qed

text \<open>An in-place add of new ids, with their sidecar entries.\<close>

lemma doc_at_keep:
  assumes "holds fx ix ids" and "holds fx ix' ids'" and "n \<in> set ids" and "n \<in> set ids'"
    and "fx_reconstruct fx ix' n = fx_reconstruct fx ix n" and "dget sc' n = dget sc n"
  shows "doc_at fx ix' sc' n = doc_at fx ix sc n"
  using assms by (simp add: doc_at_def holdsD(1))

lemma add_in_place_ok:
  assumes laws: "faiss_laws fx" and ok: "ix_ok env fx dm ix sc existing" and b: "batch_ok env dm ids vs metas"
    and new: "set (map (id64 env) ids) \<inter> set existing = {}"
  defines "sc' \<equiv> dict_update sc (sidecar_dict env ids metas)"
  shows "\<exists>ix'. add_to_index fx ix (dm, vs) (map (id64 env) ids) = Inr ix' \<and>
    ix_ok env fx dm ix' sc' (existing @ map (id64 env) ids) \<and> fx_ivf fx ix' = fx_ivf fx ix \<and>
    (\<forall>n. doc_at fx ix' sc' n = merged (new_docs env ids vs metas) {} (doc_at fx ix sc) n)"
proof -
  let ?ints = "map (id64 env) ids"
  have h: "holds fx ix existing" and d: "fx_d fx ix = dm" and de: "distinct existing" using ok by (simp_all add: ix_ok_def)
  have len: "length ids = length vs" "length ids = length metas" and w: "row_width dm vs" and di: "distinct ?ints"
    using b by (simp_all add: batch_ok_def)
  have lv: "length ?ints = length vs" and wd: "row_width (fx_d fx ix) vs" using len w d by simp_all
  obtain ix' where a: "fx_add fx ix ?ints vs = Inr ix'" and ad: "ix_added fx ix existing ?ints vs ix'"
    using add_law[OF laws h lv wd di new] by blast
  have h': "holds fx ix' (existing @ ?ints)" using ad by (simp add: ix_added_def)
  have sc': "dget sc' n = (case map_of (zip ?ints (zip ids metas)) n of None \<Rightarrow> dget sc n | Some v \<Rightarrow> Some v)" for n
    unfolding sc'_def dget_dict_update[OF dkeys_sidecar_dict[OF len(2) di]] dget_sidecar_dict[OF len(2) di] ..
  have old: "dget sc' n = dget sc n" if "n \<in> set existing" for n
  proof -
    have "n \<notin> set ?ints" using that new by blast
    then have "map_of (zip ?ints (zip ids metas)) n = None" using len(2) by (simp add: map_of_zip_is_None)
    then show ?thesis by (simp add: sc')
  qed
  have fresh: "dget sc' (id64 env (ids ! j)) = Some (ids ! j, metas ! j)" if "j < length ids" for j
  proof -
    have "map_of (zip ?ints (zip ids metas)) (?ints ! j) = Some (zip ids metas ! j)"
      using that len(2) di by (intro map_of_zip_nth) simp_all
    then show ?thesis using that len(2) by (simp add: sc')
  qed
  have docs: "doc_at fx ix' sc' n = merged (new_docs env ids vs metas) {} (doc_at fx ix sc) n" for n
  proof (cases "n \<in> set ?ints")
    case True
    then obtain j where j: "j < length ids" "n = id64 env (ids ! j)" by (auto simp: in_set_conv_nth)
    have "fx_reconstruct fx ix' (?ints ! j) = Inr (vs ! j)" using ad j(1) by (simp add: ix_added_def)
    then have "doc_at fx ix' sc' n = Some (ids ! j, (vs ! j, metas ! j))"
      using doc_at_in[OF h', of n "vs ! j" sc' "ids ! j" "metas ! j"] True fresh[OF j(1)] j by simp
    then show ?thesis using new_docs_nth[OF len di j(1)] j(2) by (simp add: merged_def)
  next
    case False
    have nn: "new_docs env ids vs metas n = None" using False new_docs_None[OF len] by simp
    have "doc_at fx ix' sc' n = doc_at fx ix sc n"
    proof (cases "n \<in> set existing")
      case True
      moreover have "fx_reconstruct fx ix' n = fx_reconstruct fx ix n" using ad True by (simp add: ix_added_def)
      ultimately show ?thesis by (intro doc_at_keep[OF h h'] old) simp_all
    next
      case nex: False
      then show ?thesis using False doc_at_None[OF h nex, of sc] doc_at_None[OF h', of n sc'] by simp
    qed
    with nn show ?thesis by (simp add: merged_def)
  qed
  have sco: "\<exists>raw md. dget sc' n = Some (raw, md) \<and> id64 env raw = n" if "n \<in> set (existing @ ?ints)" for n
  proof (cases "n \<in> set existing")
    case True
    then show ?thesis using old[OF True] ok by (simp add: ix_ok_def)
  next
    case False
    then have "n \<in> set ?ints" using that by simp
    then obtain j where "j < length ids" "n = id64 env (ids ! j)" by (auto simp: in_set_conv_nth)
    then show ?thesis using fresh[of j] by simp
  qed
  have "ix_ok env fx dm ix' sc' (existing @ ?ints)"
    using h' de di new sco ad d by (auto simp: ix_ok_def ix_added_def)
  moreover have "add_to_index fx ix (dm, vs) ?ints = Inr ix'" using a d by (simp add: add_to_index_def)
  moreover have "fx_ivf fx ix' = fx_ivf fx ix" using ad by (simp add: ix_added_def)
  ultimately show ?thesis using docs by blast
qed

text \<open>A removal from a flat index; the sidecar may keep entries of the removed ids.\<close>

lemma remove_flat_ok:
  assumes laws: "faiss_laws fx" and ok: "ix_ok env fx dm ix sc existing" and flat: "\<not> fx_ivf fx ix"
    and sc': "\<And>n. n \<notin> set rm \<Longrightarrow> dget sc' n = dget sc n"
  shows "\<exists>ix'. remove_ids fx ix rm = Inr ix' \<and> \<not> fx_ivf fx ix' \<and>
    ix_ok env fx dm ix' sc' (filter (\<lambda>n. n \<notin> set rm) existing) \<and>
    (\<forall>n. doc_at fx ix' sc' n = merged Map.empty (set rm) (doc_at fx ix sc) n)"
proof -
  have h: "holds fx ix existing" using ok by (simp add: ix_ok_def)
  obtain ix' where r: "fx_remove fx ix rm = Inr ix'" and rd: "ix_removed fx ix existing rm ix'"
    using remove_law[OF laws h flat] by blast
  let ?keep = "filter (\<lambda>n. n \<notin> set rm) existing"
  have h': "holds fx ix' ?keep" using rd by (simp add: ix_removed_def)
  have "doc_at fx ix' sc' n = merged Map.empty (set rm) (doc_at fx ix sc) n" for n
  proof (cases "n \<in> set existing \<and> n \<notin> set rm")
    case True
    then have "doc_at fx ix' sc' n = doc_at fx ix sc n"
      using rd sc' by (intro doc_at_keep[OF h h']) (simp_all add: ix_removed_def)
    with True show ?thesis by (simp add: merged_def)
  next
    case False
    then have "doc_at fx ix' sc' n = None" using doc_at_None[OF h', of n sc'] by simp
    moreover have "n \<in> set rm \<or> doc_at fx ix sc n = None" using False doc_at_None[OF h, of n sc] by auto
    ultimately show ?thesis by (auto simp: merged_def)
  qed
  moreover have "ix_ok env fx dm ix' sc' ?keep"
    using ok rd h' sc' by (simp add: ix_ok_def ix_removed_def)
  moreover have "remove_ids fx ix rm = Inr ix'" using r by (simp add: remove_ids_def)
  ultimately show ?thesis using rd by (auto simp: ix_removed_def)
qed

end
