(* ===== verification/Fold_Correct.thy ===== *)
theory Fold_Correct
  imports Builder_Correct
begin

text \<open>
  The three ways a build changes a shard's contents, at the level of documents: the fold of recall
  rows, the delete of one id and the upsert of a landing batch, each for every index type and
  overlap case.
\<close>

section \<open>From entries to documents\<close>

lemma merged_gone_cong:
  "gone \<subseteq> gone' \<Longrightarrow> (\<And>n. n \<in> gone' \<Longrightarrow> n \<notin> gone \<Longrightarrow> old n = None) \<Longrightarrow> merged new gone old = merged new gone' old"
  by (rule ext) (auto simp: merged_def split: option.split)

definition batch_doc :: "string list \<Rightarrow> vec list \<Rightarrow> meta list \<Rightarrow> vid \<Rightarrow> doc option" where
  "batch_doc ids vs metas = map_of (zip ids (zip vs metas))"

lemma merged_docs:
  assumes b: "batch_ok env dm ids vs metas"
    and inj: "inj_on (id64 env) (insert v (set ids \<union> T))"
    and d: "doc_at fx ix' sc' (id64 env v) =
      merged (new_docs env ids vs metas) (id64 env ` (set ids \<union> T)) old (id64 env v)"
  shows "ix_docs env fx ix' sc' v =
    (case batch_doc ids vs metas v of Some x \<Rightarrow> Some x | None \<Rightarrow> if v \<in> T then None else entry_docs env old v)"
proof -
  have len: "length ids = length vs" "length ids = length metas" and di: "distinct (map (id64 env) ids)"
    using b by (simp_all add: batch_ok_def)
  have dst: "distinct ids" using di by (simp add: distinct_map)
  have mem: "id64 env v \<in> id64 env ` A \<longleftrightarrow> v \<in> A" if "A \<subseteq> set ids \<union> T" for A
    using that inj by (intro inj_on_image_mem_iff[of _ "insert v (set ids \<union> T)"]) auto
  show ?thesis
  proof (cases "v \<in> set ids")
    case True
    then obtain j where j: "j < length ids" "v = ids ! j" by (auto simp: in_set_conv_nth)
    have "map_of (zip ids (zip vs metas)) (ids ! j) = Some (zip vs metas ! j)"
      using len dst j(1) by (intro map_of_zip_nth) simp_all
    then have bd: "batch_doc ids vs metas v = Some (vs ! j, metas ! j)"
      using j len by (simp add: batch_doc_def)
    have "new_docs env ids vs metas (id64 env v) = Some (v, (vs ! j, metas ! j))"
      using new_docs_nth[OF len di j(1)] j(2) by simp
    then have "doc_at fx ix' sc' (id64 env v) = Some (v, (vs ! j, metas ! j))"
      using d by (simp add: merged_def)
    with bd show ?thesis by (simp add: ix_docs_def entry_docs_def)
  next
    case False
    have bd: "batch_doc ids vs metas v = None"
      unfolding batch_doc_def using False len by (simp add: map_of_zip_is_None)
    have nn: "new_docs env ids vs metas (id64 env v) = None"
      using False mem[of "set ids"] new_docs_None[OF len, of env "id64 env v"] by simp
    have "doc_at fx ix' sc' (id64 env v) = (if v \<in> T then None else old (id64 env v))"
      using d nn mem[of "set ids \<union> T"] False by (simp add: merged_def)
    with bd show ?thesis by (simp add: ix_docs_def entry_docs_def)
  qed
qed

section \<open>Stored shards\<close>

text \<open>Storage answers every request, and the shard prefix is a supported URI.\<close>

definition online :: "benv \<Rightarrow> bool" where
  "online env \<longleftrightarrow> (\<forall>u. \<not> be_down env u) \<and> has_scheme (be_indexes env)"

text \<open>A URI with an index and its sidecar, both well-formed.\<close>

definition stored :: "benv \<Rightarrow> 'i faiss \<Rightarrow> int \<Rightarrow> 'i bucket \<Rightarrow> uri \<Rightarrow> 'i \<Rightarrow> sidecar \<Rightarrow> int list \<Rightarrow> bool" where
  "stored env fx dm b u ix sc ids \<longleftrightarrow> has_scheme u \<and> dget b u = Some (IndexB ix) \<and>
     dget b (sidecar_uri u) = Some (SidecarB sc) \<and> ix_ok env fx dm ix sc ids"

lemma starts_with_append: "starts_with p u \<Longrightarrow> starts_with p (u @ v)"
  by (auto simp: starts_with_def take_append dest: arg_cong[where f = length])

lemma has_scheme_append: "has_scheme u \<Longrightarrow> has_scheme (u @ v)"
  by (auto simp: has_scheme_def starts_with_append)

lemma has_scheme_sidecar: "has_scheme u \<Longrightarrow> has_scheme (sidecar_uri u)"
  by (simp add: sidecar_uri_def has_scheme_append)

lemma stored_read:
  assumes "online env" and "stored env fx dm b u ix sc ids"
  shows "read_index (be_down env) b u = Inr ix" and "read_shard_sidecar (be_down env) b u = sc"
proof -
  show "read_index (be_down env) b u = Inr ix"
    using assms by (simp add: read_index_Inr stored_def online_def)
  have "read_bytes (be_down env) b (sidecar_uri u) = Inr (SidecarB sc)"
    using assms by (simp add: read_bytes_Inr stored_def online_def has_scheme_sidecar)
  then show "read_shard_sidecar (be_down env) b u = sc"
    using assms by (simp add: read_shard_sidecar_def stored_def has_scheme_sidecar)
qed

section \<open>The fold\<close>

definition f32_vec :: "benv \<Rightarrow> vec \<Rightarrow> vec" where
  "f32_vec env v = map (be_f32 env) v"

lemma rows_matrix_ok:
  assumes "\<forall>r \<in> set live. int (length (s_values r)) = dm"
  shows "rows_matrix env live = Inr (if live = [] then (0, []) else (dm, map (\<lambda>r. f32_vec env (s_values r)) live))"
proof (cases live)
  case (Cons r rs)
  have "\<forall>q \<in> set rs. length (s_values q) = length (s_values r)"
  proof
    fix q
    assume "q \<in> set rs"
    then have "int (length (s_values q)) = dm" "int (length (s_values r)) = dm" using assms Cons by auto
    then show "length (s_values q) = length (s_values r)" by linarith
  qed
  then have "same_width (map s_values live)"
    unfolding Cons list.map same_width_def list.case list_all_iff by simp
  moreover have "int (length (s_values r)) = dm" using assms Cons by simp
  ultimately show ?thesis
    unfolding rows_matrix_def Cons by (simp only: list.case if_True f32_vec_def list.simps if_False)
qed (simp add: rows_matrix_def)

lemma fold_into_ok:
  assumes laws: "faiss_laws fx" and so: "set_order_ok env" and dm: "0 < dm" and on: "online env"
    and st: "stored env fx dm b (sh_uri s) ix sc existing"
    and wd: "\<forall>r \<in> set live. int (length (s_values r)) = dm"
    and di: "distinct (map (id64 env) (map s_id live))"
  defines "vs \<equiv> map (\<lambda>r. f32_vec env (s_values r)) live"
  defines "m \<equiv> (if live = [] then (0, []) else (dm, vs))"
  shows "\<exists>ix' sc' ty ns. fold_into env fx b s live tombs m = Inr (ix', sc', ty, int (length ns)) \<and>
    ix_ok env fx dm ix' sc' ns \<and>
    (\<forall>n. doc_at fx ix' sc' n = merged (new_docs env (map s_id live) vs (map s_metadata live))
      (id64 env ` (s_id ` set live \<union> set tombs)) (doc_at fx ix sc) n)"
proof -
  let ?ids = "map s_id live" and ?metas = "map s_metadata live"
  let ?ints = "map (id64 env) ?ids"
  let ?hit = "filter (\<lambda>n. n \<in> set existing) (?ints @ map (id64 env) tombs)"
  let ?gone = "id64 env ` (s_id ` set live \<union> set tombs)"
  have ok: "ix_ok env fx dm ix sc existing" using st by (simp add: stored_def)
  have h: "holds fx ix existing" using ok by (simp add: ix_ok_def)
  have b: "batch_ok env dm ?ids vs ?metas"
    using wd di by (auto simp: batch_ok_def vs_def row_width_def f32_vec_def)
  have gone: "n \<in> ?gone \<Longrightarrow> n \<notin> set ?hit \<Longrightarrow> doc_at fx ix sc n = None" for n
    using doc_at_None[OF h, of n sc] by auto
  have sub: "set ?hit \<subseteq> ?gone" by auto
  have eq: "merged new (set ?hit) (doc_at fx ix sc) = merged new ?gone (doc_at fx ix sc)" for new
    by (rule merged_gone_cong[OF sub gone])
  note unf = fold_into_def stored_read[OF on st] sum.case holdsD(1)[OF h] option.case Let_def
  show ?thesis
  proof (cases "?hit = []")
    case True
    then have new: "set ?ints \<inter> set existing = {}" by (auto simp: filter_empty_conv)
    obtain ix' where a: "add_to_index fx ix (dm, vs) ?ints = Inr ix'"
      and o': "ix_ok env fx dm ix' (dict_update sc (sidecar_dict env ?ids ?metas)) (existing @ ?ints)"
      and dd: "\<forall>n. doc_at fx ix' (dict_update sc (sidecar_dict env ?ids ?metas)) n =
        merged (new_docs env ?ids vs ?metas) {} (doc_at fx ix sc) n"
      using add_in_place_ok[OF laws ok b new] by blast
    have nt: "fx_ntotal fx ix' = int (length (existing @ ?ints))" using o' by (simp only: ix_ok_def holdsD(2))
    have r: "fold_into env fx b s live tombs m = Inr (if live = [] then ix else ix', dict_update sc (sidecar_dict env ?ids ?metas),
        sh_index_type s, fx_ntotal fx (if live = [] then ix else ix'))"
      using True a by (cases "live = []") (simp_all add: unf m_def)
    show ?thesis
    proof (cases "live = []")
      case le: True
      have "dict_update sc (sidecar_dict env ?ids ?metas) = sc"
        by (simp add: le sidecar_dict_def sidecar_add_def dict_update_def)
      moreover have "merged (new_docs env ?ids vs ?metas) ?gone (doc_at fx ix sc) n = doc_at fx ix sc n" for n
        unfolding eq[symmetric] True by (simp add: le new_docs_def merged_def)
      moreover have "fx_ntotal fx ix = int (length existing)" using holdsD(2)[OF h] .
      ultimately show ?thesis using r le ok
        by (intro exI[of _ ix] exI[of _ sc] exI[of _ "sh_index_type s"] exI[of _ existing]) simp
    next
      case False
      with r o' dd nt eq[where new = "new_docs env ?ids vs ?metas"] True show ?thesis
        by (intro exI[of _ ix'] exI[of _ "dict_update sc (sidecar_dict env ?ids ?metas)"]
          exI[of _ "sh_index_type s"] exI[of _ "existing @ ?ints"]) (simp only: if_False set_empty2 set_simps, simp)
    qed
  next
    case False
    have hn: "?ids \<noteq> [] \<longleftrightarrow> live \<noteq> []" by simp
    have r: "fold_into env fx b s live tombs m =
        union_rebuild env fx ix existing sc (set ?hit) ?ids m ?metas (?ids \<noteq> [])"
      using False by (simp only: unf if_False hn)
    have mm: "m = (if ?ids = [] then m else (dm, vs))" "?ids = [] \<longrightarrow> snd m = []" by (simp_all add: m_def)
    have dr: "set ?ints \<inter> set existing \<subseteq> set ?hit" by auto
    show ?thesis
      using union_rebuild_ok[OF laws so dm ok b mm dr] eq[where new = "new_docs env ?ids vs ?metas"]
      unfolding r by (metis)
  qed
qed

definition f32_row :: "benv \<Rightarrow> snap \<Rightarrow> snap" where
  "f32_row env r = r\<lparr>s_values := f32_vec env (s_values r)\<rparr>"

lemma fold_docs:
  assumes dst: "distinct (map s_id rows)" and inj: "inj_on (id64 env) (insert v (s_id ` set rows))"
    and b: "batch_ok env dm (map s_id (live_of rows)) (map (\<lambda>r. f32_vec env (s_values r)) (live_of rows))
      (map s_metadata (live_of rows))"
    and d: "\<forall>n. doc_at fx ix' sc' n = merged (new_docs env (map s_id (live_of rows))
      (map (\<lambda>r. f32_vec env (s_values r)) (live_of rows)) (map s_metadata (live_of rows)))
      (id64 env ` (s_id ` set (live_of rows) \<union> set (dead_ids rows))) old n"
  shows "ix_docs env fx ix' sc' v = apply_rows (entry_docs env old) (map (f32_row env) rows) v"
proof -
  let ?live = "live_of rows"
  let ?ids = "map s_id ?live" and ?vs = "map (\<lambda>r. f32_vec env (s_values r)) ?live" and ?ms = "map s_metadata ?live"
  have all: "s_id ` set ?live \<union> set (dead_ids rows) = s_id ` set rows" by (auto simp: live_of_def dead_ids_def)
  have m: "ix_docs env fx ix' sc' v = (case batch_doc ?ids ?vs ?ms v of Some x \<Rightarrow> Some x
      | None \<Rightarrow> if v \<in> set (dead_ids rows) then None else entry_docs env old v)"
    using d inj all by (intro merged_docs[OF b]) simp_all
  have z: "batch_doc ?ids ?vs ?ms = map_of (map (\<lambda>r. (s_id r, (f32_vec env (s_values r), s_metadata r))) ?live)"
    by (simp add: batch_doc_def zip_map_map zip_same_conv_map comp_def)
  have dl: "distinct (map s_id ?live)" using dst by (simp add: live_of_def distinct_map_filter)
  have ar: "apply_rows cold (map (f32_row env) rows) (s_id r) = cell_doc (snap_cell (f32_row env r))" if "r \<in> set rows" for r cold
    using apply_rows_in[of "map (f32_row env) rows" "f32_row env r" cold] dst that by (simp add: f32_row_def comp_def)
  show ?thesis
  proof (cases "v \<in> s_id ` set rows")
    case True
    then obtain r where r: "r \<in> set rows" "v = s_id r" by blast
    have rd: "q = r" if "q \<in> set rows" "s_id q = s_id r" for q
      using dst that r(1) by (intro inj_onD[of s_id "set rows"]) (simp_all only: distinct_map)
    show ?thesis
    proof (cases "s_deleted r")
      case True
      have "v \<notin> s_id ` set ?live"
      proof
        assume "v \<in> s_id ` set ?live"
        then obtain q where q: "q \<in> set rows" "\<not> s_deleted q" "s_id q = s_id r" using r by (auto simp: live_of_def)
        from rd[OF q(1,3)] q(2) True show False by simp
      qed
      then have "batch_doc ?ids ?vs ?ms v = None" unfolding z by (simp add: map_of_eq_None_iff image_image)
      moreover have "v \<in> set (dead_ids rows)" using r True by (auto simp: dead_ids_def)
      ultimately show ?thesis using m ar[OF r(1)] r(2) True
        by (simp add: cell_doc_def snap_cell_def f32_row_def)
    next
      case False
      then have "r \<in> set ?live" using r by (simp add: live_of_def)
      then have "(v, (f32_vec env (s_values r), s_metadata r)) \<in>
          set (map (\<lambda>r. (s_id r, (f32_vec env (s_values r), s_metadata r))) ?live)" using r by auto
      moreover have "distinct (map fst (map (\<lambda>r. (s_id r, (f32_vec env (s_values r), s_metadata r))) ?live))"
        using dl by (simp add: comp_def)
      ultimately have "batch_doc ?ids ?vs ?ms v = Some (f32_vec env (s_values r), s_metadata r)"
        unfolding z by (simp only: map_of_eq_Some_iff)
      then show ?thesis using m ar[OF r(1)] r(2) False
        by (simp add: cell_doc_def snap_cell_def f32_row_def)
    qed
  next
    case False
    then have "batch_doc ?ids ?vs ?ms v = None" "v \<notin> set (dead_ids rows)"
      using all unfolding z by (auto simp: map_of_eq_None_iff image_image live_of_def)
    moreover have "v \<notin> s_id ` set (map (f32_row env) rows)" using False by (auto simp: f32_row_def)
    ultimately show ?thesis using m by (simp add: apply_rows_notin)
  qed
qed

section \<open>The delete\<close>

lemma delete_build_ok:
  assumes laws: "faiss_laws fx" and so: "set_order_ok env" and dm: "0 < dm" and on: "online env"
    and st: "stored env fx dm b (sh_uri s) ix sc existing"
  shows "(target \<notin> set existing \<longrightarrow> delete_build env fx b s target = Inr None) \<and>
    (target \<in> set existing \<longrightarrow> (\<exists>ix' sc' ty ns. delete_build env fx b s target = Inr (Some (ix', sc', ty, int (length ns))) \<and>
      ix_ok env fx dm ix' sc' ns \<and> (\<forall>n. doc_at fx ix' sc' n = merged Map.empty {target} (doc_at fx ix sc) n)))"
proof -
  have ok: "ix_ok env fx dm ix sc existing" using st by (simp add: stored_def)
  have h: "holds fx ix existing" and d: "fx_d fx ix = dm" using ok by (simp_all add: ix_ok_def)
  note unf = delete_build_def stored_read[OF on st] sum.case holdsD(1)[OF h] option.case Let_def
  have e: "new_docs env [] [] [] = Map.empty" by (simp add: new_docs_def)
  show ?thesis
  proof (intro conjI impI)
    assume t: "target \<in> set existing"
    show "\<exists>ix' sc' ty ns. delete_build env fx b s target = Inr (Some (ix', sc', ty, int (length ns))) \<and>
      ix_ok env fx dm ix' sc' ns \<and> (\<forall>n. doc_at fx ix' sc' n = merged Map.empty {target} (doc_at fx ix sc) n)"
    proof (cases "fx_ivf fx ix")
      case True
      have b0: "batch_ok env dm [] [] []" by (simp add: batch_ok_def row_width_def)
      have m0: "(dm, []) = (if [] = [] then (dm, []) else (dm, []))" "[] = [] \<longrightarrow> snd (dm, []) = ([]::vec list)" by simp_all
      obtain ix' sc' ty ns where u: "union_rebuild env fx ix existing sc {target} [] (dm, []) [] ([] \<noteq> ([]::string list)) =
          Inr (ix', sc', ty, int (length ns))" and o': "ix_ok env fx dm ix' sc' ns"
        and dd: "\<forall>n. doc_at fx ix' sc' n = merged (new_docs env [] [] []) {target} (doc_at fx ix sc) n"
        using union_rebuild_ok[OF laws so dm ok b0, of "(dm, [])" "{target}"] by auto
      have "delete_build env fx b s target = Inr (Some (ix', sc', ty, int (length ns)))"
        using u t True d by (simp add: unf)
      with o' dd e show ?thesis by (intro exI[of _ ix'] exI[of _ sc'] exI[of _ ty] exI[of _ ns]) simp
    next
      case False
      have sc': "dget (ddel target sc) n = dget sc n" if "n \<notin> set [target]" for n
        using that by (simp add: pdict_simps)
      obtain ix' where r: "remove_ids fx ix [target] = Inr ix'"
        and o': "ix_ok env fx dm ix' (ddel target sc) (filter (\<lambda>n. n \<notin> set [target]) existing)"
        and dd: "\<forall>n. doc_at fx ix' (ddel target sc) n = merged Map.empty (set [target]) (doc_at fx ix sc) n"
        using remove_flat_ok[OF laws ok False sc'] by blast
      have nt: "fx_ntotal fx ix' = int (length (filter (\<lambda>n. n \<notin> set [target]) existing))"
        using o' by (simp only: ix_ok_def holdsD(2))
      have "delete_build env fx b s target = Inr (Some (ix', ddel target sc, sh_index_type s, fx_ntotal fx ix'))"
        using r t False by (simp add: unf)
      with o' dd nt show ?thesis
        by (intro exI[of _ ix'] exI[of _ "ddel target sc"] exI[of _ "sh_index_type s"]
          exI[of _ "filter (\<lambda>n. n \<notin> set [target]) existing"]) simp
    qed
  qed (simp add: unf)
qed

section \<open>The landing batch\<close>

lemma last_positions_snoc:
  "last_positions env (xs @ [x]) = dset (id64 env x) (length xs) (last_positions env xs)"
  by (simp add: last_positions_def enumerate_append_eq)

lemma dkeys_last_positions: "dkeys_ok (last_positions env ids)"
  by (induction ids rule: rev_induct) (simp add: last_positions_def, simp only: last_positions_snoc dkeys_ok_dset)

lemma find_last_cong: "xs = ys \<Longrightarrow> (\<And>x. x \<in> set ys \<Longrightarrow> P x = Q x) \<Longrightarrow> find_last P xs = find_last Q ys"
  unfolding find_last_def by (rule find_cong) auto

lemma find_last_map: "find_last P (map f xs) = map_option f (find_last (P \<circ> f) xs)"
  by (induction xs rule: rev_induct) auto

lemma dget_last_positions:
  "dget (last_positions env ids) n = find_last (\<lambda>p. id64 env (ids ! p) = n) [0..<length ids]"
proof (induction ids rule: rev_induct)
  case (snoc x xs)
  have "find_last (\<lambda>p. id64 env ((xs @ [x]) ! p) = n) [0..<length xs] =
      find_last (\<lambda>p. id64 env (xs ! p) = n) [0..<length xs]"
    by (rule find_last_cong) (simp_all add: nth_append)
  with snoc show ?case by (simp add: last_positions_snoc pdict_simps)
qed (simp add: last_positions_def)

definition row_batch :: "landing_row list \<Rightarrow> string list \<times> vec list \<times> meta list" where
  "row_batch rows = (map lr_id rows, map lr_values rows, map lr_meta rows)"

lemma dedup_rows:
  obtains rs where "dedup_batch_last_wins env (map lr_id rows) (map lr_values rows) (map lr_meta rows) = row_batch rs"
    and "set rs \<subseteq> set rows" and "distinct (map (id64 env) (map lr_id rs))"
    and "\<And>r. r \<in> set rs \<longleftrightarrow> r \<in> set rows \<and> find_last (\<lambda>q. id64 env (lr_id q) = id64 env (lr_id r)) rows = Some r"
proof -
  let ?ids = "map lr_id rows"
  let ?seen = "last_positions env ?ids"
  let ?key = "\<lambda>p. id64 env (lr_id (rows ! p))"
  have get: "dget ?seen n = find_last (\<lambda>p. ?key p = n) [0..<length rows]" for n
    unfolding dget_last_positions by (rule find_last_cong) simp_all
  have in_seen: "(n, p) \<in> set ?seen \<longleftrightarrow> find_last (\<lambda>q. ?key q = n) [0..<length rows] = Some p" for n p
    by (simp only: dget_in[OF dkeys_last_positions] get)
  have key: "p < length rows \<and> ?key p = n" if "(n, p) \<in> set ?seen" for n p
    using that find_last_SomeD[of "\<lambda>q. ?key q = n" "[0..<length rows]" p] by (simp add: in_seen)
  have rows_nth: "find_last P rows = map_option ((!) rows) (find_last (\<lambda>p. P (rows ! p)) [0..<length rows])" for P
    using find_last_map[of P "(!) rows" "[0..<length rows]"] by (simp add: comp_def map_nth)
  show thesis
  proof (cases "length ?seen = length ?ids")
    case True
    have "set (map fst ?seen) = id64 env ` set ?ids"
    proof -
      have "n \<in> fst ` set ?seen \<longleftrightarrow> n \<in> id64 env ` set ?ids" for n
      proof -
        have "n \<in> fst ` set ?seen \<longleftrightarrow> dget ?seen n \<noteq> None" by (simp add: map_of_eq_None_iff)
        also have "\<dots> \<longleftrightarrow> (\<exists>p < length rows. ?key p = n)" by (simp add: get find_last_None Bex_def)
        also have "\<dots> \<longleftrightarrow> n \<in> id64 env ` set ?ids"
          by (simp add: image_iff Bex_def) (metis in_set_conv_nth)
        finally show ?thesis .
      qed
      then show ?thesis by auto
    qed
    moreover have "distinct (map fst ?seen)" using dkeys_last_positions by (simp add: dkeys_ok_def)
    ultimately have "card (set (map (id64 env) ?ids)) = length (map (id64 env) ?ids)"
      using True distinct_card[of "map fst ?seen"] by (simp add: image_image)
    then have dst: "distinct (map (id64 env) ?ids)" by (rule card_distinct)
    have "find_last (\<lambda>q. id64 env (lr_id q) = id64 env (lr_id r)) rows = Some r" if r: "r \<in> set rows" for r
    proof -
      obtain q where q: "find_last (\<lambda>q. id64 env (lr_id q) = id64 env (lr_id r)) rows = Some q"
        using r find_last_None[of "\<lambda>q. id64 env (lr_id q) = id64 env (lr_id r)" rows]
        by (cases "find_last (\<lambda>q. id64 env (lr_id q) = id64 env (lr_id r)) rows") auto
      then have "q \<in> set rows" "id64 env (lr_id q) = id64 env (lr_id r)"
        using find_last_SomeD[OF q] by auto
      moreover have "inj_on (id64 env \<circ> lr_id) (set rows)" using dst by (simp add: distinct_map comp_inj_on_iff)
      ultimately show ?thesis using q r inj_onD[of "id64 env \<circ> lr_id" "set rows" q r] by simp
    qed
    then show thesis using True dst
      by (intro that[of rows]) (auto simp: dedup_batch_last_wins_def row_batch_def)
  next
    case False
    let ?keep = "sort (map snd ?seen)"
    let ?rs = "map ((!) rows) ?keep"
    have sk: "set ?keep = {p. (?key p, p) \<in> set ?seen}" using key by force
    have lt: "p < length rows" if "p \<in> set ?keep" for p using that key unfolding sk by blast
    have "dedup_batch_last_wins env ?ids (map lr_values rows) (map lr_meta rows) = row_batch ?rs"
      using False lt by (simp add: dedup_batch_last_wins_def Let_def row_batch_def)
    moreover have "set ?rs \<subseteq> set rows"
    proof
      fix r
      assume "r \<in> set ?rs"
      then obtain p where "p \<in> set ?keep" "r = rows ! p" by auto
      with lt show "r \<in> set rows" by simp
    qed
    moreover have "distinct (map (id64 env) (map lr_id ?rs))"
    proof -
      have "inj_on snd (set ?seen)"
      proof (rule inj_onI)
        fix x y
        assume x: "x \<in> set ?seen" and y: "y \<in> set ?seen" and e: "snd x = snd y"
        have "?key (snd x) = fst x" using key[of "fst x" "snd x"] x by simp
        moreover have "?key (snd y) = fst y" using key[of "fst y" "snd y"] y by simp
        ultimately show "x = y" using e by (simp add: prod_eq_iff)
      qed
      moreover have "distinct ?seen" using dkeys_last_positions[of env ?ids] by (simp add: dkeys_ok_def distinct_map)
      ultimately have dk: "distinct ?keep" by (simp add: distinct_map)
      have "inj_on ?key (set ?keep)"
      proof (rule inj_onI)
        fix p q
        assume "p \<in> set ?keep" "q \<in> set ?keep" "?key p = ?key q"
        then have "(?key p, p) \<in> set ?seen" "(?key p, q) \<in> set ?seen" unfolding sk by simp_all
        then show "p = q" unfolding in_seen by simp
      qed
      with dk show ?thesis by (simp add: distinct_map comp_def)
    qed
    moreover have "r \<in> set ?rs \<longleftrightarrow> r \<in> set rows \<and> find_last (\<lambda>q. id64 env (lr_id q) = id64 env (lr_id r)) rows = Some r" for r
    proof
      assume "r \<in> set ?rs"
      then obtain p where p: "p \<in> set ?keep" "r = rows ! p" by auto
      then have "find_last (\<lambda>q. ?key q = ?key p) [0..<length rows] = Some p" unfolding sk in_seen by simp
      with p lt show "r \<in> set rows \<and> find_last (\<lambda>q. id64 env (lr_id q) = id64 env (lr_id r)) rows = Some r"
        by (simp add: rows_nth)
    next
      assume "r \<in> set rows \<and> find_last (\<lambda>q. id64 env (lr_id q) = id64 env (lr_id r)) rows = Some r"
      then obtain p where p: "find_last (\<lambda>q. ?key q = id64 env (lr_id r)) [0..<length rows] = Some p" "rows ! p = r"
        by (auto simp: rows_nth)
      then have "p \<in> set ?keep" unfolding sk in_seen by simp
      with p(2) show "r \<in> set ?rs" by auto
    qed
    ultimately show thesis by (intro that[of ?rs])
  qed
qed

definition last_row_doc :: "landing_row list \<Rightarrow> vid \<Rightarrow> doc option" where
  "last_row_doc rows v = map_option (\<lambda>r. (lr_values r, lr_meta r)) (find_last (\<lambda>r. lr_id r = v) rows)"

lemma batch_doc_rows:
  assumes inj: "inj_on (id64 env) (insert v (lr_id ` set rows))"
    and sub: "set rs \<subseteq> set rows" and dst: "distinct (map (id64 env) (map lr_id rs))"
    and mem: "\<And>r. r \<in> set rs \<longleftrightarrow> r \<in> set rows \<and> find_last (\<lambda>q. id64 env (lr_id q) = id64 env (lr_id r)) rows = Some r"
  shows "batch_doc (map lr_id rs) (map lr_values rs) (map lr_meta rs) v = last_row_doc rows v"
proof -
  have ids: "distinct (map lr_id rs)" using distinct_map[THEN iffD1, OF dst] by (rule conjunct1)
  have eq: "id64 env (lr_id q) = id64 env v \<longleftrightarrow> lr_id q = v" if "q \<in> set rows" for q
    using inj_onD[OF inj, of "lr_id q" v] that by auto
  have fl: "find_last (\<lambda>q. id64 env (lr_id q) = id64 env v) rows = find_last (\<lambda>q. lr_id q = v) rows"
    by (rule find_last_cong) (simp_all add: eq)
  have z: "zip (map lr_id rs) (zip (map lr_values rs) (map lr_meta rs)) = map (\<lambda>r. (lr_id r, (lr_values r, lr_meta r))) rs"
    by (simp add: zip_map_map zip_same_conv_map)
  show ?thesis
  proof (cases "find_last (\<lambda>r. lr_id r = v) rows")
    case None
    then have "v \<notin> lr_id ` set rs" using sub by (auto simp: find_last_None)
    then have "map_of (map (\<lambda>r. (lr_id r, (lr_values r, lr_meta r))) rs) v = None"
      by (simp add: map_of_eq_None_iff image_image)
    with None show ?thesis by (simp only: batch_doc_def z last_row_doc_def option.map)
  next
    case (Some r)
    then have r: "r \<in> set rows" "lr_id r = v" using find_last_SomeD[OF Some] by auto
    then have "r \<in> set rs" using mem[of r] Some fl by simp
    then have "(v, (lr_values r, lr_meta r)) \<in> set (map (\<lambda>r. (lr_id r, (lr_values r, lr_meta r))) rs)" using r by auto
    moreover have "distinct (map fst (map (\<lambda>r. (lr_id r, (lr_values r, lr_meta r))) rs))" using ids by (simp add: comp_def)
    ultimately have "map_of (map (\<lambda>r. (lr_id r, (lr_values r, lr_meta r))) rs) v = Some (lr_values r, lr_meta r)"
      by (simp only: map_of_eq_Some_iff)
    with Some show ?thesis by (simp only: batch_doc_def z last_row_doc_def option.map)
  qed
qed

lemma incremental_build_ok:
  assumes laws: "faiss_laws fx" and so: "set_order_ok env" and dm: "0 < dm" and on: "online env"
    and st: "stored env fx dm b (sh_uri s) ix sc existing"
    and b: "batch_ok env dm ids vs metas" and ne: "ids \<noteq> []"
  shows "\<exists>ix' sc' ty ns. incremental_build env fx b s ids (dm, vs) metas = Inr (ix', sc', ty, int (length ns)) \<and>
    ix_ok env fx dm ix' sc' ns \<and>
    (\<forall>n. doc_at fx ix' sc' n = merged (new_docs env ids vs metas) (id64 env ` set ids) (doc_at fx ix sc) n)"
proof -
  let ?ints = "map (id64 env) ids"
  let ?overlap = "filter (\<lambda>n. n \<in> set existing) ?ints"
  have ok: "ix_ok env fx dm ix sc existing" using st by (simp add: stored_def)
  have h: "holds fx ix existing" using ok by (simp add: ix_ok_def)
  have vne: "vs \<noteq> []" using b ne by (auto simp: batch_ok_def)
  note unf = incremental_build_def stored_read[OF on st] sum.case holdsD(1)[OF h] option.case Let_def
  have sub: "set ?overlap \<subseteq> id64 env ` set ids" by auto
  have gone: "n \<in> id64 env ` set ids \<Longrightarrow> n \<notin> set ?overlap \<Longrightarrow> doc_at fx ix sc n = None" for n
    using doc_at_None[OF h, of n sc] by auto
  have eq: "merged new (set ?overlap) (doc_at fx ix sc) = merged new (id64 env ` set ids) (doc_at fx ix sc)" for new
    by (rule merged_gone_cong[OF sub gone])
  show ?thesis
  proof (cases "?overlap \<noteq> [] \<and> fx_ivf fx ix")
    case True
    have has: "(snd (dm, vs) \<noteq> [] \<and> fst (dm, vs) > 0) = (ids \<noteq> [])" using ne vne dm by simp
    have r: "incremental_build env fx b s ids (dm, vs) metas =
        union_rebuild env fx ix existing sc (set ?overlap) ids (dm, vs) metas (ids \<noteq> [])"
      unfolding unf has using True by (simp only: if_True simp_thms)
    have mm: "(dm, vs) = (if ids = [] then (dm, vs) else (dm, vs))" "ids = [] \<longrightarrow> snd (dm, vs) = []" using ne by simp_all
    have dr: "set ?ints \<inter> set existing \<subseteq> set ?overlap" by auto
    show ?thesis using union_rebuild_ok[OF laws so dm ok b mm dr] unfolding r eq by blast
  next
    case False
    let ?keep = "filter (\<lambda>n. n \<notin> set ?overlap) existing"
    have dis: "set ?ints \<inter> set ?keep = {}" by auto
    obtain ix1 where r1: "(if ?overlap \<noteq> [] then remove_ids fx ix ?overlap else Inr ix) = Inr ix1"
      and o1: "ix_ok env fx dm ix1 sc ?keep"
      and d1: "\<And>n. doc_at fx ix1 sc n = merged Map.empty (set ?overlap) (doc_at fx ix sc) n"
    proof (cases "?overlap = []")
      case True
      then show thesis using that[of ix] ok by (simp add: merged_def)
    next
      case ov: False
      then have "\<not> fx_ivf fx ix" using False by blast
      from remove_flat_ok[OF laws ok this, of ?overlap sc] obtain ix1 where "remove_ids fx ix ?overlap = Inr ix1"
        "ix_ok env fx dm ix1 sc ?keep" "\<forall>n. doc_at fx ix1 sc n = merged Map.empty (set ?overlap) (doc_at fx ix sc) n"
        by blast
      then show thesis using that[of ix1] ov by simp
    qed
    obtain ix' where a: "add_to_index fx ix1 (dm, vs) ?ints = Inr ix'"
      and o': "ix_ok env fx dm ix' (dict_update sc (sidecar_dict env ids metas)) (?keep @ ?ints)"
      and dd: "\<forall>n. doc_at fx ix' (dict_update sc (sidecar_dict env ids metas)) n =
        merged (new_docs env ids vs metas) {} (doc_at fx ix1 sc) n"
      using add_in_place_ok[OF laws o1 b dis] by blast
    have r: "incremental_build env fx b s ids (dm, vs) metas = Inr (ix', dict_update sc (sidecar_dict env ids metas),
        sh_index_type s, fx_ntotal fx ix')"
      using False a unfolding unf by (simp only: if_False r1 sum.case)
    have nt: "fx_ntotal fx ix' = int (length (?keep @ ?ints))" using o' by (simp only: ix_ok_def holdsD(2))
    have "doc_at fx ix' (dict_update sc (sidecar_dict env ids metas)) n =
        merged (new_docs env ids vs metas) (set ?overlap) (doc_at fx ix sc) n" for n
      using dd d1[of n] by (simp add: merged_def split: option.split)
    then show ?thesis using o' unfolding eq r nt by blast
  qed
qed

lemma full_build_ok:
  assumes laws: "faiss_laws fx" and dm: "0 < dm" and b: "batch_ok env dm ids vs metas"
  shows "\<exists>ix' sc' ty ns. full_build env fx ids (dm, vs) metas = Inr (ix', sc', ty, int (length ns)) \<and>
    ix_ok env fx dm ix' sc' ns \<and> (\<forall>n. doc_at fx ix' sc' n = new_docs env ids vs metas n)"
proof -
  let ?ints = "map (id64 env) ids"
  have len: "length ids = length vs" "length ids = length metas" and w: "row_width dm vs" and di: "distinct ?ints"
    using b by (simp_all add: batch_ok_def)
  have l1: "length ?ints = length vs" "length ?ints = length (zip ids metas)" using len by simp_all
  obtain ix ty where ix: "build_fresh env fx (dm, vs) ?ints = Inr (ix, ty)" "holds fx ix ?ints" "fx_d fx ix = dm"
    "\<forall>j < length ?ints. fx_reconstruct fx ix (?ints ! j) = Inr (vs ! j)"
    using build_fresh_ok[OF laws dm w l1(1) di] by blast
  let ?sc = "dict_update [] (zip ?ints (zip ids metas))"
  have sc: "sidecar_dict env ids metas = ?sc" unfolding sidecar_dict_def by (rule sidecar_add_zip[OF len(2)])
  have r: "full_build env fx ids (dm, vs) metas = Inr (ix, ?sc, ty, int (length ?ints))"
    using ix(1) len by (simp add: full_build_def sc)
  have "doc_at fx ix ?sc n = new_docs env ids vs metas n" for n
    using doc_at_fresh[OF ix(2) di l1(2,1) ix(4), of n] len by (simp add: new_docs_def)
  moreover have "ix_ok env fx dm ix ?sc ?ints"
  proof -
    have "\<exists>raw md. dget ?sc n = Some (raw, md) \<and> id64 env raw = n" if n: "n \<in> set ?ints" for n
    proof -
      obtain j where j: "j < length ids" "n = ?ints ! j" using n by (auto simp: in_set_conv_nth)
      have "dget ?sc n = Some (zip ids metas ! j)"
        unfolding j(2) dget_dict_zip[OF di l1(2)] using j len by (intro map_of_zip_nth[OF l1(2) di]) simp
      then show ?thesis using j len by simp
    qed
    with ix(2,3) di show ?thesis by (simp add: ix_ok_def)
  qed
  ultimately show ?thesis using r by blast
qed

end
