(* ===== verification/Cold_Tier.thy ===== *)
theory Cold_Tier
  imports Fold_Correct
begin

text \<open>
  The cold tier a reader sees, the invariant a dataset keeps while the delta tier is off, and the
  commit every build ends with: write the objects, add the catalog row, set the status, sweep.
\<close>

section \<open>Frames\<close>

lemma update_row_frame [simp]:
  "c_shards (update_row f c k) = c_shards c" "c_memory (update_row f c k) = c_memory c"
  "c_last_id (update_row f c k) = c_last_id c"
  by (simp_all add: update_row_def split: option.split)

lemma set_row_count_frame [simp]:
  "c_shards (set_row_count c k n) = c_shards c" "c_memory (set_row_count c k n) = c_memory c"
  by (simp_all add: set_row_count_def)

lemma update_status_frame [simp]:
  "c_shards (update_dataset_status c k st msg ix now) = c_shards c"
  "c_memory (update_dataset_status c k st msg ix now) = c_memory c"
  by (auto simp: update_dataset_status_def mc_update_status_def pc_update_status_def Let_def split: option.split)

lemma list_shards_frame: "c_shards c' = c_shards c \<Longrightarrow> c_memory c' = c_memory c \<Longrightarrow> list_shards c' k = list_shards c k"
  by (simp add: list_shards_def mc_list_shards_def pc_list_shards_def)

lemma cat_ok_row_count: "cat_ok c \<Longrightarrow> cat_ok (set_row_count c k n)"
  by (simp add: set_row_count_def cat_ok_update_row)

text \<open>The dataset row under the updates of a build.\<close>

lemma cat_row_status:
  assumes "cat_row c k = Some r"
  shows "\<exists>r'. cat_row (update_dataset_status c k st msg ix now) k = Some r' \<and> d_status r' = st \<and>
    d_row_count r' = d_row_count r"
  using assms
  by (auto simp: update_dataset_status_def mc_update_status_def pc_update_status_def cat_row_def update_row_def
      Let_def split: option.splits if_splits)

lemma cat_row_count:
  assumes "cat_row c k = Some r"
  shows "cat_row (set_row_count c k n) k = Some (r\<lparr>d_row_count := max 0 n\<rparr>)"
  using assms by (auto simp: set_row_count_def update_row_def cat_row_def split: option.splits if_splits)

lemma cat_row_add [simp]: "cat_row (snd (add_shard c sh now)) k = cat_row c k"
  by (simp add: cat_row_def add_shard_def store_shard_def Let_def)

lemma cat_row_delete_shards [simp]: "cat_row (snd (delete_shards c k ids)) k' = cat_row c k'"
  by (simp add: cat_row_def)

section \<open>Views and the invariant\<close>

definition cold_docs :: "benv \<Rightarrow> 'i faiss \<Rightarrow> 'i world \<Rightarrow> key \<Rightarrow> vid \<Rightarrow> doc option" where
  "cold_docs env fx w k v =
     (case get_latest_shard (w_cat w) k of
        None \<Rightarrow> None
      | Some s \<Rightarrow>
         (case read_index (be_down env) (w_bucket w) (sh_uri s) of
            Inl _ \<Rightarrow> None
          | Inr ix \<Rightarrow> ix_docs env fx ix (read_shard_sidecar (be_down env) (w_bucket w) (sh_uri s)) v))"

text \<open>
  A dataset without deltas: every shard is a base, none is ahead of the newest one's watermark, and
  the newest one's objects are in the bucket and well-formed.
\<close>

definition plain_tier :: "benv \<Rightarrow> 'i faiss \<Rightarrow> int \<Rightarrow> 'i world \<Rightarrow> key \<Rightarrow> bool" where
  "plain_tier env fx dm w k \<longleftrightarrow> cat_ok (w_cat w) \<and>
     (\<forall>s \<in> set (list_shards (w_cat w) k).
        sh_level s = 0 \<and> sh_hi s = 0 \<and> sh_lsn s \<le> dataset_watermark (w_cat w) k) \<and>
     (\<forall>s. get_latest_shard (w_cat w) k = Some s \<longrightarrow>
        (\<exists>ix sc ids. stored env fx dm (w_bucket w) (sh_uri s) ix sc ids))"

text \<open>The uuid in a new shard's name makes its objects new.\<close>

definition fresh_uri :: "benv \<Rightarrow> 'i world \<Rightarrow> key \<Rightarrow> fresh \<Rightarrow> bool" where
  "fresh_uri env w k fr \<longleftrightarrow>
     (\<forall>s \<in> set (list_shards (w_cat w) k). sh_uri s \<noteq> compute_shard_uri env k fr \<and>
        sh_uri s \<noteq> sidecar_uri (compute_shard_uri env k fr) \<and> sidecar_uri (sh_uri s) \<noteq> compute_shard_uri env k fr)"

lemma has_scheme_shard_uri: "online env \<Longrightarrow> has_scheme (compute_shard_uri env k fr)"
  by (auto simp: compute_shard_uri_def online_def has_scheme_append)
     (simp add: has_scheme_def starts_with_def)

lemma watermark_base:
  assumes "\<forall>s \<in> set xs. sh_level s = 0"
  shows "watermark_of xs = (case xs of [] \<Rightarrow> 0 | s # _ \<Rightarrow> sh_lsn s)"
  using generations_base_only[OF assms]
  by (cases xs) (simp_all add: watermark_of_def current_generation_def gen_rows_def)

lemma plain_watermark:
  "plain_tier env fx dm w k \<Longrightarrow> dataset_watermark (w_cat w) k = shard_lsn_or0 (get_latest_shard (w_cat w) k)"
  using watermark_base[of "list_shards (w_cat w) k"]
  by (simp add: plain_tier_def dataset_watermark_def get_latest_shard_def shard_lsn_or0_def split: list.split)

lemma cold_docs_stored:
  assumes "online env" and "get_latest_shard (w_cat w) k = Some s" and "stored env fx dm (w_bucket w) (sh_uri s) ix sc ids"
  shows "cold_docs env fx w k = ix_docs env fx ix sc"
  using assms by (simp add: fun_eq_iff cold_docs_def stored_read)

section \<open>Sweeps\<close>

lemma try_delete_online: "online env \<Longrightarrow> try_delete env b u = (if has_scheme u then ddel u b else b)"
  by (simp add: try_delete_def storage_delete_def online_def)

lemma dget_try_delete:
  "online env \<Longrightarrow> dget (try_delete env b u) x = (if x = u \<and> has_scheme u then None else dget b x)"
  by (simp add: try_delete_online pdict_simps)

lemma sweep_bucket_other:
  assumes "online env" and "x \<notin> sh_uri ` set ss" and "x \<notin> sidecar_uri ` sh_uri ` set ss"
  shows "dget (foldl (\<lambda>b s. try_delete env (try_delete env b (sh_uri s)) (sidecar_uri (sh_uri s))) b ss) x = dget b x"
  using assms(2,3)
proof (induction ss arbitrary: b)
  case (Cons s ss)
  then show ?case using assms(1) by (simp add: dget_try_delete)
qed simp

lemma sweep_bucket_sub:
  assumes "online env"
  shows "dget (foldl (\<lambda>b s. try_delete env (try_delete env b (sh_uri s)) (sidecar_uri (sh_uri s))) b ss) x \<noteq> None \<Longrightarrow>
    dget b x \<noteq> None"
proof (induction ss arbitrary: b)
  case (Cons s ss)
  have "dget (try_delete env (try_delete env b (sh_uri s)) (sidecar_uri (sh_uri s))) x \<noteq> None"
    using Cons.IH Cons.prems by simp
  then show ?case using assms by (simp add: dget_try_delete split: if_splits)
qed simp

lemma sweep_frame [simp]:
  "w_recall (sweep_superseded_shards env w k) = w_recall w"
  "w_queue (sweep_superseded_shards env w k) = w_queue w"
  "w_jobs (sweep_superseded_shards env w k) = w_jobs w"
  "w_last (sweep_superseded_shards env w k) = w_last w"
  by (simp_all add: sweep_superseded_shards_def Let_def)

lemma sweep_shards_listed:
  assumes "cat_ok (w_cat w)"
  shows "list_shards (w_cat (sweep_superseded_shards env w k)) k =
      filter (\<lambda>s. sh_id s \<in> live_ids (be_keep env) (list_shards (w_cat w) k)) (list_shards (w_cat w) k)"
    and "cat_ok (w_cat (sweep_superseded_shards env w k))"
proof -
  let ?xs = "list_shards (w_cat w) k"
  note s = cat.sweep_listing[OF assms, of k "be_keep env"]
  have e: "superseded_of (be_keep env) ?xs = [] \<Longrightarrow> filter (\<lambda>s. sh_id s \<in> live_ids (be_keep env) ?xs) ?xs = ?xs"
    by (simp add: superseded_of_def filter_empty_conv filter_id_conv)
  show "list_shards (w_cat (sweep_superseded_shards env w k)) k =
      filter (\<lambda>s. sh_id s \<in> live_ids (be_keep env) ?xs) ?xs"
    using s e by (simp add: sweep_superseded_shards_def superseded_shards_def Let_def)
  show "cat_ok (w_cat (sweep_superseded_shards env w k))"
    using assms cat_ok_delete by (simp add: sweep_superseded_shards_def Let_def)
qed

section \<open>Committing a build\<close>

lemma prewarm_frame [simp]:
  "w_recall (prewarm env w k u fr) = w_recall w" "w_cat (prewarm env w k u fr) = w_cat w"
  "w_bucket (prewarm env w k u fr) = w_bucket w" "w_jobs (prewarm env w k u fr) = w_jobs w"
  "w_last (prewarm env w k u fr) = w_last w"
  by (simp_all add: prewarm_def)

lemma set_status_frame [simp]:
  "w_recall (set_status w k st msg ix now) = w_recall w" "w_bucket (set_status w k st msg ix now) = w_bucket w"
  "w_jobs (set_status w k st msg ix now) = w_jobs w" "w_last (set_status w k st msg ix now) = w_last w"
  "c_shards (w_cat (set_status w k st msg ix now)) = c_shards (w_cat w)"
  "c_memory (w_cat (set_status w k st msg ix now)) = c_memory (w_cat w)"
  by (simp_all add: set_status_def)

definition new_row :: "benv \<Rightarrow> 'i world \<Rightarrow> key \<Rightarrow> int \<Rightarrow> string \<Rightarrow> shard_args \<Rightarrow> time \<Rightarrow> fresh \<Rightarrow> shard" where
  "new_row env w k n ty a now fr =
     (shard_row k (compute_shard_uri env k fr) (fr_hash fr) n ty a)
       \<lparr>sh_id := fst (add_shard (w_cat w) (shard_row k (compute_shard_uri env k fr) (fr_hash fr) n ty a) now),
        sh_created := now\<rparr>"

lemma new_row_simps [simp]:
  "sh_uri (new_row env w k n ty a now fr) = compute_shard_uri env k fr"
  "sh_level (new_row env w k n ty a now fr) = sa_level a" "sh_lsn (new_row env w k n ty a now fr) = sa_lsn a"
  "sh_hi (new_row env w k n ty a now fr) = sa_hi a" "sh_landing (new_row env w k n ty a now fr) = sa_uris a"
  by (simp_all add: new_row_def shard_row_def)

text \<open>\<open>_write_shard\<close> on a bucket that answers: the objects are there and the row is the newest.\<close>

lemma write_shard_ok:
  assumes on: "online env" and cat: "cat_ok (w_cat w)" and tick: "cat_tick (w_cat w) now"
  obtains w1 where "write_shard env w k ix sc n ty a now fr = (Inr (compute_shard_uri env k fr), w1)"
    and "list_shards (w_cat w1) k = new_row env w k n ty a now fr # list_shards (w_cat w) k"
    and "w_bucket w1 = dset (sidecar_uri (compute_shard_uri env k fr)) (SidecarB sc)
      (dset (compute_shard_uri env k fr) (IndexB ix) (w_bucket w))"
    and "cat_ok (w_cat w1)" and "w_recall w1 = w_recall w" and "w_jobs w1 = w_jobs w" and "w_last w1 = w_last w"
    and "\<And>r. cat_row (w_cat w) k = Some r \<Longrightarrow> cat_row (w_cat w1) k = Some (r\<lparr>d_row_count := max 0 n\<rparr>)"
proof -
  let ?u = "compute_shard_uri env k fr" and ?row = "shard_row k (compute_shard_uri env k fr) (fr_hash fr) n ty a"
  let ?b = "dset (sidecar_uri ?u) (SidecarB sc) (dset ?u (IndexB ix) (w_bucket w))"
  let ?c1 = "snd (add_shard (w_cat w) ?row now)"
  let ?w1 = "prewarm env (w\<lparr>w_bucket := ?b, w_cat := set_row_count ?c1 k n\<rparr>) k ?u fr"
  have sch: "has_scheme ?u" "has_scheme (sidecar_uri ?u)"
    using has_scheme_shard_uri[OF on] has_scheme_sidecar by blast+
  have "write_shard env w k ix sc n ty a now fr = (Inr ?u, ?w1)"
    using on sch by (simp add: write_shard_def Let_def write_bytes_def online_def)
  moreover have "list_shards (w_cat ?w1) k = list_shards ?c1 k"
    by (rule list_shards_frame) simp_all
  moreover have "list_shards ?c1 k = new_row env w k n ty a now fr # list_shards (w_cat w) k"
    using cat.add_list[OF cat tick, of ?row k] by (simp add: new_row_def shard_row_def)
  moreover have "cat_ok (w_cat ?w1)" using cat_ok_row_count[OF cat_ok_add[OF cat tick]] by simp
  moreover have "cat_row (w_cat ?w1) k = Some (r\<lparr>d_row_count := max 0 n\<rparr>)" if "cat_row (w_cat w) k = Some r" for r
    using that by (simp add: cat_row_count)
  ultimately show thesis using that[of ?w1] by simp
qed

definition committed :: "benv \<Rightarrow> 'i faiss \<Rightarrow> int \<Rightarrow> 'i world \<Rightarrow> 'i world \<Rightarrow> key \<Rightarrow> 'i \<Rightarrow> sidecar \<Rightarrow> shard \<Rightarrow> bool" where
  "committed env fx dm w w' k ix sc s \<longleftrightarrow> plain_tier env fx dm w' k \<and> get_latest_shard (w_cat w') k = Some s \<and>
     cold_docs env fx w' k = ix_docs env fx ix sc \<and> w_recall w' = w_recall w \<and> w_jobs w' = w_jobs w \<and> w_last w' = w_last w \<and>
     (\<forall>x. dget (w_bucket w') x \<noteq> None \<longrightarrow> x = sh_uri s \<or> x = sidecar_uri (sh_uri s) \<or> dget (w_bucket w) x \<noteq> None) \<and>
     (\<forall>r. cat_row (w_cat w) k = Some r \<longrightarrow> (\<exists>r'. cat_row (w_cat w') k = Some r' \<and> d_status r' = ''indexed'' \<and>
        d_row_count r' = max 0 (sh_count s)))"

lemma commit_ok:
  assumes on: "online env" and pt: "plain_tier env fx dm w k" and tick: "cat_tick (w_cat w) now"
    and fresh: "fresh_uri env w k fr" and ok: "ix_ok env fx dm ix sc ids"
    and lsn: "dataset_watermark (w_cat w) k \<le> lsn"
  obtains w1 where "write_shard env w k ix sc n ty (plain_args bt uris lsn) now fr = (Inr (compute_shard_uri env k fr), w1)"
    and "committed env fx dm w (sweep_superseded_shards env (set_status w1 k ''indexed'' None ixt now) k) k ix sc
      (new_row env w k n ty (plain_args bt uris lsn) now fr)"
proof -
  let ?a = "plain_args bt uris lsn" and ?u = "compute_shard_uri env k fr"
  let ?row = "new_row env w k n ty ?a now fr" and ?xs = "list_shards (w_cat w) k"
  have cat: "cat_ok (w_cat w)" using pt by (simp add: plain_tier_def)
  obtain w1 where w1: "write_shard env w k ix sc n ty ?a now fr = (Inr ?u, w1)" "list_shards (w_cat w1) k = ?row # ?xs"
    "w_bucket w1 = dset (sidecar_uri ?u) (SidecarB sc) (dset ?u (IndexB ix) (w_bucket w))" "cat_ok (w_cat w1)"
    "w_recall w1 = w_recall w" "w_jobs w1 = w_jobs w" "w_last w1 = w_last w"
    and row: "\<And>r. cat_row (w_cat w) k = Some r \<Longrightarrow> cat_row (w_cat w1) k = Some (r\<lparr>d_row_count := max 0 n\<rparr>)"
    using write_shard_ok[OF on cat tick, where ix = ix and sc = sc and n = n and ty = ty and a = ?a and fr = fr and k = k] by blast
  let ?w2 = "set_status w1 k ''indexed'' None ixt now"
  let ?w3 = "sweep_superseded_shards env ?w2 k"
  have cat2: "cat_ok (w_cat ?w2)" using w1(4) by (simp add: set_status_def cat_ok_update_status)
  have l2: "list_shards (w_cat ?w2) k = ?row # ?xs" 
    using list_shards_frame[of "w_cat ?w2" "w_cat w1" k] w1(2) by simp
  let ?live = "\<lambda>s. sh_id s \<in> live_ids (be_keep env) (?row # ?xs)"
  have l3: "list_shards (w_cat ?w3) k = filter ?live (?row # ?xs)" and cat3: "cat_ok (w_cat ?w3)"
    using sweep_shards_listed[OF cat2, of env k] by (simp_all only: l2)
  have lv: "sh_level ?row = 0" "sh_hi ?row = 0" "sh_lsn ?row = lsn" "sh_landing ?row = uris" by (simp_all add: plain_args_def)
  have live: "?live ?row" unfolding in_live_ids using lv(1) by (cases "nat (max 1 (be_keep env))") auto
  have g: "get_latest_shard (w_cat ?w3) k = Some ?row"
    using live by (simp only: get_latest_shard_def l3 filter.simps if_True list.case)
  have bases: "\<forall>s \<in> set (list_shards (w_cat ?w3) k). sh_level s = 0 \<and> sh_hi s = 0 \<and> sh_lsn s \<le> lsn"
    using pt lsn lv unfolding l3 by (auto simp: plain_tier_def)
  have wm: "dataset_watermark (w_cat ?w3) k = lsn"
    using watermark_base[of "list_shards (w_cat ?w3) k"] bases live lv(3) unfolding dataset_watermark_def l3
    by (simp del: new_row_simps)
  let ?stale = "superseded_shards (w_cat ?w2) k (be_keep env)"
  have stale: "set ?stale \<subseteq> set ?xs" using live unfolding superseded_shards_def l2 by (auto simp: superseded_of_def)
  have b3: "w_bucket ?w3 = foldl (\<lambda>b s. try_delete env (try_delete env b (sh_uri s)) (sidecar_uri (sh_uri s))) (w_bucket w1) ?stale"
    by (simp add: sweep_superseded_shards_def Let_def)
  have keepu: "dget (w_bucket ?w3) x = dget (w_bucket w1) x" if "x = ?u \<or> x = sidecar_uri ?u" for x
    unfolding b3 using that stale fresh by (intro sweep_bucket_other[OF on]) (auto simp: fresh_uri_def)
  have st: "stored env fx dm (w_bucket ?w3) ?u ix sc ids"
    using keepu ok has_scheme_shard_uri[OF on] by (simp add: stored_def w1(3) pdict_simps)
  have cold: "cold_docs env fx ?w3 k = ix_docs env fx ix sc"
    using st by (intro cold_docs_stored[OF on g]) simp
  have "plain_tier env fx dm ?w3 k"
    unfolding plain_tier_def wm g using cat3 bases st by (simp add: exI[of _ ix] exI[of _ sc] exI[of _ ids])
  moreover have "dget (w_bucket ?w3) x \<noteq> None \<longrightarrow> x = ?u \<or> x = sidecar_uri ?u \<or> dget (w_bucket w) x \<noteq> None" for x
    using sweep_bucket_sub[OF on, of "w_bucket w1" ?stale x] unfolding b3 w1(3) by (auto simp: pdict_simps split: if_splits)
  moreover have "\<exists>r'. cat_row (w_cat ?w3) k = Some r' \<and> d_status r' = ''indexed'' \<and> d_row_count r' = max 0 n"
    if r: "cat_row (w_cat w) k = Some r" for r
  proof -
    obtain r' where "cat_row (w_cat ?w2) k = Some r'" "d_status r' = ''indexed''" "d_row_count r' = max 0 n"
      using cat_row_status[OF row[OF r], of "''indexed''" None ixt now] by (auto simp: set_status_def)
    moreover have "cat_row (w_cat ?w3) k = cat_row (w_cat ?w2) k" by (simp add: sweep_superseded_shards_def Let_def)
    ultimately show ?thesis by simp
  qed
  moreover have "sh_count ?row = n" by (simp add: new_row_def shard_row_def)
  ultimately have "committed env fx dm w ?w3 k ix sc ?row"
    unfolding committed_def using g cold w1(5,6,7) by simp
  with w1(1) show thesis by (rule that)
qed

end
