(* ===== verification/Fold_World.thy ===== *)
theory Fold_World
  imports Cold_Tier
begin

text \<open>
  One consolidation, one landing build and one delete as steps on the whole state, with the delta
  tier off: what the new shard holds, and that the invariant of \<open>Cold_Tier\<close> survives.
\<close>

section \<open>One consolidation\<close>

text \<open>The recall rows a build can take: distinct ids without int64 collisions, one width.\<close>

definition rows_ok :: "benv \<Rightarrow> int \<Rightarrow> snap list \<Rightarrow> bool" where
  "rows_ok env dm rows \<longleftrightarrow> distinct (map s_id rows) \<and> inj_on (id64 env) (s_id ` set rows) \<and>
     (\<forall>r \<in> set (live_of rows). int (length (s_values r)) = dm)"

lemma rows_ok_batch:
  assumes "rows_ok env dm rows"
  shows "batch_ok env dm (map s_id (live_of rows)) (map (\<lambda>r. f32_vec env (s_values r)) (live_of rows))
    (map s_metadata (live_of rows))" (is ?b)
    and "distinct (map (id64 env) (map s_id (live_of rows)))" (is ?d)
proof -
  have "distinct (map s_id (live_of rows))" using assms by (simp add: rows_ok_def live_of_def distinct_map_filter)
  moreover have "inj_on (id64 env) (set (map s_id (live_of rows)))"
    using assms by (auto simp: rows_ok_def live_of_def intro: inj_on_subset)
  ultimately show d: ?d by (simp only: distinct_map[of "id64 env"])
  have w: "\<forall>r \<in> set (live_of rows). int (length (s_values r)) = dm" using assms by (simp add: rows_ok_def)
  show ?b unfolding batch_ok_def row_width_def using w d by (simp add: f32_vec_def)
qed

text \<open>The index a plain fold commits, whether or not the dataset has a shard.\<close>

definition fold_args :: "shard option \<Rightarrow> int \<Rightarrow> shard_args" where
  "fold_args latest lsn = plain_args ''consolidate'' (case latest of None \<Rightarrow> [] | Some s \<Rightarrow> sh_landing s) lsn"

lemma plain_fold_ok:
  assumes laws: "faiss_laws fx" and so: "set_order_ok env" and dm: "0 < dm" and on: "online env"
    and pt: "plain_tier env fx dm w k" and rows: "rows_ok env dm rows"
    and some: "get_latest_shard (w_cat w) k \<noteq> None \<or> live_of rows \<noteq> []"
  obtains ix sc ty ns where "build_plain_fold env fx w k (get_latest_shard (w_cat w) k) (live_of rows) (dead_ids rows) lsn now fr =
      (case write_shard env w k ix sc (int (length ns)) ty (fold_args (get_latest_shard (w_cat w) k) lsn) now fr of
         (Inl e, w1) \<Rightarrow> (Inl e, w1) | (Inr u, w1) \<Rightarrow> (Inr (Some u), w1))"
    and "ix_ok env fx dm ix sc ns"
    and "\<And>v. inj_on (id64 env) (insert v (s_id ` set rows)) \<Longrightarrow>
      ix_docs env fx ix sc v = apply_rows (cold_docs env fx w k) (map (f32_row env) rows) v"
proof -
  let ?live = "live_of rows" and ?latest = "get_latest_shard (w_cat w) k"
  let ?vs = "map (\<lambda>r. f32_vec env (s_values r)) ?live"
  let ?m = "if ?live = [] then (0, []) else (dm, ?vs)"
  note b = rows_ok_batch[OF rows]
  have dst: "distinct (map s_id rows)" using rows by (simp add: rows_ok_def)
  have wd: "\<forall>r \<in> set ?live. int (length (s_values r)) = dm" using rows by (simp add: rows_ok_def)
  note rm = rows_matrix_ok[OF wd, of env]
  show thesis
  proof (cases ?latest)
    case None
    then have ne: "?live \<noteq> []" using some by simp
    obtain ix sc ty ns where f: "full_build env fx (map s_id ?live) (dm, ?vs) (map s_metadata ?live) = Inr (ix, sc, ty, int (length ns))"
      and ok: "ix_ok env fx dm ix sc ns"
      and d: "\<forall>n. doc_at fx ix sc n = new_docs env (map s_id ?live) ?vs (map s_metadata ?live) n"
      using full_build_ok[OF laws dm b(1)] by blast
    have cold: "cold_docs env fx w k = Map.empty" by (simp add: cold_docs_def None fun_eq_iff)
    have e: "entry_docs env Map.empty = Map.empty" by (simp add: entry_docs_def fun_eq_iff)
    have d': "\<forall>n. doc_at fx ix sc n = merged (new_docs env (map s_id ?live) ?vs (map s_metadata ?live))
        (id64 env ` (s_id ` set ?live \<union> set (dead_ids rows))) Map.empty n"
      using d by (simp add: merged_def split: option.split)
    show thesis
    proof (rule that[OF _ ok])
      show "build_plain_fold env fx w k ?latest ?live (dead_ids rows) lsn now fr =
        (case write_shard env w k ix sc (int (length ns)) ty (fold_args ?latest lsn) now fr of
           (Inl e, w1) \<Rightarrow> (Inl e, w1) | (Inr u, w1) \<Rightarrow> (Inr (Some u), w1))"
        using ne f by (simp add: build_plain_fold_def rm None fold_args_def)
    qed (use fold_docs[OF dst _ b(1) d'] cold e in simp)
  next
    case (Some s)
    obtain ix0 sc0 ids0 where st: "stored env fx dm (w_bucket w) (sh_uri s) ix0 sc0 ids0"
      using pt Some by (auto simp: plain_tier_def)
    obtain ix sc ty ns where f: "fold_into env fx (w_bucket w) s ?live (dead_ids rows) ?m = Inr (ix, sc, ty, int (length ns))"
      and ok: "ix_ok env fx dm ix sc ns"
      and d: "\<forall>n. doc_at fx ix sc n = merged (new_docs env (map s_id ?live) ?vs (map s_metadata ?live))
        (id64 env ` (s_id ` set ?live \<union> set (dead_ids rows))) (doc_at fx ix0 sc0) n"
      using fold_into_ok[OF laws so dm on st wd b(2), of "dead_ids rows"] by blast
    have cold: "cold_docs env fx w k = entry_docs env (doc_at fx ix0 sc0)"
      using cold_docs_stored[OF on Some st] by (simp add: ix_docs_def fun_eq_iff)
    show thesis
    proof (rule that[OF _ ok])
      show "build_plain_fold env fx w k ?latest ?live (dead_ids rows) lsn now fr =
        (case write_shard env w k ix sc (int (length ns)) ty (fold_args ?latest lsn) now fr of
           (Inl e, w1) \<Rightarrow> (Inl e, w1) | (Inr u, w1) \<Rightarrow> (Inr (Some u), w1))"
        using f by (simp add: build_plain_fold_def rm Some fold_args_def)
    qed (use fold_docs[OF dst _ b(1) d] cold in simp)
  qed
qed

lemma consolidate_ok:
  assumes laws: "faiss_laws fx" and so: "set_order_ok env" and dm: "0 < dm" and on: "online env"
    and plain: "\<not> be_delta_tier env" and re: "recall_enabled (be_recall env)"
    and pt: "plain_tier env fx dm w k" and tick: "cat_tick (w_cat w) now" and fresh: "fresh_uri env w k fr"
    and snap: "recall_snapshot_for_consolidation (be_pg env) (be_recall env) (w_recall w) k = Inr (lsn, rows)"
    and ne: "lsn \<noteq> 0" "rows \<noteq> []" and rows: "rows_ok env dm rows"
    and mono: "dataset_watermark (w_cat w) k \<le> lsn"
    and some: "get_latest_shard (w_cat w) k \<noteq> None \<or> live_of rows \<noteq> []"
  obtains w1 ix sc s where "committed env fx dm w w1 k ix sc s" and "sh_lsn s = lsn"
    and "sh_landing s = (case get_latest_shard (w_cat w) k of None \<Rightarrow> [] | Some s \<Rightarrow> sh_landing s)"
    and "\<And>v. inj_on (id64 env) (insert v (s_id ` set rows)) \<Longrightarrow>
      ix_docs env fx ix sc v = apply_rows (cold_docs env fx w k) (map (f32_row env) rows) v"
    and "run_consolidate_once env fx True w k now fr fr' = (int (length (live_of rows)),
      mark_build (w1\<lparr>w_recall := snd (recall_trim (be_recall env) (w_recall w1) k (grace_watermark (w_cat w1) k (be_keep env)))\<rparr>)
        ''consolidate'' (int (length (live_of rows))) [])"
proof -
  let ?latest = "get_latest_shard (w_cat w) k" and ?live = "live_of rows"
  obtain ix sc ty ns where f: "build_plain_fold env fx w k ?latest ?live (dead_ids rows) lsn now fr =
      (case write_shard env w k ix sc (int (length ns)) ty (fold_args ?latest lsn) now fr of
         (Inl e, w1) \<Rightarrow> (Inl e, w1) | (Inr u, w1) \<Rightarrow> (Inr (Some u), w1))"
    and ok: "ix_ok env fx dm ix sc ns"
    and docs: "\<And>v. inj_on (id64 env) (insert v (s_id ` set rows)) \<Longrightarrow>
      ix_docs env fx ix sc v = apply_rows (cold_docs env fx w k) (map (f32_row env) rows) v"
    by (rule plain_fold_ok[OF laws so dm on pt rows some, where lsn = lsn and now = now and fr = fr]) (rule that)
  let ?uris = "case ?latest of None \<Rightarrow> [] | Some s \<Rightarrow> sh_landing s"
  obtain w0 where w0: "write_shard env w k ix sc (int (length ns)) ty (plain_args ''consolidate'' ?uris lsn) now fr =
      (Inr (compute_shard_uri env k fr), w0)"
    and c: "committed env fx dm w (sweep_superseded_shards env (set_status w0 k ''indexed'' None (Some now) now) k) k ix sc
      (new_row env w k (int (length ns)) ty (plain_args ''consolidate'' ?uris lsn) now fr)"
    by (rule commit_ok[OF on pt tick fresh ok mono, where n = "int (length ns)" and ty = ty and bt = "''consolidate''"
        and uris = ?uris and ixt = "Some now"]) (rule that)
  let ?w1 = "sweep_superseded_shards env (set_status w0 k ''indexed'' None (Some now) now) k"
  have off: "delta_tier_applies env c l = False" for c l using plain by (simp add: delta_tier_applies_def)
  have bc: "build_consolidated_shard env fx w k ?latest ?live (dead_ids rows) lsn now fr =
      (Inr (Some (compute_shard_uri env k fr)), w0)"
    by (simp only: build_consolidated_shard_def off if_False f fold_args_def w0 prod.case sum.case)
  have major: "maybe_major_compaction env fx v k now fr' = v" for v using plain by (simp add: maybe_major_compaction_def)
  have cond: "(lsn = 0 \<or> rows = []) = False" using ne by simp
  have "run_consolidate_once env fx True w k now fr fr' = (int (length ?live),
      mark_build (?w1\<lparr>w_recall := snd (recall_trim (be_recall env) (w_recall ?w1) k (grace_watermark (w_cat ?w1) k (be_keep env)))\<rparr>)
        ''consolidate'' (int (length ?live)) [])"
    using re by (simp only: run_consolidate_once_def run_consolidate_locked_def snap sum.case prod.case cond if_False
      above_frontier_def off bc option.case major Let_def not_True_eq_False)
  then show thesis using that[OF c _ _ docs] by (simp add: plain_args_def)
qed

end
