(* ===== verification/System.thy ===== *)
theory System
  imports Fold_World
begin

text \<open>
  The write path, the consolidation and the reader together: the union a query reads over recall and
  cold tier, the invariant \<open>synced\<close> that ties the two tiers, and runs of writes and consolidations
  against the abstract map of documents a client has in mind. Stored vectors are float32; documents
  are compared after that rounding.
\<close>

definition look_of :: "benv \<Rightarrow> 'i world \<Rightarrow> key \<Rightarrow> vid \<Rightarrow> cell option" where
  "look_of env w k = rs_look (be_pg env) (be_recall env) (w_recall w) k"

text \<open>What a query sees: recall rows above the watermark over the newest shard.\<close>

definition reader :: "benv \<Rightarrow> 'i faiss \<Rightarrow> 'i world \<Rightarrow> key \<Rightarrow> vid \<Rightarrow> doc option" where
  "reader env fx w k = overlay (look_of env w k) (dataset_watermark (w_cat w) k) (cold_docs env fx w k)"

definition rounded :: "benv \<Rightarrow> doc option \<Rightarrow> doc option" where
  "rounded env d = map_option (\<lambda>(v, md). (f32_vec env v, md)) d"

definition f32_idem :: "benv \<Rightarrow> bool" where
  "f32_idem env \<longleftrightarrow> (\<forall>x. be_f32 env (be_f32 env x) = be_f32 env x)"

text \<open>
  The two tiers agree: well-formed stores, a watermark the counter has reached and no non-empty
  partition is behind, folded rows that the cold tier repeats, and rows of known ids and width.
\<close>

definition synced :: "benv \<Rightarrow> 'i faiss \<Rightarrow> int \<Rightarrow> vid set \<Rightarrow> 'i world \<Rightarrow> key \<Rightarrow> bool" where
  "synced env fx dm V w k \<longleftrightarrow> plain_tier env fx dm w k \<and> rs_ok (be_pg env) (be_recall env) (w_recall w) \<and>
     dataset_watermark (w_cat w) k \<le> rs_top (be_recall env) (w_recall w) k \<and>
     (\<forall>i c. look_of env w k i = Some c \<longrightarrow>
        dataset_watermark (w_cat w) k \<le> fst (rs_snap (be_pg env) (be_recall env) (w_recall w) k)) \<and>
     (\<forall>i c. look_of env w k i = Some c \<longrightarrow> c_lsn c \<le> dataset_watermark (w_cat w) k \<longrightarrow>
        rounded env (cold_docs env fx w k i) = rounded env (cell_doc c)) \<and>
     (\<forall>i c. look_of env w k i = Some c \<longrightarrow> i \<in> V \<and> (\<not> c_deleted c \<longrightarrow> int (length (c_values c)) = dm))"

lemma f32_vec_idem: "f32_idem env \<Longrightarrow> f32_vec env (f32_vec env v) = f32_vec env v"
  by (simp add: f32_vec_def f32_idem_def)

lemma rounded_row: "f32_idem env \<Longrightarrow> rounded env (cell_doc (snap_cell (f32_row env r))) = rounded env (cell_doc (snap_cell r))"
  by (simp add: rounded_def cell_doc_def snap_cell_def f32_row_def f32_vec_idem)

section \<open>Frames of the recall writes\<close>

lemma cold_docs_cong:
  assumes "w_cat w' = w_cat w" and "w_bucket w' = w_bucket w"
  shows "cold_docs env fx w' k = cold_docs env fx w k"
  unfolding cold_docs_def assms ..

lemma cold_docs_recall [simp]: "cold_docs env fx (w\<lparr>w_recall := s\<rparr>) k = cold_docs env fx w k"
  by (rule cold_docs_cong) simp_all

lemma plain_tier_recall [simp]: "plain_tier env fx dm (w\<lparr>w_recall := s\<rparr>) k \<longleftrightarrow> plain_tier env fx dm w k"
  by (simp add: plain_tier_def)

lemma cold_docs_mark [simp]: "cold_docs env fx (mark_build w ty n us) k = cold_docs env fx w k"
  by (rule cold_docs_cong) (simp_all add: mark_build_def)

lemma plain_tier_mark [simp]: "plain_tier env fx dm (mark_build w ty n us) k \<longleftrightarrow> plain_tier env fx dm w k"
  by (simp add: plain_tier_def mark_build_def)

lemma mark_frame [simp]:
  "w_recall (mark_build w ty n us) = w_recall w" "w_cat (mark_build w ty n us) = w_cat w"
  "w_bucket (mark_build w ty n us) = w_bucket w" "w_jobs (mark_build w ty n us) = w_jobs w"
  by (simp_all add: mark_build_def)

lemma synced_snap:
  assumes "synced env fx dm V w k"
  shows "recall_snapshot_for_consolidation (be_pg env) (be_recall env) (w_recall w) k =
    Inr (rs_snap (be_pg env) (be_recall env) (w_recall w) k)"
  using assms by (intro rs_snap_Inr) (simp add: synced_def)

text \<open>The snapshot's rows are exactly the cells.\<close>

lemma snap_rows:
  assumes "synced env fx dm V w k" and "rs_snap (be_pg env) (be_recall env) (w_recall w) k = (lsn, rows)"
  shows "r \<in> set rows \<longleftrightarrow> look_of env w k (s_id r) = Some (snap_cell r)" and "distinct (map s_id rows)"
    and "r \<in> set rows \<Longrightarrow> s_lsn r \<le> lsn" and "lsn \<le> rs_top (be_recall env) (w_recall w) k"
proof -
  have ok: "rs_ok (be_pg env) (be_recall env) (w_recall w)" using assms(1) by (simp add: synced_def)
  show "r \<in> set rows \<longleftrightarrow> look_of env w k (s_id r) = Some (snap_cell r)"
    using rs.snapshot_rows[OF ok, of r k] assms(2) by (simp add: look_of_def)
  show "distinct (map s_id rows)" using rs.snapshot_distinct[OF ok, of k] assms(2) by simp
  show "r \<in> set rows \<Longrightarrow> s_lsn r \<le> lsn"
    using rs.snapshot_bound[of r "be_pg env" "be_recall env" "w_recall w" k] assms(2) by simp
  show "lsn \<le> rs_top (be_recall env) (w_recall w) k" using rs.snapshot_top[OF ok, of k] assms(2) by simp
qed

lemma look_row:
  assumes "synced env fx dm V w k" and "rs_snap (be_pg env) (be_recall env) (w_recall w) k = (lsn, rows)"
    and "look_of env w k i = Some c"
  obtains r where "r \<in> set rows" and "s_id r = i" and "snap_cell r = c"
proof -
  have ok: "rs_ok (be_pg env) (be_recall env) (w_recall w)" using assms(1) by (simp add: synced_def)
  show thesis
    by (rule rs.look_snapshot[OF ok assms(3)[unfolded look_of_def]]) (use assms(2) that in simp)
qed

lemma synced_rows_ok:
  assumes s: "synced env fx dm V w k" and sn: "rs_snap (be_pg env) (be_recall env) (w_recall w) k = (lsn, rows)"
    and inj: "inj_on (id64 env) V"
  shows "rows_ok env dm rows" and "s_id ` set rows \<subseteq> V"
proof -
  have v: "s_id r \<in> V \<and> (\<not> s_deleted r \<longrightarrow> int (length (s_values r)) = dm)" if "r \<in> set rows" for r
  proof -
    have "look_of env w k (s_id r) = Some (snap_cell r)" using that snap_rows(1)[OF s sn] by blast
    then have "s_id r \<in> V \<and> (\<not> c_deleted (snap_cell r) \<longrightarrow> int (length (c_values (snap_cell r))) = dm)"
      using s unfolding synced_def by blast
    then show ?thesis by (simp add: snap_cell_def)
  qed
  then show sub: "s_id ` set rows \<subseteq> V" by blast
  show "rows_ok env dm rows"
    unfolding rows_ok_def using snap_rows(2)[OF s sn] inj_on_subset[OF inj sub] v by (auto simp: live_of_def)
qed

section \<open>Writes\<close>

definition sys_upsert :: "benv \<Rightarrow> 'i world \<Rightarrow> key \<Rightarrow> time \<Rightarrow> vrec list \<Rightarrow> 'i world" where
  "sys_upsert env w k now recs =
     w\<lparr>w_recall := snd (recall_upsert_vectors (be_pg env) (be_recall env) (w_recall w) k now recs)\<rparr>"

definition sys_delete :: "benv \<Rightarrow> 'i world \<Rightarrow> key \<Rightarrow> time \<Rightarrow> vid \<Rightarrow> int \<Rightarrow> 'i world" where
  "sys_delete env w k now i dm =
     w\<lparr>w_recall := snd (recall_delete_vector (be_pg env) (be_recall env) (w_recall w) k now i dm)\<rparr>"

lemma syncedD:
  assumes "synced env fx dm V w k"
  shows "plain_tier env fx dm w k" and "rs_ok (be_pg env) (be_recall env) (w_recall w)"
    and "dataset_watermark (w_cat w) k \<le> rs_top (be_recall env) (w_recall w) k"
    and "look_of env w k i = Some c \<Longrightarrow>
      dataset_watermark (w_cat w) k \<le> fst (rs_snap (be_pg env) (be_recall env) (w_recall w) k)"
    and "look_of env w k i = Some c \<Longrightarrow> c_lsn c \<le> dataset_watermark (w_cat w) k \<Longrightarrow>
      rounded env (cold_docs env fx w k i) = rounded env (cell_doc c)"
    and "look_of env w k i = Some c \<Longrightarrow> i \<in> V"
    and "look_of env w k i = Some c \<Longrightarrow> \<not> c_deleted c \<Longrightarrow> int (length (c_values c)) = dm"
  using assms unfolding synced_def by blast+

lemma bound_after:
  assumes "rs_ok penv cfg s'" and "rs_look penv cfg s' k i = Some c" and "m \<le> c_lsn c"
  shows "m \<le> fst (rs_snap penv cfg s' k)"
  using rs.look_bound[OF assms(1,2)] assms(3) by simp

lemma synced_upsert:
  assumes s: "synced env fx dm V w k"
    and recs: "\<forall>r \<in> set recs. rec_id r \<in> V \<and> int (length (rs_store (be_pg env) (be_recall env) (rec_values r))) = dm"
  shows "synced env fx dm V (sys_upsert env w k now recs) k"
proof -
  note ok = syncedD(2)[OF s] and wm = syncedD(3)[OF s]
  let ?w = "sys_upsert env w k now recs" and ?m = "dataset_watermark (w_cat w) k"
  let ?s' = "snd (recall_upsert_vectors (be_pg env) (be_recall env) (w_recall w) k now recs)"
  have lk: "look_of env ?w k i = rs_look (be_pg env) (be_recall env) ?s' k i" for i
    by (simp add: look_of_def sys_upsert_def)
  have ok': "rs_ok (be_pg env) (be_recall env) ?s'" using rs.upsert_ok[OF ok] .
  have cases: "(\<exists>r \<in> set recs. rec_id r = i \<and> ?m < c_lsn c \<and> c_values c = rs_store (be_pg env) (be_recall env) (rec_values r)) \<or>
      look_of env w k i = Some c" if c: "look_of env ?w k i = Some c" for i c
  proof (cases "find_last (\<lambda>r. rec_id r = i) recs")
    case None
    then have "i \<notin> rec_id ` set recs" by (auto simp: find_last_None)
    from rs.upsert_miss[OF ok this, of k now] c[unfolded lk] show ?thesis by (simp add: look_of_def)
  next
    case (Some r)
    from rs.upsert_hit[OF ok Some, of k now] c wm find_last_SomeD[OF Some] show ?thesis
      unfolding lk by (intro disjI1 bexI[of _ r]) auto
  qed
  have bound: "?m \<le> fst (rs_snap (be_pg env) (be_recall env) ?s' k)" if c: "look_of env ?w k i = Some c" for i c
  proof (cases "?m < c_lsn c")
    case True
    then show ?thesis using bound_after[OF ok' c[unfolded lk]] by simp
  next
    case False
    then have o: "look_of env w k i = Some c" using cases[OF c] by auto
    from rs.bound_upsert[OF ok o[unfolded look_of_def], of now recs] syncedD(4)[OF s o] show ?thesis by simp
  qed
  have top: "?m \<le> rs_top (be_recall env) ?s' k"
    using rs.upsert_top[where env = "be_pg env" and cfg = "be_recall env" and s = "w_recall w" and k = k and now = now and recs = recs] wm by simp
  have fr: "cold_docs env fx ?w k = cold_docs env fx w k" "plain_tier env fx dm ?w k" "w_cat ?w = w_cat w" "w_recall ?w = ?s'"
    using syncedD(1)[OF s] by (simp_all add: sys_upsert_def)
  have ag: "rounded env (cold_docs env fx w k i) = rounded env (cell_doc c)"
    if c: "look_of env ?w k i = Some c" "c_lsn c \<le> ?m" for i c
    using cases[OF c(1)] c(2) syncedD(5)[OF s] by auto
  have idw: "i \<in> V \<and> (\<not> c_deleted c \<longrightarrow> int (length (c_values c)) = dm)" if c: "look_of env ?w k i = Some c" for i c
    using cases[OF c] recs syncedD(6,7)[OF s] by auto
  show ?thesis
    unfolding synced_def fr(1,3,4) using fr(2) ok' top bound ag idw by blast
qed

lemma synced_delete:
  assumes s: "synced env fx dm V w k" and i: "i \<in> V"
  shows "synced env fx dm V (sys_delete env w k now i dl) k"
proof -
  note ok = syncedD(2)[OF s] and wm = syncedD(3)[OF s]
  let ?w = "sys_delete env w k now i dl" and ?m = "dataset_watermark (w_cat w) k"
  let ?s' = "snd (recall_delete_vector (be_pg env) (be_recall env) (w_recall w) k now i dl)"
  have lk: "look_of env ?w k j = rs_look (be_pg env) (be_recall env) ?s' k j" for j
    by (simp add: look_of_def sys_delete_def)
  have ok': "rs_ok (be_pg env) (be_recall env) ?s'" using rs.delete_ok[OF ok] .
  have cases: "j = i \<and> c_deleted c \<and> ?m < c_lsn c \<or> look_of env w k j = Some c"
    if c: "look_of env ?w k j = Some c" for j c
  proof (cases "j = i")
    case True
    with rs.delete_hit[OF ok, of k now i dl] c wm show ?thesis by (auto simp: lk)
  next
    case False
    with rs.delete_miss[OF ok, of j i k now dl] c[unfolded lk] show ?thesis by (simp add: look_of_def)
  qed
  have bound: "?m \<le> fst (rs_snap (be_pg env) (be_recall env) ?s' k)" if c: "look_of env ?w k j = Some c" for j c
  proof (cases "?m < c_lsn c")
    case True
    then show ?thesis using bound_after[OF ok' c[unfolded lk]] by simp
  next
    case False
    then have o: "look_of env w k j = Some c" using cases[OF c] by auto
    from rs.bound_delete[OF ok o[unfolded look_of_def], of now i dl] syncedD(4)[OF s o] show ?thesis by simp
  qed
  have top: "?m \<le> rs_top (be_recall env) ?s' k"
    using rs.delete_top[where env = "be_pg env" and cfg = "be_recall env" and s = "w_recall w" and k = k and now = now and i = i and dm = dl] wm by simp
  have fr: "cold_docs env fx ?w k = cold_docs env fx w k" "plain_tier env fx dm ?w k" "w_cat ?w = w_cat w" "w_recall ?w = ?s'"
    using syncedD(1)[OF s] by (simp_all add: sys_delete_def)
  have ag: "rounded env (cold_docs env fx w k j) = rounded env (cell_doc c)"
    if c: "look_of env ?w k j = Some c" "c_lsn c \<le> ?m" for j c
    using cases[OF c(1)] c(2) syncedD(5)[OF s] by auto
  have idw: "j \<in> V \<and> (\<not> c_deleted c \<longrightarrow> int (length (c_values c)) = dm)" if c: "look_of env ?w k j = Some c" for j c
    using cases[OF c] i syncedD(6,7)[OF s] by auto
  show ?thesis
    unfolding synced_def fr(1,3,4) using fr(2) ok' top bound ag idw by blast
qed

section \<open>A consolidation\<close>

text \<open>What the union shows of an id, whatever part of its history has been folded.\<close>

lemma rounded_reader:
  assumes "synced env fx dm V w k"
  shows "rounded env (reader env fx w k i) = (case look_of env w k i of
    None \<Rightarrow> rounded env (cold_docs env fx w k i) | Some c \<Rightarrow> rounded env (cell_doc c))"
  using syncedD(5)[OF assms, of i] by (auto simp: reader_def overlay_def split: option.split)

lemma rounded_fold:
  assumes s: "synced env fx dm V w k" and sn: "rs_snap (be_pg env) (be_recall env) (w_recall w) k = (lsn, rows)"
    and idem: "f32_idem env"
  shows "rounded env (apply_rows (cold_docs env fx w k) (map (f32_row env) rows) i) = rounded env (reader env fx w k i)"
proof (cases "look_of env w k i")
  case None
  then have "i \<notin> s_id ` set (map (f32_row env) rows)" using snap_rows(1)[OF s sn] by (auto simp: f32_row_def)
  with None show ?thesis by (simp add: rounded_reader[OF s] apply_rows_notin)
next
  case (Some c)
  obtain r where r: "r \<in> set rows" "s_id r = i" "snap_cell r = c" by (rule look_row[OF s sn Some])
  have "distinct (map s_id (map (f32_row env) rows))" using snap_rows(2)[OF s sn] by (simp add: f32_row_def comp_def)
  from apply_rows_in[OF this, of "f32_row env r"] r
  have "apply_rows (cold_docs env fx w k) (map (f32_row env) rows) i = cell_doc (snap_cell (f32_row env r))"
    by (simp add: f32_row_def)
  then show ?thesis using rounded_row[OF idem, of r] r(3) by (simp add: rounded_reader[OF s] Some)
qed

lemma consolidate_nothing:
  assumes plain: "\<not> be_delta_tier env"
    and "\<not> recall_enabled (be_recall env) \<or> \<not> acquired \<or> lsn = 0 \<or> rows = [] \<or>
      get_latest_shard (w_cat w) k = None \<and> live_of rows = []"
    and snap: "recall_snapshot_for_consolidation (be_pg env) (be_recall env) (w_recall w) k = Inr (lsn, rows)"
  shows "snd (run_consolidate_once env fx acquired w k now fr fr') = w"
proof -
  have off: "delta_tier_applies env c l = False" for c l using plain by (simp add: delta_tier_applies_def)
  have "build_consolidated_shard env fx w k None [] (dead_ids rows) lsn now fr = (Inr None, w)"
    by (simp add: build_consolidated_shard_def off build_plain_fold_def rows_matrix_def)
  then have "get_latest_shard (w_cat w) k = None \<Longrightarrow> live_of rows = [] \<Longrightarrow>
      snd (run_consolidate_locked env fx w k now fr fr') = w"
    by (simp add: run_consolidate_locked_def snap above_frontier_def off Let_def)
  moreover have "lsn = 0 \<or> rows = [] \<Longrightarrow> run_consolidate_locked env fx w k now fr fr' = (0, w)"
    by (simp add: run_consolidate_locked_def snap)
  ultimately show ?thesis using assms(2) unfolding run_consolidate_once_def by (cases "recall_enabled (be_recall env)"; cases acquired) auto
qed

lemma synced_consolidate:
  fixes acquired :: bool and fr' :: fresh
  assumes laws: "faiss_laws fx" and so: "set_order_ok env" and dm: "0 < dm" and on: "online env"
    and plain: "\<not> be_delta_tier env" and idem: "f32_idem env" and inj: "inj_on (id64 env) V"
    and s: "synced env fx dm V w k" and tick: "cat_tick (w_cat w) now" and fresh: "fresh_uri env w k fr"
  defines "w' \<equiv> snd (run_consolidate_once env fx acquired w k now fr fr')"
  shows "synced env fx dm V w' k \<and> (\<forall>v \<in> V. rounded env (reader env fx w' k v) = rounded env (reader env fx w k v))"
proof -
  obtain lsn rows where sn: "rs_snap (be_pg env) (be_recall env) (w_recall w) k = (lsn, rows)" by fastforce
  have snap: "recall_snapshot_for_consolidation (be_pg env) (be_recall env) (w_recall w) k = Inr (lsn, rows)"
    using synced_snap[OF s] sn by simp
  note ok = syncedD(2)[OF s]
  show ?thesis
  proof (cases "\<not> recall_enabled (be_recall env) \<or> \<not> acquired \<or> lsn = 0 \<or> rows = [] \<or>
      get_latest_shard (w_cat w) k = None \<and> live_of rows = []")
    case True
    then have "w' = w" unfolding w'_def by (rule consolidate_nothing[OF plain _ snap])
    with s show ?thesis by simp
  next
    case False
    then have re: "recall_enabled (be_recall env)" and acq: "acquired" and ne: "lsn \<noteq> 0" "rows \<noteq> []"
      and some: "get_latest_shard (w_cat w) k \<noteq> None \<or> live_of rows \<noteq> []" by auto
    note rok = synced_rows_ok[OF s sn inj]
    obtain r0 where "r0 \<in> set rows" using ne(2) by (cases rows) auto
    then have l0: "look_of env w k (s_id r0) = Some (snap_cell r0)" using snap_rows(1)[OF s sn] by simp
    have mono: "dataset_watermark (w_cat w) k \<le> lsn" using syncedD(4)[OF s l0] sn by simp
    have pos: "0 < lsn"
      using rs.look_bounds[OF ok l0[unfolded look_of_def]] rs.look_bound[OF ok l0[unfolded look_of_def]] sn by simp
    obtain w1 ix sc sh where c: "committed env fx dm w w1 k ix sc sh" and lsn1: "sh_lsn sh = lsn"
      and docs: "\<And>v. inj_on (id64 env) (insert v (s_id ` set rows)) \<Longrightarrow>
        ix_docs env fx ix sc v = apply_rows (cold_docs env fx w k) (map (f32_row env) rows) v"
      and run: "run_consolidate_once env fx True w k now fr fr' = (int (length (live_of rows)),
        mark_build (w1\<lparr>w_recall := snd (recall_trim (be_recall env) (w_recall w1) k (grace_watermark (w_cat w1) k (be_keep env)))\<rparr>)
          ''consolidate'' (int (length (live_of rows))) [])"
      by (rule consolidate_ok[OF laws so dm on plain re syncedD(1)[OF s] tick fresh snap ne rok(1) mono some]) (rule that)
    let ?g = "grace_watermark (w_cat w1) k (be_keep env)"
    let ?s' = "snd (recall_trim (be_recall env) (w_recall w) k ?g)"
    have rec1: "w_recall w1 = w_recall w" and pt1: "plain_tier env fx dm w1 k" and lat: "get_latest_shard (w_cat w1) k = Some sh"
      and cold1: "cold_docs env fx w1 k = ix_docs env fx ix sc"
      using c by (simp_all add: committed_def)
    have w': "w' = mark_build (w1\<lparr>w_recall := ?s'\<rparr>) ''consolidate'' (int (length (live_of rows))) []"
      using run acq by (simp add: w'_def rec1)
    have fr': "w_recall w' = ?s'" "w_cat w' = w_cat w1" "plain_tier env fx dm w' k" "cold_docs env fx w' k = cold_docs env fx w1 k"
      using pt1 by (simp_all add: w')
    have wm: "dataset_watermark (w_cat w') k = lsn"
      using plain_watermark[OF pt1] lat lsn1 fr'(2) by (simp add: shard_lsn_or0_def)
    have cold: "cold_docs env fx w' k v = apply_rows (cold_docs env fx w k) (map (f32_row env) rows) v" if "v \<in> V" for v
    proof -
      have "insert v (s_id ` set rows) \<subseteq> V" using that rok(2) by blast
      from docs[OF inj_on_subset[OF inj this]] show ?thesis using fr'(4) cold1 by simp
    qed
    have rd: "rounded env (cold_docs env fx w' k v) = rounded env (reader env fx w k v)" if "v \<in> V" for v
      using cold[OF that] rounded_fold[OF s sn idem] by simp
    have lk: "look_of env w' k i = (case look_of env w k i of None \<Rightarrow> None | Some c \<Rightarrow> if c_lsn c \<le> ?g then None else Some c)" for i
      unfolding look_of_def fr'(1) by (rule rs.trim_look[OF ok])
    have old: "look_of env w k i = Some c" if "look_of env w' k i = Some c" for i c
      using that lk[of i] by (auto split: option.splits if_splits)
    have le: "c_lsn c \<le> lsn" if "look_of env w k i = Some c" for i c
      using rs.look_bound[OF ok that[unfolded look_of_def]] sn by simp
    have ok': "rs_ok (be_pg env) (be_recall env) (w_recall w')" unfolding fr'(1) by (rule rs.trim_ok[OF ok])
    have top: "lsn \<le> rs_top (be_recall env) (w_recall w') k"
      using rs.snapshot_top[OF ok, of k] sn unfolding fr'(1) rs.trim_top by simp
    have bound: "lsn \<le> fst (rs_snap (be_pg env) (be_recall env) (w_recall w') k)" if "look_of env w' k i = Some c" for i c
      using rs.bound_trim[OF ok that[unfolded look_of_def fr'(1)]] sn unfolding fr'(1) by simp
    have ag: "rounded env (cold_docs env fx w' k i) = rounded env (cell_doc c)" if c: "look_of env w' k i = Some c" for i c
      using rd[OF syncedD(6)[OF s old[OF c]]] old[OF c] by (simp add: rounded_reader[OF s])
    have sy: "synced env fx dm V w' k"
      unfolding synced_def wm using fr'(3) ok' top bound ag syncedD(6,7)[OF s] old by blast
    moreover have "rounded env (reader env fx w' k v) = rounded env (reader env fx w k v)" if "v \<in> V" for v
    proof -
      have "rounded env (reader env fx w' k v) = rounded env (cold_docs env fx w' k v)"
        using ag[of v] by (simp add: rounded_reader[OF sy] split: option.split)
      then show ?thesis using rd[OF that] by simp
    qed
    ultimately show ?thesis by blast
  qed
qed

end
