(* ===== verification/Landing_World.thy ===== *)
theory Landing_World
  imports System
begin

text \<open>The landing build and the delete as steps on the whole state, with the delta tier off.\<close>

section \<open>The landing sweep\<close>

lemma ends_with_last: "ends_with p x \<Longrightarrow> p \<noteq> [] \<Longrightarrow> x \<noteq> [] \<and> last x = last p"
proof -
  assume e: "ends_with p x" and ne: "p \<noteq> []"
  have "x = take (length x - length p) x @ p" using e append_take_drop_id[of "length x - length p" x]
    by (simp add: ends_with_def)
  then show ?thesis using ne by (metis append_is_Nil_conv last_appendR)
qed

lemma shard_uri_not_parquet:
  "\<not> ends_with ''.parquet'' (compute_shard_uri env k fr)"
  "\<not> ends_with ''.parquet'' (sidecar_uri (compute_shard_uri env k fr))"
proof -
  have "last (compute_shard_uri env k fr) = CHR ''n''" by (simp add: compute_shard_uri_def Let_def)
  moreover have "last (sidecar_uri (compute_shard_uri env k fr)) = CHR ''n''" by (simp add: sidecar_uri_def)
  ultimately show "\<not> ends_with ''.parquet'' (compute_shard_uri env k fr)"
    "\<not> ends_with ''.parquet'' (sidecar_uri (compute_shard_uri env k fr))"
    using ends_with_last[of "''.parquet''"] by force+
qed

lemma try_delete_cases: "try_delete_existing env b u = b \<or> try_delete_existing env b u = ddel u b"
  by (auto simp: try_delete_existing_def try_delete_def storage_delete_def split: sum.split bool.split)

lemma try_delete_existing_other: "x \<noteq> u \<Longrightarrow> dget (try_delete_existing env b u) x = dget b x"
  using try_delete_cases[of env b u] by (auto simp: pdict_simps)

lemma try_delete_existing_sub: "dget (try_delete_existing env b u) x \<noteq> None \<Longrightarrow> dget b x \<noteq> None"
  using try_delete_cases[of env b u] by (auto simp: pdict_simps split: if_splits)

lemma sweep_landing_other: "x \<notin> set us \<Longrightarrow> dget (foldl (try_delete_existing env) b us) x = dget b x"
  by (induction us arbitrary: b) (simp_all add: try_delete_existing_other)

lemma sweep_landing_sub: "dget (foldl (try_delete_existing env) b us) x \<noteq> None \<Longrightarrow> dget b x \<noteq> None"
proof (induction us arbitrary: b)
  case (Cons u us)
  then show ?case using try_delete_existing_sub[of env b u x] by auto
qed simp

lemma sweep_landing_frame [simp]:
  "w_cat (sweep_indexed_landing env w k) = w_cat w" "w_recall (sweep_indexed_landing env w k) = w_recall w"
  "w_jobs (sweep_indexed_landing env w k) = w_jobs w"
  by (simp_all add: sweep_indexed_landing_def Let_def)

lemma sweep_landing_bucket: "dget (w_bucket (sweep_indexed_landing env w k)) x \<noteq> None \<Longrightarrow> dget (w_bucket w) x \<noteq> None"
proof -
  have "\<exists>us. w_bucket (sweep_indexed_landing env w k) = foldl (try_delete_existing env) (w_bucket w) us"
    unfolding sweep_indexed_landing_def Let_def by (simp del: foldl_append) blast
  then show "dget (w_bucket (sweep_indexed_landing env w k)) x \<noteq> None \<Longrightarrow> dget (w_bucket w) x \<noteq> None"
    using sweep_landing_sub by metis
qed

text \<open>No import upload of the dataset is one of the new shard's objects.\<close>

definition uploads_apart :: "benv \<Rightarrow> 'i world \<Rightarrow> key \<Rightarrow> fresh \<Rightarrow> bool" where
  "uploads_apart env w k fr \<longleftrightarrow>
     (\<forall>j \<in> set (list_import_jobs (w_jobs w) k). ij_upload j \<noteq> compute_shard_uri env k fr \<and>
        ij_upload j \<noteq> sidecar_uri (compute_shard_uri env k fr))"

definition manifest_of :: "shard option \<Rightarrow> uri list" where
  "manifest_of latest = (case latest of None \<Rightarrow> [] | Some s \<Rightarrow> sh_landing s)"

lemma sweep_landing_tier:
  assumes on: "online env" and pt: "plain_tier env fx dm w k" and lat: "get_latest_shard (w_cat w) k = Some s"
    and u: "sh_uri s = compute_shard_uri env k fr" and apart: "uploads_apart env w k fr"
    and man: "\<forall>p \<in> set (sh_landing s). ends_with ''.parquet'' p"
  shows "plain_tier env fx dm (sweep_indexed_landing env w k) k"
    and "cold_docs env fx (sweep_indexed_landing env w k) k = cold_docs env fx w k"
proof -
  let ?w = "sweep_indexed_landing env w k" and ?u = "compute_shard_uri env k fr"
  let ?us = "sh_landing s @ filter (\<lambda>u. u \<noteq> []) (map ij_upload
    (filter (\<lambda>j. ij_status j = ''completed'' \<or> ij_status j = ''failed'') (list_import_jobs (w_jobs w) k)))"
  have b: "w_bucket ?w = foldl (try_delete_existing env) (w_bucket w) ?us"
    by (simp add: sweep_indexed_landing_def Let_def lat)
  have "x \<notin> set ?us" if "x = ?u \<or> x = sidecar_uri ?u" for x
    using that man apart shard_uri_not_parquet[of env k fr] by (auto simp: uploads_apart_def)
  then have keep: "dget (w_bucket ?w) x = dget (w_bucket w) x" if "x = ?u \<or> x = sidecar_uri ?u" for x
    unfolding b using that by (intro sweep_landing_other) blast
  obtain ix sc ids where st: "stored env fx dm (w_bucket w) (sh_uri s) ix sc ids"
    using pt lat by (auto simp: plain_tier_def)
  then have st': "stored env fx dm (w_bucket ?w) (sh_uri s) ix sc ids" using keep u by (simp add: stored_def)
  have lat': "get_latest_shard (w_cat ?w) k = Some s" using lat by simp
  show "plain_tier env fx dm ?w k" using pt st' lat unfolding plain_tier_def by auto
  show "cold_docs env fx ?w k = cold_docs env fx w k"
    by (simp only: cold_docs_stored[OF on lat' st'] cold_docs_stored[OF on lat st])
qed

section \<open>The landing build\<close>

lemma read_parts_rows:
  "read_landing_parts down b parts = Inr rows \<Longrightarrow> rows \<noteq> [] \<Longrightarrow> part_width rows = length (lr_values (hd rows))"
  by (cases rows) (simp_all add: part_width_def)

text \<open>The landing rows a build can take.\<close>

definition landing_ok :: "benv \<Rightarrow> int \<Rightarrow> landing_row list \<Rightarrow> bool" where
  "landing_ok env dm rows \<longleftrightarrow> rows \<noteq> [] \<and> (\<forall>r \<in> set rows. int (length (lr_values r)) = dm) \<and>
     inj_on (id64 env) (lr_id ` set rows)"

definition over :: "(vid \<Rightarrow> doc option) \<Rightarrow> landing_row list \<Rightarrow> vid \<Rightarrow> doc option" where
  "over cold rows v = (case last_row_doc rows v of Some d \<Rightarrow> Some d | None \<Rightarrow> cold v)"

definition landing_build :: "benv \<Rightarrow> 'i faiss \<Rightarrow> 'i world \<Rightarrow> key \<Rightarrow> landing_row list \<Rightarrow> pyexc + ('i \<times> sidecar \<times> string \<times> int)" where
  "landing_build env fx w k rows =
     (let (ids, vs, metas) = dedup_batch_last_wins env (map lr_id rows) (map lr_values rows) (map lr_meta rows);
          m = (int (part_width rows), vs)
      in case get_latest_shard (w_cat w) k of
           Some s \<Rightarrow> incremental_build env fx (w_bucket w) s ids m metas
         | None \<Rightarrow> full_build env fx ids m metas)"

lemma landing_build_ok:
  assumes laws: "faiss_laws fx" and so: "set_order_ok env" and dm: "0 < dm" and on: "online env"
    and pt: "plain_tier env fx dm w k" and rows: "landing_ok env dm rows"
  obtains ix sc ty ns rs where "landing_build env fx w k rows = Inr (ix, sc, ty, int (length ns))"
    and "dedup_batch_last_wins env (map lr_id rows) (map lr_values rows) (map lr_meta rows) = row_batch rs"
    and "ix_ok env fx dm ix sc ns" and "length rs = card (lr_id ` set rows)"
    and "\<And>v. inj_on (id64 env) (insert v (lr_id ` set rows)) \<Longrightarrow>
      ix_docs env fx ix sc v = over (cold_docs env fx w k) rows v"
proof -
  obtain rs where de: "dedup_batch_last_wins env (map lr_id rows) (map lr_values rows) (map lr_meta rows) = row_batch rs"
    and sub: "set rs \<subseteq> set rows" and dst: "distinct (map (id64 env) (map lr_id rs))"
    and mem: "\<And>r. r \<in> set rs \<longleftrightarrow> r \<in> set rows \<and> find_last (\<lambda>q. id64 env (lr_id q) = id64 env (lr_id r)) rows = Some r"
    by (rule dedup_rows) (rule that)
  have ne: "rows \<noteq> []" and wd: "\<forall>r \<in> set rows. int (length (lr_values r)) = dm"
    and inj: "inj_on (id64 env) (lr_id ` set rows)" using rows by (auto simp: landing_ok_def)
  have pw: "int (part_width rows) = dm" using ne wd by (cases rows) (auto simp: part_width_def)
  have ids: "lr_id ` set rs = lr_id ` set rows"
  proof
    show "lr_id ` set rs \<subseteq> lr_id ` set rows" using sub by blast
    show "lr_id ` set rows \<subseteq> lr_id ` set rs"
    proof
      fix i
      assume "i \<in> lr_id ` set rows"
      then obtain q where q: "q \<in> set rows" "lr_id q = i" by blast
      then obtain r where r: "find_last (\<lambda>q. id64 env (lr_id q) = id64 env i) rows = Some r"
        using find_last_None[of "\<lambda>q. id64 env (lr_id q) = id64 env i" rows]
        by (cases "find_last (\<lambda>q. id64 env (lr_id q) = id64 env i) rows") auto
      from find_last_SomeD[OF r] have rr: "r \<in> set rows" "id64 env (lr_id r) = id64 env i" by auto
      then have "lr_id r = i" using inj_onD[OF inj, of "lr_id r" i] q by auto
      then have "r \<in> set rs" using mem[of r] rr r by simp
      with \<open>lr_id r = i\<close> show "i \<in> lr_id ` set rs" by blast
    qed
  qed
  have drs: "distinct (map lr_id rs)" using distinct_map[THEN iffD1, OF dst] by (rule conjunct1)
  have card: "length rs = card (lr_id ` set rows)" using distinct_card[OF drs] ids by simp
  have rne: "map lr_id rs \<noteq> []" using ids ne by auto
  let ?ids = "map lr_id rs" and ?vs = "map lr_values rs" and ?ms = "map lr_meta rs"
  have b: "batch_ok env dm ?ids ?vs ?ms" using wd sub dst by (auto simp: batch_ok_def row_width_def)
  have lb: "landing_build env fx w k rows = (case get_latest_shard (w_cat w) k of
      Some s \<Rightarrow> incremental_build env fx (w_bucket w) s ?ids (dm, ?vs) ?ms | None \<Rightarrow> full_build env fx ?ids (dm, ?vs) ?ms)"
    by (simp add: landing_build_def de row_batch_def pw Let_def)
  have docs: "ix_docs env fx ix sc v = over (entry_docs env old) rows v"
    if d: "\<forall>n. doc_at fx ix sc n = merged (new_docs env ?ids ?vs ?ms) (id64 env ` set ?ids) old n"
      and i: "inj_on (id64 env) (insert v (lr_id ` set rows))" for ix sc old v
  proof -
    have i': "inj_on (id64 env) (insert v (set ?ids \<union> {}))" using i ids by simp
    have d': "doc_at fx ix sc (id64 env v) = merged (new_docs env ?ids ?vs ?ms) (id64 env ` (set ?ids \<union> {})) old (id64 env v)"
      using d by simp
    show ?thesis
      using merged_docs[OF b i' d'] batch_doc_rows[OF i sub dst mem] by (simp add: over_def)
  qed
  show thesis
  proof (cases "get_latest_shard (w_cat w) k")
    case None
    obtain ix sc ty ns where f: "full_build env fx ?ids (dm, ?vs) ?ms = Inr (ix, sc, ty, int (length ns))"
      and ok: "ix_ok env fx dm ix sc ns" and d: "\<forall>n. doc_at fx ix sc n = new_docs env ?ids ?vs ?ms n"
      using full_build_ok[OF laws dm b] by blast
    have "\<forall>n. doc_at fx ix sc n = merged (new_docs env ?ids ?vs ?ms) (id64 env ` set ?ids) Map.empty n"
      using d by (simp add: merged_def split: option.split)
    moreover have "cold_docs env fx w k = entry_docs env Map.empty"
      by (simp add: cold_docs_def None entry_docs_def fun_eq_iff)
    ultimately show thesis using that[of ix sc ty ns rs] f ok de card docs by (simp add: lb None)
  next
    case (Some s)
    obtain ix0 sc0 ids0 where st: "stored env fx dm (w_bucket w) (sh_uri s) ix0 sc0 ids0"
      using pt Some by (auto simp: plain_tier_def)
    obtain ix sc ty ns where f: "incremental_build env fx (w_bucket w) s ?ids (dm, ?vs) ?ms = Inr (ix, sc, ty, int (length ns))"
      and ok: "ix_ok env fx dm ix sc ns"
      and d: "\<forall>n. doc_at fx ix sc n = merged (new_docs env ?ids ?vs ?ms) (id64 env ` set ?ids) (doc_at fx ix0 sc0) n"
      using incremental_build_ok[OF laws so dm on st b rne] by blast
    have "cold_docs env fx w k = entry_docs env (doc_at fx ix0 sc0)"
      using cold_docs_stored[OF on Some st] by (simp add: ix_docs_def)
    then show thesis using that[of ix sc ty ns rs] f ok de card docs[OF d] by (simp add: lb Some)
  qed
qed

text \<open>The parts a landing build still has to read.\<close>

definition new_parts :: "benv \<Rightarrow> 'i world \<Rightarrow> key \<Rightarrow> pyexc + uri list" where
  "new_parts env w k =
     (case list_landing_parts (be_down env) (w_bucket w) (landing_prefix env k) of
        Inl e \<Rightarrow> Inl e
      | Inr ps \<Rightarrow> Inr (filter (\<lambda>p. p \<notin> set (manifest_of (get_latest_shard (w_cat w) k))) ps))"

lemma list_parts_parquet:
  "list_landing_parts down b pre = Inr ps \<Longrightarrow> p \<in> set ps \<Longrightarrow> ends_with ''.parquet'' p"
  by (auto simp: list_landing_parts_def split: sum.splits)

lemma list_parts_mem:
  "list_landing_parts down b pre = Inr ps \<Longrightarrow>
   p \<in> set ps \<longleftrightarrow> dget b p \<noteq> None \<and> starts_with (rstrip_slash pre) p \<and> ends_with ''.parquet'' p"
proof -
  assume l: "list_landing_parts down b pre = Inr ps"
  have "dget b p \<noteq> None \<longleftrightarrow> p \<in> set (map fst b)" by (simp add: map_of_eq_None_iff)
  moreover have "ps = sort (filter (ends_with ''.parquet'') (filter (starts_with (rstrip_slash pre)) (map fst b)))"
    using l by (simp add: list_landing_parts_def storage_list_def split: if_splits)
  then have "set ps = {p \<in> set (map fst b). starts_with (rstrip_slash pre) p \<and> ends_with ''.parquet'' p}"
    by (simp only: set_sort set_filter) blast
  ultimately show ?thesis by blast
qed

text \<open>A landing build with nothing new, and one whose parts are read.\<close>

lemma run_once_noop:
  "new_parts env w k = Inr [] \<Longrightarrow> run_once env fx True w k now fr =
   (0, mark_type (w\<lparr>w_last := \<lparr>lb_type = None, lb_added = 0, lb_parts = 0, lb_uris = []\<rparr>\<rparr>) ''noop'')"
  by (auto simp: run_once_def run_once_locked_def new_parts_def manifest_of_def Let_def split: sum.splits)

lemma run_once_step:
  assumes np: "new_parts env w k = Inr ps" "ps \<noteq> []"
    and rd: "read_landing_parts (be_down env) (w_bucket w) ps = Inr rows"
    and ne: "rows \<noteq> []" "part_width rows \<noteq> 0"
    and de: "dedup_batch_last_wins env (map lr_id rows) (map lr_values rows) (map lr_meta rows) = row_batch rs"
    and lb: "landing_build env fx w k rows = Inr (ix, sc, ty, n)"
    and ws: "write_shard env (w\<lparr>w_last := \<lparr>lb_type = None, lb_added = 0, lb_parts = 0, lb_uris = []\<rparr>\<rparr>) k ix sc n ty
      (plain_args (if get_latest_shard (w_cat w) k \<noteq> None then ''incremental'' else ''full'')
        (sorted_uris (manifest_of (get_latest_shard (w_cat w) k) @ ps)) (shard_lsn_or0 (get_latest_shard (w_cat w) k))) now fr =
      (Inr u, w1)"
  shows "run_once env fx True w k now fr = (int (length rs),
    mark_build (sweep_indexed_landing env (sweep_superseded_shards env (set_status w1 k ''indexed'' None (Some now) now) k) k)
      (if get_latest_shard (w_cat w) k \<noteq> None then ''incremental'' else ''full'') (int (length rs)) ps)"
proof -
  obtain all where all: "list_landing_parts (be_down env) (w_bucket w) (landing_prefix env k) = Inr all"
    and ps: "filter (\<lambda>p. p \<notin> set (manifest_of (get_latest_shard (w_cat w) k))) all = ps"
    using np(1) by (auto simp: new_parts_def split: sum.splits)
  have cond: "(rows = [] \<or> part_width rows = 0) = False" "(ps = []) = False" using ne np(2) by simp_all
  have lb': "(case get_latest_shard (w_cat w) k of None \<Rightarrow> full_build env fx (map lr_id rs) (int (part_width rows), map lr_values rs) (map lr_meta rs)
      | Some s \<Rightarrow> incremental_build env fx (w_bucket w) s (map lr_id rs) (int (part_width rows), map lr_values rs) (map lr_meta rs)) =
      Inr (ix, sc, ty, n)"
    using lb by (simp add: landing_build_def de row_batch_def Let_def)
  let ?w = "w\<lparr>w_last := \<lparr>lb_type = None, lb_added = 0, lb_parts = 0, lb_uris = []\<rparr>\<rparr>"
  have sel: "w_cat ?w = w_cat w" "w_bucket ?w = w_bucket w" by simp_all
  show ?thesis
    unfolding run_once_def run_once_locked_def Let_def
    by (simp only: not_True_eq_False if_False sel all sum.case manifest_of_def[symmetric] ps cond rd
        de row_batch_def prod.case lb' ws length_map)
qed

text \<open>The landing build of rows it can take, end to end.\<close>

lemma run_once_ok:
  assumes laws: "faiss_laws fx" and so: "set_order_ok env" and dm: "0 < dm" and on: "online env"
    and pt: "plain_tier env fx dm w k" and tick: "cat_tick (w_cat w) now" and fresh: "fresh_uri env w k fr"
    and apart: "uploads_apart env w k fr"
    and man: "\<forall>p \<in> set (manifest_of (get_latest_shard (w_cat w) k)). ends_with ''.parquet'' p"
    and np: "new_parts env w k = Inr ps" "ps \<noteq> []"
    and rd: "read_landing_parts (be_down env) (w_bucket w) ps = Inr rows" and rows: "landing_ok env dm rows"
  obtains w' where "run_once env fx True w k now fr = (int (card (lr_id ` set rows)), w')"
    and "plain_tier env fx dm w' k" and "dataset_watermark (w_cat w') k = dataset_watermark (w_cat w) k"
    and "w_recall w' = w_recall w"
    and "\<And>v. inj_on (id64 env) (insert v (lr_id ` set rows)) \<Longrightarrow>
      cold_docs env fx w' k v = over (cold_docs env fx w k) rows v"
    and "set (manifest_of (get_latest_shard (w_cat w') k)) = set (manifest_of (get_latest_shard (w_cat w) k)) \<union> set ps"
    and "\<And>r. cat_row (w_cat w) k = Some r \<Longrightarrow> \<exists>r'. cat_row (w_cat w') k = Some r' \<and> d_status r' = ''indexed''"
    and "new_parts env w' k = Inr []"
    and "w_jobs w' = w_jobs w" and "lb_type (w_last w') \<noteq> Some ''error''"
proof -
  let ?w = "w\<lparr>w_last := \<lparr>lb_type = None, lb_added = 0, lb_parts = 0, lb_uris = []\<rparr>\<rparr>"
  let ?latest = "get_latest_shard (w_cat w) k"
  let ?uris = "sorted_uris (manifest_of ?latest @ ps)" and ?bt = "if ?latest \<noteq> None then ''incremental'' else ''full''"
  have ne: "rows \<noteq> []" "part_width rows \<noteq> 0"
    using rows dm by (cases rows, auto simp: landing_ok_def part_width_def)+
  obtain ix sc ty ns rs where lb: "landing_build env fx w k rows = Inr (ix, sc, ty, int (length ns))"
    and de: "dedup_batch_last_wins env (map lr_id rows) (map lr_values rows) (map lr_meta rows) = row_batch rs"
    and ok: "ix_ok env fx dm ix sc ns" and card: "length rs = card (lr_id ` set rows)"
    and docs: "\<And>v. inj_on (id64 env) (insert v (lr_id ` set rows)) \<Longrightarrow>
      ix_docs env fx ix sc v = over (cold_docs env fx w k) rows v"
    by (rule landing_build_ok[OF laws so dm on pt rows]) (rule that)
  have c0: "cold_docs env fx ?w k = cold_docs env fx w k" by (rule cold_docs_cong) simp_all
  have pt0: "plain_tier env fx dm ?w k" using pt by (simp add: plain_tier_def)
  have lsn: "dataset_watermark (w_cat ?w) k \<le> shard_lsn_or0 ?latest" using plain_watermark[OF pt] by simp
  obtain w1 where ws: "write_shard env ?w k ix sc (int (length ns)) ty (plain_args ?bt ?uris (shard_lsn_or0 ?latest)) now fr =
      (Inr (compute_shard_uri env k fr), w1)"
    and cm: "committed env fx dm ?w (sweep_superseded_shards env (set_status w1 k ''indexed'' None (Some now) now) k) k ix sc
      (new_row env ?w k (int (length ns)) ty (plain_args ?bt ?uris (shard_lsn_or0 ?latest)) now fr)"
    by (rule commit_ok[OF on pt0, where now = now and fr = fr and ix = ix and sc = sc and ids = ns and n = "int (length ns)" and
        ty = ty and bt = ?bt and uris = ?uris and ixt = "Some now" and lsn = "shard_lsn_or0 ?latest"])
      (use tick fresh ok lsn in \<open>simp_all add: fresh_uri_def\<close>)
  let ?s = "new_row env ?w k (int (length ns)) ty (plain_args ?bt ?uris (shard_lsn_or0 ?latest)) now fr"
  let ?w2 = "sweep_superseded_shards env (set_status w1 k ''indexed'' None (Some now) now) k"
  let ?w3 = "sweep_indexed_landing env ?w2 k"
  let ?w' = "mark_build ?w3 ?bt (int (length rs)) ps"
  have pt2: "plain_tier env fx dm ?w2 k" and lat2: "get_latest_shard (w_cat ?w2) k = Some ?s"
    and cold2: "cold_docs env fx ?w2 k = ix_docs env fx ix sc" and jobs2: "w_jobs ?w2 = w_jobs w" and rec2: "w_recall ?w2 = w_recall w"
    and sub2: "\<And>x. dget (w_bucket ?w2) x \<noteq> None \<Longrightarrow> x = sh_uri ?s \<or> x = sidecar_uri (sh_uri ?s) \<or> dget (w_bucket w) x \<noteq> None"
    and row2: "\<And>r. cat_row (w_cat w) k = Some r \<Longrightarrow> \<exists>r'. cat_row (w_cat ?w2) k = Some r' \<and> d_status r' = ''indexed''"
    using cm unfolding committed_def by auto
  have su: "set ?uris = set (manifest_of ?latest) \<union> set ps" by (simp add: sorted_uris_def)
  obtain all where all: "list_landing_parts (be_down env) (w_bucket w) (landing_prefix env k) = Inr all"
    and fps: "ps = filter (\<lambda>p. p \<notin> set (manifest_of ?latest)) all"
    using np(1) by (auto simp: new_parts_def split: sum.splits)
  have man': "\<forall>p \<in> set (sh_landing ?s). ends_with ''.parquet'' p"
    using man list_parts_parquet[OF all] su fps by (auto simp: plain_args_def)
  have apart2: "uploads_apart env ?w2 k fr" using apart jobs2 by (simp add: uploads_apart_def)
  note sl = sweep_landing_tier[OF on pt2 lat2 _ apart2 man']
  have pt3: "plain_tier env fx dm ?w' k" and cold3: "cold_docs env fx ?w' k = ix_docs env fx ix sc"
    using sl cold2 by simp_all
  have lat': "get_latest_shard (w_cat ?w') k = Some ?s" using lat2 by simp
  have man2: "set (manifest_of (get_latest_shard (w_cat ?w') k)) = set (manifest_of ?latest) \<union> set ps"
    using su unfolding lat' by (simp add: manifest_of_def plain_args_def)
  have wm: "dataset_watermark (w_cat ?w') k = dataset_watermark (w_cat w) k"
    using plain_watermark[OF pt3] plain_watermark[OF pt] unfolding lat' by (simp add: shard_lsn_or0_def plain_args_def)
  have np': "new_parts env ?w' k = Inr []"
  proof -
    have sch: "has_scheme (rstrip_slash (landing_prefix env k))"
      using all by (auto simp: list_landing_parts_def storage_list_def split: if_splits)
    then obtain all' where all': "list_landing_parts (be_down env) (w_bucket ?w') (landing_prefix env k) = Inr all'"
      using on by (simp add: list_landing_parts_def storage_list_def online_def)
    have "p \<in> set (manifest_of (get_latest_shard (w_cat ?w') k))" if p: "p \<in> set all'" for p
    proof -
      have pp: "dget (w_bucket ?w3) p \<noteq> None" "starts_with (rstrip_slash (landing_prefix env k)) p" "ends_with ''.parquet'' p"
        using p list_parts_mem[OF all', of p] by simp_all
      have "dget (w_bucket ?w2) p \<noteq> None"
        by (rule sweep_landing_bucket[OF pp(1)])
      then have "dget (w_bucket w) p \<noteq> None" using sub2[of p] shard_uri_not_parquet[of env k fr] pp(3) by auto
      then have "p \<in> set all" using list_parts_mem[OF all, of p] pp by blast
      then show ?thesis using man2 fps by auto
    qed
    then have "filter (\<lambda>p. p \<notin> set (manifest_of (get_latest_shard (w_cat ?w') k))) all' = []" by (simp only: filter_empty_conv) blast
    then show ?thesis by (simp only: new_parts_def all' sum.case)
  qed
  have run: "run_once env fx True w k now fr = (int (card (lr_id ` set rows)), ?w')"
    using run_once_step[OF np rd ne de lb ws] card by (simp only:)
  show thesis
  proof (rule that[OF run pt3 wm _ _ man2 _ np'])
    show "w_jobs ?w' = w_jobs w" using jobs2 by simp
    show "lb_type (w_last ?w') \<noteq> Some ''error''" by (simp add: mark_build_def)
    show "w_recall ?w' = w_recall w" using rec2 by simp
    show "cold_docs env fx ?w' k v = over (cold_docs env fx w k) rows v"
      if "inj_on (id64 env) (insert v (lr_id ` set rows))" for v using docs[OF that] cold3 by simp
    show "\<exists>r'. cat_row (w_cat ?w') k = Some r' \<and> d_status r' = ''indexed''" if "cat_row (w_cat w) k = Some r" for r
      using row2[OF that] by simp
  qed
qed

section \<open>The delete\<close>

lemma run_delete_ok:
  assumes laws: "faiss_laws fx" and so: "set_order_ok env" and dm: "0 < dm" and on: "online env"
    and pt: "plain_tier env fx dm w k" and tick: "cat_tick (w_cat w) now" and fresh: "fresh_uri env w k fr"
  obtains w' n where "run_delete_once env fx True w k i now fr = (n, w')"
    and "plain_tier env fx dm w' k" and "dataset_watermark (w_cat w') k = dataset_watermark (w_cat w) k"
    and "w_recall w' = w_recall w"
    and "manifest_of (get_latest_shard (w_cat w') k) = manifest_of (get_latest_shard (w_cat w) k)"
    and "\<And>v. inj_on (id64 env) {v, i} \<Longrightarrow> cold_docs env fx w' k v = ((cold_docs env fx w k)(i := None)) v"
    and "n = (if cold_docs env fx w k i \<noteq> None then 1 else n)" and "n \<in> {0, 1}"
proof (cases "get_latest_shard (w_cat w) k")
  case None
  have cold: "cold_docs env fx w k = Map.empty" by (simp add: cold_docs_def None fun_eq_iff)
  have "run_delete_once env fx True w k i now fr = (0, w)"
    by (simp add: run_delete_once_def run_delete_locked_def None)
  then show thesis using that[of 0 w] pt cold by simp
next
  case (Some s)
  obtain ix0 sc0 ids0 where st: "stored env fx dm (w_bucket w) (sh_uri s) ix0 sc0 ids0"
    using pt Some by (auto simp: plain_tier_def)
  have ok0: "ix_ok env fx dm ix0 sc0 ids0" using st by (simp add: stored_def)
  have cold: "cold_docs env fx w k = entry_docs env (doc_at fx ix0 sc0)"
    using cold_docs_stored[OF on Some st] by (simp add: ix_docs_def)
  note db = delete_build_ok[OF laws so dm on st, of "id64 env i"]
  show thesis
  proof (cases "id64 env i \<in> set ids0")
    case False
    have none: "doc_at fx ix0 sc0 (id64 env i) = None" using False doc_at_dom[OF ok0] by simp
    let ?w' = "set_status w k ''indexed'' None None now"
    have lf: "list_shards (w_cat ?w') k' = list_shards (w_cat w) k'" for k' by (rule list_shards_frame) simp_all
    have run: "run_delete_once env fx True w k i now fr = (0, ?w')"
      using db False by (simp add: run_delete_once_def run_delete_locked_def Some)
    have lat: "get_latest_shard (w_cat ?w') k = get_latest_shard (w_cat w) k" by (simp only: get_latest_shard_def lf)
    have co: "cold_docs env fx ?w' k = cold_docs env fx w k" unfolding cold_docs_def lat set_status_frame ..
    have wm: "dataset_watermark (w_cat ?w') k = dataset_watermark (w_cat w) k" by (simp only: dataset_watermark_def lf)
    have cat: "cat_ok (w_cat ?w')" using pt by (simp add: plain_tier_def set_status_def cat_ok_update_status)
    have pt': "plain_tier env fx dm ?w' k"
      using pt cat unfolding plain_tier_def lf lat wm by simp
    have gone: "cold_docs env fx w k i = None" using none by (simp add: cold entry_docs_def)
    show thesis
    proof (rule that[OF run pt' wm])
      show "cold_docs env fx ?w' k v = ((cold_docs env fx w k)(i := None)) v" for v using gone by (simp add: co)
    qed (use lat gone in simp_all)
  next
    case True
    obtain ix sc ty ns where d: "delete_build env fx (w_bucket w) s (id64 env i) = Inr (Some (ix, sc, ty, int (length ns)))"
      and ok: "ix_ok env fx dm ix sc ns"
      and dd: "\<forall>n. doc_at fx ix sc n = merged Map.empty {id64 env i} (doc_at fx ix0 sc0) n"
      using db True by blast
    let ?a = "plain_args ''delete'' (sh_landing s) (sh_lsn s)"
    have lsn: "dataset_watermark (w_cat w) k \<le> sh_lsn s" using plain_watermark[OF pt] by (simp add: shard_lsn_or0_def Some)
    obtain w1 where ws: "write_shard env w k ix sc (int (length ns)) ty ?a now fr = (Inr (compute_shard_uri env k fr), w1)"
      and cm: "committed env fx dm w (sweep_superseded_shards env (set_status w1 k ''indexed'' None (Some now) now) k) k ix sc
        (new_row env w k (int (length ns)) ty ?a now fr)"
      by (rule commit_ok[OF on pt tick fresh ok lsn, where n = "int (length ns)" and ty = ty and bt = "''delete''"
        and uris = "sh_landing s" and ixt = "Some now"]) (rule that)
    let ?w' = "sweep_superseded_shards env (set_status w1 k ''indexed'' None (Some now) now) k"
    let ?s' = "new_row env w k (int (length ns)) ty ?a now fr"
    have pt': "plain_tier env fx dm ?w' k" and lat: "get_latest_shard (w_cat ?w') k = Some ?s'"
      and co: "cold_docs env fx ?w' k = ix_docs env fx ix sc" and rec: "w_recall ?w' = w_recall w"
      using cm unfolding committed_def by auto
    have run: "run_delete_once env fx True w k i now fr = (1, ?w')"
      using d ws by (simp add: run_delete_once_def run_delete_locked_def Some)
    have wm: "dataset_watermark (w_cat ?w') k = dataset_watermark (w_cat w) k"
      using plain_watermark[OF pt'] plain_watermark[OF pt] unfolding lat Some by (simp add: shard_lsn_or0_def plain_args_def)
    show thesis
    proof (rule that[OF run pt' wm rec])
      show "manifest_of (get_latest_shard (w_cat ?w') k) = manifest_of (get_latest_shard (w_cat w) k)"
        unfolding lat Some by (simp add: manifest_of_def plain_args_def)
      show "cold_docs env fx ?w' k v = ((cold_docs env fx w k)(i := None)) v" if inj: "inj_on (id64 env) {v, i}" for v
      proof (cases "v = i")
        case True
        then show ?thesis using dd by (simp add: co ix_docs_def entry_docs_def merged_def)
      next
        case False
        then have "id64 env v \<noteq> id64 env i" using inj by (auto simp: inj_on_def)
        then show ?thesis using dd False by (simp add: co cold ix_docs_def entry_docs_def merged_def)
      qed
    qed simp_all
  qed
qed

end
