(* ===== verification/Build_Properties.thy ===== *)
theory Build_Properties
  imports Landing_World Recall_Properties
begin

text \<open>
  What the index builder promises: the properties of consolidation, landing builds and deletes on
  the whole state, and the concrete configuration and states they are tried on.
\<close>

section \<open>A concrete deployment\<close>

definition demo_benv :: benv where
  "demo_benv = \<lparr>be_pg = demo_env, be_recall = mem_cfg, be_queue = \<lparr>q_redis = True, q_max_attempts = 3\<rparr>,
     be_index_type = ''ivfflat'', be_floor = 64, be_nlist = 128, be_delta_tier = False, be_max_deltas = 8,
     be_max_deltas_hard = 16, be_keep = 2, be_landing = ''s3://b/landing/'', be_tenant_prefix = False,
     be_indexes = ''s3://b/indexes'', be_versioned = False, be_prewarm = False, be_idle = 60,
     be_sha1 = map of_char, be_f32 = (\<lambda>x. x), be_set = remdups, be_down = (\<lambda>_. False)\<rparr>"

definition demo_fresh :: fresh where
  "demo_fresh = \<lparr>fr_date = ''2024-01-01'', fr_shard = ''shard-1'', fr_msg = ''m1'', fr_hash = ''h1''\<rparr>"

definition empty_world :: "list_index world" where
  "empty_world = \<lparr>w_cat = \<lparr>c_memory = True, c_datasets = [(demo_key, fresh_dataset 1 ''jsonl'' 0)], c_shards = [],
       c_last_id = 0, c_notices = []\<rparr>,
     w_recall = no_recall, w_bucket = [], w_queue = \<lparr>qs_topics = [], qs_lock = None, qs_local = []\<rparr>,
     w_jobs = [], w_last = \<lparr>lb_type = None, lb_added = 0, lb_parts = 0, lb_uris = []\<rparr>, w_quant = [], w_evicted = [],
     w_swept_at = 0\<rparr>"

lemma demo_benv_simps [simp]:
  "be_pg demo_benv = demo_env" "be_recall demo_benv = mem_cfg" "be_keep demo_benv = 2" "\<not> be_delta_tier demo_benv"
  "be_f32 demo_benv = (\<lambda>x. x)" "be_set demo_benv = remdups" "be_down demo_benv u = False"
  "be_landing demo_benv = ''s3://b/landing/''" "\<not> be_tenant_prefix demo_benv" "be_indexes demo_benv = ''s3://b/indexes''"
  by (simp_all add: demo_benv_def)

lemma demo_online: "online demo_benv"
  by (simp add: online_def has_scheme_def starts_with_def)

lemma demo_set_order: "set_order_ok demo_benv"
  by (simp add: set_order_ok_def)

lemma demo_idem: "f32_idem demo_benv"
  by (simp add: f32_idem_def)

lemma demo_id64: "id64 demo_benv ''a'' = 97" "id64 demo_benv ''b'' = 98" "id64 demo_benv ''c'' = 99"
  by (simp_all add: id64_def id_to_int64_def demo_benv_def)

lemma demo_inj: "inj_on (id64 demo_benv) {''a'', ''b'', ''c''}"
  by (simp add: inj_on_def demo_id64)

lemma demo_recall_enabled: "recall_enabled mem_cfg"
  by (simp add: recall_enabled_def mem_cfg_def use_memory_backend_def)

lemma demo_recall_enabled': "recall_enabled (be_recall demo_benv)"
  by (simp add: demo_recall_enabled)

lemma empty_world_simps [simp]:
  "list_shards (w_cat empty_world) k = []" "get_latest_shard (w_cat empty_world) k = None"
  "w_recall empty_world = no_recall" "w_jobs empty_world = []"
  by (simp_all add: empty_world_def get_latest_shard_def list_shards_def mc_list_shards_def)

lemma empty_world_cat: "cat_ok (w_cat empty_world)" "cat_tick (w_cat empty_world) now"
  by (simp_all add: empty_world_def cat_ok_def cat_tick_def dkeys_ok_def)

lemma empty_world_tier: "plain_tier env fx dm empty_world k"
  by (simp add: plain_tier_def empty_world_cat)

lemma empty_world_wm: "dataset_watermark (w_cat empty_world) k = 0"
  by (simp add: dataset_watermark_def watermark_of_def current_generation_def generations_def)

lemma empty_world_cold: "cold_docs env fx empty_world k v = None"
  by (simp add: cold_docs_def)

lemma empty_world_fresh: "fresh_uri env empty_world k fr"
  by (simp add: fresh_uri_def)

lemma empty_world_look: "look_of demo_benv empty_world k i = None"
  by (simp add: look_of_def rs_look_def mem_cfg_def use_memory_backend_def mem_look_def no_recall_def mem_part_def dget_or_def)

lemma empty_world_synced: "synced demo_benv list_faiss 1 V empty_world k"
  using rs.top_nonneg[OF no_recall_ok, of mem_cfg k]
  by (simp add: synced_def empty_world_tier empty_world_look empty_world_wm no_recall_ok)

section \<open>Runs of writes and consolidations\<close>

text \<open>
  \<open>serve w m\<close>: the state \<open>w\<close> is reached by writes and consolidations, with or without the dataset's
  lock, and \<open>m\<close> is the map of documents a client who applies only the writes has in mind.
\<close>

inductive serve :: "benv \<Rightarrow> 'i faiss \<Rightarrow> int \<Rightarrow> vid set \<Rightarrow> key \<Rightarrow> 'i world \<Rightarrow> (vid \<Rightarrow> doc option) \<Rightarrow> bool"
  for env fx dm V k where
  serve_start: "synced env fx dm V w k \<Longrightarrow> serve env fx dm V k w (reader env fx w k)"
| serve_upsert: "serve env fx dm V k w m \<Longrightarrow>
    \<forall>r \<in> set recs. rec_id r \<in> V \<and> int (length (rs_store (be_pg env) (be_recall env) (rec_values r))) = dm \<Longrightarrow>
    serve env fx dm V k (sys_upsert env w k now recs) (\<lambda>i. case find_last (\<lambda>r. rec_id r = i) recs of
      None \<Rightarrow> m i | Some r \<Rightarrow> Some (rs_store (be_pg env) (be_recall env) (rec_values r), meta_or (rec_metadata r)))"
| serve_delete: "serve env fx dm V k w m \<Longrightarrow> i \<in> V \<Longrightarrow>
    serve env fx dm V k (sys_delete env w k now i dl) (m(i := None))"
| serve_consolidate: "serve env fx dm V k w m \<Longrightarrow> cat_tick (w_cat w) now \<Longrightarrow> fresh_uri env w k fr \<Longrightarrow>
    serve env fx dm V k (snd (run_consolidate_once env fx acquired w k now fr fr')) m"

lemma upsert_reader:
  assumes "synced env fx dm V w k"
  shows "reader env fx (sys_upsert env w k now recs) k i = (case find_last (\<lambda>r. rec_id r = i) recs of
    None \<Rightarrow> reader env fx w k i
  | Some r \<Rightarrow> Some (rs_store (be_pg env) (be_recall env) (rec_values r), meta_or (rec_metadata r)))"
  using rs.upsert_overlay[OF syncedD(2,3)[OF assms], of now recs "cold_docs env fx w k" i]
  unfolding reader_def look_of_def sys_upsert_def by simp

lemma delete_reader:
  assumes "synced env fx dm V w k"
  shows "reader env fx (sys_delete env w k now i dl) k = (reader env fx w k)(i := None)"
  using rs.delete_overlay[OF syncedD(2,3)[OF assms], of now i dl "cold_docs env fx w k"]
  by (simp add: reader_def look_of_def sys_delete_def)

text \<open>
  C19. What a client wrote is what a query sees, across any sequence of upserts, deletes and
  consolidations. In every state reached that way the tiers stay in sync, and on every id the union
  of recall above the watermark and the newest shard shows the document of the client's map, its
  vector rounded to float32: consolidation, re-folding, sweeping, trimming and skipped builds are
  invisible.
\<close>

theorem service_refines_map:
  assumes "faiss_laws fx" and "set_order_ok env" and "0 < dm" and "online env" and "\<not> be_delta_tier env"
    and "f32_idem env" and "inj_on (id64 env) V" and "serve env fx dm V k w m"
  shows "synced env fx dm V w k \<and> (\<forall>v \<in> V. rounded env (reader env fx w k v) = rounded env (m v))"
  using assms(8)
proof (induction rule: serve.induct)
  case (serve_upsert w m recs now)
  then show ?case using synced_upsert[of env fx dm V w k recs now] upsert_reader[of env fx dm V w k now recs]
    by (auto split: option.split)
next
  case (serve_delete w m i now dl)
  then show ?case using synced_delete[of env fx dm V w k i now dl] delete_reader[of env fx dm V w k now i dl] by auto
next
  case (serve_consolidate w m now fr acquired fr')
  then show ?case
    using synced_consolidate[OF assms(1-7), of w k now fr acquired fr'] by auto
qed simp

text \<open>Upsert two vectors, consolidate, delete one, consolidate again.\<close>

definition demo_recs :: "vrec list" where
  "demo_recs = [demo_rec ''a'' 1, demo_rec ''b'' 2]"

definition written_world :: "list_index world" where
  "written_world = sys_upsert demo_benv empty_world demo_key 10 demo_recs"

lemma written_frame [simp]:
  "w_cat written_world = w_cat empty_world" "w_bucket written_world = w_bucket empty_world"
  by (simp_all add: written_world_def sys_upsert_def)

lemma demo_rs_store: "rs_store (be_pg demo_benv) (be_recall demo_benv) v = v"
  by (simp add: rs_store_def use_memory_backend_def mem_cfg_def)

lemma written_serve:
  "serve demo_benv list_faiss 1 {''a'', ''b'', ''c''} demo_key written_world
    (\<lambda>i. case find_last (\<lambda>r. rec_id r = i) demo_recs of None \<Rightarrow> reader demo_benv list_faiss empty_world demo_key i
      | Some r \<Rightarrow> Some (rec_values r, meta_or (rec_metadata r)))"
  using serve_upsert[OF serve_start[OF empty_world_synced], of demo_recs "{''a'', ''b'', ''c''}" demo_key 10,
      unfolded demo_rs_store, folded written_world_def]
  by (simp add: demo_recs_def demo_rec_def)

theorem service_refines_map_witness:
  "\<exists>w w'. w = snd (run_consolidate_once demo_benv list_faiss True written_world demo_key 20 demo_fresh demo_fresh) \<and>
     w' = sys_delete demo_benv w demo_key 30 ''a'' 1 \<and>
     reader demo_benv list_faiss w demo_key ''a'' = Some ([Fin 1], []) \<and>
     reader demo_benv list_faiss w' demo_key ''a'' = None \<and> reader demo_benv list_faiss w' demo_key ''b'' = Some ([Fin 2], [])"
proof -
  let ?V = "{''a'', ''b'', ''c''}"
  let ?w = "snd (run_consolidate_once demo_benv list_faiss True written_world demo_key 20 demo_fresh demo_fresh)"
  have r: "rounded demo_benv d = d" for d by (cases d) (simp_all add: rounded_def f32_vec_def)
  have "cat_tick (w_cat written_world) 20" "fresh_uri demo_benv written_world demo_key demo_fresh"
    by (simp_all add: empty_world_cat fresh_uri_def)
  note s1 = serve_consolidate[OF written_serve this, of True demo_fresh]
  note s2 = serve_delete[OF s1, of "''a''" 30 1]
  note ref = service_refines_map[OF list_faiss_laws demo_set_order _ demo_online _ demo_idem demo_inj, unfolded r]
  show ?thesis
    using ref[OF _ _ s1] ref[OF _ _ s2] by (simp add: find_last_def demo_recs_def demo_rec_def meta_or_def)
qed

section \<open>One consolidation\<close>

text \<open>
  C20. A consolidation folds exactly the snapshot. With the delta tier off it returns the number of
  live rows folded; the newest shard then holds, for every id without an int64 collision, what
  applying the snapshot's rows in order to the old shard gives (vectors as float32, tombstones
  removed), on every index type and overlap case; the dataset's watermark is the snapshot's bound,
  its status is indexed, its landing manifest is carried forward, and the partition is trimmed at
  the grace watermark.
\<close>

theorem consolidation_folds_snapshot:
  assumes "faiss_laws fx" and "set_order_ok env" and "0 < dm" and "online env" and "\<not> be_delta_tier env"
    and "recall_enabled (be_recall env)" and "plain_tier env fx dm w k" and "cat_tick (w_cat w) now"
    and "fresh_uri env w k fr"
    and "recall_snapshot_for_consolidation (be_pg env) (be_recall env) (w_recall w) k = Inr (lsn, rows)"
    and "lsn \<noteq> 0" and "rows \<noteq> []" and "rows_ok env dm rows" and "dataset_watermark (w_cat w) k \<le> lsn"
    and "get_latest_shard (w_cat w) k \<noteq> None \<or> live_of rows \<noteq> []"
  shows "\<exists>w'. run_consolidate_once env fx True w k now fr fr' = (int (length (live_of rows)), w') \<and>
    plain_tier env fx dm w' k \<and> dataset_watermark (w_cat w') k = lsn \<and>
    (\<forall>v. inj_on (id64 env) (insert v (s_id ` set rows)) \<longrightarrow>
       cold_docs env fx w' k v = apply_rows (cold_docs env fx w k) (map (f32_row env) rows) v) \<and>
    manifest_of (get_latest_shard (w_cat w') k) = manifest_of (get_latest_shard (w_cat w) k) \<and>
    (\<forall>r. get_dataset (w_cat w) k = Some r \<longrightarrow>
       (\<exists>r'. get_dataset (w_cat w') k = Some r' \<and> d_status r' = ''indexed'')) \<and>
    w_recall w' = snd (recall_trim (be_recall env) (w_recall w) k (grace_watermark (w_cat w') k (be_keep env)))"
proof -
  obtain w1 ix sc s where c: "committed env fx dm w w1 k ix sc s" and lsn: "sh_lsn s = lsn"
    and man: "sh_landing s = (case get_latest_shard (w_cat w) k of None \<Rightarrow> [] | Some s \<Rightarrow> sh_landing s)"
    and docs: "\<And>v. inj_on (id64 env) (insert v (s_id ` set rows)) \<Longrightarrow>
      ix_docs env fx ix sc v = apply_rows (cold_docs env fx w k) (map (f32_row env) rows) v"
    and run: "run_consolidate_once env fx True w k now fr fr' = (int (length (live_of rows)),
      mark_build (w1\<lparr>w_recall := snd (recall_trim (be_recall env) (w_recall w1) k (grace_watermark (w_cat w1) k (be_keep env)))\<rparr>)
        ''consolidate'' (int (length (live_of rows))) [])"
    by (rule consolidate_ok[OF assms]) (rule that)
  have pt: "plain_tier env fx dm w1 k" and lat: "get_latest_shard (w_cat w1) k = Some s"
    and cold: "cold_docs env fx w1 k = ix_docs env fx ix sc" and rec: "w_recall w1 = w_recall w"
    and row: "\<And>r. cat_row (w_cat w) k = Some r \<Longrightarrow> \<exists>r'. cat_row (w_cat w1) k = Some r' \<and> d_status r' = ''indexed''"
    using c unfolding committed_def by auto
  have wm: "dataset_watermark (w_cat w1) k = lsn" using plain_watermark[OF pt] lat lsn by (simp add: shard_lsn_or0_def)
  show ?thesis
    by (rule exI, rule conjI[OF run])
       (use pt wm docs lat man row in \<open>simp add: cold rec get_dataset_def manifest_of_def\<close>)
qed

lemma written_snapshot:
  "recall_snapshot_for_consolidation (be_pg demo_benv) (be_recall demo_benv) (w_recall written_world) demo_key =
   Inr (2, [\<lparr>s_id = ''a'', s_values = [Fin 1], s_metadata = [], s_lsn = 1, s_deleted = False\<rparr>,
     \<lparr>s_id = ''b'', s_values = [Fin 2], s_metadata = [], s_lsn = 2, s_deleted = False\<rparr>])"
  by (simp add: recall_snapshot_for_consolidation_def written_world_def sys_upsert_def use_memory_backend_def
      mem_cfg_def recall_upsert_vectors_def on_mem_def no_recall_def mem_upsert_def last_wins_def alloc_block_def
      Let_def live_row_def meta_or_def demo_recs_def demo_rec_def mem_snapshot_for_consolidation_def snap_of_def
      mem_part_def dget_or_def)

theorem consolidation_folds_snapshot_witness:
  "\<exists>w'. run_consolidate_once demo_benv list_faiss True written_world demo_key 20 demo_fresh demo_fresh = (2, w') \<and>
     dataset_watermark (w_cat w') demo_key = 2 \<and> cold_docs demo_benv list_faiss w' demo_key ''a'' = Some ([Fin 1], []) \<and>
     cold_docs demo_benv list_faiss w' demo_key ''b'' = Some ([Fin 2], [])"
proof -
  let ?rows = "[\<lparr>s_id = ''a'', s_values = [Fin 1], s_metadata = [], s_lsn = 1, s_deleted = False\<rparr>,
     \<lparr>s_id = ''b'', s_values = [Fin 2], s_metadata = [], s_lsn = 2, s_deleted = False\<rparr>]"
  have pt: "plain_tier demo_benv list_faiss 1 written_world demo_key"
    using empty_world_tier[of demo_benv list_faiss 1 demo_key] by (simp add: written_world_def sys_upsert_def)
  have side: "cat_tick (w_cat written_world) 20" "fresh_uri demo_benv written_world demo_key demo_fresh"
    "dataset_watermark (w_cat written_world) demo_key \<le> 2"
    by (simp_all add: empty_world_cat fresh_uri_def empty_world_wm)
  have rok: "rows_ok demo_benv 1 ?rows" by (simp add: rows_ok_def live_of_def demo_id64)
  have ne: "(2::int) \<noteq> 0" "?rows \<noteq> []" by simp_all
  have live: "get_latest_shard (w_cat written_world) demo_key \<noteq> None \<or> live_of ?rows \<noteq> []" by (simp add: live_of_def)
  obtain w' where w': "run_consolidate_once demo_benv list_faiss True written_world demo_key 20 demo_fresh demo_fresh =
      (int (length (live_of ?rows)), w')" "dataset_watermark (w_cat w') demo_key = 2"
    and cold: "\<And>v. inj_on (id64 demo_benv) (insert v (s_id ` set ?rows)) \<Longrightarrow>
       cold_docs demo_benv list_faiss w' demo_key v =
       apply_rows (cold_docs demo_benv list_faiss written_world demo_key) (map (f32_row demo_benv) ?rows) v"
    using consolidation_folds_snapshot[OF list_faiss_laws demo_set_order zero_less_one demo_online demo_benv_simps(4)
      demo_recall_enabled' pt side(1,2) written_snapshot ne rok side(3) live, of demo_fresh] by blast
  have f: "f32_row demo_benv r = r" for r by (simp add: f32_row_def f32_vec_def)
  have "int (length (live_of ?rows)) = 2" by (simp add: live_of_def)
  with w' cold[of "''a''", OF inj_on_subset[OF demo_inj]] cold[of "''b''", OF inj_on_subset[OF demo_inj]] show ?thesis
    by (intro exI[of _ w']) (simp add: f apply_rows_def apply_row_def cell_doc_def snap_cell_def)
qed

section \<open>Landing builds\<close>


text \<open>Two parts; the second repeats an id of the first.\<close>

definition demo_row :: "string \<Rightarrow> rat \<Rightarrow> landing_row" where
  "demo_row i x = \<lparr>lr_id = i, lr_values = [Fin x], lr_meta = []\<rparr>"

definition landed_world :: "list_index world" where
  "landed_world = empty_world\<lparr>w_bucket :=
     [(''s3://b/landing/docs/p1.parquet'', PartB [demo_row ''a'' 1, demo_row ''b'' 2]),
      (''s3://b/landing/docs/p2.parquet'', PartB [demo_row ''b'' 3])]\<rparr>"

lemma landed_simps [simp]:
  "w_cat landed_world = w_cat empty_world" "w_jobs landed_world = []" "w_recall landed_world = no_recall"
  by (simp_all add: landed_world_def)





text \<open>
  A redelivered build message is harmless. After a landing build that captured its parts, the
  same message delivered again builds nothing: the second run returns 0, is marked a no-op, and
  leaves the catalog, the bucket, the recall tier and the queues as they are.
\<close>

lemma redelivered_build_is_noop:
  assumes "faiss_laws fx" and "set_order_ok env" and "0 < dm" and "online env"
    and "plain_tier env fx dm w k" and "cat_tick (w_cat w) now" and "fresh_uri env w k fr" and "uploads_apart env w k fr"
    and "\<forall>p \<in> set (manifest_of (get_latest_shard (w_cat w) k)). ends_with ''.parquet'' p"
    and "new_parts env w k = Inr ps" and "ps \<noteq> []"
    and "read_landing_parts (be_down env) (w_bucket w) ps = Inr rows" and "landing_ok env dm rows"
    and "snd (run_once env fx True w k now fr) = w'"
  shows "\<exists>w''. run_once env fx True w' k now' fr' = (0, w'') \<and> lb_type (w_last w'') = Some ''noop'' \<and>
    w_cat w'' = w_cat w' \<and> w_bucket w'' = w_bucket w' \<and> w_recall w'' = w_recall w' \<and> w_queue w'' = w_queue w'"
proof -
  obtain v where "run_once env fx True w k now fr = (int (card (lr_id ` set rows)), v)" and np: "new_parts env v k = Inr []"
    by (rule run_once_ok[OF assms(1-13)]) (rule that)
  with assms(14) have "v = w'" by simp
  with run_once_noop[OF np, of fx now' fr'] show ?thesis by (simp add: mark_type_def)
qed

section \<open>Deletes\<close>

text \<open>
  A delete removes exactly its id from the newest shard. It returns 1 when the id was there and
  0 or 1 otherwise, the new contents are the old ones without the id (for every id that does not
  collide with it), and the watermark, the manifest, the recall tier and the invariant are kept.
\<close>

theorem delete_removes_exactly:
  assumes "faiss_laws fx" and "set_order_ok env" and "0 < dm" and "online env"
    and "plain_tier env fx dm w k" and "cat_tick (w_cat w) now" and "fresh_uri env w k fr"
  shows "\<exists>n w'. run_delete_once env fx True w k i now fr = (n, w') \<and> n \<in> {0, 1} \<and>
    (cold_docs env fx w k i \<noteq> None \<longrightarrow> n = 1) \<and> plain_tier env fx dm w' k \<and>
    dataset_watermark (w_cat w') k = dataset_watermark (w_cat w) k \<and> w_recall w' = w_recall w \<and>
    manifest_of (get_latest_shard (w_cat w') k) = manifest_of (get_latest_shard (w_cat w) k) \<and>
    (\<forall>v. inj_on (id64 env) {v, i} \<longrightarrow> cold_docs env fx w' k v = ((cold_docs env fx w k)(i := None)) v)"
proof -
  obtain w' n where r: "run_delete_once env fx True w k i now fr = (n, w')" "plain_tier env fx dm w' k"
    "dataset_watermark (w_cat w') k = dataset_watermark (w_cat w) k" "w_recall w' = w_recall w"
    "manifest_of (get_latest_shard (w_cat w') k) = manifest_of (get_latest_shard (w_cat w) k)"
    and cold: "\<And>v. inj_on (id64 env) {v, i} \<Longrightarrow> cold_docs env fx w' k v = ((cold_docs env fx w k)(i := None)) v"
    and n: "n = (if cold_docs env fx w k i \<noteq> None then 1 else n)" "n \<in> {0, 1}"
    by (rule run_delete_ok[OF assms]) (rule that)
  have "cold_docs env fx w k i \<noteq> None \<longrightarrow> n = 1" using n(1) by auto
  with r cold n(2) show ?thesis by blast
qed

text \<open>A dataset with one flat shard of two vectors.\<close>

definition old_shard :: shard where
  "old_shard = \<lparr>sh_id = 1, sh_key = demo_key, sh_uri = ''s3://b/indexes/old.bin'', sh_checksum = ''c'', sh_count = 2,
     sh_index_type = ''flat'', sh_build_type = ''full'', sh_landing = [], sh_lsn = 0, sh_created = 5, sh_qver = 0,
     sh_parent = None, sh_level = 0, sh_lo = 0, sh_hi = 0, sh_tombs = []\<rparr>"

definition old_index :: list_index where
  "old_index = (1, False, True, [(97, [Fin 1]), (98, [Fin 2])])"

definition old_sidecar :: sidecar where
  "old_sidecar = [(97, (''a'', [])), (98, (''b'', []))]"

definition shard_world :: "list_index world" where
  "shard_world = empty_world\<lparr>w_cat := (w_cat empty_world)\<lparr>c_shards := [old_shard], c_last_id := 1\<rparr>,
     w_bucket := [(''s3://b/indexes/old.bin'', IndexB old_index), (''s3://b/indexes/old.bin.meta.json'', SidecarB old_sidecar)]\<rparr>"

lemma shard_world_cat: "cat_ok (w_cat shard_world)" "cat_tick (w_cat shard_world) 20"
  by (simp_all add: shard_world_def empty_world_def cat_ok_def cat_tick_def dkeys_ok_def old_shard_def)

lemma shard_world_list: "list_shards (w_cat shard_world) demo_key = [old_shard]"
  unfolding list_shards_eq[OF shard_world_cat(1)] by (simp add: shard_world_def old_shard_def)

lemma shard_world_latest: "get_latest_shard (w_cat shard_world) demo_key = Some old_shard"
  by (simp add: get_latest_shard_def shard_world_list)

lemma shard_world_stored:
  "stored demo_benv list_faiss 1 (w_bucket shard_world) (sh_uri old_shard) old_index old_sidecar [97, 98]"
proof -
  have "fx_d list_faiss old_index = 1" by (simp add: list_faiss_def old_index_def)
  moreover have "holds list_faiss old_index [97, 98]" by (simp add: old_index_def list_holds)
  ultimately show ?thesis
    by (simp add: stored_def ix_ok_def shard_world_def old_shard_def has_scheme_def starts_with_def sidecar_uri_def
        old_sidecar_def demo_id64)
qed

lemma shard_world_tier: "plain_tier demo_benv list_faiss 1 shard_world demo_key"
proof -
  have lv: "sh_level old_shard = 0" "sh_hi old_shard = 0" "sh_lsn old_shard = 0" by (simp_all add: old_shard_def)
  have "dataset_watermark (w_cat shard_world) demo_key = 0"
    using watermark_base[of "[old_shard]"] lv unfolding dataset_watermark_def shard_world_list by simp
  then show ?thesis
    unfolding plain_tier_def shard_world_list shard_world_latest
    using shard_world_cat(1) lv exI[of "\<lambda>ids. stored demo_benv list_faiss 1 (w_bucket shard_world) (sh_uri old_shard)
      old_index old_sidecar ids", OF shard_world_stored] by (simp del: split_paired_Ex) blast
qed

lemma shard_world_fresh: "fresh_uri demo_benv shard_world demo_key demo_fresh"
  unfolding fresh_uri_def shard_world_list
  by (simp add: old_shard_def compute_shard_uri_def sidecar_uri_def demo_fresh_def demo_benv_def)

lemma shard_world_cold:
  "cold_docs demo_benv list_faiss shard_world demo_key ''a'' = Some ([Fin 1], [])"
  "cold_docs demo_benv list_faiss shard_world demo_key ''b'' = Some ([Fin 2], [])"
  unfolding cold_docs_stored[OF demo_online shard_world_latest shard_world_stored]
  by (simp_all add: ix_docs_def entry_docs_def doc_at_def demo_id64 list_faiss_def old_index_def old_sidecar_def)

theorem delete_removes_exactly_witness:
  "\<exists>w'. run_delete_once demo_benv list_faiss True shard_world demo_key ''a'' 20 demo_fresh = (1, w') \<and>
     cold_docs demo_benv list_faiss w' demo_key ''a'' = None \<and>
     cold_docs demo_benv list_faiss w' demo_key ''b'' = Some ([Fin 2], [])"
proof -
  obtain n w' where r: "run_delete_once demo_benv list_faiss True shard_world demo_key ''a'' 20 demo_fresh = (n, w')" "n = 1"
    and cold: "\<And>v. inj_on (id64 demo_benv) {v, ''a''} \<Longrightarrow> cold_docs demo_benv list_faiss w' demo_key v =
      ((cold_docs demo_benv list_faiss shard_world demo_key)(''a'' := None)) v"
    using delete_removes_exactly[OF list_faiss_laws demo_set_order zero_less_one demo_online shard_world_tier shard_world_cat(2)
        shard_world_fresh, of "''a''"] shard_world_cold(1) by blast
  have "inj_on (id64 demo_benv) {''a'', ''a''}" "inj_on (id64 demo_benv) {''b'', ''a''}"
    by (rule inj_on_subset[OF demo_inj], simp)+
  then show ?thesis using r cold[of "''a''"] cold[of "''b''"] shard_world_cold by auto
qed

section \<open>Failures\<close>

text \<open>What a run that publishes nothing may change: the status columns, the build marker, two fresh objects.\<close>

definition unpublished :: "benv \<Rightarrow> key \<Rightarrow> fresh \<Rightarrow> 'i world \<Rightarrow> 'i world \<Rightarrow> bool" where
  "unpublished env k fr w w' \<longleftrightarrow> c_shards (w_cat w') = c_shards (w_cat w) \<and> c_memory (w_cat w') = c_memory (w_cat w) \<and>
     w_recall w' = w_recall w \<and> w_queue w' = w_queue w \<and> w_jobs w' = w_jobs w \<and>
     (\<forall>x. x \<noteq> compute_shard_uri env k fr \<longrightarrow> x \<noteq> sidecar_uri (compute_shard_uri env k fr) \<longrightarrow>
        dget (w_bucket w') x = dget (w_bucket w) x)"

lemma unpublished_refl: "unpublished env k fr w w"
  by (simp add: unpublished_def)

lemma unpublished_status: "unpublished env k fr w w1 \<Longrightarrow> unpublished env k fr w (set_status w1 k' st msg ix now)"
  by (simp add: unpublished_def) (simp add: set_status_def)

lemma unpublished_last: "unpublished env k fr w w1 \<Longrightarrow> unpublished env k fr w (w1\<lparr>w_last := l\<rparr>)"
  by (simp add: unpublished_def)

lemma unpublished_mark: "unpublished env k fr w w1 \<Longrightarrow> unpublished env k fr w (mark_type w1 ty)"
  unfolding mark_type_def by (rule unpublished_last)

lemma unpublished_error: "unpublished env k fr w w1 \<Longrightarrow> unpublished env k fr w (build_error w1 k' what e now)"
  unfolding build_error_def by (intro unpublished_mark unpublished_status)

lemma unpublished_trans: "unpublished env k fr w w1 \<Longrightarrow> unpublished env k fr w1 w2 \<Longrightarrow> unpublished env k fr w w2"
  by (simp add: unpublished_def)

lemma write_shard_error:
  assumes "write_shard env w k ix sc n ty a now fr = (Inl e, w1)"
  shows "unpublished env k fr w w1"
proof -
  let ?u = "compute_shard_uri env k fr"
  show ?thesis
  proof (cases "write_bytes (be_down env) (w_bucket w) ?u (IndexB ix)")
    case (Inl e1)
    then show ?thesis using assms by (simp add: write_shard_def unpublished_refl)
  next
    case (Inr b1)
    then have "b1 = dset ?u (IndexB ix) (w_bucket w)" by (simp add: write_bytes_Inr)
    moreover from Inr assms have "w1 = w\<lparr>w_bucket := b1\<rparr>"
      by (auto simp: write_shard_def Let_def split: sum.splits)
    ultimately show ?thesis by (simp add: unpublished_def pdict_simps)
  qed
qed

lemma dedup_nonempty:
  fixes rows :: "landing_row list"
  assumes "rows \<noteq> []" and "dedup_batch_last_wins env (map lr_id rows) (map lr_values rows) (map lr_meta rows) = (ids, vs, ms)"
  shows "vs \<noteq> []"
proof -
  obtain rs where de: "dedup_batch_last_wins env (map lr_id rows) (map lr_values rows) (map lr_meta rows) = row_batch rs"
    and mem: "\<And>r. r \<in> set rs \<longleftrightarrow> r \<in> set rows \<and> find_last (\<lambda>q. id64 env (lr_id q) = id64 env (lr_id r)) rows = Some r"
    by (rule dedup_rows) (rule that)
  let ?P = "\<lambda>q. id64 env (lr_id q) = id64 env (lr_id (hd rows))"
  have "find_last ?P rows \<noteq> None" using assms(1) hd_in_set[OF assms(1)] by (auto simp: find_last_None)
  then obtain r where r: "find_last ?P rows = Some r" by blast
  from find_last_SomeD[OF r] have rr: "r \<in> set rows" "id64 env (lr_id r) = id64 env (lr_id (hd rows))" by auto
  then have "r \<in> set rs" using mem[of r] r by simp
  then show ?thesis using de assms(2) by (auto simp: row_batch_def)
qed

text \<open>The locked run: every way out of it before the last step has changed nothing but markers.\<close>

lemma unpublished_write:
  "write_shard env (w\<lparr>w_last := l\<rparr>) k ix sc n ty a now fr = (Inl e, w1) \<Longrightarrow> unpublished env k fr w w1"
  using unpublished_trans[OF unpublished_last[OF unpublished_refl] write_shard_error] .

lemma locked_unpublished:
  assumes "run_once_locked env fx w k now fr = (n, w')" and "n \<le> 0"
  shows "unpublished env k fr w w'"
  using assms unfolding run_once_locked_def Let_def
  by (auto split: sum.splits if_splits prod.splits dest: dedup_nonempty unpublished_write
      intro!: unpublished_error unpublished_mark unpublished_last[OF unpublished_refl])

text \<open>
  C24. A failed or skipped build publishes nothing. Whatever the storage does, whatever FAISS raises
  and whoever holds the lock: when \<open>run_once\<close> returns 0 or the skip marker, no shard row was added
  or removed, the recall tier, the queues and the import jobs are as before, and every object in the
  bucket is as before except the two under the new shard's own name.
\<close>

theorem failed_build_publishes_nothing:
  assumes "run_once env fx acquired w k now fr = (n, w')" and "n \<le> 0"
  shows "(\<forall>k'. list_shards (w_cat w') k' = list_shards (w_cat w) k') \<and> w_recall w' = w_recall w \<and>
    w_queue w' = w_queue w \<and> w_jobs w' = w_jobs w \<and>
    (\<forall>x. x \<notin> {compute_shard_uri env k fr, sidecar_uri (compute_shard_uri env k fr)} \<longrightarrow>
       dget (w_bucket w') x = dget (w_bucket w) x)"
proof -
  have "unpublished env k fr w w'"
    using assms(1) locked_unpublished[OF _ assms(2), of env fx w k now fr w']
    by (auto simp: run_once_def mark_build_def intro!: unpublished_last[OF unpublished_refl] split: if_splits)
  then show ?thesis by (auto simp: unpublished_def intro: list_shards_frame)
qed

theorem failed_build_publishes_nothing_witness:
  "\<exists>w'. run_once (demo_benv\<lparr>be_down := (\<lambda>_. True)\<rparr>) list_faiss True landed_world demo_key 20 demo_fresh = (0, w') \<and>
     lb_type (w_last w') = Some ''error'' \<and> list_shards (w_cat w') demo_key = [] \<and>
     dget (w_bucket w') ''s3://b/landing/docs/p1.parquet'' \<noteq> None"
proof -
  let ?env = "demo_benv\<lparr>be_down := (\<lambda>_. True)\<rparr>"
  have "\<exists>e. list_landing_parts (be_down ?env) (w_bucket landed_world) (landing_prefix ?env demo_key) = Inl e"
    by (simp add: list_landing_parts_def storage_list_def landing_prefix_def has_scheme_def starts_with_def rstrip_slash_def)
  then obtain w' where run: "run_once ?env list_faiss True landed_world demo_key 20 demo_fresh = (0, w')"
    and ty: "lb_type (w_last w') = Some ''error''"
    by (auto simp: run_once_def run_once_locked_def build_error_def mark_type_def)
  have u: "''s3://b/landing/docs/p1.parquet'' \<notin>
      {compute_shard_uri ?env demo_key demo_fresh, sidecar_uri (compute_shard_uri ?env demo_key demo_fresh)}"
    by (simp add: compute_shard_uri_def sidecar_uri_def demo_fresh_def demo_benv_def)
  have "dget (w_bucket landed_world) ''s3://b/landing/docs/p1.parquet'' \<noteq> None" by (simp add: landed_world_def)
  with failed_build_publishes_nothing[OF run] run ty u show ?thesis by simp
qed

text \<open>
  The landing prefix of a dataset is also a prefix of every dataset whose name extends it: a build
  of \<open>docs\<close> takes the parts of \<open>docs2\<close>.
\<close>

lemma landing_prefix_leaks:
  "new_parts demo_benv (empty_world\<lparr>w_bucket := [(''s3://b/landing/docs2/p1.parquet'', PartB [demo_row ''a'' 1])]\<rparr>) demo_key =
   Inr [''s3://b/landing/docs2/p1.parquet'']"
  by (simp add: new_parts_def list_landing_parts_def landing_prefix_def storage_list_def has_scheme_def
      starts_with_def ends_with_def rstrip_slash_def manifest_of_def)

end
