(* ===== verification/Compaction.thy ===== *)
theory Compaction
  imports Cold_Tier
begin

text \<open>
  The major compaction: the newest layer that mentions an id decides, and the new base holds every
  survivor with that layer's vector. Bare (unwrapped) indexes have laws of their own.
\<close>

section \<open>Newest mention wins\<close>

definition mentions :: "int list \<times> int list \<Rightarrow> int \<Rightarrow> bool" where
  "mentions layer n \<longleftrightarrow> n \<in> set (fst layer) \<or> n \<in> set (snd layer)"

lemma dget_dset_fold:
  "dget (foldl (\<lambda>d n. dset n v d) d ns) n = (if n \<in> set ns then Some v else dget d n)"
  by (induction ns arbitrary: d) (auto simp: pdict_simps)

lemma dget_layer_marks:
  "dget (layer_marks pos ids tombs d) n =
     (if n \<in> set tombs then Some (pos, False) else if n \<in> set ids then Some (pos, True) else dget d n)"
  by (simp add: layer_marks_def dget_dset_fold)

lemma dkeys_dset_fold: "dkeys_ok d \<Longrightarrow> dkeys_ok (foldl (\<lambda>d n. dset n v d) d ns)"
  by (induction ns arbitrary: d) auto

lemma dkeys_final_marks: "dkeys_ok d \<Longrightarrow> dkeys_ok (final_marks pos ls d)"
proof (induction pos ls d rule: final_marks.induct)
  case (2 pos ids tombs ls d)
  then show ?case by (simp add: layer_marks_def dkeys_dset_fold)
qed simp

lemma find_last_Cons: "find_last P (x # xs) = (case find_last P xs of Some y \<Rightarrow> Some y | None \<Rightarrow> if P x then Some x else None)"
proof -
  have "find P (ys @ [x]) = (case find P ys of Some y \<Rightarrow> Some y | None \<Rightarrow> if P x then Some x else None)" for ys
    by (induction ys) auto
  then show ?thesis by (simp add: find_last_def)
qed

lemma dget_final_marks:
  "dget (final_marks pos ls d) n = (case find_last (\<lambda>j. mentions (ls ! j) n) [0..<length ls] of
     None \<Rightarrow> dget d n | Some j \<Rightarrow> Some (pos + j, n \<notin> set (snd (ls ! j))))"
proof (induction pos ls d rule: final_marks.induct)
  case (2 pos ids tombs ls d)
  have u: "[0..<Suc (length ls)] = 0 # map Suc [0..<length ls]" by (simp add: upt_conv_Cons map_Suc_upt del: upt_Suc)
  have f: "find_last (\<lambda>j. mentions (((ids, tombs) # ls) ! j) n) (map Suc [0..<length ls]) =
      map_option Suc (find_last (\<lambda>j. mentions (ls ! j) n) [0..<length ls])"
    by (simp add: find_last_map comp_def)
  show ?case
  proof (cases "find_last (\<lambda>j. mentions (ls ! j) n) [0..<length ls]")
    case None
    then show ?thesis using 2 unfolding length_Cons u find_last_Cons f
      by (simp add: dget_layer_marks mentions_def)
  next
    case (Some j)
    then show ?thesis using 2 unfolding length_Cons u find_last_Cons f by simp
  qed
qed simp

lemma find_last_upt:
  "find_last P [0..<m] = Some p \<longleftrightarrow> p < m \<and> P p \<and> (\<forall>q. p < q \<longrightarrow> q < m \<longrightarrow> \<not> P q)"
proof (induction m)
  case (Suc m)
  then show ?case by (auto simp: less_Suc_eq)
qed simp

lemma survivors_iff:
  "(n, p) \<in> set (survivors_of (final_marks 0 ls [])) \<longleftrightarrow>
     find_last (\<lambda>j. mentions (ls ! j) n) [0..<length ls] = Some p \<and> n \<notin> set (snd (ls ! p))"
proof -
  have ok: "dkeys_ok (final_marks 0 ls [])" by (rule dkeys_final_marks) simp
  have "(n, p) \<in> set (survivors_of d) \<longleftrightarrow> (n, p, True) \<in> set d" for d by (auto simp: survivors_of_def)
  then have "(n, p) \<in> set (survivors_of (final_marks 0 ls [])) \<longleftrightarrow> dget (final_marks 0 ls []) n = Some (p, True)"
    using dget_in[OF ok] by simp
  then show ?thesis by (auto simp: dget_final_marks split: option.split)
qed

lemma distinct_survivors: "dkeys_ok d \<Longrightarrow> distinct (map fst (survivors_of d))"
proof -
  have "map fst (survivors_of d) = map fst (filter (\<lambda>(n, p, alive). alive) d)"
    unfolding survivors_of_def by (induction d) auto
  then show "dkeys_ok d \<Longrightarrow> distinct (map fst (survivors_of d))"
    by (simp add: dkeys_ok_def distinct_map_filter)
qed

section \<open>Bare indexes\<close>

text \<open>An unwrapped index that holds exactly the given ids, natively.\<close>

definition bare :: "'i faiss \<Rightarrow> 'i \<Rightarrow> int list \<Rightarrow> bool" where
  "bare fx ix ids \<longleftrightarrow> fx_id_map fx ix = None \<and> fx_native_ids fx ix = ids \<and> fx_ntotal fx ix = int (length ids) \<and>
     (\<forall>n \<in> set ids. \<exists>v. fx_reconstruct fx ix n = Inr v \<and> int (length v) = fx_d fx ix)"

text \<open>Documented: adding distinct ids to a clone of a trained, empty index stores exactly them.\<close>

definition law_bare_add :: "'i faiss \<Rightarrow> bool" where
  "law_bare_add fx \<longleftrightarrow> (\<forall>q ids vs. bare fx q [] \<longrightarrow> length ids = length vs \<longrightarrow> row_width (fx_d fx q) vs \<longrightarrow> distinct ids \<longrightarrow>
     (\<exists>ix. fx_add fx (fx_clone fx q) ids vs = Inr ix \<and> bare fx ix ids \<and> fx_d fx ix = fx_d fx q \<and>
        (\<forall>j < length ids. fx_reconstruct fx ix (ids ! j) = Inr (vs ! j))))"

lemma list_faiss_bare: "law_bare_add list_faiss"
proof -
  have "\<exists>ix. fx_add list_faiss (fx_clone list_faiss (d, v, w, es)) ids vs = Inr ix \<and> bare list_faiss ix ids \<and>
      fx_d list_faiss ix = fx_d list_faiss (d, v, w, es) \<and> (\<forall>j < length ids. fx_reconstruct list_faiss ix (ids ! j) = Inr (vs ! j))"
    if b: "bare list_faiss (d, v, w, es) []" and len: "length ids = length vs"
      and wd: "row_width (fx_d list_faiss (d, v, w, es)) vs" and dst: "distinct ids" for d v w es ids and vs :: "vec list"
  proof -
    have w: "\<not> w" "es = []" using b by (simp_all add: bare_def list_faiss_def split: if_splits)
    have m: "map_of (zip ids vs) (ids ! j) = Some (vs ! j)" if "j < length ids" for j
      using map_of_zip_nth[OF len dst, of j] that len by simp
    have "\<exists>x. map_of (zip ids vs) n = Some x \<and> int (length x) = d" if n: "n \<in> set ids" for n
    proof -
      obtain j where "j < length ids" "n = ids ! j" using n by (auto simp: in_set_conv_nth)
      then show ?thesis using m[of j] wd len by (auto simp: row_width_def list_faiss_def)
    qed
    have "\<exists>x. (case map_of (zip ids vs) n of None \<Rightarrow> Inl e | Some x \<Rightarrow> Inr x) = Inr x \<and> int (length x) = d"
      if n: "n \<in> set ids" for n and e :: pyexc
    proof -
      obtain x where "map_of (zip ids vs) n = Some x \<and> int (length x) = d"
        using \<open>n \<in> set ids \<Longrightarrow> \<exists>x. map_of (zip ids vs) n = Some x \<and> int (length x) = d\<close>[OF n] by blast
      then show ?thesis by simp
    qed
    moreover have "(case map_of (zip ids vs) (ids ! j) of None \<Rightarrow> Inl e | Some x \<Rightarrow> Inr x) = Inr (vs ! j)"
      if "j < length ids" for j and e :: pyexc
      unfolding m[OF that] by simp
    ultimately show ?thesis using w len dst by (auto simp: bare_def list_faiss_def)
  qed
  then show ?thesis unfolding law_bare_add_def split_paired_All by blast
qed

text \<open>Every layer loads, with ids and vectors of one width.\<close>

definition layers_ok :: "'i faiss \<Rightarrow> int \<Rightarrow> 'i list \<Rightarrow> bool" where
  "layers_ok fx dm ixs \<longleftrightarrow> (\<forall>ix \<in> set ixs. bare fx ix (fx_native_ids fx ix) \<and> fx_d fx ix = dm)"

lemma gather_ok:
  assumes "layers_ok fx dm ixs" and "\<forall>(n, p) \<in> set ss. p < length ixs \<and> n \<in> set (fx_native_ids fx (ixs ! p))"
  shows "\<exists>vs. gather fx ixs ss = Inr vs \<and> length vs = length ss \<and> row_width dm vs \<and>
    (\<forall>j < length ss. fx_reconstruct fx (ixs ! snd (ss ! j)) (fst (ss ! j)) = Inr (vs ! j))"
  using assms(2)
proof (induction ss)
  case (Cons s ss)
  obtain n p where s: "s = (n, p)" by fastforce
  then have "p < length ixs" "n \<in> set (fx_native_ids fx (ixs ! p))" using Cons.prems by auto
  then obtain v where v: "fx_reconstruct fx (ixs ! p) n = Inr v" "int (length v) = dm"
    using assms(1) by (force simp: layers_ok_def bare_def)
  obtain vs where vs: "gather fx ixs ss = Inr vs" "length vs = length ss" "row_width dm vs"
    "\<forall>j < length ss. fx_reconstruct fx (ixs ! snd (ss ! j)) (fst (ss ! j)) = Inr (vs ! j)"
    using Cons by auto
  have "\<forall>j < length (s # ss). fx_reconstruct fx (ixs ! snd ((s # ss) ! j)) (fst ((s # ss) ! j)) = Inr ((v # vs) ! j)"
    using v vs(4) s by (auto simp: nth_Cons split: nat.split)
  with v vs s show ?case by (intro exI[of _ "v # vs"]) (simp add: row_width_def)
qed (simp add: row_width_def)

section \<open>The new base\<close>

definition layers_of :: "'i faiss \<Rightarrow> 'i list \<Rightarrow> shard list \<Rightarrow> (int list \<times> int list) list" where
  "layers_of fx ixs ss = zip (map (fx_native_ids fx) ixs) (map sh_tombs ss)"

text \<open>The vector of an id after all layers: that of the last layer that mentions it, if it lives there.\<close>

definition layered :: "'i faiss \<Rightarrow> 'i list \<Rightarrow> shard list \<Rightarrow> int \<Rightarrow> vec option" where
  "layered fx ixs ss n =
     (case find_last (\<lambda>j. mentions (layers_of fx ixs ss ! j) n) [0..<length (layers_of fx ixs ss)] of
        None \<Rightarrow> None
      | Some p \<Rightarrow> if n \<in> set (sh_tombs (ss ! p)) then None
                  else (case fx_reconstruct fx (ixs ! p) n of Inr v \<Rightarrow> Some v | Inl _ \<Rightarrow> None))"

definition bare_at :: "'i faiss \<Rightarrow> 'i \<Rightarrow> int \<Rightarrow> vec option" where
  "bare_at fx ix n = (if n \<in> set (fx_native_ids fx ix)
     then (case fx_reconstruct fx ix n of Inr v \<Rightarrow> Some v | Inl _ \<Rightarrow> None) else None)"

lemma compact_ok:
  assumes law: "law_bare_add fx" and ly: "layers_ok fx dm ixs" and len: "length ixs = length ss"
    and q: "bare fx q []" "fx_d fx q = dm"
  defines "sv \<equiv> survivors_of (final_marks 0 (layers_of fx ixs ss) [])"
  obtains vs ix where "gather fx ixs sv = Inr vs" and "fx_add fx (fx_clone fx q) (map fst sv) vs = Inr ix"
    and "bare fx ix (map fst sv)" and "fx_ntotal fx ix = int (length sv)"
    and "\<And>n. bare_at fx ix n = layered fx ixs ss n"
proof -
  let ?ls = "layers_of fx ixs ss"
  have lls: "length ?ls = length ixs" using len by (simp add: layers_of_def)
  have nth: "?ls ! p = (fx_native_ids fx (ixs ! p), sh_tombs (ss ! p))" if "p < length ixs" for p
    using that len by (simp add: layers_of_def)
  have sv: "(n, p) \<in> set sv \<longleftrightarrow> find_last (\<lambda>j. mentions (?ls ! j) n) [0..<length ?ls] = Some p \<and> n \<notin> set (sh_tombs (ss ! p))" for n p
  proof -
    have "find_last (\<lambda>j. mentions (?ls ! j) n) [0..<length ?ls] = Some p \<Longrightarrow> p < length ixs"
      using find_last_upt[of "\<lambda>j. mentions (?ls ! j) n" "length ?ls" p] lls by simp
    then show ?thesis unfolding sv_def survivors_iff by (auto simp: nth)
  qed
  have mem: "p < length ixs \<and> n \<in> set (fx_native_ids fx (ixs ! p))" if "(n, p) \<in> set sv" for n p
  proof -
    have "find_last (\<lambda>j. mentions (?ls ! j) n) [0..<length ?ls] = Some p" "n \<notin> set (sh_tombs (ss ! p))"
      using that sv by simp_all
    then show ?thesis using find_last_upt[of "\<lambda>j. mentions (?ls ! j) n" "length ?ls" p] lls nth[of p]
      by (simp add: mentions_def)
  qed
  have dst: "distinct (map fst sv)" unfolding sv_def by (intro distinct_survivors dkeys_final_marks) simp
  obtain vs where vs: "gather fx ixs sv = Inr vs" "length vs = length sv" "row_width dm vs"
    "\<forall>j < length sv. fx_reconstruct fx (ixs ! snd (sv ! j)) (fst (sv ! j)) = Inr (vs ! j)"
    using gather_ok[OF ly, of sv] mem by auto
  obtain ix where ix: "fx_add fx (fx_clone fx q) (map fst sv) vs = Inr ix" "bare fx ix (map fst sv)"
    "\<forall>j < length (map fst sv). fx_reconstruct fx ix (map fst sv ! j) = Inr (vs ! j)"
    using law q vs(2,3) dst unfolding law_bare_add_def by (metis length_map)
  have "bare_at fx ix n = layered fx ixs ss n" for n
  proof (cases "n \<in> set (map fst sv)")
    case True
    then obtain j where j: "j < length sv" "n = fst (sv ! j)" by (auto simp: in_set_conv_nth)
    obtain p where p: "sv ! j = (n, p)" using j by (cases "sv ! j") auto
    then have "(n, p) \<in> set sv" using nth_mem[OF j(1)] by simp
    then have f: "find_last (\<lambda>j. mentions (?ls ! j) n) [0..<length ?ls] = Some p" "n \<notin> set (sh_tombs (ss ! p))"
      using sv by simp_all
    have "fx_reconstruct fx (ixs ! p) n = Inr (vs ! j)" using vs(4) j(1) p by auto
    moreover have "fx_reconstruct fx ix n = Inr (vs ! j)" using ix(3) j by auto
    moreover have "n \<in> set (fx_native_ids fx ix)" using ix(2) True by (simp add: bare_def)
    ultimately show ?thesis using f by (simp add: bare_at_def layered_def)
  next
    case False
    have "layered fx ixs ss n = None"
    proof (cases "find_last (\<lambda>j. mentions (?ls ! j) n) [0..<length ?ls]")
      case (Some p)
      have "(n, p) \<notin> set sv" using False by force
      then show ?thesis using Some sv[of n p] by (simp add: layered_def)
    qed (simp add: layered_def)
    then show ?thesis using False ix(2) by (simp add: bare_at_def bare_def)
  qed
  moreover have "fx_ntotal fx ix = int (length sv)" using ix(2) by (simp add: bare_def)
  ultimately show thesis using that vs(1) ix(1,2) by blast
qed

lemma load_all_length: "load_all env fx b ss = Inr ixs \<Longrightarrow> length ixs = length ss"
  by (induction ss arbitrary: ixs) (auto split: sum.splits)

text \<open>A compaction that finds survivors writes the new base and makes it the whole live generation.\<close>

lemma major_compaction_ok:
  assumes law: "law_bare_add fx" and on: "online env" and cat: "cat_ok (w_cat w)" and tick: "cat_tick (w_cat w) now"
    and g: "live_generation (w_cat w) k = Some g" and dl: "g_deltas g \<noteq> []"
    and ty: "sh_index_type (g_base g) = ''ivfflat''" "1 \<le> sh_qver (g_base g)"
    and ld: "load_all env fx (w_bucket w) (gen_rows g) = Inr ixs" and ly: "layers_ok fx dm ixs"
    and q: "load_quantizer env w k (sh_qver (g_base g)) = (Inr q, w0)" "bare fx q []" "fx_d fx q = dm"
    and alive: "\<exists>n. layered fx ixs (gen_rows g) n \<noteq> None"
    and orphan: "\<forall>s \<in> set (list_shards (w_cat w) k). sh_parent s \<noteq> Some (c_last_id (w_cat w) + 1)"
  obtains ix s w' where "major_compaction env fx w k now fr = (Inr (Some (sh_uri s)), w')"
    and "live_generation (w_cat w') k = Some \<lparr>g_base = s, g_deltas = []\<rparr>"
    and "dget (w_bucket w') (sh_uri s) = Some (IndexB ix)"
    and "\<And>n. bare_at fx ix n = layered fx ixs (gen_rows g) n"
    and "sh_lsn s = Max (set (map shard_frontier (gen_rows g)))" and "w_recall w' = w_recall w"
proof -
  let ?ss = "gen_rows g"
  let ?sv = "survivors_of (final_marks 0 (layers_of fx ixs ?ss) [])"
  have len: "length ixs = length ?ss" using load_all_length[OF ld] .
  obtain vs ix where gv: "gather fx ixs ?sv = Inr vs" and add: "fx_add fx (fx_clone fx q) (map fst ?sv) vs = Inr ix"
    and b: "bare fx ix (map fst ?sv)" and nt: "fx_ntotal fx ix = int (length ?sv)"
    and at: "\<And>n. bare_at fx ix n = layered fx ixs ?ss n"
    by (rule compact_ok[OF law ly len q(2,3)]) (rule that)
  obtain n where "layered fx ixs ?ss n \<noteq> None" using alive by blast
  then have "bare_at fx ix n \<noteq> None" by (simp add: at)
  then have ne: "?sv \<noteq> []" using b by (auto simp: bare_at_def bare_def)
  have w0: "w_cat w0 = w_cat w" "w_bucket w0 = w_bucket w" "w_recall w0 = w_recall w"
    using q(1) by (auto simp: load_quantizer_def Let_def split: option.splits sum.splits)
  let ?sc = "merge_sidecars env (w_bucket w) ?ss (fst ` set ?sv)"
  let ?a = "base_args (Max (set (map shard_frontier ?ss))) (sh_qver (g_base g))"
  obtain w1 where w1: "write_shard env w0 k ix ?sc (fx_ntotal fx ix) ''ivfflat'' ?a now fr = (Inr (compute_shard_uri env k fr), w1)"
    "list_shards (w_cat w1) k = new_row env w0 k (fx_ntotal fx ix) ''ivfflat'' ?a now fr # list_shards (w_cat w0) k"
    "w_bucket w1 = dset (sidecar_uri (compute_shard_uri env k fr)) (SidecarB ?sc)
      (dset (compute_shard_uri env k fr) (IndexB ix) (w_bucket w0))"
    "w_recall w1 = w_recall w0"
    by (rule write_shard_ok[OF on, of w0 now k ix ?sc "fx_ntotal fx ix" "''ivfflat''" ?a fr]) (use cat tick w0 in simp_all)
  let ?s = "new_row env w0 k (fx_ntotal fx ix) ''ivfflat'' ?a now fr"
  let ?w' = "mark_build w1 ''major_compaction'' (int (length ?sv)) []"
  have tc: "(g_deltas g = []) = False" "(sh_index_type (g_base g) \<noteq> ''ivfflat'' \<or> sh_qver (g_base g) < 1) = False"
    "(?sv = []) = False" "(fx_ntotal fx ix \<noteq> int (length ?sv)) = False"
    using dl ty ne nt by simp_all
  have run: "major_compaction env fx w k now fr = (Inr (Some (compute_shard_uri env k fr)), ?w')"
    unfolding major_compaction_def Let_def g option.case tc if_False ld sum.case layers_of_def[symmetric] q(1) prod.case gv add
      w1(1) lift_uri_def fst_conv snd_conv map_sum.simps ..
  have id: "sh_id ?s = c_last_id (w_cat w) + 1" by (simp add: new_row_def w0 add_shard_def store_shard_def Let_def)
  have lv: "sh_level ?s = 0" by (simp add: base_args_def)
  have "kids_of (?s # list_shards (w_cat w) k) ?s = []"
    using orphan lv id by (auto simp: kids_of_def filter_empty_conv)
  then have live: "live_generation (w_cat ?w') k = Some \<lparr>g_base = ?s, g_deltas = []\<rparr>"
    using lv by (simp add: live_generation_def current_generation_def generations_bases w1(2) w0 mark_build_def del: new_row_simps)
  show thesis
  proof (rule that[of ?s ?w' ix])
    show "dget (w_bucket ?w') (sh_uri ?s) = Some (IndexB ix)" by (simp add: mark_build_def w1(3) pdict_simps)
    show "sh_lsn ?s = Max (set (map shard_frontier ?ss))" by (simp add: base_args_def)
    show "w_recall ?w' = w_recall w" using w1(4) w0(3) by (simp add: mark_build_def)
  qed (use run live at in simp_all)
qed

end
