(* ===== verification/Compaction_Properties.thy ===== *)
theory Compaction_Properties
  imports Compaction Build_Properties
begin

text \<open>
  What the major compaction of the delta tier promises, and a generation of a base and one delta to
  try it on.
\<close>















end
