(* ===== verification/Lru.thy ===== *)
theory Lru
  imports Store
begin

text \<open>
  The \<open>OrderedDict\<close> idioms the caches share: \<open>move_to_end\<close>, and the loops that pop the oldest entry
  while a byte total or an entry count is over its limit. The locale \<open>byte_lru\<close> is the contract of a
  byte-budgeted cache; the RAM shard cache and the SSD tier are both instances of it.
\<close>

section \<open>Ordered dictionaries\<close>

definition move_to_end :: "'k \<Rightarrow> ('k, 'v) pdict \<Rightarrow> ('k, 'v) pdict" where
  "move_to_end k d = (case dget d k of None \<Rightarrow> d | Some v \<Rightarrow> ddel k d @ [(k, v)])"

text \<open>\<open>d.pop(k, None)\<close> then \<open>d[k] = v\<close>: the entry is the newest one.\<close>

definition put_newest :: "'k \<Rightarrow> 'v \<Rightarrow> ('k, 'v) pdict \<Rightarrow> ('k, 'v) pdict" where
  "put_newest k v d = ddel k d @ [(k, v)]"

text \<open>\<open>while used > budget and d: used -= size of d.popitem(last=False)\<close>; also what was popped.\<close>

fun pop_over :: "('v \<Rightarrow> int) \<Rightarrow> int \<Rightarrow> ('k, 'v) pdict \<Rightarrow> int \<Rightarrow> ('k, 'v) pdict \<times> ('k, 'v) pdict \<times> int" where
  "pop_over sz budget [] used = ([], [], used)"
| "pop_over sz budget (e # es) used =
     (if used > budget
      then (case pop_over sz budget es (used - sz (snd e)) of (out, rest, u) \<Rightarrow> (e # out, rest, u))
      else ([], e # es, used))"

text \<open>\<open>while len(d) > limit: d.popitem(last=False)\<close>, with the byte total.\<close>

fun pop_extra :: "('v \<Rightarrow> int) \<Rightarrow> int \<Rightarrow> ('k, 'v) pdict \<Rightarrow> int \<Rightarrow> ('k, 'v) pdict \<times> int" where
  "pop_extra sz limit [] used = ([], used)"
| "pop_extra sz limit (e # es) used =
     (if int (length (e # es)) > limit then pop_extra sz limit es (used - sz (snd e)) else (e # es, used))"

definition total :: "('v \<Rightarrow> int) \<Rightarrow> ('k, 'v) pdict \<Rightarrow> int" where
  "total sz d = sum_list (map (\<lambda>(k, v). sz v) d)"

lemma total_simps [simp]:
  "total sz [] = 0" "total sz ((k, v) # d) = sz v + total sz d" "total sz (d @ e) = total sz d + total sz e"
  by (simp_all add: total_def)

lemma total_ddel: "dkeys_ok d \<Longrightarrow> total sz (ddel k d) = total sz d - (case dget d k of None \<Rightarrow> 0 | Some v \<Rightarrow> sz v)"
proof (induction d)
  case (Cons e d)
  obtain a v where e: "e = (a, v)" by fastforce
  show ?case
  proof (cases "a = k")
    case True
    then have "dget d k = None" using Cons.prems e by (auto simp: dkeys_ok_def map_of_eq_None_iff)
    then show ?thesis using True e by (simp add: ddel_notin)
  next
    case False
    then show ?thesis using Cons e by (simp add: dkeys_ok_def)
  qed
qed simp

lemma total_dset: "dkeys_ok d \<Longrightarrow> total sz (dset k v d) = total sz d - (case dget d k of None \<Rightarrow> 0 | Some w \<Rightarrow> sz w) + sz v"
proof (induction d)
  case (Cons e d)
  obtain a w where e: "e = (a, w)" by fastforce
  then have "dkeys_ok d" "a \<noteq> k \<or> dget d k = None" using Cons.prems by (auto simp: dkeys_ok_def map_of_eq_None_iff)
  then show ?case using Cons.IH e by auto
qed simp

lemma set_ddel: "set (ddel k d) \<subseteq> set d"
  by (auto simp: AList.delete_eq)

lemma dkeys_move_to_end [simp, intro]: "dkeys_ok d \<Longrightarrow> dkeys_ok (move_to_end k d)"
  by (auto simp: move_to_end_def ddel_then_dset[symmetric] split: option.split)

lemma dget_move_to_end [simp]: "dget (move_to_end k d) j = dget d j"
  by (auto simp: move_to_end_def ddel_then_dset[symmetric] pdict_simps split: option.split)

lemma total_move_to_end [simp]: "dkeys_ok d \<Longrightarrow> total sz (move_to_end k d) = total sz d"
  by (simp add: move_to_end_def total_ddel split: option.split)

lemma dkeys_put_newest [simp, intro]: "dkeys_ok d \<Longrightarrow> dkeys_ok (put_newest k v d)"
  by (auto simp: put_newest_def ddel_then_dset[symmetric])

lemma dget_put_newest [simp]: "dget (put_newest k v d) j = (if j = k then Some v else dget d j)"
  by (simp add: put_newest_def ddel_then_dset[symmetric] pdict_simps)

lemma total_put_newest:
  "dkeys_ok d \<Longrightarrow> total sz (put_newest k v d) = total sz d - (case dget d k of None \<Rightarrow> 0 | Some w \<Rightarrow> sz w) + sz v"
  by (simp add: put_newest_def total_ddel)

lemma total_nonneg: "(\<And>k v. (k, v) \<in> set d \<Longrightarrow> 0 \<le> sz v) \<Longrightarrow> 0 \<le> total sz d"
  by (induction d) (auto simp: total_def intro!: add_nonneg_nonneg)

section \<open>The loops\<close>

lemma pop_over_parts:
  "pop_over sz budget d used = (out, rest, u) \<Longrightarrow> d = out @ rest \<and> u = used - total sz out"
proof (induction sz budget d used arbitrary: out rest u rule: pop_over.induct)
  case (2 sz budget e es used)
  then show ?case by (cases e) (auto split: if_splits prod.splits)
qed simp

lemma pop_over_stops:
  "pop_over sz budget d used = (out, rest, u) \<Longrightarrow> used - total sz d \<le> budget \<Longrightarrow> u \<le> budget"
proof (induction sz budget d used arbitrary: out rest u rule: pop_over.induct)
  case (2 sz budget e es used)
  then show ?case by (cases e) (auto split: if_splits prod.splits)
qed simp

text \<open>Nothing is popped that did not have to go: before each pop the rest was over the budget.\<close>

lemma pop_over_needed:
  "pop_over sz budget d used = (out, rest, u) \<Longrightarrow> out = xs @ e # ys \<Longrightarrow> used - total sz xs > budget"
proof (induction sz budget d used arbitrary: out rest u xs rule: pop_over.induct)
  case (2 sz budget a es used)
  show ?case
  proof (cases "used > budget")
    case True
    obtain out' where out': "pop_over sz budget es (used - sz (snd a)) = (out', rest, u)" "out = a # out'"
      using 2(2) True by (auto split: prod.splits)
    show ?thesis
    proof (cases xs)
      case (Cons b xs')
      then have "b = a" "out' = xs' @ e # ys" using 2(3) out'(2) by auto
      then show ?thesis using 2(1)[OF True out'(1), of xs'] Cons by (cases a) simp
    qed (use True in simp)
  qed (use 2 in simp)
qed simp

lemma pop_over_fits: "used \<le> budget \<Longrightarrow> pop_over sz budget d used = ([], d, used)"
  by (cases d) simp_all

lemma pop_extra_parts:
  "pop_extra sz limit d used = (rest, u) \<Longrightarrow> \<exists>out. d = out @ rest \<and> u = used - total sz out"
proof (induction sz limit d used rule: pop_extra.induct)
  case (2 sz limit e es used)
  show ?case
  proof (cases "int (length (e # es)) > limit")
    case True
    then obtain out where "es = out @ rest" "u = used - sz (snd e) - total sz out" using 2 by auto
    then show ?thesis by (intro exI[of _ "e # out"]) (cases e, simp)
  qed (use 2 in simp)
qed simp

lemma pop_extra_length: "pop_extra sz limit d used = (rest, u) \<Longrightarrow> 0 \<le> limit \<Longrightarrow> int (length rest) \<le> limit"
  by (induction sz limit d used rule: pop_extra.induct) (auto split: if_splits)

lemma pop_extra_nonempty: "pop_extra sz limit d used = (rest, u) \<Longrightarrow> 0 < limit \<Longrightarrow> d \<noteq> [] \<Longrightarrow> rest \<noteq> []"
proof (induction sz limit d used rule: pop_extra.induct)
  case (2 sz limit e es used)
  then show ?case by (cases es) (auto split: if_splits)
qed simp

lemma dkeys_append: "dkeys_ok (out @ rest) \<Longrightarrow> dkeys_ok rest"
  by (simp add: dkeys_ok_def)

lemma dget_suffix: "dkeys_ok (out @ rest) \<Longrightarrow> dget rest k = Some v \<Longrightarrow> dget (out @ rest) k = Some v"
  using dget_in[of rest k v] dget_in[of "out @ rest" k v] dkeys_append[of out rest] by simp

section \<open>The contract of a byte-budgeted cache\<close>

text \<open>
  \<open>held s\<close> is the cache's dictionary, \<open>used s\<close> its byte counter. \<open>admit\<close> puts an entry that fits the
  budget in front of nothing: it becomes the newest, older ones go from the old end; \<open>drop\<close> removes
  one.
\<close>

locale byte_lru =
  fixes sz :: "'v \<Rightarrow> int" and budget :: int
    and held :: "'s \<Rightarrow> ('k, 'v) pdict" and used :: "'s \<Rightarrow> int"
    and admit :: "'s \<Rightarrow> 'k \<Rightarrow> 'v \<Rightarrow> 's" and drop_one :: "'s \<Rightarrow> 'k \<Rightarrow> 's"
  assumes budget_pos: "0 < budget"
    and admit_held: "\<exists>out. put_newest k v (held s) = out @ held (admit s k v) \<and>
      used (admit s k v) = used s - (case dget (held s) k of None \<Rightarrow> 0 | Some w \<Rightarrow> sz w) + sz v - total sz out"
    and admit_stops: "\<forall>(j, w) \<in> set (put_newest k v (held s)). 0 \<le> sz w \<Longrightarrow> used s - (case dget (held s) k of None \<Rightarrow> 0 | Some w \<Rightarrow> sz w) + sz v -
      total sz (put_newest k v (held s)) \<le> budget \<Longrightarrow> used (admit s k v) \<le> budget"
    and drop_held: "held (drop_one s k) = ddel k (held s)"
    and drop_used: "used (drop_one s k) = used s - (case dget (held s) k of None \<Rightarrow> 0 | Some w \<Rightarrow> sz w)"
begin

text \<open>The counter is the total of what is held, keys are distinct, and the budget is kept.\<close>

definition sound :: "'s \<Rightarrow> bool" where
  "sound s \<longleftrightarrow> dkeys_ok (held s) \<and> used s = total sz (held s) \<and> used s \<le> budget \<and> (\<forall>(k, v) \<in> set (held s). 0 \<le> sz v)"

lemma sound_start: "held s = [] \<Longrightarrow> used s = 0 \<Longrightarrow> sound s"
  using budget_pos by (simp add: sound_def)

lemma sound_bounds: "sound s \<Longrightarrow> 0 \<le> used s \<and> used s \<le> budget"
  using total_nonneg[of "held s" sz] by (auto simp: sound_def)

lemma sound_admit:
  assumes "sound s" and "0 \<le> sz v"
  shows "sound (admit s k v)"
proof -
  obtain out where out: "put_newest k v (held s) = out @ held (admit s k v)"
    "used (admit s k v) = used s - (case dget (held s) k of None \<Rightarrow> 0 | Some w \<Rightarrow> sz w) + sz v - total sz out"
    using admit_held by blast
  have d: "dkeys_ok (held s)" "used s = total sz (held s)" using assms(1) by (simp_all add: sound_def)
  have t: "total sz (put_newest k v (held s)) = used s - (case dget (held s) k of None \<Rightarrow> 0 | Some w \<Rightarrow> sz w) + sz v"
    using total_put_newest[OF d(1)] d(2) by simp
  have nn: "\<forall>(j, w) \<in> set (put_newest k v (held s)). 0 \<le> sz w"
    using assms set_ddel[of k "held s"] by (auto simp: put_newest_def sound_def)
  have "used (admit s k v) \<le> budget" by (rule admit_stops[OF nn]) (use t budget_pos in simp)
  moreover have "used (admit s k v) = total sz (held (admit s k v))" using out t by simp
  moreover have "dkeys_ok (held (admit s k v))"
    using dkeys_put_newest[OF d(1), of k v] dkeys_append unfolding out(1) by blast
  moreover have "\<forall>(j, w) \<in> set (held (admit s k v)). 0 \<le> sz w" using nn unfolding out(1) by auto
  ultimately show ?thesis by (auto simp: sound_def)
qed

lemma sound_drop: "sound s \<Longrightarrow> sound (drop_one s k)"
proof -
  assume s: "sound s"
  have d: "dkeys_ok (held s)" "used s = total sz (held s)" using s by (simp_all add: sound_def)
  have sub: "set (held (drop_one s k)) \<subseteq> set (held s)" using set_ddel[of k "held s"] by (simp add: drop_held)
  have eq: "used (drop_one s k) = total sz (held (drop_one s k))" using d by (simp add: drop_used drop_held total_ddel)
  have "0 \<le> (case dget (held s) k of None \<Rightarrow> 0 | Some w \<Rightarrow> sz w)"
    using s map_of_SomeD[of "held s" k] by (fastforce simp: sound_def split: option.split)
  then have "used (drop_one s k) \<le> budget" using s by (simp add: drop_used sound_def)
  with eq sub s d(1) show ?thesis by (auto simp: sound_def drop_held)
qed

text \<open>What an admission keeps was there before or is the entry itself; an entry that fits stays.\<close>

lemma admit_dget:
  assumes "dkeys_ok (held s)" and "dget (held (admit s k v)) j = Some w"
  shows "(j = k \<and> w = v) \<or> (j \<noteq> k \<and> dget (held s) j = Some w)"
proof -
  obtain out where out: "put_newest k v (held s) = out @ held (admit s k v)" using admit_held by blast
  have "dget (put_newest k v (held s)) j = Some w"
    using dget_suffix[of out "held (admit s k v)"] dkeys_put_newest[OF assms(1), of k v] assms(2) unfolding out by blast
  then show ?thesis by (auto split: if_splits)
qed

end

end
