(* ===== verification/Errors.thy ===== *)
theory Errors
  imports Lru Recall_Pg
begin

text \<open>
  The error contract of the HTTP surface, \<open>adapters/errors.py\<close>: the envelope every endpoint answers
  an error with, and the classification of exceptions that escape a query into a code and a message
  that does not leak their text.
\<close>

text \<open>A response is a status and a JSON body.\<close>

type_synonym response = "int \<times> json"

definition error_envelope :: "int \<Rightarrow> string \<Rightarrow> string \<Rightarrow> meta option \<Rightarrow> response" where
  "error_envelope status_code code message details =
     (status_code, JObj [(''error'', JObj ([(''code'', JStr code), (''message'', JStr message)] @
        (case details of None \<Rightarrow> [] | Some d \<Rightarrow> [(''details'', JObj d)])))])"

text \<open>The exceptions of the query path by class; \<open>EExc\<close> and \<open>EDb\<close> are those the other models raise.\<close>

datatype query_exc =
    ERecallUnavailable | EPermission | ECapacity | ECoalescing | ETierTimeout | EFileNotFound
  | EClient | EOs | EDb dberr | EExc pyexc

text \<open>
  The branches in the order of the code: \<open>PermissionError\<close> and \<open>FileNotFoundError\<close> are tested before
  their base class \<open>OSError\<close>.
\<close>

definition class_name :: "query_exc \<Rightarrow> string" where
  "class_name e = (case e of
     EDb PoolCheckoutTimeout \<Rightarrow> ''PoolCheckoutTimeout'' | EDb OperationalError \<Rightarrow> ''OperationalError''
   | EDb InterfaceError \<Rightarrow> ''InterfaceError'' | EDb (OtherDbError s) \<Rightarrow> s
   | EExc OverflowError \<Rightarrow> ''OverflowError'' | EExc (ValueError _) \<Rightarrow> ''ValueError''
   | EExc KeyError \<Rightarrow> ''KeyError'' | EExc (RuntimeError _) \<Rightarrow> ''RuntimeError'' | EExc (OtherError s) \<Rightarrow> s
   | ERecallUnavailable \<Rightarrow> ''RecallUnavailable'' | EPermission \<Rightarrow> ''PermissionError''
   | ECapacity \<Rightarrow> ''CacheCapacityExceeded'' | ECoalescing \<Rightarrow> ''DownloadCoalescingTimeout''
   | ETierTimeout \<Rightarrow> ''ShardTierTimeout'' | EFileNotFound \<Rightarrow> ''FileNotFoundError'' | EClient \<Rightarrow> ''ClientError''
   | EOs \<Rightarrow> ''OSError'')"

definition classify_query_error :: "query_exc \<Rightarrow> string \<Rightarrow> string \<times> string" where
  "classify_query_error e prefix = (case e of
     ERecallUnavailable \<Rightarrow> (''recall_unavailable'', ''Recall tier is temporarily unavailable'')
   | EPermission \<Rightarrow> (''cache_unavailable'', ''Shard cache is unreadable or unwritable'')
   | ECapacity \<Rightarrow> (''cache_capacity_exceeded'', ''SSD cache tier is at capacity'')
   | ECoalescing \<Rightarrow> (''storage_unavailable'', ''Shard storage is temporarily unavailable'')
   | ETierTimeout \<Rightarrow> (''storage_unavailable'', ''Shard storage is temporarily unavailable'')
   | EFileNotFound \<Rightarrow> (''storage_unavailable'', ''Shard storage is temporarily unavailable'')
   | EClient \<Rightarrow> (''storage_unavailable'', ''Shard storage is temporarily unavailable'')
   | EOs \<Rightarrow> (''cache_unavailable'', ''Shard cache I/O error'')
   | _ \<Rightarrow> (''ephemeral_error'', prefix @ '': '' @ class_name e))"

text \<open>\<open>storage.download_to\<close>: the object's bytes, a missing key being a \<open>FileNotFoundError\<close>.\<close>

definition download_to :: "(uri \<Rightarrow> bool) \<Rightarrow> 'i bucket \<Rightarrow> uri \<Rightarrow> query_exc + 'i blob" where
  "download_to down b u =
     (if \<not> has_scheme u then Inl (EExc (ValueError ''Unsupported read URI''))
      else if down u then Inl EClient
      else case dget b u of None \<Rightarrow> Inl EFileNotFound | Some x \<Rightarrow> Inr x)"

lemma download_to_Inr: "download_to down b u = Inr x \<Longrightarrow> dget b u = Some x"
  by (auto simp: download_to_def split: if_splits option.splits)

end
