(* ===== verification/Shard_Tier.thy ===== *)
theory Shard_Tier
  imports Errors
begin

text \<open>
  The SSD tier of downloaded shards, \<open>adapters/storage/shard_tier.py\<close>, and the plain disk cache it
  replaces, \<open>adapters/cache/shard_fetch.py\<close>. The local disk is a dictionary from paths to objects;
  a call by one thread that finds no download in flight is one definition, the protocol between
  concurrent callers is the theory \<open>Single_Flight\<close>.
\<close>

section \<open>State\<close>

text \<open>An entry: local path, size, time of admission, time of the last query.\<close>

type_synonym resident = "string \<times> int \<times> time \<times> time"

record 'i tier =
  t_res :: "(uri, resident) pdict"
  t_used :: int
  t_files :: "(string, 'i blob) pdict"

record tier_cfg =
  tc_env_bytes :: int
  tc_dir :: string
  tc_min_resident :: int

definition shard_tier_bytes :: "tier_cfg \<Rightarrow> int" where
  "shard_tier_bytes cfg = max 1 (tc_env_bytes cfg)"

definition res_bytes :: "resident \<Rightarrow> int" where
  "res_bytes r = (case r of (_, n, _, _) \<Rightarrow> n)"

lemma res_bytes_simp [simp]: "res_bytes (p, n, a, l) = n"
  by (simp add: res_bytes_def)

text \<open>\<open>uri.split("://", 1)[1].replace("/", "_")\<close>\<close>

fun after_scheme :: "uri \<Rightarrow> string" where
  "after_scheme [] = []"
| "after_scheme (c # s) = (if starts_with ''://'' (c # s) then drop 2 s else after_scheme s)"

definition local_name :: "uri \<Rightarrow> string" where
  "local_name u = map (\<lambda>c. if c = CHR ''/'' then CHR ''_'' else c) (after_scheme u)"

definition local_path_for :: "tier_cfg \<Rightarrow> uri \<Rightarrow> string" where
  "local_path_for cfg u = tc_dir cfg @ ''/'' @ local_name u"

section \<open>Eviction and admission\<close>

definition evict_locked :: "'i tier \<Rightarrow> uri \<Rightarrow> bool \<times> 'i tier" where
  "evict_locked t u =
     (case dget (t_res t) u of
        None \<Rightarrow> (False, t)
      | Some (p, n, _, _) \<Rightarrow>
          (True, t\<lparr>t_res := ddel u (t_res t), t_used := t_used t - n, t_files := ddel p (t_files t)\<rparr>))"

definition unlink_all :: "(uri, resident) pdict \<Rightarrow> (string, 'i blob) pdict \<Rightarrow> (string, 'i blob) pdict" where
  "unlink_all out files = foldl (\<lambda>fs (u, p, _). ddel p fs) files out"

definition admit_locked :: "tier_cfg \<Rightarrow> 'i tier \<Rightarrow> uri \<Rightarrow> string \<Rightarrow> int \<Rightarrow> time \<Rightarrow> 'i tier" where
  "admit_locked cfg t u p nbytes now =
     (let used0 = t_used t - (case dget (t_res t) u of None \<Rightarrow> 0 | Some r \<Rightarrow> res_bytes r);
          res1 = put_newest u (p, nbytes, now, now) (t_res t);
          (out, res2, used2) = pop_over res_bytes (shard_tier_bytes cfg) res1 (used0 + nbytes)
      in t\<lparr>t_res := res2, t_used := used2, t_files := unlink_all out (t_files t)\<rparr>)"

text \<open>
  The admission floor: walk from the oldest entry until enough would be freed; a candidate younger
  than the floor, or running out of candidates, raises.
\<close>

fun floor_walk :: "time \<Rightarrow> int \<Rightarrow> uri \<Rightarrow> int \<Rightarrow> int \<Rightarrow> (uri, resident) pdict \<Rightarrow> bool" where
  "floor_walk now least u need got [] = False"
| "floor_walk now least u need got ((c, p, n, admit_at, q) # res) =
     (if c = u then floor_walk now least u need got res
      else if now - admit_at < least then False
      else if got + n \<ge> need then True
      else floor_walk now least u need (got + n) res)"

definition check_admission_capacity :: "tier_cfg \<Rightarrow> 'i tier \<Rightarrow> uri \<Rightarrow> int \<Rightarrow> time \<Rightarrow> bool" where
  "check_admission_capacity cfg t u nbytes now =
     (let existing = (case dget (t_res t) u of None \<Rightarrow> 0 | Some r \<Rightarrow> res_bytes r);
          projected = t_used t - existing + nbytes
      in if projected \<le> shard_tier_bytes cfg then True
         else floor_walk now (tc_min_resident cfg) u (projected - shard_tier_bytes cfg) 0 (t_res t))"

section \<open>Fetch, prewarm and the rest of the interface\<close>

text \<open>A resident entry whose file is there is touched and returned.\<close>

definition tier_hit :: "'i tier \<Rightarrow> uri \<Rightarrow> time \<Rightarrow> (string \<times> 'i tier) option" where
  "tier_hit t u now =
     (case dget (t_res t) u of
        None \<Rightarrow> None
      | Some (p, n, a, _) \<Rightarrow>
          if dget (t_files t) p = None then None
          else Some (p, t\<lparr>t_res := move_to_end u (dset u (p, n, a, now) (t_res t))\<rparr>))"

definition tier_fetch ::
  "tier_cfg \<Rightarrow> (uri \<Rightarrow> bool) \<Rightarrow> ('i blob \<Rightarrow> int) \<Rightarrow> 'i bucket \<Rightarrow> 'i tier \<Rightarrow> uri \<Rightarrow> time
   \<Rightarrow> (query_exc + string) \<times> 'i tier" where
  "tier_fetch cfg down bsize b t u now =
     (case tier_hit t u now of
        Some (p, t1) \<Rightarrow> (Inr p, t1)
      | None \<Rightarrow>
         (case download_to down b u of
            Inl e \<Rightarrow> (Inl e, t)
          | Inr x \<Rightarrow>
              let p = local_path_for cfg u;
                  t1 = t\<lparr>t_files := dset p x (t_files t)\<rparr>
              in (Inr p, admit_locked cfg t1 u p (bsize x) now)))"

definition tier_prewarm ::
  "tier_cfg \<Rightarrow> (uri \<Rightarrow> bool) \<Rightarrow> ('i blob \<Rightarrow> int) \<Rightarrow> 'i bucket \<Rightarrow> 'i tier \<Rightarrow> uri \<Rightarrow> time
   \<Rightarrow> (query_exc + string) \<times> 'i tier" where
  "tier_prewarm cfg down bsize b t u now =
     (case tier_hit t u now of
        Some (p, t1) \<Rightarrow> (Inr p, t1)
      | None \<Rightarrow>
         (case download_to down b u of
            Inl e \<Rightarrow> (Inl e, t)
          | Inr x \<Rightarrow>
              let p = local_path_for cfg u;
                  t1 = t\<lparr>t_files := dset p x (t_files t)\<rparr>
              in if check_admission_capacity cfg t1 u (bsize x) now
                 then (Inr p, admit_locked cfg t1 u p (bsize x) now)
                 else (Inl ECapacity, t1\<lparr>t_files := ddel p (t_files t1)\<rparr>)))"

definition tier_evict :: "'i tier \<Rightarrow> uri \<Rightarrow> bool \<times> 'i tier" where
  "tier_evict t u = evict_locked t u"

definition residency :: "'i tier \<Rightarrow> (uri \<times> resident) list" where
  "residency t = t_res t"

definition bytes_used :: "'i tier \<Rightarrow> int" where
  "bytes_used t = t_used t"

section \<open>The plain disk cache\<close>

text \<open>\<open>ensure_cached\<close>: the tier when it is configured, else download once into \<open>CACHE_DIR\<close>.\<close>

definition ensure_cached ::
  "tier_cfg option \<Rightarrow> string \<Rightarrow> (uri \<Rightarrow> bool) \<Rightarrow> ('i blob \<Rightarrow> int) \<Rightarrow> 'i bucket \<Rightarrow> 'i tier \<Rightarrow> uri \<Rightarrow> time
   \<Rightarrow> (query_exc + string) \<times> 'i tier" where
  "ensure_cached tcfg dir down bsize b t u now =
     (case tcfg of
        Some cfg \<Rightarrow> tier_fetch cfg down bsize b t u now
      | None \<Rightarrow>
          if \<not> has_scheme u then (Inl (EExc (ValueError ''Unsupported shard uri'')), t)
          else
            let p = dir @ ''/'' @ local_name u in
            if dget (t_files t) p \<noteq> None then (Inr p, t)
            else case download_to down b u of
                Inl e \<Rightarrow> (Inl e, t)
              | Inr x \<Rightarrow> (Inr p, t\<lparr>t_files := dset p x (t_files t)\<rparr>))"

section \<open>The tier is a byte-budgeted cache\<close>

definition tier_admit :: "tier_cfg \<Rightarrow> 'i tier \<Rightarrow> uri \<Rightarrow> resident \<Rightarrow> 'i tier" where
  "tier_admit cfg t u r =
     (let (out, res, used) = pop_over res_bytes (shard_tier_bytes cfg) (put_newest u r (t_res t))
           (t_used t - (case dget (t_res t) u of None \<Rightarrow> 0 | Some r \<Rightarrow> res_bytes r) + res_bytes r)
      in t\<lparr>t_res := res, t_used := used, t_files := unlink_all out (t_files t)\<rparr>)"

lemma admit_locked_tier: "admit_locked cfg t u p n now = tier_admit cfg t u (p, n, now, now)"
  by (simp add: admit_locked_def tier_admit_def Let_def)

interpretation tier: byte_lru res_bytes "shard_tier_bytes cfg" t_res t_used "tier_admit cfg"
  "\<lambda>t u. snd (evict_locked t u)" for cfg
proof
  fix u :: uri and r :: resident and t :: "'i tier"
  let ?n = "t_used t - (case dget (t_res t) u of None \<Rightarrow> 0 | Some r \<Rightarrow> res_bytes r) + res_bytes r"
  obtain out res n where p: "pop_over res_bytes (shard_tier_bytes cfg) (put_newest u r (t_res t)) ?n = (out, res, n)"
    by (cases "pop_over res_bytes (shard_tier_bytes cfg) (put_newest u r (t_res t)) ?n") auto
  then have a: "tier_admit cfg t u r = t\<lparr>t_res := res, t_used := n, t_files := unlink_all out (t_files t)\<rparr>"
    by (simp add: tier_admit_def)
  show "\<exists>out. put_newest u r (t_res t) = out @ t_res (tier_admit cfg t u r) \<and>
      t_used (tier_admit cfg t u r) = ?n - total res_bytes out"
    using pop_over_parts[OF p] by (auto simp: a)
  show "t_used (tier_admit cfg t u r) \<le> shard_tier_bytes cfg"
    if "?n - total res_bytes (put_newest u r (t_res t)) \<le> shard_tier_bytes cfg"
    using pop_over_stops[OF p that] by (simp add: a)
qed (auto simp: evict_locked_def shard_tier_bytes_def ddel_notin split: option.splits)

end
