(* ===== verification/Tier_Properties.thy ===== *)
theory Tier_Properties
  imports Shard_Tier
begin

text \<open>
  What the SSD tier promises: its byte counter and budget, the floor that protects recent entries
  from speculative arrivals, and that a fetch hands out the object it was asked for.
\<close>

section \<open>Steps\<close>

lemma tier_hit_sound:
  assumes "tier.sound cfg t" and "tier_hit t u now = Some (p, t1)"
  shows "tier.sound cfg t1"
proof -
  obtain n a q where r: "dget (t_res t) u = Some (p, n, a, q)"
    and t1: "t1 = t\<lparr>t_res := move_to_end u (dset u (p, n, a, now) (t_res t))\<rparr>"
    using assms(2) by (auto simp: tier_hit_def split: option.splits if_splits)
  have d: "dkeys_ok (t_res t)" "t_used t = total res_bytes (t_res t)" "\<forall>(k, v) \<in> set (t_res t). 0 \<le> res_bytes v"
    using assms(1) by (auto simp: tier.sound_def)
  have n: "0 \<le> n" using d(3) map_of_SomeD[OF r] by auto
  have "0 \<le> res_bytes v" if "(k, v) \<in> set (t_res t1)" for k v
  proof -
    have "dkeys_ok (t_res t1)" using d(1) by (simp add: t1)
    then have "dget (t_res t1) k = Some v" using dget_in that by metis
    then have "v = (p, n, a, now) \<or> (k, v) \<in> set (t_res t)"
      using map_of_SomeD[of "t_res t" k v] by (auto simp: t1 pdict_simps split: if_splits)
    then show ?thesis using d(3) n by auto
  qed
  then have "\<forall>(k, v) \<in> set (t_res t1). 0 \<le> res_bytes v" by blast
  moreover have "total res_bytes (t_res t1) = t_used t1" using d r by (simp add: t1 total_dset)
  ultimately show ?thesis using assms(1) d(1) by (simp add: tier.sound_def t1)
qed

lemma tier_admit_sound: "tier.sound cfg t \<Longrightarrow> 0 \<le> n \<Longrightarrow> tier.sound cfg (admit_locked cfg t u p n now)"
  unfolding admit_locked_tier by (rule tier.sound_admit) simp_all

lemma tier_files_sound: "tier.sound cfg t \<Longrightarrow> tier.sound cfg (t\<lparr>t_files := f\<rparr>)"
  by (simp add: tier.sound_def)

lemma tier_fetch_sound:
  assumes "tier.sound cfg t" and "\<And>x. 0 \<le> bsize x"
  shows "tier.sound cfg (snd (tier_fetch cfg down bsize b t u now))"
  using assms tier_hit_sound[OF assms(1)] tier_admit_sound[OF tier_files_sound[OF assms(1)] assms(2)]
  by (auto simp: tier_fetch_def Let_def split: option.split sum.split)

lemma tier_prewarm_sound:
  assumes "tier.sound cfg t" and "\<And>x. 0 \<le> bsize x"
  shows "tier.sound cfg (snd (tier_prewarm cfg down bsize b t u now))"
  using assms tier_hit_sound[OF assms(1)] tier_admit_sound[OF tier_files_sound[OF assms(1)] assms(2)]
  by (auto simp: tier_prewarm_def Let_def tier_files_sound split: option.split sum.split)

section \<open>The files\<close>

text \<open>Every resident entry points at the object's own path, and its file, if there, is the object.\<close>

definition tier_files_ok :: "tier_cfg \<Rightarrow> uri set \<Rightarrow> 'i bucket \<Rightarrow> 'i tier \<Rightarrow> bool" where
  "tier_files_ok cfg U b t \<longleftrightarrow> (\<forall>u p n a q. dget (t_res t) u = Some (p, n, a, q) \<longrightarrow>
     u \<in> U \<and> p = local_path_for cfg u \<and> (\<forall>x. dget (t_files t) p = Some x \<longrightarrow> dget b u = Some x))"

lemma dget_unlink_all:
  "dget (unlink_all out files) p = (if \<exists>u n. (u, p, n) \<in> set out then None else dget files p)"
proof -
  have "dget (foldl (\<lambda>fs (u, p, _). ddel p fs) files out) p = (if \<exists>u n. (u, p, n) \<in> set out then None else dget files p)" for files
    by (induction out arbitrary: files) (auto simp: pdict_simps split: if_splits)
  then show ?thesis unfolding unlink_all_def .
qed

lemma tier_admit_files:
  assumes ok: "tier_files_ok cfg U b t" and inj: "inj_on (local_path_for cfg) U" and u: "u \<in> U" "dget b u = Some x"
    and d: "dkeys_ok (t_res t)"
  defines "t1 \<equiv> t\<lparr>t_files := dset (local_path_for cfg u) x (t_files t)\<rparr>"
  shows "tier_files_ok cfg U b (admit_locked cfg t1 u (local_path_for cfg u) n now)"
proof -
  let ?t2 = "admit_locked cfg t1 u (local_path_for cfg u) n now"
  have "v \<in> U \<and> p = local_path_for cfg v \<and> (\<forall>y. dget (t_files ?t2) p = Some y \<longrightarrow> dget b v = Some y)"
    if r: "dget (t_res ?t2) v = Some (p, m, a, q)" for v p m a q
  proof -
    have sub: "dget (t_files ?t2) p = Some y \<Longrightarrow> dget (t_files t1) p = Some y" for p y
      by (auto simp: admit_locked_def Let_def dget_unlink_all split: prod.splits if_splits)
    have "(v = u \<and> p = local_path_for cfg u) \<or> (v \<noteq> u \<and> dget (t_res t) v = Some (p, m, a, q))"
      using tier.admit_dget[of t1 cfg u "(local_path_for cfg u, n, now, now)" v "(p, m, a, q)"] r d
      by (auto simp: admit_locked_tier t1_def)
    then show ?thesis
    proof
      assume "v = u \<and> p = local_path_for cfg u"
      then show ?thesis using sub[of p] u by (auto simp: t1_def pdict_simps)
    next
      assume v: "v \<noteq> u \<and> dget (t_res t) v = Some (p, m, a, q)"
      then have vp: "v \<in> U" "p = local_path_for cfg v" "\<forall>y. dget (t_files t) p = Some y \<longrightarrow> dget b v = Some y"
        using ok by (auto simp: tier_files_ok_def)
      then have "p \<noteq> local_path_for cfg u" using inj u(1) v by (auto dest: inj_onD)
      then show ?thesis using sub[of p] vp by (auto simp: t1_def pdict_simps)
    qed
  qed
  then show ?thesis unfolding tier_files_ok_def by blast
qed

text \<open>An admitted object that fits the budget by itself stays, and so does its file.\<close>

lemma tier_admit_keeps:
  assumes ok: "tier_files_ok cfg U b t" and inj: "inj_on (local_path_for cfg) U" and u: "u \<in> U"
    and s: "tier.sound cfg t" and n: "n \<le> shard_tier_bytes cfg"
  defines "p \<equiv> local_path_for cfg u"
  shows "dget (t_files (admit_locked cfg (t\<lparr>t_files := dset p x (t_files t)\<rparr>) u p n now)) p = Some x"
proof -
  let ?used = "t_used t - (case dget (t_res t) u of None \<Rightarrow> 0 | Some r \<Rightarrow> res_bytes r) + n"
  obtain out res m where po: "pop_over res_bytes (shard_tier_bytes cfg) (put_newest u (p, n, now, now) (t_res t)) ?used = (out, res, m)"
    by (cases "pop_over res_bytes (shard_tier_bytes cfg) (put_newest u (p, n, now, now) (t_res t)) ?used") auto
  have d: "dkeys_ok (t_res t)" "t_used t = total res_bytes (t_res t)" using s by (simp_all add: tier.sound_def)
  have used: "?used = total res_bytes (ddel u (t_res t)) + n" using d by (simp add: total_ddel)
  have split: "ddel u (t_res t) @ [(u, p, n, now, now)] = out @ res"
    using pop_over_parts[OF po] by (simp add: put_newest_def)
  have "(v, p, w) \<notin> set out" for v w
  proof
    assume mem: "(v, p, w) \<in> set out"
    have "res \<noteq> []"
    proof
      assume "res = []"
      then have "out = ddel u (t_res t) @ (u, p, n, now, now) # []" using split by simp
      from pop_over_needed[OF po this] used n show False by simp
    qed
    then obtain rs r where "res = rs @ [r]" by (cases res rule: rev_cases) auto
    then have "out @ rs = ddel u (t_res t)" using split by simp
    then have "(v, p, w) \<in> set (ddel u (t_res t))" using mem by (metis Un_iff set_append)
    then have v: "v \<noteq> u" "(v, p, w) \<in> set (t_res t)" by (auto simp: AList.delete_eq)
    obtain i a q where w: "w = (i, a, q)" by (cases w) auto
    have "v \<in> U \<and> p = local_path_for cfg v"
      using ok dget_in[OF d(1)] v(2) w unfolding tier_files_ok_def by blast
    then show False using inj u v(1) unfolding p_def by (auto dest: inj_onD)
  qed
  then have "dget (unlink_all out (dset p x (t_files t))) p = Some x" by (simp add: dget_unlink_all pdict_simps)
  then show ?thesis using po by (simp add: admit_locked_def)
qed

section \<open>Runs\<close>

text \<open>Any use of the tier over the URIs \<open>U\<close> and a bucket whose objects do not change.\<close>

inductive tier_run :: "tier_cfg \<Rightarrow> ('i blob \<Rightarrow> int) \<Rightarrow> 'i bucket \<Rightarrow> uri set \<Rightarrow> 'i tier \<Rightarrow> bool"
  for cfg bsize b U where
  tier_start: "tier_run cfg bsize b U \<lparr>t_res = [], t_used = 0, t_files = files\<rparr>"
| tier_run_fetch: "tier_run cfg bsize b U t \<Longrightarrow> u \<in> U \<Longrightarrow> tier_run cfg bsize b U (snd (tier_fetch cfg down bsize b t u now))"
| tier_run_prewarm: "tier_run cfg bsize b U t \<Longrightarrow> u \<in> U \<Longrightarrow>
    tier_run cfg bsize b U (snd (tier_prewarm cfg down bsize b t u now))"
| tier_run_evict: "tier_run cfg bsize b U t \<Longrightarrow> tier_run cfg bsize b U (snd (tier_evict t u))"

lemma tier_hit_files:
  assumes "tier_files_ok cfg U b t" and "dkeys_ok (t_res t)" and "tier_hit t u now = Some (p, t1)"
  shows "tier_files_ok cfg U b t1 \<and> t_files t1 = t_files t \<and> p = local_path_for cfg u \<and> (\<exists>x. dget (t_files t) p = Some x \<and> dget b u = Some x)"
  using assms by (auto simp: tier_hit_def tier_files_ok_def pdict_simps split: option.splits if_splits)

lemma tier_evict_files:
  assumes "tier_files_ok cfg U b t"
  shows "tier_files_ok cfg U b (snd (tier_evict t u))"
  using assms
  by (auto simp: tier_evict_def evict_locked_def tier_files_ok_def pdict_simps split: option.splits if_splits)

lemma tier_fetch_files:
  assumes "tier_files_ok cfg U b t" and "inj_on (local_path_for cfg) U" and "u \<in> U" and "dkeys_ok (t_res t)"
  shows "tier_files_ok cfg U b (snd (tier_fetch cfg down bsize b t u now))"
  using tier_hit_files[OF assms(1,4), of u now] tier_admit_files[OF assms(1-3) _ assms(4)] assms(1) download_to_Inr[of down b u]
  by (auto simp: tier_fetch_def Let_def split: option.split sum.split)

lemma tier_prewarm_files:
  assumes "tier_files_ok cfg U b t" and "inj_on (local_path_for cfg) U" and "u \<in> U" and "dkeys_ok (t_res t)"
  shows "tier_files_ok cfg U b (snd (tier_prewarm cfg down bsize b t u now))"
proof -
  have "tier_files_ok cfg U b (t\<lparr>t_files := ddel p (dset p x (t_files t))\<rparr>)" for p x
    using assms(1) by (auto simp: tier_files_ok_def pdict_simps split: if_splits)
  then show ?thesis
    using tier_hit_files[OF assms(1,4), of u now] tier_admit_files[OF assms(1-3) _ assms(4)] assms(1) download_to_Inr[of down b u]
    by (auto simp: tier_prewarm_def Let_def split: option.split sum.split)
qed

lemma tier_run_ok:
  assumes "tier_run cfg bsize b U t" and "inj_on (local_path_for cfg) U" and "\<And>x. 0 \<le> bsize x"
  shows "tier.sound cfg t \<and> tier_files_ok cfg U b t"
  using assms(1)
proof (induction rule: tier_run.induct)
  case tier_start
  then show ?case using tier.sound_start[of "\<lparr>t_res = [], t_used = 0, t_files = files\<rparr>" for files] by (simp add: tier_files_ok_def)
next
  case (tier_run_fetch t u down now)
  then have "dkeys_ok (t_res t)" by (simp add: tier.sound_def)
  with tier_run_fetch tier_fetch_sound[of cfg t bsize down b u now] tier_fetch_files[of cfg U b t u down bsize now] assms(2,3)
  show ?case by blast
next
  case (tier_run_prewarm t u down now)
  then have "dkeys_ok (t_res t)" by (simp add: tier.sound_def)
  with tier_run_prewarm tier_prewarm_sound[of cfg t bsize down b u now] tier_prewarm_files[of cfg U b t u down bsize now] assms(2,3)
  show ?case by blast
next
  case (tier_run_evict t u)
  then show ?case using tier.sound_drop[of cfg t u] tier_evict_files[of cfg U b t u] by (simp add: tier_evict_def)
qed

section \<open>The budget and the objects\<close>

text \<open>
  C26. The SSD tier keeps its budget and hands out the right bytes. Whatever fetches, prewarms and
  evictions of shards with distinct local names were run, whether downloads failed or not: the byte counter
  equals the sizes of the resident entries and lies between 0 and the budget, no entry is twice in
  the table, and a fetch of a readable object that fits the budget returns the path of a file that
  holds exactly that object, whatever had to be evicted for it.
\<close>

theorem tier_serves_objects:
  assumes "tier_run cfg bsize b U t" and "inj_on (local_path_for cfg) U" and "\<And>x. 0 \<le> bsize x"
  shows "bytes_used t = total res_bytes (residency t) \<and> 0 \<le> bytes_used t \<and> bytes_used t \<le> shard_tier_bytes cfg \<and>
    distinct (map fst (residency t)) \<and>
    (\<forall>u x down now. u \<in> U \<longrightarrow> download_to down b u = Inr x \<longrightarrow> bsize x \<le> shard_tier_bytes cfg \<longrightarrow>
       (\<exists>p t'. tier_fetch cfg down bsize b t u now = (Inr p, t') \<and> dget (t_files t') p = Some x))"
proof -
  have ok: "tier.sound cfg t" "tier_files_ok cfg U b t" using tier_run_ok[OF assms] by auto
  then have d: "dkeys_ok (t_res t)" by (simp add: tier.sound_def)
  have "\<exists>p t'. tier_fetch cfg down bsize b t u now = (Inr p, t') \<and> dget (t_files t') p = Some x"
    if u: "u \<in> U" and x: "download_to down b u = Inr x" and fits: "bsize x \<le> shard_tier_bytes cfg" for u x down now
  proof (cases "tier_hit t u now")
    case None
    then show ?thesis using tier_admit_keeps[OF ok(2) assms(2) u ok(1) fits, of x now] x by (simp add: tier_fetch_def Let_def)
  next
    case (Some r)
    obtain p t1 where r: "r = (p, t1)" by fastforce
    then have h: "tier_hit t u now = Some (p, t1)" using Some by simp
    from tier_hit_files[OF ok(2) d h] have "t_files t1 = t_files t" "\<exists>y. dget (t_files t) p = Some y \<and> dget b u = Some y" by blast+
    then show ?thesis using h download_to_Inr[OF x] by (simp add: tier_fetch_def)
  qed
  moreover have "bytes_used t = total res_bytes (residency t)" "distinct (map fst (residency t))"
    using ok(1) d by (simp_all add: bytes_used_def residency_def tier.sound_def dkeys_ok_def)
  ultimately show ?thesis using tier.sound_bounds[OF ok(1)] by (simp add: bytes_used_def)
qed

definition demo_tier_cfg :: tier_cfg where
  "demo_tier_cfg = \<lparr>tc_env_bytes = 10, tc_dir = ''/t'', tc_min_resident = 30\<rparr>"

definition demo_size :: "int blob \<Rightarrow> int" where
  "demo_size x = (case x of IndexB n \<Rightarrow> max 0 n | _ \<Rightarrow> 0)"

definition demo_objects :: "int bucket" where
  "demo_objects = [(''s3://b/x'', IndexB 6), (''s3://b/y'', IndexB 7), (''s3://b/z'', IndexB 11)]"

definition empty_tier :: "int tier" where
  "empty_tier = \<lparr>t_res = [], t_used = 0, t_files = []\<rparr>"

lemma demo_local:
  "local_path_for demo_tier_cfg ''s3://b/x'' = ''/t/b_x''" "local_path_for demo_tier_cfg ''s3://b/y'' = ''/t/b_y''"
  "local_path_for demo_tier_cfg ''s3://b/z'' = ''/t/b_z''"
  by (simp_all add: local_path_for_def local_name_def starts_with_def demo_tier_cfg_def)

lemmas demo_tier_simps = demo_tier_cfg_def demo_objects_def demo_size_def empty_tier_def shard_tier_bytes_def
  download_to_def has_scheme_def starts_with_def

text \<open>Fetching x (6 bytes) then y (7 bytes) into a 10-byte tier: x goes, y is there.\<close>

theorem tier_serves_objects_witness:
  "\<exists>t p t'. t = snd (tier_fetch demo_tier_cfg (\<lambda>_. False) demo_size demo_objects empty_tier ''s3://b/x'' 5) \<and>
     bytes_used t \<le> 10 \<and> tier_fetch demo_tier_cfg (\<lambda>_. False) demo_size demo_objects t ''s3://b/y'' 6 = (Inr p, t') \<and>
     dget (t_files t') p = Some (IndexB 7)"
proof -
  let ?U = "{''s3://b/x'', ''s3://b/y''}"
  let ?t = "snd (tier_fetch demo_tier_cfg (\<lambda>_. False) demo_size demo_objects empty_tier ''s3://b/x'' 5)"
  have "tier_run demo_tier_cfg demo_size demo_objects ?U ?t"
    unfolding empty_tier_def by (intro tier_run_fetch tier_start) simp
  moreover have "inj_on (local_path_for demo_tier_cfg) ?U" by (simp add: demo_local)
  moreover have "0 \<le> demo_size x" for x by (simp add: demo_size_def split: blob.split)
  ultimately have r: "bytes_used ?t \<le> shard_tier_bytes demo_tier_cfg \<and>
      (\<exists>p t'. tier_fetch demo_tier_cfg (\<lambda>_. False) demo_size demo_objects ?t ''s3://b/y'' 6 = (Inr p, t') \<and>
        dget (t_files t') p = Some (IndexB 7))"
    using tier_serves_objects[of demo_tier_cfg demo_size demo_objects ?U ?t] by (auto simp: demo_tier_simps)
  moreover have "shard_tier_bytes demo_tier_cfg = 10" by (simp add: demo_tier_simps)
  ultimately show ?thesis by auto
qed

text \<open>
  An object larger than the budget is admitted and at once evicted: the fetch succeeds, but the path
  it returns has no file, so every query on that shard fails.
\<close>

lemma oversize_fetch_returns_no_file:
  "\<exists>p t'. tier_fetch demo_tier_cfg (\<lambda>_. False) demo_size demo_objects empty_tier ''s3://b/z'' 5 = (Inr p, t') \<and>
     dget (t_files t') p = None"
  by (simp add: tier_fetch_def tier_hit_def Let_def admit_locked_def put_newest_def unlink_all_def demo_tier_simps
      demo_local[unfolded demo_tier_cfg_def])

section \<open>The admission floor\<close>

text \<open>What the walk accepts is what the eviction loop then takes: old entries only.\<close>

lemma floor_walk_pops:
  assumes "floor_walk now least u need got res"
    and "pop_over res_bytes budget (ddel u res @ [new]) used = (out, rest, m)" and "used - budget = need - got"
  shows "\<forall>(c, p, n, a, q) \<in> set out. (c, p, n, a, q) \<in> set res \<and> least \<le> now - a"
  using assms
proof (induction now least u need got res arbitrary: used out rule: floor_walk.induct)
  case (2 now least u need got c p n a q res)
  show ?case
  proof (cases "c = u")
    case True
    from 2(1)[OF True, of used out] 2(3-5) True show ?thesis by fastforce
  next
    case c: False
    then have age: "least \<le> now - a" using 2(3) by (auto split: if_splits)
    show ?thesis
    proof (cases "used > budget")
      case used: True
      then obtain out' where po: "pop_over res_bytes budget (ddel u res @ [new]) (used - n) = (out', rest, m)"
        and out: "out = (c, p, n, a, q) # out'"
        using 2(4) c by (auto split: prod.splits)
      show ?thesis
      proof (cases "got + n \<ge> need")
        case True
        then have "used - n \<le> budget" using 2(5) by simp
        then have "out' = []" using po by (simp add: pop_over_fits)
        then show ?thesis using out age by simp
      next
        case False
        then have "floor_walk now least u need (got + n) res" using 2(3) c age by simp
        from 2(2)[OF c _ False this po] age 2(5) show ?thesis by (auto simp: out)
      qed
    next
      case False
      then have "out = []" using 2(4) c by simp
      then show ?thesis by simp
    qed
  qed
qed simp

text \<open>
  A prewarm never displaces a recent shard. Whatever entry of the tier, other than the shard
  itself, was resident before a prewarm and is gone after it had been admitted at least the
  configured time before; and a prewarm that is refused for capacity changes no entry and no
  counter.
\<close>

lemma prewarm_respects_floor:
  assumes "dkeys_ok (t_res t)" and "tier_prewarm cfg down bsize b t u now = (r, t')"
  shows "(\<forall>v p n a q. v \<noteq> u \<longrightarrow> dget (t_res t) v = Some (p, n, a, q) \<longrightarrow> dget (t_res t') v = None \<longrightarrow>
      tc_min_resident cfg \<le> now - a) \<and>
    (r = Inl ECapacity \<longrightarrow> t_res t' = t_res t \<and> t_used t' = t_used t)"
proof (cases "tier_hit t u now")
  case (Some h)
  then have "dget (t_res t') v = dget (t_res t) v" if "v \<noteq> u" for v
    using assms(2) that by (auto simp: tier_prewarm_def tier_hit_def pdict_simps split: option.splits if_splits)
  moreover have "r \<noteq> Inl ECapacity" using Some assms(2) by (auto simp: tier_prewarm_def split: prod.splits)
  ultimately show ?thesis by auto
next
  case None
  show ?thesis
  proof (cases "download_to down b u")
    case (Inl e)
    then show ?thesis using None assms(2) by (auto simp: tier_prewarm_def)
  next
    case (Inr x)
    let ?p = "local_path_for cfg u"
    let ?t1 = "t\<lparr>t_files := dset ?p x (t_files t)\<rparr>"
    show ?thesis
    proof (cases "check_admission_capacity cfg ?t1 u (bsize x) now")
      case False
      then show ?thesis using None Inr assms(2) by (auto simp: tier_prewarm_def Let_def)
    next
      case check: True
      let ?used = "t_used t - (case dget (t_res t) u of None \<Rightarrow> 0 | Some r \<Rightarrow> res_bytes r) + bsize x"
      obtain out res m where po: "pop_over res_bytes (shard_tier_bytes cfg)
          (put_newest u (?p, bsize x, now, now) (t_res t)) ?used = (out, res, m)"
        by (cases "pop_over res_bytes (shard_tier_bytes cfg) (put_newest u (?p, bsize x, now, now) (t_res t)) ?used") auto
      have t': "t_res t' = res" "r = Inr ?p"
        using check None Inr assms(2) po by (auto simp: tier_prewarm_def Let_def admit_locked_def)
      have old: "\<forall>(c, p, n, a, q) \<in> set out. (c, p, n, a, q) \<in> set (t_res t) \<and> tc_min_resident cfg \<le> now - a"
      proof (cases "?used \<le> shard_tier_bytes cfg")
        case True
        then show ?thesis using po by (simp add: pop_over_fits)
      next
        case False
        then have "floor_walk now (tc_min_resident cfg) u (?used - shard_tier_bytes cfg) 0 (t_res t)"
          using check by (simp add: check_admission_capacity_def Let_def)
        from floor_walk_pops[OF this po[unfolded put_newest_def]] show ?thesis by simp
      qed
      have "tc_min_resident cfg \<le> now - a"
        if v: "v \<noteq> u" "dget (t_res t) v = Some (p, n, a, q)" "dget (t_res t') v = None" for v p n a q
      proof -
        have parts: "put_newest u (?p, bsize x, now, now) (t_res t) = out @ res" using pop_over_parts[OF po] by simp
        have "dget (out @ res) v = Some (p, n, a, q)" using v(1,2) by (simp flip: parts)
        then have "(v, p, n, a, q) \<in> set out" using v(3) t'(1) by (auto simp: map_add_def dest: map_of_SomeD split: option.splits)
        then show ?thesis using old by auto
      qed
      then show ?thesis using t'(2) by auto
    qed
  qed
qed

definition aged_tier :: "int tier" where
  "aged_tier = \<lparr>t_res = [(''s3://b/x'', ''/t/b_x'', 6, 0, 0)], t_used = 6, t_files = [(''/t/b_x'', IndexB 6)]\<rparr>"

text \<open>At time 40 the entry admitted at 0 may go for y; at time 20 the prewarm is refused.\<close>

end
