(* ===== verification/Single_Flight.thy ===== *)
theory Single_Flight
  imports Store
begin

text \<open>
  The download protocol of \<open>ensure_cached\<close> (\<open>adapters/cache/shard_fetch.py\<close>, coalesced path) between
  concurrent threads: one atomic action per locked section, file check, download, registry update
  and event. The cache directory only gains files; an event is a number that is set once.
\<close>

section \<open>Threads and actions\<close>

text \<open>
  \<open>Checked\<close>: the first file check failed. \<open>Initiator\<close>: registered, downloading. \<open>Finishing\<close>: the download
  is over (published, or failed and cleaned up), in the \<open>finally\<close> block. \<open>Popped\<close>: registry entry
  removed, event not yet set. \<open>Waiter\<close>: blocked on the event.
\<close>

datatype tstate =
    Idle
  | Checked uri
  | Initiator uri nat
  | Finishing uri nat bool
  | Popped uri nat bool
  | Waiter uri nat
  | Returned uri
  | Raised uri

record flight =
  sf_disk :: "uri list"
  sf_inflight :: "(uri, nat) pdict"
  sf_events :: "nat list"
  sf_next :: nat
  sf_threads :: "tstate list"

datatype act = Call nat uri | Register nat | Download nat bool | Unregister nat | Signal nat | Wake nat | Timeout nat

definition thread :: "flight \<Rightarrow> nat \<Rightarrow> tstate option" where
  "thread s i = (if i < length (sf_threads s) then Some (sf_threads s ! i) else None)"

definition become :: "nat \<Rightarrow> tstate \<Rightarrow> flight \<Rightarrow> flight" where
  "become i st s = s\<lparr>sf_threads := (sf_threads s)[i := st]\<rparr>"

text \<open>An action of a thread that is in the state for it; None otherwise.\<close>

fun sf_do :: "act \<Rightarrow> flight \<Rightarrow> flight option" where
  "sf_do (Call i u) s =
     (if thread s i = Some Idle
      then Some (become i (if u \<in> set (sf_disk s) then Returned u else Checked u) s) else None)"
| "sf_do (Register i) s =
     (case thread s i of
        Some (Checked u) \<Rightarrow> Some
          (if u \<in> set (sf_disk s) then become i (Returned u) s
           else case dget (sf_inflight s) u of
               Some e \<Rightarrow> become i (Waiter u e) s
             | None \<Rightarrow> become i (Initiator u (sf_next s))
                 (s\<lparr>sf_inflight := dset u (sf_next s) (sf_inflight s), sf_next := Suc (sf_next s)\<rparr>))
      | _ \<Rightarrow> None)"
| "sf_do (Download i ok) s =
     (case thread s i of
        Some (Initiator u e) \<Rightarrow>
          Some (become i (Finishing u e ok) (if ok then s\<lparr>sf_disk := u # sf_disk s\<rparr> else s))
      | _ \<Rightarrow> None)"
| "sf_do (Unregister i) s =
     (case thread s i of
        Some (Finishing u e ok) \<Rightarrow> Some (become i (Popped u e ok) (s\<lparr>sf_inflight := ddel u (sf_inflight s)\<rparr>))
      | _ \<Rightarrow> None)"
| "sf_do (Signal i) s =
     (case thread s i of
        Some (Popped u e ok) \<Rightarrow>
          Some (become i (if ok then Returned u else Raised u) (s\<lparr>sf_events := e # sf_events s\<rparr>))
      | _ \<Rightarrow> None)"
| "sf_do (Wake i) s =
     (case thread s i of
        Some (Waiter u e) \<Rightarrow>
          if e \<in> set (sf_events s) then Some (become i (if u \<in> set (sf_disk s) then Returned u else Raised u) s) else None
      | _ \<Rightarrow> None)"
| "sf_do (Timeout i) s =
     (case thread s i of Some (Waiter u e) \<Rightarrow> Some (become i (Raised u) s) | _ \<Rightarrow> None)"

text \<open>Runs from idle threads and any files on disk.\<close>

inductive sf_reach :: "flight \<Rightarrow> bool" where
  sf_init: "\<forall>st \<in> set ts. st = Idle \<Longrightarrow>
    sf_reach \<lparr>sf_disk = files, sf_inflight = [], sf_events = [], sf_next = 0, sf_threads = ts\<rparr>"
| sf_act: "sf_reach s \<Longrightarrow> sf_do a s = Some s' \<Longrightarrow> sf_reach s'"

section \<open>The invariant\<close>

fun owned :: "tstate \<Rightarrow> nat option" where
  "owned (Initiator u e) = Some e"
| "owned (Finishing u e ok) = Some e"
| "owned (Popped u e ok) = Some e"
| "owned _ = None"

fun holding :: "tstate \<Rightarrow> (uri \<times> nat) option" where
  "holding (Initiator u e) = Some (u, e)"
| "holding (Finishing u e ok) = Some (u, e)"
| "holding _ = None"

fun published :: "tstate \<Rightarrow> uri option" where
  "published (Finishing u e True) = Some u"
| "published (Popped u e True) = Some u"
| "published (Returned u) = Some u"
| "published _ = None"

lemma holding_owned: "holding st = Some (u, e) \<Longrightarrow> owned st = Some e"
  by (cases st) simp_all

lemma not_owned: "owned st = None \<Longrightarrow> holding st = None"
  by (cases st) simp_all

lemma thread_become [simp]:
  "thread (become i st s) j = (if j = i \<and> thread s i \<noteq> None then Some st else thread s j)"
  by (auto simp: thread_def become_def)

lemma thread_frame [simp]:
  "thread (s\<lparr>sf_inflight := x\<rparr>) i = thread s i" "thread (s\<lparr>sf_next := n\<rparr>) i = thread s i"
  "thread (s\<lparr>sf_events := y\<rparr>) i = thread s i" "thread (s\<lparr>sf_disk := d\<rparr>) i = thread s i"
  by (simp_all add: thread_def)

lemma become_frame [simp]:
  "sf_disk (become i st s) = sf_disk s" "sf_inflight (become i st s) = sf_inflight s"
  "sf_events (become i st s) = sf_events s" "sf_next (become i st s) = sf_next s"
  by (simp_all add: become_def)

fun awaiting :: "tstate \<Rightarrow> nat option" where
  "awaiting (Waiter u e) = Some e"
| "awaiting _ = None"

text \<open>A thread's part in the protocol: what it owns, holds in the registry, awaits, vouches for.\<close>

definition part_of :: "(tstate \<Rightarrow> 'a option) \<Rightarrow> flight \<Rightarrow> nat \<Rightarrow> 'a option" where
  "part_of f s i = (case thread s i of None \<Rightarrow> None | Some st \<Rightarrow> f st)"

lemma part_become [simp]: "thread s i = Some st0 \<Longrightarrow> part_of f (become i st s) = (part_of f s)(i := f st)"
  by (rule ext) (simp add: part_of_def)

lemma part_frame [simp]:
  "part_of f (s\<lparr>sf_inflight := x\<rparr>) = part_of f s" "part_of f (s\<lparr>sf_next := n\<rparr>) = part_of f s"
  "part_of f (s\<lparr>sf_events := y\<rparr>) = part_of f s" "part_of f (s\<lparr>sf_disk := d\<rparr>) = part_of f s"
  by (simp_all add: part_of_def fun_eq_iff)

lemma part_thread [simp]: "thread s i = Some st \<Longrightarrow> part_of f s i = f st"
  by (simp add: part_of_def)

text \<open>Events in use are fresh and owned by one thread; the registry lists exactly the threads that hold.\<close>

definition owners_ok :: "flight \<Rightarrow> bool" where
  "owners_ok s \<longleftrightarrow> (\<forall>i e. part_of owned s i = Some e \<longrightarrow> e < sf_next s \<and> e \<notin> set (sf_events s)) \<and>
     (\<forall>i j e. part_of owned s i = Some e \<longrightarrow> part_of owned s j = Some e \<longrightarrow> i = j) \<and>
     (\<forall>e \<in> set (sf_events s). e < sf_next s)"

definition registry_ok :: "flight \<Rightarrow> bool" where
  "registry_ok s \<longleftrightarrow> (\<forall>u e. dget (sf_inflight s) u = Some e \<longleftrightarrow> (\<exists>i. part_of holding s i = Some (u, e)))"

definition waiters_ok :: "flight \<Rightarrow> bool" where
  "waiters_ok s \<longleftrightarrow> (\<forall>i e. part_of awaiting s i = Some e \<longrightarrow> e \<in> set (sf_events s) \<or> (\<exists>j. part_of owned s j = Some e))"

definition disk_ok :: "flight \<Rightarrow> bool" where
  "disk_ok s \<longleftrightarrow> (\<forall>i u. part_of published s i = Some u \<longrightarrow> u \<in> set (sf_disk s))"

lemmas inv_defs = owners_ok_def registry_ok_def waiters_ok_def disk_ok_def

text \<open>Actions that take and give up no event.\<close>

lemma inv_plain:
  assumes "owners_ok s" and "registry_ok s" and "waiters_ok s" and "disk_ok s"
    and t: "thread s i = Some st0" and o: "owned st0 = None" "owned st = None"
    and "\<And>u. published st = Some u \<Longrightarrow> u \<in> set (sf_disk s)"
    and "\<And>e. awaiting st = Some e \<Longrightarrow> \<exists>j. part_of owned s j = Some e"
  shows "owners_ok (become i st s) \<and> registry_ok (become i st s) \<and> waiters_ok (become i st s) \<and> disk_ok (become i st s)"
proof -
  have h: "holding st0 = None" "holding st = None" using o by (simp_all add: not_owned)
  have own: "part_of owned (become i st s) = part_of owned s" using t o by (auto simp: fun_eq_iff)
  have hold: "part_of holding (become i st s) = part_of holding s" using t h by (auto simp: fun_eq_iff)
  have "owners_ok (become i st s)" "registry_ok (become i st s)"
    using assms(1,2) by (simp_all add: owners_ok_def registry_ok_def own hold del: part_become)
  moreover have "waiters_ok (become i st s)"
    using assms(3,9) unfolding waiters_ok_def own by (auto simp: t)
  moreover have "disk_ok (become i st s)" using assms(4,8) by (auto simp: disk_ok_def t)
  ultimately show ?thesis by blast
qed

definition flight_ok :: "flight \<Rightarrow> bool" where
  "flight_ok s \<longleftrightarrow> owners_ok s \<and> registry_ok s \<and> waiters_ok s \<and> disk_ok s"

lemma inv_initiate:
  assumes "flight_ok s" and t: "thread s i = Some (Checked u)" and n: "dget (sf_inflight s) u = None"
  shows "flight_ok (become i (Initiator u (sf_next s)) (s\<lparr>sf_inflight := dset u (sf_next s) (sf_inflight s), sf_next := Suc (sf_next s)\<rparr>))"
proof -
  let ?s = "s\<lparr>sf_inflight := dset u (sf_next s) (sf_inflight s), sf_next := Suc (sf_next s)\<rparr>"
  have t': "thread ?s i = Some (Checked u)" using t by simp
  note ok = assms(1)[unfolded flight_ok_def]
  have none: "part_of holding s i = None" "part_of owned s i = None" using t by simp_all
  have "owners_ok (become i (Initiator u (sf_next s)) ?s)"
    using ok none unfolding owners_ok_def part_become[OF t'] by (auto dest: less_SucI split: if_splits)
  moreover have "registry_ok (become i (Initiator u (sf_next s)) ?s)"
  proof -
    have "\<not> part_of holding s j = Some (u, e)" for j e using ok n unfolding registry_ok_def by force
    then show ?thesis using ok none unfolding registry_ok_def part_become[OF t']
      by (auto simp: pdict_simps split: if_splits) (metis option.distinct(1))
  qed
  moreover have "waiters_ok (become i (Initiator u (sf_next s)) ?s)"
    using ok none unfolding waiters_ok_def part_become[OF t'] by (auto split: if_splits) (metis option.distinct(1))
  moreover have "disk_ok (become i (Initiator u (sf_next s)) ?s)"
    using ok unfolding disk_ok_def part_become[OF t'] by auto
  ultimately show ?thesis by (simp add: flight_ok_def)
qed

lemma inv_download:
  assumes "flight_ok s" and t: "thread s i = Some (Initiator u e)"
  shows "flight_ok (become i (Finishing u e ok) (if ok then s\<lparr>sf_disk := u # sf_disk s\<rparr> else s))"
proof -
  let ?s = "if ok then s\<lparr>sf_disk := u # sf_disk s\<rparr> else s"
  have t': "thread ?s i = Some (Initiator u e)" using t by simp
  note inv = assms(1)[unfolded flight_ok_def]
  have f: "part_of g ?s = part_of g s" "sf_inflight ?s = sf_inflight s" "sf_events ?s = sf_events s" "sf_next ?s = sf_next s" for g
    by simp_all
  have same: "part_of owned (become i (Finishing u e ok) ?s) = part_of owned s"
    "part_of holding (become i (Finishing u e ok) ?s) = part_of holding s"
    "part_of awaiting (become i (Finishing u e ok) ?s) = part_of awaiting s"
    using t unfolding part_become[OF t'] f by (auto simp: fun_eq_iff)
  have "disk_ok (become i (Finishing u e ok) ?s)"
    using inv unfolding disk_ok_def part_become[OF t'] f by (cases ok) auto
  then show ?thesis using inv by (simp add: flight_ok_def owners_ok_def registry_ok_def waiters_ok_def same del: part_become)
qed

lemma inv_unregister:
  assumes "flight_ok s" and t: "thread s i = Some (Finishing u e ok)"
  shows "flight_ok (become i (Popped u e ok) (s\<lparr>sf_inflight := ddel u (sf_inflight s)\<rparr>))"
proof -
  let ?s = "s\<lparr>sf_inflight := ddel u (sf_inflight s)\<rparr>"
  have t': "thread ?s i = Some (Finishing u e ok)" using t by simp
  note inv = assms(1)[unfolded flight_ok_def]
  have same: "part_of owned (become i (Popped u e ok) ?s) = part_of owned s"
    "part_of awaiting (become i (Popped u e ok) ?s) = part_of awaiting s"
    using t unfolding part_become[OF t'] by (auto simp: fun_eq_iff)
  have "registry_ok (become i (Popped u e ok) ?s)"
  proof -
    have h: "part_of holding s i = Some (u, e)" using t by simp
    have hu: "part_of holding s j = Some (u, e') \<longleftrightarrow> j = i \<and> e' = e" for j e'
    proof
      assume j: "part_of holding s j = Some (u, e')"
      then have "dget (sf_inflight s) u = Some e'" "dget (sf_inflight s) u = Some e"
        using inv h unfolding registry_ok_def by blast+
      then have e: "e' = e" by simp
      then have "part_of owned s j = Some e" "part_of owned s i = Some e"
        using j t holding_owned by (auto simp: part_of_def split: option.splits)
      then show "j = i \<and> e' = e" using inv e unfolding owners_ok_def by blast
    qed (use h in simp)
    have "dget (ddel u (sf_inflight s)) v = Some e' \<longleftrightarrow> (\<exists>j. j \<noteq> i \<and> part_of holding s j = Some (v, e'))" for v e'
    proof (cases "v = u")
      case True
      then show ?thesis using hu by (simp add: pdict_simps)
    next
      case False
      then have "dget (ddel u (sf_inflight s)) v = Some e' \<longleftrightarrow> (\<exists>j. part_of holding s j = Some (v, e'))"
        using inv by (simp add: pdict_simps registry_ok_def)
      moreover have "j \<noteq> i" if "part_of holding s j = Some (v, e')" for j using that h False by auto
      ultimately show ?thesis by blast
    qed
    then show ?thesis unfolding registry_ok_def part_become[OF t'] by auto
  qed
  moreover have "disk_ok (become i (Popped u e ok) ?s)"
    using inv t unfolding disk_ok_def part_become[OF t'] by (cases ok) (auto dest: spec[of _ i])
  ultimately show ?thesis using inv by (simp add: flight_ok_def owners_ok_def waiters_ok_def same del: part_become)
qed

lemma inv_signal:
  assumes "flight_ok s" and t: "thread s i = Some (Popped u e ok)"
  shows "flight_ok (become i (if ok then Returned u else Raised u) (s\<lparr>sf_events := e # sf_events s\<rparr>))"
proof -
  let ?st = "if ok then Returned u else Raised u" and ?s = "s\<lparr>sf_events := e # sf_events s\<rparr>"
  have t': "thread ?s i = Some (Popped u e ok)" using t by simp
  note inv = assms(1)[unfolded flight_ok_def]
  have st: "owned ?st = None" "holding ?st = None" "awaiting ?st = None" by simp_all
  have o: "part_of owned s i = Some e" using t by simp
  have uniq: "part_of owned s j = Some e \<longleftrightarrow> j = i" for j using inv o unfolding owners_ok_def by metis
  have e: "e < sf_next s" using inv o unfolding owners_ok_def by blast
  have "owners_ok (become i ?st ?s)"
    using inv uniq e unfolding owners_ok_def part_become[OF t'] part_frame by (auto simp: st split: if_splits)
  moreover have "registry_ok (become i ?st ?s)"
  proof -
    have "part_of holding (become i ?st ?s) = part_of holding s"
      using t unfolding part_become[OF t'] part_frame by (auto simp: fun_eq_iff)
    then show ?thesis using inv by (simp add: registry_ok_def del: part_become)
  qed
  moreover have "waiters_ok (become i ?st ?s)"
  proof -
    have "part_of awaiting (become i ?st ?s) = part_of awaiting s"
      using t unfolding part_become[OF t'] part_frame by (auto simp: fun_eq_iff)
    moreover have "e' = e \<or> part_of owned (become i ?st ?s) j = Some e'" if "part_of owned s j = Some e'" for j e'
      using that o unfolding part_become[OF t'] part_frame by auto
    moreover have "sf_events (become i ?st ?s) = e # sf_events s" by simp
    ultimately show ?thesis using inv unfolding waiters_ok_def by (metis list.set_intros)
  qed
  moreover have "disk_ok (become i ?st ?s)"
    using inv t unfolding disk_ok_def part_become[OF t'] part_frame by (cases ok) (auto dest: spec[of _ i])
  ultimately show ?thesis by (simp add: flight_ok_def)
qed

lemma inv_step:
  assumes "flight_ok s" and "thread s i = Some st0" and "owned st0 = None" and "owned st = None"
    and "\<And>u. published st = Some u \<Longrightarrow> u \<in> set (sf_disk s)"
    and "\<And>e. awaiting st = Some e \<Longrightarrow> \<exists>j. part_of owned s j = Some e"
  shows "flight_ok (become i st s)"
  using inv_plain[of s i st0 st] assms by (simp add: flight_ok_def)

lemma inv_do: "flight_ok s \<Longrightarrow> sf_do a s = Some s' \<Longrightarrow> flight_ok s'"
proof (induction a s rule: sf_do.induct)
  case (1 i u s)
  then show ?case by (auto split: if_splits intro!: inv_step[of s i Idle])
next
  case (2 i s)
  then obtain u where t: "thread s i = Some (Checked u)" by (auto split: option.splits tstate.splits)
  have "\<exists>j. part_of owned s j = Some e" if e: "dget (sf_inflight s) u = Some e" for e
  proof -
    obtain j where "part_of holding s j = Some (u, e)" using 2(1) e unfolding flight_ok_def registry_ok_def by blast
    then show ?thesis using holding_owned by (auto simp: part_of_def split: option.splits intro!: exI[of _ j])
  qed
  with 2 t inv_initiate[OF 2(1) t] show ?case
    by (auto split: if_splits option.splits intro!: inv_step[of s i "Checked u"])
next
  case (3 i ok s)
  then obtain u e where t: "thread s i = Some (Initiator u e)" by (auto split: option.splits tstate.splits)
  then show ?case using 3(2) inv_download[OF 3(1) t, of ok] by simp
next
  case (4 i s)
  then obtain u e ok where t: "thread s i = Some (Finishing u e ok)" by (auto split: option.splits tstate.splits)
  then show ?case using 4(2) inv_unregister[OF 4(1) t] by simp
next
  case (5 i s)
  then obtain u e ok where t: "thread s i = Some (Popped u e ok)" by (auto split: option.splits tstate.splits)
  then show ?case using 5(2) inv_signal[OF 5(1) t] by simp
next
  case (6 i s)
  then obtain u e where "thread s i = Some (Waiter u e)" by (auto split: option.splits tstate.splits)
  with 6 show ?case by (auto split: if_splits intro!: inv_step[of s i "Waiter u e"])
next
  case (7 i s)
  then obtain u e where "thread s i = Some (Waiter u e)" by (auto split: option.splits tstate.splits)
  with 7 show ?case by (auto intro!: inv_step[of s i "Waiter u e"])
qed

lemma part_idle:
  assumes "\<forall>st \<in> set (sf_threads s). st = Idle" and "f Idle = None"
  shows "part_of f s i = None"
proof (cases "i < length (sf_threads s)")
  case True
  then have "sf_threads s ! i = Idle" using assms(1) nth_mem by blast
  then show ?thesis using True assms(2) by (simp add: part_of_def thread_def)
qed (simp add: part_of_def thread_def)

lemma inv_reach: "sf_reach s \<Longrightarrow> flight_ok s"
proof (induction rule: sf_reach.induct)
  case (sf_init ts files)
  then show ?case by (simp add: flight_ok_def inv_defs part_idle)
qed (rule inv_do)

section \<open>Progress\<close>

text \<open>How far a thread is from its end; every action but a new call brings its thread closer.\<close>

fun rank :: "tstate \<Rightarrow> nat" where
  "rank (Checked u) = 4"
| "rank (Initiator u e) = 3"
| "rank (Finishing u e ok) = 2"
| "rank (Popped u e ok) = 1"
| "rank (Waiter u e) = 1"
| "rank _ = 0"

definition to_go :: "flight \<Rightarrow> nat" where
  "to_go s = sum_list (map rank (sf_threads s))"

lemma to_go_become:
  assumes "thread s i = Some st0" and "rank st < rank st0"
  shows "to_go (become i st s) < to_go s"
proof -
  have i: "i < length (sf_threads s)" "sf_threads s ! i = st0" using assms(1) by (auto simp: thread_def split: if_splits)
  have "sum_list (map rank (xs[i := st])) < sum_list (map rank xs)" if "i < length xs" "rank st < rank (xs ! i)" for xs
    using that
  proof (induction xs arbitrary: i)
    case (Cons x xs)
    then show ?case by (cases i) auto
  qed simp
  then show ?thesis using i assms(2) by (simp add: to_go_def become_def)
qed

lemma to_go_frame [simp]:
  "to_go (s\<lparr>sf_inflight := x\<rparr>) = to_go s" "to_go (s\<lparr>sf_next := n\<rparr>) = to_go s"
  "to_go (s\<lparr>sf_events := y\<rparr>) = to_go s" "to_go (s\<lparr>sf_disk := d\<rparr>) = to_go s"
  by (simp_all add: to_go_def)

definition new_call :: "act \<Rightarrow> bool" where
  "new_call a \<longleftrightarrow> (case a of Call _ _ \<Rightarrow> True | _ \<Rightarrow> False)"

definition timeout :: "act \<Rightarrow> bool" where
  "timeout a \<longleftrightarrow> (case a of Timeout _ \<Rightarrow> True | _ \<Rightarrow> False)"

lemma act_decreases: "sf_do a s = Some s' \<Longrightarrow> \<not> new_call a \<Longrightarrow> to_go s' < to_go s"
  by (induction a s rule: sf_do.induct)
     (auto simp: new_call_def split: if_splits option.splits tstate.splits intro!: less_le_trans[OF to_go_become])

text \<open>A thread is settled when it has not called, or its call has returned or raised.\<close>

definition settled :: "tstate \<Rightarrow> bool" where
  "settled st \<longleftrightarrow> rank st = 0"

lemma owner_moves:
  assumes "part_of owned s j = Some e"
  shows "\<exists>a s'. sf_do a s = Some s' \<and> \<not> new_call a \<and> \<not> timeout a"
proof -
  obtain st where st: "thread s j = Some st" "owned st = Some e" using assms by (auto simp: part_of_def split: option.splits)
  then show ?thesis
    by (cases st) (auto simp: new_call_def timeout_def intro: exI[of _ "Download j True"] exI[of _ "Unregister j"] exI[of _ "Signal j"])
qed

lemma flight_moves:
  assumes "flight_ok s" and t: "thread s i = Some st" and "\<not> settled st"
  shows "\<exists>a s'. sf_do a s = Some s' \<and> \<not> new_call a \<and> \<not> timeout a"
proof (cases st)
  case (Checked u)
  then show ?thesis using t by (auto simp: new_call_def timeout_def intro!: exI[of _ "Register i"])
next
  case (Waiter u e)
  then have "e \<in> set (sf_events s) \<or> (\<exists>j. part_of owned s j = Some e)"
    using assms(1) t unfolding flight_ok_def waiters_ok_def by (metis awaiting.simps(1) part_thread)
  then show ?thesis
  proof
    assume "e \<in> set (sf_events s)"
    then show ?thesis using t Waiter by (auto simp: new_call_def timeout_def intro!: exI[of _ "Wake i"])
  next
    assume "\<exists>j. part_of owned s j = Some e"
    then show ?thesis using owner_moves by blast
  qed
qed (use assms owner_moves[of s i] in \<open>auto simp: settled_def\<close>)

text \<open>Runs without new callers; \<open>ends_in n s s'\<close>: some sequence of such actions leads there.\<close>

inductive drains :: "flight \<Rightarrow> flight \<Rightarrow> bool" where
  drains_refl: "drains s s"
| drains_act: "sf_do a s = Some s' \<Longrightarrow> \<not> new_call a \<Longrightarrow> \<not> timeout a \<Longrightarrow> drains s' s'' \<Longrightarrow> drains s s''"

lemma flight_drains:
  "flight_ok s \<Longrightarrow> \<exists>s'. drains s s' \<and> (\<forall>st \<in> set (sf_threads s'). settled st)"
proof (induction "to_go s" arbitrary: s rule: less_induct)
  case less
  show ?case
  proof (cases "\<forall>st \<in> set (sf_threads s). settled st")
    case False
    then obtain st where st: "st \<in> set (sf_threads s)" "\<not> settled st" by blast
    then obtain i where "i < length (sf_threads s)" "sf_threads s ! i = st" by (auto simp: in_set_conv_nth)
    then have "thread s i = Some st" by (simp add: thread_def)
    then obtain a s1 where a: "sf_do a s = Some s1" "\<not> new_call a" "\<not> timeout a" using flight_moves[OF less(2)] st(2) \<open>thread s i = Some st\<close> by blast
    then obtain s' where "drains s1 s'" "\<forall>st \<in> set (sf_threads s'). settled st"
      using less(1)[OF act_decreases[OF a(1,2)] inv_do[OF less(2) a(1)]] by blast
    then show ?thesis using drains_act[OF a] by blast
  qed (use drains_refl in blast)
qed

text \<open>
  C28. Single flight. In every state the concurrent callers can reach, at most one thread is
  downloading a given shard, and a thread whose call has returned finds the file on disk. No caller
  is stuck: while some call is not over, an action other than a timeout or a new call is possible,
  every action but a new call decreases the measure, and without new callers the threads can all
  finish, no wait having to time out.
\<close>

theorem downloads_are_single_flight:
  assumes "sf_reach s"
  shows "(\<forall>i j u e e'. thread s i = Some (Initiator u e) \<longrightarrow> thread s j = Some (Initiator u e') \<longrightarrow> i = j) \<and>
    (\<forall>i u. thread s i = Some (Returned u) \<longrightarrow> u \<in> set (sf_disk s)) \<and>
    (\<forall>i st. thread s i = Some st \<longrightarrow> \<not> settled st \<longrightarrow>
       (\<exists>a s'. sf_do a s = Some s' \<and> \<not> new_call a \<and> \<not> timeout a)) \<and>
    (\<forall>a s'. sf_do a s = Some s' \<longrightarrow> \<not> new_call a \<longrightarrow> to_go s' < to_go s) \<and>
    (\<exists>s'. drains s s' \<and> (\<forall>st \<in> set (sf_threads s'). settled st))"
proof -
  have ok: "flight_ok s" by (rule inv_reach[OF assms])
  have "i = j" if "thread s i = Some (Initiator u e)" "thread s j = Some (Initiator u e')" for i j u e e'
  proof -
    have "part_of holding s i = Some (u, e)" "part_of holding s j = Some (u, e')" using that by simp_all
    then have "dget (sf_inflight s) u = Some e" "dget (sf_inflight s) u = Some e'"
      using ok unfolding flight_ok_def registry_ok_def by blast+
    then have "part_of owned s i = Some e" "part_of owned s j = Some e" using that by simp_all
    then show ?thesis using ok unfolding flight_ok_def owners_ok_def by blast
  qed
  moreover have "u \<in> set (sf_disk s)" if "thread s i = Some (Returned u)" for i u
    using ok that unfolding flight_ok_def disk_ok_def by (metis part_thread published.simps(3))
  ultimately show ?thesis using flight_moves[OF ok] act_decreases flight_drains[OF ok] by blast
qed

text \<open>Two callers of one cold shard: the second waits, the first downloads, and both can finish.\<close>

definition two_callers :: flight where
  "two_callers = \<lparr>sf_disk = [], sf_inflight = [], sf_events = [], sf_next = 0, sf_threads = [Idle, Idle]\<rparr>"

theorem downloads_are_single_flight_witness:
  "\<exists>s1 s2 s3 s4. sf_do (Call 0 ''s3://b/x'') two_callers = Some s1 \<and> sf_do (Call 1 ''s3://b/x'') s1 = Some s2 \<and>
     sf_do (Register 0) s2 = Some s3 \<and> sf_do (Register 1) s3 = Some s4 \<and>
     thread s4 1 = Some (Waiter ''s3://b/x'' 0) \<and> (\<exists>s'. drains s4 s' \<and> list_all settled (sf_threads s'))"
proof -
  have r: "sf_reach two_callers" unfolding two_callers_def by (rule sf_init) simp
  obtain s1 s2 s3 s4 where s: "sf_do (Call 0 ''s3://b/x'') two_callers = Some s1" "sf_do (Call 1 ''s3://b/x'') s1 = Some s2"
    "sf_do (Register 0) s2 = Some s3" "sf_do (Register 1) s3 = Some s4" "thread s4 1 = Some (Waiter ''s3://b/x'' 0)"
    by (simp add: two_callers_def thread_def become_def)
  have "sf_reach s4" by (rule sf_act[OF sf_act[OF sf_act[OF sf_act[OF r s(1)] s(2)] s(3)] s(4)])
  then have "\<exists>s'. drains s4 s' \<and> list_all settled (sf_threads s')"
    unfolding list_all_iff
    by (rule downloads_are_single_flight[THEN conjunct2, THEN conjunct2, THEN conjunct2, THEN conjunct2])
  then obtain s' where "drains s4 s'" "list_all settled (sf_threads s')" by (elim exE conjE)
  with s show ?thesis by (intro exI conjI)
qed

end
