(* ===== verification/Ram_Cache.thy ===== *)
theory Ram_Cache
  imports Shard_Tier
begin

text \<open>
  The in-process cache of loaded shards of the query service (\<open>v1_query._SHARD_CACHE\<close>): byte budget,
  optional entry cap, oversize bypass. Entries are keyed by the shard's row id.
\<close>

section \<open>State and sizes\<close>

type_synonym 'i loaded = "'i \<times> sidecar \<times> int"

record 'i ram_cache =
  rc_entries :: "(int, 'i loaded) pdict"
  rc_bytes :: int
  rc_warned :: "int list"

text \<open>
  The two settings as parsed, and what the sizes are computed from: the serialized size of an index,
  None when FAISS cannot serialize it, and the length of the sidecar's JSON text.
\<close>

record 'i ram_cfg =
  rc_env_bytes :: int
  rc_env_size :: int
  rc_mmap :: bool
  rc_serialized :: "'i \<Rightarrow> int option"
  rc_json_len :: "sidecar \<Rightarrow> int"

definition shard_cache_bytes :: "'i ram_cfg \<Rightarrow> int" where
  "shard_cache_bytes cfg = max 1 (rc_env_bytes cfg)"

definition shard_cache_size :: "'i ram_cfg \<Rightarrow> int" where
  "shard_cache_size cfg = max 0 (rc_env_size cfg)"

definition index_nbytes :: "'i ram_cfg \<Rightarrow> 'i faiss \<Rightarrow> 'i \<Rightarrow> int" where
  "index_nbytes cfg fx ix =
     (if rc_mmap cfg then 32 * 1024 * 1024
      else case rc_serialized cfg ix of Some n \<Rightarrow> n | None \<Rightarrow> fx_ntotal fx ix * fx_d fx ix * 4)"

definition entry_nbytes :: "'i ram_cfg \<Rightarrow> 'i faiss \<Rightarrow> 'i \<Rightarrow> sidecar \<Rightarrow> int" where
  "entry_nbytes cfg fx ix sc = index_nbytes cfg fx ix + rc_json_len cfg sc"

definition loaded_bytes :: "'i loaded \<Rightarrow> int" where
  "loaded_bytes e = snd (snd e)"

section \<open>Operations\<close>

definition cache_get :: "'i ram_cache \<Rightarrow> int \<Rightarrow> ('i \<times> sidecar) option \<times> 'i ram_cache" where
  "cache_get c i =
     (case dget (rc_entries c) i of
        None \<Rightarrow> (None, c)
      | Some (ix, sc, n) \<Rightarrow> (Some (ix, sc), c\<lparr>rc_entries := move_to_end i (rc_entries c)\<rparr>))"

text \<open>\<open>_SHARD_CACHE.pop(shard_id, None)\<close> with the byte counter.\<close>

definition cache_drop :: "'i ram_cache \<Rightarrow> int \<Rightarrow> 'i ram_cache" where
  "cache_drop c i = c\<lparr>rc_entries := ddel i (rc_entries c),
     rc_bytes := rc_bytes c - (case dget (rc_entries c) i of None \<Rightarrow> 0 | Some e \<Rightarrow> loaded_bytes e)\<rparr>"

definition cache_insert :: "'i ram_cfg \<Rightarrow> 'i ram_cache \<Rightarrow> int \<Rightarrow> 'i loaded \<Rightarrow> 'i ram_cache" where
  "cache_insert cfg c i e =
     (let used = rc_bytes c - (case dget (rc_entries c) i of None \<Rightarrow> 0 | Some e \<Rightarrow> loaded_bytes e) + loaded_bytes e;
          (out, es, used1) = pop_over loaded_bytes (shard_cache_bytes cfg) (put_newest i e (rc_entries c)) used;
          (es2, used2) = (if shard_cache_size cfg > 0 then pop_extra loaded_bytes (shard_cache_size cfg) es used1 else (es, used1))
      in c\<lparr>rc_entries := es2, rc_bytes := used2\<rparr>)"

definition cache_put :: "'i ram_cfg \<Rightarrow> 'i faiss \<Rightarrow> 'i ram_cache \<Rightarrow> int \<Rightarrow> 'i \<Rightarrow> sidecar \<Rightarrow> 'i ram_cache" where
  "cache_put cfg fx c i ix sc =
     (let n = entry_nbytes cfg fx ix sc in
      if n > shard_cache_bytes cfg
      then (let c1 = cache_drop c i
            in if i \<in> set (rc_warned c1) then c1 else c1\<lparr>rc_warned := i # rc_warned c1\<rparr>)
      else cache_insert cfg c i (ix, sc, n))"

definition evict_shard :: "'i ram_cache \<Rightarrow> int \<Rightarrow> bool \<times> 'i ram_cache" where
  "evict_shard c i =
     (dget (rc_entries c) i \<noteq> None, (cache_drop c i)\<lparr>rc_warned := filter (\<lambda>j. j \<noteq> i) (rc_warned c)\<rparr>)"

definition cache_clear :: "'i ram_cache \<Rightarrow> 'i ram_cache" where
  "cache_clear c = \<lparr>rc_entries = [], rc_bytes = 0, rc_warned = []\<rparr>"

section \<open>The cache is a byte-budgeted cache\<close>

lemma cache_insert_parts:
  defines "used \<equiv> \<lambda>c i e. rc_bytes c - (case dget (rc_entries c) i of None \<Rightarrow> 0 | Some e \<Rightarrow> loaded_bytes e) + loaded_bytes e"
  shows "\<exists>out. put_newest i e (rc_entries c) = out @ rc_entries (cache_insert cfg c i e) \<and>
    rc_bytes (cache_insert cfg c i e) = used c i e - total loaded_bytes out"
proof -
  obtain out es u where p: "pop_over loaded_bytes (shard_cache_bytes cfg) (put_newest i e (rc_entries c)) (used c i e) = (out, es, u)"
    by (cases "pop_over loaded_bytes (shard_cache_bytes cfg) (put_newest i e (rc_entries c)) (used c i e)") auto
  note parts = pop_over_parts[OF p]
  show ?thesis
  proof (cases "shard_cache_size cfg > 0")
    case True
    obtain es2 u2 where x: "pop_extra loaded_bytes (shard_cache_size cfg) es u = (es2, u2)" by fastforce
    then obtain out2 where "es = out2 @ es2" "u2 = u - total loaded_bytes out2" using pop_extra_parts[OF x] by blast
    then show ?thesis using parts p x True
      by (intro exI[of _ "out @ out2"]) (simp add: cache_insert_def used_def)
  next
    case False
    then show ?thesis using parts p by (intro exI[of _ out]) (simp add: cache_insert_def used_def)
  qed
qed

lemma cache_insert_capped:
  assumes "0 < shard_cache_size cfg"
  shows "int (length (rc_entries (cache_insert cfg c i e))) \<le> shard_cache_size cfg"
proof -
  let ?used = "rc_bytes c - (case dget (rc_entries c) i of None \<Rightarrow> 0 | Some e \<Rightarrow> loaded_bytes e) + loaded_bytes e"
  obtain out es u where p: "pop_over loaded_bytes (shard_cache_bytes cfg) (put_newest i e (rc_entries c)) ?used = (out, es, u)"
    by (cases "pop_over loaded_bytes (shard_cache_bytes cfg) (put_newest i e (rc_entries c)) ?used") auto
  obtain es2 u2 where x: "pop_extra loaded_bytes (shard_cache_size cfg) es u = (es2, u2)" by fastforce
  then show ?thesis using pop_extra_length[OF x] assms p by (simp add: cache_insert_def)
qed

text \<open>The cap only pops entries of non-negative size, so the budget is reached before and kept after.\<close>

lemma cache_insert_stops:
  assumes "\<forall>(j, e') \<in> set (put_newest i e (rc_entries c)). 0 \<le> loaded_bytes e'"
    and "rc_bytes c - (case dget (rc_entries c) i of None \<Rightarrow> 0 | Some e \<Rightarrow> loaded_bytes e) + loaded_bytes e -
      total loaded_bytes (put_newest i e (rc_entries c)) \<le> shard_cache_bytes cfg"
  shows "rc_bytes (cache_insert cfg c i e) \<le> shard_cache_bytes cfg"
proof -
  let ?used = "rc_bytes c - (case dget (rc_entries c) i of None \<Rightarrow> 0 | Some e \<Rightarrow> loaded_bytes e) + loaded_bytes e"
  obtain out es u where p: "pop_over loaded_bytes (shard_cache_bytes cfg) (put_newest i e (rc_entries c)) ?used = (out, es, u)"
    by (cases "pop_over loaded_bytes (shard_cache_bytes cfg) (put_newest i e (rc_entries c)) ?used") auto
  have u: "u \<le> shard_cache_bytes cfg" by (rule pop_over_stops[OF p assms(2)])
  obtain es2 u2 where x: "pop_extra loaded_bytes (shard_cache_size cfg) es u = (es2, u2)" by fastforce
  then obtain out2 where o: "es = out2 @ es2" "u2 = u - total loaded_bytes out2" using pop_extra_parts[OF x] by blast
  have "set out2 \<subseteq> set (put_newest i e (rc_entries c))" using pop_over_parts[OF p] o(1) by auto
  then have "0 \<le> total loaded_bytes out2" using assms(1) by (intro total_nonneg) blast
  then show ?thesis using u o(2) p x by (auto simp: cache_insert_def)
qed

interpretation ram: byte_lru loaded_bytes "shard_cache_bytes cfg" rc_entries rc_bytes "cache_insert cfg" cache_drop
  for cfg :: "'i ram_cfg"
proof
  fix i :: int and e :: "'i loaded" and c :: "'i ram_cache"
  show "\<exists>out. put_newest i e (rc_entries c) = out @ rc_entries (cache_insert cfg c i e) \<and>
      rc_bytes (cache_insert cfg c i e) = rc_bytes c - (case dget (rc_entries c) i of None \<Rightarrow> 0 | Some e \<Rightarrow> loaded_bytes e) +
        loaded_bytes e - total loaded_bytes out"
    by (rule cache_insert_parts)
  show "rc_bytes (cache_insert cfg c i e) \<le> shard_cache_bytes cfg"
    if "\<forall>(j, e') \<in> set (put_newest i e (rc_entries c)). 0 \<le> loaded_bytes e'"
      and "rc_bytes c - (case dget (rc_entries c) i of None \<Rightarrow> 0 | Some e \<Rightarrow> loaded_bytes e) + loaded_bytes e -
        total loaded_bytes (put_newest i e (rc_entries c)) \<le> shard_cache_bytes cfg"
    by (rule cache_insert_stops[OF that])
qed (simp_all add: cache_drop_def shard_cache_bytes_def)

text \<open>What was just stored is the newest entry, so neither loop reaches it when it fits.\<close>

lemma cache_insert_newest:
  assumes "ram.sound cfg c" and "loaded_bytes e \<le> shard_cache_bytes cfg"
  shows "dget (rc_entries (cache_insert cfg c i e)) i = Some e"
proof -
  let ?used = "rc_bytes c - (case dget (rc_entries c) i of None \<Rightarrow> 0 | Some e \<Rightarrow> loaded_bytes e) + loaded_bytes e"
  have d: "dkeys_ok (rc_entries c)" "rc_bytes c = total loaded_bytes (rc_entries c)" using assms(1) by (simp_all add: ram.sound_def)
  obtain out es u where p: "pop_over loaded_bytes (shard_cache_bytes cfg) (put_newest i e (rc_entries c)) ?used = (out, es, u)"
    by (cases "pop_over loaded_bytes (shard_cache_bytes cfg) (put_newest i e (rc_entries c)) ?used") auto
  have split: "ddel i (rc_entries c) @ [(i, e)] = out @ es" using pop_over_parts[OF p] by (simp add: put_newest_def)
  have "es \<noteq> []"
  proof
    assume "es = []"
    then have "out = ddel i (rc_entries c) @ (i, e) # []" using split by simp
    from pop_over_needed[OF p this] d assms(2) show False by (simp add: total_ddel)
  qed
  obtain es2 u2 where x: "pop_extra loaded_bytes (shard_cache_size cfg) es u = (es2, u2)" by fastforce
  define kept where "kept = (if shard_cache_size cfg > 0 then es2 else es)"
  have kept: "rc_entries (cache_insert cfg c i e) = kept" using p x by (simp add: cache_insert_def kept_def)
  have "\<exists>out2. es = out2 @ kept" using pop_extra_parts[OF x] by (cases "shard_cache_size cfg > 0") (auto simp: kept_def)
  then obtain out2 where o2: "es = out2 @ kept" by blast
  have "kept \<noteq> []"
    using pop_extra_nonempty[OF x] \<open>es \<noteq> []\<close> by (auto simp: kept_def)
  then have "last kept = (i, e)" using split o2 by (metis append_is_Nil_conv last_append last_snoc)
  then have "(i, e) \<in> set kept" using \<open>kept \<noteq> []\<close> last_in_set by fastforce
  moreover have "dkeys_ok kept"
    using dkeys_put_newest[OF d(1), of i e] dkeys_append[of "out @ out2" kept] split o2 by (simp add: put_newest_def)
  ultimately show ?thesis using dget_in kept by metis
qed

section \<open>Use of the cache\<close>

inductive ram_run :: "'i ram_cfg \<Rightarrow> 'i faiss \<Rightarrow> 'i ram_cache \<Rightarrow> bool" for cfg fx where
  ram_start: "ram_run cfg fx (cache_clear c)"
| ram_run_get: "ram_run cfg fx c \<Longrightarrow> ram_run cfg fx (snd (cache_get c i))"
| ram_run_put: "ram_run cfg fx c \<Longrightarrow> ram_run cfg fx (cache_put cfg fx c i ix sc)"
| ram_run_evict: "ram_run cfg fx c \<Longrightarrow> ram_run cfg fx (snd (evict_shard c i))"

definition capped :: "'i ram_cfg \<Rightarrow> 'i ram_cache \<Rightarrow> bool" where
  "capped cfg c \<longleftrightarrow> 0 < shard_cache_size cfg \<longrightarrow> int (length (rc_entries c)) \<le> shard_cache_size cfg"

lemma length_move_to_end: "dkeys_ok d \<Longrightarrow> length (move_to_end k d) = length d"
proof -
  assume "dkeys_ok d"
  then have "dkeys_ok (move_to_end k d)" "dom (map_of (move_to_end k d)) = dom (map_of d)" "dkeys_ok d"
    by (auto simp: dom_def)
  then have "card (set (map fst (move_to_end k d))) = card (set (map fst d))"
    by (simp add: dom_map_of_conv_image_fst)
  then show ?thesis using \<open>dkeys_ok d\<close> \<open>dkeys_ok (move_to_end k d)\<close> unfolding dkeys_ok_def
    by (metis distinct_card length_map)
qed

lemma ram_drop_ok: "ram.sound cfg c \<Longrightarrow> capped cfg c \<Longrightarrow> ram.sound cfg (cache_drop c i) \<and> capped cfg (cache_drop c i)"
  using ram.sound_drop[of cfg c i] length_ddel_le[of i "rc_entries c"] by (auto simp: capped_def cache_drop_def)

lemma ram_warned [simp]: "ram.sound cfg (c\<lparr>rc_warned := w\<rparr>) = ram.sound cfg c" "capped cfg (c\<lparr>rc_warned := w\<rparr>) = capped cfg c"
  by (simp_all add: ram.sound_def capped_def)

lemma ram_get_ok:
  assumes "ram.sound cfg c" and "capped cfg c"
  shows "ram.sound cfg (snd (cache_get c i)) \<and> capped cfg (snd (cache_get c i))"
proof -
  have d: "dkeys_ok (rc_entries c)" using assms(1) by (simp add: ram.sound_def)
  have "set (move_to_end i (rc_entries c)) \<subseteq> set (rc_entries c)"
    using set_ddel[of i "rc_entries c"] map_of_SomeD[of "rc_entries c" i]
    by (auto simp: move_to_end_def split: option.splits)
  then show ?thesis using assms d length_move_to_end[OF d]
    by (auto simp: cache_get_def ram.sound_def capped_def split: option.split)
qed

lemma ram_put_ok:
  assumes "ram.sound cfg c" and "capped cfg c" and "\<And>ix sc. 0 \<le> entry_nbytes cfg fx ix sc"
  shows "ram.sound cfg (cache_put cfg fx c i ix sc) \<and> capped cfg (cache_put cfg fx c i ix sc)"
proof (cases "entry_nbytes cfg fx ix sc > shard_cache_bytes cfg")
  case True
  then show ?thesis using ram_drop_ok[OF assms(1,2)] by (simp add: cache_put_def Let_def)
next
  case False
  moreover have "ram.sound cfg (cache_insert cfg c i (ix, sc, entry_nbytes cfg fx ix sc))"
    by (rule ram.sound_admit[OF assms(1)]) (simp add: loaded_bytes_def assms(3))
  ultimately show ?thesis using cache_insert_capped[of cfg c i] by (simp add: cache_put_def capped_def)
qed

lemma ram_run_ok:
  assumes "ram_run cfg fx c" and "\<And>ix sc. 0 \<le> entry_nbytes cfg fx ix sc"
  shows "ram.sound cfg c \<and> capped cfg c"
  using assms(1)
proof (induction rule: ram_run.induct)
  case (ram_start c)
  then show ?case using ram.sound_start[of "cache_clear c" cfg] by (simp add: cache_clear_def capped_def)
next
  case (ram_run_get c i)
  then show ?case using ram_get_ok by blast
next
  case (ram_run_put c i ix sc)
  then show ?case using ram_put_ok[OF _ _ assms(2)] by blast
next
  case (ram_run_evict c i)
  then show ?case using ram_drop_ok[of cfg c i] by (simp add: evict_shard_def)
qed

text \<open>
  The RAM shard cache keeps its limits and gives back what was put. After any sequence of
  lookups, stores and evictions the byte counter is the sum of the cached entries' sizes and lies
  between 0 and the budget, the entry cap holds when it is set, and no shard is cached twice; a
  stored shard that fits is found again at once with exactly its index and sidecar, and a shard larger than the whole budget displaces nothing else.
\<close>

lemma ram_cache_within_limits:
  assumes "ram_run cfg fx c" and "\<And>ix sc. 0 \<le> entry_nbytes cfg fx ix sc"
  shows "rc_bytes c = total loaded_bytes (rc_entries c) \<and> 0 \<le> rc_bytes c \<and> rc_bytes c \<le> shard_cache_bytes cfg \<and>
    distinct (map fst (rc_entries c)) \<and>
    (0 < shard_cache_size cfg \<longrightarrow> int (length (rc_entries c)) \<le> shard_cache_size cfg) \<and>
    (\<forall>i ix sc. entry_nbytes cfg fx ix sc \<le> shard_cache_bytes cfg \<longrightarrow>
       fst (cache_get (cache_put cfg fx c i ix sc) i) = Some (ix, sc)) \<and>
    (\<forall>i ix sc j. entry_nbytes cfg fx ix sc > shard_cache_bytes cfg \<longrightarrow> j \<noteq> i \<longrightarrow>
       fst (cache_get (cache_put cfg fx c i ix sc) j) = fst (cache_get c j))"
proof -
  have ok: "ram.sound cfg c" "capped cfg c" using ram_run_ok[OF assms] by auto
  have d: "dkeys_ok (rc_entries c)" "rc_bytes c = total loaded_bytes (rc_entries c)" using ok(1) by (simp_all add: ram.sound_def)
  have "fst (cache_get (cache_put cfg fx c i ix sc) i) = Some (ix, sc)" if n: "entry_nbytes cfg fx ix sc \<le> shard_cache_bytes cfg" for i ix sc
  proof -
    let ?e = "(ix, sc, entry_nbytes cfg fx ix sc)"
    let ?c = "cache_insert cfg c i ?e"
    have "dget (rc_entries ?c) i = Some ?e" by (rule cache_insert_newest[OF ok(1)]) (simp_all add: loaded_bytes_def n)
    then show ?thesis using n by (simp add: cache_put_def cache_get_def)
  qed
  moreover have "fst (cache_get (cache_put cfg fx c i ix sc) j) = fst (cache_get c j)"
    if "entry_nbytes cfg fx ix sc > shard_cache_bytes cfg" "j \<noteq> i" for i ix sc j
    using that by (simp add: cache_put_def Let_def cache_get_def cache_drop_def pdict_simps split: option.split)
  ultimately show ?thesis using ok d ram.sound_bounds[OF ok(1)] by (simp add: capped_def dkeys_ok_def)
qed

end
