(* ===== verification/Catalog_Cache.thy ===== *)
theory Catalog_Cache
  imports Lru Generations
begin

text \<open>
  The query service's cache of shard listings, \<open>adapters/cache/catalog_cache.py\<close>: a lookup under the
  lock, the database read outside it, and a fill under the lock that a concurrent invalidation must
  prevent. The three parts are separate steps here, so every interleaving is covered.
\<close>

section \<open>Operations\<close>

record ccache =
  cx_entries :: "(key, time \<times> shard list) pdict"
  cx_gen :: "(key, int) pdict"

text \<open>The first locked section: a fresh entry, or the generation to compare with later.\<close>

definition cached_lookup :: "ccache \<Rightarrow> key \<Rightarrow> time \<Rightarrow> int \<Rightarrow> (shard list + int) \<times> ccache" where
  "cached_lookup c k now ttl =
     (case dget (cx_entries c) k of
        Some (t, rows) \<Rightarrow>
          if now - t < ttl then (Inl rows, c\<lparr>cx_entries := move_to_end k (cx_entries c)\<rparr>)
          else (Inr (dget_or (cx_gen c) k 0), c)
      | None \<Rightarrow> (Inr (dget_or (cx_gen c) k 0), c))"

text \<open>The second one: store unless the generation moved, then pop down to the entry limit.\<close>

definition cached_fill :: "int \<Rightarrow> ccache \<Rightarrow> key \<Rightarrow> time \<Rightarrow> int \<Rightarrow> shard list \<Rightarrow> ccache" where
  "cached_fill max_entries c k now gen_pre rows =
     (if dget_or (cx_gen c) k 0 \<noteq> gen_pre then c
      else c\<lparr>cx_entries := fst (pop_extra (\<lambda>_. 0) max_entries
        (move_to_end k (dset k (now, rows) (cx_entries c))) 0)\<rparr>)"

definition cached_list_shards ::
  "int \<Rightarrow> ccache \<Rightarrow> catalog \<Rightarrow> key \<Rightarrow> time \<Rightarrow> int \<Rightarrow> bool \<Rightarrow> shard list \<times> ccache" where
  "cached_list_shards max_entries c cat k now ttl active =
     (if \<not> active then (list_shards cat k, c)
      else case cached_lookup c k now ttl of
          (Inl rows, c1) \<Rightarrow> (rows, c1)
        | (Inr gen_pre, c1) \<Rightarrow>
            (let rows = list_shards cat k in (rows, cached_fill max_entries c1 k now gen_pre rows)))"

definition cache_invalidate :: "ccache \<Rightarrow> key \<Rightarrow> bool \<times> ccache" where
  "cache_invalidate c k =
     (dget (cx_entries c) k \<noteq> None,
      c\<lparr>cx_gen := dset k (dget_or (cx_gen c) k 0 + 1) (cx_gen c), cx_entries := ddel k (cx_entries c)\<rparr>)"

section \<open>Interleavings\<close>

text \<open>
  A replica's cache next to the shared catalog: the catalog's rows of a key change, the change is
  announced and invalidates the key some time later, readers look up, read the rows and fill. \<open>cv_late\<close>
  holds the keys changed but not yet announced, \<open>cv_reads\<close> the reads in flight with their generation
  and the rows read, None before the read.
\<close>

record cview =
  cv_cache :: ccache
  cv_db :: "key \<Rightarrow> shard list"
  cv_late :: "key set"
  cv_reads :: "(key \<times> int \<times> shard list option) list"

inductive cv_step :: "int \<Rightarrow> int \<Rightarrow> cview \<Rightarrow> cview \<Rightarrow> bool" for max_entries ttl where
  cv_change: "cv_step max_entries ttl s (s\<lparr>cv_db := (cv_db s)(k := rows), cv_late := insert k (cv_late s)\<rparr>)"
| cv_notify: "cv_step max_entries ttl s (s\<lparr>cv_cache := snd (cache_invalidate (cv_cache s) k), cv_late := cv_late s - {k}\<rparr>)"
| cv_hit: "cached_lookup (cv_cache s) k now ttl = (Inl rows, c) \<Longrightarrow> cv_step max_entries ttl s (s\<lparr>cv_cache := c\<rparr>)"
| cv_miss: "cached_lookup (cv_cache s) k now ttl = (Inr g, c) \<Longrightarrow>
    cv_step max_entries ttl s (s\<lparr>cv_cache := c, cv_reads := cv_reads s @ [(k, g, None)]\<rparr>)"
| cv_read: "cv_reads s = xs @ (k, g, None) # ys \<Longrightarrow>
    cv_step max_entries ttl s (s\<lparr>cv_reads := xs @ (k, g, Some (cv_db s k)) # ys\<rparr>)"
| cv_fill: "cv_reads s = xs @ (k, g, Some rows) # ys \<Longrightarrow>
    cv_step max_entries ttl s (s\<lparr>cv_cache := cached_fill max_entries (cv_cache s) k now g rows, cv_reads := xs @ ys\<rparr>)"

inductive cv_reach :: "int \<Rightarrow> int \<Rightarrow> cview \<Rightarrow> bool" for max_entries ttl where
  cv_init: "cv_reach max_entries ttl \<lparr>cv_cache = \<lparr>cx_entries = [], cx_gen = []\<rparr>, cv_db = db, cv_late = {}, cv_reads = []\<rparr>"
| cv_go: "cv_reach max_entries ttl s \<Longrightarrow> cv_step max_entries ttl s s' \<Longrightarrow> cv_reach max_entries ttl s'"

text \<open>
  The invariant: of a key with no late announcement, the cached rows are the catalog's, and so are
  the rows of every read in flight that will be allowed to fill.
\<close>

definition cv_ok :: "cview \<Rightarrow> bool" where
  "cv_ok s \<longleftrightarrow> dkeys_ok (cx_entries (cv_cache s)) \<and>
     (\<forall>k t rows. k \<notin> cv_late s \<longrightarrow> dget (cx_entries (cv_cache s)) k = Some (t, rows) \<longrightarrow> rows = cv_db s k) \<and>
     (\<forall>k g rows. (k, g, Some rows) \<in> set (cv_reads s) \<longrightarrow> k \<notin> cv_late s \<longrightarrow> dget_or (cx_gen (cv_cache s)) k 0 = g \<longrightarrow>
        rows = cv_db s k) \<and>
     (\<forall>k g r. (k, g, r) \<in> set (cv_reads s) \<longrightarrow> g \<le> dget_or (cx_gen (cv_cache s)) k 0)"

lemma cv_okI:
  assumes "dkeys_ok (cx_entries (cv_cache s))"
    and "\<And>k t rows. k \<notin> cv_late s \<Longrightarrow> dget (cx_entries (cv_cache s)) k = Some (t, rows) \<Longrightarrow> rows = cv_db s k"
    and "\<And>k g rows. (k, g, Some rows) \<in> set (cv_reads s) \<Longrightarrow> k \<notin> cv_late s \<Longrightarrow> dget_or (cx_gen (cv_cache s)) k 0 = g \<Longrightarrow>
      rows = cv_db s k"
    and "\<And>k g r. (k, g, r) \<in> set (cv_reads s) \<Longrightarrow> g \<le> dget_or (cx_gen (cv_cache s)) k 0"
  shows "cv_ok s"
  unfolding cv_ok_def using assms by blast

lemma cv_okD:
  assumes "cv_ok s"
  shows "dkeys_ok (cx_entries (cv_cache s))"
    and "k \<notin> cv_late s \<Longrightarrow> dget (cx_entries (cv_cache s)) k = Some (t, rows) \<Longrightarrow> rows = cv_db s k"
    and "(k, g, Some rows) \<in> set (cv_reads s) \<Longrightarrow> k \<notin> cv_late s \<Longrightarrow> dget_or (cx_gen (cv_cache s)) k 0 = g \<Longrightarrow> rows = cv_db s k"
  using assms unfolding cv_ok_def by blast+

lemma cached_lookup_frame:
  "cached_lookup c k now ttl = (r, c') \<Longrightarrow> dkeys_ok (cx_entries c) \<Longrightarrow>
   cx_gen c' = cx_gen c \<and> dkeys_ok (cx_entries c') \<and> (\<forall>j. dget (cx_entries c') j = dget (cx_entries c) j) \<and>
   (\<forall>g. r = Inr g \<longrightarrow> g = dget_or (cx_gen c) k 0)"
  by (auto simp: cached_lookup_def split: option.splits if_splits)

lemma cached_fill_entries:
  assumes "dkeys_ok (cx_entries c)" and "dget (cx_entries (cached_fill m c k now g rows)) j = Some e"
  shows "dget (cx_entries c) j = Some e \<or> (j = k \<and> e = (now, rows) \<and> dget_or (cx_gen c) k 0 = g)"
proof (cases "dget_or (cx_gen c) k 0 = g")
  case True
  let ?d = "move_to_end k (dset k (now, rows) (cx_entries c))"
  obtain rest u where p: "pop_extra (\<lambda>_. 0 :: int) m ?d 0 = (rest, u)" by fastforce
  obtain out where out: "?d = out @ rest" using pop_extra_parts[OF p] by blast
  have "dkeys_ok (out @ rest)" using assms(1) by (simp flip: out)
  moreover have "dget rest j = Some e" using assms(2) True p by (simp add: cached_fill_def)
  ultimately have "dget ?d j = Some e" using dget_suffix out by metis
  then show ?thesis using True by (auto simp: pdict_simps split: if_splits)
qed (use assms in \<open>simp add: cached_fill_def\<close>)

lemma cached_fill_frame:
  "dkeys_ok (cx_entries c) \<Longrightarrow> cx_gen (cached_fill m c k now g rows) = cx_gen c \<and> dkeys_ok (cx_entries (cached_fill m c k now g rows))"
proof -
  assume d: "dkeys_ok (cx_entries c)"
  let ?d = "move_to_end k (dset k (now, rows) (cx_entries c))"
  obtain rest u where p: "pop_extra (\<lambda>_. 0 :: int) m ?d 0 = (rest, u)" by fastforce
  obtain out where out: "?d = out @ rest" using pop_extra_parts[OF p] by blast
  have "dkeys_ok ?d" using d by simp
  then have "dkeys_ok rest" using dkeys_append out by metis
  then show ?thesis using d p by (simp add: cached_fill_def)
qed

lemma cv_step_ok: "cv_step m ttl s s' \<Longrightarrow> cv_ok s \<Longrightarrow> cv_ok s'"
proof (induction rule: cv_step.induct)
  case (cv_change s k rows)
  then show ?case by (auto simp: cv_ok_def)
next
  case (cv_notify s k)
  then show ?case by (fastforce simp: cv_ok_def cache_invalidate_def pdict_simps split: if_splits)
next
  case (cv_hit s k now rows c)
  then show ?case using cached_lookup_frame[OF cv_hit(1)] by (simp add: cv_ok_def)
next
  case (cv_miss s k now g c)
  then show ?case using cached_lookup_frame[OF cv_miss(1)] by (auto simp: cv_ok_def)
next
  case (cv_read s xs k g ys)
  then show ?case by (auto simp: cv_ok_def)
next
  case (cv_fill s xs k g rows ys now)
  have d: "dkeys_ok (cx_entries (cv_cache s))" using cv_fill(2) by (simp add: cv_ok_def)
  note fr = cached_fill_frame[OF d, of m k now g rows] and en = cached_fill_entries[OF d, of m k now g rows]
  show ?case
  proof (rule cv_okI)
    show "rows' = cv_db (s\<lparr>cv_cache := cached_fill m (cv_cache s) k now g rows, cv_reads := xs @ ys\<rparr>) j"
      if "j \<notin> cv_late (s\<lparr>cv_cache := cached_fill m (cv_cache s) k now g rows, cv_reads := xs @ ys\<rparr>)"
        and "dget (cx_entries (cv_cache (s\<lparr>cv_cache := cached_fill m (cv_cache s) k now g rows, cv_reads := xs @ ys\<rparr>))) j = Some (t, rows')"
      for j t rows'
    proof -
      have j: "j \<notin> cv_late s" using that(1) by simp
      have "dget (cx_entries (cv_cache s)) j = Some (t, rows') \<or> (j = k \<and> rows' = rows \<and> dget_or (cx_gen (cv_cache s)) k 0 = g)"
        using en[of j "(t, rows')"] that(2) by auto
      moreover have "(k, g, Some rows) \<in> set (cv_reads s)" using cv_fill(1) by simp
      ultimately show ?thesis using cv_okD(2)[OF cv_fill(2) j, of t rows'] cv_okD(3)[OF cv_fill(2), of k g rows] j by auto
    qed
  qed (use fr cv_fill in \<open>auto simp: cv_ok_def\<close>)
qed

text \<open>
  C30. A stale listing is never cached past its invalidation. Under every interleaving of catalog
  changes, their announcements, cache hits, misses, database reads and fills, whenever all
  changes of a dataset's shards have been announced, a cached listing of it is exactly the
  catalog's: a read that started before the invalidation does not fill the cache. The cache never
  lists a dataset twice.
\<close>

theorem announced_changes_are_seen:
  assumes "cv_reach max_entries ttl s"
  shows "distinct (map fst (cx_entries (cv_cache s))) \<and>
    (\<forall>k now rows c. k \<notin> cv_late s \<longrightarrow> cached_lookup (cv_cache s) k now ttl = (Inl rows, c) \<longrightarrow> rows = cv_db s k)"
proof -
  have "cv_ok s" using assms
  proof (induction rule: cv_reach.induct)
    case (cv_init db)
    then show ?case by (simp add: cv_ok_def)
  qed (rule cv_step_ok)
  then show ?thesis
    by (auto simp: cv_ok_def dkeys_ok_def cached_lookup_def split: option.splits if_splits)
qed

text \<open>A reader misses, reads and fills; a lookup two seconds later hits.\<close>

definition old_rows :: "key \<Rightarrow> shard list" where
  "old_rows _ = []"

definition cold_view :: cview where
  "cold_view = \<lparr>cv_cache = \<lparr>cx_entries = [], cx_gen = []\<rparr>, cv_db = old_rows, cv_late = {}, cv_reads = []\<rparr>"

theorem announced_changes_are_seen_witness:
  "\<exists>s rows c. cv_reach 10 5 s \<and> (''t'', ''d'') \<notin> cv_late s \<and>
     cached_lookup (cv_cache s) (''t'', ''d'') 3 5 = (Inl rows, c) \<and> rows = cv_db s (''t'', ''d'')"
proof -
  let ?k = "(''t'', ''d'')"
  let ?c0 = "\<lparr>cx_entries = [], cx_gen = []\<rparr>"
  let ?s1 = "cold_view\<lparr>cv_cache := ?c0, cv_reads := cv_reads cold_view @ [(?k, 0, None)]\<rparr>"
  let ?s2 = "?s1\<lparr>cv_reads := [] @ (?k, 0, Some (cv_db ?s1 ?k)) # []\<rparr>"
  let ?s3 = "?s2\<lparr>cv_cache := cached_fill 10 (cv_cache ?s2) ?k 1 0 (cv_db ?s1 ?k), cv_reads := [] @ []\<rparr>"
  have "cv_reach 10 5 cold_view" unfolding cold_view_def by (rule cv_init)
  moreover have "cv_step 10 5 cold_view ?s1"
    by (rule cv_miss[where now = 1]) (simp add: cold_view_def cached_lookup_def dget_or_def)
  moreover have "cv_step 10 5 ?s1 ?s2" by (rule cv_read) (simp add: cold_view_def)
  moreover have "cv_step 10 5 ?s2 ?s3" by (rule cv_fill) simp
  ultimately have r: "cv_reach 10 5 ?s3" by (blast intro: cv_go)
  obtain rows c where "cached_lookup (cv_cache ?s3) ?k 3 5 = (Inl rows, c)"
    by (simp add: cached_lookup_def cached_fill_def dget_or_def move_to_end_def cold_view_def)
  moreover have "?k \<notin> cv_late ?s3" by (simp add: cold_view_def)
  ultimately show ?thesis using announced_changes_are_seen[OF r] r by blast
qed

end
