(* ===== verification/Query.thy ===== *)
theory Query
  imports Ram_Cache Catalog_Cache Consolidate
begin

text \<open>
  The query path, \<open>services/query_api/v1_query.py\<close>: request validation, shard resolution through the
  listing cache, the search of one shard through the RAM and disk caches, the union with the recall
  tier and its watermark, and the hand-over to the ephemeral runner. Latencies, metrics and spans
  are not modelled; the recall search that runs in parallel reads the same state.
\<close>

section \<open>Configuration, state, requests and answers\<close>

record 'i qenv =
  qe_b :: benv
  qe_sqdist :: "vec \<Rightarrow> vec \<Rightarrow> rat"
  qe_dst :: "string \<Rightarrow> string \<Rightarrow> rat"
  qe_sq :: "rat \<Rightarrow> rat"
  qe_env_nprobe :: int
  qe_ram :: "'i ram_cfg"
  qe_tier :: "tier_cfg option"
  qe_dir :: string
  qe_size :: "'i blob \<Rightarrow> int"
  qe_freshness :: int
  qe_result_topic :: string

text \<open>What one query replica keeps: loaded shards, local files, shard listings.\<close>

record 'i dp =
  dp_ram :: "'i ram_cache"
  dp_disk :: "'i tier"
  dp_listing :: ccache

record parsed_query =
  pq_dataset :: string
  pq_vector :: vec
  pq_top_k :: int
  pq_nprobe :: "int option"
  pq_filter :: meta

datatype query_answer = QError response | QMatches "rat match list" string | QJob string

definition DEFAULT_TOP_K :: int where "DEFAULT_TOP_K = 10"
definition MAX_TOP_K :: int where "MAX_TOP_K = 1000"
definition MAX_NPROBE :: int where "MAX_NPROBE = 1024"

definition query_nprobe :: "'i qenv \<Rightarrow> int" where
  "query_nprobe qe = min (max 1 (qe_env_nprobe qe)) MAX_NPROBE"

section \<open>Validation\<close>

fun floats_of :: "json list \<Rightarrow> pyexc + vec" where
  "floats_of [] = Inr []"
| "floats_of (x # xs) =
     (case (case x of JInt n \<Rightarrow> float_of_int n | JFloat f \<Rightarrow> Inr f | _ \<Rightarrow> Inl (ValueError ''float'')) of
        Inl e \<Rightarrow> Inl e
      | Inr f \<Rightarrow> (case floats_of xs of Inl e \<Rightarrow> Inl e | Inr fs \<Rightarrow> Inr (f # fs)))"

fun scalar :: "json \<Rightarrow> bool" where
  "scalar (JObj _) = False"
| "scalar (JList _) = False"
| "scalar _ = True"

text \<open>\<open>body.get(key, default)\<close> where null also means the default.\<close>

definition get_or :: "meta \<Rightarrow> string \<Rightarrow> json \<Rightarrow> json" where
  "get_or d key dflt = (case dget d key of None \<Rightarrow> dflt | Some JNull \<Rightarrow> dflt | Some v \<Rightarrow> v)"

definition top_k_of :: "meta \<Rightarrow> int option" where
  "top_k_of body = (case get_or body ''top_k'' (JInt DEFAULT_TOP_K) of
     JInt n \<Rightarrow> if n < 1 \<or> n > MAX_TOP_K then None else Some n | _ \<Rightarrow> None)"

definition nprobe_of :: "meta \<Rightarrow> response + int option" where
  "nprobe_of body = (case get_or body ''nprobe'' JNull of
     JNull \<Rightarrow> Inr None
   | JInt n \<Rightarrow> if n < 1 then Inl (error_envelope 400 ''invalid_request'' ''nprobe must be a positive integer'' None)
       else if n > MAX_NPROBE then Inl (error_envelope 400 ''nprobe_out_of_range'' ''nprobe must be between 1 and 1024'' None)
       else Inr (Some n)
   | _ \<Rightarrow> Inl (error_envelope 400 ''invalid_request'' ''nprobe must be a positive integer'' None))"

definition filter_of :: "meta \<Rightarrow> response + meta" where
  "filter_of body = (case get_or body ''filter'' (JObj []) of
     JObj flt \<Rightarrow> if list_all (scalar \<circ> snd) flt then Inr flt
       else Inl (error_envelope 400 ''invalid_request''
         ''filter values must be scalars (no nesting, ranges, or OR in v1)'' None)
   | _ \<Rightarrow> Inl (error_envelope 400 ''invalid_request'' ''filter must be a JSON object'' None))"

text \<open>\<open>Inl\<close> is an exception that escapes: the conversion of an int beyond the double range.\<close>

definition validate_query_body :: "catalog \<Rightarrow> tenant \<Rightarrow> json \<Rightarrow> pyexc + (response + parsed_query)" where
  "validate_query_body c tenant_id body =
     (case body of
        JObj b \<Rightarrow>
         (case dget b ''dataset'' of
            Some (JStr name) \<Rightarrow>
              if name = [] then Inr (Inl (error_envelope 404 ''dataset_not_found'' ''dataset is required'' None))
              else (case get_dataset c (tenant_id, name) of
                None \<Rightarrow> Inr (Inl (error_envelope 404 ''dataset_not_found'' (''Dataset '' @ CHR 0x27 # name @ CHR 0x27 # '' not found'') None))
              | Some row \<Rightarrow>
                 (case dget b ''vector'' of
                    Some (JList vs) \<Rightarrow>
                      if \<not> list_all is_number vs
                      then Inr (Inl (error_envelope 400 ''invalid_request'' ''vector must be an array of numbers'' None))
                      else if int (length vs) \<noteq> d_dimension row
                      then Inr (Inl (error_envelope 400 ''dimension_mismatch''
                        (''query vector length '' @ py_int_str (int (length vs)) @ '' != dataset dimension '' @ py_int_str (d_dimension row))
                        (Some [(''expected'', JInt (d_dimension row)), (''got'', JInt (int (length vs)))])))
                      else (case top_k_of b of
                        None \<Rightarrow> Inr (Inl (error_envelope 400 ''top_k_out_of_range'' ''top_k must be between 1 and 1000'' None))
                      | Some k \<Rightarrow>
                         (case nprobe_of b of
                            Inl r \<Rightarrow> Inr (Inl r)
                          | Inr np \<Rightarrow>
                             (case filter_of b of
                                Inl r \<Rightarrow> Inr (Inl r)
                              | Inr flt \<Rightarrow>
                                 (case floats_of vs of
                                    Inl e \<Rightarrow> Inl e
                                  | Inr fs \<Rightarrow> Inr (Inr \<lparr>pq_dataset = name, pq_vector = fs, pq_top_k = k,
                                      pq_nprobe = np, pq_filter = flt\<rparr>)))))
                  | _ \<Rightarrow> Inr (Inl (error_envelope 400 ''invalid_request'' ''vector must be an array of numbers'' None))))
          | _ \<Rightarrow> Inr (Inl (error_envelope 404 ''dataset_not_found'' ''dataset is required'' None)))
      | _ \<Rightarrow> Inr (Inl (error_envelope 400 ''invalid_request'' ''Request body must be a JSON object'' None)))"

section \<open>Searching one shard\<close>

text \<open>\<open>_ivf_search_params\<close>: the parameters passed to the search, None on an index that is not IVF.\<close>

definition ivf_search_params :: "'i qenv \<Rightarrow> 'i faiss \<Rightarrow> 'i \<Rightarrow> int option \<Rightarrow> bool \<Rightarrow> int option \<times> int" where
  "ivf_search_params qe fx ix override full_coverage =
     (let raw = (case override of Some n \<Rightarrow> max 1 n | None \<Rightarrow> query_nprobe qe);
          nprobe = min raw MAX_NPROBE
      in if \<not> fx_ivf fx ix then (None, if full_coverage then 0 else nprobe)
         else let n = (if full_coverage then fx_nlist fx ix else nprobe) in (Some n, n))"

definition hit_match :: "sidecar \<Rightarrow> rat \<times> int \<Rightarrow> rat match" where
  "hit_match sc h = (case h of (score, n) \<Rightarrow>
     (case dget sc n of
        Some (i, m) \<Rightarrow> \<lparr>m_id = i, m_score = score, m_metadata = m\<rparr>
      | None \<Rightarrow> \<lparr>m_id = py_int_str n, m_score = score, m_metadata = []\<rparr>))"

definition map_hits_to_matches :: "(rat \<times> int) list \<Rightarrow> sidecar \<Rightarrow> int \<Rightarrow> rat match list" where
  "map_hits_to_matches hits sc top_k = map (hit_match sc) (filter (\<lambda>(_, n). n \<noteq> -1) (take (nat top_k) hits))"

definition run_faiss_search ::
  "'i qenv \<Rightarrow> 'i faiss \<Rightarrow> 'i \<Rightarrow> sidecar \<Rightarrow> vec \<Rightarrow> int \<Rightarrow> meta \<Rightarrow> int option \<Rightarrow> pyexc + rat match list" where
  "run_faiss_search qe fx ix sc x top_k flt nprobe =
     (if flt \<noteq> []
      then let np = fst (ivf_search_params qe fx ix None True);
               fetch_k = (if fx_ntotal fx ix \<noteq> 0 then fx_ntotal fx ix else top_k)
           in case fx_search fx ix np x fetch_k of
                Inl e \<Rightarrow> Inl e
              | Inr hits \<Rightarrow> Inr (take (nat top_k)
                  (filter (\<lambda>m. metadata_matches_filter (m_metadata m) flt) (map_hits_to_matches hits sc fetch_k)))
      else case fx_search fx ix (fst (ivf_search_params qe fx ix nprobe False)) x top_k of
             Inl e \<Rightarrow> Inl e
           | Inr hits \<Rightarrow> Inr (map_hits_to_matches hits sc top_k))"

text \<open>\<open>faiss.read_index\<close> of a local file; a missing or foreign file is a RuntimeError.\<close>

definition read_local :: "(string, 'i blob) pdict \<Rightarrow> string \<Rightarrow> query_exc + 'i" where
  "read_local files p =
     (case dget files p of
        Some (IndexB ix) \<Rightarrow> Inr ix
      | _ \<Rightarrow> Inl (EExc (RuntimeError ''could not open index file'')))"

definition load_shard ::
  "'i qenv \<Rightarrow> 'i faiss \<Rightarrow> 'i bucket \<Rightarrow> 'i dp \<Rightarrow> shard \<Rightarrow> time \<Rightarrow> (query_exc + ('i \<times> sidecar \<times> bool)) \<times> 'i dp" where
  "load_shard qe fx b d s now =
     (case cache_get (dp_ram d) (sh_id s) of
        (Some (ix, sc), ram) \<Rightarrow> (Inr (ix, sc, False), d\<lparr>dp_ram := ram\<rparr>)
      | (None, _) \<Rightarrow>
         (case ensure_cached (qe_tier qe) (qe_dir qe) (be_down (qe_b qe)) (qe_size qe) b (dp_disk d) (sh_uri s) now of
            (Inl e, disk) \<Rightarrow> (Inl e, d\<lparr>dp_disk := disk\<rparr>)
          | (Inr p, disk) \<Rightarrow>
             (case read_local (t_files disk) p of
                Inl e \<Rightarrow> (Inl e, d\<lparr>dp_disk := disk\<rparr>)
              | Inr ix \<Rightarrow>
                  let sc = read_shard_sidecar (be_down (qe_b qe)) b (sh_uri s)
                  in (Inr (ix, sc, True),
                      d\<lparr>dp_disk := disk, dp_ram := cache_put (qe_ram qe) fx (dp_ram d) (sh_id s) ix sc\<rparr>))))"

definition search_one_shard ::
  "'i qenv \<Rightarrow> 'i faiss \<Rightarrow> 'i bucket \<Rightarrow> 'i dp \<Rightarrow> vec \<Rightarrow> int \<Rightarrow> meta \<Rightarrow> int option \<Rightarrow> shard \<Rightarrow> time
   \<Rightarrow> (query_exc + (rat match list \<times> bool)) \<times> 'i dp" where
  "search_one_shard qe fx b d q top_k flt nprobe s now =
     (case load_shard qe fx b d s now of
        (Inl e, d1) \<Rightarrow> (Inl e, d1)
      | (Inr (ix, sc, cold), d1) \<Rightarrow>
         (case run_faiss_search qe fx ix sc (map (be_f32 (qe_b qe)) q) top_k flt nprobe of
            Inl e \<Rightarrow> (Inl (EExc e), d1)
          | Inr ms \<Rightarrow> (Inr (ms, cold), d1)))"

section \<open>Resolving and searching the consolidated tier\<close>

text \<open>The resolved shards: the newest one, or with the delta tier the live generation in order.\<close>

datatype resolved = OneShard shard | Layers "shard list" "int list"

definition resolve_shard :: "'i qenv \<Rightarrow> 'i dp \<Rightarrow> catalog \<Rightarrow> key \<Rightarrow> time \<Rightarrow> resolved option \<times> 'i dp" where
  "resolve_shard qe d c k now =
     (let (shards, cc) = cached_list_shards 10000 (dp_listing d) c k now (qe_freshness qe)
            (qe_tier qe \<noteq> None \<and> qe_freshness qe > 0);
          d1 = d\<lparr>dp_listing := cc\<rparr>
      in case shards of
           [] \<Rightarrow> (None, d1)
         | s # _ \<Rightarrow>
             if \<not> be_delta_tier (qe_b qe) then (Some (OneShard s), d1)
             else (case generations shards of
                 [] \<Rightarrow> (None, d1)
               | g # _ \<Rightarrow>
                   let deltas = sort_key (\<lambda>s. (sh_lo s, sh_id s)) (tl g)
                   in (Some (Layers (hd g # deltas) (concat (map sh_tombs deltas))), d1)))"

text \<open>The loop over the layers: a later layer's match for an id replaces the earlier one in place.\<close>

fun search_layers ::
  "'i qenv \<Rightarrow> 'i faiss \<Rightarrow> 'i bucket \<Rightarrow> 'i dp \<Rightarrow> vec \<Rightarrow> int \<Rightarrow> meta \<Rightarrow> int option \<Rightarrow> time \<Rightarrow> shard list
   \<Rightarrow> (vid, rat match) pdict \<Rightarrow> bool \<Rightarrow> (query_exc + (rat match list \<times> bool)) \<times> 'i dp" where
  "search_layers qe fx b d q top_k flt np now [] acc cold = (Inr (map snd acc, cold), d)"
| "search_layers qe fx b d q top_k flt np now (s # ss) acc cold =
     (case search_one_shard qe fx b d q top_k flt np s now of
        (Inl e, d1) \<Rightarrow> (Inl e, d1)
      | (Inr (ms, c), d1) \<Rightarrow>
          search_layers qe fx b d1 q top_k flt np now ss (foldl (\<lambda>a m. dset (m_id m) m a) acc ms) (cold \<or> c))"

definition search_consolidated_shard ::
  "'i qenv \<Rightarrow> 'i faiss \<Rightarrow> 'i bucket \<Rightarrow> 'i dp \<Rightarrow> vec \<Rightarrow> int \<Rightarrow> meta \<Rightarrow> int option \<Rightarrow> resolved option \<Rightarrow> time
   \<Rightarrow> (query_exc + (rat match list \<times> bool) option) \<times> 'i dp" where
  "search_consolidated_shard qe fx b d q top_k flt np rv now =
     (case rv of
        None \<Rightarrow> (Inr None, d)
      | Some (Layers ss _) \<Rightarrow>
          if ss = [] then (Inr None, d)
          else apfst (map_sum id Some) (search_layers qe fx b d q top_k flt np now ss [] False)
      | Some (OneShard s) \<Rightarrow> apfst (map_sum id Some) (search_one_shard qe fx b d q top_k flt np s now))"

section \<open>Watermark, suppression and union\<close>

definition watermark_for_shard :: "shard option \<Rightarrow> int" where
  "watermark_for_shard s = (case s of None \<Rightarrow> 0 | Some s \<Rightarrow> sh_lsn s)"

fun extend_frontier :: "int \<Rightarrow> shard list \<Rightarrow> int" where
  "extend_frontier f [] = f"
| "extend_frontier f (s # ss) = (if sh_lo s = f + 1 then extend_frontier (sh_hi s) ss else f)"

definition frontier_watermark :: "shard list \<Rightarrow> int" where
  "frontier_watermark shards =
     (case sort_key (\<lambda>s. (sh_lo s, sh_id s)) shards of
        [] \<Rightarrow> 0
      | base # deltas \<Rightarrow> extend_frontier (if sh_hi base \<le> 0 then sh_lsn base else sh_hi base) deltas)"

definition query_watermark :: "resolved option \<Rightarrow> int" where
  "query_watermark rv =
     (case rv of None \<Rightarrow> 0 | Some (Layers ss _) \<Rightarrow> frontier_watermark ss | Some (OneShard s) \<Rightarrow> watermark_for_shard (Some s))"

text \<open>The ids of the deltas' tombstones, through the first sidecar that names the int64.\<close>

fun first_names :: "(uri \<Rightarrow> bool) \<Rightarrow> 'i bucket \<Rightarrow> shard list \<Rightarrow> (int, vid) pdict \<Rightarrow> (int, vid) pdict" where
  "first_names down b [] acc = acc"
| "first_names down b (s # ss) acc =
     first_names down b ss
       (foldl (\<lambda>a (n, i, _). if dget a n = None then dset n i a else a) acc (read_shard_sidecar down b (sh_uri s)))"

definition tombstone_suppress_ids :: "(uri \<Rightarrow> bool) \<Rightarrow> 'i bucket \<Rightarrow> resolved option \<Rightarrow> vid set" where
  "tombstone_suppress_ids down b rv =
     (case rv of
        Some (Layers ss tombs) \<Rightarrow>
          if tombs = [] then {} else {i. \<exists>t \<in> set tombs. dget (first_names down b ss []) t = Some i}
      | _ \<Rightarrow> {})"

definition merge_recall_and_consolidated ::
  "vid set \<Rightarrow> rat match list \<Rightarrow> rat match list \<Rightarrow> int \<Rightarrow> rat match list" where
  "merge_recall_and_consolidated suppress recall_ms cold_ms top_k =
     take (nat top_k) (sort_key m_score (recall_ms @ filter (\<lambda>m. m_id m \<notin> suppress) cold_ms))"

section \<open>The whole query\<close>

text \<open>An error answers 503, and 500 when the exception is not one of the known classes.\<close>

definition query_error :: "query_exc \<Rightarrow> query_answer" where
  "query_error e =
     (let (code, message) = classify_query_error e ''Query failed''
      in QError (error_envelope (if code = ''ephemeral_error'' then 500 else 503) code message None))"

definition json_of_vec :: "vec \<Rightarrow> json" where
  "json_of_vec v = JList (map JFloat v)"

definition enqueue_ephemeral :: "'i qenv \<Rightarrow> 'i world \<Rightarrow> key \<Rightarrow> parsed_query \<Rightarrow> fresh \<Rightarrow> query_answer \<times> 'i world" where
  "enqueue_ephemeral qe w k pq fr =
     (let cid = ''job_'' @ fr_shard fr;
          message = [(''dataset'', JStr (snd k)), (''tenant'', JStr (fst k)), (''vector'', json_of_vec (pq_vector pq)),
            (''top_k'', JInt (pq_top_k pq)), (''filter'', JObj (pq_filter pq)), (''correlation_id'', JStr cid),
            (''reply_to'', JStr (qe_result_topic qe))]
      in (QJob cid, w\<lparr>w_queue := publish (be_queue (qe_b qe)) (w_queue w) ''RUN_EPHEMERAL_QUERY'' message (fr_msg fr) []\<rparr>))"

definition mode_of :: "bool \<Rightarrow> string" where
  "mode_of cold = (if cold then ''cold'' else ''hot'')"

definition exc_of_recall :: "recall_error \<Rightarrow> query_exc" where
  "exc_of_recall e = (case e of RecallUnavailable \<Rightarrow> ERecallUnavailable | DbError d \<Rightarrow> EDb d)"

text \<open>
  \<open>fault\<close> is the database error the recall search would meet. Without recall the consolidated tier
  answers alone; with it the two searches read at one watermark and are merged.
\<close>

definition run_query ::
  "'i qenv \<Rightarrow> 'i faiss \<Rightarrow> 'i world \<Rightarrow> 'i dp \<Rightarrow> tenant \<Rightarrow> parsed_query \<Rightarrow> dberr option \<Rightarrow> time \<Rightarrow> fresh
   \<Rightarrow> query_answer \<times> 'i dp \<times> 'i world" where
  "run_query qe fx w d tenant_id pq fault now fr =
     (let k = (tenant_id, pq_dataset pq); env = qe_b qe;
          (rv, d1) = resolve_shard qe d (w_cat w) k now;
          (cold, d2) = search_consolidated_shard qe fx (w_bucket w) d1 (pq_vector pq) (pq_top_k pq) (pq_filter pq) (pq_nprobe pq) rv now
      in if \<not> recall_enabled (be_recall env)
         then (case cold of
             Inl e \<Rightarrow> (query_error e, d2, w)
           | Inr (Some (ms, c)) \<Rightarrow> (QMatches ms (mode_of c), d2, w)
           | Inr None \<Rightarrow> (let (a, w1) = enqueue_ephemeral qe w k pq fr in (a, d2, w1)))
         else
           let wm = query_watermark rv;
               recall = recall_search (be_pg env) (be_recall env) (qe_sqdist qe) (qe_dst qe) (qe_sq qe) fault (w_recall w) k
                 (pq_vector pq) (pq_top_k pq) wm (Some (pq_filter pq))
           in case cold of
                Inl e \<Rightarrow> (query_error e, d2, w)
              | Inr hot \<Rightarrow>
                 (case recall of
                    Inl e \<Rightarrow> (query_error (exc_of_recall e), d2, w)
                  | Inr (suppress, recall_ms) \<Rightarrow>
                     (let suppress1 = suppress \<union> tombstone_suppress_ids (be_down env) (w_bucket w) rv;
                          cold_ms = (case hot of None \<Rightarrow> [] | Some (ms, _) \<Rightarrow> ms)
                      in if hot \<noteq> None \<or> suppress1 \<noteq> {}
                         then (QMatches (merge_recall_and_consolidated suppress1 recall_ms cold_ms (pq_top_k pq))
                             (case hot of None \<Rightarrow> ''recall'' | Some (_, c) \<Rightarrow> mode_of c), d2, w)
                         else (let (a, w1) = enqueue_ephemeral qe w k pq fr in (a, d2, w1)))))"

end
