(* ===== verification/Query_Correct.thy ===== *)
theory Query_Correct
  imports Query System
begin

text \<open>
  The ranking of a query: what one shard's search lists, what the union with the recall result lists,
  and how far that is the true top of the documents a reader sees.
\<close>

section \<open>Merging sorted scores\<close>

lemma take_insort:
  "sorted ys \<Longrightarrow> n \<le> length (filter (\<lambda>y. y \<le> x) ys) \<Longrightarrow> take n (insort x ys) = take n ys"
  for x :: "'a::linorder"
proof (induction ys arbitrary: n)
  case (Cons y ys)
  show ?case
  proof (cases n)
    case (Suc m)
    show ?thesis
    proof (cases "x \<le> y")
      case True
      have "y \<le> x"
      proof (rule ccontr)
        assume "\<not> y \<le> x"
        then have "filter (\<lambda>z. z \<le> x) (y # ys) = []" using Cons.prems(1) by (auto simp: filter_empty_conv)
        then show False using Cons.prems(2) Suc by simp
      qed
      then have xy: "x = y" using True by simp
      then have "m \<le> length (filter (\<lambda>z. z \<le> x) ys)" using Cons.prems(2) Suc by simp
      then have "take m (insort x ys) = take m ys" using Cons by simp
      moreover have "insort x ys = x # ys" using Cons.prems(1) xy by (intro insort_is_Cons) auto
      ultimately show ?thesis using Suc xy by simp
    next
      case False
      then have "m \<le> length (filter (\<lambda>z. z \<le> x) ys)" using Cons.prems(2) Suc by (simp split: if_splits)
      then show ?thesis using Cons False Suc by simp
    qed
  qed simp
qed simp

lemma take_sort_append:
  fixes ls bs :: "'a::linorder list"
  assumes "\<forall>x \<in> set bs. n \<le> length (filter (\<lambda>y. y \<le> x) ls)"
  shows "take n (sort (ls @ bs)) = take n (sort ls)"
  using assms
proof (induction bs)
  case (Cons b bs)
  have "sort (ls @ b # bs) = insort b (sort (ls @ bs))"
    by (rule properties_for_sort) (simp_all add: sorted_insort)
  moreover have "n \<le> length (filter (\<lambda>y. y \<le> b) (sort (ls @ bs)))"
  proof -
    have "length (filter (\<lambda>y. y \<le> b) (sort (ls @ bs))) = length (filter (\<lambda>y. y \<le> b) (ls @ bs))"
      by (metis mset_filter mset_sort size_mset)
    then show ?thesis using Cons.prems by simp
  qed
  ultimately show ?case using Cons by (simp add: take_insort)
qed simp

lemma take_sort_prefixes:
  fixes xs ys :: "'a::linorder list"
  assumes "sorted xs" and "sorted ys" and "n \<le> a \<or> length xs \<le> a" and "n \<le> b \<or> length ys \<le> b"
  shows "take n (sort (take a xs @ take b ys)) = take n (sort (xs @ ys))"
proof -
  have few: "n \<le> length (filter (\<lambda>y. y \<le> z) (take c zs))"
    if "sorted zs" "n \<le> c \<or> length zs \<le> c" "z \<in> set (drop c zs)" for z c and zs :: "'a list"
  proof -
    have "filter (\<lambda>y. y \<le> z) (take c zs) = take c zs"
      using take_sorted_le[of "\<lambda>x. x" zs] that(1,3) by (auto simp: filter_id_conv)
    moreover have "c < length zs" using that(3) by (metis drop_eq_Nil emptyE list.set(1) not_less)
    ultimately show ?thesis using that(2) by simp
  qed
  have "mset (xs @ ys) = mset ((take a xs @ take b ys) @ (drop a xs @ drop b ys))"
  proof -
    have "mset zs = mset (take c zs) + mset (drop c zs)" for c and zs :: "'a list" by (simp flip: mset_append)
    from this[of xs a] this[of ys b] show ?thesis by (simp only: mset_append ac_simps)
  qed
  then have "sort (xs @ ys) = sort ((take a xs @ take b ys) @ (drop a xs @ drop b ys))"
    by (simp only: flip: sorted_list_of_multiset_mset)
  moreover have "\<forall>z \<in> set (drop a xs @ drop b ys). n \<le> length (filter (\<lambda>y. y \<le> z) (take a xs @ take b ys))"
    using few[OF assms(1,3)] few[OF assms(2,4)] by (auto intro: trans_le_add1 trans_le_add2)
  ultimately show ?thesis by (simp only: take_sort_append)
qed

section \<open>One shard\<close>

text \<open>Every id of a shard as the match a search would list for it.\<close>

definition id_match :: "'i faiss \<Rightarrow> 'i \<Rightarrow> sidecar \<Rightarrow> vec \<Rightarrow> int \<Rightarrow> rat match" where
  "id_match fx ix sc x n =
     hit_match sc (case fx_reconstruct fx ix n of Inr v \<Rightarrow> fx_dist fx x v | Inl _ \<Rightarrow> 0, n)"

lemma hit_match_score [simp]: "m_score (hit_match sc h) = fst h"
  by (simp add: hit_match_def split: option.split prod.split)

lemma hits_id_match: "hits_ok fx ix ids np x k hits \<Longrightarrow> map (hit_match sc) hits = map (id_match fx ix sc x) (map snd hits)"
  by (fastforce simp: hits_ok_def id_match_def split: sum.split)

lemma top_of_hits:
  assumes h: "hits_ok fx ix ids np x k hits" and c: "covers fx ix np" and d: "distinct ids" and ho: "holds fx ix ids"
  shows "top_of (map (id_match fx ix sc x) ids) k (map (hit_match sc) hits)"
proof -
  let ?m = "id_match fx ix sc x"
  let ?rest = "filter (\<lambda>n. n \<notin> snd ` set hits) ids"
  have hs: "distinct (map snd hits)" "snd ` set hits \<subseteq> set ids" "sorted (map fst hits)" using h by (auto simp: hits_ok_def)
  have len: "length hits = min (nat k) (length ids)" using h c by (simp add: hits_ok_def)
  have "distinct (map snd hits @ ?rest)" "set (map snd hits @ ?rest) = set ids" using hs(1,2) d by auto
  then have split: "mset ids = mset (map snd hits @ ?rest)" using d set_eq_iff_mset_eq_distinct by metis
  have all: "mset (map ?m ids) = mset (map (hit_match sc) hits) + mset (map ?m ?rest)"
    unfolding hits_id_match[OF h] by (simp only: mset_map split mset_append image_mset_union)
  have sc: "map m_score (map (hit_match sc) hits) = map fst hits"
    by simp
  have "m_score a \<le> m_score b" if am: "a \<in> set (map (hit_match sc) hits)" and bm: "b \<in> set (map ?m ?rest)" for a b
  proof -
    obtain s n where a: "(s, n) \<in> set hits" "a = hit_match sc (s, n)" using am by auto
    obtain m where m: "b = ?m m" "m \<in> set ids - snd ` set hits" using bm by auto
    obtain v where v: "fx_reconstruct fx ix m = Inr v" using ho m(2) by (auto simp: holds_def)
    then have "s \<le> fx_dist fx x v" using h c a(1) m(2) unfolding hits_ok_def by blast
    then show ?thesis using a(2) m(1) v by (simp add: id_match_def)
  qed
  then show ?thesis
    unfolding top_of_def all sc by (simp add: len hs(3))
qed

text \<open>The search of a well-formed shard: the top of its filter-matching ids.\<close>

definition probes_all :: "'i qenv \<Rightarrow> 'i faiss \<Rightarrow> 'i \<Rightarrow> parsed_query \<Rightarrow> bool" where
  "probes_all qe fx ix pq \<longleftrightarrow> pq_filter pq \<noteq> [] \<or> covers fx ix (fst (ivf_search_params qe fx ix (pq_nprobe pq) False))"

lemma map_padded_hits:
  assumes "length hits + pad = nat k" and "\<forall>n \<in> snd ` set hits. n \<noteq> -1"
  shows "map_hits_to_matches (hits @ replicate pad (p, -1)) sc k = map (hit_match sc) hits"
proof -
  have "filter (\<lambda>(_, n). n \<noteq> -1) hits = hits" using assms(2) by (auto simp: filter_id_conv)
  then show ?thesis using assms(1) by (simp add: map_hits_to_matches_def)
qed

lemma covers_full: "covers fx ix (fst (ivf_search_params qe fx ix np True))"
  by (simp add: covers_def ivf_search_params_def Let_def)

lemma top_of_filter:
  assumes "sorted (map m_score xs)" and "mset xs = mset cs"
  shows "top_of (filter P cs) k (take (nat k) (filter P xs))"
proof (rule top_of_take_sorted)
  show "sorted (map m_score (filter P xs))" using assms(1) by (simp add: sorted_wrt_map sorted_wrt_filter)
  show "mset (filter P xs) = mset (filter P cs)" using assms(2) by simp
qed

lemma shard_search_top:
  assumes law: "law_search fx" and ok: "ix_ok env fx dm ix sc ids" and x: "int (length x) = dm" and k: "0 < pq_top_k pq"
    and np: "probes_all qe fx ix pq"
  obtains ms where "run_faiss_search qe fx ix sc x (pq_top_k pq) (pq_filter pq) (pq_nprobe pq) = Inr ms"
    and "top_of (filter (\<lambda>m. metadata_matches_filter (m_metadata m) (pq_filter pq)) (map (id_match fx ix sc x) ids)) (pq_top_k pq) ms"
proof -
  have h: "holds fx ix ids" "distinct ids" "fx_d fx ix = dm" using ok by (simp_all add: ix_ok_def)
  have pos: "n \<noteq> -1" if n: "n \<in> set ids" for n
  proof -
    obtain raw where "n = id64 env raw" using ok n by (force simp: ix_ok_def)
    then show ?thesis using id_to_int64_bounds[of "be_sha1 env" raw] by (simp add: id64_def)
  qed
  have search: "\<exists>hits pad p. fx_search fx ix np x j = Inr (hits @ replicate pad (p, -1)) \<and> length hits + pad = nat j \<and>
      hits_ok fx ix ids np x j hits" if "0 < j" for np j
    using law h x that unfolding law_search_def by metis
  show thesis
  proof (cases "pq_filter pq = []")
    case True
    let ?np = "fst (ivf_search_params qe fx ix (pq_nprobe pq) False)"
    obtain hits pad p where f: "fx_search fx ix ?np x (pq_top_k pq) = Inr (hits @ replicate pad (p, -1))"
      "length hits + pad = nat (pq_top_k pq)" "hits_ok fx ix ids ?np x (pq_top_k pq) hits"
      using search[OF k] by blast
    have "\<forall>n \<in> snd ` set hits. n \<noteq> -1" using f(3) pos unfolding hits_ok_def by blast
    then have "run_faiss_search qe fx ix sc x (pq_top_k pq) (pq_filter pq) (pq_nprobe pq) = Inr (map (hit_match sc) hits)"
      using True f(1) map_padded_hits[OF f(2)] by (simp add: run_faiss_search_def)
    moreover have "covers fx ix ?np" using np True by (simp add: probes_all_def)
    moreover have "filter (\<lambda>m. metadata_matches_filter (m_metadata m) (pq_filter pq)) xs = xs" for xs :: "rat match list"
      using True by (simp add: filter_id_conv)
    ultimately show thesis using that[of "map (hit_match sc) hits"] top_of_hits[OF f(3) _ h(2,1), of sc] by simp
  next
    case False
    let ?np = "fst (ivf_search_params qe fx ix None True)"
    let ?j = "if fx_ntotal fx ix \<noteq> 0 then fx_ntotal fx ix else pq_top_k pq"
    have nt: "fx_ntotal fx ix = int (length ids)" using h(1) by (simp add: holds_def)
    have j: "0 < ?j" using k nt by auto
    obtain hits pad p where f: "fx_search fx ix ?np x ?j = Inr (hits @ replicate pad (p, -1))"
      "length hits + pad = nat ?j" "hits_ok fx ix ids ?np x ?j hits"
      using search[OF j] by blast
    have "\<forall>n \<in> snd ` set hits. n \<noteq> -1" using f(3) pos unfolding hits_ok_def by blast
    note m = map_padded_hits[OF f(2) this]
    have top: "top_of (map (id_match fx ix sc x) ids) ?j (map (hit_match sc) hits)"
      by (rule top_of_hits[OF f(3) covers_full h(2,1)])
    have len: "length hits = length ids" using f(3) covers_full[of fx ix qe None] nt by (auto simp: hits_ok_def)
    have all: "mset (map (hit_match sc) hits) = mset (map (id_match fx ix sc x) ids)"
    proof (rule ccontr)
      assume "\<not> ?thesis"
      then have "mset (map (hit_match sc) hits) \<subset># mset (map (id_match fx ix sc x) ids)"
        using top by (simp add: top_of_def subset_mset.less_le)
      from mset_subset_size[OF this] len show False by simp
    qed
    have "run_faiss_search qe fx ix sc x (pq_top_k pq) (pq_filter pq) (pq_nprobe pq) =
        Inr (take (nat (pq_top_k pq)) (filter (\<lambda>m. metadata_matches_filter (m_metadata m) (pq_filter pq)) (map (hit_match sc) hits)))"
      using False f(1) m by (simp add: run_faiss_search_def Let_def split del: if_split)
    moreover have "sorted (map m_score (map (hit_match sc) hits))" using top unfolding top_of_def by blast
    ultimately show thesis using that top_of_filter[OF _ all] by metis
  qed
qed

section \<open>The union\<close>

lemma mset_take_le: "mset (take n xs) \<subseteq># mset xs"
  using mset_subset_eq_add_left[of "mset (take n xs)" "mset (drop n xs)"] by (simp flip: mset_append)

lemma top_of_by_scores:
  assumes sub: "mset ms \<subseteq># mset cs" and sc: "map m_score ms = take (nat k) (sort (map m_score cs))"
  shows "top_of cs k ms"
proof -
  let ?all = "sort (map m_score cs)"
  have "m_score y \<in> set (drop (nat k) ?all)" if "y \<in># mset cs - mset ms" for y
  proof -
    have "image_mset m_score (mset cs - mset ms) = mset ?all - mset (take (nat k) ?all)"
      using sub sc by (simp add: image_mset_Diff flip: mset_map)
    then have "image_mset m_score (mset cs - mset ms) = mset (drop (nat k) ?all)" by (simp only: mset_minus_take)
    then have "m_score y \<in># mset (drop (nat k) ?all)" using that by (metis imageI set_image_mset)
    then show ?thesis by simp
  qed
  moreover have "m_score x \<in> set (take (nat k) ?all)" if "x \<in> set ms" for x using that by (simp flip: sc)
  ultimately have "m_score x \<le> m_score y" if "x \<in> set ms" "y \<in># mset cs - mset ms" for x y
    using take_sorted_le[of "\<lambda>x. x" ?all] that by fastforce
  moreover have "length ms = min (nat k) (length cs)" using arg_cong[OF sc, of length] by (simp add: min.commute)
  moreover have "sorted (map m_score ms)" unfolding sc by (rule sorted_wrt_take) simp
  ultimately show ?thesis using sub by (simp add: top_of_def)
qed

lemma sort_key_scores: "map m_score (sort_key m_score xs) = sort (map m_score xs)"
  by (rule properties_for_sort[symmetric]) simp_all

text \<open>Dropping the suppressed ids from a shard's list leaves the top of the rest, a shorter one.\<close>

lemma top_of_unsuppressed:
  fixes hid :: "vid set"
  assumes top: "top_of cs k ms"
  defines "P \<equiv> \<lambda>m. m_id m \<notin> hid"
  shows "top_of (filter P cs) (int (length (filter P ms))) (filter P ms) \<and>
    (nat k - length (filter (\<lambda>m. \<not> P m) cs) \<le> length (filter P ms) \<or> length (filter P cs) = length (filter P ms))"
proof -
  have sub: "mset ms \<subseteq># mset cs" and len: "length ms = min (nat k) (length cs)" using top by (simp_all add: top_of_def)
  have rest: "mset (filter P cs) - mset (filter P ms) = filter_mset P (mset cs - mset ms)" using sub by simp
  have "m_score x \<le> m_score y" if x: "x \<in> set (filter P ms)" and y: "y \<in># mset (filter P cs) - mset (filter P ms)" for x y
  proof -
    have "y \<in># filter_mset P (mset cs - mset ms)" using y unfolding rest .
    then have "y \<in># mset cs - mset ms" by (rule mset_subset_eqD[OF multiset_filter_subset])
    then show ?thesis using top x unfolding top_of_def by auto
  qed
  then have "\<forall>x \<in> set (filter P ms). \<forall>y \<in># mset (filter P cs) - mset (filter P ms). m_score x \<le> m_score y" by blast
  moreover have fsub: "mset (filter P ms) \<subseteq># mset (filter P cs)" using sub by (simp add: multiset_filter_mono)
  moreover have "length (filter P ms) \<le> length (filter P cs)" using size_mset_mono[OF fsub] by (simp only: size_mset)
  moreover have "sorted (map m_score (filter P ms))" using top by (simp add: top_of_def sorted_wrt_map sorted_wrt_filter)
  ultimately have t: "top_of (filter P cs) (int (length (filter P ms))) (filter P ms)" by (simp add: top_of_def)
  show ?thesis
  proof (cases "nat k \<le> length cs")
    case True
    have "mset (filter (\<lambda>m. \<not> P m) ms) \<subseteq># mset (filter (\<lambda>m. \<not> P m) cs)" using sub by (simp add: multiset_filter_mono)
    from size_mset_mono[OF this] have "length (filter (\<lambda>m. \<not> P m) ms) \<le> length (filter (\<lambda>m. \<not> P m) cs)"
      by (simp only: size_mset)
    moreover have "length (filter P ms) + length (filter (\<lambda>m. \<not> P m) ms) = nat k"
      using sum_length_filter_compl[of P ms] len True by simp
    ultimately show ?thesis using t by linarith
  next
    case False
    have "mset ms = mset cs"
    proof (rule ccontr)
      assume "mset ms \<noteq> mset cs"
      then have "mset ms \<subset># mset cs" using sub by (simp add: subset_mset.less_le)
      from mset_subset_size[OF this] len False show False by simp
    qed
    then have "mset (filter P ms) = mset (filter P cs)" by simp
    then have "length (filter P cs) = length (filter P ms)" by (metis size_mset)
    then show ?thesis using t by blast
  qed
qed

text \<open>
  The union of two top-k lists, with the suppressed ids dropped from the second: the true top of the
  union, except that each suppressed candidate of the second list may cost one place at the end.
\<close>

lemma merge_top:
  fixes hid :: "vid set"
  assumes r: "top_of rs k rk" and c: "top_of cs k ck"
  defines "live \<equiv> filter (\<lambda>m. m_id m \<notin> hid) cs" and "lost \<equiv> length (filter (\<lambda>m. m_id m \<in> hid) cs)"
    and "ms \<equiv> merge_recall_and_consolidated hid rk ck k"
  shows "top_of (rs @ live) (int (nat k - lost)) (take (nat k - lost) ms)" and "mset ms \<subseteq># mset (rs @ live)"
    and "sorted (map m_score ms)" and "int (length ms) \<le> max 0 k"
proof -
  let ?f = "filter (\<lambda>m. m_id m \<notin> hid) ck"
  have lost: "length (filter (\<lambda>m. \<not> m_id m \<notin> hid) cs) = lost" by (simp add: lost_def)
  have f: "top_of live (int (length ?f)) ?f" "nat k - lost \<le> length ?f \<or> length live = length ?f"
    using top_of_unsuppressed[OF c, of hid] unfolding live_def[symmetric] lost by auto
  have m: "ms = take (nat k) (sort_key m_score (rk @ ?f))" by (simp add: ms_def merge_recall_and_consolidated_def)
  have sc: "map m_score ms = take (nat k) (sort (map m_score rk @ map m_score ?f))"
    unfolding m take_map[symmetric] sort_key_scores map_append ..
  have "mset rk \<subseteq># mset rs" "mset ?f \<subseteq># mset live" using r f(1) unfolding top_of_def by blast+
  then have parts: "mset (rk @ ?f) \<subseteq># mset (rs @ live)" unfolding mset_append by (rule subset_mset.add_mono)
  have "mset ms \<subseteq># mset (rk @ ?f)"
    unfolding ms_def merge_recall_and_consolidated_def
    using mset_take_le[of "nat k" "sort_key m_score (rk @ ?f)"] by simp
  from subset_mset.order_trans[OF this parts] show sub: "mset ms \<subseteq># mset (rs @ live)" .
  show "sorted (map m_score ms)" unfolding sc by (rule sorted_wrt_take) simp
  show "int (length ms) \<le> max 0 k" using arg_cong[OF sc, of length] by simp
  let ?n = "nat k - lost"
  have "map m_score (take ?n ms) = take ?n (sort (take (nat k) (sort (map m_score rs)) @ take (length ?f) (sort (map m_score live))))"
    using top_of_scores[OF r] top_of_scores[OF f(1)] by (simp add: sc take_map[symmetric] min_def)
  also have "\<dots> = take ?n (sort (sort (map m_score rs) @ sort (map m_score live)))"
    by (rule take_sort_prefixes) (use f(2) in auto)
  also have "sort (sort (map m_score rs) @ sort (map m_score live)) = sort (map m_score (rs @ live))"
    by (rule properties_for_sort[symmetric]) simp_all
  finally have "map m_score (take ?n ms) = take (nat (int ?n)) (sort (map m_score (rs @ live)))" by simp
  moreover have "mset (take ?n ms) \<subseteq># mset ms" by (rule mset_take_le)
  then have "mset (take ?n ms) \<subseteq># mset (rs @ live)" using sub by (rule subset_mset.order_trans)
  ultimately show "top_of (rs @ live) (int ?n) (take ?n ms)" by (rule top_of_by_scores[rotated])
qed

end
