(* ===== verification/Query_Properties.thy ===== *)
theory Query_Properties
  imports Query_Correct Build_Properties
begin

text \<open>
  What a query promises: the answer of \<open>run_query\<close> against the documents a reader sees, and the
  requests \<open>validate_query_body\<close> lets through.
\<close>

section \<open>The candidates of the cold tier\<close>



lemma ix_docs_stored:
  assumes "ix_ok env fx dm ix sc ids" and "ix_docs env fx ix sc i = Some (v, md)"
  shows "id64 env i \<in> set ids \<and> dget sc (id64 env i) = Some (i, md) \<and> fx_reconstruct fx ix (id64 env i) = Inr v"
  using assms by (auto simp: ix_ok_def holds_def ix_docs_def entry_docs_def doc_at_def split: option.splits if_splits sum.splits)


section \<open>The caches of a replica\<close>

text \<open>
  What the caches hold for the catalog's shards is what the bucket holds: a loaded entry is the
  shard's index and sidecar, a local file is the shard's object.
\<close>

definition dp_ok :: "'i qenv \<Rightarrow> 'i bucket \<Rightarrow> shard set \<Rightarrow> 'i dp \<Rightarrow> bool" where
  "dp_ok qe b S d \<longleftrightarrow> dkeys_ok (rc_entries (dp_ram d)) \<and>
     (\<forall>s \<in> S. \<forall>ix sc n. dget (rc_entries (dp_ram d)) (sh_id s) = Some (ix, sc, n) \<longrightarrow>
        dget b (sh_uri s) = Some (IndexB ix) \<and> sc = read_shard_sidecar (be_down (qe_b qe)) b (sh_uri s)) \<and>
     (\<forall>s \<in> S. \<forall>x. dget (t_files (dp_disk d)) (qe_dir qe @ ''/'' @ local_name (sh_uri s)) = Some x \<longrightarrow> dget b (sh_uri s) = Some x)"

definition names_apart :: "shard set \<Rightarrow> bool" where
  "names_apart S \<longleftrightarrow> inj_on sh_id S \<and> inj_on (\<lambda>s. local_name (sh_uri s)) S"

lemma dp_ok_listing [simp]: "dp_ok qe b S (d\<lparr>dp_listing := x\<rparr>) = dp_ok qe b S d"
  by (simp add: dp_ok_def)




section \<open>The answer\<close>










section \<open>A replica in front of a deleted document\<close>

definition demo_qe :: "list_index qenv" where
  "demo_qe = \<lparr>qe_b = demo_benv, qe_sqdist = sq_dist, qe_dst = (\<lambda>_ _. 0), qe_sq = (\<lambda>x. x), qe_env_nprobe = 8,
     qe_ram = \<lparr>rc_env_bytes = 1000, rc_env_size = 16, rc_mmap = False, rc_serialized = (\<lambda>ix. Some 10),
       rc_json_len = (\<lambda>sc. int (length sc))\<rparr>,
     qe_tier = None, qe_dir = ''/tmp'', qe_size = (\<lambda>_. 10), qe_freshness = 0, qe_result_topic = ''R''\<rparr>"

definition empty_dp :: "list_index dp" where
  "empty_dp = \<lparr>dp_ram = \<lparr>rc_entries = [], rc_bytes = 0, rc_warned = []\<rparr>,
     dp_disk = \<lparr>t_res = [], t_used = 0, t_files = []\<rparr>, dp_listing = \<lparr>cx_entries = [], cx_gen = []\<rparr>\<rparr>"

definition query_world :: "list_index world" where
  "query_world = sys_delete demo_benv shard_world demo_key 10 ''a'' 1"

definition demo_query :: "int \<Rightarrow> parsed_query" where
  "demo_query n = \<lparr>pq_dataset = snd demo_key, pq_vector = [Fin 1], pq_top_k = n, pq_nprobe = None, pq_filter = []\<rparr>"

lemma query_frame [simp]: "w_cat query_world = w_cat shard_world" "w_bucket query_world = w_bucket shard_world"
  by (simp_all add: query_world_def sys_delete_def)

lemma demo_qe_simps [simp]: "qe_b demo_qe = demo_benv" "qe_tier demo_qe = None" "qe_sqdist demo_qe = sq_dist"
  by (simp_all add: demo_qe_def)

lemma demo_query_simps [simp]: "pq_dataset (demo_query n) = snd demo_key" "pq_vector (demo_query n) = [Fin 1]"
  "pq_top_k (demo_query n) = n" "pq_nprobe (demo_query n) = None" "pq_filter (demo_query n) = []"
  by (simp_all add: demo_query_def)

lemma shard_world_docs:
  "cold_docs demo_benv list_faiss shard_world demo_key i =
    (if i = ''a'' then Some ([Fin 1], []) else if i = ''b'' then Some ([Fin 2], []) else None)"
proof (cases "cold_docs demo_benv list_faiss shard_world demo_key i")
  case None
  then show ?thesis using shard_world_cold by (metis option.distinct(1))
next
  case (Some d)
  obtain v md where d: "d = (v, md)" by (cases d)
  have "ix_ok demo_benv list_faiss 1 old_index old_sidecar [97, 98]" using shard_world_stored by (simp add: stored_def)
  from ix_docs_stored[OF this, of i v md] Some d
  have "i = ''a'' \<or> i = ''b''"
    unfolding cold_docs_stored[OF demo_online shard_world_latest shard_world_stored] by (auto simp: old_sidecar_def split: if_splits)
  then show ?thesis using shard_world_cold by auto
qed

lemma query_look: "\<exists>c. c_deleted c \<and> c_lsn c = 1 \<and>
    (\<forall>i. look_of demo_benv query_world demo_key i = (if i = ''a'' then Some c else None))"
proof -
  have r: "w_recall shard_world = no_recall" by (simp add: shard_world_def)
  have none: "rs_look demo_env mem_cfg no_recall demo_key j = None" for j
    using empty_world_look[of demo_key j] by (simp add: look_of_def)
  have top: "rs_top mem_cfg no_recall demo_key = 0"
    by (simp add: rs_top_def mem_cfg_def use_memory_backend_def mem_top_def no_recall_def dget_or_def)
  obtain c where c: "rs_look demo_env mem_cfg (w_recall query_world) demo_key ''a'' = Some c" "c_deleted c" "c_lsn c = 1"
    using rs.delete_hit[OF no_recall_ok, where i = "''a''" and k = demo_key] top
    by (force simp: query_world_def sys_delete_def r)
  have "rs_look demo_env mem_cfg (w_recall query_world) demo_key j = None" if "j \<noteq> ''a''" for j
    using rs.delete_miss[OF no_recall_ok that] none by (simp add: query_world_def sys_delete_def r)
  with c show ?thesis by (intro exI[of _ c]) (simp add: look_of_def)
qed



lemma query_side:
  "plain_tier demo_benv list_faiss 1 query_world demo_key" "rs_ok demo_env mem_cfg (w_recall query_world)"
  "names_apart (set (list_shards (w_cat query_world) demo_key))"
  "dp_ok demo_qe (w_bucket query_world) (set (list_shards (w_cat query_world) demo_key)) empty_dp"
proof -
  have "w_recall query_world = snd (recall_delete_vector demo_env mem_cfg no_recall demo_key 10 ''a'' 1)"
    by (simp add: query_world_def sys_delete_def shard_world_def)
  then show "rs_ok demo_env mem_cfg (w_recall query_world)" using rs.delete_ok[OF no_recall_ok] by simp
  show "plain_tier demo_benv list_faiss 1 query_world demo_key" using shard_world_tier by (simp add: plain_tier_def)
qed (simp_all add: shard_world_list names_apart_def dp_ok_def empty_dp_def dkeys_ok_def)

lemma query_recall:
  "recall_search demo_env mem_cfg sq_dist (qe_dst demo_qe) (qe_sq demo_qe) None (w_recall query_world) demo_key [Fin 1] 1 0 (Some []) =
    Inr ({''a''}, [])"
proof -
  obtain c where c: "c_deleted c" "c_lsn c = 1" "\<And>i. look_of demo_benv query_world demo_key i = (if i = ''a'' then Some c else None)"
    using query_look by blast
  have lk: "rs_look demo_env mem_cfg (w_recall query_world) demo_key i = (if i = ''a'' then Some c else None)" for i
    using c(3) by (simp add: look_of_def)
  have mem: "use_memory_backend mem_cfg" by (simp add: use_memory_backend_def mem_cfg_def)
  then obtain hid ms where r: "recall_search demo_env mem_cfg sq_dist (qe_dst demo_qe) (qe_sq demo_qe) None (w_recall query_world) demo_key
      [Fin 1] 1 0 (Some []) = Inr (hid, ms)" by (simp add: recall_search_def) (metis surj_pair)
  have sr: "search_result (sq_dist [Fin 1]) (rs_look demo_env mem_cfg (w_recall query_world) demo_key) 1 0 (meta_or (Some [])) (hid, ms)"
    by (rule recall_search_result[OF query_side(2) disjI1[OF mem] r])
  have "hid = {''a''}" using search_result_fst[OF sr] c(2) by (auto simp: lk split: if_splits)
  moreover have "ms = []" using sr c(1) by (auto simp: search_result_def cand_set_def lk top_of_def split: if_splits)
  ultimately show ?thesis using r by simp
qed

text \<open>The nearest document is deleted: with \<open>top_k\<close> 1 the other, live one is not answered.\<close>

lemma deleted_neighbour_hides_live:
  "fst (run_query demo_qe list_faiss query_world empty_dp (fst demo_key) (demo_query 1) None 20 demo_fresh) = QMatches [] ''cold''"
  "reader demo_benv list_faiss query_world demo_key ''b'' = Some ([Fin 2], [])"
proof -
  have r: "resolve_shard demo_qe empty_dp (w_cat shard_world) demo_key 20 = (Some (OneShard old_shard), empty_dp)"
    by (simp add: resolve_shard_def cached_list_shards_def shard_world_list empty_dp_def)
  have "\<exists>d. load_shard demo_qe list_faiss (w_bucket shard_world) empty_dp old_shard 20 = (Inr (old_index, old_sidecar, True), d)"
    by (simp add: load_shard_def cache_get_def empty_dp_def ensure_cached_def shard_world_def old_shard_def
      has_scheme_def starts_with_def download_to_def read_local_def Let_def read_shard_sidecar_def sidecar_uri_def read_bytes_def)
  then obtain d where l: "load_shard demo_qe list_faiss (w_bucket shard_world) empty_dp old_shard 20 = (Inr (old_index, old_sidecar, True), d)" by blast
  have f: "run_faiss_search demo_qe list_faiss old_index old_sidecar [Fin 1] 1 [] None = Inr [\<lparr>m_id = ''a'', m_score = 0, m_metadata = []\<rparr>]"
    by (simp add: run_faiss_search_def list_faiss_def old_index_def Let_def map_hits_to_matches_def hit_match_def old_sidecar_def)
  have lsn: "sh_lsn old_shard = 0" by (simp add: old_shard_def)
  show "fst (run_query demo_qe list_faiss query_world empty_dp (fst demo_key) (demo_query 1) None 20 demo_fresh) = QMatches [] ''cold''"
    using l f query_recall
    by (simp add: run_query_def Let_def r search_consolidated_shard_def search_one_shard_def query_watermark_def watermark_for_shard_def lsn
      demo_recall_enabled tombstone_suppress_ids_def merge_recall_and_consolidated_def mode_of_def)
  have "cold_docs demo_benv list_faiss query_world demo_key ''b'' = Some ([Fin 2], [])"
    unfolding cold_docs_def query_frame using shard_world_docs[of "''b''", unfolded cold_docs_def] by simp
  then show "reader demo_benv list_faiss query_world demo_key ''b'' = Some ([Fin 2], [])"
    using query_look by (auto simp: reader_def overlay_def)
qed


section \<open>Accepted requests\<close>

text \<open>
  What a request must be: an object naming a dataset of the tenant, with a vector of numbers of its
  dimension that fit a double, and optional fields in their ranges (null counts as absent).
\<close>

definition field :: "meta \<Rightarrow> string \<Rightarrow> json" where
  "field b key = (case dget b key of None \<Rightarrow> JNull | Some v \<Rightarrow> v)"

definition accepted_body :: "catalog \<Rightarrow> tenant \<Rightarrow> json \<Rightarrow> parsed_query \<Rightarrow> bool" where
  "accepted_body c t body pq \<longleftrightarrow> (\<exists>b row vs. body = JObj b \<and>
     field b ''dataset'' = JStr (pq_dataset pq) \<and> pq_dataset pq \<noteq> [] \<and> get_dataset c (t, pq_dataset pq) = Some row \<and>
     field b ''vector'' = JList vs \<and> list_all is_number vs \<and> int (length vs) = d_dimension row \<and> floats_of vs = Inr (pq_vector pq) \<and>
     field b ''top_k'' \<in> (if pq_top_k pq = DEFAULT_TOP_K then {JNull, JInt DEFAULT_TOP_K} else {JInt (pq_top_k pq)}) \<and>
     1 \<le> pq_top_k pq \<and> pq_top_k pq \<le> MAX_TOP_K \<and>
     (case pq_nprobe pq of None \<Rightarrow> field b ''nprobe'' = JNull
        | Some n \<Rightarrow> field b ''nprobe'' = JInt n \<and> 1 \<le> n \<and> n \<le> MAX_NPROBE) \<and>
     field b ''filter'' \<in> (if pq_filter pq = [] then {JNull, JObj []} else {JObj (pq_filter pq)}) \<and>
     list_all (scalar \<circ> snd) (pq_filter pq))"

lemma top_k_of_iff:
  "top_k_of b = Some n \<longleftrightarrow> field b ''top_k'' \<in> (if n = DEFAULT_TOP_K then {JNull, JInt DEFAULT_TOP_K} else {JInt n}) \<and> 1 \<le> n \<and> n \<le> MAX_TOP_K"
  by (auto simp: top_k_of_def get_or_def field_def DEFAULT_TOP_K_def MAX_TOP_K_def split: option.splits json.splits if_splits)

lemma nprobe_of_iff:
  "nprobe_of b = Inr np \<longleftrightarrow> (case np of None \<Rightarrow> field b ''nprobe'' = JNull
    | Some n \<Rightarrow> field b ''nprobe'' = JInt n \<and> 1 \<le> n \<and> n \<le> MAX_NPROBE)"
  by (auto simp: nprobe_of_def get_or_def field_def MAX_NPROBE_def split: option.splits json.splits if_splits)

lemma filter_of_iff:
  "filter_of b = Inr flt \<longleftrightarrow> field b ''filter'' \<in> (if flt = [] then {JNull, JObj []} else {JObj flt}) \<and> list_all (scalar \<circ> snd) flt"
  by (auto simp: filter_of_def get_or_def field_def split: option.splits json.splits if_splits)

lemma accepted_parts:
  "validate_query_body c t body = Inr (Inr pq) \<longleftrightarrow> (\<exists>b row vs. body = JObj b \<and>
     dget b ''dataset'' = Some (JStr (pq_dataset pq)) \<and> pq_dataset pq \<noteq> [] \<and> get_dataset c (t, pq_dataset pq) = Some row \<and>
     dget b ''vector'' = Some (JList vs) \<and> list_all is_number vs \<and> int (length vs) = d_dimension row \<and> floats_of vs = Inr (pq_vector pq) \<and>
     top_k_of b = Some (pq_top_k pq) \<and> nprobe_of b = Inr (pq_nprobe pq) \<and> filter_of b = Inr (pq_filter pq))"
  unfolding validate_query_body_def
  by (cases pq) (auto split: option.splits json.splits if_splits sum.splits)

lemma field_dget: "x \<noteq> JNull \<Longrightarrow> field b key = x \<longleftrightarrow> dget b key = Some x"
  by (auto simp: field_def split: option.split)

lemma floats_overflow:
  "floats_of vs = Inl e \<Longrightarrow> list_all is_number vs \<Longrightarrow> e = OverflowError \<and> (\<exists>n. JInt n \<in> set vs \<and> float_of_int n = Inl OverflowError)"
proof (induction vs rule: floats_of.induct)
  case (2 x xs)
  show ?case
  proof (cases x)
    case (JInt n)
    show ?thesis
    proof (cases "float_of_int n")
      case (Inl e')
      then have "e' = OverflowError" by (auto simp: float_of_int_def Let_def split: if_splits)
      then show ?thesis using 2 JInt Inl by auto
    next
      case (Inr f)
      then show ?thesis using 2 JInt by (auto split: sum.splits)
    qed
  qed (use 2 in \<open>auto split: sum.splits\<close>)
qed simp

lemma accepted_iff: "validate_query_body c t body = Inr (Inr pq) \<longleftrightarrow> accepted_body c t body pq"
  unfolding accepted_parts accepted_body_def top_k_of_iff nprobe_of_iff filter_of_iff by (simp add: field_dget)

definition refused :: "json \<Rightarrow> pyexc + response \<Rightarrow> bool" where
  "refused body r \<longleftrightarrow> (case r of
      Inl e \<Rightarrow> e = OverflowError \<and> (\<exists>b vs n. body = JObj b \<and> field b ''vector'' = JList vs \<and> JInt n \<in> set vs \<and>
        float_of_int n = Inl OverflowError)
    | Inr resp \<Rightarrow> fst resp \<in> {400, 404})"

lemma rejected_status:
  "case validate_query_body c t body of
      Inl e \<Rightarrow> refused body (Inl e) | Inr (Inl r) \<Rightarrow> refused body (Inr r) | Inr (Inr _) \<Rightarrow> True"
proof -
  have np: "fst r = 400" if "nprobe_of b = Inl r" for b r
    using that by (auto simp: nprobe_of_def error_envelope_def split: json.splits if_splits)
  have flt: "fst r = 400" if "filter_of b = Inl r" for b r
    using that by (auto simp: filter_of_def error_envelope_def split: json.splits if_splits)
  show ?thesis
    unfolding validate_query_body_def refused_def
    by (auto simp: error_envelope_def field_dget dest: np flt floats_overflow split: option.splits json.splits if_splits sum.splits)
qed

text \<open>
  C32. The query endpoint accepts exactly the well-formed requests and passes them on unchanged: the
  parsed query holds the dataset, the vector as floats, \<open>top_k\<close> (10 when absent) in 1..1000, \<open>nprobe\<close>
  in 1..1024 or none, and a filter of scalars. Every other request is answered with status 400 or 404;
  only an integer coordinate beyond the double range makes the validation raise.
\<close>

theorem validation_accepts_exactly:
  "(validate_query_body c t body = Inr (Inr pq) \<longleftrightarrow> accepted_body c t body pq) \<and>
   (case validate_query_body c t body of
      Inl e \<Rightarrow> refused body (Inl e) | Inr (Inl r) \<Rightarrow> refused body (Inr r) | Inr (Inr _) \<Rightarrow> True)"
  using accepted_iff rejected_status by blast

section \<open>The watermark of a layered read\<close>

lemma frontier_covered:
  assumes "\<forall>s \<in> set ss. sh_lo s \<le> sh_hi s + 1" and "f < n" and "n \<le> extend_frontier f ss"
  shows "\<exists>s \<in> set ss. sh_lo s \<le> n \<and> n \<le> sh_hi s"
  using assms
proof (induction ss arbitrary: f)
  case (Cons s ss)
  show ?case
  proof (cases "n \<le> sh_hi s")
    case True
    then show ?thesis using Cons.prems by (auto split: if_splits)
  next
    case False
    then show ?thesis using Cons.prems Cons.IH[of "sh_hi s"] by (auto split: if_splits)
  qed
qed simp

lemma frontier_grows: "\<forall>s \<in> set ss. sh_lo s \<le> sh_hi s + 1 \<Longrightarrow> f \<le> extend_frontier f ss"
proof (induction ss arbitrary: f)
  case (Cons s ss)
  then have "sh_hi s \<le> extend_frontier (sh_hi s) ss" by simp
  then show ?case using Cons.prems by auto
qed simp

lemma frontier_stops:
  assumes "sorted_wrt (\<lambda>a b. sh_hi a < sh_lo b) ss" and "\<forall>s \<in> set ss. sh_lo s \<le> sh_hi s \<and> f < sh_lo s"
  shows "\<forall>s \<in> set ss. \<not> (sh_lo s \<le> extend_frontier f ss + 1 \<and> extend_frontier f ss + 1 \<le> sh_hi s)"
  using assms
proof (induction ss arbitrary: f)
  case (Cons s ss)
  show ?case
  proof (cases "sh_lo s = f + 1")
    case True
    have "sh_hi s \<le> extend_frontier (sh_hi s) ss" by (rule frontier_grows) (use Cons.prems in auto)
    then show ?thesis using True Cons.IH[of "sh_hi s"] Cons.prems by auto
  next
    case False
    have "sh_lo s \<le> sh_lo x" if "x \<in> set ss" for x using that Cons.prems by force
    then show ?thesis using False Cons.prems by force
  qed
qed simp

definition base_frontier :: "shard \<Rightarrow> int" where
  "base_frontier s = (if sh_hi s \<le> 0 then sh_lsn s else sh_hi s)"

text \<open>
  C33. The watermark of a layered read never claims a log position no layer holds: it is at least the
  base's, every position between the base's and it lies in the range of a delta, and when the ranges
  of the deltas are apart and above the base, the position after it lies in none. So a recall row at
  or below the watermark is in a layer that the query reads, and a row in a gap is served by recall.
\<close>

theorem frontier_skips_nothing:
  assumes "sort_key (\<lambda>s. (sh_lo s, sh_id s)) shards = base # deltas" and "list_all (\<lambda>s. sh_lo s \<le> sh_hi s) deltas"
  shows "base_frontier base \<le> frontier_watermark shards \<and>
    (base_frontier base < n \<and> n \<le> frontier_watermark shards \<longrightarrow> list_ex (\<lambda>s. sh_lo s \<le> n \<and> n \<le> sh_hi s) deltas) \<and>
    (sorted_wrt (\<lambda>a b. sh_hi a < sh_lo b) deltas \<and> list_all (\<lambda>s. base_frontier base < sh_lo s) deltas \<longrightarrow>
      \<not> list_ex (\<lambda>s. sh_lo s \<le> frontier_watermark shards + 1 \<and> frontier_watermark shards + 1 \<le> sh_hi s) deltas)"
proof -
  have f: "frontier_watermark shards = extend_frontier (base_frontier base) deltas"
    using assms(1) by (simp add: frontier_watermark_def base_frontier_def)
  have le: "\<forall>s \<in> set deltas. sh_lo s \<le> sh_hi s + 1" using assms(2) by (auto simp: list_all_iff)
  show ?thesis
    unfolding f list_ex_iff list_all_iff
    using frontier_grows[OF le, of "base_frontier base"] frontier_covered[OF le, of "base_frontier base" n]
      frontier_stops[of deltas "base_frontier base"] assms(2) unfolding list_all_iff by blast
qed

definition demo_delta :: "int \<Rightarrow> int \<Rightarrow> int \<Rightarrow> shard" where
  "demo_delta i lo hi = old_shard\<lparr>sh_id := i, sh_level := 1, sh_lo := lo, sh_hi := hi\<rparr>"

text \<open>A base up to 4, deltas 5..7, 8..9 and, after a gap, 12..15.\<close>

theorem frontier_skips_nothing_witness:
  "let shards = [demo_delta 4 12 15, demo_delta 2 5 7, demo_delta 3 8 9, demo_delta 1 0 4] in
     frontier_watermark shards = 9 \<and> list_ex (\<lambda>s. sh_lo s \<le> 9 \<and> 9 \<le> sh_hi s) [demo_delta 2 5 7, demo_delta 3 8 9, demo_delta 4 12 15] \<and>
     \<not> list_ex (\<lambda>s. sh_lo s \<le> 10 \<and> 10 \<le> sh_hi s) [demo_delta 2 5 7, demo_delta 3 8 9, demo_delta 4 12 15]"
proof -
  let ?s = "[demo_delta 4 12 15, demo_delta 2 5 7, demo_delta 3 8 9, demo_delta 1 0 4]"
  have s: "sort_key (\<lambda>s. (sh_lo s, sh_id s)) ?s = demo_delta 1 0 4 # [demo_delta 2 5 7, demo_delta 3 8 9, demo_delta 4 12 15]"
    by (simp add: demo_delta_def)
  have f: "frontier_watermark ?s = 9" unfolding frontier_watermark_def s by (simp add: demo_delta_def)
  have b: "base_frontier (demo_delta 1 0 4) = 4" by (simp add: base_frontier_def demo_delta_def)
  show ?thesis
    using frontier_skips_nothing[OF s, of 9] unfolding f b by (simp add: demo_delta_def f[unfolded demo_delta_def])
qed

end
