(* ===== verification/Quota.thy ===== *)
theory Quota
  imports Errors
begin

text \<open>
  Tenants, quotas, API keys and the residency registry of the query replicas, \<open>adapters/state/quota.py\<close>,
  on both backends (\<open>mq_\<close>: the in-process one, \<open>pq_\<close>: the SQL statements). A date is a day number. The
  functions take the day they read, so a caller whose clock is behind another's is covered. The
  import jobs of the same module are in the theory \<open>World\<close>.
\<close>

section \<open>State\<close>

type_synonym day = int

record tenant_row =
  tn_email :: string
  tn_password :: string
  tn_plan :: string
  tn_vector_quota :: int
  tn_query_quota :: int
  tn_vectors :: int
  tn_queries :: int
  tn_reset :: day
  tn_pool :: "string option"
  tn_created :: time

record key_row =
  kr_id :: string
  kr_tenant :: tenant
  kr_hash :: string
  kr_name :: string
  kr_created :: time
  kr_last :: "time option"
  kr_revoked :: "time option"

text \<open>
  The dictionary by hash shares its rows with the key list, so it holds positions in the list. In
  SQL there is only the table: its unique columns are the email, the key id and the hash.
\<close>

record accounts =
  ac_tenants :: "(tenant, tenant_row) pdict"
  ac_emails :: "(string, tenant) pdict"
  ac_keys :: "key_row list"
  ac_hashes :: "(string, nat) pdict"
  ac_warm :: "(string \<times> uri, time \<times> time) pdict"

record usage =
  us_vectors :: int
  us_vector_quota :: int
  us_queries :: int
  us_query_quota :: int
  us_reset :: day

definition usage_from_row :: "tenant_row \<Rightarrow> usage" where
  "usage_from_row r = \<lparr>us_vectors = tn_vectors r, us_vector_quota = tn_vector_quota r,
     us_queries = tn_queries r, us_query_quota = tn_query_quota r, us_reset = tn_reset r\<rparr>"

definition set_tenant :: "accounts \<Rightarrow> tenant \<Rightarrow> tenant_row \<Rightarrow> accounts" where
  "set_tenant a t r = a\<lparr>ac_tenants := dset t r (ac_tenants a)\<rparr>"

definition not_found :: pyexc where
  "not_found = ValueError ''tenant_not_found''"

section \<open>Tenants and quotas in memory\<close>

definition new_tenant :: "string \<Rightarrow> string \<Rightarrow> int \<Rightarrow> int \<Rightarrow> day \<Rightarrow> time \<Rightarrow> string option \<Rightarrow> tenant_row" where
  "new_tenant email password vq qq today now pool =
     \<lparr>tn_email = email, tn_password = password, tn_plan = ''free'', tn_vector_quota = vq, tn_query_quota = qq,
      tn_vectors = 0, tn_queries = 0, tn_reset = today, tn_pool = pool, tn_created = now\<rparr>"

definition mq_create_tenant ::
  "accounts \<Rightarrow> tenant \<Rightarrow> string \<Rightarrow> string \<Rightarrow> int \<Rightarrow> int \<Rightarrow> day \<Rightarrow> time \<Rightarrow> (pyexc + tenant_row) \<times> accounts" where
  "mq_create_tenant a t email password vq qq today now =
     (if dget (ac_emails a) email \<noteq> None then (Inl (ValueError ''duplicate_email''), a)
      else (let r = new_tenant email password vq qq today now None
            in (Inr r, (set_tenant a t r)\<lparr>ac_emails := dset email t (ac_emails a)\<rparr>)))"

definition mq_get_tenant_by_email :: "accounts \<Rightarrow> string \<Rightarrow> (tenant \<times> tenant_row) option" where
  "mq_get_tenant_by_email a email =
     (case dget (ac_emails a) email of None \<Rightarrow> None | Some t \<Rightarrow> map_option (Pair t) (dget (ac_tenants a) t))"

definition get_tenant_by_id :: "accounts \<Rightarrow> tenant \<Rightarrow> tenant_row option" where
  "get_tenant_by_id a t = dget (ac_tenants a) t"

text \<open>\<open>row.get("dp_pool") or "shared"\<close>: the empty pool name also means the default.\<close>

definition mq_dp_pool :: "accounts \<Rightarrow> tenant \<Rightarrow> string" where
  "mq_dp_pool a t =
     (case dget (ac_tenants a) t of
        None \<Rightarrow> ''shared''
      | Some r \<Rightarrow> (case tn_pool r of None \<Rightarrow> ''shared'' | Some p \<Rightarrow> if p = [] then ''shared'' else p))"

definition mem_reset_locked :: "tenant_row \<Rightarrow> day \<Rightarrow> tenant_row" where
  "mem_reset_locked r today = (if tn_reset r < today then r\<lparr>tn_queries := 0, tn_reset := today\<rparr> else r)"

definition mq_reset_daily :: "accounts \<Rightarrow> tenant \<Rightarrow> day \<Rightarrow> accounts" where
  "mq_reset_daily a t today =
     (case dget (ac_tenants a) t of None \<Rightarrow> a | Some r \<Rightarrow> set_tenant a t (mem_reset_locked r today))"

definition mq_get_usage :: "accounts \<Rightarrow> tenant \<Rightarrow> day \<Rightarrow> (pyexc + usage) \<times> accounts" where
  "mq_get_usage a t today =
     (case dget (ac_tenants a) t of
        None \<Rightarrow> (Inl not_found, a)
      | Some r \<Rightarrow> let r1 = mem_reset_locked r today in (Inr (usage_from_row r1), set_tenant a t r1))"

definition mq_try_consume_query :: "accounts \<Rightarrow> tenant \<Rightarrow> day \<Rightarrow> (pyexc + bool \<times> usage) \<times> accounts" where
  "mq_try_consume_query a t today =
     (case dget (ac_tenants a) t of
        None \<Rightarrow> (Inl not_found, a)
      | Some r \<Rightarrow>
          let r1 = mem_reset_locked r today
          in if tn_queries r1 < tn_query_quota r1
             then (let r2 = r1\<lparr>tn_queries := tn_queries r1 + 1\<rparr> in (Inr (True, usage_from_row r2), set_tenant a t r2))
             else (Inr (False, usage_from_row r1), set_tenant a t r1))"

definition mq_try_consume_vectors :: "accounts \<Rightarrow> tenant \<Rightarrow> int \<Rightarrow> (pyexc + bool \<times> usage) \<times> accounts" where
  "mq_try_consume_vectors a t n =
     (case dget (ac_tenants a) t of
        None \<Rightarrow> (Inl not_found, a)
      | Some r \<Rightarrow>
          if tn_vectors r + n \<le> tn_vector_quota r
          then (let r2 = r\<lparr>tn_vectors := tn_vectors r + n\<rparr> in (Inr (True, usage_from_row r2), set_tenant a t r2))
          else (Inr (False, usage_from_row r), a))"

section \<open>Tenants and quotas in SQL\<close>

text \<open>\<open>UPDATE tenants SET .. WHERE id = t AND p RETURNING ..\<close>: the updated row, None when no row matches.\<close>

definition sql_update ::
  "accounts \<Rightarrow> tenant \<Rightarrow> (tenant_row \<Rightarrow> bool) \<Rightarrow> (tenant_row \<Rightarrow> tenant_row) \<Rightarrow> tenant_row option \<times> accounts" where
  "sql_update a t p f =
     (case dget (ac_tenants a) t of
        None \<Rightarrow> (None, a)
      | Some r \<Rightarrow> if p r then (Some (f r), set_tenant a t (f r)) else (None, a))"

definition pq_create_tenant ::
  "accounts \<Rightarrow> tenant \<Rightarrow> string \<Rightarrow> string \<Rightarrow> int \<Rightarrow> int \<Rightarrow> day \<Rightarrow> time \<Rightarrow> (pyexc + tenant_row) \<times> accounts" where
  "pq_create_tenant a t email password vq qq today now =
     (if dget (ac_tenants a) t \<noteq> None \<or> list_ex (\<lambda>(_, r). tn_email r = email) (ac_tenants a)
      then (Inl (ValueError ''duplicate_email''), a)
      else (let r = new_tenant email password vq qq today now (Some ''shared'') in (Inr r, set_tenant a t r)))"

definition pq_get_tenant_by_email :: "accounts \<Rightarrow> string \<Rightarrow> (tenant \<times> tenant_row) option" where
  "pq_get_tenant_by_email a email = find (\<lambda>(_, r). tn_email r = email) (ac_tenants a)"

definition pq_dp_pool :: "accounts \<Rightarrow> tenant \<Rightarrow> string" where
  "pq_dp_pool a t =
     (case dget (ac_tenants a) t of
        None \<Rightarrow> ''shared'' | Some r \<Rightarrow> (case tn_pool r of None \<Rightarrow> ''shared'' | Some p \<Rightarrow> p))"

definition sql_reset :: "day \<Rightarrow> accounts \<Rightarrow> tenant \<Rightarrow> accounts" where
  "sql_reset today a t = snd (sql_update a t (\<lambda>r. tn_reset r < today) (\<lambda>r. r\<lparr>tn_queries := 0, tn_reset := today\<rparr>))"

definition pq_reset_daily :: "accounts \<Rightarrow> tenant \<Rightarrow> day \<Rightarrow> accounts" where
  "pq_reset_daily a t today = sql_reset today a t"

definition pq_get_usage :: "accounts \<Rightarrow> tenant \<Rightarrow> day \<Rightarrow> (pyexc + usage) \<times> accounts" where
  "pq_get_usage a t today =
     (let (row, a1) = sql_update a t (\<lambda>_. True)
        (\<lambda>r. r\<lparr>tn_queries := (if tn_reset r < today then 0 else tn_queries r),
                 tn_reset := (if tn_reset r < today then today else tn_reset r)\<rparr>)
      in (case row of None \<Rightarrow> Inl not_found | Some r \<Rightarrow> Inr (usage_from_row r), a1))"

text \<open>The read-back after a conditional update that matched no row.\<close>

definition sql_snapshot :: "accounts \<Rightarrow> tenant \<Rightarrow> pyexc + bool \<times> usage" where
  "sql_snapshot a t =
     (case dget (ac_tenants a) t of None \<Rightarrow> Inl not_found | Some r \<Rightarrow> Inr (False, usage_from_row r))"

definition pq_try_consume_query :: "accounts \<Rightarrow> tenant \<Rightarrow> day \<Rightarrow> (pyexc + bool \<times> usage) \<times> accounts" where
  "pq_try_consume_query a t today =
     (let (row, a2) = sql_update (sql_reset today a t) t (\<lambda>r. tn_queries r < tn_query_quota r)
        (\<lambda>r. r\<lparr>tn_queries := tn_queries r + 1\<rparr>)
      in (case row of Some r \<Rightarrow> Inr (True, usage_from_row r) | None \<Rightarrow> sql_snapshot a2 t, a2))"

definition pq_try_consume_vectors :: "accounts \<Rightarrow> tenant \<Rightarrow> int \<Rightarrow> (pyexc + bool \<times> usage) \<times> accounts" where
  "pq_try_consume_vectors a t n =
     (let (row, a1) = sql_update a t (\<lambda>r. tn_vectors r + n \<le> tn_vector_quota r)
        (\<lambda>r. r\<lparr>tn_vectors := tn_vectors r + n\<rparr>)
      in (case row of Some r \<Rightarrow> Inr (True, usage_from_row r) | None \<Rightarrow> sql_snapshot a1 t, a1))"

section \<open>The facade\<close>

text \<open>\<open>_backend()\<close> chooses by \<open>_MEMORY_MODE\<close>, here the first argument.\<close>

definition create_tenant ::
  "bool \<Rightarrow> accounts \<Rightarrow> tenant \<Rightarrow> string \<Rightarrow> string \<Rightarrow> int \<times> int \<Rightarrow> day \<Rightarrow> time \<Rightarrow> (pyexc + tenant_row) \<times> accounts" where
  "create_tenant mem a t email password quotas today now =
     (let (vq, qq) = quotas
      in if mem then mq_create_tenant a t email password vq qq today now
         else pq_create_tenant a t email password vq qq today now)"

definition get_tenant_by_email :: "bool \<Rightarrow> accounts \<Rightarrow> string \<Rightarrow> (tenant \<times> tenant_row) option" where
  "get_tenant_by_email mem = (if mem then mq_get_tenant_by_email else pq_get_tenant_by_email)"

definition get_tenant_dp_pool :: "bool \<Rightarrow> accounts \<Rightarrow> tenant \<Rightarrow> string" where
  "get_tenant_dp_pool mem = (if mem then mq_dp_pool else pq_dp_pool)"

definition reset_daily_if_needed :: "bool \<Rightarrow> accounts \<Rightarrow> tenant \<Rightarrow> day \<Rightarrow> accounts" where
  "reset_daily_if_needed mem = (if mem then mq_reset_daily else pq_reset_daily)"

definition get_usage :: "bool \<Rightarrow> accounts \<Rightarrow> tenant \<Rightarrow> day \<Rightarrow> (pyexc + usage) \<times> accounts" where
  "get_usage mem = (if mem then mq_get_usage else pq_get_usage)"

definition try_consume_query :: "bool \<Rightarrow> accounts \<Rightarrow> tenant \<Rightarrow> day \<Rightarrow> (pyexc + bool \<times> usage) \<times> accounts" where
  "try_consume_query mem = (if mem then mq_try_consume_query else pq_try_consume_query)"

definition try_consume_vectors :: "bool \<Rightarrow> accounts \<Rightarrow> tenant \<Rightarrow> int \<Rightarrow> (pyexc + bool \<times> usage) \<times> accounts" where
  "try_consume_vectors mem a t n =
     (if n < 0 then (Inl (ValueError ''count must be non-negative''), a)
      else if mem then mq_try_consume_vectors a t n else pq_try_consume_vectors a t n)"

section \<open>API keys\<close>

definition new_key :: "string \<Rightarrow> tenant \<Rightarrow> string \<Rightarrow> string \<Rightarrow> time \<Rightarrow> key_row" where
  "new_key i t h name now =
     \<lparr>kr_id = i, kr_tenant = t, kr_hash = h, kr_name = name, kr_created = now, kr_last = None, kr_revoked = None\<rparr>"

text \<open>Update the first row with a property in place; None when there is none.\<close>

fun update_first :: "(key_row \<Rightarrow> bool) \<Rightarrow> (key_row \<Rightarrow> key_row) \<Rightarrow> key_row list \<Rightarrow> key_row list" where
  "update_first p f [] = []"
| "update_first p f (r # rs) = (if p r then f r # rs else r # update_first p f rs)"

definition mq_create_api_key :: "accounts \<Rightarrow> string \<Rightarrow> tenant \<Rightarrow> string \<Rightarrow> string \<Rightarrow> time \<Rightarrow> key_row \<times> accounts" where
  "mq_create_api_key a i t h name now =
     (new_key i t h name now,
      a\<lparr>ac_keys := ac_keys a @ [new_key i t h name now], ac_hashes := dset h (length (ac_keys a)) (ac_hashes a)\<rparr>)"

definition mq_list_api_keys :: "accounts \<Rightarrow> tenant \<Rightarrow> key_row list" where
  "mq_list_api_keys a t = filter (\<lambda>r. kr_tenant r = t) (ac_keys a)"

definition get_api_key :: "accounts \<Rightarrow> string \<Rightarrow> tenant \<Rightarrow> key_row option" where
  "get_api_key a i t = find (\<lambda>r. kr_id r = i \<and> kr_tenant r = t) (ac_keys a)"

definition mq_revoke_api_key :: "accounts \<Rightarrow> string \<Rightarrow> tenant \<Rightarrow> time \<Rightarrow> bool \<times> accounts" where
  "mq_revoke_api_key a i t now =
     (case get_api_key a i t of
        None \<Rightarrow> (False, a)
      | Some r \<Rightarrow>
          if kr_revoked r \<noteq> None then (False, a)
          else (True, a\<lparr>ac_keys := update_first (\<lambda>r. kr_id r = i \<and> kr_tenant r = t) (\<lambda>r. r\<lparr>kr_revoked := Some now\<rparr>) (ac_keys a)\<rparr>))"

definition mq_key_by_hash :: "accounts \<Rightarrow> string \<Rightarrow> key_row option" where
  "mq_key_by_hash a h = (case dget (ac_hashes a) h of None \<Rightarrow> None | Some p \<Rightarrow> Some (ac_keys a ! p))"

definition mq_touch :: "accounts \<Rightarrow> string \<Rightarrow> time \<Rightarrow> accounts" where
  "mq_touch a i now = a\<lparr>ac_keys := update_first (\<lambda>r. kr_id r = i) (\<lambda>r. r\<lparr>kr_last := Some now\<rparr>) (ac_keys a)\<rparr>"

text \<open>The table refuses a known id or hash and an unknown tenant.\<close>

definition pq_create_api_key ::
  "accounts \<Rightarrow> string \<Rightarrow> tenant \<Rightarrow> string \<Rightarrow> string \<Rightarrow> time \<Rightarrow> (pyexc + key_row) \<times> accounts" where
  "pq_create_api_key a i t h name now =
     (if list_ex (\<lambda>r. kr_id r = i \<or> kr_hash r = h) (ac_keys a) \<or> dget (ac_tenants a) t = None
      then (Inl (OtherError ''IntegrityError''), a)
      else (Inr (new_key i t h name now), a\<lparr>ac_keys := ac_keys a @ [new_key i t h name now]\<rparr>))"

definition pq_list_api_keys :: "accounts \<Rightarrow> tenant \<Rightarrow> key_row list" where
  "pq_list_api_keys a t = sort_key kr_created (filter (\<lambda>r. kr_tenant r = t) (ac_keys a))"

text \<open>\<open>UPDATE api_keys SET .. WHERE p\<close>: every matching row; the second result is the row count.\<close>

definition sql_update_keys :: "(key_row \<Rightarrow> bool) \<Rightarrow> (key_row \<Rightarrow> key_row) \<Rightarrow> accounts \<Rightarrow> nat \<times> accounts" where
  "sql_update_keys p f a =
     (length (filter p (ac_keys a)), a\<lparr>ac_keys := map (\<lambda>r. if p r then f r else r) (ac_keys a)\<rparr>)"

definition pq_revoke_api_key :: "accounts \<Rightarrow> string \<Rightarrow> tenant \<Rightarrow> time \<Rightarrow> bool \<times> accounts" where
  "pq_revoke_api_key a i t now =
     (let (n, a1) = sql_update_keys (\<lambda>r. kr_id r = i \<and> kr_tenant r = t \<and> kr_revoked r = None)
        (\<lambda>r. r\<lparr>kr_revoked := Some now\<rparr>) a
      in (n > 0, a1))"

definition pq_key_by_hash :: "accounts \<Rightarrow> string \<Rightarrow> key_row option" where
  "pq_key_by_hash a h = find (\<lambda>r. kr_hash r = h) (ac_keys a)"

definition pq_touch :: "accounts \<Rightarrow> string \<Rightarrow> time \<Rightarrow> accounts" where
  "pq_touch a i now = snd (sql_update_keys (\<lambda>r. kr_id r = i) (\<lambda>r. r\<lparr>kr_last := Some now\<rparr>) a)"

definition create_api_key ::
  "bool \<Rightarrow> accounts \<Rightarrow> string \<Rightarrow> tenant \<Rightarrow> string \<Rightarrow> string \<Rightarrow> time \<Rightarrow> (pyexc + key_row) \<times> accounts" where
  "create_api_key mem a i t h name now =
     (if mem then apfst Inr (mq_create_api_key a i t h name now) else pq_create_api_key a i t h name now)"

definition list_api_keys :: "bool \<Rightarrow> accounts \<Rightarrow> tenant \<Rightarrow> key_row list" where
  "list_api_keys mem = (if mem then mq_list_api_keys else pq_list_api_keys)"

definition revoke_api_key :: "bool \<Rightarrow> accounts \<Rightarrow> string \<Rightarrow> tenant \<Rightarrow> time \<Rightarrow> bool \<times> accounts" where
  "revoke_api_key mem = (if mem then mq_revoke_api_key else pq_revoke_api_key)"

definition get_api_key_by_hash :: "bool \<Rightarrow> accounts \<Rightarrow> string \<Rightarrow> key_row option" where
  "get_api_key_by_hash mem = (if mem then mq_key_by_hash else pq_key_by_hash)"

definition touch_api_key_last_used :: "bool \<Rightarrow> accounts \<Rightarrow> string \<Rightarrow> time \<Rightarrow> accounts" where
  "touch_api_key_last_used mem = (if mem then mq_touch else pq_touch)"

section \<open>Which replica holds which shard\<close>

text \<open>Both backends: an upsert that keeps the first \<open>warm_since\<close>, a delete, and the two listings.\<close>

definition register_dp_shard_warm :: "accounts \<Rightarrow> string \<Rightarrow> uri \<Rightarrow> time \<Rightarrow> time \<Rightarrow> accounts" where
  "register_dp_shard_warm a d u since at_query =
     a\<lparr>ac_warm := dset (d, u) (case dget (ac_warm a) (d, u) of None \<Rightarrow> (since, at_query) | Some (s, _) \<Rightarrow> (s, at_query)) (ac_warm a)\<rparr>"

definition unregister_dp_shard_warm :: "accounts \<Rightarrow> string \<Rightarrow> uri \<Rightarrow> accounts" where
  "unregister_dp_shard_warm a d u = a\<lparr>ac_warm := ddel (d, u) (ac_warm a)\<rparr>"

definition list_dp_residency_for_shard :: "accounts \<Rightarrow> uri \<Rightarrow> (string \<times> time \<times> time) list" where
  "list_dp_residency_for_shard a u = map (\<lambda>((d, _), w). (d, w)) (filter (\<lambda>((_, v), _). v = u) (ac_warm a))"

definition list_dp_residency_for_dp :: "accounts \<Rightarrow> string \<Rightarrow> (uri \<times> time \<times> time) list" where
  "list_dp_residency_for_dp a d = map (\<lambda>((_, u), w). (u, w)) (filter (\<lambda>((e, _), _). e = d) (ac_warm a))"

end
