(* ===== verification/Quota_Properties.thy ===== *)
theory Quota_Properties
  imports Quota
begin

text \<open>
  Quotas under any interleaving of the tenants' requests: the backends agree, and the number of
  admitted queries and vectors is exactly what the quota leaves.
\<close>

section \<open>The backends agree\<close>

lemma update_same: "dget d k = Some v \<Longrightarrow> dset k v d = d"
  by (induction d) auto

lemma set_tenant_same [simp]: "dget (ac_tenants a) t = Some r \<Longrightarrow> set_tenant a t r = a"
  by (simp add: set_tenant_def update_same)

lemma set_tenant_get [simp]: "dget (ac_tenants (set_tenant a t r)) u = (if u = t then Some r else dget (ac_tenants a) u)"
  by (simp add: set_tenant_def pdict_simps)

lemma set_tenant_twice [simp]: "set_tenant (set_tenant a t r) t r' = set_tenant a t r'"
  by (simp add: set_tenant_def)

lemmas sql_defs = sql_update_def sql_reset_def sql_snapshot_def
lemmas mq_defs = mq_reset_daily_def mq_get_usage_def mq_try_consume_query_def mq_try_consume_vectors_def mem_reset_locked_def
lemmas pq_defs = pq_reset_daily_def pq_get_usage_def pq_try_consume_query_def pq_try_consume_vectors_def

lemma consume_query_agrees: "pq_try_consume_query = mq_try_consume_query"
  by (intro ext) (simp add: mq_defs pq_defs sql_defs Let_def split: option.split)

lemma consume_vectors_agrees: "pq_try_consume_vectors = mq_try_consume_vectors"
  by (intro ext) (simp add: mq_defs pq_defs sql_defs Let_def split: option.split)

lemma usage_agrees: "pq_get_usage = mq_get_usage"
  by (intro ext) (simp add: mq_defs pq_defs sql_defs Let_def split: option.split)

lemma reset_agrees: "pq_reset_daily = mq_reset_daily"
  by (intro ext) (simp add: mq_defs pq_defs sql_defs Let_def split: option.split)

section \<open>Sequences of requests\<close>

datatype quota_op =
    QQuery tenant day | QVectors tenant int | QUsage tenant day | QReset tenant day
  | QNew tenant string string "int \<times> int" day time

definition granted :: "(pyexc + bool \<times> usage) \<times> accounts \<Rightarrow> bool \<times> accounts" where
  "granted x = (case x of (Inr (ok, _), a) \<Rightarrow> (ok, a) | (Inl _, a) \<Rightarrow> (False, a))"

fun quota_do :: "bool \<Rightarrow> quota_op \<Rightarrow> accounts \<Rightarrow> bool \<times> accounts" where
  "quota_do mem (QQuery t d) a = granted (try_consume_query mem a t d)"
| "quota_do mem (QVectors t n) a = granted (try_consume_vectors mem a t n)"
| "quota_do mem (QUsage t d) a = (True, snd (get_usage mem a t d))"
| "quota_do mem (QReset t d) a = (True, reset_daily_if_needed mem a t d)"
| "quota_do mem (QNew t email pw qs d now) a = (True, snd (create_tenant mem a t email pw qs d now))"

fun quota_run :: "bool \<Rightarrow> quota_op list \<Rightarrow> accounts \<Rightarrow> (quota_op \<times> bool) list \<times> accounts" where
  "quota_run mem [] a = ([], a)"
| "quota_run mem (x # xs) a =
     (let (ok, a1) = quota_do mem x a; (ans, a2) = quota_run mem xs a1 in ((x, ok) # ans, a2))"

fun op_tenant :: "quota_op \<Rightarrow> tenant" where
  "op_tenant (QQuery t _) = t"
| "op_tenant (QVectors t _) = t"
| "op_tenant (QUsage t _) = t"
| "op_tenant (QReset t _) = t"
| "op_tenant (QNew t _ _ _ _ _) = t"

text \<open>Every request of the tenant reads the day \<open>d\<close>; the tenant is not created again.\<close>

fun on_day :: "tenant \<Rightarrow> day \<Rightarrow> quota_op \<Rightarrow> bool" where
  "on_day t d (QQuery u e) = (u = t \<longrightarrow> e = d)"
| "on_day t d (QUsage u e) = (u = t \<longrightarrow> e = d)"
| "on_day t d (QReset u e) = (u = t \<longrightarrow> e = d)"
| "on_day t d (QNew u _ _ _ _ _) = (u \<noteq> t)"
| "on_day t d (QVectors _ _) = True"

definition used_on :: "day \<Rightarrow> tenant_row \<Rightarrow> int" where
  "used_on d r = (if tn_reset r < d then 0 else tn_queries r)"

text \<open>What one request does to the row of its own tenant, and its answer.\<close>

fun row_do :: "quota_op \<Rightarrow> tenant_row \<Rightarrow> bool \<times> tenant_row" where
  "row_do (QQuery _ d) r =
     (let r1 = mem_reset_locked r d
      in if tn_queries r1 < tn_query_quota r1 then (True, r1\<lparr>tn_queries := tn_queries r1 + 1\<rparr>) else (False, r1))"
| "row_do (QVectors _ n) r =
     (if n < 0 then (False, r) else if tn_vectors r + n \<le> tn_vector_quota r then (True, r\<lparr>tn_vectors := tn_vectors r + n\<rparr>) else (False, r))"
| "row_do (QUsage _ d) r = (True, mem_reset_locked r d)"
| "row_do (QReset _ d) r = (True, mem_reset_locked r d)"
| "row_do (QNew _ _ _ _ _ _) r = (True, r)"

lemma quota_do_own:
  assumes "dget (ac_tenants a) t = Some r" and "op_tenant x = t" and "on_day t d x"
  shows "quota_do mem x a = (fst (row_do x r), snd (quota_do mem x a)) \<and>
    dget (ac_tenants (snd (quota_do mem x a))) t = Some (snd (row_do x r))"
  using assms
  by (cases x) (auto simp: granted_def try_consume_query_def try_consume_vectors_def get_usage_def reset_daily_if_needed_def
    consume_query_agrees consume_vectors_agrees usage_agrees reset_agrees mq_defs Let_def)

lemma quota_do_other:
  assumes "op_tenant x \<noteq> t"
  shows "dget (ac_tenants (snd (quota_do mem x a))) t = dget (ac_tenants a) t"
  using assms
  by (cases x) (auto simp: granted_def try_consume_query_def try_consume_vectors_def get_usage_def reset_daily_if_needed_def create_tenant_def
    mq_create_tenant_def pq_create_tenant_def
    consume_query_agrees consume_vectors_agrees usage_agrees reset_agrees mq_defs Let_def split: option.split prod.split)

fun is_query :: "tenant \<Rightarrow> quota_op \<Rightarrow> bool" where
  "is_query t (QQuery u _) = (u = t)"
| "is_query t _ = False"

fun vectors_of :: "tenant \<Rightarrow> quota_op \<Rightarrow> int" where
  "vectors_of t (QVectors u n) = (if u = t then n else 0)"
| "vectors_of t _ = 0"

definition attempts :: "tenant \<Rightarrow> quota_op list \<Rightarrow> nat" where
  "attempts t xs = length (filter (is_query t) xs)"

definition admitted :: "tenant \<Rightarrow> (quota_op \<times> bool) list \<Rightarrow> nat" where
  "admitted t ans = length (filter (\<lambda>(x, ok). is_query t x \<and> ok) ans)"

definition stored_vectors :: "tenant \<Rightarrow> (quota_op \<times> bool) list \<Rightarrow> int" where
  "stored_vectors t ans = sum_list (map (\<lambda>(x, ok). if ok then vectors_of t x else 0) ans)"

text \<open>The effect of one request on the numbers the quotas limit.\<close>

lemma row_do_counts:
  assumes "on_day t d x" and "op_tenant x = t" and "row_do x r = (ok, r')"
  shows "tn_query_quota r' = tn_query_quota r \<and> tn_vector_quota r' = tn_vector_quota r \<and>
    used_on d r' = used_on d r + (if is_query t x \<and> ok then 1 else 0) \<and>
    (is_query t x \<longrightarrow> (ok \<longleftrightarrow> used_on d r < tn_query_quota r)) \<and>
    tn_vectors r' = tn_vectors r + (if ok then vectors_of t x else 0) \<and>
    (tn_vectors r \<le> tn_vector_quota r \<longrightarrow> tn_vectors r' \<le> tn_vector_quota r) \<and> tn_vectors r \<le> tn_vectors r'"
  using assms by (cases x) (auto simp: used_on_def mem_reset_locked_def Let_def split: if_splits)

lemma quota_run_counts:
  assumes "dget (ac_tenants a) t = Some r" and "list_all (on_day t d) xs" and "quota_run mem xs a = (ans, a')"
  shows "\<exists>r'. dget (ac_tenants a') t = Some r' \<and> tn_query_quota r' = tn_query_quota r \<and> tn_vector_quota r' = tn_vector_quota r \<and>
    admitted t ans = min (attempts t xs) (nat (tn_query_quota r - used_on d r)) \<and>
    used_on d r' = used_on d r + int (admitted t ans) \<and>
    tn_vectors r' = tn_vectors r + stored_vectors t ans \<and>
    (tn_vectors r \<le> tn_vector_quota r \<longrightarrow> tn_vectors r' \<le> tn_vector_quota r)"
  using assms
proof (induction xs arbitrary: a r ans)
  case Nil
  then show ?case by (simp add: admitted_def attempts_def stored_vectors_def)
next
  case (Cons x xs)
  obtain ok a1 where s: "quota_do mem x a = (ok, a1)" by fastforce
  obtain ans1 where l: "quota_run mem xs a1 = (ans1, a')" "ans = (x, ok) # ans1"
    using Cons.prems(3) s by (auto simp: Let_def split: prod.splits)
  have days: "on_day t d x" "list_all (on_day t d) xs" using Cons.prems(2) by simp_all
  show ?case
  proof (cases "op_tenant x = t")
    case True
    obtain ok1 r1 where rd: "row_do x r = (ok1, r1)" by fastforce
    have r1: "dget (ac_tenants a1) t = Some r1" "ok1 = ok" using quota_do_own[OF Cons.prems(1) True days(1), of mem] s rd by auto
    note c = row_do_counts[OF days(1) True rd]
    obtain r' where r': "dget (ac_tenants a') t = Some r'" "tn_query_quota r' = tn_query_quota r1" "tn_vector_quota r' = tn_vector_quota r1"
      "admitted t ans1 = min (attempts t xs) (nat (tn_query_quota r1 - used_on d r1))"
      "used_on d r' = used_on d r1 + int (admitted t ans1)" "tn_vectors r' = tn_vectors r1 + stored_vectors t ans1"
      "tn_vectors r1 \<le> tn_vector_quota r1 \<longrightarrow> tn_vectors r' \<le> tn_vector_quota r1"
      using Cons.IH[OF r1(1) days(2) l(1)] by blast
    have n: "admitted t ans = (if is_query t x \<and> ok then 1 else 0) + admitted t ans1"
      "attempts t (x # xs) = (if is_query t x then 1 else 0) + attempts t xs"
      "stored_vectors t ans = (if ok then vectors_of t x else 0) + stored_vectors t ans1"
      by (simp_all add: l(2) admitted_def attempts_def stored_vectors_def)
    have "admitted t ans = min (attempts t (x # xs)) (nat (tn_query_quota r - used_on d r))"
      unfolding n(1,2) r'(4) using c r1(2) by (cases "is_query t x"; cases ok) auto
    moreover have "used_on d r' = used_on d r + int (admitted t ans)" unfolding n(1) using r'(5) c r1(2) by auto
    moreover have "tn_vectors r \<le> tn_vector_quota r \<longrightarrow> tn_vectors r' \<le> tn_vector_quota r" using r'(7) c by auto
    moreover have "tn_vectors r' = tn_vectors r + stored_vectors t ans" unfolding n(3) r'(6) using c r1(2) by simp
    ultimately show ?thesis using r'(1-3) c by auto
  next
    case False
    then have r1: "dget (ac_tenants a1) t = Some r" using quota_do_other[OF False, of mem a] s Cons.prems(1) by simp
    have "\<not> is_query t x" "vectors_of t x = 0" using False by (cases x; simp)+
    with Cons.IH[OF r1 days(2) l(1)] show ?thesis by (simp add: l(2) admitted_def attempts_def stored_vectors_def)
  qed
qed

text \<open>
  C34. Quotas admit exactly what is left. On either backend and whatever other tenants do in between,
  of the queries a tenant sends on one day the number admitted is the smaller of the attempts and
  what its daily quota leaves (a counter of an earlier day counts as 0), the counter grows by exactly that;
  the vectors stored are exactly those of the admitted requests and never pass the vector quota.
\<close>

theorem quota_admits_exactly:
  assumes "dget (ac_tenants a) t = Some r" and "list_all (on_day t d) xs"
  shows "\<exists>ans a' r'. quota_run mem xs a = (ans, a') \<and> dget (ac_tenants a') t = Some r' \<and>
    admitted t ans = min (attempts t xs) (nat (tn_query_quota r - used_on d r)) \<and>
    used_on d r' = used_on d r + int (admitted t ans) \<and>
    tn_vectors r' = tn_vectors r + stored_vectors t ans \<and>
    (tn_vectors r \<le> tn_vector_quota r \<longrightarrow> tn_vectors r' \<le> tn_vector_quota r)"
proof -
  obtain ans a' where q: "quota_run mem xs a = (ans, a')" by fastforce
  from quota_run_counts[OF assms q] q show ?thesis by blast
qed

text \<open>A quota of 2 used up once yesterday, on the SQL backend: two of three queries are admitted; 3 of 5 vectors, then no 3 more.\<close>

definition demo_accounts :: accounts where
  "demo_accounts = \<lparr>ac_tenants = [(''acme'', \<lparr>tn_email = ''e'', tn_password = ''p'', tn_plan = ''free'', tn_vector_quota = 5,
     tn_query_quota = 2, tn_vectors = 0, tn_queries = 1, tn_reset = 6, tn_pool = Some ''shared'', tn_created = 0\<rparr>)],
     ac_emails = [], ac_keys = [], ac_hashes = [], ac_warm = []\<rparr>"

theorem quota_admits_exactly_witness:
  "\<exists>ans a' r'. quota_run False [QQuery ''acme'' 7, QVectors ''acme'' 3, QQuery ''acme'' 7, QQuery ''acme'' 7, QVectors ''acme'' 3] demo_accounts =
     (ans, a') \<and> dget (ac_tenants a') ''acme'' = Some r' \<and> admitted ''acme'' ans = 2 \<and> used_on 7 r' = 2 \<and> tn_vectors r' \<le> 5"
proof -
  let ?xs = "[QQuery ''acme'' 7, QVectors ''acme'' 3, QQuery ''acme'' 7, QQuery ''acme'' 7, QVectors ''acme'' 3]"
  have "list_all (on_day ''acme'' 7) ?xs" by simp
  moreover have "attempts ''acme'' ?xs = 3" by (simp add: attempts_def)
  moreover obtain r where r: "dget (ac_tenants demo_accounts) ''acme'' = Some r" "tn_query_quota r = 2" "used_on 7 r = 0"
      "tn_vectors r = 0" "tn_vector_quota r = 5" by (simp add: demo_accounts_def used_on_def)
  ultimately show ?thesis using quota_admits_exactly[OF r(1), of 7 ?xs False] r by auto
qed

end
