(* ===== verification/Auth.thy ===== *)
theory Auth
  imports Quota
begin

text \<open>
  Authentication and admission of requests: the bearer token, the JWT and the API key with its
  per-process cache (\<open>services/auth/jwt_utils.py\<close>), the token-bucket rate limiter and the quota
  answers (\<open>services/auth/quota.py\<close>). SHA-256 and the verification of a JWT's signature and
  expiry are parameters; the clock is the monotonic one of the process.
\<close>

section \<open>The bearer token\<close>

definition py_space :: "char \<Rightarrow> bool" where
  "py_space c \<longleftrightarrow> (let n = (of_char c :: nat) in (9 \<le> n \<and> n \<le> 13) \<or> (28 \<le> n \<and> n \<le> 32) \<or> n = 133 \<or> n = 160)"

definition py_strip :: "string \<Rightarrow> string" where
  "py_strip s = rev (dropWhile py_space (rev (dropWhile py_space s)))"

definition py_lower :: "char \<Rightarrow> char" where
  "py_lower c = (let n = (of_char c :: nat) in if 65 \<le> n \<and> n \<le> 90 then char_of (n + 32) else c)"

text \<open>\<open>authorization.split(None, 1)\<close> into a scheme and a rest; None stands for the 401.\<close>

definition parse_bearer :: "string option \<Rightarrow> string option" where
  "parse_bearer authorization =
     (case authorization of
        None \<Rightarrow> None
      | Some s \<Rightarrow>
          let s1 = dropWhile py_space s;
              scheme = takeWhile (\<lambda>c. \<not> py_space c) s1;
              rest = dropWhile py_space (dropWhile (\<lambda>c. \<not> py_space c) s1)
          in if rest = [] \<or> map py_lower scheme \<noteq> ''bearer'' then None
             else (let token = py_strip rest in if token = [] then None else Some token))"

section \<open>Tokens\<close>

definition API_KEY_PREFIX :: string where
  "API_KEY_PREFIX = ''rb_live_''"

definition DEFAULT_TENANT_ID :: tenant where
  "DEFAULT_TENANT_ID = ''default''"

definition TOKEN_TTL_SECONDS :: int where
  "TOKEN_TTL_SECONDS = 60 * 60 * 24"

text \<open>
  \<open>jw_verify\<close> is \<open>jwt.decode\<close> with the process's secret, None when it raises; \<open>jw_sign\<close> is \<open>jwt.encode\<close>.
\<close>

record jwt =
  jw_sign :: "meta \<Rightarrow> string"
  jw_verify :: "time \<Rightarrow> string \<Rightarrow> meta option"

definition encode_jwt :: "jwt \<Rightarrow> tenant \<Rightarrow> time \<Rightarrow> int \<Rightarrow> string" where
  "encode_jwt jw t now ttl = jw_sign jw [(''sub'', JStr t), (''iat'', JInt now), (''exp'', JInt (now + ttl))]"

definition decode_jwt :: "jwt \<Rightarrow> time \<Rightarrow> string \<Rightarrow> tenant option" where
  "decode_jwt jw now token =
     (case jw_verify jw now token of
        None \<Rightarrow> None
      | Some payload \<Rightarrow> (case dget payload ''sub'' of Some (JStr s) \<Rightarrow> Some s | _ \<Rightarrow> None))"

text \<open>
  The documented behaviour of PyJWT: a signed payload is read back until it expires; the token is
  base64url text with dots, here a text without blanks that does not look like an API key.
\<close>

definition plain_token :: "string \<Rightarrow> bool" where
  "plain_token s \<longleftrightarrow> s \<noteq> [] \<and> list_all (\<lambda>c. \<not> py_space c) s"

definition jwt_law :: "jwt \<Rightarrow> bool" where
  "jwt_law jw \<longleftrightarrow> (\<forall>t iat e now. let p = [(''sub'', JStr t), (''iat'', JInt iat), (''exp'', JInt e)]; s = jw_sign jw p in
     jw_verify jw now s = (if now < e then Some p else None) \<and> plain_token s \<and> \<not> starts_with API_KEY_PREFIX s)"

lemma issued_token:
  assumes "jwt_law jw"
  shows "decode_jwt jw n (encode_jwt jw t now ttl) = (if n < now + ttl then Some t else None)"
    and "plain_token (encode_jwt jw t now ttl)" and "\<not> starts_with API_KEY_PREFIX (encode_jwt jw t now ttl)"
proof -
  note l = assms[unfolded jwt_law_def Let_def, rule_format, of n t now "now + ttl"]
  show "decode_jwt jw n (encode_jwt jw t now ttl) = (if n < now + ttl then Some t else None)"
    using l by (simp add: decode_jwt_def encode_jwt_def)
  show "plain_token (encode_jwt jw t now ttl)" and "\<not> starts_with API_KEY_PREFIX (encode_jwt jw t now ttl)"
    using l by (simp_all add: encode_jwt_def)
qed

text \<open>A header \<open>Bearer\<close> with a plain token gives the token.\<close>

lemma parse_bearer_plain:
  assumes "plain_token s"
  shows "parse_bearer (Some (''Bearer '' @ s)) = Some s"
proof -
  have n: "\<not> py_space c" if "c \<in> set s" for c using assms that by (simp add: plain_token_def list_all_iff)
  have d: "dropWhile py_space s = s" "dropWhile py_space (rev s) = rev s"
    using n assms by (auto simp: plain_token_def dropWhile_eq_self_iff hd_rev)
  have b: "\<not> py_space CHR ''B''" "\<not> py_space CHR ''e''" "\<not> py_space CHR ''a''" "\<not> py_space CHR ''r''" "py_space CHR '' ''"
    by (simp_all add: py_space_def)
  have l: "map py_lower ''Bearer'' = ''bearer''" by code_simp
  have x: "\<exists>x \<in> set s. \<not> py_space x" using n assms by (cases s) (auto simp: plain_token_def)
  show ?thesis using assms d b l x by (simp add: parse_bearer_def py_strip_def Let_def plain_token_def)
qed

section \<open>The cache of resolved API keys\<close>

type_synonym auth_cache = "(string, tenant \<times> time) pdict"

definition AUTH_CACHE_TTL_S :: int where
  "AUTH_CACHE_TTL_S = 30"

text \<open>The lookup under the lock: a live entry answers, an expired one is dropped.\<close>

definition auth_lookup :: "auth_cache \<Rightarrow> string \<Rightarrow> time \<Rightarrow> tenant option \<times> auth_cache" where
  "auth_lookup c h now =
     (case dget c h of
        None \<Rightarrow> (None, c)
      | Some (t, expiry) \<Rightarrow> if now < expiry then (Some t, c) else (None, ddel h c))"

definition auth_fill :: "auth_cache \<Rightarrow> string \<Rightarrow> tenant \<Rightarrow> time \<Rightarrow> auth_cache" where
  "auth_fill c h t now = dset h (t, now + AUTH_CACHE_TTL_S) c"

definition key_owner :: "key_row option \<Rightarrow> tenant option" where
  "key_owner row = (case row of None \<Rightarrow> None | Some r \<Rightarrow> if kr_revoked r \<noteq> None then None else Some (kr_tenant r))"

text \<open>
  \<open>_resolve_api_key\<close> without interruption; the last-used timestamp is written by a thread that is
  started after a lookup in the database.
\<close>

definition resolve_api_key ::
  "(string \<Rightarrow> string) \<Rightarrow> bool \<Rightarrow> accounts \<Rightarrow> auth_cache \<Rightarrow> string \<Rightarrow> time \<Rightarrow> tenant option \<times> accounts \<times> auth_cache" where
  "resolve_api_key sha256 mem a c token now =
     (let h = sha256 token in
      case auth_lookup c h now of
        (Some t, c1) \<Rightarrow> (Some t, a, c1)
      | (None, c1) \<Rightarrow>
         (let row = get_api_key_by_hash mem a h in
          case key_owner row of
            None \<Rightarrow> (None, a, c1)
          | Some t \<Rightarrow> (Some t, (case row of Some r \<Rightarrow> touch_api_key_last_used mem a (kr_id r) now | None \<Rightarrow> a), auth_fill c1 h t now)))"

definition bust_api_key_cache_by_hash :: "auth_cache \<Rightarrow> string \<Rightarrow> auth_cache" where
  "bust_api_key_cache_by_hash c h = ddel h c"

definition bust_api_key_cache :: "(string \<Rightarrow> string) \<Rightarrow> auth_cache \<Rightarrow> string \<Rightarrow> auth_cache" where
  "bust_api_key_cache sha256 c raw_key = ddel (sha256 raw_key) c"

text \<open>The tenant of a request, None for the 401.\<close>

definition current_tenant_id ::
  "(string \<Rightarrow> string) \<Rightarrow> jwt \<Rightarrow> bool \<Rightarrow> bool \<Rightarrow> accounts \<Rightarrow> auth_cache \<Rightarrow> string option \<Rightarrow> time
   \<Rightarrow> tenant option \<times> accounts \<times> auth_cache" where
  "current_tenant_id sha256 jw required mem a c authorization now =
     (if \<not> required then (Some DEFAULT_TENANT_ID, a, c)
      else case parse_bearer authorization of
          None \<Rightarrow> (None, a, c)
        | Some token \<Rightarrow>
            if starts_with API_KEY_PREFIX token then resolve_api_key sha256 mem a c token now
            else (decode_jwt jw now token, a, c))"

definition current_tenant_id_jwt_only :: "jwt \<Rightarrow> bool \<Rightarrow> string option \<Rightarrow> time \<Rightarrow> tenant option" where
  "current_tenant_id_jwt_only jw required authorization now =
     (if \<not> required then Some DEFAULT_TENANT_ID
      else case parse_bearer authorization of
          None \<Rightarrow> None
        | Some token \<Rightarrow> if starts_with API_KEY_PREFIX token then None else decode_jwt jw now token)"

definition unauthorized :: response where
  "unauthorized = error_envelope 401 ''unauthorized'' ''Missing or invalid credentials'' None"

section \<open>The rate limiter\<close>

text \<open>One bucket: its tokens and the time of the last attempt.\<close>

record token_bucket =
  bk_tokens :: rat
  bk_last :: rat

definition bucket_take :: "rat \<Rightarrow> rat \<Rightarrow> rat \<Rightarrow> token_bucket \<Rightarrow> bool \<times> token_bucket" where
  "bucket_take rate burst now b =
     (let tokens = min burst (bk_tokens b + (now - bk_last b) * rate)
      in if tokens \<ge> 1 then (True, \<lparr>bk_tokens = tokens - 1, bk_last = now\<rparr>)
         else (False, \<lparr>bk_tokens = tokens, bk_last = now\<rparr>))"

definition bucket_key :: "jwt \<Rightarrow> time \<Rightarrow> string \<Rightarrow> string" where
  "bucket_key jw now token =
     (if starts_with API_KEY_PREFIX token then ''key:'' @ token
      else case decode_jwt jw now token of Some t \<Rightarrow> ''tenant:'' @ t | None \<Rightarrow> ''raw:'' @ token)"

text \<open>A new bucket is full and is made at the moment it is first asked.\<close>

definition take_token :: "rat \<Rightarrow> rat \<Rightarrow> (string, token_bucket) pdict \<Rightarrow> string \<Rightarrow> rat \<Rightarrow> bool \<times> (string, token_bucket) pdict" where
  "take_token rate burst bs i now =
     (let b = (case dget bs i of None \<Rightarrow> \<lparr>bk_tokens = burst, bk_last = now\<rparr> | Some b \<Rightarrow> b);
          (ok, b1) = bucket_take rate burst now b
      in (ok, dset i b1 bs))"

definition rate_limited_response :: "rat \<Rightarrow> rat \<Rightarrow> response" where
  "rate_limited_response rate burst =
     error_envelope 429 ''rate_limited'' ''Rate limit exceeded; slow down and retry''
       (Some [(''limit_rps'', JInt \<lfloor>rate\<rfloor>), (''burst'', JInt \<lfloor>burst\<rfloor>)])"

text \<open>The dependency of a rate-limited route: None lets the request through.\<close>

definition rate_limit ::
  "bool \<Rightarrow> bool \<Rightarrow> jwt \<Rightarrow> rat \<Rightarrow> rat \<Rightarrow> (string, token_bucket) pdict \<Rightarrow> string option \<Rightarrow> time \<Rightarrow> rat
   \<Rightarrow> response option \<times> (string, token_bucket) pdict" where
  "rate_limit quotas required jw rate burst bs authorization now clock =
     (if \<not> quotas then (None, bs)
      else if \<not> required then
        (let (ok, bs1) = take_token rate burst bs (''tenant:'' @ DEFAULT_TENANT_ID) clock
         in (if ok then None else Some (rate_limited_response rate burst), bs1))
      else case parse_bearer authorization of
          None \<Rightarrow> (Some unauthorized, bs)
        | Some token \<Rightarrow>
            (let (ok, bs1) = take_token rate burst bs (bucket_key jw now token) clock
             in (if ok then None else Some (rate_limited_response rate burst), bs1)))"

section \<open>Answers of an exceeded quota\<close>

definition query_quota_429 :: "(day \<Rightarrow> string) \<Rightarrow> usage \<Rightarrow> response" where
  "query_quota_429 day_text u =
     error_envelope 429 ''query_quota_exceeded'' ''Daily query quota exceeded for this tenant''
       (Some [(''limit'', JInt (us_query_quota u)), (''reset_at'', JStr (day_text (us_reset u)))])"

definition vector_quota_429 :: "usage \<Rightarrow> response" where
  "vector_quota_429 u =
     error_envelope 429 ''vector_quota_exceeded'' ''Vector storage quota exceeded for this tenant''
       (Some [(''limit'', JInt (us_vector_quota u)), (''used'', JInt (us_vectors u))])"

end
