(* ===== verification/Auth_Properties.thy ===== *)
theory Auth_Properties
  imports Auth
begin

text \<open>
  The rate limiter admits at most the burst plus the refill in every window and never rejects a
  client that keeps its rate; a revoked API key stops working everywhere within the cache's life time.
\<close>

section \<open>The token bucket\<close>

fun bucket_run :: "rat \<Rightarrow> rat \<Rightarrow> rat list \<Rightarrow> token_bucket \<Rightarrow> bool list \<times> token_bucket" where
  "bucket_run rate burst [] b = ([], b)"
| "bucket_run rate burst (t # ts) b =
     (let (ok, b1) = bucket_take rate burst t b; (oks, b2) = bucket_run rate burst ts b1 in (ok # oks, b2))"

definition passed :: "bool list \<Rightarrow> rat" where
  "passed oks = of_nat (length (filter id oks))"

definition bucket_ok :: "rat \<Rightarrow> token_bucket \<Rightarrow> bool" where
  "bucket_ok burst b \<longleftrightarrow> 0 \<le> bk_tokens b \<and> bk_tokens b \<le> burst"

text \<open>\<open>sorted (last # ts)\<close>: the clock does not go back.\<close>

lemma bucket_take_ok:
  assumes "bucket_ok burst b" and "0 \<le> rate" and "bk_last b \<le> now" and "bucket_take rate burst now b = (ok, b')"
  shows "bucket_ok burst b' \<and> bk_last b' = now \<and>
    bk_tokens b' + (if ok then 1 else 0) = min burst (bk_tokens b + (now - bk_last b) * rate)"
proof -
  have "0 \<le> (now - bk_last b) * rate" using assms(2,3) by simp
  then show ?thesis using assms(1,4) by (auto simp: bucket_ok_def bucket_take_def Let_def split: if_splits)
qed

lemma bucket_run_bound:
  assumes "bucket_ok burst b" and "0 \<le> rate" and "sorted (bk_last b # ts)" and "\<forall>t \<in> set ts. t \<le> till" and "bk_last b \<le> till"
    and "bucket_run rate burst ts b = (oks, b')"
  shows "bucket_ok burst b' \<and> passed oks \<le> bk_tokens b + (till - bk_last b) * rate"
  using assms
proof (induction ts arbitrary: b oks)
  case Nil
  then show ?case by (auto simp: passed_def bucket_ok_def)
next
  case (Cons t ts)
  obtain ok b1 where s: "bucket_take rate burst t b = (ok, b1)" by fastforce
  obtain oks1 where l: "bucket_run rate burst ts b1 = (oks1, b')" "oks = ok # oks1"
    using Cons.prems(6) s by (auto simp: Let_def split: prod.splits)
  have le: "bk_last b \<le> t" using Cons.prems(3) by simp
  note t = bucket_take_ok[OF Cons.prems(1,2) le s]
  have "bucket_ok burst b' \<and> passed oks1 \<le> bk_tokens b1 + (till - bk_last b1) * rate"
    using Cons.IH[of b1 oks1] t Cons.prems(2-5) l(1) by auto
  moreover have "passed oks = (if ok then 1 else 0) + passed oks1" by (simp add: passed_def l(2))
  moreover have "bk_tokens b1 + (if ok then 1 else 0) \<le> bk_tokens b + (t - bk_last b) * rate" using t by simp
  moreover have "(till - bk_last b1) * rate + (t - bk_last b) * rate = (till - bk_last b) * rate" using t by (simp add: algebra_simps)
  ultimately show ?case by linarith
qed

text \<open>Attempts at least a token's refill apart all pass.\<close>

fun spaced :: "rat \<Rightarrow> rat \<Rightarrow> rat list \<Rightarrow> bool" where
  "spaced rate t [] = True"
| "spaced rate t (u # us) = (1 \<le> (u - t) * rate \<and> spaced rate u us)"

lemma bucket_spaced:
  assumes "bucket_ok burst b" and "1 \<le> burst" and "spaced rate (bk_last b) ts"
  shows "list_all id (fst (bucket_run rate burst ts b))"
  using assms
proof (induction ts arbitrary: b)
  case (Cons t ts)
  obtain ok b1 where s: "bucket_take rate burst t b = (ok, b1)" by fastforce
  have "1 \<le> (t - bk_last b) * rate" using Cons.prems(3) by simp
  then have "ok \<and> bucket_ok burst b1 \<and> bk_last b1 = t"
    using s Cons.prems(1,2) by (auto simp: bucket_ok_def bucket_take_def Let_def split: if_splits)
  then show ?case using Cons.IH[of b1] Cons.prems(2,3) s by (simp add: split_beta)
qed simp

text \<open>
  C35. The rate limiter keeps its rate. From every state a bucket can be in, the requests that pass in
  a window of time are at most the burst plus the rate times the window's length, however they are
  placed, and a client whose requests keep the configured distance is never refused.
\<close>

theorem bucket_keeps_rate:
  assumes "bucket_ok burst b" and "0 \<le> rate" and "sorted (bk_last b # start # ts)" and "list_all (\<lambda>t. t \<le> start + width) ts" and "0 \<le> width"
  shows "bucket_ok burst (snd (bucket_run rate burst (start # ts) b)) \<and>
    passed (fst (bucket_run rate burst (start # ts) b)) \<le> burst + width * rate \<and>
    (1 \<le> burst \<and> spaced rate (bk_last b) (start # ts) \<longrightarrow> list_all id (fst (bucket_run rate burst (start # ts) b)))"
proof -
  obtain ok b1 where s: "bucket_take rate burst start b = (ok, b1)" by fastforce
  obtain oks b' where l: "bucket_run rate burst ts b1 = (oks, b')" by fastforce
  have le: "bk_last b \<le> start" using assms(3) by simp
  note t = bucket_take_ok[OF assms(1,2) le s]
  have "bucket_ok burst b' \<and> passed oks \<le> bk_tokens b1 + (start + width - bk_last b1) * rate"
    by (rule bucket_run_bound[OF _ assms(2) _ _ _ l]) (use t assms(3-5) in \<open>auto simp: list_all_iff\<close>)
  moreover have "passed (ok # oks) = (if ok then 1 else 0) + passed oks" by (simp add: passed_def)
  moreover have "bk_tokens b1 + (if ok then 1 else 0) \<le> burst" using t by simp
  moreover have "(start + width - bk_last b1) * rate = width * rate" using t by simp
  ultimately have "bucket_ok burst b' \<and> passed (ok # oks) \<le> burst + width * rate" by linarith
  then show ?thesis using s l bucket_spaced[OF assms(1), of rate "start # ts"] by simp
qed

text \<open>Burst 2, one token a second: of four requests at time 0 and two at time 1, the bound is 3.\<close>

theorem bucket_keeps_rate_witness:
  "passed (fst (bucket_run 1 2 [0, 0, 0, 0, 1, 1] \<lparr>bk_tokens = 2, bk_last = 0\<rparr>)) \<le> 3 \<and>
   list_all id (fst (bucket_run 1 2 [2, 3, 4] \<lparr>bk_tokens = 0, bk_last = 1\<rparr>))"
  using bucket_keeps_rate[of 2 "\<lparr>bk_tokens = 2, bk_last = 0\<rparr>" 1 0 "[0, 0, 0, 1, 1]" 1]
    bucket_keeps_rate[of 2 "\<lparr>bk_tokens = 0, bk_last = 1\<rparr>" 1 2 "[3, 4]" 2]
  by (simp add: bucket_ok_def del: bucket_run.simps)

section \<open>Revoked keys\<close>

text \<open>
  Several replicas resolve keys next to the writers of the key table. A call looks its hash up in the
  replica's cache; after a miss it reads the table and then fills the cache, with the time of its
  start; between these steps anything can happen, a revocation included.
\<close>

record kview =
  kv_now :: time
  kv_table :: accounts
  kv_caches :: "string \<Rightarrow> auth_cache"
  kv_calls :: "(string \<times> string \<times> time \<times> tenant option) list"

inductive kv_step :: "bool \<Rightarrow> kview \<Rightarrow> kview \<Rightarrow> bool" for mem where
  kv_tick: "kv_now s \<le> n \<Longrightarrow> kv_step mem s (s\<lparr>kv_now := n\<rparr>)"
| kv_hit: "auth_lookup (kv_caches s p) h (kv_now s) = (Some t, c) \<Longrightarrow> kv_step mem s (s\<lparr>kv_caches := (kv_caches s)(p := c)\<rparr>)"
| kv_miss: "auth_lookup (kv_caches s p) h (kv_now s) = (None, c) \<Longrightarrow>
    kv_step mem s (s\<lparr>kv_caches := (kv_caches s)(p := c), kv_calls := (p, h, kv_now s, None) # kv_calls s\<rparr>)"
| kv_reject: "kv_calls s = xs @ (p, h, n, None) # ys \<Longrightarrow> key_owner (get_api_key_by_hash mem (kv_table s) h) = None \<Longrightarrow>
    kv_step mem s (s\<lparr>kv_calls := xs @ ys\<rparr>)"
| kv_read: "kv_calls s = xs @ (p, h, n, None) # ys \<Longrightarrow> key_owner (get_api_key_by_hash mem (kv_table s) h) = Some t \<Longrightarrow>
    kv_step mem s (s\<lparr>kv_calls := xs @ (p, h, n, Some t) # ys\<rparr>)"
| kv_fill: "kv_calls s = xs @ (p, h, n, Some t) # ys \<Longrightarrow>
    kv_step mem s (s\<lparr>kv_caches := (kv_caches s)(p := auth_fill (kv_caches s p) h t n), kv_calls := xs @ ys\<rparr>)"
| kv_touch: "kv_step mem s (s\<lparr>kv_table := touch_api_key_last_used mem (kv_table s) i n\<rparr>)"
| kv_revoke: "kv_step mem s (s\<lparr>kv_table := snd (revoke_api_key mem (kv_table s) i t (kv_now s))\<rparr>)"
| kv_bust: "kv_step mem s (s\<lparr>kv_caches := (kv_caches s)(p := bust_api_key_cache_by_hash (kv_caches s p) h)\<rparr>)"
| kv_create: "get_api_key_by_hash mem (kv_table s) h = None \<Longrightarrow>
    kv_step mem s (s\<lparr>kv_table := snd (create_api_key mem (kv_table s) i t h name n)\<rparr>)"

inductive kv_reach :: "bool \<Rightarrow> kview \<Rightarrow> bool" for mem where
  kv_init: "ac_keys a = [] \<Longrightarrow> ac_hashes a = [] \<Longrightarrow> kv_reach mem \<lparr>kv_now = n, kv_table = a, kv_caches = (\<lambda>_. []), kv_calls = []\<rparr>"
| kv_go: "kv_reach mem s \<Longrightarrow> kv_step mem s s' \<Longrightarrow> kv_reach mem s'"

text \<open>The positions of the dictionary by hash are in the list.\<close>

definition hashes_ok :: "accounts \<Rightarrow> bool" where
  "hashes_ok a \<longleftrightarrow> (\<forall>h p. dget (ac_hashes a) h = Some p \<longrightarrow> p < length (ac_keys a))"

text \<open>What the writers do to the row of a hash.\<close>

lemma update_first_length [simp]: "length (update_first p f rs) = length rs"
  by (induction rs) auto

lemma update_first_nth:
  "j < length rs \<Longrightarrow> update_first p f rs ! j = rs ! j \<or> (update_first p f rs ! j = f (rs ! j) \<and> find p rs = Some (rs ! j))"
proof (induction rs arbitrary: j)
  case (Cons r rs)
  then show ?case by (cases j) auto
qed simp

lemma find_map_same: "(\<And>r. q (g r) = q r) \<Longrightarrow> find q (map g rs) = map_option g (find q rs)"
  by (induction rs) auto

definition same_key :: "key_row option \<Rightarrow> key_row option \<Rightarrow> bool" where
  "same_key r r' \<longleftrightarrow> map_option kr_tenant r = map_option kr_tenant r' \<and> map_option kr_revoked r = map_option kr_revoked r'"

lemma same_key_refl [simp]: "same_key r r"
  by (simp add: same_key_def)

lemma touch_row: "hashes_ok a \<Longrightarrow> same_key (get_api_key_by_hash mem (touch_api_key_last_used mem a i n) h) (get_api_key_by_hash mem a h)"
proof (cases mem)
  case True
  assume "hashes_ok a"
  then show ?thesis
    using True update_first_nth[of "the (dget (ac_hashes a) h)" "ac_keys a" "\<lambda>r. kr_id r = i" "\<lambda>r. r\<lparr>kr_last := Some n\<rparr>"]
    by (auto simp: get_api_key_by_hash_def touch_api_key_last_used_def mq_key_by_hash_def mq_touch_def same_key_def hashes_ok_def split: option.split)
next
  case False
  have "find (\<lambda>r. kr_hash r = h) (map (\<lambda>r. if kr_id r = i then r\<lparr>kr_last := Some n\<rparr> else r) (ac_keys a)) =
      map_option (\<lambda>r. if kr_id r = i then r\<lparr>kr_last := Some n\<rparr> else r) (find (\<lambda>r. kr_hash r = h) (ac_keys a))"
    by (rule find_map_same) simp
  then show ?thesis using False
    by (cases "find (\<lambda>r. kr_hash r = h) (ac_keys a)")
      (simp_all add: get_api_key_by_hash_def touch_api_key_last_used_def pq_key_by_hash_def pq_touch_def sql_update_keys_def same_key_def)
qed

lemma revoke_row:
  assumes "hashes_ok a"
  shows "get_api_key_by_hash mem (snd (revoke_api_key mem a i t n)) h = get_api_key_by_hash mem a h \<or>
    (\<exists>r. get_api_key_by_hash mem a h = Some r \<and> kr_revoked r = None \<and>
       get_api_key_by_hash mem (snd (revoke_api_key mem a i t n)) h = Some (r\<lparr>kr_revoked := Some n\<rparr>))"
proof (cases mem)
  case True
  then show ?thesis
    using assms update_first_nth[of "the (dget (ac_hashes a) h)" "ac_keys a" "\<lambda>r. kr_id r = i \<and> kr_tenant r = t" "\<lambda>r. r\<lparr>kr_revoked := Some n\<rparr>"]
    by (auto simp: get_api_key_by_hash_def revoke_api_key_def mq_key_by_hash_def mq_revoke_api_key_def get_api_key_def hashes_ok_def split: option.split)
next
  case False
  let ?p = "\<lambda>r. kr_id r = i \<and> kr_tenant r = t \<and> kr_revoked r = None"
  have "find (\<lambda>r. kr_hash r = h) (map (\<lambda>r. if ?p r then r\<lparr>kr_revoked := Some n\<rparr> else r) (ac_keys a)) =
      map_option (\<lambda>r. if ?p r then r\<lparr>kr_revoked := Some n\<rparr> else r) (find (\<lambda>r. kr_hash r = h) (ac_keys a))"
    by (rule find_map_same) simp
  then show ?thesis using False
    by (cases "find (\<lambda>r. kr_hash r = h) (ac_keys a)")
      (auto simp: get_api_key_by_hash_def revoke_api_key_def pq_key_by_hash_def pq_revoke_api_key_def sql_update_keys_def Let_def)
qed

lemma find_append: "find p (xs @ ys) = (case find p xs of None \<Rightarrow> find p ys | Some x \<Rightarrow> Some x)"
  by (induction xs) auto

lemma create_row:
  assumes "hashes_ok a" and "get_api_key_by_hash mem a h = None"
  shows "get_api_key_by_hash mem (snd (create_api_key mem a i t h name n)) g = get_api_key_by_hash mem a g \<or>
    (g = h \<and> get_api_key_by_hash mem (snd (create_api_key mem a i t h name n)) g = Some (new_key i t h name n))"
proof (cases mem)
  case True
  then show ?thesis using assms
    by (auto simp: get_api_key_by_hash_def create_api_key_def mq_create_api_key_def mq_key_by_hash_def hashes_ok_def pdict_simps nth_append split: option.splits)
next
  case False
  then show ?thesis using assms
    by (auto simp: get_api_key_by_hash_def create_api_key_def pq_create_api_key_def pq_key_by_hash_def find_append new_key_def split: option.splits)
qed

lemma hashes_ok_writes:
  assumes "hashes_ok a"
  shows "hashes_ok (touch_api_key_last_used mem a i n)" and "hashes_ok (snd (revoke_api_key mem a i t n))"
    and "hashes_ok (snd (create_api_key mem a i t h name n))"
  using assms
  by (auto simp: hashes_ok_def touch_api_key_last_used_def mq_touch_def pq_touch_def sql_update_keys_def revoke_api_key_def mq_revoke_api_key_def
    pq_revoke_api_key_def create_api_key_def mq_create_api_key_def pq_create_api_key_def pdict_simps Let_def less_Suc_eq split: option.splits if_splits)

text \<open>
  \<open>vouched row t n\<close>: at time \<open>n\<close> the row was there, belonged to \<open>t\<close> and was not revoked. Every cache
  entry and every call that has read the table is vouched for.
\<close>

definition vouched :: "key_row option \<Rightarrow> tenant \<Rightarrow> time \<Rightarrow> bool" where
  "vouched row t n \<longleftrightarrow> (\<exists>r. row = Some r \<and> kr_tenant r = t \<and> (\<forall>x. kr_revoked r = Some x \<longrightarrow> n \<le> x))"

definition kv_ok :: "bool \<Rightarrow> kview \<Rightarrow> bool" where
  "kv_ok mem s \<longleftrightarrow> hashes_ok (kv_table s) \<and>
     (\<forall>p h t e. dget (kv_caches s p) h = Some (t, e) \<longrightarrow>
        e - AUTH_CACHE_TTL_S \<le> kv_now s \<and> vouched (get_api_key_by_hash mem (kv_table s) h) t (e - AUTH_CACHE_TTL_S)) \<and>
     (\<forall>(p, h, n, got) \<in> set (kv_calls s). n \<le> kv_now s \<and> (\<forall>t. got = Some t \<longrightarrow> vouched (get_api_key_by_hash mem (kv_table s) h) t n))"

lemma vouched_same: "same_key r r' \<Longrightarrow> vouched r t n \<longleftrightarrow> vouched r' t n"
  by (cases r; cases r') (auto simp: same_key_def vouched_def)

lemma vouched_writes:
  assumes "hashes_ok a" and "vouched (get_api_key_by_hash mem a h) t n" and "n \<le> now"
  shows "vouched (get_api_key_by_hash mem (touch_api_key_last_used mem a i m) h) t n"
    and "vouched (get_api_key_by_hash mem (snd (revoke_api_key mem a i u now)) h) t n"
    and "get_api_key_by_hash mem a g = None \<Longrightarrow> vouched (get_api_key_by_hash mem (snd (create_api_key mem a i u g name m)) h) t n"
  using touch_row[OF assms(1), of mem i m h] vouched_same revoke_row[OF assms(1), of mem i u now h] create_row[OF assms(1), of mem g i u name m h] assms(2,3)
  by (auto simp: vouched_def)

lemma vouched_owner: "key_owner row = Some t \<Longrightarrow> vouched row t n"
  by (auto simp: key_owner_def vouched_def split: option.splits if_splits)

lemma auth_lookup_entries: "auth_lookup c h now = (r, c') \<Longrightarrow> dget c' g = Some e \<Longrightarrow> dget c g = Some e"
  by (auto simp: auth_lookup_def pdict_simps split: option.splits if_splits)

lemma kv_okI:
  assumes "hashes_ok (kv_table s)"
    and "\<And>p h t e. dget (kv_caches s p) h = Some (t, e) \<Longrightarrow> e - AUTH_CACHE_TTL_S \<le> kv_now s"
    and "\<And>p h t e. dget (kv_caches s p) h = Some (t, e) \<Longrightarrow> vouched (get_api_key_by_hash mem (kv_table s) h) t (e - AUTH_CACHE_TTL_S)"
    and "\<And>p h n got. (p, h, n, got) \<in> set (kv_calls s) \<Longrightarrow> n \<le> kv_now s"
    and "\<And>p h n t. (p, h, n, Some t) \<in> set (kv_calls s) \<Longrightarrow> vouched (get_api_key_by_hash mem (kv_table s) h) t n"
  shows "kv_ok mem s"
  using assms unfolding kv_ok_def by blast

lemma kv_okD:
  assumes "kv_ok mem s"
  shows "hashes_ok (kv_table s)"
    and "dget (kv_caches s p) h = Some (t, e) \<Longrightarrow> e - AUTH_CACHE_TTL_S \<le> kv_now s"
    and "dget (kv_caches s p) h = Some (t, e) \<Longrightarrow> vouched (get_api_key_by_hash mem (kv_table s) h) t (e - AUTH_CACHE_TTL_S)"
    and "(p, h, n, got) \<in> set (kv_calls s) \<Longrightarrow> n \<le> kv_now s"
    and "(p, h, n, Some t) \<in> set (kv_calls s) \<Longrightarrow> vouched (get_api_key_by_hash mem (kv_table s) h) t n"
  using assms unfolding kv_ok_def by blast+

lemma kv_step_ok:
  assumes "kv_step mem s s'" and "kv_ok mem s"
  shows "kv_ok mem s'"
  using assms
proof (induction rule: kv_step.induct)
  case (kv_tick s n)
  note d = kv_okD[OF kv_tick(2)]
  show ?case by (rule kv_okI) (use d kv_tick(1) order_trans in fastforce)+
next
  case (kv_hit s p h t c)
  note d = kv_okD[OF kv_hit(2)] and e = auth_lookup_entries[OF kv_hit(1)]
  show ?case by (rule kv_okI) (use d d(2)[OF e] d(3)[OF e] in \<open>auto split: if_splits\<close>)
next
  case (kv_miss s p h c)
  note d = kv_okD[OF kv_miss(2)] and e = auth_lookup_entries[OF kv_miss(1)]
  show ?case by (rule kv_okI) (use d d(2)[OF e] d(3)[OF e] in \<open>auto split: if_splits\<close>)
next
  case (kv_reject s xs p h n ys)
  note d = kv_okD[OF kv_reject(3)]
  have sub: "set xs \<union> set ys \<subseteq> set (kv_calls s)" using kv_reject(1) by auto
  show ?case by (rule kv_okI) (use d sub in \<open>(simp; blast)+\<close>)
next
  case (kv_read s xs p h n ys t)
  note d = kv_okD[OF kv_read(3)] and v = vouched_owner[OF kv_read(2), of n]
  have n: "(p, h, n, None) \<in> set (kv_calls s)" and sub: "set xs \<union> set ys \<subseteq> set (kv_calls s)" using kv_read(1) by auto
  show ?case by (rule kv_okI) (use d d(4)[OF n] sub v in \<open>(simp; blast)+\<close>)
next
  case (kv_fill s xs p h n t ys)
  note d = kv_okD[OF kv_fill(2)]
  have n: "(p, h, n, Some t) \<in> set (kv_calls s)" and sub: "set xs \<union> set ys \<subseteq> set (kv_calls s)" using kv_fill(1) by auto
  have e: "u = t \<and> e = n + AUTH_CACHE_TTL_S \<and> q = p \<and> g = h \<or> dget (kv_caches s q) g = Some (u, e)"
    if "dget (((kv_caches s)(p := auth_fill (kv_caches s p) h t n)) q) g = Some (u, e)" for q g u e
    using that by (auto simp: auth_fill_def pdict_simps split: if_splits)
  show ?case
    by (rule kv_okI) (use d(1) in simp, use d(2) d(4)[OF n] e in \<open>force simp del: fun_upd_apply\<close>,
      use d(3) d(5)[OF n] e in \<open>force simp del: fun_upd_apply\<close>, use d(4,5) sub in \<open>(simp; blast)+\<close>)
next
  case (kv_touch s i n)
  note d = kv_okD[OF kv_touch]
  note v = vouched_writes(1)[OF d(1) d(3) order_refl] vouched_writes(1)[OF d(1) d(5) order_refl]
  show ?case by (rule kv_okI) (use d(1,2,4) hashes_ok_writes(1) v in simp_all)
next
  case (kv_revoke s i t)
  note d = kv_okD[OF kv_revoke]
  note v = vouched_writes(2)[OF d(1) d(3) d(2)] vouched_writes(2)[OF d(1) d(5) d(4)]
  show ?case by (rule kv_okI) (use d(1,2,4) hashes_ok_writes(2) v in simp_all)
next
  case (kv_bust s p h)
  note d = kv_okD[OF kv_bust]
  show ?case by (rule kv_okI) (use d in \<open>auto simp: bust_api_key_cache_by_hash_def pdict_simps split: if_splits\<close>)
next
  case (kv_create s h i t name n)
  note d = kv_okD[OF kv_create(2)]
  note v = vouched_writes(3)[OF d(1) d(3) order_refl kv_create(1)] vouched_writes(3)[OF d(1) d(5) order_refl kv_create(1)]
  show ?case by (rule kv_okI) (use d(1,2,4) hashes_ok_writes(3) v in simp_all)
qed

text \<open>
  C36. A revoked key stops working everywhere within the cache's life time. In every state the
  replicas can reach, under every interleaving of lookups, reads, cache fills, touches, creations and
  revocations, on either backend: 30 seconds after the revocation no replica resolves the key, cached
  or not; a cached answer is always the tenant that owns the key; and the process that revokes a key
  and drops it from its cache does not resolve it again at once.
\<close>

theorem revoked_keys_expire:
  assumes "kv_reach mem s" and "get_api_key_by_hash mem (kv_table s) (sha token) = Some r" and "kr_revoked r = Some x"
  shows "(x + AUTH_CACHE_TTL_S \<le> kv_now s \<longrightarrow>
      (\<forall>p. fst (resolve_api_key sha mem (kv_table s) (kv_caches s p) token (kv_now s)) = None)) \<and>
    (\<forall>p t c. auth_lookup (kv_caches s p) (sha token) (kv_now s) = (Some t, c) \<longrightarrow> t = kr_tenant r) \<and>
    (\<forall>p. fst (resolve_api_key sha mem (kv_table s) (bust_api_key_cache_by_hash (kv_caches s p) (sha token)) token (kv_now s)) = None)"
proof -
  have "kv_ok mem s" using assms(1)
  proof (induction rule: kv_reach.induct)
    case (kv_init a n)
    then show ?case by (simp add: kv_ok_def hashes_ok_def)
  qed (rule kv_step_ok)
  note d = kv_okD(2,3)[OF this]
  let ?h = "sha token"
  have gone: "key_owner (get_api_key_by_hash mem (kv_table s) ?h) = None" using assms(2,3) by (simp add: key_owner_def)
  have entry: "t = kr_tenant r \<and> e \<le> x + AUTH_CACHE_TTL_S" if "dget (kv_caches s p) ?h = Some (t, e)" for p t e
    using d(2)[OF that] assms(2,3) by (auto simp: vouched_def)
  have "fst (resolve_api_key sha mem (kv_table s) (kv_caches s p) token (kv_now s)) = None"
    if "x + AUTH_CACHE_TTL_S \<le> kv_now s" for p
  proof -
    have "fst (auth_lookup (kv_caches s p) ?h (kv_now s)) = None"
      using entry[of p] that by (force simp: auth_lookup_def split: option.split)
    then show ?thesis using gone by (auto simp: resolve_api_key_def Let_def split: prod.split)
  qed
  moreover have "t = kr_tenant r" if "auth_lookup (kv_caches s p) ?h (kv_now s) = (Some t, c)" for p t c
    using entry[of p] that by (auto simp: auth_lookup_def split: option.splits if_splits)
  moreover have "fst (resolve_api_key sha mem (kv_table s) (bust_api_key_cache_by_hash (kv_caches s p) ?h) token (kv_now s)) = None" for p
    using gone by (simp add: resolve_api_key_def bust_api_key_cache_by_hash_def auth_lookup_def pdict_simps Let_def)
  ultimately show ?thesis by blast
qed

text \<open>A key created at 0 is cached by a replica until 30 and revoked at 5 by another.\<close>

definition no_keys :: accounts where
  "no_keys = \<lparr>ac_tenants = [], ac_emails = [], ac_keys = [], ac_hashes = [], ac_warm = []\<rparr>"

definition revoked_view :: kview where
  "revoked_view = \<lparr>kv_now = 30, kv_table = no_keys\<lparr>ac_keys := [(new_key ''k1'' ''acme'' ''h'' ''Default'' 0)\<lparr>kr_revoked := Some 0\<rparr>],
     ac_hashes := [(''h'', 0)]\<rparr>, kv_caches = (\<lambda>_. [])(''p'' := [(''h'', ''acme'', 30)]), kv_calls = []\<rparr>"

lemma revoked_view_reach: "kv_reach True revoked_view"
proof -
  let ?a = "no_keys\<lparr>ac_keys := [new_key ''k1'' ''acme'' ''h'' ''Default'' 0], ac_hashes := [(''h'', 0)]\<rparr>"
  let ?s = "\<lambda>a c calls. \<lparr>kv_now = 0, kv_table = a, kv_caches = c, kv_calls = calls\<rparr>"
  let ?c = "(\<lambda>_. [])(''p'' := [(''h'', ''acme'', 30)])"
  have "kv_reach True (?s no_keys (\<lambda>_. []) [])" by (rule kv_init) (simp_all add: no_keys_def)
  moreover have "kv_step True (?s no_keys (\<lambda>_. []) []) (?s ?a (\<lambda>_. []) [])"
    using kv_create[where mem = True and s = "?s no_keys (\<lambda>_. []) []" and h = "''h''" and i = "''k1''" and t = "''acme''" and name = "''Default''" and n = 0]
    by (simp add: get_api_key_by_hash_def mq_key_by_hash_def create_api_key_def mq_create_api_key_def no_keys_def)
  moreover have "kv_step True (?s ?a (\<lambda>_. []) []) (?s ?a (\<lambda>_. []) [(''p'', ''h'', 0, None)])"
    using kv_miss[where mem = True and s = "?s ?a (\<lambda>_. []) []" and h = "''h''" and p = "''p''"] by (simp add: auth_lookup_def fun_upd_idem)
  moreover have "kv_step True (?s ?a (\<lambda>_. []) [(''p'', ''h'', 0, None)]) (?s ?a (\<lambda>_. []) [(''p'', ''h'', 0, Some ''acme'')])"
    using kv_read[where mem = True and s = "?s ?a (\<lambda>_. []) [(''p'', ''h'', 0, None)]" and xs = "[]" and ys = "[]" and h = "''h''" and p = "''p''" and n = 0 and t = "''acme''"]
    by (simp add: get_api_key_by_hash_def mq_key_by_hash_def key_owner_def new_key_def)
  moreover have "kv_step True (?s ?a (\<lambda>_. []) [(''p'', ''h'', 0, Some ''acme'')]) (?s ?a ?c [])"
    using kv_fill[where mem = True and s = "?s ?a (\<lambda>_. []) [(''p'', ''h'', 0, Some ''acme'')]" and xs = "[]" and ys = "[]" and h = "''h''" and p = "''p''" and n = 0 and t = "''acme''"]
    by (simp add: auth_fill_def AUTH_CACHE_TTL_S_def)
  moreover have "kv_step True (?s ?a ?c []) (?s (kv_table revoked_view) ?c [])"
    using kv_revoke[where mem = True and s = "?s ?a ?c []" and i = "''k1''" and t = "''acme''"]
    by (simp add: revoked_view_def revoke_api_key_def mq_revoke_api_key_def get_api_key_def new_key_def no_keys_def)
  moreover have "kv_step True (?s (kv_table revoked_view) ?c []) revoked_view"
    using kv_tick[where mem = True and s = "?s (kv_table revoked_view) ?c []" and n = 30] by (simp add: revoked_view_def)
  ultimately show ?thesis by (meson kv_go)
qed

theorem revoked_keys_expire_witness:
  "dget (kv_caches revoked_view ''p'') ''h'' = Some (''acme'', 30) \<and> kv_now revoked_view = 30 \<and>
   fst (resolve_api_key (\<lambda>x. x) True (kv_table revoked_view) (kv_caches revoked_view ''p'') ''h'' 30) = None"
proof -
  let ?r = "(new_key ''k1'' ''acme'' ''h'' ''Default'' 0)\<lparr>kr_revoked := Some 0\<rparr>"
  have row: "get_api_key_by_hash True (kv_table revoked_view) ((\<lambda>x. x) ''h'') = Some ?r"
    by (simp add: get_api_key_by_hash_def mq_key_by_hash_def revoked_view_def)
  have rev: "kr_revoked ?r = Some 0" by simp
  have late: "0 + AUTH_CACHE_TTL_S \<le> kv_now revoked_view" by (simp add: AUTH_CACHE_TTL_S_def revoked_view_def)
  have "fst (resolve_api_key (\<lambda>x. x) True (kv_table revoked_view) (kv_caches revoked_view ''p'') ''h'' (kv_now revoked_view)) = None"
    using revoked_keys_expire[where sha = "\<lambda>x. x" and token = "''h''", OF revoked_view_reach row rev] late by blast
  then show ?thesis by (simp add: revoked_view_def)
qed

end
