(* ===== verification/Ephemeral.thy ===== *)
theory Ephemeral
  imports Query Auth
begin

text \<open>
  The rest of the query endpoint: \<open>execute_v1_query\<close> with its quota, and the ephemeral path of a dataset
  without a shard. A query is published as a job (\<open>enqueue_ephemeral\<close>), the runner searches and publishes
  the answer (\<open>services/ephemeral_runner/run.py\<close>), the query service's consumer stores it
  (\<open>result_store.py\<close>) and a status poll reads it. Latencies are arguments; spans and metrics are left
  out. Correlation ids, codes and messages are strings, as every writer sends them.
\<close>

section \<open>The authenticated route\<close>

text \<open>Without quotas nothing is consumed; an unknown tenant raises.\<close>

definition consume_query_quota ::
  "bool \<Rightarrow> bool \<Rightarrow> (day \<Rightarrow> string) \<Rightarrow> accounts \<Rightarrow> tenant \<Rightarrow> day \<Rightarrow> (pyexc + response option) \<times> accounts" where
  "consume_query_quota quotas mem day_text a t today =
     (if \<not> quotas then (Inr None, a)
      else case try_consume_query mem a t today of
          (Inl e, a1) \<Rightarrow> (Inl e, a1)
        | (Inr (ok, u), a1) \<Rightarrow> (Inr (if ok then None else Some (query_quota_429 day_text u)), a1))"

text \<open>The keys the \<open>QueryRequest\<close> model passes on.\<close>

definition request_fields :: "json \<Rightarrow> json" where
  "request_fields body = (case body of
     JObj b \<Rightarrow> JObj (filter (\<lambda>(key, _). key \<in> {''dataset'', ''vector'', ''top_k'', ''nprobe'', ''filter''}) b) | _ \<Rightarrow> body)"

text \<open>\<open>execute_v1_query\<close>: \<open>charge\<close> is the quota callback, absent on a data plane replica.\<close>

definition execute_v1_query ::
  "'i qenv \<Rightarrow> 'i faiss \<Rightarrow> 'i world \<Rightarrow> 'i dp \<Rightarrow> accounts \<Rightarrow> tenant \<Rightarrow> json
   \<Rightarrow> (accounts \<Rightarrow> (pyexc + response option) \<times> accounts) option \<Rightarrow> dberr option \<Rightarrow> time \<Rightarrow> fresh
   \<Rightarrow> (pyexc + query_answer) \<times> 'i dp \<times> 'i world \<times> accounts" where
  "execute_v1_query qe fx w d a t body charge fault now fr =
     (case validate_query_body (w_cat w) t body of
        Inl e \<Rightarrow> (Inl e, d, w, a)
      | Inr (Inl r) \<Rightarrow> (Inr (QError r), d, w, a)
      | Inr (Inr pq) \<Rightarrow>
         (case (case charge of None \<Rightarrow> (Inr None, a) | Some f \<Rightarrow> f a) of
            (Inl e, a1) \<Rightarrow> (Inl e, d, w, a1)
          | (Inr (Some r), a1) \<Rightarrow> (Inr (QError r), d, w, a1)
          | (Inr None, a1) \<Rightarrow> (let (ans, d1, w1) = run_query qe fx w d t pq fault now fr in (Inr ans, d1, w1, a1))))"

text \<open>\<open>POST /v1/query\<close> once the tenant is known and the rate limit passed.\<close>

definition v1_query ::
  "'i qenv \<Rightarrow> 'i faiss \<Rightarrow> bool \<Rightarrow> bool \<Rightarrow> (day \<Rightarrow> string) \<Rightarrow> 'i world \<Rightarrow> 'i dp \<Rightarrow> accounts \<Rightarrow> tenant \<Rightarrow> json
   \<Rightarrow> day \<Rightarrow> dberr option \<Rightarrow> time \<Rightarrow> fresh \<Rightarrow> (pyexc + query_answer) \<times> 'i dp \<times> 'i world \<times> accounts" where
  "v1_query qe fx quotas mem day_text w d a t body today fault now fr =
     execute_v1_query qe fx w d a t (request_fields body)
       (Some (\<lambda>a. consume_query_quota quotas mem day_text a t today)) fault now fr"

section \<open>The runner\<close>

text \<open>The loop over the hits: skip padding and filtered matches, stop at \<open>top_k\<close> survivors.\<close>

fun collect_matches :: "sidecar \<Rightarrow> meta \<Rightarrow> int \<Rightarrow> (rat \<times> int) list \<Rightarrow> rat match list \<Rightarrow> rat match list" where
  "collect_matches sc flt top_k [] acc = acc"
| "collect_matches sc flt top_k (h # hs) acc =
     (if snd h = -1 then collect_matches sc flt top_k hs acc
      else
        let m = hit_match sc h in
        if flt \<noteq> [] \<and> \<not> metadata_matches_filter (m_metadata m) flt then collect_matches sc flt top_k hs acc
        else if int (length (acc @ [m])) \<ge> top_k then acc @ [m]
        else collect_matches sc flt top_k hs (acc @ [m]))"

text \<open>An unfiltered search passes no parameters: the index's own default of cells is probed.\<close>

definition ephemeral_search ::
  "'i qenv \<Rightarrow> 'i faiss \<Rightarrow> 'i \<Rightarrow> sidecar \<Rightarrow> vec \<Rightarrow> int \<Rightarrow> meta \<Rightarrow> pyexc + rat match list" where
  "ephemeral_search qe fx ix sc x top_k flt =
     (let fetch_k = (if flt \<noteq> [] then (if fx_ntotal fx ix \<noteq> 0 then fx_ntotal fx ix else top_k) else top_k);
          np = (if flt \<noteq> [] then fst (ivf_search_params qe fx ix None True) else None)
      in case fx_search fx ix np x fetch_k of
           Inl e \<Rightarrow> Inl e
         | Inr hits \<Rightarrow> Inr (collect_matches sc flt top_k (take (nat fetch_k) hits) []))"

text \<open>\<open>handle\<close>: the runner keeps a listing cache and local files, but loads the shard every time.\<close>

definition handle ::
  "'i qenv \<Rightarrow> 'i faiss \<Rightarrow> 'i world \<Rightarrow> 'i dp \<Rightarrow> key \<Rightarrow> vec \<Rightarrow> int \<Rightarrow> meta \<Rightarrow> time
   \<Rightarrow> (query_exc + rat match list) \<times> 'i dp" where
  "handle qe fx w d k vector top_k flt now =
     (let (shards, cc) = cached_list_shards 10000 (dp_listing d) (w_cat w) k now (qe_freshness qe)
            (qe_tier qe \<noteq> None \<and> qe_freshness qe > 0);
          d1 = d\<lparr>dp_listing := cc\<rparr>
      in case shards of
           [] \<Rightarrow> (Inr [], d1)
         | s # _ \<Rightarrow>
            (case ensure_cached (qe_tier qe) (qe_dir qe) (be_down (qe_b qe)) (qe_size qe) (w_bucket w) (dp_disk d1) (sh_uri s) now of
               (Inl e, disk) \<Rightarrow> (Inl e, d1\<lparr>dp_disk := disk\<rparr>)
             | (Inr p, disk) \<Rightarrow>
                (case read_local (t_files disk) p of
                   Inl e \<Rightarrow> (Inl e, d1\<lparr>dp_disk := disk\<rparr>)
                 | Inr ix \<Rightarrow>
                    (case ephemeral_search qe fx ix (read_shard_sidecar (be_down (qe_b qe)) (w_bucket w) (sh_uri s))
                        (map (be_f32 (qe_b qe)) vector) top_k flt of
                       Inl e \<Rightarrow> (Inl (EExc e), d1\<lparr>dp_disk := disk\<rparr>)
                     | Inr ms \<Rightarrow> (Inr ms, d1\<lparr>dp_disk := disk\<rparr>)))))"

text \<open>
  The message of a job; None stands for the \<open>KeyError\<close> or the failed conversion. A null vector, which
  only the endpoint of \<open>Legacy_Query\<close> can send, is outside the model.
\<close>

record job_request =
  jr_key :: key
  jr_vector :: vec
  jr_top_k :: int
  jr_filter :: meta
  jr_cid :: string
  jr_reply :: string

definition str_or :: "meta \<Rightarrow> string \<Rightarrow> string \<Rightarrow> string" where
  "str_or p key dflt = (case dget p key of Some (JStr s) \<Rightarrow> s | _ \<Rightarrow> dflt)"

definition job_of :: "meta \<Rightarrow> job_request option" where
  "job_of p =
     (case (dget p ''dataset'', dget p ''vector'') of
        (Some (JStr dname), Some (JList xs)) \<Rightarrow>
          (case (floats_of xs, case dget p ''top_k'' of None \<Rightarrow> Some 10 | Some (JInt n) \<Rightarrow> Some n | _ \<Rightarrow> None) of
             (Inr v, Some n) \<Rightarrow> Some \<lparr>jr_key = (str_or p ''tenant'' ''default'', dname), jr_vector = v, jr_top_k = n,
                jr_filter = (case dget p ''filter'' of Some (JObj f) \<Rightarrow> f | _ \<Rightarrow> []),
                jr_cid = str_or p ''correlation_id'' [], jr_reply = str_or p ''reply_to'' ''RESULT_READY''\<rparr>
           | _ \<Rightarrow> None)
      | _ \<Rightarrow> None)"

definition json_match :: "rat match \<Rightarrow> json" where
  "json_match m = JObj [(''id'', JStr (m_id m)), (''score'', JFloat (Fin (m_score m))), (''metadata'', JObj (m_metadata m))]"

definition error_envelope_message :: "job_request \<Rightarrow> string \<Rightarrow> string \<Rightarrow> int \<Rightarrow> meta" where
  "error_envelope_message j code message latency =
     [(''correlation_id'', JStr (jr_cid j)), (''dataset'', JStr (snd (jr_key j))), (''ok'', JBool False),
      (''error'', JObj [(''code'', JStr code), (''message'', JStr message)]), (''latency_ms'', JInt latency)]"

definition result_message :: "job_request \<Rightarrow> rat match list \<Rightarrow> int \<Rightarrow> meta" where
  "result_message j ms latency =
     [(''correlation_id'', JStr (jr_cid j)), (''dataset'', JStr (snd (jr_key j))), (''ok'', JBool True),
      (''matches'', JList (map json_match ms)), (''latency_ms'', JInt latency)]"

text \<open>\<open>_handle_ephemeral\<close>: False means an exception reaches the loop, after the error was published.\<close>

definition handle_ephemeral ::
  "'i qenv \<Rightarrow> 'i faiss \<Rightarrow> 'i world \<Rightarrow> 'i dp \<Rightarrow> qstate \<Rightarrow> meta \<Rightarrow> time \<Rightarrow> int \<Rightarrow> string \<Rightarrow> bool \<times> 'i dp \<times> qstate" where
  "handle_ephemeral qe fx w d q payload now latency pub_id =
     (case job_of payload of
        None \<Rightarrow> (False, d, q)
      | Some j \<Rightarrow>
         (case handle qe fx w d (jr_key j) (jr_vector j) (jr_top_k j) (jr_filter j) now of
            (Inl e, d1) \<Rightarrow>
              (let (code, message) = classify_query_error e ''Cold-shard query failed''
               in (False, d1, if jr_cid j = [] then q
                    else publish (be_queue (qe_b qe)) q (jr_reply j) (error_envelope_message j code message latency) pub_id []))
          | (Inr ms, d1) \<Rightarrow>
              (True, d1, if jr_cid j = [] then q
                 else publish (be_queue (qe_b qe)) q (jr_reply j) (result_message j ms latency) pub_id [])))"

text \<open>
  One turn of \<open>main_loop\<close>: ack on success, nack on an exception; an entry that does not parse raises
  out of \<open>consume\<close> and ends the loop, the value \<open>Inl\<close>.
\<close>

definition runner_turn ::
  "'i qenv \<Rightarrow> 'i faiss \<Rightarrow> 'i world \<Rightarrow> 'i dp \<Rightarrow> time \<Rightarrow> int \<Rightarrow> string \<Rightarrow> string \<Rightarrow> pyexc + 'i dp \<times> 'i world" where
  "runner_turn qe fx w d now latency pub_id nack_id =
     (case consume (be_queue (qe_b qe)) (w_queue w) ''RUN_EPHEMERAL_QUERY'' now of
        (Inl e, q) \<Rightarrow> Inl e
      | (Inr None, q) \<Rightarrow> Inr (d, w\<lparr>w_queue := q\<rparr>)
      | (Inr (Some m), q) \<Rightarrow>
          (case handle_ephemeral qe fx (w\<lparr>w_queue := q\<rparr>) d q (msg_payload m) now latency pub_id of
             (True, d1, q1) \<Rightarrow> Inr (d1, w\<lparr>w_queue := ack (be_queue (qe_b qe)) q1 (Some m)\<rparr>)
           | (False, d1, q1) \<Rightarrow> Inr (d1, w\<lparr>w_queue := snd (nack (be_queue (qe_b qe)) q1 (Some m) True nack_id [])\<rparr>)))"

section \<open>The result store\<close>

text \<open>Redis keys carry an expiry; the in-process dictionary keeps its entries.\<close>

type_synonym results = "(string, meta \<times> time option) pdict"

definition store_result :: "qcfg \<Rightarrow> int \<Rightarrow> results \<Rightarrow> string \<Rightarrow> meta \<Rightarrow> time \<Rightarrow> results" where
  "store_result cfg ttl rs job result now = dset job (result, if q_redis cfg then Some (now + ttl) else None) rs"

definition get_result :: "results \<Rightarrow> string \<Rightarrow> time \<Rightarrow> meta option" where
  "get_result rs job now =
     (case dget rs job of
        None \<Rightarrow> None
      | Some (r, None) \<Rightarrow> Some r
      | Some (r, Some till) \<Rightarrow> if now < till then Some r else None)"

text \<open>One message of the consumer: store it under its correlation id, if it has one, and ack.\<close>

definition stash :: "qcfg \<Rightarrow> int \<Rightarrow> time \<Rightarrow> message \<Rightarrow> results \<Rightarrow> results" where
  "stash cfg ttl now m rs =
     (let cid = str_or (msg_payload m) ''correlation_id'' []
      in if cid = [] then rs else store_result cfg ttl rs cid (msg_payload m) now)"

definition result_turn :: "qcfg \<Rightarrow> int \<Rightarrow> time \<Rightarrow> qstate \<Rightarrow> results \<Rightarrow> pyexc + qstate \<times> results" where
  "result_turn cfg ttl now q rs =
     (case consume cfg q ''RESULT_READY'' now of
        (Inl e, q1) \<Rightarrow> Inl e
      | (Inr None, q1) \<Rightarrow> Inr (q1, rs)
      | (Inr (Some m), q1) \<Rightarrow> Inr (ack cfg q1 (Some m), stash cfg ttl now m rs))"

text \<open>The messages waiting on a topic, for the backend in use.\<close>

definition waiting :: "qcfg \<Rightarrow> qstate \<Rightarrow> string \<Rightarrow> wire list" where
  "waiting cfg q topic = (if q_redis cfg then q_main (topic_state q topic) else dget_or (qs_local q) topic [])"

lemma tq_consume_main:
  "tq_consume topic now t = (r, t') \<Longrightarrow> q_main t' = tl (q_main t) \<and> (q_main t = [] \<longleftrightarrow> r = Inr None) \<and>
    (\<forall>m. r = Inr (Some m) \<longrightarrow> msg_topic m = topic)"
  by (cases "q_main t") (auto simp: tq_consume_def redis_take_def stamp_def message_of_def split: wire.splits if_splits)

lemma consume_waiting:
  assumes "consume cfg q topic now = (r, q1)"
  shows "waiting cfg q1 topic = tl (waiting cfg q topic) \<and> (waiting cfg q topic = [] \<longleftrightarrow> r = Inr None) \<and>
    (\<forall>m. r = Inr (Some m) \<longrightarrow> msg_topic m = topic)"
proof (cases "q_redis cfg")
  case True
  obtain r1 t where t: "tq_consume topic now (topic_state q topic) = (r1, t)" by fastforce
  then show ?thesis using assms True tq_consume_main[OF t]
    by (simp add: consume_def waiting_def) (auto simp: set_topic_def topic_state_def dget_or_def pdict_simps)
next
  case False
  then show ?thesis using assms
    by (cases "dget_or (qs_local q) topic []")
      (auto simp: consume_def local_take_def waiting_def dget_or_def message_of_def pdict_simps split: wire.splits)
qed

lemma ack_waiting: "waiting cfg (ack cfg q (Some m)) topic = waiting cfg q topic"
  by (auto simp: ack_def waiting_def tq_ack_def forget_def set_topic_def topic_state_def dget_or_def pdict_simps)

text \<open>\<open>drain_result_queue_once\<close>: every turn takes a message off the list, and acks put none back.\<close>

function drain_result_queue_once :: "qcfg \<Rightarrow> int \<Rightarrow> time \<Rightarrow> qstate \<Rightarrow> results \<Rightarrow> pyexc + qstate \<times> results" where
  "drain_result_queue_once cfg ttl now q rs =
     (case consume cfg q ''RESULT_READY'' now of
        (Inl e, q1) \<Rightarrow> Inl e
      | (Inr None, q1) \<Rightarrow> Inr (q1, rs)
      | (Inr (Some m), q1) \<Rightarrow> drain_result_queue_once cfg ttl now (ack cfg q1 (Some m)) (stash cfg ttl now m rs))"
  by pat_completeness auto
termination
proof (relation "measure (\<lambda>(cfg, _, _, q, _). length (waiting cfg q ''RESULT_READY''))", goal_cases)
  case (2 cfg ttl now q rs x q1 y m)
  then have "consume cfg q ''RESULT_READY'' now = (Inr (Some m), q1)" by simp
  from consume_waiting[OF this] show ?case
    by (cases "waiting cfg q ''RESULT_READY''") (simp_all add: ack_waiting)
qed simp

text \<open>The status endpoint; an empty result counts as none.\<close>

definition v1_query_status :: "results \<Rightarrow> string \<Rightarrow> time \<Rightarrow> response" where
  "v1_query_status rs job now =
     (case get_result rs job now of
        None \<Rightarrow> (200, JObj [(''ready'', JBool False)])
      | Some [] \<Rightarrow> (200, JObj [(''ready'', JBool False)])
      | Some res \<Rightarrow>
          if dget res ''ok'' = Some (JBool False)
          then (let err = (case dget res ''error'' of Some (JObj e) \<Rightarrow> e | _ \<Rightarrow> []);
                    code = str_or err ''code'' []; message = str_or err ''message'' []
                in error_envelope 503 (if code = [] then ''ephemeral_error'' else code)
                     (if message = [] then ''Ephemeral query failed'' else message) None)
          else (200, JObj [(''ready'', JBool True),
                 (''matches'', case dget res ''matches'' of None \<Rightarrow> JList [] | Some x \<Rightarrow> x),
                 (''latency_ms'', case dget res ''latency_ms'' of None \<Rightarrow> JNull | Some x \<Rightarrow> x),
                 (''mode'', JStr ''ephemeral'')]))"

end
