(* ===== verification/Ephemeral_Properties.thy ===== *)
theory Ephemeral_Properties
  imports Ephemeral Query_Properties Quota_Properties Delivery_Properties
begin

text \<open>
  The query endpoint around the search: what a request costs, the life of an ephemeral job from the
  enqueue to the status poll on either queue backend, and the drain of the result topic.
\<close>

section \<open>What a request costs\<close>

lemma request_fields_dget:
  "key \<in> {''dataset'', ''vector'', ''top_k'', ''nprobe'', ''filter''} \<Longrightarrow>
    dget (filter (\<lambda>(key, _). key \<in> {''dataset'', ''vector'', ''top_k'', ''nprobe'', ''filter''}) b) key = dget b key"
  by (rule map_of_filter_key)

lemma accepted_fields: "accepted_body c t (request_fields body) pq \<longleftrightarrow> accepted_body c t body pq"
proof (cases body)
  case (JObj b)
  have "field (filter (\<lambda>(key, _). key \<in> {''dataset'', ''vector'', ''top_k'', ''nprobe'', ''filter''}) b) key = field b key"
    if "key \<in> {''dataset'', ''vector'', ''top_k'', ''nprobe'', ''filter''}" for key
    unfolding field_def request_fields_dget[OF that] ..
  then show ?thesis using JObj by (cases "pq_nprobe pq") (simp_all add: request_fields_def accepted_body_def)
qed (simp_all add: request_fields_def accepted_body_def)

lemma accepted_unique: "accepted_body c t body pq \<Longrightarrow> accepted_body c t body pq' \<Longrightarrow> pq = pq'"
  by (simp add: accepted_iff[symmetric])

text \<open>A charge is admitted exactly when the day's quota has room, and counts one then.\<close>

lemma charge_cases:
  assumes "dget (ac_tenants a) t = Some row"
  shows "\<exists>u a' row'. consume_query_quota True mem day_text a t today =
      (Inr (if used_on today row < tn_query_quota row then None else Some (query_quota_429 day_text u)), a') \<and>
    dget (ac_tenants a') t = Some row' \<and> tn_vectors row' = tn_vectors row \<and>
    used_on today row' = used_on today row + (if used_on today row < tn_query_quota row then 1 else 0)"
  using assms
  by (auto simp: consume_query_quota_def try_consume_query_def consume_query_agrees mq_defs used_on_def usage_from_row_def Let_def)

text \<open>
  C37. A query is charged exactly when it is served. With quotas on, on either backend: a malformed
  request costs nothing and changes nothing; a well-formed one of a tenant whose daily quota is used
  up is answered 429 without any search; otherwise one unit is charged and the answer, the caches and
  the state are those of the search.
\<close>

theorem query_charged_exactly:
  assumes "dget (ac_tenants a) t = Some row" and "v1_query qe fx True mem day_text w d a t body today fault now fr = (r, d', w', a')"
  shows "((\<forall>pq. \<not> accepted_body (w_cat w) t body pq) \<longrightarrow> d' = d \<and> w' = w \<and> a' = a \<and>
      (\<exists>resp. (r = Inr (QError resp) \<and> fst resp \<in> {400, 404}) \<or> r = Inl OverflowError)) \<and>
    (\<forall>pq. accepted_body (w_cat w) t body pq \<longrightarrow>
      (\<exists>row'. dget (ac_tenants a') t = Some row' \<and> tn_vectors row' = tn_vectors row \<and>
        (if used_on today row < tn_query_quota row
         then used_on today row' = used_on today row + 1 \<and> (\<exists>ans. run_query qe fx w d t pq fault now fr = (ans, d', w') \<and> r = Inr ans)
         else used_on today row' = used_on today row \<and> d' = d \<and> w' = w \<and> (\<exists>resp. r = Inr (QError resp) \<and> fst resp = 429))))"
proof -
  let ?b = "request_fields body"
  have rej: "d' = d \<and> w' = w \<and> a' = a \<and> (\<exists>resp. (r = Inr (QError resp) \<and> fst resp \<in> {400, 404}) \<or> r = Inl OverflowError)"
    if "\<forall>pq. \<not> accepted_body (w_cat w) t body pq"
  proof -
    have none: "validate_query_body (w_cat w) t ?b \<noteq> Inr (Inr pq)" for pq using that accepted_iff accepted_fields by blast
    show ?thesis
    proof (cases "validate_query_body (w_cat w) t ?b")
      case (Inl e)
      then have "refused ?b (Inl e)" using rejected_status[where c = "w_cat w" and t = t and body = ?b] by simp
      then show ?thesis using Inl assms(2) by (auto simp: refused_def v1_query_def execute_v1_query_def)
    next
      case (Inr x)
      then obtain resp where x: "x = Inl resp" using none by (cases x) auto
      then have "refused ?b (Inr resp)" using rejected_status[where c = "w_cat w" and t = t and body = ?b] Inr by simp
      then show ?thesis using Inr x assms(2) by (cases resp) (auto simp: refused_def v1_query_def execute_v1_query_def)
    qed
  qed
  have acc: "\<exists>row'. dget (ac_tenants a') t = Some row' \<and> tn_vectors row' = tn_vectors row \<and>
        (if used_on today row < tn_query_quota row
         then used_on today row' = used_on today row + 1 \<and> (\<exists>ans. run_query qe fx w d t pq fault now fr = (ans, d', w') \<and> r = Inr ans)
         else used_on today row' = used_on today row \<and> d' = d \<and> w' = w \<and> (\<exists>resp. r = Inr (QError resp) \<and> fst resp = 429))"
    if pq: "accepted_body (w_cat w) t body pq" for pq
  proof -
    have v: "validate_query_body (w_cat w) t ?b = Inr (Inr pq)" using pq accepted_iff accepted_fields by blast
    obtain u a1 row' where c: "consume_query_quota True mem day_text a t today =
        (Inr (if used_on today row < tn_query_quota row then None else Some (query_quota_429 day_text u)), a1)"
      "dget (ac_tenants a1) t = Some row'" "tn_vectors row' = tn_vectors row"
      "used_on today row' = used_on today row + (if used_on today row < tn_query_quota row then 1 else 0)"
      using charge_cases[OF assms(1), of mem day_text today] by blast
    have "\<exists>b. query_quota_429 day_text u = (429, b)" by (simp add: query_quota_429_def error_envelope_def)
    then show ?thesis using c assms(2) v
      by (auto simp: v1_query_def execute_v1_query_def Let_def split: if_splits prod.splits)
  qed
  from rej acc show ?thesis by blast
qed

definition demo_body :: json where
  "demo_body = JObj [(''dataset'', JStr ''docs''), (''vector'', JList [JInt 1]), (''top_k'', JInt 2)]"

lemma demo_body_accepted: "accepted_body (w_cat query_world) ''acme'' demo_body (demo_query 2)"
proof -
  have "get_dataset (w_cat query_world) (''acme'', ''docs'') = Some (fresh_dataset 1 ''jsonl'' 0)"
    by (simp add: shard_world_def empty_world_def get_dataset_def cat_row_def fresh_dataset_def)
  then show ?thesis
    unfolding accepted_iff[symmetric]
    by (simp add: validate_query_body_def demo_body_def demo_query_def fresh_dataset_def top_k_of_def nprobe_of_def filter_of_def get_or_def
      MAX_TOP_K_def float_of_int_def Let_def)
qed

theorem query_charged_exactly_witness:
  "\<exists>ans d' w' a' row'. v1_query demo_qe list_faiss True False (\<lambda>_. []) query_world empty_dp demo_accounts ''acme'' demo_body 7 None 20 demo_fresh =
     (Inr ans, d', w', a') \<and> run_query demo_qe list_faiss query_world empty_dp ''acme'' (demo_query 2) None 20 demo_fresh = (ans, d', w') \<and>
     dget (ac_tenants a') ''acme'' = Some row' \<and> used_on 7 row' = 1"
proof -
  obtain r d' w' a' where v: "v1_query demo_qe list_faiss True False (\<lambda>_. []) query_world empty_dp demo_accounts ''acme'' demo_body 7 None 20 demo_fresh =
      (r, d', w', a')" by (rule prod_cases4)
  obtain row where row: "dget (ac_tenants demo_accounts) ''acme'' = Some row" "used_on 7 row = 0" "tn_query_quota row = 2"
    by (simp add: demo_accounts_def used_on_def)
  from query_charged_exactly[OF row(1) v] demo_body_accepted row(2,3) v show ?thesis by auto
qed

section \<open>The life of a job\<close>

lemma waiting_publish:
  "waiting cfg (publish cfg q topic p i c) u =
    (if u = topic then (if q_redis cfg then envelope p i c # waiting cfg q topic else waiting cfg q topic @ [envelope p i c]) else waiting cfg q u)"
  by (simp add: waiting_def publish_def set_topic_def topic_state_def dget_or_def lpush_main_def pdict_simps Let_def)

lemma envelope_wire: "\<exists>fs. envelope p i c = Wire (JObj fs) \<and> strip_envelope fs = strip_envelope p"
  by (simp add: envelope_def Let_def strip_envelope_envelope)

lemma tq_consume_other: "u \<noteq> topic \<Longrightarrow> consume cfg q topic now = (r, q') \<Longrightarrow> waiting cfg q' u = waiting cfg q u"
  by (auto simp: consume_def local_take_def waiting_def set_topic_def topic_state_def dget_or_def pdict_simps Let_def
    split: list.splits wire.splits if_splits prod.splits)

lemma consume_single:
  assumes "waiting cfg q topic = [envelope p i c]"
  obtains m q' where "consume cfg q topic now = (Inr (Some m), q')" and "msg_payload m = strip_envelope p"
    and "msg_topic m = topic" and "waiting cfg q' topic = []" and "\<And>u. u \<noteq> topic \<Longrightarrow> waiting cfg q' u = waiting cfg q u"
proof -
  obtain fs where fs: "envelope p i c = Wire (JObj fs)" "strip_envelope fs = strip_envelope p" using envelope_wire by blast
  have "\<exists>q'. consume cfg q topic now = (Inr (Some (message_of topic (JObj fs))), q')"
    using assms fs(1) by (cases "q_redis cfg") (simp_all add: waiting_def consume_def tq_consume_def redis_take_def local_take_def)
  then obtain q' where c: "consume cfg q topic now = (Inr (Some (message_of topic (JObj fs))), q')" by blast
  show thesis
    using that[OF c] consume_waiting[OF c] tq_consume_other[OF _ c] assms fs(2) by (simp add: message_of_def)
qed

lemma nack_waiting: "u \<noteq> msg_topic m \<Longrightarrow> waiting cfg (snd (nack cfg q (Some m) rq i c)) u = waiting cfg q u"
  by (cases "q_redis cfg")
    (auto simp: nack_def waiting_def publish_def Let_def set_topic_def topic_state_def dget_or_def pdict_simps split: prod.split)

lemma floats_of_floats: "floats_of (map JFloat v) = Inr v"
  by (induction v) auto

definition job_message :: "'i qenv \<Rightarrow> key \<Rightarrow> parsed_query \<Rightarrow> string \<Rightarrow> meta" where
  "job_message qe k pq cid =
     [(''dataset'', JStr (snd k)), (''tenant'', JStr (fst k)), (''vector'', json_of_vec (pq_vector pq)),
      (''top_k'', JInt (pq_top_k pq)), (''filter'', JObj (pq_filter pq)), (''correlation_id'', JStr cid),
      (''reply_to'', JStr (qe_result_topic qe))]"

lemma job_of_message:
  "job_of (strip_envelope (job_message qe k pq cid)) = Some \<lparr>jr_key = k, jr_vector = pq_vector pq, jr_top_k = pq_top_k pq,
     jr_filter = pq_filter pq, jr_cid = cid, jr_reply = qe_result_topic qe\<rparr>"
  by (simp add: job_of_def job_message_def strip_envelope_def json_of_vec_def floats_of_floats str_or_def)

lemma enqueue_job: "enqueue_ephemeral qe w k pq fr = (QJob (''job_'' @ fr_shard fr),
    w\<lparr>w_queue := publish (be_queue (qe_b qe)) (w_queue w) ''RUN_EPHEMERAL_QUERY'' (job_message qe k pq (''job_'' @ fr_shard fr)) (fr_msg fr) []\<rparr>)"
  by (simp add: enqueue_ephemeral_def job_message_def Let_def)

lemma handle_queue: "handle qe fx (w\<lparr>w_queue := q\<rparr>) d k v n flt now = handle qe fx w d k v n flt now"
proof -
  have "w_cat (w\<lparr>w_queue := q\<rparr>) = w_cat w" "w_bucket (w\<lparr>w_queue := q\<rparr>) = w_bucket w" by simp_all
  then show ?thesis unfolding handle_def by (simp only:)
qed

text \<open>What the poll answers for the outcome of the search.\<close>

definition job_answer :: "query_exc + rat match list \<Rightarrow> int \<Rightarrow> response" where
  "job_answer res latency =
     (case res of
        Inl e \<Rightarrow> (let (code, message) = classify_query_error e ''Cold-shard query failed'' in error_envelope 503 code message None)
      | Inr ms \<Rightarrow> (200, JObj [(''ready'', JBool True), (''matches'', JList (map json_match ms)), (''latency_ms'', JInt latency),
          (''mode'', JStr ''ephemeral'')]))"

definition answer_message :: "job_request \<Rightarrow> query_exc + rat match list \<Rightarrow> int \<Rightarrow> meta" where
  "answer_message j res latency =
     (case res of Inl e \<Rightarrow> (let (code, message) = classify_query_error e ''Cold-shard query failed'' in error_envelope_message j code message latency)
      | Inr ms \<Rightarrow> result_message j ms latency)"

lemma answer_strip: "strip_envelope (answer_message j res latency) = answer_message j res latency"
  by (auto simp: answer_message_def error_envelope_message_def result_message_def strip_envelope_def Let_def split: sum.split prod.split)

lemma answer_cid: "str_or (answer_message j res latency) ''correlation_id'' [] = jr_cid j"
  by (auto simp: answer_message_def error_envelope_message_def result_message_def str_or_def Let_def split: sum.split prod.split)

lemma classify_nonempty: "classify_query_error e ''Cold-shard query failed'' = (code, message) \<Longrightarrow> code \<noteq> [] \<and> message \<noteq> []"
  by (auto simp: classify_query_error_def split: query_exc.splits)

lemma status_answer:
  assumes "get_result rs job now = Some (answer_message j res latency)"
  shows "v1_query_status rs job now = job_answer res latency"
proof (cases res)
  case (Inl e)
  obtain code message where c: "classify_query_error e ''Cold-shard query failed'' = (code, message)" by fastforce
  then show ?thesis using assms Inl classify_nonempty[OF c]
    by (simp add: v1_query_status_def answer_message_def error_envelope_message_def job_answer_def str_or_def Let_def)
next
  case (Inr ms)
  then show ?thesis using assms
    by (simp add: v1_query_status_def answer_message_def result_message_def job_answer_def)
qed

lemma handle_ephemeral_eq:
  assumes "job_of p = Some j" and "jr_cid j \<noteq> []"
    and "handle qe fx w d (jr_key j) (jr_vector j) (jr_top_k j) (jr_filter j) now = (res, d')"
  shows "handle_ephemeral qe fx w d q p now latency i =
    (\<not> isl res, d', publish (be_queue (qe_b qe)) q (jr_reply j) (answer_message j res latency) i [])"
  using assms by (cases res) (auto simp: handle_ephemeral_def answer_message_def Let_def split: prod.split)

text \<open>
  C38. An ephemeral job is answered. On either queue backend, a query that was handed over as a job,
  searched by a runner turn and collected by a turn of the result consumer is answered by the
  status poll, until the result expires: with the matches of the search, or with the classified error
  and status 503 when it failed. Before that the poll says not ready. A successful job leaves both
  topics empty.
\<close>

theorem ephemeral_job_answered:
  fixes qe :: "'i qenv"
  defines "cfg \<equiv> be_queue (qe_b qe)"
  assumes "waiting cfg (w_queue w) ''RUN_EPHEMERAL_QUERY'' = []" and "waiting cfg (w_queue w) ''RESULT_READY'' = []"
    and "qe_result_topic qe = ''RESULT_READY''" and "enqueue_ephemeral qe w k pq fr = (QJob cid, w1)"
    and "handle qe fx w d k (pq_vector pq) (pq_top_k pq) (pq_filter pq) now = (res, d')"
    and "dget rs cid = None" and "poll < now + ttl"
  shows "\<exists>w2 q3 rs'. runner_turn qe fx w1 d now latency i1 i2 = Inr (d', w2) \<and> result_turn cfg ttl now (w_queue w2) rs = Inr (q3, rs') \<and>
    v1_query_status rs cid poll = (200, JObj [(''ready'', JBool False)]) \<and> v1_query_status rs' cid poll = job_answer res latency \<and>
    (\<not> isl res \<longrightarrow> waiting cfg q3 ''RUN_EPHEMERAL_QUERY'' = [] \<and> waiting cfg q3 ''RESULT_READY'' = [])"
proof -
  let ?run = "''RUN_EPHEMERAL_QUERY''" and ?ready = "''RESULT_READY''"
  have cid: "cid = ''job_'' @ fr_shard fr" "w1 = w\<lparr>w_queue := publish cfg (w_queue w) ?run (job_message qe k pq cid) (fr_msg fr) []\<rparr>"
    using assms(5) by (auto simp: enqueue_job cfg_def)
  have "waiting cfg (w_queue w1) ?run = [envelope (job_message qe k pq cid) (fr_msg fr) []]" and r0: "waiting cfg (w_queue w1) ?ready = []"
    using assms(2,3) by (simp_all add: cid(2) waiting_publish)
  then obtain m q1 where m: "consume cfg (w_queue w1) ?run now = (Inr (Some m), q1)" "msg_payload m = strip_envelope (job_message qe k pq cid)"
    "msg_topic m = ?run" "waiting cfg q1 ?run = []" "waiting cfg q1 ?ready = []"
    by (elim consume_single[where now = now]) simp
  obtain j where j0: "job_of (msg_payload m) = Some j" "j = \<lparr>jr_key = k, jr_vector = pq_vector pq, jr_top_k = pq_top_k pq,
     jr_filter = pq_filter pq, jr_cid = cid, jr_reply = ?ready\<rparr>" using m(2) job_of_message[of qe k pq cid] assms(4) by auto
  have j: "jr_cid j = cid" "jr_reply j = ?ready" "jr_key j = k" "jr_vector j = pq_vector pq" "jr_top_k j = pq_top_k pq" "jr_filter j = pq_filter pq"
    using j0(2) by simp_all
  let ?q2 = "publish cfg q1 ?ready (answer_message j res latency) i1 []"
  have "handle qe fx (w1\<lparr>w_queue := q1\<rparr>) d (jr_key j) (jr_vector j) (jr_top_k j) (jr_filter j) now = (res, d')"
    using assms(6) by (simp add: cid(2) handle_queue j)
  then have h: "handle_ephemeral qe fx (w1\<lparr>w_queue := q1\<rparr>) d q1 (msg_payload m) now latency i1 = (\<not> isl res, d', ?q2)"
    using handle_ephemeral_eq[OF j0(1)] j(1,2) cid(1) by (simp add: cfg_def)
  let ?q3 = "if isl res then snd (nack cfg ?q2 (Some m) True i2 []) else ack cfg ?q2 (Some m)"
  have run: "runner_turn qe fx w1 d now latency i1 i2 = Inr (d', w1\<lparr>w_queue := ?q3\<rparr>)"
    using m(1) h by (simp add: runner_turn_def cfg_def)
  have "waiting cfg ?q3 ?ready = [envelope (answer_message j res latency) i1 []]"
    using m(3,5) by (simp add: nack_waiting ack_waiting waiting_publish)
  then obtain a q4 where a: "consume cfg ?q3 ?ready now = (Inr (Some a), q4)" "msg_payload a = answer_message j res latency"
    "waiting cfg q4 ?ready = []" "\<And>u. u \<noteq> ?ready \<Longrightarrow> waiting cfg q4 u = waiting cfg ?q3 u"
    by (elim consume_single[where now = now]) (simp add: answer_strip)
  have "cid \<noteq> []" by (simp add: cid(1))
  then have st: "stash cfg ttl now a rs = store_result cfg ttl rs cid (answer_message j res latency) now"
    by (simp add: stash_def a(2) answer_cid j)
  then have turn: "result_turn cfg ttl now ?q3 rs = Inr (ack cfg q4 (Some a), store_result cfg ttl rs cid (answer_message j res latency) now)"
    using a(1) by (simp add: result_turn_def)
  have "get_result (store_result cfg ttl rs cid (answer_message j res latency) now) cid poll = Some (answer_message j res latency)"
    using assms(8) by (simp add: get_result_def store_result_def pdict_simps)
  from status_answer[OF this] have ans: "v1_query_status (store_result cfg ttl rs cid (answer_message j res latency) now) cid poll = job_answer res latency" .
  have before: "v1_query_status rs cid poll = (200, JObj [(''ready'', JBool False)])"
    using assms(7) by (simp add: v1_query_status_def get_result_def)
  have "waiting cfg (ack cfg q4 (Some a)) ?run = [] \<and> waiting cfg (ack cfg q4 (Some a)) ?ready = []" if "\<not> isl res"
    using that m(4) a(3) a(4)[of ?run] by (simp add: ack_waiting waiting_publish)
  then show ?thesis using run turn ans before by (intro exI[of _ "w1\<lparr>w_queue := ?q3\<rparr>"]) auto
qed

definition demo_matches :: "rat match list" where
  "demo_matches = [\<lparr>m_id = ''a'', m_score = 0, m_metadata = []\<rparr>, \<lparr>m_id = ''b'', m_score = 1, m_metadata = []\<rparr>]"

definition reply_qe :: "list_index qenv" where
  "reply_qe = demo_qe\<lparr>qe_result_topic := ''RESULT_READY''\<rparr>"

lemma demo_handle: "\<exists>d'. handle reply_qe list_faiss shard_world empty_dp demo_key [Fin 1] 2 [] 20 = (Inr demo_matches, d')"
proof -
  have l: "list_shards (w_cat shard_world) demo_key = [old_shard]" by (rule shard_world_list)
  have s: "ephemeral_search reply_qe list_faiss old_index old_sidecar [Fin 1] 2 [] = Inr demo_matches"
    by (simp add: ephemeral_search_def list_faiss_def old_index_def old_sidecar_def hit_match_def demo_matches_def Let_def)
  have qe: "qe_tier reply_qe = None" "qe_b reply_qe = demo_benv" "be_f32 demo_benv = (\<lambda>x. x)" by (simp_all add: reply_qe_def)
  have "\<exists>disk. ensure_cached None (qe_dir reply_qe) (be_down demo_benv) (qe_size reply_qe) (w_bucket shard_world) (dp_disk empty_dp) (sh_uri old_shard) 20 =
      (Inr (qe_dir reply_qe @ ''/'' @ local_name (sh_uri old_shard)), disk) \<and>
      read_local (t_files disk) (qe_dir reply_qe @ ''/'' @ local_name (sh_uri old_shard)) = Inr old_index"
    by (simp add: ensure_cached_def empty_dp_def shard_world_def old_shard_def has_scheme_def starts_with_def download_to_def read_local_def Let_def pdict_simps)
  then obtain disk where disk: "ensure_cached None (qe_dir reply_qe) (be_down demo_benv) (qe_size reply_qe) (w_bucket shard_world) (dp_disk empty_dp) (sh_uri old_shard) 20 =
      (Inr (qe_dir reply_qe @ ''/'' @ local_name (sh_uri old_shard)), disk)"
      "read_local (t_files disk) (qe_dir reply_qe @ ''/'' @ local_name (sh_uri old_shard)) = Inr old_index" by blast
  have sc: "read_shard_sidecar (be_down demo_benv) (w_bucket shard_world) (sh_uri old_shard) = old_sidecar"
    by (simp add: read_shard_sidecar_def shard_world_def old_shard_def sidecar_uri_def has_scheme_def starts_with_def read_bytes_def)
  show ?thesis using s disk sc l by (simp add: handle_def cached_list_shards_def qe)
qed

theorem ephemeral_job_answered_witness:
  "\<exists>w1 w2 d' q3 rs'. enqueue_ephemeral reply_qe shard_world demo_key (demo_query 2) demo_fresh = (QJob ''job_shard-1'', w1) \<and>
     runner_turn reply_qe list_faiss w1 empty_dp 20 7 ''m2'' ''m3'' = Inr (d', w2) \<and>
     result_turn (be_queue demo_benv) 3600 20 (w_queue w2) [] = Inr (q3, rs') \<and>
     v1_query_status rs' ''job_shard-1'' 30 = (200, JObj [(''ready'', JBool True), (''matches'', JList (map json_match demo_matches)),
       (''latency_ms'', JInt 7), (''mode'', JStr ''ephemeral'')])"
proof -
  obtain d' where h: "handle reply_qe list_faiss shard_world empty_dp demo_key [Fin 1] 2 [] 20 = (Inr demo_matches, d')" using demo_handle by blast
  have q: "qe_b reply_qe = demo_benv" by (simp add: reply_qe_def)
  have e: "enqueue_ephemeral reply_qe shard_world demo_key (demo_query 2) demo_fresh = (QJob ''job_shard-1'', snd (enqueue_ephemeral reply_qe shard_world demo_key (demo_query 2) demo_fresh))"
    by (simp add: enqueue_ephemeral_def demo_fresh_def Let_def)
  have w: "waiting (be_queue (qe_b reply_qe)) (w_queue shard_world) u = []" for u
    by (simp add: q waiting_def shard_world_def empty_world_def demo_benv_def topic_state_def dget_or_def empty_topic_def)
  have t: "qe_result_topic reply_qe = ''RESULT_READY''" by (simp add: reply_qe_def)
  have h': "handle reply_qe list_faiss shard_world empty_dp demo_key (pq_vector (demo_query 2)) (pq_top_k (demo_query 2)) (pq_filter (demo_query 2)) 20 =
      (Inr demo_matches, d')" using h by simp
  let ?w1 = "snd (enqueue_ephemeral reply_qe shard_world demo_key (demo_query 2) demo_fresh)"
  have "\<exists>w2 q3 rs'. runner_turn reply_qe list_faiss ?w1 empty_dp 20 7 ''m2'' ''m3'' = Inr (d', w2) \<and>
      result_turn (be_queue demo_benv) 3600 20 (w_queue w2) [] = Inr (q3, rs') \<and> v1_query_status rs' ''job_shard-1'' 30 = job_answer (Inr demo_matches) 7"
    using ephemeral_job_answered[where rs = "[]" and poll = 30 and ttl = 3600 and latency = 7 and ?i1.0 = "''m2''" and ?i2.0 = "''m3''",
        OF w w t e h'] by (auto simp: q)
  then show ?thesis using e unfolding job_answer_def sum.case by blast
qed

section \<open>Draining the result topic\<close>






end
