(* ===== verification/Text.thy ===== *)
theory Text
  imports Prelude
begin

text \<open>
  The text operations of Python the services use: decimal literals, \<open>str.splitlines\<close>,
  \<open>str.strip\<close>, \<open>str.rpartition\<close> and \<open>str.split\<close> on one character. A string is a list of
  characters up to U+00FF.
\<close>

section \<open>Decimal literals\<close>

definition digit :: "nat \<Rightarrow> char" where
  "digit n = char_of (48 + n)"

fun dec :: "nat \<Rightarrow> string" where
  "dec n = (if n < 10 then [digit n] else dec (n div 10) @ [digit (n mod 10)])"

declare dec.simps [simp del]

definition str_int :: "int \<Rightarrow> string" where
  "str_int n = (if n < 0 then ''-'' @ dec (nat (- n)) else dec (nat n))"

lemma dec_not_Nil [simp]: "dec n \<noteq> []"
  by (subst dec.simps) simp

section \<open>Lines and blanks\<close>

text \<open>The line boundaries and the whitespace of \<open>str\<close> among those characters.\<close>

definition line_break :: "char \<Rightarrow> bool" where
  "line_break c \<longleftrightarrow> of_char c \<in> {0x0A, 0x0B, 0x0C, 0x0D, 0x1C, 0x1D, 0x1E, 0x85 :: nat}"

definition blank :: "char \<Rightarrow> bool" where
  "blank c \<longleftrightarrow> of_char c \<in> {0x09, 0x0A, 0x0B, 0x0C, 0x0D, 0x1C, 0x1D, 0x1E, 0x1F, 0x20, 0x85, 0xA0 :: nat}"

text \<open>A carriage return with a line feed after it is one boundary; a final boundary opens no line.\<close>

function split_from :: "string \<Rightarrow> string \<Rightarrow> string list" where
  "split_from acc [] = (if acc = [] then [] else [rev acc])"
| "split_from acc (c # cs) =
     (if line_break c
      then rev acc # split_from [] (if c = CHR 0x0D \<and> take 1 cs = [CHR 0x0A] then drop 1 cs else cs)
      else split_from (c # acc) cs)"
  by pat_completeness auto
termination
  by (relation "measure (length \<circ> snd)") auto

definition splitlines :: "string \<Rightarrow> string list" where
  "splitlines s = split_from [] s"

definition strip :: "string \<Rightarrow> string" where
  "strip s = rev (dropWhile blank (rev (dropWhile blank s)))"

definition join :: "string \<Rightarrow> string list \<Rightarrow> string" where
  "join sep xs = (case xs of [] \<Rightarrow> [] | x # rest \<Rightarrow> foldl (\<lambda>s y. s @ sep @ y) x rest)"

text \<open>Lines without a boundary inside come back from the text that joins them.\<close>

lemma split_from_line:
  "list_all (\<lambda>c. \<not> line_break c) l \<Longrightarrow> split_from acc (l @ CHR 0x0A # s) = (rev acc @ l) # split_from [] s"
  by (induction l arbitrary: acc) (auto simp: line_break_def)

lemma split_from_last:
  "list_all (\<lambda>c. \<not> line_break c) l \<Longrightarrow> split_from acc l = (if acc = [] \<and> l = [] then [] else [rev acc @ l])"
  by (induction l arbitrary: acc) auto

lemma join_Cons: "join sep (x # xs) = x @ (if xs = [] then [] else sep @ join sep xs)"
proof -
  have "foldl (\<lambda>s y. s @ sep @ y) (a @ b) zs = a @ foldl (\<lambda>s y. s @ sep @ y) b zs" for a b zs
    by (induction zs arbitrary: b) simp_all
  from this[of x] this[of "x @ sep"] show ?thesis by (cases xs) (simp_all add: join_def)
qed

lemma splitlines_join:
  "list_all (list_all (\<lambda>c. \<not> line_break c)) ls \<Longrightarrow> ls \<noteq> [] \<Longrightarrow> splitlines (join [CHR 0x0A] ls @ [CHR 0x0A]) = ls"
proof (induction ls)
  case (Cons l ls)
  then show ?case
    by (cases ls) (simp_all add: splitlines_def join_Cons split_from_line)
qed simp

section \<open>Splitting on a character\<close>

text \<open>\<open>s.rpartition(c)\<close> when \<open>c\<close> occurs: what is before and after the last occurrence.\<close>

definition before_last :: "char \<Rightarrow> string \<Rightarrow> string" where
  "before_last c s = rev (drop 1 (dropWhile (\<lambda>x. x \<noteq> c) (rev s)))"

definition after_last :: "char \<Rightarrow> string \<Rightarrow> string" where
  "after_last c s = rev (takeWhile (\<lambda>x. x \<noteq> c) (rev s))"

fun split_on :: "char \<Rightarrow> string \<Rightarrow> string list" where
  "split_on c [] = [[]]"
| "split_on c (x # xs) =
     (if x = c then [] # split_on c xs
      else case split_on c xs of [] \<Rightarrow> [[x]] | p # ps \<Rightarrow> (x # p) # ps)"

lemma split_on_part: "c \<notin> set p \<Longrightarrow> split_on c p = [p]"
  by (induction p) auto

lemma split_on_Cons: "c \<notin> set p \<Longrightarrow> split_on c (p @ c # s) = p # split_on c s"
  by (induction p) auto

lemma before_last_append: "c \<notin> set q \<Longrightarrow> before_last c (p @ c # q) = p"
  by (simp add: before_last_def dropWhile_append)

lemma after_last_append: "c \<notin> set q \<Longrightarrow> after_last c (p @ c # q) = q"
  by (auto simp: after_last_def takeWhile_append)

lemma rpartition: "c \<in> set s \<Longrightarrow> before_last c s @ c # after_last c s = s"
proof -
  assume "c \<in> set s"
  then obtain p q where s: "s = p @ c # q" "c \<notin> set q" by (metis split_list_last)
  then show ?thesis by (simp add: before_last_append after_last_append)
qed

section \<open>Integer literals\<close>

definition digit_val :: "char \<Rightarrow> int option" where
  "digit_val c = (let n = of_char c :: nat in if 48 \<le> n \<and> n \<le> 57 then Some (int n - 48) else None)"

text \<open>Digits with single underscores between them; \<open>after\<close> tells whether a digit came just before.\<close>

fun int_digits :: "bool \<Rightarrow> int \<Rightarrow> string \<Rightarrow> int option" where
  "int_digits after acc [] = (if after then Some acc else None)"
| "int_digits after acc (c # cs) =
     (case digit_val c of
        Some d \<Rightarrow> int_digits True (acc * 10 + d) cs
      | None \<Rightarrow> if c = CHR ''_'' \<and> after then int_digits False acc cs else None)"

text \<open>\<open>int(s)\<close>: blanks around, one sign, at most 4300 digits; None is the ValueError.\<close>

definition py_int :: "string \<Rightarrow> int option" where
  "py_int s =
     (let t = strip s;
          (neg, ds) = (case t of c # cs \<Rightarrow> if c = CHR ''-'' then (True, cs) else if c = CHR ''+'' then (False, cs) else (False, t)
                       | [] \<Rightarrow> (False, []))
      in if length (filter (\<lambda>c. digit_val c \<noteq> None) ds) > 4300 then None
         else map_option (\<lambda>n. if neg then - n else n) (int_digits False 0 ds))"

section \<open>URL-safe base64\<close>

text \<open>Bytes are characters. The padding character closes a last group of one or two bytes.\<close>

definition b64_alphabet :: string where
  "b64_alphabet = ''ABCDEFGHIJKLMNOPQRSTUVWXYZabcdefghijklmnopqrstuvwxyz0123456789-_''"

definition b64_char :: "nat \<Rightarrow> char" where
  "b64_char n = b64_alphabet ! n"

fun b64_bytes :: "nat list \<Rightarrow> string" where
  "b64_bytes (a # b # c # rest) =
     b64_char (a div 4) # b64_char (a mod 4 * 16 + b div 16) # b64_char (b mod 16 * 4 + c div 64) # b64_char (c mod 64) # b64_bytes rest"
| "b64_bytes [a, b] = [b64_char (a div 4), b64_char (a mod 4 * 16 + b div 16), b64_char (b mod 16 * 4), CHR ''='']"
| "b64_bytes [a] = [b64_char (a div 4), b64_char (a mod 4 * 16), CHR ''='', CHR ''='']"
| "b64_bytes [] = []"

definition urlsafe_b64encode :: "string \<Rightarrow> string" where
  "urlsafe_b64encode s = b64_bytes (map of_char s)"

text \<open>The value of a character; the plain alphabet's two last characters are accepted too.\<close>

fun index_of :: "'a \<Rightarrow> 'a list \<Rightarrow> nat option" where
  "index_of x [] = None"
| "index_of x (y # ys) = (if x = y then Some 0 else map_option Suc (index_of x ys))"

definition b64_val :: "char \<Rightarrow> nat option" where
  "b64_val c = (if c = CHR ''+'' then Some 62 else if c = CHR ''/'' then Some 63 else index_of c b64_alphabet)"

text \<open>
  The scanner of the C library: other characters are skipped, a padding that completes the group
  ends the scan, and a group left open is an error. \<open>pos\<close> is the position in the group, \<open>left\<close> the bits
  carried over, \<open>pads\<close> the padding characters seen since the last data character.
\<close>

fun b64_scan :: "nat \<Rightarrow> nat \<Rightarrow> nat \<Rightarrow> nat list \<Rightarrow> string \<Rightarrow> nat list option" where
  "b64_scan pos left pads out [] = (if pos = 0 then Some out else None)"
| "b64_scan pos left pads out (c # cs) =
     (if c = CHR ''=''
      then (if pos \<ge> 2 \<and> pos + Suc pads \<ge> 4 then Some out
            else b64_scan pos left (if pos \<ge> 2 then Suc pads else pads) out cs)
      else case b64_val c of
          None \<Rightarrow> b64_scan pos left pads out cs
        | Some v \<Rightarrow>
            if pos = 0 then b64_scan 1 v 0 out cs
            else if pos = 1 then b64_scan 2 (v mod 16) 0 (out @ [left * 4 + v div 16]) cs
            else if pos = 2 then b64_scan 3 (v mod 4) 0 (out @ [left * 16 + v div 4]) cs
            else b64_scan 0 0 0 (out @ [left * 64 + v]) cs)"

definition urlsafe_b64decode :: "string \<Rightarrow> string option" where
  "urlsafe_b64decode s = map_option (map char_of) (b64_scan 0 0 0 [] s)"

lemma length_alphabet: "length b64_alphabet = 64"
  by (simp add: b64_alphabet_def)

lemma distinct_alphabet: "distinct b64_alphabet"
  by (simp add: b64_alphabet_def)

lemma index_of_nth: "distinct xs \<Longrightarrow> n < length xs \<Longrightarrow> index_of (xs ! n) xs = Some n"
proof (induction xs arbitrary: n)
  case (Cons x xs)
  then show ?case by (cases n) auto
qed simp

lemma alphabet_apart: "CHR ''='' \<notin> set b64_alphabet" "CHR ''+'' \<notin> set b64_alphabet" "CHR ''/'' \<notin> set b64_alphabet"
  by (simp_all add: b64_alphabet_def)

lemma b64_val_char [simp]: "n < 64 \<Longrightarrow> b64_val (b64_char n) = Some n" "n < 64 \<Longrightarrow> b64_char n \<noteq> CHR ''=''"
proof -
  assume n: "n < 64"
  then have "b64_char n \<in> set b64_alphabet" by (simp add: b64_char_def length_alphabet)
  then have "b64_char n \<noteq> CHR ''+''" "b64_char n \<noteq> CHR ''/''" and "b64_char n \<noteq> CHR ''=''"
    using alphabet_apart by metis+
  then show "b64_val (b64_char n) = Some n" "b64_char n \<noteq> CHR ''=''"
    using index_of_nth[OF distinct_alphabet, of n] n by (simp_all add: b64_val_def b64_char_def length_alphabet)
qed

lemma b64_scan_bytes:
  "\<forall>b \<in> set bs. b < 256 \<Longrightarrow> b64_scan 0 0 0 out (b64_bytes bs) = Some (out @ bs)"
proof (induction bs arbitrary: out rule: b64_bytes.induct)
  case (1 a b c rest)
  have d: "b div 16 < 16" "c div 64 < 4" using 1(2) by auto
  then have e: "(a mod 4 * 16 + b div 16) div 16 = a mod 4" "(b mod 16 * 4 + c div 64) div 4 = b mod 16"
    "b div 16 mod 16 = b div 16" "c div 64 mod 4 = c div 64"
    by simp_all
  have l: "a div 4 < 64" "a mod 4 * 16 + b div 16 < 64" "b mod 16 * 4 + c div 64 < 64" "c mod 64 < 64"
    using 1(2) d by auto
  show ?case using 1 l by (simp add: e)
next
  case (2 a b)
  then have d: "b div 16 < 16" by auto
  then have e: "b div 16 div 16 = 0" "b div 16 mod 16 = b div 16" by simp_all
  have l: "a div 4 < 64" "a mod 4 * 16 + b div 16 < 64" "b mod 16 * 4 < 64" using 2 d by auto
  show ?case using l by (simp add: e)
next
  case (3 a)
  then have l: "a div 4 < 64" "a mod 4 * 16 < 64" by auto
  show ?case using l by simp
qed simp

lemma urlsafe_b64_roundtrip: "urlsafe_b64decode (urlsafe_b64encode s) = Some s"
proof -
  have "\<forall>b \<in> set (map of_char s :: nat list). b < 256" by simp
  then show ?thesis using b64_scan_bytes[of "map of_char s" "[]"]
    by (simp add: urlsafe_b64decode_def urlsafe_b64encode_def comp_def)
qed

end
