(* ===== verification/Import.thy ===== *)
theory Import
  imports Builder Quota Text
begin

text \<open>
  The validator worker, \<open>services/validator_worker/run.py\<close>: one record, one uploaded file (lines of
  JSON or Parquet), one import job from its staged upload to its landing part, and the handler of a
  VALIDATE_DATASET message; with the landing writer, \<open>adapters/landing/parquet_writer.py\<close>, and the
  metadata cells of its reader. Decoding bytes as text, parsing and printing JSON, and reading a
  Parquet file are parameters.
\<close>

section \<open>Configuration\<close>

text \<open>Arrow types as far as the schema check tells them apart; a Parquet file is its batches.\<close>

datatype arrow =
    AString | ALargeString | AFloat32 | AFloat64 | AList arrow | ALargeList arrow | AFixedList arrow
  | AStruct | AMap | AOther string

record pq_row =
  pr_id :: "string option"
  pr_values :: "pyfloat option list option"
  pr_meta :: "json option"

record pq_file =
  pf_schema :: "(string \<times> arrow) list"
  pf_batches :: "pq_row list list"

record 'i venv =
  ve_env :: benv
  ve_dim :: int
  ve_max_bytes :: int
  ve_quotas :: bool
  ve_memory :: bool
  ve_size :: "'i blob \<Rightarrow> int"
  ve_text :: "'i blob \<Rightarrow> string option"
  ve_loads :: "string \<Rightarrow> pyexc + json"
  ve_dumps :: "json \<Rightarrow> string"
  ve_parquet :: "'i blob \<Rightarrow> pq_file option"
  ve_http :: "uri \<Rightarrow> pyexc + string list"

section \<open>One record\<close>

text \<open>\<open>isinstance(x, (float, int))\<close>, which a bool passes, and \<open>float(x)\<close>.\<close>

fun is_real :: "json \<Rightarrow> bool" where
  "is_real (JBool _) = True"
| "is_real (JInt _) = True"
| "is_real (JFloat _) = True"
| "is_real _ = False"

fun py_float :: "json \<Rightarrow> pyexc + pyfloat" where
  "py_float (JBool b) = Inr (Fin (if b then 1 else 0))"
| "py_float (JInt n) = float_of_int n"
| "py_float (JFloat f) = Inr f"
| "py_float _ = Inl (OtherError ''TypeError'')"

fun py_floats :: "json list \<Rightarrow> pyexc + pyfloat list" where
  "py_floats [] = Inr []"
| "py_floats (x # xs) =
     (case py_float x of
        Inl e \<Rightarrow> Inl e
      | Inr f \<Rightarrow> (case py_floats xs of Inl e \<Rightarrow> Inl e | Inr fs \<Rightarrow> Inr (f # fs)))"

text \<open>
  \<open>_validate_record\<close>. On a decoded value that is not an object the membership test or the
  subscript raises TypeError, unless the value is a list or string without \<open>"id"\<close> in it.
\<close>

definition substring :: "string \<Rightarrow> string \<Rightarrow> bool" where
  "substring p s \<longleftrightarrow> list_ex (\<lambda>n. take (length p) (drop n s) = p) [0..<Suc (length s)]"

definition validate_record :: "json \<Rightarrow> int \<Rightarrow> pyexc + landing_row" where
  "validate_record obj dm =
     (case obj of
        JObj fs \<Rightarrow>
         (case dget fs ''id'' of
            Some (JStr i) \<Rightarrow>
              if i = [] then Inl (ValueError ''missing id'')
              else (case dget fs ''values'' of
                  Some (JList vs) \<Rightarrow>
                    if \<not> list_all is_real vs then Inl (ValueError ''values must be list[float]'')
                    else if int (length vs) \<noteq> dm
                      then Inl (ValueError (''dimension mismatch: got '' @ dec (length vs) @ '' expected '' @ str_int dm))
                    else (case (case dget fs ''metadata'' of None \<Rightarrow> JObj [] | Some JNull \<Rightarrow> JObj [] | Some m \<Rightarrow> m) of
                        JObj metadata \<Rightarrow>
                         (case py_floats vs of
                            Inl e \<Rightarrow> Inl e
                          | Inr xs \<Rightarrow> Inr \<lparr>lr_id = i, lr_values = xs, lr_meta = metadata\<rparr>)
                      | _ \<Rightarrow> Inl (ValueError ''metadata must be object''))
                | _ \<Rightarrow> Inl (ValueError ''values must be list[float]''))
          | _ \<Rightarrow> Inl (ValueError ''missing id''))
      | JList xs \<Rightarrow> Inl (if JStr ''id'' \<in> set xs then OtherError ''TypeError'' else ValueError ''missing id'')
      | JStr s \<Rightarrow> Inl (if substring ''id'' s then OtherError ''TypeError'' else ValueError ''missing id'')
      | _ \<Rightarrow> Inl (OtherError ''TypeError''))"

section \<open>The landing part\<close>

text \<open>The stored part, as the reader decodes it: values are float32.\<close>

definition landed_row :: "benv \<Rightarrow> landing_row \<Rightarrow> landing_row" where
  "landed_row env r = r\<lparr>lr_values := map (be_f32 env) (lr_values r)\<rparr>"

text \<open>A fixed-size list column needs one positive width.\<close>

definition records_to_table :: "benv \<Rightarrow> landing_row list \<Rightarrow> pyexc + landing_row list" where
  "records_to_table env rs =
     (if rs \<noteq> [] \<and> (\<not> same_width (map lr_values rs) \<or> part_width rs = 0) then Inl (OtherError ''ArrowInvalid'')
      else Inr (map (landed_row env) rs))"

definition next_part_uri :: "string \<Rightarrow> string \<Rightarrow> uri" where
  "next_part_uri prefix uid =
     (let part = ''part-'' @ uid @ ''.parquet''
      in if ends_with ''/'' prefix then prefix @ part else prefix @ ''/'' @ part)"

definition write_parquet :: "benv \<Rightarrow> 'i bucket \<Rightarrow> string \<Rightarrow> landing_row list \<Rightarrow> string \<Rightarrow> pyexc + 'i bucket" where
  "write_parquet env b prefix rs uid =
     (case records_to_table env rs of
        Inl e \<Rightarrow> Inl e
      | Inr rows \<Rightarrow> write_bytes (be_down env) b (next_part_uri prefix uid) (PartB rows))"

text \<open>\<open>_decode_metadata\<close>: a string cell holds JSON, a struct reads as a dict, a map as a list of pairs.\<close>

fun pair_items :: "json list \<Rightarrow> meta option" where
  "pair_items [] = Some []"
| "pair_items (JList [JStr k, v] # xs) = (case pair_items xs of None \<Rightarrow> None | Some m \<Rightarrow> Some ((k, v) # m))"
| "pair_items (_ # xs) = None"

definition decode_metadata :: "(string \<Rightarrow> pyexc + json) \<Rightarrow> json option \<Rightarrow> meta" where
  "decode_metadata loads cell =
     (case cell of
        Some (JStr s) \<Rightarrow> (case loads s of Inr (JObj m) \<Rightarrow> m | _ \<Rightarrow> [])
      | Some (JObj m) \<Rightarrow> m
      | Some (JList xs) \<Rightarrow> (case pair_items xs of None \<Rightarrow> [] | Some m \<Rightarrow> foldl (\<lambda>d (k, v). dset k v d) [] m)
      | _ \<Rightarrow> [])"

section \<open>A Parquet upload\<close>

fun list_of :: "arrow \<Rightarrow> arrow option" where
  "list_of (AList t) = Some t"
| "list_of (ALargeList t) = Some t"
| "list_of (AFixedList t) = Some t"
| "list_of _ = None"

text \<open>\<open>_validate_parquet_schema\<close>: None accepts, else the reason without the printed types.\<close>

definition validate_parquet_schema :: "(string \<times> arrow) list \<Rightarrow> string option" where
  "validate_parquet_schema sc =
     (if \<not> distinct (map fst sc) then Some ''Parquet has duplicate column names''
      else if dget sc ''id'' = None \<or> dget sc ''values'' = None then Some ''Parquet missing required column(s)''
      else if \<not> set (map fst sc) \<subseteq> {''id'', ''values'', ''metadata''} then Some ''Parquet has unexpected column(s)''
      else if dget sc ''id'' \<notin> {Some AString, Some ALargeString} then Some ''id column must be a string''
      else (case Option.bind (dget sc ''values'') list_of of
          None \<Rightarrow> Some ''values column must be a list of floats''
        | Some t \<Rightarrow>
            if t \<notin> {AFloat32, AFloat64} then Some ''values must be a list of float32/float64 elements''
            else if dget sc ''metadata'' \<notin> {None, Some AStruct, Some AMap} then Some ''metadata column must be a struct/map''
            else None))"

definition row_problem :: "int \<Rightarrow> pq_row \<Rightarrow> string option" where
  "row_problem dm r =
     (if pr_id r = None \<or> pr_id r = Some [] then Some ''empty id''
      else (case pr_values r of
          None \<Rightarrow> Some ''values must be a list of floats''
        | Some vec \<Rightarrow>
            if int (length vec) \<noteq> dm
            then Some (''dimension mismatch: got '' @ dec (length vec) @ '' expected '' @ str_int dm)
            else if list_ex (\<lambda>x. x = None) vec then Some ''values contains a null element'' else None))"

definition meta_problem :: "pq_row \<Rightarrow> string option" where
  "meta_problem r = (case pr_meta r of None \<Rightarrow> None | Some (JObj _) \<Rightarrow> None | _ \<Rightarrow> Some ''metadata must be a JSON object'')"

fun first_problem :: "(pq_row \<Rightarrow> string option) \<Rightarrow> nat \<Rightarrow> pq_row list \<Rightarrow> string option" where
  "first_problem p n [] = None"
| "first_problem p n (r # rs) =
     (case p r of Some m \<Rightarrow> Some (''row '' @ dec n @ '': '' @ m) | None \<Rightarrow> first_problem p (Suc n) rs)"

text \<open>The ids and vectors of a whole batch are checked before its metadata.\<close>

fun check_batches :: "int \<Rightarrow> bool \<Rightarrow> nat \<Rightarrow> pq_row list list \<Rightarrow> string option" where
  "check_batches dm has_meta n [] = None"
| "check_batches dm has_meta n (b # bs) =
     (case first_problem (row_problem dm) n b of
        Some m \<Rightarrow> Some m
      | None \<Rightarrow>
         (case (if has_meta then first_problem meta_problem n b else None) of
            Some m \<Rightarrow> Some m
          | None \<Rightarrow> check_batches dm has_meta (n + length b) bs))"

text \<open>What the reader makes of a row of the file that is written back.\<close>

definition row_of :: "'i venv \<Rightarrow> bool \<Rightarrow> pq_row \<Rightarrow> landing_row" where
  "row_of ve has_meta r =
     landed_row (ve_env ve) \<lparr>lr_id = (case pr_id r of None \<Rightarrow> ''None'' | Some i \<Rightarrow> i),
       lr_values = (case pr_values r of None \<Rightarrow> [] | Some vs \<Rightarrow> map (\<lambda>x. case x of None \<Rightarrow> NaN | Some f \<Rightarrow> f) vs),
       lr_meta = (if has_meta then decode_metadata (ve_loads ve) (pr_meta r) else [])\<rparr>"

definition validate_parquet_landing :: "'i venv \<Rightarrow> 'i bucket \<Rightarrow> uri \<Rightarrow> int \<Rightarrow> string + landing_row list" where
  "validate_parquet_landing ve b u dm =
     (case (case read_bytes (be_down (ve_env ve)) b u of Inl _ \<Rightarrow> None | Inr x \<Rightarrow> ve_parquet ve x) of
        None \<Rightarrow> Inl ''not a readable Parquet file''
      | Some f \<Rightarrow>
         (case validate_parquet_schema (pf_schema f) of
            Some m \<Rightarrow> Inl m
          | None \<Rightarrow>
             (let has_meta = (dget (pf_schema f) ''metadata'' \<noteq> None);
                  rows = concat (pf_batches f)
              in case check_batches dm has_meta 0 (pf_batches f) of
                   Some m \<Rightarrow> Inl m
                 | None \<Rightarrow> if rows = [] then Inl ''Parquet upload contains no rows''
                           else Inr (map (row_of ve has_meta) rows))))"

section \<open>A file of JSON lines\<close>

record reject_entry =
  re_line :: nat
  re_reason :: string
  re_record :: string

record scan =
  sc_processed :: nat
  sc_good :: "landing_row list"
  sc_rejected :: "reject_entry list"

text \<open>\<open>_truncate_record\<close> of a stripped line: the printed text beyond 2000 characters is cut.\<close>

definition REJECTED_RECORD_MAX_CHARS :: nat where
  "REJECTED_RECORD_MAX_CHARS = 2000"

definition truncate_record :: "(json \<Rightarrow> string) \<Rightarrow> string \<Rightarrow> string" where
  "truncate_record dumps s =
     (let text = dumps (JStr s)
      in if length text > REJECTED_RECORD_MAX_CHARS then take REJECTED_RECORD_MAX_CHARS text @ ''...[truncated]'' else s)"

definition parse_line :: "'i venv \<Rightarrow> int \<Rightarrow> string \<Rightarrow> pyexc + landing_row" where
  "parse_line ve dm s = (case ve_loads ve s of Inl e \<Rightarrow> Inl e | Inr obj \<Rightarrow> validate_record obj dm)"

text \<open>
  The loop over the lines: blank lines count only for the line number. \<open>Inl (m, rejected)\<close> fails the
  job with the message \<open>m\<close> after writing the rejected records listed.
\<close>

fun scan_lines ::
  "'i venv \<Rightarrow> string \<Rightarrow> int option \<Rightarrow> int \<Rightarrow> nat \<Rightarrow> string list \<Rightarrow> scan \<Rightarrow> (string \<times> reject_entry list) + scan" where
  "scan_lines ve error_mode max_bad dm line_no [] s = Inr s"
| "scan_lines ve error_mode max_bad dm line_no (l # ls) s =
     (let stripped = strip l; n = Suc line_no in
      if stripped = [] then scan_lines ve error_mode max_bad dm n ls s
      else
        let s1 = s\<lparr>sc_processed := Suc (sc_processed s)\<rparr> in
        case parse_line ve dm stripped of
          Inr r \<Rightarrow> scan_lines ve error_mode max_bad dm n ls (s1\<lparr>sc_good := sc_good s1 @ [r]\<rparr>)
        | Inl e \<Rightarrow>
            if error_mode = ''abort''
            then Inl (''line '' @ dec n @ '': '' @ exc_text e @ '' (error_mode=abort)'', [])
            else
              let entry = \<lparr>re_line = n, re_reason = exc_text e, re_record = truncate_record (ve_dumps ve) stripped\<rparr>;
                  rejected = sc_rejected s1 @ [entry]
              in if max_bad \<noteq> None \<and> int (length rejected) > the max_bad
                 then Inl (''max_bad_records ('' @ str_int (the max_bad) @ '') exceeded: '' @ dec (length rejected)
                             @ '' bad records'', rejected)
                 else scan_lines ve error_mode max_bad dm n ls (s1\<lparr>sc_rejected := rejected\<rparr>))"

section \<open>One import job\<close>

type_synonym 'i site = "'i world \<times> accounts"

definition set_job :: "'i world \<Rightarrow> string \<Rightarrow> import_patch \<Rightarrow> 'i world" where
  "set_job w i p = w\<lparr>w_jobs := update_import_job (w_jobs w) i p\<rparr>"

definition no_patch :: import_patch where
  "no_patch = \<lparr>ip_status = None, ip_counts = None, ip_rejected_uri = None, ip_error = None, ip_completed = None\<rparr>"

definition failed_patch :: "string \<Rightarrow> time \<Rightarrow> import_patch" where
  "failed_patch m now = no_patch\<lparr>ip_status := Some ''failed'', ip_error := Some m, ip_completed := Some now\<rparr>"

text \<open>\<open>_fail\<close>: the job and its dataset end in error and the staged upload is removed, best effort.\<close>

definition fail_job :: "benv \<Rightarrow> 'i world \<Rightarrow> import_job \<Rightarrow> string \<Rightarrow> time \<Rightarrow> 'i world" where
  "fail_job env w job m now =
     (let w1 = set_status (set_job w (ij_id job) (failed_patch m now)) (ij_key job) ''error'' (Some (''import: '' @ m)) None now
      in w1\<lparr>w_bucket := try_delete env (w_bucket w1) (ij_upload job)\<rparr>)"

definition import_landing_prefix :: "benv \<Rightarrow> key \<Rightarrow> string \<Rightarrow> string" where
  "import_landing_prefix env k i = landing_prefix env k @ ''/imports/'' @ i"

definition rejected_body :: "(json \<Rightarrow> string) \<Rightarrow> reject_entry list \<Rightarrow> string" where
  "rejected_body dumps rs =
     join [CHR 0x0A] (map (\<lambda>r. dumps (JObj [(''line'', JInt (int (re_line r))), (''reason'', JStr (re_reason r)),
        (''record'', JStr (re_record r))])) rs) @ [CHR 0x0A]"

definition write_rejected ::
  "'i venv \<Rightarrow> 'i bucket \<Rightarrow> string \<Rightarrow> reject_entry list \<Rightarrow> pyexc + (uri \<times> 'i bucket)" where
  "write_rejected ve b prefix rejected =
     (let u = prefix @ ''/rejected.jsonl'' in
      case write_bytes (be_down (ve_env ve)) b u (OtherB (rejected_body (ve_dumps ve) rejected)) of
        Inl e \<Rightarrow> Inl e
      | Inr b1 \<Rightarrow> Inr (u, b1))"

definition object_size :: "'i venv \<Rightarrow> 'i bucket \<Rightarrow> uri \<Rightarrow> pyexc + int option" where
  "object_size ve b u =
     (if \<not> has_scheme u then Inl (ValueError ''Unsupported object_size URI'')
      else if be_down (ve_env ve) u then Inl (OtherError ''storage unavailable'')
      else Inr (map_option (ve_size ve) (dget b u)))"

definition dataset_dimension :: "catalog \<Rightarrow> key \<Rightarrow> int \<Rightarrow> int" where
  "dataset_dimension c k fallback = (case get_dataset c k of None \<Rightarrow> fallback | Some r \<Rightarrow> d_dimension r)"

text \<open>
  What reading and validating the staged upload ends in: a failure with the records to write down
  first, the rows of a Parquet file (written back as they are), or the scan of a text file.
\<close>

datatype upload = Refused string "reject_entry list" | Columns "landing_row list" | Lines scan

definition read_upload :: "'i venv \<Rightarrow> 'i bucket \<Rightarrow> import_job \<Rightarrow> int \<Rightarrow> upload" where
  "read_upload ve b job dm =
     (if ij_format job = ''parquet''
      then (case validate_parquet_landing ve b (ij_upload job) dm of Inl m \<Rightarrow> Refused m [] | Inr rows \<Rightarrow> Columns rows)
      else (case read_bytes (be_down (ve_env ve)) b (ij_upload job) of
          Inl e \<Rightarrow> Refused (''could not read uploaded file: '' @ exc_text e) []
        | Inr x \<Rightarrow>
           (case ve_text ve x of
              None \<Rightarrow> Refused ''uploaded file is not valid UTF-8'' []
            | Some text \<Rightarrow>
               (case scan_lines ve (ij_error_mode job) (ij_max_bad job) dm 0 (splitlines text)
                       \<lparr>sc_processed = 0, sc_good = [], sc_rejected = []\<rparr> of
                  Inl (m, rejected) \<Rightarrow> Refused m rejected
                | Inr s \<Rightarrow> Lines s))))"

text \<open>The vector quota is charged for all accepted records at once; None admits.\<close>

definition charge_vectors :: "'i venv \<Rightarrow> accounts \<Rightarrow> tenant \<Rightarrow> nat \<Rightarrow> (pyexc + string option) \<times> accounts" where
  "charge_vectors ve a t n =
     (if n > 0 \<and> ve_quotas ve
      then (case try_consume_vectors (ve_memory ve) a t (int n) of
              (Inl e, a1) \<Rightarrow> (Inl e, a1)
            | (Inr (ok, u), a1) \<Rightarrow>
               (Inr (if ok then None else Some (''vector quota exceeded: '' @ dec n
                  @ '' accepted records would exceed quota '' @ str_int (us_vector_quota u)
                  @ '' (used '' @ str_int (us_vectors u) @ '')'')), a1))
      else (Inr None, a))"

definition write_landing ::
  "'i venv \<Rightarrow> 'i bucket \<Rightarrow> string \<Rightarrow> upload \<Rightarrow> string \<Rightarrow> pyexc + 'i bucket" where
  "write_landing ve b prefix up uid =
     (case up of
        Columns rows \<Rightarrow> write_bytes (be_down (ve_env ve)) b (prefix @ ''/part-0001.parquet'') (PartB rows)
      | Lines s \<Rightarrow> write_parquet (ve_env ve) b prefix (sc_good s) uid
      | Refused m rs \<Rightarrow> Inr b)"

fun accepted_count :: "upload \<Rightarrow> nat" where
  "accepted_count (Columns rows) = length rows"
| "accepted_count (Lines s) = length (sc_good s)"
| "accepted_count (Refused _ _) = 0"

fun rejects_of :: "upload \<Rightarrow> reject_entry list" where
  "rejects_of (Lines s) = sc_rejected s"
| "rejects_of (Refused _ rs) = rs"
| "rejects_of (Columns _) = []"

fun processed_count :: "upload \<Rightarrow> nat" where
  "processed_count (Columns rows) = length rows"
| "processed_count (Lines s) = sc_processed s"
| "processed_count (Refused _ _) = 0"

text \<open>Write the rejected records, if any, then go on with their URI; a failing write raises.\<close>

definition with_rejects ::
  "'i venv \<Rightarrow> 'i world \<Rightarrow> string \<Rightarrow> reject_entry list \<Rightarrow> (pyexc + uri option) \<times> 'i world" where
  "with_rejects ve w prefix rs =
     (if rs = [] then (Inr None, w)
      else case write_rejected ve (w_bucket w) prefix rs of
          Inl e \<Rightarrow> (Inl e, w)
        | Inr (u, b) \<Rightarrow> (Inr (Some u), w\<lparr>w_bucket := b\<rparr>))"

definition import_failed ::
  "'i venv \<Rightarrow> 'i world \<Rightarrow> import_job \<Rightarrow> string \<Rightarrow> reject_entry list \<Rightarrow> time \<Rightarrow> (pyexc + nat) \<times> 'i world" where
  "import_failed ve w job m rs now =
     (case with_rejects ve w (import_landing_prefix (ve_env ve) (ij_key job) (ij_id job)) rs of
        (Inl e, w1) \<Rightarrow> (Inl e, w1)
      | (Inr _, w1) \<Rightarrow> (Inr 0, fail_job (ve_env ve) w1 job m now))"

text \<open>After the upload has been read: quota, rejected records, landing part, counters, status.\<close>

definition land_upload ::
  "'i venv \<Rightarrow> 'i site \<Rightarrow> import_job \<Rightarrow> int \<Rightarrow> upload \<Rightarrow> time \<Rightarrow> string \<Rightarrow> (pyexc + nat) \<times> 'i site" where
  "land_upload ve site job dm up now uid =
     (let (w, a) = site; k = ij_key job; n = accepted_count up;
          prefix = import_landing_prefix (ve_env ve) k (ij_id job)
      in case charge_vectors ve a (fst k) n of
           (Inl e, a1) \<Rightarrow> (Inl e, w, a1)
         | (Inr (Some m), a1) \<Rightarrow> (let (r, w1) = import_failed ve w job m (rejects_of up) now in (r, w1, a1))
         | (Inr None, a1) \<Rightarrow>
            (case with_rejects ve w prefix (rejects_of up) of
               (Inl e, w1) \<Rightarrow> (Inl e, w1, a1)
             | (Inr rejected_uri, w1) \<Rightarrow>
                (case (if n > 0 then write_landing ve (w_bucket w1) (prefix @ ''/landing'') up uid else Inr (w_bucket w1)) of
                   Inl e \<Rightarrow> (Inr 0, fail_job (ve_env ve) w1 job (''landing write failed: '' @ exc_text e) now, a1)
                 | Inr b \<Rightarrow>
                    (let w2 = w1\<lparr>w_bucket := b\<rparr>;
                         w3 = (if n > 0
                               then w2\<lparr>w_cat := upsert_dataset (increment_row_count (w_cat w2) k (int n)) k dm
                                        (ij_upload job) (ij_format job) now\<rparr>
                               else w2);
                         w4 = set_job w3 (ij_id job) (no_patch\<lparr>ip_status := Some ''indexing'',
                                ip_counts := Some (int (processed_count up), int n, int (length (rejects_of up))),
                                ip_rejected_uri := rejected_uri\<rparr>)
                     in (Inr n, set_status w4 k ''indexing'' None None now, a1)))))"

definition process_import ::
  "'i venv \<Rightarrow> 'i site \<Rightarrow> string \<Rightarrow> time \<Rightarrow> string \<Rightarrow> (pyexc + nat) \<times> 'i site" where
  "process_import ve site i now uid =
     (let (w, a) = site in
      case get_import_job_by_id (w_jobs w) i of
        None \<Rightarrow> (Inr 0, w, a)
      | Some job \<Rightarrow>
         (case object_size ve (w_bucket w) (ij_upload job) of
            Inl e \<Rightarrow> (Inl e, w, a)
          | Inr sz \<Rightarrow>
              if sz \<noteq> None \<and> the sz > ve_max_bytes ve
              then (Inr 0, fail_job (ve_env ve) w job (''uploaded file is '' @ str_int (the sz)
                      @ '' bytes, which exceeds the '' @ str_int (ve_max_bytes ve) @ ''-byte import size limit'') now, a)
              else
                let w1 = set_status w (ij_key job) ''validating'' None None now;
                    dm = dataset_dimension (w_cat w1) (ij_key job) (ve_dim ve)
                in (case read_upload ve (w_bucket w1) job dm of
                      Refused m rs \<Rightarrow> (let (r, w2) = import_failed ve w1 job m rs now in (r, w2, a))
                    | up \<Rightarrow> land_upload ve (w1, a) job dm up now uid)))"

section \<open>One uploaded URI\<close>

text \<open>
  The chunks of \<open>open_reader\<close>: a JSONL object's nonblank lines, a JSON object's text, the nonempty
  lines of an HTTP response (a parameter), and one blob for any other type.
\<close>

definition decode_body :: "'i venv \<Rightarrow> 'i blob \<Rightarrow> string \<Rightarrow> pyexc + string list" where
  "decode_body ve x ftype =
     (if ftype = ''json'' \<or> ftype = ''jsonl''
      then (case ve_text ve x of
          None \<Rightarrow> Inl (OtherError ''UnicodeDecodeError'')
        | Some text \<Rightarrow> Inr (if ftype = ''jsonl'' then filter (\<lambda>l. strip l \<noteq> []) (splitlines text) else [text]))
      else Inr [[]])"

definition open_reader :: "'i venv \<Rightarrow> 'i bucket \<Rightarrow> uri \<Rightarrow> string \<Rightarrow> pyexc + string list" where
  "open_reader ve b u ftype =
     (if has_scheme u
      then (case read_bytes (be_down (ve_env ve)) b u of Inl e \<Rightarrow> Inl e | Inr x \<Rightarrow> decode_body ve x ftype)
      else if starts_with ''http://'' u \<or> starts_with ''https://'' u
      then (if ftype = ''json'' \<or> ftype = ''jsonl'' then ve_http ve u else Inr [[]])
      else Inl (ValueError ''Unsupported URI''))"

fun parse_chunks :: "'i venv \<Rightarrow> string \<Rightarrow> string list \<Rightarrow> pyexc + json list" where
  "parse_chunks ve ftype [] = Inr []"
| "parse_chunks ve ftype (c # cs) =
     (if ftype \<noteq> ''jsonl'' \<and> ftype \<noteq> ''json'' then Inl (OtherError ''NotImplementedError'')
      else case ve_loads ve c of
          Inl e \<Rightarrow> Inl e
        | Inr v \<Rightarrow>
           (case parse_chunks ve ftype cs of
              Inl e \<Rightarrow> Inl e
            | Inr rest \<Rightarrow> Inr ((case v of JList rows \<Rightarrow> if ftype = ''json'' then rows else [v] | _ \<Rightarrow> [v]) @ rest)))"

definition stream_records :: "'i venv \<Rightarrow> 'i bucket \<Rightarrow> uri \<Rightarrow> string \<Rightarrow> pyexc + json list" where
  "stream_records ve b u file_type =
     (let ftype = (if file_type \<noteq> [] then file_type
                   else if ends_with ''.jsonl'' u then ''jsonl'' else if ends_with ''.json'' u then ''json'' else ''parquet'')
      in case open_reader ve b u ftype of Inl e \<Rightarrow> Inl e | Inr cs \<Rightarrow> parse_chunks ve ftype cs)"

fun good_records :: "int \<Rightarrow> json list \<Rightarrow> landing_row list" where
  "good_records dm [] = []"
| "good_records dm (x # xs) =
     (case validate_record x dm of Inl _ \<Rightarrow> good_records dm xs | Inr r \<Rightarrow> r # good_records dm xs)"

text \<open>\<open>process_uri\<close>; the two fresh names are the upload's and the part's. Rejected records only count.\<close>

definition process_uri ::
  "'i venv \<Rightarrow> 'i world \<Rightarrow> key \<Rightarrow> uri \<Rightarrow> string \<Rightarrow> time \<Rightarrow> string \<times> string \<Rightarrow> (pyexc + nat) \<times> 'i world" where
  "process_uri ve w0 k u file_type now uids =
     (let w = set_status w0 k ''validating'' None None now;
          dm = dataset_dimension (w_cat w) k (ve_dim ve)
      in case stream_records ve (w_bucket w) u file_type of
           Inl e \<Rightarrow> (Inl e, set_status w k ''error'' (Some (''validator: '' @ exc_text e)) None now)
         | Inr recs \<Rightarrow>
            (let good = good_records dm recs in
             if good = [] then (Inr 0, set_status w k ''indexing'' None None now)
             else
               case write_parquet (ve_env ve) (w_bucket w) (landing_prefix (ve_env ve) k @ ''/upload-'' @ fst uids) good (snd uids) of
                 Inl e \<Rightarrow> (Inl e, set_status w k ''error'' (Some (''landing write: '' @ exc_text e)) None now)
               | Inr b \<Rightarrow>
                   (Inr (length good),
                    set_status (w\<lparr>w_bucket := b,
                      w_cat := upsert_dataset (increment_row_count (w_cat w) k (int (length good))) k dm u ''parquet'' now\<rparr>)
                      k ''indexing'' None None now)))"

section \<open>Ending a job\<close>

definition job_open :: "import_job \<Rightarrow> bool" where
  "job_open j \<longleftrightarrow> ij_status j \<noteq> ''completed'' \<and> ij_status j \<noteq> ''failed''"

definition finalize_import :: "'i world \<Rightarrow> string \<Rightarrow> time \<Rightarrow> 'i world" where
  "finalize_import w i now =
     (case get_import_job_by_id (w_jobs w) i of
        None \<Rightarrow> w
      | Some j \<Rightarrow>
          if \<not> job_open j then w
          else set_job w i (no_patch\<lparr>ip_status := Some ''completed'', ip_completed := Some now\<rparr>))"

definition fail_import :: "'i world \<Rightarrow> string \<Rightarrow> string \<Rightarrow> time \<Rightarrow> 'i world" where
  "fail_import w i m now =
     (case get_import_job_by_id (w_jobs w) i of
        None \<Rightarrow> w
      | Some j \<Rightarrow>
          if \<not> job_open j then w
          else set_status (set_job w i (failed_patch m now)) (ij_key j) ''error'' (Some (''import: '' @ m)) None now)"

section \<open>The worker's messages\<close>

definition str_field :: "meta \<Rightarrow> string \<Rightarrow> string" where
  "str_field p f = (case dget p f of Some (JStr s) \<Rightarrow> s | _ \<Rightarrow> [])"

definition publish_ready :: "benv \<Rightarrow> 'i world \<Rightarrow> key \<Rightarrow> nat \<Rightarrow> meta \<Rightarrow> string \<Rightarrow> 'i world" where
  "publish_ready env w k rows extra pub_id =
     w\<lparr>w_queue := publish (be_queue env) (w_queue w) ''DATASET_READY''
       ([(''dataset'', JStr (snd k)), (''tenant'', JStr (fst k)), (''rows'', JInt (int rows))] @ extra) pub_id []\<rparr>"

text \<open>
  An import job's message and an upload's; the fields are strings when present. The result is
  whether the handler returned.
\<close>

definition handle_validate ::
  "'i venv \<Rightarrow> 'i site \<Rightarrow> meta \<Rightarrow> time \<Rightarrow> string \<times> string \<Rightarrow> string \<Rightarrow> bool \<times> 'i site" where
  "handle_validate ve site p now uids pub_id =
     (let (w, a) = site; i = str_field p ''import_id'';
          tn = (case dget p ''tenant'' of Some (JStr t) \<Rightarrow> t | _ \<Rightarrow> ''default'')
      in case dget p ''dataset'' of
           Some (JStr d) \<Rightarrow>
             if i \<noteq> []
             then (case process_import ve (w, a) i now (snd uids) of
                 (Inl e, w1, a1) \<Rightarrow> (True, fail_import w1 i (''validator crashed: '' @ exc_text e) now, a1)
               | (Inr n, w1, a1) \<Rightarrow>
                  (case get_import_job_by_id (w_jobs w1) i of
                     Some j \<Rightarrow> (True, if ij_status j = ''indexing''
                                     then publish_ready (ve_env ve) w1 (tn, d) n [(''import_id'', JStr i)] pub_id else w1, a1)
                   | None \<Rightarrow> (True, w1, a1)))
             else (case process_uri ve w (tn, d) (str_field p ''uri'') (str_field p ''file_type'') now uids of
                 (Inl e, w1) \<Rightarrow> (True, w1, a)
               | (Inr n, w1) \<Rightarrow> (True, publish_ready (ve_env ve) w1 (tn, d) n [] pub_id, a))
         | _ \<Rightarrow> (False, site))"

definition validator_turn ::
  "'i venv \<Rightarrow> 'i site \<Rightarrow> time \<Rightarrow> string \<times> string \<Rightarrow> string \<Rightarrow> string \<Rightarrow> pyexc + 'i site" where
  "validator_turn ve site now uids pub_id nack_id =
     (let (w, a) = site; cfg = be_queue (ve_env ve) in
      case consume cfg (w_queue w) ''VALIDATE_DATASET'' now of
        (Inl e, q) \<Rightarrow> Inl e
      | (Inr None, q) \<Rightarrow> Inr (w\<lparr>w_queue := q\<rparr>, a)
      | (Inr (Some m), q) \<Rightarrow>
         (case handle_validate ve (w\<lparr>w_queue := q\<rparr>, a) (msg_payload m) now uids pub_id of
            (True, w1, a1) \<Rightarrow> Inr (w1\<lparr>w_queue := ack cfg (w_queue w1) (Some m)\<rparr>, a1)
          | (False, w1, a1) \<Rightarrow> Inr (w1\<lparr>w_queue := snd (nack cfg (w_queue w1) (Some m) True nack_id [])\<rparr>, a1)))"

text \<open>
  The builder's handler of DATASET_READY, \<open>index_builder/run.py\<close>: a skipped build is not finished,
  every other one ends the import job that drove it.
\<close>

definition handle_dataset_ready ::
  "benv \<Rightarrow> 'i faiss \<Rightarrow> bool \<Rightarrow> 'i world \<Rightarrow> meta \<Rightarrow> time \<Rightarrow> fresh \<Rightarrow> bool option \<times> 'i world" where
  "handle_dataset_ready env fx acquired w p now fr =
     (case dget p ''dataset'' of
        Some (JStr d) \<Rightarrow>
         (let tn = (case dget p ''tenant'' of Some (JStr t) \<Rightarrow> t | _ \<Rightarrow> ''default''); i = str_field p ''import_id'';
              (r, w1) = run_once env fx acquired w (tn, d) now fr
          in if r = BUILD_SKIPPED then (Some False, w1)
             else if i = [] then (Some True, w1)
             else if lb_type (w_last w1) = Some ''error'' then (Some True, fail_import w1 i ''index build failed'' now)
             else (Some True, finalize_import w1 i now))
      | _ \<Rightarrow> (None, w))"

end
