(* ===== verification/Import_Correct.thy ===== *)
theory Import_Correct
  imports Import Landing_World Quota_Properties
begin

text \<open>
  What the scan of a text upload computes, the landing part it ends in, and what an import leaves of
  the state when it is refused and when it is not.
\<close>

section \<open>The scan\<close>

text \<open>The nonblank lines with their numbers, the records among them and the rejects.\<close>

definition numbered :: "nat \<Rightarrow> string list \<Rightarrow> (nat \<times> string) list" where
  "numbered n ls = filter (\<lambda>(i, s). s \<noteq> []) (enumerate (Suc n) (map strip ls))"

definition good_of :: "'i venv \<Rightarrow> int \<Rightarrow> (nat \<times> string) list \<Rightarrow> landing_row list" where
  "good_of ve dm xs = concat (map (\<lambda>(i, s). case parse_line ve dm s of Inl _ \<Rightarrow> [] | Inr r \<Rightarrow> [r]) xs)"

definition bad_of :: "'i venv \<Rightarrow> int \<Rightarrow> (nat \<times> string) list \<Rightarrow> reject_entry list" where
  "bad_of ve dm xs = concat (map (\<lambda>(i, s). case parse_line ve dm s of
     Inl e \<Rightarrow> [\<lparr>re_line = i, re_reason = exc_text e, re_record = truncate_record (ve_dumps ve) s\<rparr>] | Inr _ \<Rightarrow> []) xs)"

text \<open>Whether the error mode and the limit let a file with these rejects through.\<close>

definition tolerated :: "string \<Rightarrow> int option \<Rightarrow> reject_entry list \<Rightarrow> bool" where
  "tolerated error_mode max_bad rs \<longleftrightarrow> (error_mode = ''abort'' \<longrightarrow> rs = []) \<and>
     (case max_bad of None \<Rightarrow> True | Some m \<Rightarrow> rs = [] \<or> int (length rs) \<le> m)"

lemma numbered_Cons:
  "numbered n (l # ls) = (if strip l = [] then numbered (Suc n) ls else (Suc n, strip l) # numbered (Suc n) ls)"
  by (simp add: numbered_def)

lemma numbered_Nil [simp]: "numbered n [] = []"
  by (simp add: numbered_def)

lemma length_numbered: "length (numbered n ls) = length (filter (\<lambda>l. strip l \<noteq> []) ls)"
  by (induction ls arbitrary: n) (simp_all add: numbered_Cons)

lemma good_of_simps [simp]:
  "good_of ve dm [] = []"
  "good_of ve dm ((i, s) # xs) = (case parse_line ve dm s of Inl _ \<Rightarrow> [] | Inr r \<Rightarrow> [r]) @ good_of ve dm xs"
  by (simp_all add: good_of_def)

lemma bad_of_simps [simp]:
  "bad_of ve dm [] = []"
  "bad_of ve dm ((i, s) # xs) = (case parse_line ve dm s of
     Inl e \<Rightarrow> [\<lparr>re_line = i, re_reason = exc_text e, re_record = truncate_record (ve_dumps ve) s\<rparr>] | Inr _ \<Rightarrow> []) @ bad_of ve dm xs"
  by (simp_all add: bad_of_def)

lemma good_bad_length: "length (good_of ve dm xs) + length (bad_of ve dm xs) = length xs"
  by (induction xs) (auto split: sum.split)

text \<open>One step of the scan on a line with a record and on one without.\<close>

abbreviation reject_at :: "'i venv \<Rightarrow> nat \<Rightarrow> string \<Rightarrow> pyexc \<Rightarrow> reject_entry" where
  "reject_at ve i s e \<equiv> \<lparr>re_line = i, re_reason = exc_text e, re_record = truncate_record (ve_dumps ve) s\<rparr>"

lemma scan_line_good:
  "strip l \<noteq> [] \<Longrightarrow> parse_line ve dm (strip l) = Inr r \<Longrightarrow> scan_lines ve mode mb dm n (l # ls) s =
   scan_lines ve mode mb dm (Suc n) ls (s\<lparr>sc_processed := Suc (sc_processed s), sc_good := sc_good s @ [r]\<rparr>)"
  by (simp add: Let_def)

lemma scan_line_bad:
  assumes "strip l \<noteq> []" and "parse_line ve dm (strip l) = Inl e" and "mode \<noteq> ''abort''"
    and "mb = None \<or> int (Suc (length (sc_rejected s))) \<le> the mb"
  shows "scan_lines ve mode mb dm n (l # ls) s = scan_lines ve mode mb dm (Suc n) ls
    (s\<lparr>sc_processed := Suc (sc_processed s), sc_rejected := sc_rejected s @ [reject_at ve (Suc n) (strip l) e]\<rparr>)"
  using assms by (cases mb) (auto simp: Let_def)

lemma scan_line_over:
  assumes "strip l \<noteq> []" and "parse_line ve dm (strip l) = Inl e" and "mode \<noteq> ''abort''"
    and "mb = Some m" and "int (Suc (length (sc_rejected s))) > m"
  shows "\<exists>t. scan_lines ve mode mb dm n (l # ls) s = Inl (t, sc_rejected s @ [reject_at ve (Suc n) (strip l) e])"
  using assms by (auto simp: Let_def)

lemma scan_lines_ok:
  "tolerated mode mb (sc_rejected s @ bad_of ve dm (numbered n ls)) \<Longrightarrow>
   scan_lines ve mode mb dm n ls s = Inr (s\<lparr>sc_processed := sc_processed s + length (numbered n ls),
     sc_good := sc_good s @ good_of ve dm (numbered n ls), sc_rejected := sc_rejected s @ bad_of ve dm (numbered n ls)\<rparr>)"
proof (induction ls arbitrary: n s)
  case (Cons l ls)
  show ?case
  proof (cases "strip l = []")
    case True
    then show ?thesis using Cons.IH[of s "Suc n"] Cons.prems by (simp add: numbered_Cons)
  next
    case False
    show ?thesis
    proof (cases "parse_line ve dm (strip l)")
      case (Inr r)
      then show ?thesis
        using Cons.IH[of "s\<lparr>sc_processed := Suc (sc_processed s), sc_good := sc_good s @ [r]\<rparr>" "Suc n"] Cons.prems False
        unfolding scan_line_good[OF False Inr] by (simp add: numbered_Cons)
    next
      case (Inl e)
      let ?s = "s\<lparr>sc_processed := Suc (sc_processed s), sc_rejected := sc_rejected s @ [reject_at ve (Suc n) (strip l) e]\<rparr>"
      have t: "tolerated mode mb (sc_rejected ?s @ bad_of ve dm (numbered (Suc n) ls))"
        using Cons.prems False Inl by (simp add: numbered_Cons)
      then have "mode \<noteq> ''abort''" "mb = None \<or> int (Suc (length (sc_rejected s))) \<le> the mb"
        by (auto simp: tolerated_def split: option.splits)
      from scan_line_bad[OF False Inl this] Cons.IH[OF t] show ?thesis using False Inl by (simp add: numbered_Cons)
    qed
  qed
qed simp

text \<open>Otherwise the scan stops: at the first reject in abort mode, at the first beyond the limit else.\<close>

lemma scan_lines_stops:
  "\<not> tolerated mode mb (sc_rejected s @ bad_of ve dm (numbered n ls)) \<Longrightarrow> tolerated mode mb (sc_rejected s) \<Longrightarrow>
   \<exists>t. scan_lines ve mode mb dm n ls s = Inl (t, if mode = ''abort'' then []
     else take (Suc (nat (the mb))) (sc_rejected s @ bad_of ve dm (numbered n ls)))"
proof (induction ls arbitrary: n s)
  case (Cons l ls)
  show ?case
  proof (cases "strip l = []")
    case True
    then have e: "numbered n (l # ls) = numbered (Suc n) ls" "scan_lines ve mode mb dm n (l # ls) s = scan_lines ve mode mb dm (Suc n) ls s"
      by (simp_all add: numbered_Cons)
    show ?thesis using Cons.prems unfolding e by (rule Cons.IH)
  next
    case False
    note nc = numbered_Cons[of n l ls] False
    show ?thesis
    proof (cases "parse_line ve dm (strip l)")
      case (Inr r)
      then have "bad_of ve dm (numbered n (l # ls)) = bad_of ve dm (numbered (Suc n) ls)" using nc by simp
      then show ?thesis
        using Cons.IH[of "s\<lparr>sc_processed := Suc (sc_processed s), sc_good := sc_good s @ [r]\<rparr>" "Suc n"] Cons.prems
        unfolding scan_line_good[OF False Inr] by (auto simp del: take_append split: if_splits)
    next
      case (Inl e)
      let ?e = "reject_at ve (Suc n) (strip l) e"
      let ?s = "s\<lparr>sc_processed := Suc (sc_processed s), sc_rejected := sc_rejected s @ [?e]\<rparr>"
      have b: "sc_rejected s @ bad_of ve dm (numbered n (l # ls)) = sc_rejected ?s @ bad_of ve dm (numbered (Suc n) ls)"
        using nc Inl by simp
      consider (abort) "mode = ''abort''" | (over) m where "mode \<noteq> ''abort''" "mb = Some m" "int (Suc (length (sc_rejected s))) > m"
        | (on) "mode \<noteq> ''abort''" "mb = None \<or> int (Suc (length (sc_rejected s))) \<le> the mb"
        by (metis not_less option.collapse)
      then show ?thesis
      proof cases
        case abort
        then show ?thesis using False Inl by (simp add: Let_def)
      next
        case over
        then have "Suc (nat (the mb)) = length (sc_rejected ?s)" using Cons.prems(2) by (auto simp: tolerated_def)
        then have "take (Suc (nat (the mb))) (sc_rejected s @ bad_of ve dm (numbered n (l # ls))) = sc_rejected ?s"
          unfolding b by simp
        then show ?thesis using scan_line_over[OF False Inl over] over(1) by simp
      next
        case on
        then have "tolerated mode mb (sc_rejected ?s)" by (auto simp: tolerated_def split: option.split)
        from Cons.IH[OF _ this] Cons.prems(1) show ?thesis unfolding scan_line_bad[OF False Inl on] b by blast
      qed
    qed
  qed
qed simp

section \<open>The effects\<close>

lemma updated_job:
  "get_import_job_by_id jobs i = Some j \<Longrightarrow> get_import_job_by_id (update_import_job jobs i p) i = Some (apply_patch p j)"
  by (induction jobs) (auto simp: get_import_job_by_id_def apply_patch_def split: if_splits)

lemma job_id: "get_import_job_by_id jobs i = Some j \<Longrightarrow> ij_id j = i"
  by (auto simp: get_import_job_by_id_def find_Some_iff)

lemma apply_patch_fixed [simp]:
  "ij_id (apply_patch p j) = ij_id j" "ij_key (apply_patch p j) = ij_key j" "ij_upload (apply_patch p j) = ij_upload j"
  "ij_format (apply_patch p j) = ij_format j"
  by (simp_all add: apply_patch_def)

lemma updated_uploads:
  "map (\<lambda>j. (ij_key j, ij_upload j)) (update_import_job jobs i p) = map (\<lambda>j. (ij_key j, ij_upload j)) jobs"
  by (induction jobs) auto

lemma set_job_frame [simp]:
  "w_cat (set_job w i p) = w_cat w" "w_bucket (set_job w i p) = w_bucket w" "w_recall (set_job w i p) = w_recall w"
  "w_queue (set_job w i p) = w_queue w" "w_jobs (set_job w i p) = update_import_job (w_jobs w) i p"
  by (simp_all add: set_job_def)

lemma set_status_queue [simp]: "w_queue (set_status w k st msg ix now) = w_queue w"
  by (simp add: set_status_def)

text \<open>The dataset row under the updates of an import.\<close>

lemma status_row:
  assumes "cat_row c k = Some r"
  shows "\<exists>r'. cat_row (update_dataset_status c k st msg ix now) k = Some r' \<and> d_status r' = st \<and>
    d_row_count r' = d_row_count r \<and> d_dimension r' = d_dimension r \<and> (msg \<noteq> None \<longrightarrow> d_error r' = msg)"
  using assms
  by (auto simp: update_dataset_status_def mc_update_status_def pc_update_status_def cat_row_def update_row_def
      Let_def split: option.splits if_splits)

lemma count_row:
  assumes "cat_row c k = Some r"
  shows "\<exists>r'. cat_row (upsert_dataset (increment_row_count c k n) k dm u fmt now) k = Some r' \<and>
    d_row_count r' = d_row_count r + n \<and> d_dimension r' = d_dimension r \<and> d_status r' = d_status r"
  using assms
  by (auto simp: increment_row_count_def upsert_dataset_def mc_upsert_dataset_def pc_upsert_dataset_def cat_row_def update_row_def
      set_row_def pdict_simps Let_def split: option.splits if_splits)

lemma upsert_frame [simp]:
  "c_shards (upsert_dataset c k dm u fmt now) = c_shards c" "c_memory (upsert_dataset c k dm u fmt now) = c_memory c"
  by (auto simp: upsert_dataset_def mc_upsert_dataset_def pc_upsert_dataset_def set_row_def Let_def split: option.split)

lemma increment_frame [simp]:
  "c_shards (increment_row_count c k n) = c_shards c" "c_memory (increment_row_count c k n) = c_memory c"
  by (simp_all add: increment_row_count_def)

text \<open>What both outcomes leave alone.\<close>

definition serving_kept :: "'i world \<Rightarrow> 'i world \<Rightarrow> bool" where
  "serving_kept w w' \<longleftrightarrow> c_shards (w_cat w') = c_shards (w_cat w) \<and> c_memory (w_cat w') = c_memory (w_cat w) \<and>
     w_recall w' = w_recall w \<and> w_queue w' = w_queue w"

definition rejects_uri :: "benv \<Rightarrow> import_job \<Rightarrow> uri" where
  "rejects_uri env job = import_landing_prefix env (ij_key job) (ij_id job) @ ''/rejected.jsonl''"

text \<open>The bucket with the rejected records written down, if there are any.\<close>

definition with_body :: "'i venv \<Rightarrow> import_job \<Rightarrow> reject_entry list \<Rightarrow> 'i bucket \<Rightarrow> 'i bucket" where
  "with_body ve job rs b =
     (if rs = [] then b else dset (rejects_uri (ve_env ve) job) (OtherB (rejected_body (ve_dumps ve) rs)) b)"

lemma with_rejects_online:
  assumes "online (ve_env ve)" and "has_scheme (landing_prefix (ve_env ve) (ij_key job))"
  shows "with_rejects ve w (import_landing_prefix (ve_env ve) (ij_key job) (ij_id job)) rs =
    (Inr (if rs = [] then None else Some (rejects_uri (ve_env ve) job)), w\<lparr>w_bucket := with_body ve job rs (w_bucket w)\<rparr>)"
  using assms
  by (simp add: with_rejects_def write_rejected_def write_bytes_def online_def import_landing_prefix_def rejects_uri_def with_body_def
      has_scheme_append Let_def)

text \<open>A failure: the job and the dataset say so, the upload is gone, nothing else is.\<close>

lemma import_failed_ok:
  fixes ve :: "'i venv" and w :: "'i world"
  assumes on: "online (ve_env ve)" and lp: "has_scheme (landing_prefix (ve_env ve) (ij_key job))" and up: "has_scheme (ij_upload job)"
    and j: "get_import_job_by_id (w_jobs w) (ij_id job) = Some job"
  obtains w' where "import_failed ve w job m rs now = (Inr 0, w')"
    and "get_import_job_by_id (w_jobs w') (ij_id job) = Some (apply_patch (failed_patch m now) job)"
    and "\<And>u. dget (w_bucket w') u = (if u = ij_upload job then None else dget (with_body ve job rs (w_bucket w)) u)"
    and "serving_kept w w'"
    and "\<And>r. cat_row (w_cat w) (ij_key job) = Some r \<Longrightarrow> \<exists>r'. cat_row (w_cat w') (ij_key job) = Some r' \<and> d_status r' = ''error'' \<and>
      d_row_count r' = d_row_count r \<and> d_error r' = Some (''import: '' @ m)"
proof -
  let ?w' = "fail_job (ve_env ve) (w\<lparr>w_bucket := with_body ve job rs (w_bucket w)\<rparr>) job m now"
  have "import_failed ve w job m rs now = (Inr 0, ?w')" by (simp add: import_failed_def with_rejects_online[OF on lp])
  moreover have "get_import_job_by_id (w_jobs ?w') (ij_id job) = Some (apply_patch (failed_patch m now) job)"
    using updated_job[OF j] by (simp add: fail_job_def Let_def)
  moreover have "dget (w_bucket ?w') u = (if u = ij_upload job then None else dget (with_body ve job rs (w_bucket w)) u)" for u
    using up by (simp add: fail_job_def Let_def dget_try_delete[OF on])
  moreover have "serving_kept w ?w'" by (simp add: serving_kept_def fail_job_def Let_def)
  moreover have "\<exists>r'. cat_row (w_cat ?w') (ij_key job) = Some r' \<and> d_status r' = ''error'' \<and>
      d_row_count r' = d_row_count r \<and> d_error r' = Some (''import: '' @ m)" if "cat_row (w_cat w) (ij_key job) = Some r" for r
    using status_row[OF that, of "''error''" "Some (''import: '' @ m)" None now] by (auto simp: fail_job_def Let_def set_status_def)
  ultimately show thesis by (rule that)
qed

section \<open>The quota\<close>

definition vector_room :: "'i venv \<Rightarrow> accounts \<Rightarrow> tenant \<Rightarrow> nat \<Rightarrow> bool" where
  "vector_room ve a t n \<longleftrightarrow> n = 0 \<or> \<not> ve_quotas ve \<or>
     (case dget (ac_tenants a) t of None \<Rightarrow> False | Some r \<Rightarrow> tn_vectors r + int n \<le> tn_vector_quota r)"

definition charged :: "'i venv \<Rightarrow> accounts \<Rightarrow> tenant \<Rightarrow> nat \<Rightarrow> accounts" where
  "charged ve a t n =
     (if n = 0 \<or> \<not> ve_quotas ve then a
      else case dget (ac_tenants a) t of None \<Rightarrow> a | Some r \<Rightarrow> set_tenant a t (r\<lparr>tn_vectors := tn_vectors r + int n\<rparr>))"

lemma charge_vectors_ok:
  assumes "ve_quotas ve \<longrightarrow> dget (ac_tenants a) t \<noteq> None"
  obtains m where "charge_vectors ve a t n = (if vector_room ve a t n then (Inr None, charged ve a t n) else (Inr (Some m), a))"
proof (cases "n > 0 \<and> ve_quotas ve")
  case True
  then obtain r where r: "dget (ac_tenants a) t = Some r" using assms by blast
  obtain u where "try_consume_vectors (ve_memory ve) a t (int n) =
      (Inr (vector_room ve a t n, u), if vector_room ve a t n then charged ve a t n else a)"
    using True r by (cases "tn_vectors r + int n \<le> tn_vector_quota r")
      (auto simp: try_consume_vectors_def consume_vectors_agrees mq_try_consume_vectors_def vector_room_def charged_def Let_def)
  then show thesis using that True by (cases "vector_room ve a t n") (simp_all add: charge_vectors_def)
next
  case False
  then show thesis using that by (auto simp: charge_vectors_def vector_room_def charged_def)
qed

section \<open>The landing part\<close>

lemma py_floats_length: "py_floats vs = Inr xs \<Longrightarrow> length xs = length vs"
  by (induction vs arbitrary: xs) (auto split: sum.splits)

lemma validate_record_ok:
  "validate_record obj dm = Inr r \<Longrightarrow> int (length (lr_values r)) = dm \<and> lr_id r \<noteq> []"
  by (auto simp: validate_record_def dest!: py_floats_length split: json.splits option.splits sum.splits if_splits)

lemma good_of_width: "r \<in> set (good_of ve dm xs) \<Longrightarrow> int (length (lr_values r)) = dm \<and> lr_id r \<noteq> []"
  by (induction xs) (auto simp: parse_line_def dest: validate_record_ok[OF sym] split: sum.splits)

lemma uniform:
  assumes "\<forall>r \<in> set rs. int (length (lr_values r)) = dm" and "0 < dm" and "rs \<noteq> []"
  shows "same_width (map lr_values rs)" and "int (part_width rs) = dm"
  using assms by (cases rs, auto simp: same_width_def part_width_def list_all_iff)+

definition upload_ok :: "int \<Rightarrow> upload \<Rightarrow> bool" where
  "upload_ok dm up \<longleftrightarrow> (case up of Refused _ _ \<Rightarrow> False | Columns rows \<Rightarrow> True
     | Lines s \<Rightarrow> \<forall>r \<in> set (sc_good s). int (length (lr_values r)) = dm)"

definition landed_rows :: "benv \<Rightarrow> upload \<Rightarrow> landing_row list" where
  "landed_rows env up = (case up of Refused _ _ \<Rightarrow> [] | Columns rows \<Rightarrow> rows | Lines s \<Rightarrow> map (landed_row env) (sc_good s))"

definition part_uri :: "benv \<Rightarrow> import_job \<Rightarrow> upload \<Rightarrow> string \<Rightarrow> uri" where
  "part_uri env job up uid =
     (let prefix = import_landing_prefix env (ij_key job) (ij_id job) @ ''/landing''
      in case up of Lines _ \<Rightarrow> next_part_uri prefix uid | _ \<Rightarrow> prefix @ ''/part-0001.parquet'')"

lemma has_scheme_part:
  "has_scheme (landing_prefix env (ij_key job)) \<Longrightarrow> has_scheme (part_uri env job up uid)"
  by (cases up) (simp_all add: part_uri_def next_part_uri_def import_landing_prefix_def has_scheme_append Let_def)

lemma write_landing_ok:
  assumes on: "online (ve_env ve)" and lp: "has_scheme (landing_prefix (ve_env ve) (ij_key job))"
    and ok: "upload_ok dm up" and dm: "0 < dm" and n: "accepted_count up > 0"
  shows "write_landing ve b (import_landing_prefix (ve_env ve) (ij_key job) (ij_id job) @ ''/landing'') up uid =
    Inr (dset (part_uri (ve_env ve) job up uid) (PartB (landed_rows (ve_env ve) up)) b)"
proof -
  note s = has_scheme_part[OF lp, of up uid]
  show ?thesis
  proof (cases up)
    case (Lines sc)
    then have "\<forall>r \<in> set (sc_good sc). int (length (lr_values r)) = dm" "sc_good sc \<noteq> []"
      using ok n by (auto simp: upload_ok_def)
    from uniform[OF this(1) dm this(2)] dm have "records_to_table (ve_env ve) (sc_good sc) = Inr (map (landed_row (ve_env ve)) (sc_good sc))"
      by (simp add: records_to_table_def)
    then show ?thesis using s on
      by (simp add: write_landing_def write_parquet_def write_bytes_def online_def Lines part_uri_def landed_rows_def Let_def)
  qed (use s on ok in \<open>simp_all add: write_landing_def write_bytes_def online_def part_uri_def landed_rows_def upload_ok_def Let_def\<close>)
qed

text \<open>The bucket a landed import leaves, and the last state of its job.\<close>

definition landed_bucket :: "'i venv \<Rightarrow> import_job \<Rightarrow> upload \<Rightarrow> string \<Rightarrow> 'i bucket \<Rightarrow> 'i bucket" where
  "landed_bucket ve job up uid b =
     (let b1 = with_body ve job (rejects_of up) b
      in if accepted_count up = 0 then b1
         else dset (part_uri (ve_env ve) job up uid) (PartB (landed_rows (ve_env ve) up)) b1)"

definition indexing_patch :: "'i venv \<Rightarrow> import_job \<Rightarrow> upload \<Rightarrow> import_patch" where
  "indexing_patch ve job up = no_patch\<lparr>ip_status := Some ''indexing'',
     ip_counts := Some (int (processed_count up), int (accepted_count up), int (length (rejects_of up))),
     ip_rejected_uri := (if rejects_of up = [] then None else Some (rejects_uri (ve_env ve) job))\<rparr>"

lemma land_upload_ok:
  fixes ve :: "'i venv" and w :: "'i world"
  assumes on: "online (ve_env ve)" and lp: "has_scheme (landing_prefix (ve_env ve) (ij_key job))"
    and j: "get_import_job_by_id (w_jobs w) (ij_id job) = Some job"
    and q: "ve_quotas ve \<longrightarrow> dget (ac_tenants a) (fst (ij_key job)) \<noteq> None" and room: "vector_room ve a (fst (ij_key job)) (accepted_count up)"
    and ok: "upload_ok dm up" and dm: "0 < dm"
  obtains w' where "land_upload ve (w, a) job dm up now uid =
      (Inr (accepted_count up), w', charged ve a (fst (ij_key job)) (accepted_count up))"
    and "get_import_job_by_id (w_jobs w') (ij_id job) = Some (apply_patch (indexing_patch ve job up) job)"
    and "w_jobs w' = update_import_job (w_jobs w) (ij_id job) (indexing_patch ve job up)"
    and "w_bucket w' = landed_bucket ve job up uid (w_bucket w)" and "serving_kept w w'" and "cat_ok (w_cat w) \<Longrightarrow> cat_ok (w_cat w')"
    and "\<And>r. cat_row (w_cat w) (ij_key job) = Some r \<Longrightarrow> \<exists>r'. cat_row (w_cat w') (ij_key job) = Some r' \<and> d_status r' = ''indexing'' \<and>
      d_row_count r' = d_row_count r + int (accepted_count up)"
proof -
  let ?k = "ij_key job" and ?n = "accepted_count up" and ?b = "landed_bucket ve job up uid (w_bucket w)"
  let ?c = "if ?n > 0 then upsert_dataset (increment_row_count (w_cat w) ?k (int ?n)) ?k dm (ij_upload job) (ij_format job) now else w_cat w"
  let ?w' = "set_status (set_job (w\<lparr>w_bucket := ?b, w_cat := ?c\<rparr>) (ij_id job) (indexing_patch ve job up)) ?k ''indexing'' None None now"
  obtain m where ch: "charge_vectors ve a (fst ?k) ?n = (Inr None, charged ve a (fst ?k) ?n)"
    using charge_vectors_ok[OF q, of ?n] room by auto
  have run: "land_upload ve (w, a) job dm up now uid = (Inr ?n, ?w', charged ve a (fst ?k) ?n)"
  proof (cases "?n > 0")
    case True
    then show ?thesis
      by (simp add: land_upload_def ch with_rejects_online[OF on lp] write_landing_ok[OF on lp ok dm True] landed_bucket_def
          indexing_patch_def Let_def)
  next
    case False
    then have n: "?n = 0" by simp
    show ?thesis
      by (simp add: land_upload_def ch[unfolded n] n with_rejects_online[OF on lp] landed_bucket_def indexing_patch_def Let_def)
  qed
  show thesis
  proof (rule that[OF run])
    show "get_import_job_by_id (w_jobs ?w') (ij_id job) = Some (apply_patch (indexing_patch ve job up) job)"
      using updated_job[OF j] by simp
    show "serving_kept w ?w'" by (simp add: serving_kept_def)
    show "cat_ok (w_cat ?w')" if "cat_ok (w_cat w)"
      using that by (simp add: set_status_def cat_ok_update_status cat_ok_upsert increment_row_count_def cat_ok_update_row)
    show "\<exists>r'. cat_row (w_cat ?w') ?k = Some r' \<and> d_status r' = ''indexing'' \<and> d_row_count r' = d_row_count r + int ?n"
      if r: "cat_row (w_cat w) ?k = Some r" for r
    proof -
      obtain r1 where r1: "cat_row ?c ?k = Some r1" "d_row_count r1 = d_row_count r + int ?n"
        using r count_row[OF r, of "int ?n" dm "ij_upload job" "ij_format job" now] by (cases "?n > 0") auto
      from status_row[OF r1(1), of "''indexing''" None None now] r1(2) show ?thesis by (auto simp: set_status_def)
    qed
  qed simp_all
qed

section \<open>A whole import\<close>

definition empty_scan :: scan where
  "empty_scan = \<lparr>sc_processed = 0, sc_good = [], sc_rejected = []\<rparr>"

lemma scan_file:
  "scan_lines ve mode mb dm 0 ls empty_scan =
    (if tolerated mode mb (bad_of ve dm (numbered 0 ls))
     then Inr \<lparr>sc_processed = length (numbered 0 ls), sc_good = good_of ve dm (numbered 0 ls), sc_rejected = bad_of ve dm (numbered 0 ls)\<rparr>
     else scan_lines ve mode mb dm 0 ls empty_scan)"
  using scan_lines_ok[of mode mb empty_scan ve dm 0 ls] by (simp add: empty_scan_def)

lemma scan_file_shape:
  assumes "scan_lines ve mode mb dm 0 ls empty_scan = Inr s"
  shows "tolerated mode mb (bad_of ve dm (numbered 0 ls)) \<and>
    s = \<lparr>sc_processed = length (numbered 0 ls), sc_good = good_of ve dm (numbered 0 ls), sc_rejected = bad_of ve dm (numbered 0 ls)\<rparr>"
proof (cases "tolerated mode mb (bad_of ve dm (numbered 0 ls))")
  case True
  then show ?thesis using assms scan_file[of ve mode mb dm ls] by simp
next
  case False
  have r: "sc_rejected empty_scan = []" by (simp add: empty_scan_def)
  have "tolerated mode mb (sc_rejected empty_scan)" by (simp add: r tolerated_def split: option.split)
  from scan_lines_stops[OF _ this, of ve dm 0 ls] False assms show ?thesis by (simp only: r append_Nil) auto
qed

lemma read_upload_ok:
  assumes "\<And>m rs. read_upload ve b job dm \<noteq> Refused m rs"
  shows "upload_ok dm (read_upload ve b job dm)"
proof (cases "read_upload ve b job dm")
  case (Lines s)
  then obtain ls where "scan_lines ve (ij_error_mode job) (ij_max_bad job) dm 0 ls empty_scan = Inr s"
    unfolding read_upload_def empty_scan_def[symmetric] by (auto split: if_splits sum.splits option.splits)
  from scan_file_shape[OF this] show ?thesis by (auto simp: Lines upload_ok_def dest: good_of_width)
qed (use assms in \<open>simp_all add: upload_ok_def\<close>)

text \<open>A text upload whose rejects are tolerated is the scan of all its lines.\<close>

lemma read_text_upload:
  assumes "ij_format job \<noteq> ''parquet''" and "read_bytes (be_down (ve_env ve)) b (ij_upload job) = Inr x" and "ve_text ve x = Some text"
    and "tolerated (ij_error_mode job) (ij_max_bad job) (bad_of ve dm (numbered 0 (splitlines text)))"
  shows "read_upload ve b job dm = Lines \<lparr>sc_processed = length (numbered 0 (splitlines text)),
    sc_good = good_of ve dm (numbered 0 (splitlines text)), sc_rejected = bad_of ve dm (numbered 0 (splitlines text))\<rparr>"
  using assms scan_file[of ve "ij_error_mode job" "ij_max_bad job" dm "splitlines text"]
  by (simp add: read_upload_def empty_scan_def)

text \<open>The import goes through: the file is not too large, it is read, and the quota has room.\<close>

definition within_limit :: "'i venv \<Rightarrow> 'i bucket \<Rightarrow> import_job \<Rightarrow> bool" where
  "within_limit ve b job \<longleftrightarrow> (case dget b (ij_upload job) of None \<Rightarrow> True | Some x \<Rightarrow> ve_size ve x \<le> ve_max_bytes ve)"

definition goes_through :: "'i venv \<Rightarrow> 'i world \<Rightarrow> accounts \<Rightarrow> import_job \<Rightarrow> bool" where
  "goes_through ve w a job \<longleftrightarrow> within_limit ve (w_bucket w) job \<and>
     (case read_upload ve (w_bucket w) job (dataset_dimension (w_cat w) (ij_key job) (ve_dim ve)) of
        Refused _ _ \<Rightarrow> False | up \<Rightarrow> vector_room ve a (fst (ij_key job)) (accepted_count up))"

lemma validating_dimension [simp]:
  "dataset_dimension (w_cat (set_status w k st None None now)) k d = dataset_dimension (w_cat w) k d"
proof (cases "cat_row (w_cat w) k")
  case None
  then have "cat_row (w_cat (set_status w k st None None now)) k = None"
    by (auto simp: set_status_def update_dataset_status_def mc_update_status_def pc_update_status_def cat_row_def update_row_def
        set_row_def pdict_simps Let_def split: option.splits if_splits)
  with None show ?thesis by (simp add: dataset_dimension_def get_dataset_def)
next
  case (Some r)
  from status_row[OF Some, of st None None now] Some show ?thesis
    by (auto simp: dataset_dimension_def get_dataset_def set_status_def)
qed

lemma serving_kept_status [simp]: "serving_kept (set_status w k st msg ix now) w' \<longleftrightarrow> serving_kept w w'"
  by (simp add: serving_kept_def)

lemma object_size_ok:
  fixes now :: time
  assumes "online (ve_env ve)" and "has_scheme (ij_upload job)" and "get_import_job_by_id (w_jobs w) (ij_id job) = Some job"
  defines "dm \<equiv> dataset_dimension (w_cat w) (ij_key job) (ve_dim ve)"
    and "w1 \<equiv> set_status w (ij_key job) ''validating'' None None now"
  shows "\<exists>m. process_import ve (w, a) (ij_id job) now uid =
    (if \<not> within_limit ve (w_bucket w) job then (Inr 0, fail_job (ve_env ve) w job m now, a)
     else case read_upload ve (w_bucket w) job dm of
         Refused m rs \<Rightarrow> (let (r, w2) = import_failed ve w1 job m rs now in (r, w2, a))
       | up \<Rightarrow> land_upload ve (w1, a) job dm up now uid)"
  using assms(1-3) unfolding dm_def w1_def
  by (cases "dget (w_bucket w) (ij_upload job)")
    (auto simp: process_import_def object_size_def online_def within_limit_def Let_def cong: upload.case_cong)

lemma fail_as_failed:
  "with_rejects ve w p [] = (Inr None, w)" "import_failed ve w job m [] now = (Inr 0, fail_job (ve_env ve) w job m now)"
  by (simp_all add: with_rejects_def import_failed_def)

lemma land_upload_refused:
  assumes "ve_quotas ve \<longrightarrow> dget (ac_tenants a) (fst (ij_key job)) \<noteq> None"
    and "\<not> vector_room ve a (fst (ij_key job)) (accepted_count up)"
  shows "\<exists>m. land_upload ve (w, a) job dm up now uid =
    (let (r, w2) = import_failed ve w job m (rejects_of up) now in (r, w2, a))"
proof -
  obtain m where "charge_vectors ve a (fst (ij_key job)) (accepted_count up) = (Inr (Some m), a)"
    using charge_vectors_ok[OF assms(1), of "accepted_count up"] assms(2) by auto
  then show ?thesis by (auto simp: land_upload_def Let_def)
qed

text \<open>The two ways an import can end, whatever the upload.\<close>

lemma import_cases:
  fixes ve :: "'i venv" and w :: "'i world"
  assumes on: "online (ve_env ve)" and us: "has_scheme (ij_upload job)"
    and j: "get_import_job_by_id (w_jobs w) (ij_id job) = Some job"
    and q: "ve_quotas ve \<longrightarrow> dget (ac_tenants a) (fst (ij_key job)) \<noteq> None"
  defines "dm \<equiv> dataset_dimension (w_cat w) (ij_key job) (ve_dim ve)"
  obtains
    (landed) "goes_through ve w a job" "upload_ok dm (read_upload ve (w_bucket w) job dm)"
      "vector_room ve a (fst (ij_key job)) (accepted_count (read_upload ve (w_bucket w) job dm))"
      "process_import ve (w, a) (ij_id job) now uid =
         land_upload ve (set_status w (ij_key job) ''validating'' None None now, a) job dm (read_upload ve (w_bucket w) job dm) now uid"
  | (refused) v m rs where "\<not> goes_through ve w a job" "v \<in> {w, set_status w (ij_key job) ''validating'' None None now}"
      "process_import ve (w, a) (ij_id job) now uid = (let (r, w2) = import_failed ve v job m rs now in (r, w2, a))"
proof -
  let ?w1 = "set_status w (ij_key job) ''validating'' None None now" and ?up = "read_upload ve (w_bucket w) job dm"
  obtain m0 where run: "process_import ve (w, a) (ij_id job) now uid =
      (if \<not> within_limit ve (w_bucket w) job then (Inr 0, fail_job (ve_env ve) w job m0 now, a)
       else case ?up of
           Refused m rs \<Rightarrow> (let (r, w2) = import_failed ve ?w1 job m rs now in (r, w2, a))
         | up \<Rightarrow> land_upload ve (?w1, a) job dm up now uid)"
    using object_size_ok[OF on us j, of a now uid] unfolding dm_def by blast
  show thesis
  proof (cases "within_limit ve (w_bucket w) job")
    case False
    then show thesis using refused[of w m0 "[]"] run by (simp add: fail_as_failed goes_through_def)
  next
    case lim: True
    show thesis
    proof (cases "\<exists>m rs. ?up = Refused m rs")
      case True
      then obtain m rs where "?up = Refused m rs" by blast
      then show thesis using refused[of ?w1 m rs] run lim unfolding goes_through_def dm_def[symmetric] by simp
    next
      case False
      then have nr: "\<And>m rs. ?up \<noteq> Refused m rs" by blast
      have p: "process_import ve (w, a) (ij_id job) now uid = land_upload ve (?w1, a) job dm ?up now uid"
        using run lim nr by (cases ?up) auto
      have g: "goes_through ve w a job \<longleftrightarrow> vector_room ve a (fst (ij_key job)) (accepted_count ?up)"
        using lim nr unfolding goes_through_def dm_def[symmetric] by (cases ?up) auto
      show thesis
      proof (cases "vector_room ve a (fst (ij_key job)) (accepted_count ?up)")
        case True
        then show thesis using landed g read_upload_ok[OF nr] p by blast
      next
        case False
        from land_upload_refused[OF q False, of ?w1 dm now uid] show thesis using refused[of ?w1] g False p by auto
      qed
    qed
  qed
qed

end
