(* ===== verification/Import_Properties.thy ===== *)
theory Import_Properties
  imports Import_Correct Build_Properties
begin

text \<open>
  What an import promises: all of a file or nothing, and the accepted records end up in what a reader
  sees.
\<close>

section \<open>All or nothing\<close>


section \<open>From upload to reader\<close>







section \<open>The uris of an import\<close>





section \<open>A text import\<close>






section \<open>From the staged file to the reader\<close>





section \<open>A concrete import\<close>



definition demo_content :: string where
  "demo_content = [CHR ''A'', CHR 0x0A, CHR ''B'', CHR 0x0A]"

definition demo_job :: "int option \<Rightarrow> import_job" where
  "demo_job max_bad = (new_import_job ''imp'' demo_key ''ndjson'' ''continue'' max_bad ''s3://b/staging/up.ndjson'' 5)\<lparr>ij_status := ''validating''\<rparr>"

definition staged_world :: "int option \<Rightarrow> list_index world" where
  "staged_world max_bad = empty_world\<lparr>w_jobs := [demo_job max_bad],
     w_bucket := [(''s3://b/staging/up.ndjson'', OtherB demo_content)]\<rparr>"




lemma staged_world_simps [simp]:
  "w_cat (staged_world m) = w_cat empty_world" "w_jobs (staged_world m) = [demo_job m]" "w_recall (staged_world m) = no_recall"
  "w_bucket (staged_world m) = [(''s3://b/staging/up.ndjson'', OtherB demo_content)]"
  by (simp_all add: staged_world_def)













end
