(* ===== verification/Registry.thy ===== *)
theory Registry
  imports Import Auth
begin

text \<open>
  The control plane's \<open>/v1/datasets\<close> surface, \<open>services/source_registry/main.py\<close>: datasets, NDJSON
  ingest, get, list and delete by id over recall and the newest shard, and bulk imports. A handler
  takes the tenant the authentication resolved; an exception that escapes it is \<open>Inl\<close>.
\<close>

section \<open>Configuration\<close>

text \<open>\<open>rc_fault\<close> holds when the recall store cannot be reached; \<open>rc_sign\<close> signs a URL.\<close>

record 'i rcfg =
  rc_v :: "'i venv"
  rc_staging :: "string option"
  rc_ingest_max :: int
  rc_max_rows :: int
  rc_ttl :: int
  rc_fault :: bool
  rc_sign :: "string \<Rightarrow> uri \<Rightarrow> int \<Rightarrow> string"
  rc_ts :: "time \<Rightarrow> string"

abbreviation rc_env :: "'i rcfg \<Rightarrow> benv" where
  "rc_env cfg \<equiv> ve_env (rc_v cfg)"

definition default_staging_prefix :: "string \<Rightarrow> string" where
  "default_staging_prefix landing =
     (let base = rstrip_slash landing; head = (if CHR ''/'' \<in> set base then before_last (CHR ''/'') base else [])
      in if head \<noteq> [] then head @ ''/staging'' else base @ ''-staging'')"

definition staging_prefix_for :: "'i rcfg \<Rightarrow> key \<Rightarrow> string" where
  "staging_prefix_for cfg k =
     (let s = (case rc_staging cfg of None \<Rightarrow> default_staging_prefix (be_landing (rc_env cfg)) | Some s \<Rightarrow> s);
          base = (if ends_with ''/'' s then s else s @ ''/'')
      in if be_tenant_prefix (rc_env cfg) then base @ fst k @ ''/'' @ snd k else base @ snd k)"

definition err :: "int \<Rightarrow> string \<Rightarrow> string \<Rightarrow> response" where
  "err status_code code message = error_envelope status_code code message None"

definition no_dataset :: "string \<Rightarrow> response" where
  "no_dataset name = err 404 ''dataset_not_found'' (''Dataset '' @ [CHR 0x27] @ name @ [CHR 0x27] @ '' not found'')"

definition json_opt :: "('a \<Rightarrow> json) \<Rightarrow> 'a option \<Rightarrow> json" where
  "json_opt f x = (case x of None \<Rightarrow> JNull | Some v \<Rightarrow> f v)"

section \<open>Datasets\<close>

definition dataset_response :: "'i rcfg \<Rightarrow> string \<Rightarrow> dsrow \<Rightarrow> json" where
  "dataset_response cfg name r = JObj
     [(''name'', JStr name), (''dimension'', JInt (d_dimension r)), (''status'', JStr (d_status r)),
      (''row_count'', JInt (d_row_count r)), (''created_at'', JStr (rc_ts cfg (d_created r))),
      (''last_indexed_at'', json_opt (JStr \<circ> rc_ts cfg) (d_last_indexed r)), (''error_message'', json_opt JStr (d_error r))]"

text \<open>The pattern \<open>^[a-z0-9_-]{1,64}$\<close>: \<open>$\<close> also matches before a final newline.\<close>

definition name_char :: "char \<Rightarrow> bool" where
  "name_char c \<longleftrightarrow> c \<in> set ''abcdefghijklmnopqrstuvwxyz0123456789_-''"

definition name_matches :: "string \<Rightarrow> bool" where
  "name_matches s =
     (let t = (if s \<noteq> [] \<and> last s = CHR 0x0A then butlast s else s)
      in list_all name_char t \<and> 1 \<le> length t \<and> length t \<le> 64)"

definition create_dataset_endpoint ::
  "'i rcfg \<Rightarrow> 'i world \<Rightarrow> tenant \<Rightarrow> json option \<Rightarrow> time \<Rightarrow> response \<times> 'i world" where
  "create_dataset_endpoint cfg w tn body now =
     (case body of
        None \<Rightarrow> (err 400 ''invalid_name'' ''Request body must be JSON'', w)
      | Some (JObj fs) \<Rightarrow>
         (case dget fs ''name'' of
            Some (JStr name) \<Rightarrow>
              if \<not> name_matches name then (err 400 ''invalid_name'' ''name must be 1-64 chars matching [a-z0-9_-]+'', w)
              else (case dget fs ''dimension'' of
                  Some (JInt dm) \<Rightarrow>
                    if dm \<le> 0 then (err 400 ''invalid_dimension'' ''dimension must be a positive integer'', w)
                    else (case create_dataset (w_cat w) (tn, name) dm now of
                        (Inl DatasetExists, c) \<Rightarrow>
                          (err 409 ''dataset_exists'' (''Dataset '' @ [CHR 0x27] @ name @ [CHR 0x27] @ '' already exists for this tenant''),
                           w\<lparr>w_cat := c\<rparr>)
                      | (Inr r, c) \<Rightarrow> ((201, dataset_response cfg name r), w\<lparr>w_cat := c\<rparr>))
                | _ \<Rightarrow> (err 400 ''invalid_dimension'' ''dimension must be a positive integer'', w))
          | _ \<Rightarrow> (err 400 ''invalid_name'' ''name must be 1-64 chars matching [a-z0-9_-]+'', w))
      | Some _ \<Rightarrow> (err 400 ''invalid_name'' ''Request body must be a JSON object'', w))"

definition list_datasets_endpoint :: "'i rcfg \<Rightarrow> 'i world \<Rightarrow> tenant \<Rightarrow> response" where
  "list_datasets_endpoint cfg w tn =
     (200, JObj [(''datasets'', JList (map (\<lambda>(k, r). dataset_response cfg (snd k) r) (list_datasets (w_cat w) tn)))])"

definition get_dataset_endpoint :: "'i rcfg \<Rightarrow> 'i world \<Rightarrow> tenant \<Rightarrow> string \<Rightarrow> response" where
  "get_dataset_endpoint cfg w tn name =
     (case get_dataset (w_cat w) (tn, name) of None \<Rightarrow> no_dataset name | Some r \<Rightarrow> (200, dataset_response cfg name r))"

text \<open>An empty response body is \<open>JNull\<close>.\<close>

definition delete_dataset_endpoint :: "'i world \<Rightarrow> tenant \<Rightarrow> string \<Rightarrow> time \<Rightarrow> response \<times> 'i world" where
  "delete_dataset_endpoint w tn name now =
     (let (ok, c) = delete_dataset (w_cat w) (tn, name) now
      in (if ok then (204, JNull) else no_dataset name, w\<lparr>w_cat := c\<rparr>))"

section \<open>Ingest\<close>

fun reject_reason :: "reject \<Rightarrow> string" where
  "reject_reason NotObject = ''record must be a JSON object''"
| "reject_reason BadId = ''id must be a non-empty string''"
| "reject_reason IdTooLong = ''id too long (max 256 chars)''"
| "reject_reason BadValues = ''values must be list[float]''"
| "reject_reason (DimensionMismatch n dm) = ''dimension mismatch: got '' @ dec n @ '' expected '' @ str_int dm"
| "reject_reason NotFinite = ''values must be finite and within float4 range''"
| "reject_reason BadMetadata = ''metadata must be object''"

text \<open>The record an accepted line is rewritten to; a failed conversion raises.\<close>

definition accepted_record :: "meta \<Rightarrow> pyexc + json" where
  "accepted_record fs =
     (case py_floats (case dget fs ''values'' of Some (JList vs) \<Rightarrow> vs | _ \<Rightarrow> []) of
        Inl e \<Rightarrow> Inl e
      | Inr xs \<Rightarrow> Inr (JObj [(''id'', case dget fs ''id'' of None \<Rightarrow> JNull | Some i \<Rightarrow> i), (''values'', JList (map JFloat xs)),
          (''metadata'', case dget fs ''metadata'' of Some (JObj m) \<Rightarrow> JObj m | _ \<Rightarrow> JObj [])]))"

text \<open>
  The lines of the body: the rewritten records and the errors by line number. A \<open>JSONDecodeError\<close> is an
  \<open>OtherError\<close>; any other exception of the parser or of the record check escapes.
\<close>

fun parse_ndjson_lines :: "'i venv \<Rightarrow> int \<Rightarrow> nat \<Rightarrow> string list \<Rightarrow> pyexc + json list \<times> (nat \<times> string) list" where
  "parse_ndjson_lines ve dm n [] = Inr ([], [])"
| "parse_ndjson_lines ve dm n (l # ls) =
     (let line_no = Suc n;
          bad = (\<lambda>reason. case parse_ndjson_lines ve dm line_no ls of
            Inl e \<Rightarrow> Inl e | Inr (good, errors) \<Rightarrow> Inr (good, (line_no, reason) # errors))
      in if strip l = [] then parse_ndjson_lines ve dm line_no ls
         else case ve_loads ve (strip l) of
             Inl (OtherError _) \<Rightarrow> bad ''invalid json''
           | Inl e \<Rightarrow> Inl e
           | Inr obj \<Rightarrow>
              (case validate_ndjson_record obj dm of
                 Inl e \<Rightarrow> Inl e
               | Inr (Some r) \<Rightarrow> bad (reject_reason r)
               | Inr None \<Rightarrow>
                  (case accepted_record (case obj of JObj fs \<Rightarrow> fs | _ \<Rightarrow> []) of
                     Inl e \<Rightarrow> Inl e
                   | Inr x \<Rightarrow>
                      (case parse_ndjson_lines ve dm line_no ls of
                         Inl e \<Rightarrow> Inl e | Inr (good, errors) \<Rightarrow> Inr (x # good, errors)))))"

definition parse_ndjson_body :: "'i venv \<Rightarrow> string \<Rightarrow> int \<Rightarrow> pyexc + (json list \<times> (nat \<times> string) list) option" where
  "parse_ndjson_body ve body dm =
     (case ve_text ve (OtherB body) of
        None \<Rightarrow> Inr None
      | Some t \<Rightarrow> (case parse_ndjson_lines ve dm 0 (splitlines t) of Inl e \<Rightarrow> Inl e | Inr r \<Rightarrow> Inr (Some r)))"

text \<open>\<open>bytes.strip\<close> knows six blanks.\<close>

definition byte_blank :: "char \<Rightarrow> bool" where
  "byte_blank c \<longleftrightarrow> of_char c \<in> {0x09, 0x0A, 0x0B, 0x0C, 0x0D, 0x20 :: nat}"

definition json_errors :: "(nat \<times> string) list \<Rightarrow> json" where
  "json_errors es = JList (map (\<lambda>(n, m). JObj [(''line'', JInt (int n)), (''reason'', JStr m)]) es)"

definition ingest_body :: "nat \<Rightarrow> (nat \<times> string) list \<Rightarrow> meta" where
  "ingest_body n es = [(''accepted'', JInt (int n)), (''rejected'', JInt (int (length es))), (''errors'', json_errors es)]"

text \<open>The accepted lines are parsed again for the recall tier.\<close>

definition vrec_of :: "json \<Rightarrow> vrec" where
  "vrec_of x = (case x of
     JObj fs \<Rightarrow> \<lparr>rec_id = str_field fs ''id'',
       rec_values = (case dget fs ''values'' of
          Some (JList vs) \<Rightarrow> map (\<lambda>v. case v of JFloat f \<Rightarrow> f | JInt n \<Rightarrow> Fin (of_int n) | _ \<Rightarrow> NaN) vs | _ \<Rightarrow> []),
       rec_metadata = (case dget fs ''metadata'' of Some (JObj m) \<Rightarrow> Some m | _ \<Rightarrow> None)\<rparr>
   | _ \<Rightarrow> \<lparr>rec_id = [], rec_values = [], rec_metadata = None\<rparr>)"

fun loads_all :: "'i venv \<Rightarrow> string list \<Rightarrow> pyexc + json list" where
  "loads_all ve [] = Inr []"
| "loads_all ve (l # ls) =
     (case ve_loads ve l of
        Inl e \<Rightarrow> Inl e
      | Inr x \<Rightarrow> (case loads_all ve ls of Inl e \<Rightarrow> Inl e | Inr xs \<Rightarrow> Inr (x # xs)))"

text \<open>Over the row cap a consolidation is enqueued; a failing count or publish is only logged.\<close>

definition cap_check :: "'i rcfg \<Rightarrow> 'i world \<Rightarrow> key \<Rightarrow> string \<Rightarrow> 'i world" where
  "cap_check cfg w k uid =
     (if \<not> rc_fault cfg \<and> recall_partition_count (be_recall (rc_env cfg)) (w_recall w) k > rc_max_rows cfg
      then w\<lparr>w_queue := publish (be_queue (rc_env cfg)) (w_queue w) ''CONSOLIDATE''
             [(''tenant'', JStr (fst k)), (''dataset'', JStr (snd k))] uid []\<rparr>
      else w)"

definition ingest_recall ::
  "'i rcfg \<Rightarrow> 'i world \<Rightarrow> key \<Rightarrow> string list \<Rightarrow> (nat \<times> string) list \<Rightarrow> time \<Rightarrow> string \<Rightarrow> (pyexc + response) \<times> 'i world" where
  "ingest_recall cfg w k ls es now uid =
     (if ls = [] then (Inr (200, JObj (ingest_body 0 es)), w)
      else case loads_all (rc_v cfg) ls of
          Inl e \<Rightarrow> (Inl e, w)
        | Inr xs \<Rightarrow>
            if rc_fault cfg
            then (Inr (err 503 ''recall_write_failed'' ''Recall-tier write failed; the batch was not persisted''), w)
            else (Inr (200, JObj (ingest_body (length ls) es)),
                  cap_check cfg (w\<lparr>w_recall := snd (recall_upsert_vectors (be_pg (rc_env cfg)) (be_recall (rc_env cfg)) (w_recall w) k now
                    (map vrec_of xs))\<rparr>) k uid))"

definition ingest_landing ::
  "'i rcfg \<Rightarrow> 'i world \<Rightarrow> key \<Rightarrow> string list \<Rightarrow> (nat \<times> string) list \<Rightarrow> string \<Rightarrow> string \<Rightarrow> (pyexc + response) \<times> 'i world" where
  "ingest_landing cfg w k ls es job uid =
     (let answer = (202, JObj (ingest_body (length ls) es @ [(''job_id'', JStr (''job_'' @ job))])) in
      if ls = [] then (Inr answer, w)
      else
        let u = landing_prefix (rc_env cfg) k @ ''/uploads/upload-'' @ take 12 uid @ ''.jsonl'' in
        case write_bytes (be_down (rc_env cfg)) (w_bucket w) u (OtherB (join [CHR 0x0A] ls @ [CHR 0x0A])) of
          Inl e \<Rightarrow> (Inl e, w)
        | Inr b \<Rightarrow>
            (Inr answer, w\<lparr>w_bucket := b, w_queue := publish (be_queue (rc_env cfg)) (w_queue w) ''VALIDATE_DATASET''
               [(''dataset'', JStr (snd k)), (''tenant'', JStr (fst k)), (''uri'', JStr u), (''file_type'', JStr ''jsonl''),
                (''job_id'', JStr (''job_'' @ job))] uid []\<rparr>))"

definition post_vectors ::
  "'i rcfg \<Rightarrow> 'i site \<Rightarrow> tenant \<Rightarrow> string \<Rightarrow> string \<Rightarrow> time \<Rightarrow> string \<Rightarrow> string \<Rightarrow> (pyexc + response) \<times> 'i site" where
  "post_vectors cfg site tn name body now job uid =
     (let (w, a) = site; k = (tn, name); ve = rc_v cfg in
      case get_dataset (w_cat w) k of
        None \<Rightarrow> (Inr (no_dataset name), site)
      | Some r \<Rightarrow>
          if int (length body) > rc_ingest_max cfg
          then (Inr (err 413 ''payload_too_large'' (''Request body exceeds '' @ str_int (rc_ingest_max cfg) @ '' bytes'')), site)
          else if list_all byte_blank body then (Inr (err 400 ''invalid_ndjson'' ''Empty NDJSON body''), site)
          else (case parse_ndjson_body ve body (d_dimension r) of
              Inl e \<Rightarrow> (Inl e, site)
            | Inr None \<Rightarrow> (Inr (err 400 ''invalid_ndjson'' ''body must be UTF-8''), site)
            | Inr (Some (good, es)) \<Rightarrow>
                if good = [] \<and> es = [] then (Inr (err 400 ''invalid_ndjson'' ''No valid NDJSON records found''), site)
                else
                  (case (if good \<noteq> [] \<and> ve_quotas ve then try_consume_vectors (ve_memory ve) a tn (int (length good))
                         else (Inr (True, \<lparr>us_vectors = 0, us_vector_quota = 0, us_queries = 0, us_query_quota = 0, us_reset = 0\<rparr>), a)) of
                     (Inl e, a1) \<Rightarrow> (Inl e, w, a1)
                   | (Inr (False, u), a1) \<Rightarrow> (Inr (vector_quota_429 u), w, a1)
                   | (Inr (True, _), a1) \<Rightarrow>
                      (let (res, w1) = (if recall_enabled (be_recall (rc_env cfg))
                                        then ingest_recall cfg w k (map (ve_dumps ve) good) es now uid
                                        else ingest_landing cfg w k (map (ve_dumps ve) good) es job uid)
                       in (res, w1, a1)))))"

section \<open>Vectors by id\<close>

definition watermark_of_shard :: "shard option \<Rightarrow> int" where
  "watermark_of_shard s = (case s of None \<Rightarrow> 0 | Some sh \<Rightarrow> sh_lsn sh)"

text \<open>None when the dataset has no shard; a failing read is an empty sidecar.\<close>

definition newest_sidecar :: "'i rcfg \<Rightarrow> 'i world \<Rightarrow> key \<Rightarrow> sidecar option" where
  "newest_sidecar cfg w k =
     (case get_latest_shard (w_cat w) k of
        None \<Rightarrow> None | Some s \<Rightarrow> Some (read_shard_sidecar (be_down (rc_env cfg)) (w_bucket w) (sh_uri s)))"

definition resolve_shard_sidecar_and_watermark :: "'i rcfg \<Rightarrow> 'i world \<Rightarrow> key \<Rightarrow> sidecar option \<times> int" where
  "resolve_shard_sidecar_and_watermark cfg w k =
     (newest_sidecar cfg w k, watermark_of_shard (get_latest_shard (w_cat w) k))"

definition lower :: "string \<Rightarrow> string" where
  "lower s = map (\<lambda>c. let n = of_char c :: nat in if 65 \<le> n \<and> n \<le> 90 then char_of (n + 32) else c) s"

definition is_truthy_query_flag :: "string option \<Rightarrow> bool" where
  "is_truthy_query_flag v =
     (case v of None \<Rightarrow> False | Some s \<Rightarrow> lower (strip s) \<in> {'''', ''true'', ''1'', ''yes'', ''on''})"

definition no_vector :: "vid \<Rightarrow> response" where
  "no_vector i = err 404 ''not_found'' (''Vector '' @ [CHR 0x27] @ i @ [CHR 0x27] @ '' not found'')"

definition vector_body :: "vid \<Rightarrow> meta \<Rightarrow> vec option \<Rightarrow> response" where
  "vector_body i metadata embedding =
     (200, JObj ([(''id'', JStr i), (''metadata'', JObj metadata)] @
       (case embedding of None \<Rightarrow> [] | Some v \<Rightarrow> [(''embedding'', JList (map JFloat v))])))"

text \<open>The part of the answer that comes from the shard.\<close>

definition shard_vector :: "'i rcfg \<Rightarrow> sidecar option \<Rightarrow> vid \<Rightarrow> response" where
  "shard_vector cfg sc i =
     (case sc of
        None \<Rightarrow> no_vector i
      | Some d \<Rightarrow> (case dget d (id64 (rc_env cfg) i) of None \<Rightarrow> no_vector i | Some (j, metadata) \<Rightarrow> vector_body j metadata None))"

definition get_vector_endpoint ::
  "'i rcfg \<Rightarrow> 'i world \<Rightarrow> tenant \<Rightarrow> string \<Rightarrow> vid \<Rightarrow> string option \<Rightarrow> pyexc + response" where
  "get_vector_endpoint cfg w tn name i include_values =
     (let k = (tn, name); env = rc_env cfg in
      if get_dataset (w_cat w) k = None then Inr (no_dataset name)
      else if recall_enabled (be_recall env)
      then
        let (sc, wm) = resolve_shard_sidecar_and_watermark cfg w k in
        if rc_fault cfg then Inl (OtherError ''recall store unavailable'')
        else if is_truthy_query_flag include_values
        then (case recall_get_vector_with_embedding (be_pg env) (be_recall env) (w_recall w) k i wm of
            Inl e \<Rightarrow> Inl e
          | Inr (Some Live, m, v) \<Rightarrow> Inr (vector_body i (meta_or m) v)
          | Inr (Some Tombstone, _, _) \<Rightarrow> Inr (no_vector i)
          | Inr (None, _, _) \<Rightarrow> Inr (shard_vector cfg sc i))
        else (case recall_get_vector (be_recall env) (w_recall w) k i wm of
            (Some Live, m) \<Rightarrow> Inr (vector_body i (meta_or m) None)
          | (Some Tombstone, _) \<Rightarrow> Inr (no_vector i)
          | (None, _) \<Rightarrow> Inr (shard_vector cfg sc i))
      else Inr (shard_vector cfg (newest_sidecar cfg w k) i))"

text \<open>A cursor is the base64 of \<open>{"o": offset}\<close>; any malformed one decodes to None.\<close>

definition VECTORS_LIST_DEFAULT_LIMIT :: int where
  "VECTORS_LIST_DEFAULT_LIMIT = 100"

definition VECTORS_LIST_MAX_LIMIT :: int where
  "VECTORS_LIST_MAX_LIMIT = 1000"

definition cursor_text :: "int \<Rightarrow> string" where
  "cursor_text offset = ''{'' @ [CHR 0x22] @ ''o'' @ [CHR 0x22] @ '': '' @ str_int offset @ ''}''"

definition encode_cursor :: "int \<Rightarrow> string" where
  "encode_cursor offset = urlsafe_b64encode (cursor_text offset)"

fun int_of_json :: "json \<Rightarrow> int option" where
  "int_of_json (JBool b) = Some (if b then 1 else 0)"
| "int_of_json (JInt n) = Some n"
| "int_of_json (JFloat (Fin q)) = Some (if q < 0 then - \<lfloor>- q\<rfloor> else \<lfloor>q\<rfloor>)"
| "int_of_json (JStr s) = py_int s"
| "int_of_json _ = None"

definition decode_cursor :: "'i venv \<Rightarrow> string \<Rightarrow> int option" where
  "decode_cursor ve cursor =
     (if list_ex (\<lambda>c. (of_char c :: nat) \<ge> 128) cursor then None
      else case Option.bind (urlsafe_b64decode cursor) (\<lambda>raw. ve_text ve (OtherB raw)) of
          None \<Rightarrow> None
        | Some t \<Rightarrow>
           (case ve_loads ve t of
              Inr (JObj fs) \<Rightarrow>
               (case Option.bind (dget fs ''o'') int_of_json of None \<Rightarrow> None | Some n \<Rightarrow> if n < 0 then None else Some n)
            | _ \<Rightarrow> None))"

definition parse_limit :: "string option \<Rightarrow> int option" where
  "parse_limit v =
     (case (case v of None \<Rightarrow> Some VECTORS_LIST_DEFAULT_LIMIT
              | Some s \<Rightarrow> if s = [] then Some VECTORS_LIST_DEFAULT_LIMIT else py_int s) of
        None \<Rightarrow> None | Some n \<Rightarrow> if n < 1 then None else Some (min n VECTORS_LIST_MAX_LIMIT))"

text \<open>\<open>JSONDecodeError\<close>, an \<open>OtherError\<close> here, is a \<open>ValueError\<close>; no filter is the empty one.\<close>

definition parse_filter :: "'i venv \<Rightarrow> string option \<Rightarrow> pyexc + meta option" where
  "parse_filter ve flt =
     (case flt of
        None \<Rightarrow> Inr (Some [])
      | Some t \<Rightarrow>
         (case ve_loads ve t of
            Inl (OtherError _) \<Rightarrow> Inr None
          | Inl (ValueError _) \<Rightarrow> Inr None
          | Inl e \<Rightarrow> Inl e
          | Inr (JObj f) \<Rightarrow> Inr (Some f)
          | Inr _ \<Rightarrow> Inr None))"

text \<open>The union of the live recall rows and the sidecar's records they do not hide, filtered and sorted by id.\<close>

definition listed_records :: "'i rcfg \<Rightarrow> 'i world \<Rightarrow> key \<Rightarrow> meta \<Rightarrow> (vid \<times> meta) list" where
  "listed_records cfg w k flt =
     (let env = rc_env cfg;
          (sc, live, suppress) =
            (if recall_enabled (be_recall env)
             then let (sc, wm) = resolve_shard_sidecar_and_watermark cfg w k;
                      (live, suppress) = recall_list_rows (be_recall env) (w_recall w) k wm
                  in (sc, live, suppress)
             else (newest_sidecar cfg w k, [], {}));
          cold = filter (\<lambda>(i, m). i \<notin> suppress) (map snd (case sc of None \<Rightarrow> [] | Some d \<Rightarrow> d));
          records = cold @ live
      in sort_key fst (if flt = [] then records else filter (\<lambda>(i, m). metadata_matches_filter m flt) records))"

definition list_vectors_endpoint ::
  "'i rcfg \<Rightarrow> 'i world \<Rightarrow> tenant \<Rightarrow> string \<Rightarrow> string option \<Rightarrow> string option \<Rightarrow> string option \<Rightarrow> pyexc + response" where
  "list_vectors_endpoint cfg w tn name limit cursor flt =
     (let k = (tn, name); ve = rc_v cfg in
      if get_dataset (w_cat w) k = None then Inr (no_dataset name)
      else case parse_limit limit of
          None \<Rightarrow> Inr (err 400 ''invalid_limit'' ''limit must be a positive integer'')
        | Some page \<Rightarrow>
           (case (case cursor of None \<Rightarrow> Some 0 | Some c \<Rightarrow> decode_cursor ve c) of
              None \<Rightarrow> Inr (err 400 ''invalid_cursor'' ''cursor is malformed'')
            | Some offset \<Rightarrow>
               (case parse_filter ve flt of
                  Inl e \<Rightarrow> Inl e
                | Inr None \<Rightarrow> Inr (err 400 ''invalid_filter'' ''filter must be a JSON object'')
                | Inr (Some f) \<Rightarrow>
                    if recall_enabled (be_recall (rc_env cfg)) \<and> rc_fault cfg then Inl (OtherError ''recall store unavailable'')
                    else
                      let records = listed_records cfg w k f
                      in Inr (200, JObj
                           [(''vectors'', JList (map (\<lambda>(i, m). JObj [(''id'', JStr i), (''metadata'', JObj m)])
                               (py_slice offset (offset + page) records))),
                            (''next_cursor'', if offset + page < int (length records) then JStr (encode_cursor (offset + page)) else JNull)]))))"

definition delete_vector_endpoint ::
  "'i rcfg \<Rightarrow> 'i world \<Rightarrow> tenant \<Rightarrow> string \<Rightarrow> vid \<Rightarrow> time \<Rightarrow> string \<Rightarrow> string \<Rightarrow> response \<times> 'i world" where
  "delete_vector_endpoint cfg w tn name i now job uid =
     (let k = (tn, name); env = rc_env cfg in
      case get_dataset (w_cat w) k of
        None \<Rightarrow> (no_dataset name, w)
      | Some r \<Rightarrow>
          if recall_enabled (be_recall env)
          then (if rc_fault cfg
                then (err 503 ''recall_delete_failed'' ''Recall-tier delete failed; the vector was not tombstoned'', w)
                else ((204, JNull),
                      cap_check cfg (w\<lparr>w_recall := snd (recall_delete_vector (be_pg env) (be_recall env) (w_recall w) k now i (d_dimension r))\<rparr>) k uid))
          else
            let w1 = w\<lparr>w_queue := publish (be_queue env) (w_queue w) ''DELETE_VECTORS''
                   [(''dataset'', JStr name), (''tenant'', JStr tn), (''id'', JStr i), (''job_id'', JStr (''job_'' @ job))] uid []\<rparr>
            in ((202, JObj [(''job_id'', JStr (''job_'' @ job))]),
                if get_latest_shard (w_cat w1) k \<noteq> None then set_status w1 k ''indexing'' None None now else w1))"

section \<open>Bulk imports\<close>

definition import_upload_uri :: "'i rcfg \<Rightarrow> key \<Rightarrow> string \<Rightarrow> string \<Rightarrow> uri" where
  "import_upload_uri cfg k i fmt =
     staging_prefix_for cfg k @ ''/imports/'' @ i @ ''/upload.'' @ (if fmt \<in> {''ndjson'', ''parquet''} then fmt else ''bin'')"

definition import_percent :: "string \<Rightarrow> int" where
  "import_percent st =
     (if st = ''validating'' then 25 else if st = ''indexing'' then 90
      else if st = ''completed'' \<or> st = ''failed'' then 100 else 0)"

definition presign_get :: "'i rcfg \<Rightarrow> uri \<Rightarrow> pyexc + string" where
  "presign_get cfg u =
     (if starts_with ''s3://'' u then Inr (rc_sign cfg ''get_object'' u (rc_ttl cfg))
      else if starts_with ''http://'' u \<or> starts_with ''https://'' u \<or> starts_with ''memory://'' u then Inr u
      else Inl (ValueError ''Unsupported presign URI''))"

definition presign_put :: "'i rcfg \<Rightarrow> uri \<Rightarrow> pyexc + string" where
  "presign_put cfg u =
     (if starts_with ''s3://'' u then Inr (rc_sign cfg ''put_object'' u (rc_ttl cfg))
      else if starts_with ''memory://'' u then Inr u
      else Inl (ValueError ''Unsupported presign_put URI''))"

definition import_fields :: "'i rcfg \<Rightarrow> import_job \<Rightarrow> json \<Rightarrow> meta" where
  "import_fields cfg j rejected_url =
     [(''import_id'', JStr (ij_id j)), (''dataset'', JStr (snd (ij_key j))), (''format'', JStr (ij_format j)),
      (''status'', JStr (ij_status j)), (''error_mode'', JStr (ij_error_mode j)), (''max_bad_records'', json_opt JInt (ij_max_bad j)),
      (''records_processed'', JInt (ij_processed j)), (''records_accepted'', JInt (ij_accepted j)),
      (''records_rejected'', JInt (ij_rejected j)), (''percent_complete'', JInt (import_percent (ij_status j))),
      (''rejected_records_url'', rejected_url),
      (''error_message'', if ij_status j = ''failed'' then json_opt JStr (ij_error j) else JNull),
      (''created_at'', JStr (rc_ts cfg (ij_created j))), (''completed_at'', json_opt (JStr \<circ> rc_ts cfg) (ij_completed j))]"

definition import_response :: "'i rcfg \<Rightarrow> import_job \<Rightarrow> pyexc + meta" where
  "import_response cfg j =
     (case ij_rejected_uri j of
        Some u \<Rightarrow>
          if ij_rejected j > 0 \<and> u \<noteq> []
          then (case presign_get cfg u of Inl e \<Rightarrow> Inl e | Inr url \<Rightarrow> Inr (import_fields cfg j (JStr url)))
          else Inr (import_fields cfg j JNull)
      | None \<Rightarrow> Inr (import_fields cfg j JNull))"

definition upload_target :: "'i rcfg \<Rightarrow> import_job \<Rightarrow> time \<Rightarrow> pyexc + meta" where
  "upload_target cfg j now =
     (case presign_put cfg (ij_upload j) of
        Inl e \<Rightarrow> Inl e
      | Inr url \<Rightarrow> Inr [(''upload'', JObj [(''method'', JStr ''PUT''), (''url'', JStr url),
          (''content_type'', JStr ''application/octet-stream''), (''max_bytes'', JInt (ve_max_bytes (rc_v cfg))),
          (''expires_at'', JStr (rc_ts cfg (now + rc_ttl cfg)))])])"

text \<open>
  An absent \<open>max_bad_records\<close> and null are the same; so is, for \<open>in\<close> on the tuple of names, any value that is
  not one of them. The request's fields: format, error mode, limit.
\<close>

definition import_request :: "json option \<Rightarrow> response + string \<times> string \<times> int option" where
  "import_request body =
     (case body of
        None \<Rightarrow> Inl (err 400 ''invalid_request'' ''Request body must be JSON'')
      | Some (JObj fs) \<Rightarrow>
         (case dget fs ''format'' of
            Some (JStr fmt) \<Rightarrow>
              if fmt \<notin> {''ndjson'', ''parquet''} then Inl (err 400 ''invalid_format'' ''format must be one of ndjson, parquet'')
              else (case (case dget fs ''error_mode'' of None \<Rightarrow> JStr ''continue'' | Some m \<Rightarrow> m) of
                  JStr m \<Rightarrow>
                    if m \<notin> {''continue'', ''abort''} then Inl (err 400 ''invalid_error_mode'' ''error_mode must be one of continue, abort'')
                    else (case dget fs ''max_bad_records'' of
                        None \<Rightarrow> Inr (fmt, m, None)
                      | Some JNull \<Rightarrow> Inr (fmt, m, None)
                      | Some (JInt n) \<Rightarrow>
                          if n < 0 then Inl (err 400 ''invalid_request'' ''max_bad_records must be a non-negative integer or null'')
                          else Inr (fmt, m, Some n)
                      | Some _ \<Rightarrow> Inl (err 400 ''invalid_request'' ''max_bad_records must be a non-negative integer or null''))
                | _ \<Rightarrow> Inl (err 400 ''invalid_error_mode'' ''error_mode must be one of continue, abort''))
          | _ \<Rightarrow> Inl (err 400 ''invalid_format'' ''format must be one of ndjson, parquet''))
      | Some _ \<Rightarrow> Inl (err 400 ''invalid_request'' ''Request body must be a JSON object''))"

definition create_import ::
  "'i rcfg \<Rightarrow> 'i site \<Rightarrow> tenant \<Rightarrow> string \<Rightarrow> json option \<Rightarrow> day \<Rightarrow> time \<Rightarrow> string \<Rightarrow> (pyexc + response) \<times> 'i site" where
  "create_import cfg site tn name body today now uid =
     (let (w, a) = site; k = (tn, name); ve = rc_v cfg in
      if get_dataset (w_cat w) k = None then (Inr (no_dataset name), site)
      else case import_request body of
          Inl r \<Rightarrow> (Inr r, site)
        | Inr (fmt, mode, max_bad) \<Rightarrow>
           (let (u, a1) = (if ve_quotas ve then get_usage (ve_memory ve) a tn today else (Inl not_found, a));
                usage = (case u of Inl _ \<Rightarrow> \<lparr>us_vectors = 0, us_vector_quota = 0, us_queries = 0, us_query_quota = 0, us_reset = 0\<rparr>
                          | Inr x \<Rightarrow> x)
            in if ve_quotas ve \<and> us_vectors usage \<ge> us_vector_quota usage then (Inr (vector_quota_429 usage), w, a1)
               else
                 let i = ''imp_'' @ uid;
                     (j, jobs) = create_import_job (w_jobs w) i k fmt mode max_bad (import_upload_uri cfg k i fmt) now
                 in (case (import_response cfg j, upload_target cfg j now) of
                       (Inr b, Inr t) \<Rightarrow> Inr (201, JObj (b @ t))
                     | (Inl e, _) \<Rightarrow> Inl e
                     | (_, Inl e) \<Rightarrow> Inl e,
                     w\<lparr>w_jobs := jobs\<rparr>, a1)))"

definition no_import :: "string \<Rightarrow> response" where
  "no_import i = err 404 ''import_not_found'' (''Import '' @ [CHR 0x27] @ i @ [CHR 0x27] @ '' not found'')"

definition answer_import :: "'i rcfg \<Rightarrow> int \<Rightarrow> import_job \<Rightarrow> pyexc + response" where
  "answer_import cfg code j = (case import_response cfg j of Inl e \<Rightarrow> Inl e | Inr b \<Rightarrow> Inr (code, JObj b))"

definition complete_import ::
  "'i rcfg \<Rightarrow> 'i world \<Rightarrow> tenant \<Rightarrow> string \<Rightarrow> string \<Rightarrow> string \<Rightarrow> (pyexc + response) \<times> 'i world" where
  "complete_import cfg w tn name i uid =
     (case get_import_job (w_jobs w) tn i of
        None \<Rightarrow> (Inr (no_import i), w)
      | Some j \<Rightarrow>
          if snd (ij_key j) \<noteq> name then (Inr (no_import i), w)
          else if ij_status j \<noteq> ''awaiting_upload''
          then (Inr (err 409 ''import_not_pending'' (''Import is '' @ [CHR 0x27] @ ij_status j @ [CHR 0x27] @
                  '', expected '' @ [CHR 0x27] @ ''awaiting_upload'' @ [CHR 0x27])), w)
          else (case storage_exists (be_down (rc_env cfg)) (w_bucket w) (ij_upload j) of
              Inl e \<Rightarrow> (Inl e, w)
            | Inr False \<Rightarrow>
                (Inr (err 400 ''upload_missing'' ''No uploaded object found; PUT the file to the presigned upload URL first''), w)
            | Inr True \<Rightarrow>
               (let w1 = set_job w i (no_patch\<lparr>ip_status := Some ''validating''\<rparr>);
                    w2 = w1\<lparr>w_queue := publish (be_queue (rc_env cfg)) (w_queue w1) ''VALIDATE_DATASET''
                      [(''dataset'', JStr name), (''tenant'', JStr tn), (''uri'', JStr (ij_upload j)), (''file_type'', JStr (ij_format j)),
                       (''import_id'', JStr i)] uid []\<rparr>
                in (case get_import_job (w_jobs w2) tn i of
                      None \<Rightarrow> Inl (OtherError ''TypeError'') | Some j1 \<Rightarrow> answer_import cfg 202 j1, w2))))"

definition get_import :: "'i rcfg \<Rightarrow> 'i world \<Rightarrow> tenant \<Rightarrow> string \<Rightarrow> string \<Rightarrow> pyexc + response" where
  "get_import cfg w tn name i =
     (case get_import_job (w_jobs w) tn i of
        None \<Rightarrow> Inr (no_import i)
      | Some j \<Rightarrow> if snd (ij_key j) \<noteq> name then Inr (no_import i) else answer_import cfg 200 j)"

fun import_responses :: "'i rcfg \<Rightarrow> import_job list \<Rightarrow> pyexc + json list" where
  "import_responses cfg [] = Inr []"
| "import_responses cfg (j # js) =
     (case import_response cfg j of
        Inl e \<Rightarrow> Inl e
      | Inr b \<Rightarrow> (case import_responses cfg js of Inl e \<Rightarrow> Inl e | Inr bs \<Rightarrow> Inr (JObj b # bs)))"

definition list_imports :: "'i rcfg \<Rightarrow> 'i world \<Rightarrow> tenant \<Rightarrow> string \<Rightarrow> pyexc + response" where
  "list_imports cfg w tn name =
     (if get_dataset (w_cat w) (tn, name) = None then Inr (no_dataset name)
      else case import_responses cfg (list_import_jobs (w_jobs w) (tn, name)) of
          Inl e \<Rightarrow> Inl e
        | Inr bs \<Rightarrow> Inr (200, JObj [(''imports'', JList bs)]))"

end
