(* ===== verification/Registry_Correct.thy ===== *)
theory Registry_Correct
  imports Registry System
begin

text \<open>
  What the endpoints by id and the listing show, in terms of the recall cells above the watermark and
  the newest shard's sidecar; the effect of a write on it; the walk along the cursors.
\<close>

text \<open>The keys of a sidecar are the hashes of the ids it names.\<close>

definition sidecar_ok :: "benv \<Rightarrow> sidecar option \<Rightarrow> bool" where
  "sidecar_ok env sc =
     (case sc of None \<Rightarrow> True | Some d \<Rightarrow> dkeys_ok d \<and> list_all (\<lambda>(n, i, md). n = id64 env i) d)"

text \<open>The bound above which recall rows count: the newest shard's.\<close>

abbreviation shard_mark :: "'i world \<Rightarrow> key \<Rightarrow> int" where
  "shard_mark w k \<equiv> watermark_of_shard (get_latest_shard (w_cat w) k)"

section \<open>Reads of the recall tier\<close>

lemma recall_get_look:
  "recall_get_vector cfg s k i wm =
     (case rs_look env cfg s k i of
        None \<Rightarrow> (None, None)
      | Some c \<Rightarrow> if c_lsn c > wm then (if c_deleted c then (Some Tombstone, None) else (Some Live, Some (c_metadata c)))
                 else (None, None))"
  by (auto simp: recall_get_vector_def rs_look_def mem_get_vector_def pg_get_vector_def mem_row_above_def pg_row_above_def
      mem_look_def pg_look_def row_cell_def pg_cell_def split: option.splits)

lemma recall_get_embedding_look:
  assumes "rs_ok env cfg s"
  shows "recall_get_vector_with_embedding env cfg s k i wm =
     Inr (case rs_look env cfg s k i of
        None \<Rightarrow> (None, None, None)
      | Some c \<Rightarrow> if c_lsn c > wm
                 then (if c_deleted c then (Some Tombstone, None, None) else (Some Live, Some (c_metadata c), Some (c_values c)))
                 else (None, None, None))"
proof (cases "use_memory_backend cfg")
  case True
  then show ?thesis
    by (auto simp: recall_get_vector_with_embedding_def rs_look_def mem_get_vector_with_embedding_def mem_row_above_def
        mem_look_def row_cell_def split: option.splits)
next
  case False
  have "pg_readable env (e_text c)" if "dget (pg_vectors (rs_pg s)) (k, i) = Some c" for c
    using assms False that pg_okD(3)[of env "rs_pg s" k] unfolding rs_ok_def tab_ok_def by auto
  with False show ?thesis
    by (auto simp: recall_get_vector_with_embedding_def rs_look_def pg_get_vector_with_embedding_def pg_row_above_def
        pg_look_def pg_cell_def pg_readable_def pg_decode_def split: option.splits)
qed

text \<open>The rows of a listing: every cell above the watermark once.\<close>

lemma comp_filter: "concat (map (\<lambda>r. if P r then [f r] else []) xs) = map f (filter P xs)"
  by (induction xs) auto

lemma comp_filter_pair:
  "concat (map (\<lambda>(i, c). if P i c then [f i c] else []) xs) = map (\<lambda>(i, c). f i c) (filter (\<lambda>(i, c). P i c) xs)"
  by (induction xs) auto

lemma recall_list_look:
  assumes "rs_ok env cfg s" and "recall_list_rows cfg s k wm = (live, suppress)"
  shows "(i, m) \<in> set live \<longleftrightarrow>
      (\<exists>c. rs_look env cfg s k i = Some c \<and> c_lsn c > wm \<and> \<not> c_deleted c \<and> c_metadata c = m)"
    and "i \<in> suppress \<longleftrightarrow> (\<exists>c. rs_look env cfg s k i = Some c \<and> c_lsn c > wm)"
    and "distinct (map fst live)"
proof -
  have *: "((i, m) \<in> set live \<longleftrightarrow>
      (\<exists>c. rs_look env cfg s k i = Some c \<and> c_lsn c > wm \<and> \<not> c_deleted c \<and> c_metadata c = m)) \<and>
    (i \<in> suppress \<longleftrightarrow> (\<exists>c. rs_look env cfg s k i = Some c \<and> c_lsn c > wm)) \<and> distinct (map fst live)"
  proof (cases "use_memory_backend cfg")
    case True
    let ?sn = "snapshot_above (rs_mem s) k wm"
    have ok: "mem_ok (rs_mem s)" using assms(1) True by (simp add: rs_ok_def)
    have lv: "live = map (\<lambda>r. (s_id r, s_metadata r)) (filter (\<lambda>r. \<not> s_deleted r) ?sn)"
      and sp: "suppress = set (map s_id ?sn)"
      using assms(2) True by (auto simp: recall_list_rows_def mem_list_rows_def comp_filter Let_def)
    have look: "rs_look env cfg s = mem_look (rs_mem s)" using True by (simp add: rs_look_def)
    have mem: "(\<exists>x \<in> set ?sn. s_id x = i \<and> P (snap_cell x)) \<longleftrightarrow> (\<exists>c. mem_look (rs_mem s) k i = Some c \<and> c_lsn c > wm \<and> P c)" for P
    proof
      assume "\<exists>c. mem_look (rs_mem s) k i = Some c \<and> c_lsn c > wm \<and> P c"
      then obtain c where c: "mem_look (rs_mem s) k i = Some c" "c_lsn c > wm" "P c" by blast
      let ?x = "\<lparr>s_id = i, s_values = c_values c, s_metadata = c_metadata c, s_lsn = c_lsn c, s_deleted = c_deleted c\<rparr>"
      have "snap_cell ?x = c" by (simp add: snap_cell_def)
      with c show "\<exists>x \<in> set ?sn. s_id x = i \<and> P (snap_cell x)"
        using snapshot_above_in[OF ok, of ?x k wm] by (intro bexI[of _ ?x]) simp_all
    qed (auto simp: snapshot_above_in[OF ok] snap_cell_def)
    have "distinct (map fst live)"
      using distinct_snapshot_above[OF ok, of k wm] unfolding lv by (simp add: comp_def distinct_map_filter)
    then show ?thesis
      using mem[of "\<lambda>c. \<not> c_deleted c \<and> c_metadata c = m"] mem[of "\<lambda>c. True"]
      unfolding look lv sp by (auto simp: snap_cell_def)
  next
    case False
    let ?rows = "filter (\<lambda>(i, c). e_lsn c > wm) (pg_rows (rs_pg s) k)"
    have ok: "pg_ok env (rs_pg s)" using assms(1) False by (simp add: rs_ok_def)
    have lv: "live = map (\<lambda>(i, c). (i, e_metadata c)) (filter (\<lambda>(i, c). \<not> e_deleted c) ?rows)"
      and sp: "suppress = set (map fst ?rows)"
      using assms(2) False by (auto simp: recall_list_rows_def pg_list_rows_def comp_filter_pair Let_def)
    have rows: "(i, c) \<in> set (pg_rows (rs_pg s) k) \<longleftrightarrow> dget (pg_vectors (rs_pg s)) (k, i) = Some c" for i c
      using pg_okD(2)[OF ok] by (simp add: pg_rows_in dget_in)
    have "map fst live = map fst (filter (\<lambda>(i, c). \<not> e_deleted c) ?rows)" unfolding lv by auto
    then have "distinct (map fst live)"
      using distinct_pg_rows[OF pg_okD(2)[OF ok], of k] by (simp only: distinct_map_filter)
    moreover have look: "rs_look env cfg s k i = map_option (pg_cell env) (dget (pg_vectors (rs_pg s)) (k, i))"
      using False by (simp add: rs_look_def pg_look_def)
    ultimately show ?thesis
      unfolding look lv sp by (auto simp: rows pg_cell_def image_iff)
  qed
  then show "(i, m) \<in> set live \<longleftrightarrow>
      (\<exists>c. rs_look env cfg s k i = Some c \<and> c_lsn c > wm \<and> \<not> c_deleted c \<and> c_metadata c = m)"
    and "i \<in> suppress \<longleftrightarrow> (\<exists>c. rs_look env cfg s k i = Some c \<and> c_lsn c > wm)"
    and "distinct (map fst live)" by blast+
qed

section \<open>The endpoint by id\<close>

definition id_answer :: "'i rcfg \<Rightarrow> 'i world \<Rightarrow> key \<Rightarrow> vid \<Rightarrow> string option \<Rightarrow> response" where
  "id_answer cfg w k i iv =
     (case look_of (rc_env cfg) w k i of
        None \<Rightarrow> shard_vector cfg (newest_sidecar cfg w k) i
      | Some c \<Rightarrow>
          if c_lsn c \<le> shard_mark w k then shard_vector cfg (newest_sidecar cfg w k) i
          else if c_deleted c then no_vector i
          else vector_body i (c_metadata c) (if is_truthy_query_flag iv then Some (c_values c) else None))"

text \<open>The recall tier is on and answers, and the dataset is there.\<close>

definition serving :: "'i rcfg \<Rightarrow> 'i world \<Rightarrow> key \<Rightarrow> bool" where
  "serving cfg w k \<longleftrightarrow> get_dataset (w_cat w) k \<noteq> None \<and> recall_enabled (be_recall (rc_env cfg)) \<and> \<not> rc_fault cfg \<and>
     rs_ok (be_pg (rc_env cfg)) (be_recall (rc_env cfg)) (w_recall w) \<and>
     shard_mark w k \<le> rs_top (be_recall (rc_env cfg)) (w_recall w) k"

lemma get_endpoint:
  assumes "serving cfg w k"
  shows "get_vector_endpoint cfg w (fst k) (snd k) i iv = Inr (id_answer cfg w k i iv)"
  using assms recall_get_embedding_look[of "be_pg (rc_env cfg)" "be_recall (rc_env cfg)" "w_recall w" k i "shard_mark w k"]
    recall_get_look[of "be_recall (rc_env cfg)" "w_recall w" k i "shard_mark w k" "be_pg (rc_env cfg)"]
  unfolding serving_def get_vector_endpoint_def resolve_shard_sidecar_and_watermark_def id_answer_def look_of_def
  by (auto simp: Let_def meta_or_def split: option.splits)

section \<open>Writes\<close>

lemma cap_check_frame [simp]:
  "w_cat (cap_check cfg w k uid) = w_cat w" "w_recall (cap_check cfg w k uid) = w_recall w"
  "w_bucket (cap_check cfg w k uid) = w_bucket w"
  by (simp_all add: cap_check_def)

lemma newest_sidecar_cong:
  "w_cat w' = w_cat w \<Longrightarrow> w_bucket w' = w_bucket w \<Longrightarrow> newest_sidecar cfg w' k = newest_sidecar cfg w k"
  by (simp add: newest_sidecar_def cong: option.case_cong)

lemma id_answer_look:
  assumes "w_cat w' = w_cat w" and "w_bucket w' = w_bucket w" and "look_of (rc_env cfg) w' k i = look_of (rc_env cfg) w k i"
  shows "id_answer cfg w' k i iv = id_answer cfg w k i iv"
  unfolding id_answer_def newest_sidecar_cong[OF assms(1,2)] assms ..

lemma upsert_answer:
  assumes s: "serving cfg w k" and w': "w_cat w' = w_cat w" "w_bucket w' = w_bucket w"
    "w_recall w' = snd (recall_upsert_vectors (be_pg (rc_env cfg)) (be_recall (rc_env cfg)) (w_recall w) k now recs)"
  shows "serving cfg w' k" and "id_answer cfg w' k i iv =
    (case find_last (\<lambda>r. rec_id r = i) recs of
       None \<Rightarrow> id_answer cfg w k i iv
     | Some r \<Rightarrow> vector_body i (meta_or (rec_metadata r))
         (if is_truthy_query_flag iv then Some (rs_store (be_pg (rc_env cfg)) (be_recall (rc_env cfg)) (rec_values r)) else None))"
    and "k' \<noteq> k \<Longrightarrow> id_answer cfg w' k' i iv = id_answer cfg w k' i iv"
proof -
  have ok: "rs_ok (be_pg (rc_env cfg)) (be_recall (rc_env cfg)) (w_recall w)"
    and wm: "shard_mark w k \<le> rs_top (be_recall (rc_env cfg)) (w_recall w) k" using s by (simp_all add: serving_def)
  show "serving cfg w' k" using s by (simp add: serving_def w' rs.upsert_ok rs.upsert_top)
  show "id_answer cfg w' k i iv = (case find_last (\<lambda>r. rec_id r = i) recs of
       None \<Rightarrow> id_answer cfg w k i iv
     | Some r \<Rightarrow> vector_body i (meta_or (rec_metadata r))
         (if is_truthy_query_flag iv then Some (rs_store (be_pg (rc_env cfg)) (be_recall (rc_env cfg)) (rec_values r)) else None))"
  proof (cases "find_last (\<lambda>r. rec_id r = i) recs")
    case None
    then have "look_of (rc_env cfg) w' k i = look_of (rc_env cfg) w k i"
      using rs.upsert_miss[OF ok, of i recs k now] by (auto simp: look_of_def w' find_last_None)
    with None show ?thesis using id_answer_look[OF w'(1,2)] by simp
  next
    case (Some r)
    obtain l where "rs_top (be_recall (rc_env cfg)) (w_recall w) k < l" and "look_of (rc_env cfg) w' k i =
        Some \<lparr>c_values = rs_store (be_pg (rc_env cfg)) (be_recall (rc_env cfg)) (rec_values r),
          c_metadata = meta_or (rec_metadata r), c_lsn = l, c_deleted = False\<rparr>"
      using rs.upsert_hit[OF ok Some, of k now] by (auto simp: look_of_def w')
    with Some wm show ?thesis by (simp add: id_answer_def w')
  qed
  show "id_answer cfg w' k' i iv = id_answer cfg w k' i iv" if "k' \<noteq> k"
    using rs.upsert_frame[OF that] by (intro id_answer_look w') (simp add: w' look_of_def)
qed

lemma delete_answer:
  assumes s: "serving cfg w k" and w': "w_cat w' = w_cat w" "w_bucket w' = w_bucket w"
    "w_recall w' = snd (recall_delete_vector (be_pg (rc_env cfg)) (be_recall (rc_env cfg)) (w_recall w) k now i dm)"
  shows "serving cfg w' k" and "id_answer cfg w' k j iv = (if j = i then no_vector i else id_answer cfg w k j iv)"
    and "k' \<noteq> k \<Longrightarrow> id_answer cfg w' k' j iv = id_answer cfg w k' j iv"
proof -
  have ok: "rs_ok (be_pg (rc_env cfg)) (be_recall (rc_env cfg)) (w_recall w)"
    and wm: "shard_mark w k \<le> rs_top (be_recall (rc_env cfg)) (w_recall w) k" using s by (simp_all add: serving_def)
  show "serving cfg w' k" using s by (simp add: serving_def w' rs.delete_ok rs.delete_top)
  show "id_answer cfg w' k j iv = (if j = i then no_vector i else id_answer cfg w k j iv)"
  proof (cases "j = i")
    case True
    with rs.delete_hit[OF ok, of k now i dm] wm show ?thesis by (auto simp: id_answer_def w' look_of_def)
  next
    case False
    with rs.delete_miss[OF ok False, of k now dm] show ?thesis using id_answer_look[OF w'(1,2)] by (simp add: w' look_of_def)
  qed
  show "id_answer cfg w' k' j iv = id_answer cfg w k' j iv" if "k' \<noteq> k"
    using rs.delete_frame[OF that] by (intro id_answer_look w') (simp add: w' look_of_def)
qed

section \<open>The listing\<close>

lemma listed_ids:
  assumes s: "serving cfg w k" and sc: "sidecar_ok (rc_env cfg) (newest_sidecar cfg w k)"
  shows "(i, m) \<in> set (listed_records cfg w k []) \<longleftrightarrow> id_answer cfg w k i None = vector_body i m None"
    and "distinct (map fst (listed_records cfg w k []))"
proof -
  let ?sc = "case newest_sidecar cfg w k of None \<Rightarrow> [] | Some d \<Rightarrow> d"
  obtain live suppress where rows: "recall_list_rows (be_recall (rc_env cfg)) (w_recall w) k (shard_mark w k) = (live, suppress)"
    by fastforce
  have ok: "rs_ok (be_pg (rc_env cfg)) (be_recall (rc_env cfg)) (w_recall w)" using s by (simp add: serving_def)
  note lv = recall_list_look[OF ok rows]
  have ls: "listed_records cfg w k [] = sort_key fst (filter (\<lambda>(i, m). i \<notin> suppress) (map snd ?sc) @ live)"
    using s rows by (simp add: listed_records_def serving_def resolve_shard_sidecar_and_watermark_def)
  have d: "dkeys_ok ?sc" "list_all (\<lambda>(n, i, md). n = id64 (rc_env cfg) i) ?sc"
    using sc by (auto simp: sidecar_ok_def split: option.splits)
  have cold: "(i, m) \<in> snd ` set ?sc \<longleftrightarrow> shard_vector cfg (newest_sidecar cfg w k) i = vector_body i m None"
  proof -
    have "(i, m) \<in> snd ` set ?sc \<longleftrightarrow> dget ?sc (id64 (rc_env cfg) i) = Some (i, m)"
      using d by (force simp: dget_in[symmetric] list_all_iff)
    then show ?thesis
      by (auto simp: shard_vector_def vector_body_def no_vector_def err_def error_envelope_def split: option.splits)
  qed
  show "(i, m) \<in> set (listed_records cfg w k []) \<longleftrightarrow> id_answer cfg w k i None = vector_body i m None"
    using cold lv(1,2)
    by (auto simp: ls id_answer_def look_of_def is_truthy_query_flag_def vector_body_def no_vector_def err_def error_envelope_def
        split: option.splits)
  have "distinct (map fst (map snd ?sc))"
  proof -
    have "map fst ?sc = map (id64 (rc_env cfg)) (map fst (map snd ?sc))" using d(2) by (auto simp: list_all_iff)
    then have "distinct (map (id64 (rc_env cfg)) (map fst (map snd ?sc)))" using d(1) by (simp only: dkeys_ok_def)
    then show ?thesis using distinct_map by blast
  qed
  then have "distinct (map fst (filter (\<lambda>(i, m). i \<notin> suppress) (map snd ?sc)))" by (simp only: distinct_map_filter)
  then show "distinct (map fst (listed_records cfg w k []))"
    unfolding ls using lv by (auto simp: image_iff)
qed

lemma listed_filter: "listed_records cfg w k f = filter (\<lambda>(i, m). metadata_matches_filter m f) (listed_records cfg w k [])"
proof (cases "f = []")
  case True
  then show ?thesis by (auto simp: filter_id_conv)
next
  case False
  then show ?thesis unfolding listed_records_def Let_def by (simp add: filter_sort split: prod.split)
qed

section \<open>Cursors\<close>

lemma b64_bytes_ascii: "c \<in> set (b64_bytes bs) \<Longrightarrow> list_all (\<lambda>b. b < 256) bs \<Longrightarrow> (of_char c :: nat) < 128"
proof (induction bs rule: b64_bytes.induct)
  have char: "(of_char (b64_char n) :: nat) < 128" if "n < 64" for n
  proof -
    have "b64_char n \<in> set b64_alphabet" using that by (simp add: b64_char_def length_alphabet)
    moreover have "list_all (\<lambda>c. (of_char c :: nat) < 128) b64_alphabet" by (simp add: b64_alphabet_def)
    ultimately show ?thesis by (simp add: list_all_iff)
  qed
  note div = less_mult_imp_div_less[of _ 64 4] less_mult_imp_div_less[of _ 16 16] less_mult_imp_div_less[of _ 4 64]
  {
    case (1 a b d rest)
    have "a div 4 < 64" "a mod 4 * 16 + b div 16 < 64" "b mod 16 * 4 + d div 64 < 64" "d mod 64 < 64"
      using 1(3) div(1)[of a] div(2)[of b] div(3)[of d] mod_less_divisor[of 4 a] mod_less_divisor[of 16 b] by simp_all
    then show ?case using 1 char by auto
  next
    case (2 a b)
    have "a div 4 < 64" "a mod 4 * 16 + b div 16 < 64" "b mod 16 * 4 < 64"
      using 2(2) div(1)[of a] div(2)[of b] mod_less_divisor[of 4 a] mod_less_divisor[of 16 b] by simp_all
    then show ?case using 2 char by auto
  next
    case (3 a)
    have "a div 4 < 64" "a mod 4 * 16 < 64" using 3(2) div(1)[of a] mod_less_divisor[of 4 a] by simp_all
    then show ?case using 3 char by auto
  }
qed simp

text \<open>\<open>json.loads\<close> reads the text of a cursor back.\<close>

definition reads_cursor :: "'i venv \<Rightarrow> int \<Rightarrow> bool" where
  "reads_cursor ve n \<longleftrightarrow> ve_text ve (OtherB (cursor_text n)) = Some (cursor_text n) \<and>
     ve_loads ve (cursor_text n) = Inr (JObj [(''o'', JInt n)])"

lemma cursor_roundtrip:
  assumes "reads_cursor ve n" and "0 \<le> n"
  shows "decode_cursor ve (encode_cursor n) = Some n"
proof -
  have "list_all (\<lambda>b. b < 256) (map of_char (cursor_text n) :: nat list)" by (simp add: list_all_iff)
  from b64_bytes_ascii[OF _ this] have "\<not> list_ex (\<lambda>c. (of_char c :: nat) \<ge> 128) (encode_cursor n)"
    by (auto simp: encode_cursor_def urlsafe_b64encode_def list_ex_iff simp flip: not_less)
  with assms show ?thesis
    by (simp add: decode_cursor_def encode_cursor_def urlsafe_b64_roundtrip reads_cursor_def)
qed

section \<open>The walk along the cursors\<close>

definition item :: "vid \<times> meta \<Rightarrow> json" where
  "item = (\<lambda>(i, m). JObj [(''id'', JStr i), (''metadata'', JObj m)])"

text \<open>A client that follows \<open>next_cursor\<close> for at most \<open>n\<close> requests; None when it is not done by then.\<close>

fun follow :: "'i rcfg \<Rightarrow> 'i world \<Rightarrow> key \<Rightarrow> string option \<Rightarrow> string option \<Rightarrow> nat \<Rightarrow> string option \<Rightarrow> json list option" where
  "follow cfg w k limit flt 0 cursor = None"
| "follow cfg w k limit flt (Suc n) cursor =
     (case list_vectors_endpoint cfg w (fst k) (snd k) limit cursor flt of
        Inr (_, JObj fs) \<Rightarrow>
         (case (dget fs ''vectors'', dget fs ''next_cursor'') of
            (Some (JList vs), Some JNull) \<Rightarrow> Some vs
          | (Some (JList vs), Some (JStr c)) \<Rightarrow> map_option ((@) vs) (follow cfg w k limit flt n (Some c))
          | _ \<Rightarrow> None)
      | _ \<Rightarrow> None)"

definition starts_at :: "'i venv \<Rightarrow> string option \<Rightarrow> int option" where
  "starts_at ve cursor = (case cursor of None \<Rightarrow> Some 0 | Some c \<Rightarrow> decode_cursor ve c)"

lemma list_page:
  assumes "serving cfg w k" and "parse_limit limit = Some page" and "parse_filter (rc_v cfg) flt = Inr (Some f)"
    and "starts_at (rc_v cfg) cursor = Some offset"
  shows "list_vectors_endpoint cfg w (fst k) (snd k) limit cursor flt =
    (let records = listed_records cfg w k f
     in Inr (200, JObj [(''vectors'', JList (map item (py_slice offset (offset + page) records))),
          (''next_cursor'', if offset + page < int (length records) then JStr (encode_cursor (offset + page)) else JNull)]))"
  using assms unfolding list_vectors_endpoint_def serving_def starts_at_def item_def by (auto simp: Let_def)

lemma parse_limit_pos: "parse_limit v = Some page \<Longrightarrow> 1 \<le> page \<and> page \<le> VECTORS_LIST_MAX_LIMIT"
  by (auto simp: parse_limit_def VECTORS_LIST_MAX_LIMIT_def split: option.splits if_splits)

lemma follow_all:
  assumes s: "serving cfg w k" and l: "parse_limit limit = Some page" and f: "parse_filter (rc_v cfg) flt = Inr (Some f)"
    and c: "\<And>n. 0 < n \<Longrightarrow> n < int (length (listed_records cfg w k f)) \<Longrightarrow> reads_cursor (rc_v cfg) n"
    and "starts_at (rc_v cfg) cursor = Some offset" and "0 \<le> offset"
    and "int (length (listed_records cfg w k f)) \<le> offset + int n * page" and "0 < n"
  shows "follow cfg w k limit flt n cursor = Some (map item (drop (nat offset) (listed_records cfg w k f)))"
  using assms(5-)
proof (induction n arbitrary: cursor offset)
  case (Suc n)
  let ?rs = "listed_records cfg w k f"
  have p: "1 \<le> page" using parse_limit_pos[OF l] by simp
  note page = list_page[OF s l f Suc(2), unfolded Let_def]
  show ?case
  proof (cases "offset + page < int (length ?rs)")
    case False
    then have "take (nat page) (drop (nat offset) ?rs) = drop (nat offset) ?rs" using p Suc(3) by simp
    with False show ?thesis by (simp add: page py_slice_def)
  next
    case True
    have "0 < n" using True Suc(4) by (cases n) simp_all
    have "starts_at (rc_v cfg) (Some (encode_cursor (offset + page))) = Some (offset + page)"
      using c[of "offset + page"] True p Suc(3) by (simp add: starts_at_def cursor_roundtrip)
    moreover have "int (length ?rs) \<le> offset + page + int n * page" using Suc(4) by (simp add: algebra_simps)
    ultimately have "follow cfg w k limit flt n (Some (encode_cursor (offset + page))) =
        Some (map item (drop (nat (offset + page)) ?rs))"
      using Suc(1)[of "Some (encode_cursor (offset + page))" "offset + page"] Suc(3) p \<open>0 < n\<close> by simp
    moreover have "drop (nat offset) ?rs = take (nat page) (drop (nat offset) ?rs) @ drop (nat (offset + page)) ?rs"
      using Suc(3) p append_take_drop_id[of "nat page" "drop (nat offset) ?rs"] by (simp add: nat_add_distrib add.commute)
    ultimately show ?thesis using True by (simp add: page py_slice_def flip: map_append)
  qed
qed simp

end
