(* ===== verification/Import_Jobs.thy ===== *)
theory Import_Jobs
  imports Registry Import_Correct
begin

text \<open>
  The import jobs as a typed state machine. Four kinds of steps touch them: the two requests that
  create and complete an upload, the validator's VALIDATE_DATASET message and the builder's
  DATASET_READY message. \<open>job_typed\<close> is what the clients and the services read off a job row;
  \<open>jobs_kept\<close> is the relation every step satisfies.
\<close>

section \<open>Well-formed jobs\<close>

definition job_typed :: "import_job \<Rightarrow> bool" where
  "job_typed j \<longleftrightarrow>
     ij_status j \<in> {''awaiting_upload'', ''validating'', ''indexing'', ''completed'', ''failed''} \<and>
     ij_format j \<in> {''ndjson'', ''parquet''} \<and> ij_error_mode j \<in> {''continue'', ''abort''} \<and>
     0 \<le> ij_accepted j \<and> 0 \<le> ij_rejected j \<and> ij_processed j = ij_accepted j + ij_rejected j \<and>
     (ij_error_mode j = ''abort'' \<longrightarrow> ij_rejected j = 0) \<and>
     (case ij_max_bad j of None \<Rightarrow> True | Some m \<Rightarrow> 0 \<le> m \<and> ij_rejected j \<le> m) \<and>
     (0 < ij_rejected j \<longrightarrow> ij_rejected_uri j \<noteq> None) \<and>
     (ij_status j \<in> {''completed'', ''failed''} \<longrightarrow> ij_completed j \<noteq> None) \<and>
     (ij_status j = ''failed'' \<longrightarrow> ij_error j \<noteq> None)"

text \<open>What is fixed when a job is created.\<close>

definition job_head :: "import_job \<Rightarrow> string \<times> key \<times> string \<times> string \<times> int option \<times> uri \<times> time" where
  "job_head j = (ij_id j, ij_key j, ij_format j, ij_error_mode j, ij_max_bad j, ij_upload j, ij_created j)"

definition jobs_kept :: "import_job list \<Rightarrow> import_job list \<Rightarrow> bool" where
  "jobs_kept js js' \<longleftrightarrow> length js \<le> length js' \<and> (list_all job_typed js \<longrightarrow>
     list_all job_typed js' \<and> take (length js) (map job_head js') = map job_head js)"

lemma jobs_kept_refl [simp, intro]: "jobs_kept js js"
  by (simp add: jobs_kept_def)

lemma jobs_kept_trans:
  assumes "jobs_kept a b" and "jobs_kept b c"
  shows "jobs_kept a c"
  unfolding jobs_kept_def
proof (intro conjI impI)
  show "length a \<le> length c" using assms by (simp add: jobs_kept_def)
  assume a: "list_all job_typed a"
  then have b: "list_all job_typed b" "take (length a) (map job_head b) = map job_head a" "length a \<le> length b"
    using assms(1) by (simp_all add: jobs_kept_def)
  then have c: "list_all job_typed c" "take (length b) (map job_head c) = map job_head b"
    using assms(2) by (simp_all add: jobs_kept_def)
  have "take (length a) (map job_head c) = take (length a) (take (length b) (map job_head c))"
    using b(3) by (simp add: min_absorb1)
  with b c show "take (length a) (map job_head c) = map job_head a" by simp
  show "list_all job_typed c" by (rule c)
qed

lemma update_head: "map job_head (update_import_job js i p) = map job_head js"
  by (induction js) (simp_all add: job_head_def apply_patch_def)

lemma update_length [simp]: "length (update_import_job js i p) = length js"
  by (induction js) simp_all

text \<open>One job is patched; it is enough that the patch keeps that job typed.\<close>

lemma update_kept:
  assumes "\<And>j. get_import_job_by_id js i = Some j \<Longrightarrow> job_typed j \<Longrightarrow> job_typed (apply_patch p j)"
  shows "jobs_kept js (update_import_job js i p)"
proof -
  have "list_all job_typed js \<Longrightarrow> list_all job_typed (update_import_job js i p)"
    using assms by (induction js) (auto simp: get_import_job_by_id_def split: if_splits)
  moreover have "take (length js) (map job_head (update_import_job js i p)) = map job_head js"
    by (simp add: update_head take_all)
  ultimately show ?thesis by (simp add: jobs_kept_def)
qed

section \<open>The patches\<close>

lemma typed_failed: "job_typed j \<Longrightarrow> job_typed (apply_patch (failed_patch m now) j)"
  by (cases "ij_max_bad j") (simp_all add: job_typed_def apply_patch_def failed_patch_def no_patch_def)

lemma typed_completed:
  "job_typed j \<Longrightarrow> job_typed (apply_patch (no_patch\<lparr>ip_status := Some ''completed'', ip_completed := Some now\<rparr>) j)"
  by (cases "ij_max_bad j") (simp_all add: job_typed_def apply_patch_def no_patch_def)

lemma typed_validating: "job_typed j \<Longrightarrow> job_typed (apply_patch (no_patch\<lparr>ip_status := Some ''validating''\<rparr>) j)"
  by (cases "ij_max_bad j") (simp_all add: job_typed_def apply_patch_def no_patch_def)

text \<open>The counters an upload ends with respect the error mode and the limit.\<close>

definition scan_typed :: "string \<Rightarrow> int option \<Rightarrow> scan \<Rightarrow> bool" where
  "scan_typed mode mb s \<longleftrightarrow> sc_processed s = length (sc_good s) + length (sc_rejected s) \<and> tolerated mode mb (sc_rejected s)"

lemma scan_typed_lines:
  "scan_lines ve mode mb dm n ls s = Inr s' \<Longrightarrow> scan_typed mode mb s \<Longrightarrow> scan_typed mode mb s'"
proof (induction ve mode mb dm n ls s rule: scan_lines.induct)
  case (2 ve mode mb dm n l ls s)
  show ?case
    using 2 by (auto simp: Let_def scan_typed_def tolerated_def split: if_splits sum.splits option.splits)
qed simp

definition upload_typed :: "import_job \<Rightarrow> upload \<Rightarrow> bool" where
  "upload_typed j up \<longleftrightarrow> processed_count up = accepted_count up + length (rejects_of up) \<and>
     tolerated (ij_error_mode j) (ij_max_bad j) (rejects_of up)"

lemma read_upload_typed: "case read_upload ve b j dm of Refused _ _ \<Rightarrow> True | up \<Rightarrow> upload_typed j up"
proof (cases "ij_format j = ''parquet''")
  case True
  then show ?thesis by (simp add: read_upload_def upload_typed_def tolerated_def split: sum.split option.split)
next
  case False
  have start: "scan_typed (ij_error_mode j) (ij_max_bad j) \<lparr>sc_processed = 0, sc_good = [], sc_rejected = []\<rparr>"
    by (simp add: scan_typed_def tolerated_def split: option.split)
  have lines: "upload_typed j (Lines s)" if "scan_typed (ij_error_mode j) (ij_max_bad j) s" for s
    using that by (simp add: upload_typed_def scan_typed_def)
  show ?thesis
    using False lines[OF scan_typed_lines[OF _ start]] unfolding read_upload_def
    by (simp split: sum.split option.split prod.split) blast
qed

lemma typed_indexing:
  assumes "job_typed j" and "upload_typed j up" and "rejects_of up \<noteq> [] \<longrightarrow> u \<noteq> None"
  shows "job_typed (apply_patch (no_patch\<lparr>ip_status := Some ''indexing'',
    ip_counts := Some (int (processed_count up), int (accepted_count up), int (length (rejects_of up))), ip_rejected_uri := u\<rparr>) j)"
  using assms by (cases "ij_max_bad j"; cases "rejects_of up"; cases u)
    (simp_all add: job_typed_def upload_typed_def tolerated_def apply_patch_def no_patch_def)

section \<open>The validator's message\<close>

lemma fail_job_kept: "jobs_kept (w_jobs w) (w_jobs (fail_job env w job m now))"
  by (simp add: fail_job_def Let_def update_kept typed_failed)

lemma with_rejects_jobs: "with_rejects ve w prefix rs = (r, w') \<Longrightarrow>
    w_jobs w' = w_jobs w \<and> (\<forall>u. r = Inr u \<longrightarrow> rs \<noteq> [] \<longrightarrow> u \<noteq> None)"
  by (auto simp: with_rejects_def split: if_splits sum.splits prod.splits)

lemma import_failed_kept:
  assumes "import_failed ve w job m rs now = (r, w')"
  shows "jobs_kept (w_jobs w) (w_jobs w')"
proof -
  obtain wr w1 where wr: "with_rejects ve w (import_landing_prefix (ve_env ve) (ij_key job) (ij_id job)) rs = (wr, w1)" by fastforce
  then have "w_jobs w1 = w_jobs w" using with_rejects_jobs by blast
  then show ?thesis
    using assms wr fail_job_kept[of w1 "ve_env ve" job m now] by (cases wr) (auto simp: import_failed_def)
qed

lemma land_upload_kept:
  assumes "land_upload ve (w, a) job dm up now uid = (r, w', a')" and "upload_typed job up"
    and "get_import_job_by_id (w_jobs w) (ij_id job) = Some job"
  shows "jobs_kept (w_jobs w) (w_jobs w')"
proof -
  obtain cr a1 where ch: "charge_vectors ve a (fst (ij_key job)) (accepted_count up) = (cr, a1)" by fastforce
  obtain wr w1 where wr: "with_rejects ve w (import_landing_prefix (ve_env ve) (ij_key job) (ij_id job)) (rejects_of up) = (wr, w1)"
    by fastforce
  note jobs = with_rejects_jobs[OF wr]
  have patch: "jobs_kept (w_jobs w1) (update_import_job (w_jobs w1) (ij_id job) (no_patch\<lparr>ip_status := Some ''indexing'',
      ip_counts := Some (int (processed_count up), int (accepted_count up), int (length (rejects_of up))), ip_rejected_uri := u\<rparr>))"
    if "wr = Inr u" for u
  proof (rule update_kept)
    fix j
    assume j: "get_import_job_by_id (w_jobs w1) (ij_id job) = Some j" "job_typed j"
    have "upload_typed j up" using assms(2,3) j(1) jobs by simp
    then show "job_typed (apply_patch (no_patch\<lparr>ip_status := Some ''indexing'',
      ip_counts := Some (int (processed_count up), int (accepted_count up), int (length (rejects_of up))), ip_rejected_uri := u\<rparr>) j)"
      using typed_indexing[OF j(2), of up u] jobs that by blast
  qed
  show ?thesis
  proof (cases cr)
    case (Inl e)
    then show ?thesis using assms(1) ch by (simp add: land_upload_def Let_def)
  next
    case (Inr lim)
    note cr = this
    show ?thesis
    proof (cases lim)
      case (Some m)
      then show ?thesis using assms(1) ch cr import_failed_kept by (fastforce simp: land_upload_def Let_def split: prod.splits)
    next
      case None
      show ?thesis
      proof (cases wr)
        case (Inl e)
        then show ?thesis using assms(1) ch cr None wr jobs by (simp add: land_upload_def Let_def)
      next
        case (Inr u)
        show ?thesis
        proof (cases "if accepted_count up > 0
            then write_landing ve (w_bucket w1) (import_landing_prefix (ve_env ve) (ij_key job) (ij_id job) @ ''/landing'') up uid
            else Inr (w_bucket w1)")
          case (Inl e)
          note run = assms(1)[unfolded land_upload_def Let_def prod.case ch cr sum.case None option.case wr \<open>wr = Inr u\<close> Inl]
          have "jobs_kept (w_jobs w1) (w_jobs w')" using run fail_job_kept by auto
          then show ?thesis using jobs by simp
        next
          case (Inr b)
          note run = assms(1)[unfolded land_upload_def Let_def prod.case ch cr sum.case None option.case wr \<open>wr = Inr u\<close> Inr]
          have "w_jobs w' = update_import_job (w_jobs w1) (ij_id job) (no_patch\<lparr>ip_status := Some ''indexing'',
              ip_counts := Some (int (processed_count up), int (accepted_count up), int (length (rejects_of up))), ip_rejected_uri := u\<rparr>)"
            using run by auto
          then show ?thesis using patch[OF \<open>wr = Inr u\<close>] jobs by simp
        qed
      qed
    qed
  qed
qed

lemma process_import_kept:
  assumes "process_import ve (w, a) i now uid = (r, w', a')"
  shows "jobs_kept (w_jobs w) (w_jobs w')"
proof (cases "get_import_job_by_id (w_jobs w) i")
  case None
  then show ?thesis using assms by (simp add: process_import_def)
next
  case (Some job)
  note j = this
  let ?w1 = "set_status w (ij_key job) ''validating'' None None now"
  let ?dm = "dataset_dimension (w_cat ?w1) (ij_key job) (ve_dim ve)"
  have found: "get_import_job_by_id (w_jobs ?w1) (ij_id job) = Some job" using j job_id[OF j] by simp
  show ?thesis
  proof (cases "object_size ve (w_bucket w) (ij_upload job)")
    case (Inl e)
    then show ?thesis using assms j by (simp add: process_import_def)
  next
    case (Inr sz)
    note run = assms[unfolded process_import_def Let_def prod.case j option.case Inr sum.case]
    show ?thesis
    proof (cases "sz \<noteq> None \<and> the sz > ve_max_bytes ve")
      case True
      then show ?thesis using run fail_job_kept by auto
    next
      case False
      note run1 = run[unfolded if_not_P[OF False]]
      note ty = read_upload_typed[where ve = ve and b = "w_bucket ?w1" and j = job and dm = ?dm]
      show ?thesis
      proof (cases "read_upload ve (w_bucket ?w1) job ?dm")
        case (Refused m rs)
        obtain r2 w2 where f: "import_failed ve ?w1 job m rs now = (r2, w2)" by fastforce
        then have "w' = w2" using run1 Refused by simp
        with import_failed_kept[OF f] show ?thesis by simp
      next
        case (Columns rows)
        then show ?thesis using land_upload_kept[OF _ _ found] run1 ty by fastforce
      next
        case (Lines s)
        then show ?thesis using land_upload_kept[OF _ _ found] run1 ty by fastforce
      qed
    qed
  qed
qed

lemma fail_import_kept: "jobs_kept (w_jobs w) (w_jobs (fail_import w i m now))"
  by (auto simp: fail_import_def split: option.split intro!: update_kept typed_failed)

lemma finalize_import_kept: "jobs_kept (w_jobs w) (w_jobs (finalize_import w i now))"
  by (auto simp: finalize_import_def split: option.split intro!: update_kept typed_completed)

lemma process_uri_jobs: "process_uri ve w k u ft now uids = (r, w') \<Longrightarrow> w_jobs w' = w_jobs w"
  by (auto simp: process_uri_def Let_def split: sum.splits if_splits)

lemma publish_ready_jobs [simp]: "w_jobs (publish_ready env w k n extra i) = w_jobs w"
  by (simp add: publish_ready_def)

lemma handle_validate_kept:
  assumes "handle_validate ve (w, a) p now uids pub_id = (ok, w', a')"
  shows "jobs_kept (w_jobs w) (w_jobs w')"
proof (cases "\<exists>d. dget p ''dataset'' = Some (JStr d)")
  case False
  then show ?thesis using assms by (auto simp: handle_validate_def Let_def split: option.splits json.splits)
next
  case True
  then obtain d where d: "dget p ''dataset'' = Some (JStr d)" by blast
  let ?i = "str_field p ''import_id''"
  show ?thesis
  proof (cases "?i = []")
    case True
    obtain r w1 where u: "process_uri ve w (case dget p ''tenant'' of Some (JStr t) \<Rightarrow> t | _ \<Rightarrow> ''default'', d) (str_field p ''uri'')
        (str_field p ''file_type'') now uids = (r, w1)" by fastforce
    have "w_jobs w' = w_jobs w1" using assms d True u by (cases r) (auto simp: handle_validate_def Let_def)
    then show ?thesis using process_uri_jobs[OF u] by simp
  next
    case False
    obtain r w1 a1 where pi: "process_import ve (w, a) ?i now (snd uids) = (r, w1, a1)" by (cases "process_import ve (w, a) ?i now (snd uids)")
    note kept = process_import_kept[OF pi]
    have "jobs_kept (w_jobs w1) (w_jobs w')"
      using assms d False pi fail_import_kept[of w1 ?i]
      by (cases r) (auto simp: handle_validate_def Let_def split: option.splits if_splits)
    with kept show ?thesis by (rule jobs_kept_trans)
  qed
qed

section \<open>The builder's message\<close>

lemma sweep_landing_jobs [simp]: "w_jobs (sweep_indexed_landing env w k) = w_jobs w"
  by (simp add: sweep_indexed_landing_def Let_def)

lemma mark_type_jobs [simp]: "w_jobs (mark_type w t) = w_jobs w"
  by (simp add: mark_type_def)

lemma build_error_jobs [simp]: "w_jobs (build_error w k what e now) = w_jobs w"
  by (simp add: build_error_def)

lemma write_shard_jobs: "write_shard env w k ix sc n ty x now fr = (r, w') \<Longrightarrow> w_jobs w' = w_jobs w"
  by (auto simp: write_shard_def Let_def split: sum.splits prod.splits if_splits)

lemma run_once_jobs: "run_once env fx acquired w k now fr = (r, w') \<Longrightarrow> w_jobs w' = w_jobs w"
  by (auto simp: run_once_def run_once_locked_def mark_build_def Let_def split: if_splits sum.splits prod.splits dest!: write_shard_jobs)

lemma dataset_ready_kept:
  assumes "handle_dataset_ready env fx acquired w p now fr = (r, w')"
  shows "jobs_kept (w_jobs w) (w_jobs w')"
proof (cases "\<exists>d. dget p ''dataset'' = Some (JStr d)")
  case False
  then show ?thesis using assms by (auto simp: handle_dataset_ready_def Let_def split: option.splits json.splits)
next
  case True
  then obtain d where d: "dget p ''dataset'' = Some (JStr d)" by blast
  obtain n w1 where run: "run_once env fx acquired w (case dget p ''tenant'' of Some (JStr t) \<Rightarrow> t | _ \<Rightarrow> ''default'', d) now fr = (n, w1)"
    by fastforce
  have "jobs_kept (w_jobs w1) (w_jobs w')"
    using assms d run fail_import_kept[of w1 "str_field p ''import_id''" "''index build failed''" now]
      finalize_import_kept[of w1 "str_field p ''import_id''" now]
    by (auto simp: handle_dataset_ready_def Let_def split: if_splits)
  then show ?thesis using run_once_jobs[OF run] by simp
qed

section \<open>The requests\<close>

lemma import_request_ok:
  "import_request body = Inr (fmt, mode, mb) \<Longrightarrow> fmt \<in> {''ndjson'', ''parquet''} \<and> mode \<in> {''continue'', ''abort''} \<and>
     (case mb of None \<Rightarrow> True | Some m \<Rightarrow> 0 \<le> m)"
  by (auto simp: import_request_def split: option.splits json.splits if_splits)

lemma create_import_kept:
  assumes "create_import cfg (w, a) tn name body today now uid = (r, w', a')"
  shows "jobs_kept (w_jobs w) (w_jobs w')"
proof -
  have "w_jobs w' = w_jobs w \<or> (\<exists>i k fmt mode mb u. import_request body = Inr (fmt, mode, mb) \<and>
      w_jobs w' = w_jobs w @ [new_import_job i k fmt mode mb u now])"
    using assms unfolding create_import_def create_import_job_def Let_def
    by (fastforce split: if_splits sum.splits prod.splits)
  moreover have "job_typed (new_import_job i k fmt mode mb u now)" if "import_request body = Inr (fmt, mode, mb)" for i k fmt mode mb u
    using import_request_ok[OF that] by (cases mb) (auto simp: job_typed_def new_import_job_def)
  ultimately show ?thesis by (auto simp: jobs_kept_def)
qed

lemma complete_import_kept:
  assumes "complete_import cfg w tn name i uid = (r, w')"
  shows "jobs_kept (w_jobs w) (w_jobs w')"
proof -
  have "w_jobs w' = w_jobs w \<or> w_jobs w' = update_import_job (w_jobs w) i (no_patch\<lparr>ip_status := Some ''validating''\<rparr>)"
    using assms unfolding complete_import_def Let_def by (auto split: if_splits sum.splits option.splits bool.splits)
  then show ?thesis using update_kept[of "w_jobs w" i] typed_validating by auto
qed

section \<open>Runs\<close>

inductive import_step :: "'i rcfg \<Rightarrow> 'i faiss \<Rightarrow> 'i site \<Rightarrow> 'i site \<Rightarrow> bool" for cfg :: "'i rcfg" and fx :: "'i faiss" where
  step_create: "create_import cfg (w, a) tn name body today now uid = (r, w', a') \<Longrightarrow> import_step cfg fx (w, a) (w', a')"
| step_complete: "complete_import cfg w tn name i uid = (ans, w') \<Longrightarrow> import_step cfg fx (w, a) (w', a)"
| step_validate: "handle_validate (rc_v cfg) (w, a) p now uids pub_id = (ok, w', a') \<Longrightarrow> import_step cfg fx (w, a) (w', a')"
| step_ready: "handle_dataset_ready (rc_env cfg) fx acquired w p now fr = (rr, w') \<Longrightarrow> import_step cfg fx (w, a) (w', a)"

lemma import_step_kept: "import_step cfg fx s s' \<Longrightarrow> jobs_kept (w_jobs (fst s)) (w_jobs (fst s'))"
  by (induction rule: import_step.induct)
     (auto dest: create_import_kept complete_import_kept handle_validate_kept dataset_ready_kept)

lemma import_run_kept: "(import_step cfg fx)\<^sup>*\<^sup>* s s' \<Longrightarrow> jobs_kept (w_jobs (fst s)) (w_jobs (fst s'))"
  by (induction rule: rtranclp_induct) (auto intro: jobs_kept_trans import_step_kept)

end
