(* ===== verification/Registry_Properties.thy ===== *)
theory Registry_Properties
  imports Registry_Correct Import_Jobs Build_Properties
begin

text \<open>
  Properties of the \<open>/v1/datasets\<close> surface: what a client reads after its writes, what the listing
  walks through, and what a refused batch leaves behind. The demo configuration serves the witnesses.
\<close>

section \<open>A demo configuration\<close>

definition demo_accepted :: "string \<Rightarrow> rat \<Rightarrow> json" where
  "demo_accepted i x = JObj [(''id'', JStr i), (''values'', JList [JFloat (Fin x)]), (''metadata'', JObj [])]"

definition api_loads :: "string \<Rightarrow> pyexc + json" where
  "api_loads s =
     (if s = ''A'' then Inr (JObj [(''id'', JStr ''a''), (''values'', JList [JFloat (Fin 1)])])
      else if s = ''B'' then Inr (JObj [(''id'', JStr ''b''), (''values'', JList [JFloat (Fin 2)])])
      else if s = ''a'' then Inr (demo_accepted ''a'' 1)
      else if s = ''b'' then Inr (demo_accepted ''b'' 2)
      else if s = cursor_text 1 then Inr (JObj [(''o'', JInt 1)])
      else Inl (OtherError ''JSONDecodeError''))"

definition api_rcfg :: "list_index rcfg" where
  "api_rcfg = \<lparr>rc_v = \<lparr>ve_env = demo_benv, ve_dim = 1, ve_max_bytes = 100, ve_quotas = False, ve_memory = True,
       ve_size = (\<lambda>_. 10), ve_text = (\<lambda>x. case x of OtherB s \<Rightarrow> Some s | _ \<Rightarrow> None), ve_loads = api_loads,
       ve_dumps = (\<lambda>x. case x of JObj ((_, JStr i) # _) \<Rightarrow> i | _ \<Rightarrow> []), ve_parquet = (\<lambda>_. None), ve_http = (\<lambda>_. Inr [])\<rparr>,
     rc_staging = None, rc_ingest_max = 100, rc_max_rows = 10, rc_ttl = 60, rc_fault = False,
     rc_sign = (\<lambda>m u t. u), rc_ts = (\<lambda>t. [])\<rparr>"

lemma api_rcfg_simps [simp]:
  "rc_env api_rcfg = demo_benv" "rc_ingest_max api_rcfg = 100" "rc_max_rows api_rcfg = 10" "\<not> rc_fault api_rcfg"
  "ve_loads (rc_v api_rcfg) = api_loads" "\<not> ve_quotas (rc_v api_rcfg)" "ve_text (rc_v api_rcfg) (OtherB s) = Some s"
  "ve_dumps (rc_v api_rcfg) (JObj ((n, JStr i) # fs)) = i"
  by (simp_all add: api_rcfg_def)

text \<open>Two good lines and a bad one.\<close>

definition api_body :: string where
  "api_body = [CHR ''A'', CHR 0x0A, CHR ''B'', CHR 0x0A, CHR ''C'', CHR 0x0A]"

definition no_accounts :: accounts where
  "no_accounts = \<lparr>ac_tenants = [], ac_emails = [], ac_keys = [], ac_hashes = [], ac_warm = []\<rparr>"

section \<open>Ingest\<close>

lemma loads_all_map: "list_all (\<lambda>x. ve_loads ve (f x) = Inr x) xs \<Longrightarrow> loads_all ve (map f xs) = Inr xs"
  by (induction xs) auto




text \<open>What an answered batch reports: \<open>good\<close> records stored, \<open>es\<close> rejected, every non-blank line counted once.\<close>

definition batch_of :: "'i rcfg \<Rightarrow> 'i world \<Rightarrow> key \<Rightarrow> string \<Rightarrow> json list \<times> (nat \<times> string) list \<Rightarrow> bool" where
  "batch_of cfg w k body = (\<lambda>(good, es).
     (case get_dataset (w_cat w) k of
        None \<Rightarrow> False
      | Some r \<Rightarrow> parse_ndjson_body (rc_v cfg) body (d_dimension r) = Inr (Some (good, es))))"



text \<open>The quota step of the handler.\<close>

definition batch_charge :: "'i rcfg \<Rightarrow> accounts \<Rightarrow> tenant \<Rightarrow> nat \<Rightarrow> accounts \<Rightarrow> bool" where
  "batch_charge cfg a tn n a' =
     (if n > 0 \<and> ve_quotas (rc_v cfg) then \<exists>u. try_consume_vectors (ve_memory (rc_v cfg)) a tn (int n) = (Inr (True, u), a')
      else a' = a)"

lemma fst_err [simp]: "fst (err c code message) = c" "fst (no_dataset name) = 404" "fst (vector_quota_429 u) = 429"
  by (simp_all add: err_def no_dataset_def error_envelope_def vector_quota_429_def)

text \<open>The status of an answer, None for an escaping exception.\<close>

definition answer_code :: "pyexc + response \<Rightarrow> int option" where
  "answer_code res = (case res of Inl _ \<Rightarrow> None | Inr r \<Rightarrow> Some (fst r))"

lemma answer_code_simps [simp]: "answer_code (Inl e) = None" "answer_code (Inr r) = Some (fst r)"
  by (simp_all add: answer_code_def)

text \<open>The ways a batch can go: it reaches the storage step, or it is answered before it.\<close>

definition reaches_store ::
  "'i rcfg \<Rightarrow> 'i world \<Rightarrow> accounts \<Rightarrow> key \<Rightarrow> string \<Rightarrow> time \<Rightarrow> string \<Rightarrow> string \<Rightarrow> (pyexc + response) \<Rightarrow> 'i world \<Rightarrow> accounts \<Rightarrow> bool" where
  "reaches_store cfg w a k body now job uid res w' a' \<longleftrightarrow> (\<exists>good es. batch_of cfg w k body (good, es) \<and>
     batch_charge cfg a (fst k) (length good) a' \<and>
     (if recall_enabled (be_recall (rc_env cfg)) then ingest_recall cfg w k (map (ve_dumps (rc_v cfg)) good) es now uid
      else ingest_landing cfg w k (map (ve_dumps (rc_v cfg)) good) es job uid) = (res, w'))"

lemma post_vectors_cases:
  assumes "post_vectors cfg (w, a) (fst k) (snd k) body now job uid = (res, w', a')"
  shows "reaches_store cfg w a k body now job uid res w' a' \<or>
    answer_code res \<in> {Some 400, Some 404, Some 413} \<and> w' = w \<and> a' = a \<or>
    answer_code res \<in> {Some 429, None} \<and> w' = w"
proof (cases "get_dataset (w_cat w) k")
  case None
  then show ?thesis using assms by (auto simp: post_vectors_def)
next
  case (Some r)
  note d = this
  note run = assms[unfolded post_vectors_def Let_def prod.case prod.collapse d option.case]
  show ?thesis
  proof (cases "int (length body) > rc_ingest_max cfg \<or> list_all byte_blank body")
    case True
    then show ?thesis using run by (auto split: if_splits)
  next
    case small: False
    show ?thesis
    proof (cases "parse_ndjson_body (rc_v cfg) body (d_dimension r)")
      case (Inl e)
      then show ?thesis using run small by auto
    next
      case (Inr p)
      show ?thesis
      proof (cases p)
        case None
        then show ?thesis using run small Inr by auto
      next
        case (Some q)
        obtain good es where q: "q = (good, es)" by (cases q)
        have b: "batch_of cfg w k body (good, es)" using d Inr Some q by (simp add: batch_of_def)
        let ?charge = "if good \<noteq> [] \<and> ve_quotas (rc_v cfg) then try_consume_vectors (ve_memory (rc_v cfg)) a (fst k) (int (length good))
          else (Inr (True, \<lparr>us_vectors = 0, us_vector_quota = 0, us_queries = 0, us_query_quota = 0, us_reset = 0\<rparr>), a)"
        obtain cr a1 where ch: "?charge = (cr, a1)" by (cases ?charge)
        show ?thesis
        proof (cases "good = [] \<and> es = []")
          case True
          then show ?thesis using run small unfolding Inr Some q by auto
        next
          case False
          note run1 = run[unfolded Inr Some q sum.case option.case prod.case ch if_not_P[OF False]]
          show ?thesis
          proof (cases "\<exists>u. cr = Inr (True, u)")
            case True
            then have c: "batch_charge cfg a (fst k) (length good) a1" using ch by (auto simp: batch_charge_def split: if_splits)
            have "(if recall_enabled (be_recall (rc_env cfg)) then ingest_recall cfg w k (map (ve_dumps (rc_v cfg)) good) es now uid
                else ingest_landing cfg w k (map (ve_dumps (rc_v cfg)) good) es job uid) = (res, w') \<and> a1 = a'"
              using run1 True small by (auto split: prod.splits)
            then have "reaches_store cfg w a k body now job uid res w' a'"
              unfolding reaches_store_def using b c by (intro exI[of _ good] exI[of _ es]) simp
            then show ?thesis ..
          next
            case False
            then show ?thesis using run1 small by (cases cr) auto
          qed
        qed
      qed
    qed
  qed
qed


section \<open>Reading back\<close>

lemma post_recall_stored:
  assumes "reaches_store cfg w a k body now job uid res w' a'" and "batch_of cfg w k body (good, es)"
    and "serving cfg w k" and "list_all (\<lambda>x. ve_loads (rc_v cfg) (ve_dumps (rc_v cfg) x) = Inr x) good"
  shows "w_cat w' = w_cat w \<and> w_bucket w' = w_bucket w \<and> (good \<noteq> [] \<longrightarrow>
    w_recall w' = snd (recall_upsert_vectors (be_pg (rc_env cfg)) (be_recall (rc_env cfg)) (w_recall w) k now (map vrec_of good)))"
    and "good = [] \<Longrightarrow> w_recall w' = w_recall w" and "res = Inr (200, JObj (ingest_body (length good) es))"
proof -
  obtain good' es' where b: "batch_of cfg w k body (good', es')" and r:
    "(if recall_enabled (be_recall (rc_env cfg)) then ingest_recall cfg w k (map (ve_dumps (rc_v cfg)) good') es' now uid
      else ingest_landing cfg w k (map (ve_dumps (rc_v cfg)) good') es' job uid) = (res, w')"
    using assms(1) unfolding reaches_store_def by blast
  have eq: "good' = good" "es' = es" using b assms(2) by (auto simp: batch_of_def split: option.splits)
  have on: "recall_enabled (be_recall (rc_env cfg))" "\<not> rc_fault cfg" using assms(3) by (simp_all add: serving_def)
  note run = r[unfolded eq if_P[OF on(1)] ingest_recall_def loads_all_map[OF assms(4)]]
  show "w_cat w' = w_cat w \<and> w_bucket w' = w_bucket w \<and> (good \<noteq> [] \<longrightarrow>
    w_recall w' = snd (recall_upsert_vectors (be_pg (rc_env cfg)) (be_recall (rc_env cfg)) (w_recall w) k now (map vrec_of good)))"
    and "good = [] \<Longrightarrow> w_recall w' = w_recall w" and "res = Inr (200, JObj (ingest_body (length good) es))"
    using run on by (auto split: if_splits)
qed

lemma serving_answer:
  assumes s: "serving cfg w k" and w': "w_cat w' = w_cat w" "w_bucket w' = w_bucket w"
    and up: "recs \<noteq> [] \<Longrightarrow> w_recall w' =
      snd (recall_upsert_vectors (be_pg (rc_env cfg)) (be_recall (rc_env cfg)) (w_recall w) k now recs)"
    and none: "recs = [] \<Longrightarrow> w_recall w' = w_recall w"
  shows "serving cfg w' k" and "id_answer cfg w' k i iv =
    (case find_last (\<lambda>r. rec_id r = i) recs of
       None \<Rightarrow> id_answer cfg w k i iv
     | Some r \<Rightarrow> vector_body i (meta_or (rec_metadata r))
         (if is_truthy_query_flag iv then Some (rs_store (be_pg (rc_env cfg)) (be_recall (rc_env cfg)) (rec_values r)) else None))"
proof -
  have "serving cfg w' k \<and> id_answer cfg w' k i iv =
    (case find_last (\<lambda>r. rec_id r = i) recs of
       None \<Rightarrow> id_answer cfg w k i iv
     | Some r \<Rightarrow> vector_body i (meta_or (rec_metadata r))
         (if is_truthy_query_flag iv then Some (rs_store (be_pg (rc_env cfg)) (be_recall (rc_env cfg)) (rec_values r)) else None))"
  proof (cases "recs = []")
    case True
    have "look_of (rc_env cfg) w' k i = look_of (rc_env cfg) w k i" by (simp add: look_of_def none[OF True])
    then show ?thesis using s True id_answer_look[OF w', where i = i] by (simp add: serving_def w' none find_last_def)
  next
    case False
    then show ?thesis using upsert_answer(1,2)[OF s w' up] by simp
  qed
  then show "serving cfg w' k" and "id_answer cfg w' k i iv =
    (case find_last (\<lambda>r. rec_id r = i) recs of
       None \<Rightarrow> id_answer cfg w k i iv
     | Some r \<Rightarrow> vector_body i (meta_or (rec_metadata r))
         (if is_truthy_query_flag iv then Some (rs_store (be_pg (rc_env cfg)) (be_recall (rc_env cfg)) (rec_values r)) else None))"
    by blast+
qed

text \<open>
  C27. Read your writes over HTTP with the recall tier on. After a batch answered 200, GET by id gives
  for every accepted id the last record of the batch (its vector too, when asked for) and for every
  other id what it gave before; a following DELETE is answered 204, makes its id a 404 and changes no
  other id. JSON is assumed to read back the records the batch itself dumped.
\<close>

theorem api_read_your_writes:
  assumes "serving cfg w k" and "batch_of cfg w k body (good, es)"
    and "list_all (\<lambda>x. ve_loads (rc_v cfg) (ve_dumps (rc_v cfg) x) = Inr x) good"
    and "post_vectors cfg (w, a) (fst k) (snd k) body now job uid = (res, w', a')" and "answer_code res = Some 200"
  shows "(\<forall>i iv. get_vector_endpoint cfg w' (fst k) (snd k) i iv =
      (case find_last (\<lambda>r. rec_id r = i) (map vrec_of good) of
         None \<Rightarrow> get_vector_endpoint cfg w (fst k) (snd k) i iv
       | Some r \<Rightarrow> Inr (vector_body i (meta_or (rec_metadata r))
           (if is_truthy_query_flag iv then Some (rs_store (be_pg (rc_env cfg)) (be_recall (rc_env cfg)) (rec_values r)) else None)))) \<and>
    (\<forall>i j iv now' job' uid'. case delete_vector_endpoint cfg w' (fst k) (snd k) i now' job' uid' of (ans, w2) \<Rightarrow>
      ans = (204, JNull) \<and>
      get_vector_endpoint cfg w2 (fst k) (snd k) j iv =
        (if j = i then Inr (no_vector i) else get_vector_endpoint cfg w' (fst k) (snd k) j iv))"
proof -
  have "reaches_store cfg w a k body now job uid res w' a'"
    using post_vectors_cases[OF assms(4)] assms(5) by auto
  note st = post_recall_stored[OF this assms(2,1,3)]
  note ans = serving_answer[OF assms(1), of w' "map vrec_of good" now]
  have s': "serving cfg w' k" using ans(1) st by simp
  have A: "get_vector_endpoint cfg w' (fst k) (snd k) i iv =
      (case find_last (\<lambda>r. rec_id r = i) (map vrec_of good) of
         None \<Rightarrow> get_vector_endpoint cfg w (fst k) (snd k) i iv
       | Some r \<Rightarrow> Inr (vector_body i (meta_or (rec_metadata r))
           (if is_truthy_query_flag iv then Some (rs_store (be_pg (rc_env cfg)) (be_recall (rc_env cfg)) (rec_values r)) else None)))" for i iv
    using ans(2)[of i iv] st get_endpoint[OF s'] get_endpoint[OF assms(1)] by (simp split: option.split)
  have B: "case delete_vector_endpoint cfg w' (fst k) (snd k) i now' job' uid' of (ans, w2) \<Rightarrow>
      ans = (204, JNull) \<and>
      get_vector_endpoint cfg w2 (fst k) (snd k) j iv =
        (if j = i then Inr (no_vector i) else get_vector_endpoint cfg w' (fst k) (snd k) j iv)" for i j iv now' job' uid'
  proof -
    obtain r where d: "get_dataset (w_cat w') k = Some r" using s' by (auto simp: serving_def)
    let ?w2 = "cap_check cfg (w'\<lparr>w_recall := snd (recall_delete_vector (be_pg (rc_env cfg)) (be_recall (rc_env cfg)) (w_recall w') k now' i
      (d_dimension r))\<rparr>) k uid'"
    have "delete_vector_endpoint cfg w' (fst k) (snd k) i now' job' uid' = ((204, JNull), ?w2)"
      using s' d by (simp add: delete_vector_endpoint_def serving_def Let_def)
    moreover have "serving cfg ?w2 k" "id_answer cfg ?w2 k j iv = (if j = i then no_vector i else id_answer cfg w' k j iv)"
      by (rule delete_answer[OF s', of ?w2 now' i "d_dimension r"]; simp)+
    ultimately show ?thesis by (simp add: get_endpoint s')
  qed
  show ?thesis by (rule conjI; intro allI; (rule A | rule B))
qed

section \<open>The listing\<close>

text \<open>
  C15. A client that follows \<open>next_cursor\<close> from the start is done after at most one request more than
  full pages, and has then seen every record once, in the order of ids: exactly the ids that GET
  answers, with the metadata it answers, that pass the filter. Assumed are a sidecar keyed by the
  hashes of its ids, and that JSON reads the cursors' texts back.
\<close>

theorem list_enumerates_dataset:
  assumes "serving cfg w k" and "sidecar_ok (rc_env cfg) (newest_sidecar cfg w k)"
    and "parse_limit limit = Some page" and "parse_filter (rc_v cfg) flt = Inr (Some f)"
    and "list_all (\<lambda>n. reads_cursor (rc_v cfg) (int n)) [1..<length (listed_records cfg w k f)]"
  shows "follow cfg w k limit flt (Suc (length (listed_records cfg w k f) div nat page)) None =
      Some (map item (listed_records cfg w k f)) \<and>
    sorted (map fst (listed_records cfg w k f)) \<and> distinct (map fst (listed_records cfg w k f)) \<and>
    (\<forall>i m. (i, m) \<in> set (listed_records cfg w k f) \<longleftrightarrow>
      get_vector_endpoint cfg w (fst k) (snd k) i None = Inr (vector_body i m None) \<and> metadata_matches_filter m f)"
proof -
  let ?rs = "listed_records cfg w k f"
  have p: "1 \<le> page" using parse_limit_pos[OF assms(3)] by simp
  have "reads_cursor (rc_v cfg) n" if "0 < n" "n < int (length ?rs)" for n
  proof -
    have "nat n \<in> set [1..<length ?rs]" using that by auto
    then have "reads_cursor (rc_v cfg) (int (nat n))" using assms(5) unfolding list_all_iff by blast
    with that show ?thesis by simp
  qed
  moreover have "int (length ?rs) \<le> 0 + int (Suc (length ?rs div nat page)) * page"
  proof -
    have "length ?rs = length ?rs div nat page * nat page + length ?rs mod nat page" by simp
    moreover have "length ?rs mod nat page < nat page" using p by simp
    ultimately have "length ?rs \<le> Suc (length ?rs div nat page) * nat page" by (metis add.commute less_imp_le mult_Suc nat_add_left_cancel_le)
    then have "int (length ?rs) \<le> int (Suc (length ?rs div nat page) * nat page)" by (simp only: of_nat_le_iff)
    then show ?thesis using p by (simp only: of_nat_mult) simp
  qed
  ultimately have "follow cfg w k limit flt (Suc (length ?rs div nat page)) None = Some (map item ?rs)"
    using follow_all[OF assms(1,3,4), of None 0 "Suc (length ?rs div nat page)"] by (simp add: starts_at_def)
  moreover have "sorted (map fst ?rs)" by (simp add: listed_records_def Let_def split: prod.split)
  moreover have "distinct (map fst ?rs)"
    using listed_ids(2)[OF assms(1,2)] unfolding listed_filter[of cfg w k f] by (simp only: distinct_map_filter)
  moreover have "(i, m) \<in> set ?rs \<longleftrightarrow>
      get_vector_endpoint cfg w (fst k) (snd k) i None = Inr (vector_body i m None) \<and> metadata_matches_filter m f" for i m
    using listed_ids(1)[OF assms(1,2), of i m] unfolding listed_filter[of cfg w k f] get_endpoint[OF assms(1)] by simp
  ultimately show ?thesis by blast
qed

section \<open>Import jobs\<close>

text \<open>
  C7. The rows of the import jobs stay typed. Whatever requests and messages create, complete,
  validate and build them, in any order, crashes and redeliveries included: every job has one of the
  five statuses and legal formats, modes and limits; its counters are not negative and add up, respect
  the error mode and the limit, and rejected records have a URI; a finished job has a completion time
  and a failed one a message. No job is lost, and what a client asked for is never rewritten.
\<close>

theorem import_jobs_typed:
  assumes "(import_step cfg fx)\<^sup>*\<^sup>* s s'" and "list_all job_typed (w_jobs (fst s))"
  shows "list_all job_typed (w_jobs (fst s')) \<and>
    take (length (w_jobs (fst s))) (map job_head (w_jobs (fst s'))) = map job_head (w_jobs (fst s))"
  using import_run_kept[OF assms(1)] assms(2) unfolding jobs_kept_def by blast

section \<open>Witnesses\<close>

definition api_good :: "json list" where
  "api_good = [demo_accepted ''a'' 1, demo_accepted ''b'' 2]"

lemma api_batch: "batch_of api_rcfg empty_world demo_key api_body (api_good, [(3, ''invalid json'')])"
  by code_simp

definition posted :: "(pyexc + response) \<times> list_index site" where
  "posted = post_vectors api_rcfg (empty_world, no_accounts) (fst demo_key) (snd demo_key) api_body 10 ''j'' ''u''"

lemma posted_ok: "answer_code (fst posted) = Some 200"
  by code_simp

lemma posted_parts:
  "post_vectors api_rcfg (empty_world, no_accounts) (fst demo_key) (snd demo_key) api_body 10 ''j'' ''u'' =
    (fst posted, fst (snd posted), snd (snd posted))"
  by (simp add: posted_def)


lemma empty_serving: "serving api_rcfg empty_world demo_key"
proof -
  have "synced demo_benv list_faiss 1 {} empty_world demo_key" by (rule empty_world_synced)
  then have "rs_ok (be_pg demo_benv) (be_recall demo_benv) (w_recall empty_world)" by (rule syncedD(2))
  moreover have "get_dataset (w_cat empty_world) demo_key \<noteq> None" "recall_enabled mem_cfg"
    by (simp_all add: get_dataset_def cat_row_def empty_world_def fresh_dataset_def recall_enabled_def use_memory_backend_def mem_cfg_def)
  moreover have "shard_mark empty_world demo_key \<le> rs_top (be_recall demo_benv) (w_recall empty_world) demo_key" by code_simp
  ultimately show ?thesis by (simp add: serving_def)
qed

lemma api_dumps: "list_all (\<lambda>x. ve_loads (rc_v api_rcfg) (ve_dumps (rc_v api_rcfg) x) = Inr x) api_good"
  by code_simp

theorem api_read_your_writes_witness:
  "get_vector_endpoint api_rcfg (fst (snd posted)) (fst demo_key) (snd demo_key) ''b'' (Some ''true'') =
     Inr (vector_body ''b'' [] (Some [Fin 2])) \<and>
   fst (delete_vector_endpoint api_rcfg (fst (snd posted)) (fst demo_key) (snd demo_key) ''b'' 11 ''j'' ''u'') = (204, JNull)"
proof -
  note t = api_read_your_writes[OF empty_serving api_batch api_dumps posted_parts posted_ok]
  have "find_last (\<lambda>r. rec_id r = ''b'') (map vrec_of api_good) =
      Some \<lparr>rec_id = ''b'', rec_values = [Fin 2], rec_metadata = Some []\<rparr>" by code_simp
  moreover have "is_truthy_query_flag (Some ''true'')" by code_simp
  ultimately show ?thesis
    using t[THEN conjunct1, rule_format, of "''b''" "Some ''true''"]
      t[THEN conjunct2, rule_format, of "''b''" None "''b''" 11 "''j''" "''u''"]
    by (simp add: rs_store_def use_memory_backend_def mem_cfg_def meta_or_def split: prod.splits)
qed

theorem list_enumerates_dataset_witness:
  "follow api_rcfg (fst (snd posted)) demo_key (Some ''1'') None 3 None = Some [item (''a'', []), item (''b'', [])]"
proof -
  let ?w = "fst (snd posted)"
  have "reaches_store api_rcfg empty_world no_accounts demo_key api_body 10 ''j'' ''u'' (fst posted) ?w (snd (snd posted))"
    using post_vectors_cases[OF posted_parts] by (auto simp: posted_ok)
  note st = post_recall_stored[OF this api_batch empty_serving api_dumps]
  have s: "serving api_rcfg ?w demo_key"
    using serving_answer(1)[OF empty_serving, of ?w "map vrec_of api_good" 10] st by simp
  have sc: "sidecar_ok (rc_env api_rcfg) (newest_sidecar api_rcfg ?w demo_key)" by code_simp
  have rs: "listed_records api_rcfg ?w demo_key [] = [(''a'', []), (''b'', [])]" by code_simp
  have cur: "list_all (\<lambda>n. reads_cursor (rc_v api_rcfg) (int n)) [1..<length (listed_records api_rcfg ?w demo_key [])]"
    by code_simp
  have lim: "parse_limit (Some ''1'') = Some 1" by code_simp
  have "parse_filter (rc_v api_rcfg) None = Inr (Some [])" by (simp add: parse_filter_def)
  from list_enumerates_dataset[OF s sc lim this cur] show ?thesis by (simp add: rs numeral_3_eq_3)
qed

text \<open>A job created through the API and completed after its upload.\<close>

definition import_body :: "json option" where
  "import_body = Some (JObj [(''format'', JStr ''ndjson''), (''max_bad_records'', JInt 3)])"

definition created :: "(pyexc + response) \<times> list_index site" where
  "created = create_import api_rcfg (empty_world, no_accounts) (fst demo_key) (snd demo_key) import_body 1 10 ''1''"

definition uploaded :: "list_index world" where
  "uploaded = (fst (snd created))\<lparr>w_bucket := [(''s3://b/staging/'' @ snd demo_key @ ''/imports/imp_1/upload.ndjson'', OtherB api_body)]\<rparr>"

definition completed :: "(pyexc + response) \<times> list_index world" where
  "completed = complete_import api_rcfg uploaded (fst demo_key) (snd demo_key) ''imp_1'' ''u''"

lemma created_typed: "list_all job_typed (w_jobs uploaded)"
proof -
  have "import_step api_rcfg list_faiss (empty_world, no_accounts) (fst (snd created), snd (snd created))"
    by (rule step_create[where r = "fst created"]) (simp add: created_def)
  from import_step_kept[OF this] show ?thesis by (simp add: jobs_kept_def uploaded_def)
qed

theorem import_jobs_typed_witness:
  "list_all job_typed (w_jobs (snd completed)) \<and> map ij_status (w_jobs (snd completed)) = [''validating'']"
proof
  have "import_step api_rcfg list_faiss (uploaded, no_accounts) (snd completed, no_accounts)"
    by (rule step_complete[where ans = "fst completed"]) (simp add: completed_def)
  then have "(import_step api_rcfg list_faiss)\<^sup>*\<^sup>* (uploaded, no_accounts) (snd completed, no_accounts)" by (rule r_into_rtranclp)
  from import_jobs_typed[OF this] created_typed show "list_all job_typed (w_jobs (snd completed))" by simp
  show "map ij_status (w_jobs (snd completed)) = [''validating'']" by code_simp
qed

end
