(* ===== verification/Proxy.thy ===== *)
theory Proxy
  imports Ephemeral Text
begin

text \<open>
  The query edge: the control plane's reverse proxy, \<open>services/query_api/query_proxy.py\<close>, and the data
  plane's trusted router, \<open>services/query_api/dp_query.py\<close>. Pool names, tenants and secrets are ASCII.
  The HTTP client is a parameter: what one request ends in, and its effect on the node it reaches.
\<close>

section \<open>Configuration\<close>

text \<open>\<open>px_url_for\<close> is the environment variable of a dedicated pool, \<open>px_digest\<close> is SHA-256.\<close>

record pxcfg =
  px_url :: string
  px_url_for :: "string \<Rightarrow> string option"
  px_secret :: "string option"
  px_rendezvous :: bool
  px_retries :: int
  px_quotas :: bool
  px_memory :: bool
  px_digest :: "string \<Rightarrow> string"
  px_day :: "day \<Rightarrow> string"

section \<open>The pool of a tenant, cached\<close>

definition DP_POOL_CACHE_TTL_S :: int where
  "DP_POOL_CACHE_TTL_S = 60"

type_synonym pool_cache = "(tenant, string \<times> time) pdict"

definition get_tenant_dp_pool_cached :: "bool \<Rightarrow> accounts \<Rightarrow> pool_cache \<Rightarrow> tenant \<Rightarrow> time \<Rightarrow> string \<times> pool_cache" where
  "get_tenant_dp_pool_cached mem a cache t now =
     (let miss = (\<lambda>c. let pool = get_tenant_dp_pool mem a t in (pool, dset t (pool, now + DP_POOL_CACHE_TTL_S) c))
      in case dget cache t of
           None \<Rightarrow> miss cache
         | Some (pool, expiry) \<Rightarrow> if now < expiry then (pool, cache) else miss (ddel t cache))"

section \<open>Base URLs\<close>

definition is_alnum :: "char \<Rightarrow> bool" where
  "is_alnum c \<longleftrightarrow> (let n = (of_char c :: nat) in (48 \<le> n \<and> n \<le> 57) \<or> (65 \<le> n \<and> n \<le> 90) \<or> (97 \<le> n \<and> n \<le> 122))"

definition upper_char :: "char \<Rightarrow> char" where
  "upper_char c = (let n = (of_char c :: nat) in if 97 \<le> n \<and> n \<le> 122 then char_of (n - 32) else c)"

definition env_suffix :: "string \<Rightarrow> string" where
  "env_suffix t = map upper_char (map (\<lambda>c. if is_alnum c then c else CHR ''_'') t)"

definition SHARED_POOL :: string where
  "SHARED_POOL = ''shared''"

definition resolve_dp_base_url :: "pxcfg \<Rightarrow> string \<Rightarrow> string" where
  "resolve_dp_base_url cfg pool =
     (let shared = rstrip_slash (px_url cfg) in
      if pool = [] \<or> pool = SHARED_POOL then shared
      else if starts_with ''dedicated-'' pool
      then (case px_url_for cfg (env_suffix (drop (length ''dedicated-'') pool)) of
              None \<Rightarrow> shared | Some u \<Rightarrow> if u = [] then shared else rstrip_slash u)
      else shared)"

section \<open>Rendezvous hashing\<close>

definition routing_key :: "tenant \<Rightarrow> string \<Rightarrow> string" where
  "routing_key t d = t @ ''|'' @ d"

definition url_weight :: "(string \<Rightarrow> string) \<Rightarrow> string \<Rightarrow> string \<Rightarrow> string" where
  "url_weight digest key u = digest (key @ ''|'' @ u)"

text \<open>\<open>max\<close> returns the first maximal element; the empty list raises.\<close>

fun max_first :: "('a \<Rightarrow> 'b::linorder) \<Rightarrow> 'a list \<Rightarrow> 'a option" where
  "max_first f [] = None"
| "max_first f (x # xs) = (case max_first f xs of None \<Rightarrow> Some x | Some y \<Rightarrow> if f x \<ge> f y then Some x else Some y)"

definition hrw_pick :: "(string \<Rightarrow> string) \<Rightarrow> string \<Rightarrow> string list \<Rightarrow> pyexc + string" where
  "hrw_pick digest key urls =
     (case max_first (url_weight digest key) urls of
        None \<Rightarrow> Inl (ValueError ''_hrw_pick: dp_urls is empty'') | Some u \<Rightarrow> Inr u)"

text \<open>\<open>sorted(reverse=True)\<close> keeps the order of equal elements.\<close>

definition hrw_rank :: "(string \<Rightarrow> string) \<Rightarrow> string \<Rightarrow> string list \<Rightarrow> string list" where
  "hrw_rank digest key urls = rev (sort_key (url_weight digest key) (rev urls))"

definition is_dp_healthy :: "string \<Rightarrow> bool" where
  "is_dp_healthy u = True"

definition parse_dp_urls :: "string \<Rightarrow> string list" where
  "parse_dp_urls raw = filter (\<lambda>p. p \<noteq> []) (map (\<lambda>seg. rstrip_slash (strip seg)) (if raw = [] then [] else split_on CHR '','' raw))"

definition resolve_pool_urls :: "pxcfg \<Rightarrow> string \<Rightarrow> string \<times> string list" where
  "resolve_pool_urls cfg pool =
     (let shared = (''QUERY_DP_URL'', parse_dp_urls (px_url cfg)) in
      if pool = [] \<or> pool = SHARED_POOL then shared
      else if starts_with ''dedicated-'' pool
      then (let suffix = env_suffix (drop (length ''dedicated-'') pool) in
            case px_url_for cfg suffix of
              None \<Rightarrow> shared
            | Some u \<Rightarrow> if u = [] then shared else (''QUERY_DP_URL_'' @ suffix, parse_dp_urls u))
      else shared)"

text \<open>The second component tells whether the misconfiguration is warned of.\<close>

definition pick_dp_url :: "pxcfg \<Rightarrow> string \<Rightarrow> string \<Rightarrow> string \<times> bool" where
  "pick_dp_url cfg pool key =
     (let (name, urls) = resolve_pool_urls cfg pool in
      if urls = [] then (resolve_dp_base_url cfg pool, False)
      else if \<not> px_rendezvous cfg then (hd urls, length urls > 1)
      else case find is_dp_healthy (hrw_rank (px_digest cfg) key urls) of Some u \<Rightarrow> (u, False) | None \<Rightarrow> (hd urls, False))"

section \<open>Timeouts\<close>

text \<open>\<open>float(raw)\<close> is a parameter; \<open>max(0.1, nan)\<close> is 0.1.\<close>

definition parse_positive_timeout :: "(string \<Rightarrow> pyfloat option) \<Rightarrow> string option \<Rightarrow> pyfloat option" where
  "parse_positive_timeout fl raw =
     (case raw of
        None \<Rightarrow> None
      | Some s \<Rightarrow>
          if strip s = [] then None
          else (case fl s of
              None \<Rightarrow> None
            | Some (Fin q) \<Rightarrow> if q \<le> 0 then None else Some (Fin (max (1 / 10) q))
            | Some PInf \<Rightarrow> Some PInf
            | Some NInf \<Rightarrow> None
            | Some NaN \<Rightarrow> Some (Fin (1 / 10))))"

definition read_timeout_s :: "(string \<Rightarrow> pyfloat option) \<Rightarrow> string option \<Rightarrow> string option \<Rightarrow> pyfloat" where
  "read_timeout_s fl read_raw legacy_raw =
     (case parse_positive_timeout fl read_raw of
        Some v \<Rightarrow> v
      | None \<Rightarrow> (case parse_positive_timeout fl legacy_raw of Some v \<Rightarrow> v | None \<Rightarrow> Fin 30))"

definition connect_timeout_s :: "(string \<Rightarrow> pyfloat option) \<Rightarrow> string option \<Rightarrow> pyfloat" where
  "connect_timeout_s fl raw = (case parse_positive_timeout fl raw of Some v \<Rightarrow> v | None \<Rightarrow> Fin 3)"

section \<open>Forwarding\<close>

definition TENANT_HEADER :: string where
  "TENANT_HEADER = ''X-RB-Tenant-Id''"

definition PROXY_SECRET_HEADER :: string where
  "PROXY_SECRET_HEADER = ''X-RB-Proxy-Secret''"

type_synonym headers = "(string, string) pdict"

definition trusted_headers :: "pxcfg \<Rightarrow> tenant \<Rightarrow> headers" where
  "trusted_headers cfg t =
     (let hs = [(TENANT_HEADER, t), (''Content-Type'', ''application/json'')] in
      case px_secret cfg of None \<Rightarrow> hs | Some s \<Rightarrow> if s = [] then hs else dset PROXY_SECRET_HEADER s hs)"

text \<open>What one request of the client ends in: an exception by its class, or the node's answer.\<close>

datatype 'r upstream = ConnectError | PoolTimeout | ReadTimeout | HttpError | Answered 'r

datatype 'r proxied = Own response | Verbatim 'r

definition bad_gateway :: response where
  "bad_gateway = error_envelope 502 ''bad_gateway'' ''Query service returned an invalid or incomplete response'' None"

definition query_unavailable :: response where
  "query_unavailable = error_envelope 503 ''query_unavailable'' ''Query service is temporarily unavailable'' None"

text \<open>The attempts left. Only a failure to connect, before which nothing was sent, is tried again.\<close>

fun proxy_attempts :: "('d \<Rightarrow> 'r upstream \<times> 'd) \<Rightarrow> nat \<Rightarrow> 'd \<Rightarrow> 'r proxied \<times> 'd" where
  "proxy_attempts send 0 d = (Own query_unavailable, d)"
| "proxy_attempts send (Suc n) d =
     (case send d of
        (ConnectError, d1) \<Rightarrow> proxy_attempts send n d1
      | (PoolTimeout, d1) \<Rightarrow> (Own bad_gateway, d1)
      | (ReadTimeout, d1) \<Rightarrow> (Own (error_envelope 504 ''query_timeout'' ''Query timed out'' None), d1)
      | (HttpError, d1) \<Rightarrow> (Own bad_gateway, d1)
      | (Answered r, d1) \<Rightarrow> (Verbatim r, d1))"

record proxy_request =
  rq_method :: string
  rq_base :: string
  rq_path :: string
  rq_headers :: headers
  rq_body :: "string option"

definition proxy ::
  "pxcfg \<Rightarrow> (proxy_request \<Rightarrow> 'd \<Rightarrow> 'r upstream \<times> 'd) \<Rightarrow> accounts \<Rightarrow> pool_cache \<Rightarrow> string \<Rightarrow> string \<Rightarrow> tenant \<Rightarrow> string option
   \<Rightarrow> time \<Rightarrow> 'd \<Rightarrow> 'r proxied \<times> pool_cache \<times> 'd" where
  "proxy cfg send a cache verb path t body now d =
     (let (pool, cache1) = get_tenant_dp_pool_cached (px_memory cfg) a cache t now;
          rq = \<lparr>rq_method = verb, rq_base = resolve_dp_base_url cfg pool, rq_path = path,
                rq_headers = trusted_headers cfg t, rq_body = body\<rparr>;
          (r, d1) = proxy_attempts (send rq) (nat (px_retries cfg + 1)) d
      in (r, cache1, d1))"

definition proxy_v1_query ::
  "pxcfg \<Rightarrow> (proxy_request \<Rightarrow> 'd \<Rightarrow> 'r upstream \<times> 'd) \<Rightarrow> accounts \<Rightarrow> pool_cache \<Rightarrow> tenant \<Rightarrow> string \<Rightarrow> day \<Rightarrow> time \<Rightarrow> 'd
   \<Rightarrow> 'r proxied \<times> accounts \<times> pool_cache \<times> 'd" where
  "proxy_v1_query cfg send a cache t body today now d =
     (let forward = (\<lambda>a1. let (r, c, d1) = proxy cfg send a1 cache ''POST'' ''/v1/query'' t (Some body) now d in (r, a1, c, d1)) in
      if px_quotas cfg
      then (case try_consume_query (px_memory cfg) a t today of
          (Inl _, a1) \<Rightarrow> (Own (error_envelope 500 ''internal_error'' ''Internal error resolving tenant'' None), a1, cache, d)
        | (Inr (ok, u), a1) \<Rightarrow>
            if \<not> ok then (Own (query_quota_429 (px_day cfg) u), a1, cache, d) else forward a1)
      else forward a)"

definition proxy_v1_query_status ::
  "pxcfg \<Rightarrow> (proxy_request \<Rightarrow> 'd \<Rightarrow> 'r upstream \<times> 'd) \<Rightarrow> accounts \<Rightarrow> pool_cache \<Rightarrow> tenant \<Rightarrow> string \<Rightarrow> time \<Rightarrow> 'd
   \<Rightarrow> 'r proxied \<times> pool_cache \<times> 'd" where
  "proxy_v1_query_status cfg send a cache t job now d =
     proxy cfg send a cache ''GET'' (''/v1/query/status/'' @ job) t None now d"

section \<open>The data plane's router\<close>

text \<open>\<open>hmac.compare_digest\<close> raises on text that is not ASCII.\<close>

definition ascii :: "string \<Rightarrow> bool" where
  "ascii s \<longleftrightarrow> list_all (\<lambda>c. (of_char c :: nat) < 128) s"

definition check_proxy_secret :: "string option \<Rightarrow> string option \<Rightarrow> pyexc + response option" where
  "check_proxy_secret expected provided =
     (let reject = Inr (Some (error_envelope 403 ''proxy_unauthorized'' ''Invalid or missing proxy secret'' None)) in
      case expected of
        None \<Rightarrow> Inr None
      | Some e \<Rightarrow>
          if e = [] then Inr None
          else (case provided of
              None \<Rightarrow> reject
            | Some p \<Rightarrow> if \<not> (ascii p \<and> ascii e) then Inl (OtherError ''TypeError'') else if p \<noteq> e then reject else Inr None))"

text \<open>\<open>parse\<close> is the JSON decoding of the body's bytes; the quota callback is absent.\<close>

definition dp_v1_query ::
  "string option \<Rightarrow> (string \<Rightarrow> json option) \<Rightarrow> 'i qenv \<Rightarrow> 'i faiss \<Rightarrow> headers \<Rightarrow> string \<Rightarrow> dberr option \<Rightarrow> time \<Rightarrow> fresh
   \<Rightarrow> 'i world \<times> 'i dp \<Rightarrow> (pyexc + query_answer) \<times> 'i world \<times> 'i dp" where
  "dp_v1_query secret parse qe fx hs body fault now fr s =
     (case check_proxy_secret secret (dget hs PROXY_SECRET_HEADER) of
        Inl e \<Rightarrow> (Inl e, s)
      | Inr (Some r) \<Rightarrow> (Inr (QError r), s)
      | Inr None \<Rightarrow>
         (case dget hs TENANT_HEADER of
            None \<Rightarrow> (Inr (QError (error_envelope 400 ''invalid_request'' ''Missing required X-RB-Tenant-Id header'' None)), s)
          | Some t \<Rightarrow>
              if t = [] then (Inr (QError (error_envelope 400 ''invalid_request'' ''Missing required X-RB-Tenant-Id header'' None)), s)
              else (case parse body of
                  None \<Rightarrow> (Inr (QError (error_envelope 400 ''invalid_request'' ''Request body must be JSON'' None)), s)
                | Some j \<Rightarrow>
                   (case execute_v1_query qe fx (fst s) (snd s)
                      \<lparr>ac_tenants = [], ac_emails = [], ac_keys = [], ac_hashes = [], ac_warm = []\<rparr> t j None fault now fr of
                      (r, d1, w1, _) \<Rightarrow> (r, w1, d1)))))"

definition dp_v1_query_status :: "string option \<Rightarrow> headers \<Rightarrow> results \<Rightarrow> string \<Rightarrow> time \<Rightarrow> pyexc + response" where
  "dp_v1_query_status secret hs rs job now =
     (case check_proxy_secret secret (dget hs PROXY_SECRET_HEADER) of
        Inl e \<Rightarrow> Inl e | Inr (Some r) \<Rightarrow> Inr r | Inr None \<Rightarrow> Inr (v1_query_status rs job now))"

end
