(* ===== verification/Replica.thy ===== *)
theory Replica
  imports Shard_Tier Queue Quota Text
begin

text \<open>
  The background workers of a query replica, \<open>services/_common\<close>: its identity (\<open>dp_id.py\<close>), the
  residency reconciler (\<open>residency_writer.py\<close>), the consumer of prewarm messages
  (\<open>prewarm_consumer.py\<close>) and the listener for catalog notifications (\<open>catalog_listener.py\<close>); and the
  admin endpoint of \<open>services/query_api/dp_app.py\<close>. One turn of each loop is modelled.
\<close>

section \<open>The identity of a replica\<close>

text \<open>The file \<open>.dp_id\<close>: absent, not readable, or its text.\<close>

datatype id_file = NoFile | Unreadable | FileText string

definition read_persisted :: "id_file \<Rightarrow> string option" where
  "read_persisted f = (case f of FileText s \<Rightarrow> (let v = strip s in if v = [] then None else Some v) | _ \<Rightarrow> None)"

text \<open>\<open>O_EXCL\<close>: an existing file, readable or not, raises \<open>FileExistsError\<close>, None here.\<close>

definition write_persisted :: "id_file \<Rightarrow> string \<Rightarrow> id_file option" where
  "write_persisted f v = (if f = NoFile then Some (FileText (v @ [CHR 0x0A])) else None)"

text \<open>\<open>rival\<close> is what another process wrote between the read and the write, if anything.\<close>

definition resolve_dp_id :: "string option \<Rightarrow> string option \<Rightarrow> id_file \<Rightarrow> id_file option \<Rightarrow> string \<Rightarrow> string \<times> id_file" where
  "resolve_dp_id explicit host f rival generated =
     (case explicit of
        Some (c # cs) \<Rightarrow> (c # cs, f)
      | _ \<Rightarrow>
       (case host of
          Some (c # cs) \<Rightarrow> (c # cs, f)
        | _ \<Rightarrow>
         (case read_persisted f of
            Some v \<Rightarrow> (v, f)
          | None \<Rightarrow>
              let g = (case rival of None \<Rightarrow> f | Some r \<Rightarrow> if f = NoFile then r else f) in
              (case write_persisted g generated of
                 Some h \<Rightarrow> (generated, h)
               | None \<Rightarrow> (case read_persisted g of Some winner \<Rightarrow> (winner, g) | None \<Rightarrow> (generated, g))))))"

text \<open>\<open>dp_id\<close>: the memoised value, resolved on the first call.\<close>

definition dp_id ::
  "string option \<Rightarrow> string option \<Rightarrow> string option \<Rightarrow> id_file \<Rightarrow> id_file option \<Rightarrow> string \<Rightarrow> string \<times> string option \<times> id_file" where
  "dp_id resolved explicit host f rival generated =
     (case resolved of
        Some v \<Rightarrow> (v, resolved, f)
      | None \<Rightarrow> (let (v, g) = resolve_dp_id explicit host f rival generated in (v, Some v, g)))"

section \<open>The residency reconciler\<close>

text \<open>The writes of a cycle, in order: the dropped URIs, then every resident one.\<close>

datatype warm_write = Drop uri | Keep uri time

fun write_warm :: "string \<Rightarrow> time \<Rightarrow> accounts \<Rightarrow> warm_write \<Rightarrow> accounts" where
  "write_warm me now a (Drop u) = unregister_dp_shard_warm a me u"
| "write_warm me now a (Keep u since) = register_dp_shard_warm a me u since now"

record residency_state =
  rs_previous :: "uri list"
  rs_since :: "(uri, time) pdict"

text \<open>
  \<open>ord\<close> is the iteration order of a set. \<open>fail\<close> is the number of writes after which the database is
  gone; then the cycle raises and the state of the worker stays as it was.
\<close>

definition reconcile_writes :: "(uri list \<Rightarrow> uri list) \<Rightarrow> uri list \<Rightarrow> residency_state \<Rightarrow> time \<Rightarrow> warm_write list \<times> residency_state" where
  "reconcile_writes ord resident st now =
     (let current = remdups resident;
          dropped = filter (\<lambda>u. u \<notin> set current) (rs_previous st);
          since = map (\<lambda>u. (u, dget_or (rs_since st) u now)) (ord current)
      in (map Drop (ord dropped) @ map (\<lambda>u. Keep u (dget_or since u now)) (ord current),
          \<lparr>rs_previous = current, rs_since = since\<rparr>))"

definition reconcile_once ::
  "(uri list \<Rightarrow> uri list) \<Rightarrow> uri list \<Rightarrow> string \<Rightarrow> nat option \<Rightarrow> accounts \<Rightarrow> residency_state \<Rightarrow> time
   \<Rightarrow> bool \<times> accounts \<times> residency_state" where
  "reconcile_once ord resident me fail a st now =
     (let (ws, st1) = reconcile_writes ord resident st now in
      case fail of
        Some n \<Rightarrow> if n < length ws then (False, foldl (write_warm me now) a (take n ws), st)
                  else (True, foldl (write_warm me now) a ws, st1)
      | None \<Rightarrow> (True, foldl (write_warm me now) a ws, st1))"

definition BACKOFF_INITIAL_S :: rat where
  "BACKOFF_INITIAL_S = 1 / 2"

definition BACKOFF_CAP_S :: rat where
  "BACKOFF_CAP_S = 30"

text \<open>One turn of \<open>_run\<close>: the state, the next backoff and the pause before the next turn.\<close>

definition residency_turn ::
  "(uri list \<Rightarrow> uri list) \<Rightarrow> rat \<Rightarrow> uri list \<Rightarrow> string \<Rightarrow> nat option \<Rightarrow> accounts \<Rightarrow> residency_state \<Rightarrow> rat \<Rightarrow> time
   \<Rightarrow> accounts \<times> residency_state \<times> rat \<times> rat" where
  "residency_turn ord interval resident me fail a st backoff now =
     (case reconcile_once ord resident me fail a st now of
        (True, a1, st1) \<Rightarrow> (a1, st1, BACKOFF_INITIAL_S, interval)
      | (False, a1, st1) \<Rightarrow> (a1, st1, min (backoff * 2) BACKOFF_CAP_S, backoff))"

section \<open>The prewarm consumer\<close>

definition PREWARM_TOPIC :: string where
  "PREWARM_TOPIC = ''PREWARM_SHARD''"

text \<open>A value that is no text makes \<open>prewarm\<close> raise, which is a nack like any other failure.\<close>

definition dispatch_prewarm ::
  "qcfg \<Rightarrow> tier_cfg \<Rightarrow> (uri \<Rightarrow> bool) \<Rightarrow> ('i blob \<Rightarrow> int) \<Rightarrow> 'i bucket \<Rightarrow> 'i tier \<Rightarrow> qstate \<Rightarrow> message \<Rightarrow> time \<Rightarrow> string
   \<Rightarrow> 'i tier \<times> qstate" where
  "dispatch_prewarm qc tc down bsize b t q m now fresh =
     (let back = snd (nack qc q (Some m) True fresh []) in
      case dget (msg_payload m) ''shard_uri'' of
        Some (JStr (c # cs)) \<Rightarrow>
         (case tier_prewarm tc down bsize b t (c # cs) now of
            (Inl e, t1) \<Rightarrow> (t1, back)
          | (Inr p, t1) \<Rightarrow> (t1, ack qc q (Some m)))
      | _ \<Rightarrow> (t, back))"

definition prewarm_turn ::
  "qcfg \<Rightarrow> tier_cfg \<Rightarrow> (uri \<Rightarrow> bool) \<Rightarrow> ('i blob \<Rightarrow> int) \<Rightarrow> 'i bucket \<Rightarrow> 'i tier \<Rightarrow> qstate \<Rightarrow> rat \<Rightarrow> time \<Rightarrow> string
   \<Rightarrow> 'i tier \<times> qstate \<times> rat" where
  "prewarm_turn qc tc down bsize b t q backoff now fresh =
     (case consume qc q PREWARM_TOPIC now of
        (Inl e, q1) \<Rightarrow> (t, q1, min (backoff * 2) BACKOFF_CAP_S)
      | (Inr None, q1) \<Rightarrow> (t, q1, BACKOFF_INITIAL_S)
      | (Inr (Some m), q1) \<Rightarrow>
          (let (t1, q2) = dispatch_prewarm qc tc down bsize b t q1 m now fresh in (t1, q2, BACKOFF_INITIAL_S)))"

text \<open>The admin endpoint calls the same operation; its errors become responses.\<close>

definition admin_prewarm ::
  "tier_cfg \<Rightarrow> (uri \<Rightarrow> bool) \<Rightarrow> ('i blob \<Rightarrow> int) \<Rightarrow> 'i bucket \<Rightarrow> 'i tier \<Rightarrow> json option \<Rightarrow> time \<Rightarrow> (query_exc \<Rightarrow> string)
   \<Rightarrow> response \<times> 'i tier" where
  "admin_prewarm tc down bsize b t body now ty =
     (case body of
        None \<Rightarrow> (error_envelope 400 ''invalid_request'' ''Request body must be JSON'' None, t)
      | Some (JObj fs) \<Rightarrow>
         (case dget fs ''shard_uri'' of
            Some (JStr (c # cs)) \<Rightarrow>
             (case tier_prewarm tc down bsize b t (c # cs) now of
                (Inr p, t1) \<Rightarrow> ((200, JObj [(''shard_uri'', JStr (c # cs)), (''local_path'', JStr p)]), t1)
              | (Inl ECapacity, t1) \<Rightarrow> (error_envelope 503 ''cache_capacity_exceeded'' ''SSD cache tier is at capacity'' None, t1)
              | (Inl EFileNotFound, t1) \<Rightarrow> (error_envelope 404 ''shard_not_found'' (''shard URI not found: '' @ c # cs) None, t1)
              | (Inl e, t1) \<Rightarrow> (error_envelope 500 ''internal_error'' (''prewarm failed: '' @ ty e) None, t1))
          | _ \<Rightarrow> (error_envelope 400 ''invalid_request'' ''shard_uri is required and must be a string'' None, t))
      | Some _ \<Rightarrow> (error_envelope 400 ''invalid_request'' ''Request body must be a JSON object'' None, t))"

section \<open>The catalog listener\<close>

text \<open>
  Subscribers by a number for the callback's identity; \<open>call\<close> is what a callback does to its own state, an
  exception included, which is logged.
\<close>

type_synonym 's callback = "nat \<Rightarrow> meta \<Rightarrow> 's \<Rightarrow> (pyexc option) \<times> 's"

definition subscribe :: "nat list \<Rightarrow> nat \<Rightarrow> nat list" where
  "subscribe subs cb = subs @ [cb]"

definition unsubscribe :: "nat list \<Rightarrow> nat \<Rightarrow> bool \<times> nat list" where
  "unsubscribe subs cb = (cb \<in> set subs, remove1 cb subs)"

definition dispatch_payload :: "(string \<Rightarrow> pyexc + json) \<Rightarrow> 's callback \<Rightarrow> nat list \<Rightarrow> string \<Rightarrow> 's \<Rightarrow> pyexc + 's" where
  "dispatch_payload loads call subs payload s =
     (case loads payload of
        Inr (JObj p) \<Rightarrow> Inr (foldl (\<lambda>s cb. snd (call cb p s)) s subs)
      | Inr _ \<Rightarrow> Inr s
      | Inl (ValueError _) \<Rightarrow> Inr s
      | Inl (OtherError _) \<Rightarrow> Inr s
      | Inl e \<Rightarrow> Inl e)"

definition CATALOG_CHANNEL :: string where
  "CATALOG_CHANNEL = ''catalog_updates''"

text \<open>The notifications one poll found, (channel, payload); an exception ends the loop.\<close>

fun drain_notifies :: "(string \<Rightarrow> pyexc + json) \<Rightarrow> 's callback \<Rightarrow> nat list \<Rightarrow> (string \<times> string) list \<Rightarrow> 's \<Rightarrow> bool \<times> 's" where
  "drain_notifies loads call subs [] s = (True, s)"
| "drain_notifies loads call subs ((channel, payload) # ns) s =
     (if channel \<noteq> CATALOG_CHANNEL then drain_notifies loads call subs ns s
      else case dispatch_payload loads call subs payload s of
          Inl e \<Rightarrow> (False, s)
        | Inr s1 \<Rightarrow> drain_notifies loads call subs ns s1)"

text \<open>
  One connection of \<open>_run\<close>: it fails, or it listens and drains polls until one raises. The next backoff
  and the pause before reconnecting.
\<close>

datatype listen_end = ConnectFailed | Dropped "(string \<times> string) list list"

fun drain_polls :: "(string \<Rightarrow> pyexc + json) \<Rightarrow> 's callback \<Rightarrow> nat list \<Rightarrow> (string \<times> string) list list \<Rightarrow> 's \<Rightarrow> 's" where
  "drain_polls loads call subs [] s = s"
| "drain_polls loads call subs (p # ps) s =
     (case drain_notifies loads call subs p s of (True, s1) \<Rightarrow> drain_polls loads call subs ps s1 | (False, s1) \<Rightarrow> s1)"

definition listener_turn ::
  "(string \<Rightarrow> pyexc + json) \<Rightarrow> 's callback \<Rightarrow> nat list \<Rightarrow> listen_end \<Rightarrow> rat \<Rightarrow> 's \<Rightarrow> 's \<times> rat \<times> rat" where
  "listener_turn loads call subs conn backoff s =
     (case conn of
        ConnectFailed \<Rightarrow> (s, min (backoff * 2) BACKOFF_CAP_S, backoff)
      | Dropped polls \<Rightarrow> (drain_polls loads call subs polls s, min (BACKOFF_INITIAL_S * 2) BACKOFF_CAP_S, BACKOFF_INITIAL_S))"

section \<open>What the workers keep\<close>

text \<open>A generated identity survives a restart on the same volume, and a lost race adopts the winner's.\<close>

lemma dp_id_survives_restart:
  assumes "strip v = v" and "v \<noteq> []" and "strip (v @ [CHR 0x0A]) = v"
  shows "resolve_dp_id None None NoFile None v = (v, FileText (v @ [CHR 0x0A]))"
    and "resolve_dp_id None None (FileText (v @ [CHR 0x0A])) rival w = (v, FileText (v @ [CHR 0x0A]))"
    and "resolve_dp_id None None NoFile (Some (FileText (v @ [CHR 0x0A]))) w = (v, FileText (v @ [CHR 0x0A]))"
  using assms by (simp_all add: resolve_dp_id_def write_persisted_def read_persisted_def Let_def)

lemma dp_id_memoised: "dp_id (Some v) e h f r g = (v, Some v, f)"
  by (simp add: dp_id_def)

text \<open>An empty identity file is never repaired: every start makes up a new identity.\<close>

lemma empty_id_file: "resolve_dp_id None None (FileText []) None g = (g, FileText [])"
  by (simp add: resolve_dp_id_def write_persisted_def read_persisted_def strip_def Let_def)

text \<open>The rows of a replica after the writes of a cycle.\<close>

lemma drop_rows:
  "dget (ac_warm (foldl (write_warm me now) a (map Drop us))) (d, u) =
     (if d = me \<and> u \<in> set us then None else dget (ac_warm a) (d, u))"
  by (induction us arbitrary: a) (auto simp: unregister_dp_shard_warm_def delete_conv')

lemma keep_rows:
  "dget (ac_warm (foldl (write_warm me now) a (map (\<lambda>u. Keep u (f u)) us))) (d, u) =
     (if d = me \<and> u \<in> set us
      then Some (case dget (ac_warm a) (d, u) of None \<Rightarrow> f u | Some (s, _) \<Rightarrow> s, now)
      else dget (ac_warm a) (d, u))"
  by (induction us arbitrary: a) (auto simp: register_dp_shard_warm_def update_conv' split: option.splits)

definition mirrors :: "string \<Rightarrow> accounts \<Rightarrow> residency_state \<Rightarrow> bool" where
  "mirrors me a st \<longleftrightarrow> (\<forall>u. dget (ac_warm a) (me, u) \<noteq> None \<longleftrightarrow> u \<in> set (rs_previous st))"

text \<open>
  A cycle that goes through makes the replica's rows exactly the resident shards, each stamped with the
  cycle's time and its old start kept, and leaves the rows of other replicas alone.
\<close>

lemma reconcile_mirrors:
  assumes "\<And>us. set (ord us) = set us" and "mirrors me a st" and "reconcile_once ord resident me None a st now = (ok, a1, st1)"
  shows "ok" and "mirrors me a1 st1" and "set (rs_previous st1) = set resident"
    and "u \<in> set resident \<Longrightarrow> \<exists>s. dget (ac_warm a1) (me, u) = Some (s, now) \<and>
      (\<forall>s' q. dget (ac_warm a) (me, u) = Some (s', q) \<longrightarrow> s = s')"
    and "d \<noteq> me \<Longrightarrow> dget (ac_warm a1) (d, u) = dget (ac_warm a) (d, u)"
  using assms(2,3)
  by (auto simp: reconcile_once_def reconcile_writes_def mirrors_def keep_rows drop_rows assms(1) Let_def split: if_splits option.splits)

text \<open>
  A cycle the database interrupts can leave a row that no later cycle removes: the worker forgets what
  it had written, and the shard is gone by the next cycle.
\<close>

lemma interrupted_cycle_leaks:
  fixes a :: accounts
  assumes "ac_warm a = []"
  defines "st \<equiv> \<lparr>rs_previous = [], rs_since = []\<rparr>"
  defines "a1 \<equiv> fst (snd (reconcile_once id [''u'', ''v''] ''me'' (Some 1) a st 5))"
  defines "st1 \<equiv> snd (snd (reconcile_once id [''u'', ''v''] ''me'' (Some 1) a st 5))"
  shows "dget (ac_warm (fst (snd (reconcile_once id [''v''] ''me'' None a1 st1 10)))) (''me'', ''u'') \<noteq> None"
  by (simp add: assms reconcile_once_def reconcile_writes_def register_dp_shard_warm_def Let_def)

text \<open>A prewarm message is acked exactly when the shard is in the tier; every other goes back.\<close>

lemma prewarm_acked_iff:
  assumes "dget (msg_payload m) ''shard_uri'' = Some (JStr u)" and "u \<noteq> []"
  shows "dispatch_prewarm qc tc down bsize b t q m now fresh =
    (case tier_prewarm tc down bsize b t u now of
       (Inl e, t1) \<Rightarrow> (t1, snd (nack qc q (Some m) True fresh [])) | (Inr p, t1) \<Rightarrow> (t1, ack qc q (Some m)))"
  using assms by (cases u) (simp_all add: dispatch_prewarm_def Let_def)

text \<open>The pause between two attempts of a worker stays between half a second and half a minute.\<close>

lemma residency_backoff:
  assumes "BACKOFF_INITIAL_S \<le> b" and "b \<le> BACKOFF_CAP_S" and "residency_turn ord i res me fail a st b now = (a1, st1, b1, p)"
  shows "BACKOFF_INITIAL_S \<le> b1" and "b1 \<le> BACKOFF_CAP_S"
  using assms by (auto simp: residency_turn_def BACKOFF_INITIAL_S_def BACKOFF_CAP_S_def split: prod.splits bool.splits)

text \<open>One subscriber that raises does not keep the others from the notification.\<close>

lemma dispatch_isolated:
  assumes "loads payload = Inr (JObj p)" and "\<And>s. call cb p s = (Some e, s)"
  shows "dispatch_payload loads call (xs @ cb # ys) payload s = dispatch_payload loads call (xs @ ys) payload s"
  using assms by (simp add: dispatch_payload_def)

end
