(* ===== verification/Shard_Uri.thy ===== *)
theory Shard_Uri
  imports Builder Text
begin

text \<open>
  Names of immutable shards, \<open>adapters/storage/shard_uri.py\<close>: building, parsing and telling the older
  scheme apart. \<open>digest\<close> is the SHA-256 of the content in hexadecimal.
\<close>

record shard_name =
  sn_bucket :: string
  sn_tenant :: string
  sn_dataset :: string
  sn_shard :: string
  sn_hash :: string

definition HASH_LEN :: nat where
  "HASH_LEN = 16"

definition hex_digit :: "char \<Rightarrow> bool" where
  "hex_digit c \<longleftrightarrow> c \<in> set ''0123456789abcdef''"

definition build_uri :: "('c \<Rightarrow> string) \<Rightarrow> string \<Rightarrow> string \<Rightarrow> string \<Rightarrow> string \<Rightarrow> 'c \<Rightarrow> uri" where
  "build_uri digest bucket t d shard content =
     ''s3://'' @ bucket @ ''/'' @ t @ ''/'' @ d @ ''/'' @ shard @ ''-'' @ take HASH_LEN (digest content) @ ''.bin''"

definition parse_uri :: "uri \<Rightarrow> pyexc + shard_name" where
  "parse_uri u =
     (if \<not> starts_with ''s3://'' u then Inl (ValueError ''not an s3:// URI'')
      else case split_on CHR ''/'' (drop 5 u) of
          [bucket, t, d, filename] \<Rightarrow>
            if bucket = [] \<or> t = [] \<or> d = [] \<or> filename = [] then Inl (ValueError ''empty path component in URI'')
            else if \<not> ends_with ''.bin'' filename then Inl (ValueError ''shard URI must end with .bin'')
            else
              let stem = take (length filename - 4) filename in
              if CHR ''-'' \<notin> set stem then Inl (ValueError ''shard URI is missing the content-hash suffix'')
              else
                let shard = before_last CHR ''-'' stem; content_hash = after_last CHR ''-'' stem in
                if shard = [] then Inl (ValueError ''shard URI has empty shard_id'')
                else if length content_hash \<noteq> HASH_LEN \<or> \<not> list_all hex_digit content_hash
                then Inl (ValueError ''content-hash suffix must be 16 lowercase hex chars'')
                else Inr \<lparr>sn_bucket = bucket, sn_tenant = t, sn_dataset = d, sn_shard = shard, sn_hash = content_hash\<rparr>
        | _ \<Rightarrow> Inl (ValueError ''versioned shard URI must have shape s3://bucket/tenant/dataset/<file>''))"

definition is_legacy :: "uri \<Rightarrow> bool" where
  "is_legacy u =
     (if \<not> starts_with ''s3://'' u then False
      else if \<not> ends_with ''.bin'' u then False
      else case parse_uri u of
          Inr _ \<Rightarrow> False
        | Inl _ \<Rightarrow> starts_with ''shard-'' (if CHR ''/'' \<in> set u then after_last CHR ''/'' u else u))"

section \<open>Names and their text\<close>

definition name_ok :: "shard_name \<Rightarrow> bool" where
  "name_ok n \<longleftrightarrow> list_all (\<lambda>p. p \<noteq> [] \<and> CHR ''/'' \<notin> set p) [sn_bucket n, sn_tenant n, sn_dataset n, sn_shard n] \<and>
     length (sn_hash n) = HASH_LEN \<and> list_all hex_digit (sn_hash n)"

definition name_text :: "shard_name \<Rightarrow> uri" where
  "name_text n = ''s3://'' @ sn_bucket n @ ''/'' @ sn_tenant n @ ''/'' @ sn_dataset n @ ''/'' @ sn_shard n @ ''-'' @ sn_hash n @ ''.bin''"

lemma split_on_join: "split_on c s = ps \<Longrightarrow> s = join [c] ps \<and> (\<forall>p \<in> set ps. c \<notin> set p) \<and> ps \<noteq> []"
proof (induction s arbitrary: ps)
  case (Cons x xs)
  obtain p ps' where p: "split_on c xs = p # ps'" using Cons.IH[of "split_on c xs"] by (cases "split_on c xs") auto
  have ih: "xs = join [c] (p # ps')" "\<forall>q \<in> set (p # ps'). c \<notin> set q" using Cons.IH[OF p] by auto
  show ?case
  proof (cases "x = c")
    case True
    then have "ps = [] # p # ps'" using Cons.prems p by simp
    then show ?thesis using True ih by (simp add: join_Cons)
  next
    case False
    then have "ps = (x # p) # ps'" using Cons.prems p by simp
    then show ?thesis using False ih by (cases ps') (simp_all add: join_Cons)
  qed
qed (auto simp: join_def)

lemma hex_plain: "list_all hex_digit h \<Longrightarrow> CHR ''/'' \<notin> set h \<and> CHR ''-'' \<notin> set h"
proof -
  have "\<not> hex_digit CHR ''/''" "\<not> hex_digit CHR ''-''" by (simp_all add: hex_digit_def)
  moreover assume "list_all hex_digit h"
  ultimately show ?thesis unfolding list_all_iff by blast
qed

lemma split_four:
  assumes "CHR ''/'' \<notin> set a" and "CHR ''/'' \<notin> set b" and "CHR ''/'' \<notin> set d" and "CHR ''/'' \<notin> set f"
  shows "split_on CHR ''/'' (a @ ''/'' @ b @ ''/'' @ d @ ''/'' @ f) = [a, b, d, f]"
  using split_on_Cons[OF assms(1), of "b @ ''/'' @ d @ ''/'' @ f"] split_on_Cons[OF assms(2), of "d @ ''/'' @ f"]
    split_on_Cons[OF assms(3), of f] split_on_part[OF assms(4)] by simp

lemma ends_with_take: "ends_with x s \<Longrightarrow> take (length s - length x) s @ x = s"
  using append_take_drop_id[of "length s - length x" s] by (simp add: ends_with_def)

lemma parse_name_text:
  assumes "name_ok n"
  shows "parse_uri (name_text n) = Inr n"
proof -
  let ?f = "sn_shard n @ ''-'' @ sn_hash n @ ''.bin''"
  have h: "CHR ''/'' \<notin> set (sn_hash n)" "CHR ''-'' \<notin> set (sn_hash n)"
    using assms hex_plain by (auto simp: name_ok_def)
  have "split_on CHR ''/'' (sn_bucket n @ ''/'' @ sn_tenant n @ ''/'' @ sn_dataset n @ ''/'' @ ?f) =
      [sn_bucket n, sn_tenant n, sn_dataset n, ?f]"
    using assms h by (intro split_four) (auto simp: name_ok_def)
  moreover have "take (length ?f - 4) ?f = sn_shard n @ CHR ''-'' # sn_hash n" by simp
  moreover have "ends_with ''.bin'' ?f" by (simp add: ends_with_def)
  ultimately show ?thesis
    using assms h by (simp add: parse_uri_def name_text_def starts_with_def name_ok_def before_last_append after_last_append Let_def)
qed

lemma parse_uri_text:
  assumes "parse_uri u = Inr n"
  shows "name_ok n" and "u = name_text n"
proof -
  have s: "starts_with ''s3://'' u" using assms by (auto simp: parse_uri_def split: if_splits)
  obtain ps where ps: "split_on CHR ''/'' (drop 5 u) = ps" by blast
  have j: "drop 5 u = join ''/'' ps" "\<forall>p \<in> set ps. CHR ''/'' \<notin> set p" using split_on_join[OF ps] by simp_all
  obtain b t d f where four: "ps = [b, t, d, f]"
    using assms s ps by (auto simp: parse_uri_def split: list.splits if_splits)
  let ?stem = "take (length f - 4) f"
  note run = assms[unfolded parse_uri_def ps four, simplified]
  have c: "b \<noteq> []" "t \<noteq> []" "d \<noteq> []" "ends_with ''.bin'' f" "CHR ''-'' \<in> set ?stem" "before_last CHR ''-'' ?stem \<noteq> []"
    "length (after_last CHR ''-'' ?stem) = HASH_LEN" "list_all hex_digit (after_last CHR ''-'' ?stem)"
    and n: "n = \<lparr>sn_bucket = b, sn_tenant = t, sn_dataset = d, sn_shard = before_last CHR ''-'' ?stem, sn_hash = after_last CHR ''-'' ?stem\<rparr>"
    using run s by (auto simp: Let_def split: if_splits)
  have "?stem @ ''.bin'' = f" using ends_with_take[OF c(4)] by (simp add: eval_nat_numeral)
  then have f: "f = before_last CHR ''-'' ?stem @ ''-'' @ after_last CHR ''-'' ?stem @ ''.bin''"
    using rpartition[OF c(5)] by (metis append_Cons append_Nil append_assoc)
  have "take 5 u = ''s3://''" using s by (simp add: starts_with_def eval_nat_numeral)
  then have u: "u = ''s3://'' @ drop 5 u" by (metis append_take_drop_id)
  show "u = name_text n" using u j(1) f four by (simp add: n name_text_def join_Cons)
  have "CHR ''/'' \<notin> set (before_last CHR ''-'' ?stem)"
    using j(2) f four by (metis UnCI list.set_intros set_append)
  then show "name_ok n" using c j(2) four by (simp add: n name_ok_def)
qed

lemma build_name:
  "length h = HASH_LEN \<Longrightarrow> build_uri (\<lambda>x. x) b t d s h = name_text \<lparr>sn_bucket = b, sn_tenant = t, sn_dataset = d, sn_shard = s, sn_hash = h\<rparr>"
  by (simp add: build_uri_def name_text_def)

text \<open>
  C12. Shard names round trip. Parsing a URI gives a name exactly when that name is well-formed, with no
  empty or slashed part and sixteen hexadecimal digits of hash, and building it gives the URI back; so
  the text of a name determines its parts, and no URI is taken for both the versioned and the older
  scheme.
\<close>

theorem shard_uri_roundtrip:
  "(parse_uri u = Inr n \<longleftrightarrow>
     name_ok n \<and> u = build_uri (\<lambda>x. x) (sn_bucket n) (sn_tenant n) (sn_dataset n) (sn_shard n) (sn_hash n)) \<and>
   \<not> (is_legacy u \<and> parse_uri u = Inr n)"
proof -
  have "parse_uri u = Inr n \<longleftrightarrow> name_ok n \<and> u = name_text n" using parse_name_text parse_uri_text by blast
  moreover have "name_text n = build_uri (\<lambda>x. x) (sn_bucket n) (sn_tenant n) (sn_dataset n) (sn_shard n) (sn_hash n)" if "name_ok n"
    using that by (cases n) (simp add: name_ok_def build_name)
  ultimately show ?thesis by (auto simp: is_legacy_def)
qed

text \<open>The builder names its shards by this function when versioned names are on.\<close>

lemma builder_names:
  "be_versioned env \<Longrightarrow> compute_shard_uri env k fr =
    build_uri (\<lambda>_. fr_hash fr) (takeWhile (\<lambda>c. c \<noteq> CHR ''/'') (drop 5 (be_indexes env))) (fst k) (snd k) (fr_shard fr) ()"
  by (simp add: compute_shard_uri_def build_uri_def HASH_LEN_def)

end
