(* ===== verification/Accounts_Api.thy ===== *)
theory Accounts_Api
  imports Auth
begin

text \<open>
  The \<open>/auth\<close> surface, \<open>services/auth/auth.py\<close>: signup, login, the caller's tenant and usage, and the
  API keys, with the handlers that turn exceptions into the v1 envelope. The body is the request's
  bytes; an exception that escapes a handler is \<open>Inl\<close>.
\<close>

section \<open>Configuration\<close>

text \<open>
  \<open>ao_loads\<close> is \<open>json.loads\<close>, \<open>ao_email\<close> the validation and normalisation of \<open>EmailStr\<close>, None when it
  refuses; \<open>ao_hashpw\<close> takes the salt and the password, \<open>ao_checkpw\<close> the password and the hash.
\<close>

record acfg =
  ao_required :: bool
  ao_memory :: bool
  ao_quotas_enabled :: bool
  ao_quotas :: "int \<times> int"
  ao_jwt :: jwt
  ao_sha256 :: "string \<Rightarrow> string"
  ao_loads :: "string \<Rightarrow> pyexc + json"
  ao_email :: "json \<Rightarrow> string option"
  ao_hashpw :: "string \<Rightarrow> string \<Rightarrow> pyexc + string"
  ao_checkpw :: "string \<Rightarrow> string \<Rightarrow> pyexc + bool"
  ao_ts :: "time \<Rightarrow> string"
  ao_day :: "day \<Rightarrow> string"

text \<open>The random values of a request: UUIDs in hexadecimal, the salt and the body of a key.\<close>

record entropy =
  en_tenant :: string
  en_salt :: string
  en_key_id :: string
  en_body :: string

section \<open>Helpers\<close>

definition auth_err :: "int \<Rightarrow> string \<Rightarrow> string \<Rightarrow> response" where
  "auth_err status_code code message = error_envelope status_code code message None"

definition auth_disabled_404 :: response where
  "auth_disabled_404 = auth_err 404 ''auth_disabled''
     ''Auth is disabled on this deployment. Set RB_REQUIRE_AUTH=true to enable signup/login and per-tenant API keys.''"

definition stringify_created_at :: "acfg \<Rightarrow> time option \<Rightarrow> string" where
  "stringify_created_at cfg v = (case v of None \<Rightarrow> [] | Some t \<Rightarrow> ao_ts cfg t)"

definition tenant_response :: "acfg \<Rightarrow> tenant \<Rightarrow> tenant_row \<Rightarrow> json" where
  "tenant_response cfg t r = JObj
     [(''id'', JStr t), (''email'', JStr (tn_email r)), (''plan'', JStr (tn_plan r)),
      (''created_at'', JStr (stringify_created_at cfg (Some (tn_created r))))]"

definition stamp_json :: "acfg \<Rightarrow> time option \<Rightarrow> json" where
  "stamp_json cfg v = (case v of None \<Rightarrow> JNull | Some t \<Rightarrow> JStr (stringify_created_at cfg (Some t)))"

definition api_key_response :: "acfg \<Rightarrow> key_row \<Rightarrow> string option \<Rightarrow> json" where
  "api_key_response cfg r raw_key = JObj
     ([(''id'', JStr (kr_id r)), (''name'', JStr (kr_name r)),
       (''created_at'', JStr (stringify_created_at cfg (Some (kr_created r)))),
       (''last_used_at'', stamp_json cfg (kr_last r)), (''revoked_at'', stamp_json cfg (kr_revoked r))] @
      (case raw_key of None \<Rightarrow> [] | Some k \<Rightarrow> [(''key'', JStr k)]))"

definition generate_api_key :: "string \<Rightarrow> pyexc + string" where
  "generate_api_key body = (if length body = 32 then Inr (''rb_live_'' @ body) else Inl (OtherError ''AssertionError''))"

definition issue_api_key :: "acfg \<Rightarrow> accounts \<Rightarrow> tenant \<Rightarrow> string \<Rightarrow> entropy \<Rightarrow> time \<Rightarrow> (pyexc + json) \<times> accounts" where
  "issue_api_key cfg a t name en now =
     (case generate_api_key (en_body en) of
        Inl e \<Rightarrow> (Inl e, a)
      | Inr raw \<Rightarrow>
         (case create_api_key (ao_memory cfg) a (''key_'' @ en_key_id en) t (ao_sha256 cfg raw) name now of
            (Inl e, a1) \<Rightarrow> (Inl e, a1)
          | (Inr row, a1) \<Rightarrow> (Inr (api_key_response cfg row (Some raw)), a1)))"

text \<open>Every failure of decoding is a \<open>ValueError\<close>; other exceptions of \<open>json.loads\<close> escape.\<close>

definition read_json :: "acfg \<Rightarrow> string \<Rightarrow> pyexc + meta" where
  "read_json cfg body =
     (if body = [] then Inl (ValueError ''empty body'')
      else case ao_loads cfg body of
          Inl e \<Rightarrow> Inl e
        | Inr (JObj fs) \<Rightarrow> Inr fs
        | Inr _ \<Rightarrow> Inl (ValueError ''body must be an object''))"

definition json_truthy :: "json \<Rightarrow> bool" where
  "json_truthy j = (case j of
     JNull \<Rightarrow> False | JBool b \<Rightarrow> b | JInt n \<Rightarrow> n \<noteq> 0 | JFloat x \<Rightarrow> x \<noteq> Fin 0 | JStr s \<Rightarrow> s \<noteq> []
   | JList xs \<Rightarrow> xs \<noteq> [] | JObj fs \<Rightarrow> fs \<noteq> [])"

definition body_field :: "meta \<Rightarrow> string \<Rightarrow> json" where
  "body_field fs k = dget_or fs k JNull"

text \<open>
  The pydantic model sees the password or, when that is falsy, eight letters; so it refuses a password
  that is neither falsy nor a text together with a malformed email.
\<close>

definition valid_email :: "acfg \<Rightarrow> meta \<Rightarrow> string option" where
  "valid_email cfg fs =
     (case body_field fs ''password'' of
        JStr _ \<Rightarrow> ao_email cfg (body_field fs ''email'')
      | p \<Rightarrow> if json_truthy p then None else ao_email cfg (body_field fs ''email''))"

section \<open>Signup and login\<close>

definition signup :: "acfg \<Rightarrow> string \<Rightarrow> accounts \<Rightarrow> entropy \<Rightarrow> day \<Rightarrow> time \<Rightarrow> (pyexc + response) \<times> accounts" where
  "signup cfg body a en today now =
     (if \<not> ao_required cfg then (Inr auth_disabled_404, a)
      else case read_json cfg body of
          Inl (ValueError _) \<Rightarrow> (Inr (auth_err 400 ''invalid_email'' ''Request body must be JSON with email and password''), a)
        | Inl e \<Rightarrow> (Inl e, a)
        | Inr fs \<Rightarrow>
           (case valid_email cfg fs of
              None \<Rightarrow> (Inr (auth_err 400 ''invalid_email'' ''Email address is malformed''), a)
            | Some email \<Rightarrow>
                let weak = (Inr (auth_err 400 ''weak_password'' ''Password must be at least 8 characters''), a) in
                case body_field fs ''password'' of
                  JStr password \<Rightarrow>
                    if length password < 8 then weak
                    else (case ao_hashpw cfg (en_salt en) password of
                        Inl e \<Rightarrow> (Inl e, a)
                      | Inr h \<Rightarrow>
                          let t = ''ten_'' @ en_tenant en in
                          case create_tenant (ao_memory cfg) a t email h (ao_quotas cfg) today now of
                            (Inl e, a1) \<Rightarrow>
                              ((if e = ValueError ''duplicate_email''
                                then Inr (auth_err 409 ''email_taken'' ''An account with that email already exists'') else Inl e), a1)
                          | (Inr row, a1) \<Rightarrow>
                             (case issue_api_key cfg a1 t ''Default'' en now of
                                (Inl e, a2) \<Rightarrow> (Inl e, a2)
                              | (Inr first, a2) \<Rightarrow>
                                  (Inr (201, JObj [(''token'', JStr (encode_jwt (ao_jwt cfg) t now TOKEN_TTL_SECONDS)),
                                     (''tenant'', tenant_response cfg t row), (''first_api_key'', first)]), a2)))
                | _ \<Rightarrow> weak))"

definition invalid_credentials :: response where
  "invalid_credentials = auth_err 401 ''invalid_credentials'' ''Invalid email or password''"

definition login :: "acfg \<Rightarrow> string \<Rightarrow> accounts \<Rightarrow> time \<Rightarrow> pyexc + response" where
  "login cfg body a now =
     (if \<not> ao_required cfg then Inr auth_disabled_404
      else case read_json cfg body of
          Inl (ValueError _) \<Rightarrow> Inr invalid_credentials
        | Inl e \<Rightarrow> Inl e
        | Inr fs \<Rightarrow>
           (case (body_field fs ''email'', body_field fs ''password'') of
              (JStr email, JStr password) \<Rightarrow>
               (case get_tenant_by_email (ao_memory cfg) a email of
                  None \<Rightarrow> Inr invalid_credentials
                | Some (t, row) \<Rightarrow>
                   (case ao_checkpw cfg password (tn_password row) of
                      Inl (ValueError _) \<Rightarrow> Inr invalid_credentials
                    | Inl e \<Rightarrow> if e = OtherError ''TypeError'' then Inr invalid_credentials else Inl e
                    | Inr False \<Rightarrow> Inr invalid_credentials
                    | Inr True \<Rightarrow>
                        Inr (200, JObj [(''token'', JStr (encode_jwt (ao_jwt cfg) t now TOKEN_TTL_SECONDS)), (''tenant'', tenant_response cfg t row)])))
            | _ \<Rightarrow> Inr invalid_credentials))"

section \<open>The caller\<close>

text \<open>
  Endpoints that depend on the caller's tenant: the dependency answers 401 before the handler runs.
\<close>

definition with_tenant ::
  "acfg \<Rightarrow> string option \<Rightarrow> time \<Rightarrow> (tenant \<Rightarrow> accounts \<Rightarrow> auth_cache \<Rightarrow> (pyexc + response) \<times> accounts \<times> auth_cache)
   \<Rightarrow> accounts \<Rightarrow> auth_cache \<Rightarrow> (pyexc + response) \<times> accounts \<times> auth_cache" where
  "with_tenant cfg authorization now handler a c =
     (case current_tenant_id (ao_sha256 cfg) (ao_jwt cfg) (ao_required cfg) (ao_memory cfg) a c authorization now of
        (None, a1, c1) \<Rightarrow> (Inr unauthorized, a1, c1)
      | (Some t, a1, c1) \<Rightarrow> if \<not> ao_required cfg then (Inr auth_disabled_404, a1, c1) else handler t a1 c1)"

definition me_endpoint :: "acfg \<Rightarrow> string option \<Rightarrow> accounts \<Rightarrow> auth_cache \<Rightarrow> time \<Rightarrow> (pyexc + response) \<times> accounts \<times> auth_cache" where
  "me_endpoint cfg authorization a c now = with_tenant cfg authorization now (\<lambda>t a1 c1.
     (Inr (case get_tenant_by_id a1 t of
             None \<Rightarrow> unauthorized
           | Some row \<Rightarrow> (200, JObj [(''tenant'', tenant_response cfg t row)])), a1, c1)) a c"

definition usage_json :: "acfg \<Rightarrow> usage \<Rightarrow> json" where
  "usage_json cfg u = JObj
     [(''vectors_used'', JInt (us_vectors u)), (''vector_quota'', JInt (us_vector_quota u)), (''queries_today'', JInt (us_queries u)),
      (''daily_query_quota'', JInt (us_query_quota u)), (''queries_reset_at'', JStr (ao_day cfg (us_reset u)))]"

text \<open>This endpoint answers without authentication switched on, so it does not share the 404.\<close>

definition usage_endpoint ::
  "acfg \<Rightarrow> string option \<Rightarrow> accounts \<Rightarrow> auth_cache \<Rightarrow> day \<Rightarrow> time \<Rightarrow> response \<times> accounts \<times> auth_cache" where
  "usage_endpoint cfg authorization a c today now =
     (let disabled = (200, JObj [(''enabled'', JBool False)]) in
      case current_tenant_id (ao_sha256 cfg) (ao_jwt cfg) (ao_required cfg) (ao_memory cfg) a c authorization now of
        (None, a1, c1) \<Rightarrow> (unauthorized, a1, c1)
      | (Some t, a1, c1) \<Rightarrow>
          if \<not> ao_required cfg then (disabled, a1, c1)
          else if \<not> ao_quotas_enabled cfg
          then ((if get_tenant_by_id a1 t = None then unauthorized else disabled), a1, c1)
          else (case get_usage (ao_memory cfg) a1 t today of
              (Inl _, a2) \<Rightarrow> (unauthorized, a2, c1)
            | (Inr u, a2) \<Rightarrow> ((200, usage_json cfg u), a2, c1)))"

section \<open>API keys\<close>

definition create_key ::
  "acfg \<Rightarrow> string \<Rightarrow> string option \<Rightarrow> accounts \<Rightarrow> entropy \<Rightarrow> time \<Rightarrow> (pyexc + response) \<times> accounts" where
  "create_key cfg body authorization a en now =
     (case current_tenant_id_jwt_only (ao_jwt cfg) (ao_required cfg) authorization now of
        None \<Rightarrow> (Inr unauthorized, a)
      | Some t \<Rightarrow>
          if \<not> ao_required cfg then (Inr auth_disabled_404, a)
          else case read_json cfg body of
              Inl (ValueError _) \<Rightarrow> (Inr (auth_err 400 ''invalid_name'' (''Body must be JSON with a '' @ [CHR 0x60] @ ''name'' @ [CHR 0x60] @ '' field'')), a)
            | Inl e \<Rightarrow> (Inl e, a)
            | Inr fs \<Rightarrow>
                let bad = (Inr (auth_err 400 ''invalid_name'' ''name must be 1-64 characters''), a) in
                case body_field fs ''name'' of
                  JStr name \<Rightarrow>
                    if \<not> (1 \<le> length name \<and> length name \<le> 64) then bad
                    else (case issue_api_key cfg a t name en now of
                        (Inl e, a1) \<Rightarrow> (Inl e, a1)
                      | (Inr payload, a1) \<Rightarrow> (Inr (201, payload), a1))
                | _ \<Rightarrow> bad)"

definition list_keys :: "acfg \<Rightarrow> string option \<Rightarrow> accounts \<Rightarrow> auth_cache \<Rightarrow> time \<Rightarrow> (pyexc + response) \<times> accounts \<times> auth_cache" where
  "list_keys cfg authorization a c now = with_tenant cfg authorization now (\<lambda>t a1 c1.
     (Inr (200, JObj [(''keys'', JList (map (\<lambda>r. api_key_response cfg r None) (list_api_keys (ao_memory cfg) a1 t)))]), a1, c1)) a c"

definition no_key :: response where
  "no_key = auth_err 404 ''not_found'' ''API key not found''"

text \<open>The 404 is raised as an \<open>HTTPException\<close>; the handler below makes it this response.\<close>

definition revoke_key ::
  "acfg \<Rightarrow> string \<Rightarrow> string option \<Rightarrow> accounts \<Rightarrow> auth_cache \<Rightarrow> time \<Rightarrow> (pyexc + response) \<times> accounts \<times> auth_cache" where
  "revoke_key cfg key_id authorization a c now = with_tenant cfg authorization now (\<lambda>t a1 c1.
     (case get_api_key a1 key_id t of
        None \<Rightarrow> (Inr no_key, a1, c1)
      | Some row \<Rightarrow>
          if kr_revoked row \<noteq> None then (Inr no_key, a1, c1)
          else (Inr (204, JNull), snd (revoke_api_key (ao_memory cfg) a1 key_id t now), bust_api_key_cache_by_hash c1 (kr_hash row)))) a c"

section \<open>Exception handlers\<close>

text \<open>The status decides the code of an exception raised with a plain detail; \<open>txt\<close> is \<open>str(detail)\<close>.\<close>

definition http_exc_handler :: "(json \<Rightarrow> string) \<Rightarrow> int \<Rightarrow> json \<Rightarrow> response" where
  "http_exc_handler txt status_code detail =
     (let plain = (let code = (if status_code = 400 then ''invalid_request'' else if status_code = 401 then ''unauthorized''
                               else if status_code = 404 then ''not_found'' else if status_code = 409 then ''conflict''
                               else ''internal_error'')
                   in (status_code, JObj [(''error'', JObj [(''code'', JStr code), (''message'', JStr (txt detail))])])) in
      case detail of
        JObj d \<Rightarrow>
         (case dget d ''code'' of
            Some code \<Rightarrow> (status_code, JObj [(''error'', JObj [(''code'', code), (''message'', dget_or d ''message'' (JStr []))])])
          | None \<Rightarrow> plain)
      | _ \<Rightarrow> plain)"

definition validation_handler :: "json list \<Rightarrow> response" where
  "validation_handler errors =
     error_envelope 400 ''invalid_request'' ''Request validation failed'' (Some [(''errors'', JList errors)])"

definition pool_exhausted_handler :: response where
  "pool_exhausted_handler = auth_err 503 ''service_unavailable'' ''Service temporarily unavailable, please retry''"

lemma raised_responses:
  "http_exc_handler txt 401 (JObj [(''code'', JStr ''unauthorized''), (''message'', JStr ''Missing or invalid credentials'')]) = unauthorized"
  "http_exc_handler txt 404 (JObj [(''code'', JStr ''not_found''), (''message'', JStr ''API key not found'')]) = no_key"
  by (simp_all add: http_exc_handler_def unauthorized_def no_key_def auth_err_def error_envelope_def dget_or_def)

end
