(* ===== verification/Accounts_Properties.thy ===== *)
theory Accounts_Properties
  imports Accounts_Api Auth_Properties
begin

text \<open>
  The life of an account: what signup hands out works until it expires or is revoked, and no longer.
\<close>

section \<open>The row of a new key\<close>











section \<open>The tenant of a signup\<close>




lemma signed_up:
  assumes "ao_required cfg" and "read_json cfg body = Inr fs" and "body_field fs ''password'' = JStr pw"
    and "ao_email cfg (body_field fs ''email'') = Some email" and "signup cfg body a en today now = (Inr (201, resp), a1)"
  obtains h row a0 kr where "8 \<le> length pw" and "ao_hashpw cfg (en_salt en) pw = Inr h"
    and "create_tenant (ao_memory cfg) a (''ten_'' @ en_tenant en) email h (ao_quotas cfg) today now = (Inr row, a0)"
    and "create_api_key (ao_memory cfg) a0 (''key_'' @ en_key_id en) (''ten_'' @ en_tenant en) (ao_sha256 cfg (''rb_live_'' @ en_body en)) ''Default'' now = (Inr kr, a1)"
    and "resp = JObj [(''token'', JStr (encode_jwt (ao_jwt cfg) (''ten_'' @ en_tenant en) now TOKEN_TTL_SECONDS)),
      (''tenant'', tenant_response cfg (''ten_'' @ en_tenant en) row),
      (''first_api_key'', api_key_response cfg kr (Some (''rb_live_'' @ en_body en)))]"
proof -
  have "valid_email cfg fs = Some email" using assms(3,4) by (simp add: valid_email_def)
  then show ?thesis using that assms(1,2,3,5)
    by (fastforce simp: signup_def Let_def auth_err_def error_envelope_def issue_api_key_def generate_api_key_def
      split: if_splits sum.splits prod.splits)
qed

section \<open>The life of an account\<close>






text \<open>
  Signup stores the normalised email, login looks the typed one up: an email that was not typed in
  normal form opens an account its owner cannot log in to with the same text.
\<close>

lemma typed_email_cannot_login:
  assumes "ao_required cfg" and "read_json cfg body = Inr fs" and "body_field fs ''password'' = JStr pw" and "body_field fs ''email'' = JStr typed"
    and "ao_email cfg (JStr typed) = Some email" and "email \<noteq> typed" and "get_tenant_by_email (ao_memory cfg) a typed = None"
    and "dget (ac_emails a) typed = None" and "signup cfg body a en today now = (Inr (201, resp), a1)"
  shows "login cfg body a1 n = Inr invalid_credentials"
proof -
  obtain h row a0 kr where ct: "create_tenant (ao_memory cfg) a (''ten_'' @ en_tenant en) email h (ao_quotas cfg) today now = (Inr row, a0)"
    and ck: "create_api_key (ao_memory cfg) a0 (''key_'' @ en_key_id en) (''ten_'' @ en_tenant en) (ao_sha256 cfg (''rb_live_'' @ en_body en)) ''Default'' now = (Inr kr, a1)"
    by (rule signed_up[OF assms(1,2,3) _ assms(9)]) (use assms(4,5) in simp)
  have "ac_tenants a1 = ac_tenants a0" "ac_emails a1 = ac_emails a0"
    using ck by (auto simp: create_api_key_def mq_create_api_key_def pq_create_api_key_def split: if_splits)
  then have "get_tenant_by_email (ao_memory cfg) a1 typed = None"
    using ct assms(6-8)
    by (auto simp: create_tenant_def mq_create_tenant_def pq_create_tenant_def get_tenant_by_email_def mq_get_tenant_by_email_def
      pq_get_tenant_by_email_def set_tenant_def new_tenant_def pdict_simps dset_notin find_append map_add_def Let_def split: if_splits prod.splits)
  then show ?thesis using assms(1-4) by (simp add: login_def)
qed

text \<open>A login that fails does not tell why.\<close>

lemma login_uniform:
  assumes "ao_required cfg" and "login cfg body a now = Inr r"
  shows "r = invalid_credentials \<or> fst r = 200"
  using assms by (auto simp: login_def split: sum.splits json.splits option.splits bool.splits pyexc.splits if_splits)

section \<open>A configuration that meets the laws\<close>



















end
