(* ===== verification/Pooling.thy ===== *)
theory Pooling
  imports Errors
begin

text \<open>
  Connections to the database: the checkout with a deadline and the two modes of \<open>pooled_conn\<close>
  (\<open>adapters/state/pooling.py\<close>, and the recall tier's copy in \<open>adapters/recall\<close>), and the connection
  of a request (\<open>adapters/state/conn_middleware.py\<close>). The pool of psycopg2 and the transactions of a
  connection are parameters.
\<close>

section \<open>The driver\<close>

text \<open>
  \<open>pl_get\<close> takes a connection or raises \<open>PoolError\<close>, None here; \<open>pl_put\<close> gives it back. \<open>pl_commit\<close> and
  \<open>pl_rollback\<close> end the transaction of a connection and may raise.
\<close>

type_synonym conn = nat

record ('p, 'd) driver =
  pl_get :: "'p \<Rightarrow> conn option \<times> 'p"
  pl_put :: "conn \<Rightarrow> 'p \<Rightarrow> 'p"
  pl_commit :: "conn \<Rightarrow> 'd \<Rightarrow> pyexc option \<times> 'd"
  pl_rollback :: "conn \<Rightarrow> 'd \<Rightarrow> pyexc option \<times> 'd"

text \<open>The state of a process: the pool, the data, the context variable \<open>_REQUEST_CONN\<close> and what was asked of the driver.\<close>

datatype pool_event = Checkout conn | Committed conn | Undone conn | Returned conn

record ('p, 'd) session =
  ss_pool :: 'p
  ss_data :: 'd
  ss_bound :: "conn option"
  ss_log :: "pool_event list"

datatype conn_exc = CheckoutTimeout | Raised pyexc

section \<open>The checkout\<close>

definition POOL_CHECKOUT_POLL_S :: rat where
  "POOL_CHECKOUT_POLL_S = 15 / 1000"

text \<open>
  \<open>others i\<close> is what other threads do to the pool during the \<open>i\<close>-th pause, \<open>clock i\<close> the time passed
  since the start when the \<open>i\<close>-th attempt has failed. None: out of fuel.
\<close>

fun getconn_with_timeout ::
  "('p, 'd) driver \<Rightarrow> (nat \<Rightarrow> 'p \<Rightarrow> 'p) \<Rightarrow> (nat \<Rightarrow> rat) \<Rightarrow> rat \<Rightarrow> nat \<Rightarrow> nat \<Rightarrow> 'p \<Rightarrow> ((conn_exc + conn) \<times> 'p) option" where
  "getconn_with_timeout dr others clock deadline i 0 p = None"
| "getconn_with_timeout dr others clock deadline i (Suc n) p =
     (case pl_get dr p of
        (Some c, p1) \<Rightarrow> Some (Inr c, p1)
      | (None, p1) \<Rightarrow>
          if clock i \<ge> deadline then Some (Inl CheckoutTimeout, p1)
          else getconn_with_timeout dr others clock deadline (Suc i) n (others i p1))"

text \<open>The clock moves at least the pause between two attempts.\<close>

definition ticks :: "(nat \<Rightarrow> rat) \<Rightarrow> bool" where
  "ticks clock \<longleftrightarrow> (\<forall>i. clock i + POOL_CHECKOUT_POLL_S \<le> clock (Suc i)) \<and> 0 \<le> clock 0"

lemma ticks_grow: "ticks clock \<Longrightarrow> of_nat i * POOL_CHECKOUT_POLL_S \<le> clock i"
proof (induction i)
  case (Suc i)
  have "of_nat (Suc i) * POOL_CHECKOUT_POLL_S = of_nat i * POOL_CHECKOUT_POLL_S + POOL_CHECKOUT_POLL_S" by (simp add: algebra_simps)
  also have "\<dots> \<le> clock i + POOL_CHECKOUT_POLL_S" using Suc by simp
  also have "\<dots> \<le> clock (Suc i)" using Suc.prems by (simp add: ticks_def)
  finally show ?case .
qed (simp add: ticks_def)

definition checkout_fuel :: "rat \<Rightarrow> nat" where
  "checkout_fuel deadline = Suc (nat \<lceil>deadline / POOL_CHECKOUT_POLL_S\<rceil>)"

lemma checkout_returns_from:
  assumes "ticks clock" and "deadline \<le> of_nat (i + n) * POOL_CHECKOUT_POLL_S"
  shows "\<exists>r. getconn_with_timeout dr others clock deadline i (Suc n) p = Some r"
  using assms(2)
proof (induction n arbitrary: i p)
  case 0
  then have "deadline \<le> clock i" using ticks_grow[OF assms(1), of i] by simp
  then show ?case by (auto split: prod.split option.split)
next
  case (Suc n)
  have "deadline \<le> of_nat (Suc i + n) * POOL_CHECKOUT_POLL_S" using Suc.prems by simp
  from Suc.IH[OF this] show ?case by (subst getconn_with_timeout.simps) (auto split: prod.split option.split)
qed

text \<open>A checkout ends within its deadline, whatever the other threads do.\<close>

lemma checkout_returns:
  assumes "ticks clock"
  shows "\<exists>r. getconn_with_timeout dr others clock deadline 0 (checkout_fuel deadline) p = Some r"
proof -
  have "deadline / POOL_CHECKOUT_POLL_S \<le> of_nat (nat \<lceil>deadline / POOL_CHECKOUT_POLL_S\<rceil>)" by (rule of_nat_ceiling)
  then have "deadline \<le> of_nat (nat \<lceil>deadline / POOL_CHECKOUT_POLL_S\<rceil>) * POOL_CHECKOUT_POLL_S"
    by (simp add: POOL_CHECKOUT_POLL_S_def field_simps)
  then show ?thesis using checkout_returns_from[OF assms, of deadline 0] by (simp add: checkout_fuel_def)
qed

text \<open>The waiting of one process: its other threads, its clock, and the configured deadline.\<close>

record 'p wait_env =
  wt_others :: "nat \<Rightarrow> 'p \<Rightarrow> 'p"
  wt_clock :: "nat \<Rightarrow> rat"
  wt_deadline :: rat

definition checkout :: "('p, 'd) driver \<Rightarrow> 'p wait_env \<Rightarrow> 'p \<Rightarrow> (conn_exc + conn) \<times> 'p" where
  "checkout dr w p =
     (case getconn_with_timeout dr (wt_others w) (wt_clock w) (wt_deadline w) 0 (checkout_fuel (wt_deadline w)) p of
        Some r \<Rightarrow> r | None \<Rightarrow> (Inl CheckoutTimeout, p))"

section \<open>Blocks on a connection\<close>

text \<open>
  The end of a transaction: commit or roll back, give the connection back in every case, and let an
  exception of the driver take the place of the result.
\<close>

definition finish_request_conn :: "('p, 'd) driver \<Rightarrow> conn \<Rightarrow> bool \<Rightarrow> ('p, 'd) session \<Rightarrow> conn_exc option \<times> ('p, 'd) session" where
  "finish_request_conn dr c failed s =
     (let (e, d) = (if failed then pl_rollback dr c (ss_data s) else pl_commit dr c (ss_data s))
      in (map_option Raised e,
          s\<lparr>ss_data := d, ss_pool := pl_put dr c (ss_pool s),
            ss_log := ss_log s @ [if failed then Undone c else Committed c, Returned c]\<rparr>))"

definition finish_conn :: "('p, 'd) driver \<Rightarrow> conn \<Rightarrow> conn_exc + 'r \<Rightarrow> ('p, 'd) session \<Rightarrow> (conn_exc + 'r) \<times> ('p, 'd) session" where
  "finish_conn dr c r s =
     (let (e, s1) = finish_request_conn dr c (isl r) s in (case e of None \<Rightarrow> r | Some x \<Rightarrow> Inl x, s1))"

definition own_conn ::
  "('p, 'd) driver \<Rightarrow> 'p wait_env \<Rightarrow> (conn \<Rightarrow> ('p, 'd) session \<Rightarrow> (conn_exc + 'r) \<times> ('p, 'd) session)
   \<Rightarrow> ('p, 'd) session \<Rightarrow> (conn_exc + 'r) \<times> ('p, 'd) session" where
  "own_conn dr w body s =
     (case checkout dr w (ss_pool s) of
        (Inl e, p) \<Rightarrow> (Inl e, s\<lparr>ss_pool := p\<rparr>)
      | (Inr c, p) \<Rightarrow>
          (let (r, s1) = body c (s\<lparr>ss_pool := p, ss_log := ss_log s @ [Checkout c]\<rparr>) in finish_conn dr c r s1))"

definition pooled_conn ::
  "('p, 'd) driver \<Rightarrow> 'p wait_env \<Rightarrow> bool \<Rightarrow> (conn \<Rightarrow> ('p, 'd) session \<Rightarrow> (conn_exc + 'r) \<times> ('p, 'd) session)
   \<Rightarrow> ('p, 'd) session \<Rightarrow> (conn_exc + 'r) \<times> ('p, 'd) session" where
  "pooled_conn dr w standalone body s =
     (case (if standalone then None else ss_bound s) of Some c \<Rightarrow> body c s | None \<Rightarrow> own_conn dr w body s)"

text \<open>The recall tier has no connection of a request: its blocks always run on their own connection.\<close>

definition recall_pooled_conn ::
  "('p, 'd) driver \<Rightarrow> 'p wait_env \<Rightarrow> (conn \<Rightarrow> ('p, 'd) session \<Rightarrow> (conn_exc + 'r) \<times> ('p, 'd) session)
   \<Rightarrow> ('p, 'd) session \<Rightarrow> (conn_exc + 'r) \<times> ('p, 'd) session" where
  "recall_pooled_conn dr w body s = own_conn dr w body s"

section \<open>The connection of a request\<close>

definition request_scoped_connection ::
  "('p, 'd) driver \<Rightarrow> 'p wait_env \<Rightarrow> bool \<Rightarrow> (('p, 'd) session \<Rightarrow> (conn_exc + 'r) \<times> ('p, 'd) session)
   \<Rightarrow> ('p, 'd) session \<Rightarrow> (conn_exc + 'r) \<times> ('p, 'd) session" where
  "request_scoped_connection dr w memory body s =
     (if memory then body s
      else case checkout dr w (ss_pool s) of
          (Inl e, p) \<Rightarrow> (Inl e, s\<lparr>ss_pool := p\<rparr>)
        | (Inr c, p) \<Rightarrow>
            (let (r, s1) = body (s\<lparr>ss_pool := p, ss_log := ss_log s @ [Checkout c], ss_bound := Some c\<rparr>);
                 (r', s2) = finish_conn dr c r s1
             in (r', s2\<lparr>ss_bound := ss_bound s\<rparr>)))"

definition skips_scope :: "string \<Rightarrow> string \<Rightarrow> bool" where
  "skips_scope verb path \<longleftrightarrow>
     path = ''/healthz'' \<or> path = ''/v1/query'' \<or> starts_with ''/v1/query/status/'' path \<or>
     (verb = ''POST'' \<and> starts_with ''/v1/datasets/'' path \<and> ends_with ''/vectors'' path)"

definition pool_exhausted :: response where
  "pool_exhausted = error_envelope 503 ''service_unavailable'' ''Service temporarily unavailable, please retry'' None"

text \<open>
  What the client was sent and the exception that leaves the middleware: the answer goes out before
  the transaction ends. When ending it raises, the variable stays bound.
\<close>

definition request_middleware ::
  "('p, 'd) driver \<Rightarrow> 'p wait_env \<Rightarrow> bool \<Rightarrow> bool \<Rightarrow> string \<Rightarrow> string \<Rightarrow> (('p, 'd) session \<Rightarrow> (conn_exc + response) \<times> ('p, 'd) session)
   \<Rightarrow> ('p, 'd) session \<Rightarrow> response option \<times> conn_exc option \<times> ('p, 'd) session" where
  "request_middleware dr w memory http verb path app s =
     (let outcome = (\<lambda>r. case r of Inl e \<Rightarrow> (None, Some e) | Inr a \<Rightarrow> (Some a, None)) in
      if \<not> http \<or> skips_scope verb path
      then (let (r, s1) = app s; (a, e) = outcome r in (a, e, s1))
      else if memory
      then (let (r, s1) = app (s\<lparr>ss_bound := None\<rparr>); (a, e) = outcome r in (a, e, s1\<lparr>ss_bound := ss_bound s\<rparr>))
      else case checkout dr w (ss_pool s) of
          (Inl CheckoutTimeout, p) \<Rightarrow> (Some pool_exhausted, None, s\<lparr>ss_pool := p\<rparr>)
        | (Inl e, p) \<Rightarrow> (None, Some e, s\<lparr>ss_pool := p\<rparr>)
        | (Inr c, p) \<Rightarrow>
            (let (r, s1) = app (s\<lparr>ss_pool := p, ss_log := ss_log s @ [Checkout c], ss_bound := Some c\<rparr>);
                 (a, e) = outcome r; (e', s2) = finish_request_conn dr c (isl r) s1
             in case e' of
                  Some x \<Rightarrow> (a, Some x, s2)
                | None \<Rightarrow> (a, e, s2\<lparr>ss_bound := ss_bound s\<rparr>)))"

section \<open>No connection is lost\<close>

text \<open>
  A handler is a sequence of blocks, each with its \<open>standalone\<close> flag; an exception ends it. \<open>tidy\<close>: every
  checkout is followed by one end of its transaction and its return.
\<close>

type_synonym 'd block = "bool \<times> (conn \<Rightarrow> 'd \<Rightarrow> (pyexc + unit) \<times> 'd)"

definition on_data :: "(conn \<Rightarrow> 'd \<Rightarrow> (pyexc + unit) \<times> 'd) \<Rightarrow> conn \<Rightarrow> ('p, 'd) session \<Rightarrow> (conn_exc + unit) \<times> ('p, 'd) session" where
  "on_data body c s = (let (r, d) = body c (ss_data s) in (map_sum Raised id r, s\<lparr>ss_data := d\<rparr>))"

fun run_blocks :: "('p, 'd) driver \<Rightarrow> 'p wait_env \<Rightarrow> 'd block list \<Rightarrow> response \<Rightarrow> ('p, 'd) session \<Rightarrow> (conn_exc + response) \<times> ('p, 'd) session" where
  "run_blocks dr w [] a s = (Inr a, s)"
| "run_blocks dr w ((standalone, body) # bs) a s =
     (case pooled_conn dr w standalone (on_data body) s of
        (Inl e, s1) \<Rightarrow> (Inl e, s1) | (Inr _, s1) \<Rightarrow> run_blocks dr w bs a s1)"

fun tidy :: "pool_event list \<Rightarrow> bool" where
  "tidy [] = True"
| "tidy (Checkout c # x # Returned c' # es) = (c = c' \<and> (x = Committed c \<or> x = Undone c) \<and> tidy es)"
| "tidy _ = False"

lemma tidy_append: "tidy xs \<Longrightarrow> tidy ys \<Longrightarrow> tidy (xs @ ys)"
  by (induction xs rule: tidy.induct) auto

lemma block_events:
  assumes "pooled_conn dr w standalone (on_data body) s = (r, s')"
  shows "ss_bound s' = ss_bound s \<and> (\<exists>es. ss_log s' = ss_log s @ es \<and> tidy es \<and> length es \<le> 3 \<and>
    (ss_bound s \<noteq> None \<and> \<not> standalone \<longrightarrow> es = []))"
  using assms
  by (auto simp: pooled_conn_def own_conn_def on_data_def finish_conn_def finish_request_conn_def Let_def
    split: option.splits if_splits sum.splits prod.splits)

lemma run_blocks_events:
  assumes "run_blocks dr w bs a s = (r, s')"
  shows "ss_bound s' = ss_bound s \<and> (\<exists>es. ss_log s' = ss_log s @ es \<and> tidy es \<and>
    length es \<le> 3 * (if ss_bound s = None then length bs else length (filter fst bs)))"
  using assms
proof (induction bs arbitrary: s)
  case (Cons b bs)
  obtain standalone body where b: "b = (standalone, body)" by fastforce
  obtain r1 s1 where one: "pooled_conn dr w standalone (on_data body) s = (r1, s1)" by fastforce
  obtain es where es: "ss_bound s1 = ss_bound s" "ss_log s1 = ss_log s @ es" "tidy es" "length es \<le> 3"
    "ss_bound s \<noteq> None \<and> \<not> standalone \<longrightarrow> es = []"
    using block_events[OF one] by blast
  show ?case
  proof (cases r1)
    case (Inl e)
    then show ?thesis using Cons.prems b one es by auto
  next
    case (Inr u)
    then have "run_blocks dr w bs a s1 = (r, s')" using Cons.prems b one by simp
    from Cons.IH[OF this] obtain fs where "ss_bound s' = ss_bound s1" "ss_log s' = ss_log s1 @ fs" "tidy fs"
      "length fs \<le> 3 * (if ss_bound s1 = None then length bs else length (filter fst bs))" by blast
    then show ?thesis using es b tidy_append[of es fs] by auto
  qed
qed simp

lemma checkout_fails: "checkout dr w p = (Inl e, p') \<Longrightarrow> e = CheckoutTimeout"
proof -
  have "getconn_with_timeout dr others clock deadline i n p = Some (Inl e, p') \<Longrightarrow> e = CheckoutTimeout" for others clock deadline i n p
    by (induction n arbitrary: i p) (auto split: prod.splits option.splits if_splits)
  then show "checkout dr w p = (Inl e, p') \<Longrightarrow> e = CheckoutTimeout" by (auto simp: checkout_def split: option.splits)
qed

text \<open>
  C17. No request keeps a connection. Whatever blocks a handler runs and wherever it fails: outside the
  request scope each block checks one connection out, ends its transaction and gives it back; inside
  it the request holds one connection, all blocks that are not standalone share it, and at the end it
  is committed exactly when there is an answer and given back in every case; when no connection is
  free within the deadline the answer is a 503 and the handler does not run. The context variable has
  its old value again unless ending the transaction raised.
\<close>

theorem request_returns_connections:
  assumes "request_middleware dr w False http verb path (run_blocks dr w bs a) s = (ans, exc, s')" and "ss_bound s = None"
  shows "\<exists>es. ss_log s' = ss_log s @ es \<and>
    (if \<not> http \<or> skips_scope verb path then tidy es \<and> length es \<le> 3 * length bs
     else (es = [] \<and> ans = Some pool_exhausted \<and> ss_data s' = ss_data s) \<or>
       (\<exists>c inner. es = Checkout c # inner @ [if ans = None then Undone c else Committed c, Returned c] \<and>
         tidy inner \<and> length inner \<le> 3 * length (filter fst bs))) \<and>
    (exc = None \<longrightarrow> ss_bound s' = None)"
proof (cases "\<not> http \<or> skips_scope verb path")
  case True
  obtain r s1 where run: "run_blocks dr w bs a s = (r, s1)" by fastforce
  show ?thesis using assms True run run_blocks_events[OF run]
    by (auto simp: request_middleware_def split: sum.splits)
next
  case False
  show ?thesis
  proof (cases "checkout dr w (ss_pool s)")
    case (Pair got p)
    show ?thesis
    proof (cases got)
      case (Inl e)
      then show ?thesis using assms False Pair checkout_fails[of dr w "ss_pool s" e p] by (auto simp: request_middleware_def)
    next
      case (Inr c)
      let ?s0 = "s\<lparr>ss_pool := p, ss_log := ss_log s @ [Checkout c], ss_bound := Some c\<rparr>"
      obtain r s1 where run: "run_blocks dr w bs a ?s0 = (r, s1)" by fastforce
      obtain inner where i: "ss_log s1 = ss_log ?s0 @ inner" "tidy inner" "length inner \<le> 3 * length (filter fst bs)"
        using run_blocks_events[OF run] by auto
      obtain e' s2 where fin: "finish_request_conn dr c (isl r) s1 = (e', s2)" by fastforce
      have l: "ss_log s2 = ss_log s1 @ [if isl r then Undone c else Committed c, Returned c]"
        using fin by (auto simp: finish_request_conn_def split: prod.splits if_splits)
      have "ans = (case r of Inl _ \<Rightarrow> None | Inr x \<Rightarrow> Some x)" and "ss_log s' = ss_log s2" and "exc = None \<longrightarrow> ss_bound s' = None"
        using assms False Pair Inr run fin by (auto simp: request_middleware_def Let_def split: sum.splits option.splits)
      then show ?thesis using False l i by (cases r) auto
    qed
  qed
qed

text \<open>One connection, a handler of two shared blocks, and one that fails in its second block.\<close>

definition demo_driver :: "(conn list, nat) driver" where
  "demo_driver = \<lparr>pl_get = (\<lambda>p. case p of [] \<Rightarrow> (None, []) | c # cs \<Rightarrow> (Some c, cs)), pl_put = (\<lambda>c p. c # p),
     pl_commit = (\<lambda>c d. (None, d)), pl_rollback = (\<lambda>c d. (None, 0))\<rparr>"

definition demo_wait :: "conn list wait_env" where
  "demo_wait = \<lparr>wt_others = (\<lambda>_ p. p), wt_clock = (\<lambda>i. of_nat i), wt_deadline = 0\<rparr>"

definition demo_session :: "(conn list, nat) session" where
  "demo_session = \<lparr>ss_pool = [7], ss_data = 0, ss_bound = None, ss_log = []\<rparr>"

lemma demo_requests:
  "request_middleware demo_driver demo_wait False True ''GET'' ''/v1/datasets''
     (run_blocks demo_driver demo_wait [(False, \<lambda>c d. (Inr (), d + 1)), (False, \<lambda>c d. (Inr (), d + 1))] (200, JNull)) demo_session =
   (Some (200, JNull), None, demo_session\<lparr>ss_data := 2, ss_log := [Checkout 7, Committed 7, Returned 7]\<rparr>)"
  by (simp add: request_middleware_def skips_scope_def starts_with_def ends_with_def checkout_def checkout_fuel_def demo_driver_def
    demo_wait_def demo_session_def pooled_conn_def on_data_def finish_request_conn_def)

theorem request_returns_connections_witness:
  "\<exists>es. ss_log (demo_session\<lparr>ss_data := 2, ss_log := [Checkout 7, Committed 7, Returned 7]\<rparr>) = es \<and>
     (\<exists>c inner. es = Checkout c # inner @ [Committed c, Returned c] \<and> length inner \<le> 0)"
proof -
  have "ss_bound demo_session = None" and "\<not> skips_scope ''GET'' ''/v1/datasets''"
    by (simp_all add: demo_session_def skips_scope_def starts_with_def ends_with_def)
  then show ?thesis using request_returns_connections[OF demo_requests] by (auto simp: demo_session_def pool_exhausted_def error_envelope_def)
qed

end
