(* ===== verification/Migrations.thy ===== *)
theory Migrations
  imports Quota
begin

text \<open>
  Schema migrations, \<open>adapters/state/migrations.py\<close>: the ledger of the control plane and of the recall
  store, the two guarded runners and the bootstrap tenant. A migration file is its name; running one
  is a parameter that may raise, and a runner that raises rolls its transaction back.
\<close>

section \<open>State\<close>

text \<open>
  A database: the ledger, None when the table does not exist, the files executed so far in order,
  and whether the default tenant is there. A process: its run-once flags.
\<close>

record schema =
  sc_ledger :: "string list option"
  sc_done :: "string list"
  sc_default :: bool

record mig_flags =
  mf_migrated :: bool
  mf_recall_migrated :: bool

definition MIGRATION_VERSIONS :: "string list" where
  "MIGRATION_VERSIONS = [''001_tenants_and_keys'', ''002_datasets_tenant_isolation'', ''003_shard_incremental_indexing'',
     ''004_import_jobs'', ''005_dataset_status_updated_at'', ''006_tenants_dp_pool'', ''007_dp_shard_residency'',
     ''008_shard_consolidated_lsn'', ''009_delta_tier'']"

definition RECALL_MIGRATION_VERSIONS :: "string list" where
  "RECALL_MIGRATION_VERSIONS = [''001_recall_vectors'']"

section \<open>The runners\<close>

text \<open>\<open>INSERT .. ON CONFLICT DO NOTHING\<close>.\<close>

definition record_version :: "string \<Rightarrow> string list \<Rightarrow> string list" where
  "record_version v l = (if v \<in> set l then l else l @ [v])"

text \<open>The loop: \<open>applied\<close> was read before it. \<open>run v\<close> holds when the file executes without an error.\<close>

fun apply_versions :: "(string \<Rightarrow> bool) \<Rightarrow> string list \<Rightarrow> string list \<Rightarrow> string list \<times> string list \<Rightarrow> (string list \<times> string list) option" where
  "apply_versions run applied [] ld = Some ld"
| "apply_versions run applied (v # vs) (l, d) =
     (if v \<in> set applied then apply_versions run applied vs (l, d)
      else if run v then apply_versions run applied vs (record_version v l, d @ [v])
      else None)"

text \<open>The table of tenants is there when the first file was executed.\<close>

definition tenants_table :: "schema \<Rightarrow> bool" where
  "tenants_table s \<longleftrightarrow> ''001_tenants_and_keys'' \<in> set (sc_done s)"

definition apply_migrations :: "(string \<Rightarrow> bool) \<Rightarrow> schema \<Rightarrow> pyexc option \<times> schema" where
  "apply_migrations run s =
     (let ledger = (case sc_ledger s of
                      Some l \<Rightarrow> l
                    | None \<Rightarrow> if tenants_table s then foldl (\<lambda>l v. record_version v l) [] MIGRATION_VERSIONS else [])
      in case apply_versions run ledger MIGRATION_VERSIONS (ledger, sc_done s) of
           None \<Rightarrow> (Some (OtherError ''ProgrammingError''), s)
         | Some (l, d) \<Rightarrow> (None, \<lparr>sc_ledger = Some l, sc_done = d, sc_default = True\<rparr>))"

definition apply_recall_migrations :: "(string \<Rightarrow> bool) \<Rightarrow> schema \<Rightarrow> pyexc option \<times> schema" where
  "apply_recall_migrations run s =
     (let ledger = (case sc_ledger s of Some l \<Rightarrow> l | None \<Rightarrow> [])
      in case apply_versions run ledger RECALL_MIGRATION_VERSIONS (ledger, sc_done s) of
           None \<Rightarrow> (Some (OtherError ''ProgrammingError''), s)
         | Some (l, d) \<Rightarrow> (None, s\<lparr>sc_ledger := Some l, sc_done := d\<rparr>))"

definition bootstrap_default_tenant_memory :: "int \<times> int \<Rightarrow> day \<Rightarrow> time \<Rightarrow> accounts \<Rightarrow> accounts" where
  "bootstrap_default_tenant_memory quotas today now a =
     (if dget (ac_tenants a) ''default'' \<noteq> None then a
      else (set_tenant a ''default''
             \<lparr>tn_email = ''self-host@localhost'', tn_password = ''!disabled!'', tn_plan = ''oss'', tn_vector_quota = fst quotas,
              tn_query_quota = snd quotas, tn_vectors = 0, tn_queries = 0, tn_reset = today, tn_pool = None, tn_created = now\<rparr>)
           \<lparr>ac_emails := dset ''self-host@localhost'' ''default'' (ac_emails a)\<rparr>)"

text \<open>\<open>skip\<close> is \<open>RB_SKIP_MIGRATE\<close>.\<close>

definition migrate ::
  "(string \<Rightarrow> bool) \<Rightarrow> bool \<Rightarrow> bool \<Rightarrow> bool \<Rightarrow> int \<times> int \<Rightarrow> day \<Rightarrow> time \<Rightarrow> accounts \<times> mig_flags \<times> schema
   \<Rightarrow> pyexc option \<times> accounts \<times> mig_flags \<times> schema" where
  "migrate run memory skip force quotas today now st =
     (let (a, f, s) = st in
      if memory then (None, bootstrap_default_tenant_memory quotas today now a, f, s)
      else if \<not> force \<and> skip then (None, a, f, s)
      else if mf_migrated f then (None, a, f, s)
      else case apply_migrations run s of
          (Some e, s1) \<Rightarrow> (Some e, a, f, s1)
        | (None, s1) \<Rightarrow> (None, a, f\<lparr>mf_migrated := True\<rparr>, s1))"

definition migrate_recall ::
  "(string \<Rightarrow> bool) \<Rightarrow> string option \<Rightarrow> bool \<Rightarrow> bool \<Rightarrow> mig_flags \<times> schema \<Rightarrow> (pyexc + bool) \<times> mig_flags \<times> schema" where
  "migrate_recall run dsn skip force st =
     (let (f, s) = st in
      if dsn = None then (Inr False, f, s)
      else if \<not> force \<and> skip then (Inr True, f, s)
      else if mf_recall_migrated f then (Inr True, f, s)
      else case apply_recall_migrations run s of
          (Some e, s1) \<Rightarrow> (Inl e, f, s1)
        | (None, s1) \<Rightarrow> (Inr True, f\<lparr>mf_recall_migrated := True\<rparr>, s1))"

section \<open>Every file once, in order\<close>

lemma apply_versions_all:
  assumes "apply_versions run applied vs (l, d) = Some (l', d')" and "distinct vs" and "set vs \<inter> set l \<subseteq> set applied"
  shows "d' = d @ filter (\<lambda>v. v \<notin> set applied) vs \<and> l' = l @ filter (\<lambda>v. v \<notin> set applied) vs"
  using assms
proof (induction vs arbitrary: l d)
  case (Cons v vs)
  show ?case
  proof (cases "v \<in> set applied")
    case True
    then show ?thesis using Cons.IH[of l d] Cons.prems by auto
  next
    case False
    then have "v \<notin> set l" using Cons.prems(3) by auto
    then show ?thesis using False Cons.IH[of "l @ [v]" "d @ [v]"] Cons.prems by (auto simp: record_version_def split: if_splits)
  qed
qed simp

lemma distinct_versions: "distinct MIGRATION_VERSIONS"
  by (simp add: MIGRATION_VERSIONS_def)

text \<open>
  The processes that migrate one database run one after the other, under the advisory lock; each may
  fail. \<open>runs\<close> are their executions.
\<close>

fun migrate_all :: "(string \<Rightarrow> bool) list \<Rightarrow> schema \<Rightarrow> schema" where
  "migrate_all [] s = s"
| "migrate_all (run # runs) s = migrate_all runs (snd (apply_migrations run s))"

definition empty_schema :: schema where
  "empty_schema = \<lparr>sc_ledger = None, sc_done = [], sc_default = False\<rparr>"

definition current_schema :: schema where
  "current_schema = \<lparr>sc_ledger = Some MIGRATION_VERSIONS, sc_done = MIGRATION_VERSIONS, sc_default = True\<rparr>"

lemma apply_to_empty:
  "apply_migrations run empty_schema = (None, current_schema) \<or> snd (apply_migrations run empty_schema) = empty_schema"
proof (cases "apply_versions run [] MIGRATION_VERSIONS ([], [])")
  case (Some ld)
  obtain l d where "ld = (l, d)" by fastforce
  then show ?thesis using Some apply_versions_all[of run "[]" MIGRATION_VERSIONS "[]" "[]" l d] distinct_versions
    by (simp add: apply_migrations_def empty_schema_def current_schema_def tenants_table_def)
qed (simp add: apply_migrations_def empty_schema_def tenants_table_def)

lemma apply_skips_all: "set vs \<subseteq> set applied \<Longrightarrow> apply_versions run applied vs ld = Some ld"
  by (induction vs) (cases ld; simp)+

lemma apply_to_current: "apply_migrations run current_schema = (None, current_schema)"
  by (simp add: apply_migrations_def current_schema_def apply_skips_all)

text \<open>
  However many processes start on a fresh database and however many of them fail, a file is
  executed at most once: the schema is untouched until one goes through and the current one from
  then on.
\<close>

lemma migrated_once: "migrate_all runs empty_schema \<in> {empty_schema, current_schema}"
proof -
  have "migrate_all runs current_schema = current_schema" for runs
    by (induction runs) (simp_all add: apply_to_current)
  then show ?thesis
  proof (induction runs)
    case (Cons run runs)
    then show ?case using apply_to_empty[of run] by (auto simp: prod_eq_iff)
  qed simp
qed

lemma migrated_by_one:
  assumes "run \<in> set runs" and "\<And>v. run v"
  shows "migrate_all runs empty_schema = current_schema"
proof -
  have ok: "apply_versions run applied vs ld \<noteq> None" for applied vs ld
    using assms(2) by (induction vs arbitrary: ld) auto
  have "migrate_all (run # rest) empty_schema = current_schema" for rest
  proof -
    have "fst (apply_migrations run empty_schema) = None" "sc_ledger (snd (apply_migrations run empty_schema)) \<noteq> None"
      using ok[of "[]" MIGRATION_VERSIONS "([], [])"]
      by (auto simp: apply_migrations_def empty_schema_def tenants_table_def split: option.splits)
    then have "snd (apply_migrations run empty_schema) = current_schema"
      using apply_to_empty[of run] by (auto simp: empty_schema_def)
    moreover have "migrate_all rest current_schema = current_schema"
      by (induction rest) (simp_all add: apply_to_current)
    ultimately show ?thesis by simp
  qed
  moreover obtain xs rest where "runs = xs @ run # rest" using split_list[OF assms(1)] by blast
  moreover have "migrate_all (xs @ ys) s = migrate_all ys (migrate_all xs s)" for xs ys s
    by (induction xs arbitrary: s) simp_all
  moreover have "migrate_all (run # rest) current_schema = current_schema" for rest
    by (induction rest) (simp_all add: apply_to_current)
  ultimately show ?thesis using migrated_once[of xs] by auto
qed

text \<open>
  A database that older code brought to version 5, without a ledger, is taken for current: the later
  files are recorded as applied and never executed.
\<close>

lemma legacy_schema_stays_old:
  assumes "sc_ledger s = None" and "sc_done s = take 5 MIGRATION_VERSIONS"
  shows "migrate_all (run # runs) s = \<lparr>sc_ledger = Some MIGRATION_VERSIONS, sc_done = take 5 MIGRATION_VERSIONS, sc_default = True\<rparr>"
proof -
  let ?t = "\<lparr>sc_ledger = Some MIGRATION_VERSIONS, sc_done = take 5 MIGRATION_VERSIONS, sc_default = True\<rparr>"
  have "foldl (\<lambda>l v. record_version v l) [] MIGRATION_VERSIONS = MIGRATION_VERSIONS"
    by (simp add: MIGRATION_VERSIONS_def record_version_def)
  moreover have "tenants_table s" using assms(2) by (simp add: tenants_table_def MIGRATION_VERSIONS_def)
  ultimately have "snd (apply_migrations run s) = ?t"
    using assms apply_skips_all[of MIGRATION_VERSIONS MIGRATION_VERSIONS run] by (simp add: apply_migrations_def)
  moreover have "migrate_all runs ?t = ?t"
    by (induction runs) (simp_all add: apply_migrations_def apply_skips_all)
  ultimately show ?thesis by simp
qed

end
