(* ===== verification/Builder_Loop.thy ===== *)
theory Builder_Loop
  imports Import Consolidate
begin

text \<open>
  One turn of the index builder's loop, \<open>main_loop\<close> of \<open>services/index_builder/run.py\<close>: a message of each
  topic is taken, handled, and acked or nacked; and what becomes of messages whose dataset is locked
  by another builder.
\<close>

section \<open>A turn\<close>

text \<open>
  Take one message of a topic and dispatch it. The first result is the exception an unparsable entry
  raises, which ends the loop, or whether there was a message.
\<close>

definition handle_topic ::
  "benv \<Rightarrow> string \<Rightarrow> time \<Rightarrow> ('i world \<Rightarrow> message \<Rightarrow> bool option \<times> 'i world) \<Rightarrow> string \<Rightarrow> 'i world \<Rightarrow> (pyexc + bool) \<times> 'i world" where
  "handle_topic env topic now handler nack_id w =
     (case consume (be_queue env) (w_queue w) topic now of
        (Inl e, q) \<Rightarrow> (Inl e, w\<lparr>w_queue := q\<rparr>)
      | (Inr None, q) \<Rightarrow> (Inr False, w\<lparr>w_queue := q\<rparr>)
      | (Inr (Some m), q) \<Rightarrow>
          (let (handled, w1) = handler (w\<lparr>w_queue := q\<rparr>) m in (Inr True, dispatch_done env w1 m handled nack_id)))"

lemma topic_of_set: "topic_state (set_topic q topic t) topic = t"
  by (simp add: topic_state_def set_topic_def dget_or_def pdict_simps)

text \<open>What a turn reads: the clock, who gets the locks, the random values and message ids.\<close>

record turn_in =
  ti_now :: time
  ti_locks :: "bool \<times> bool \<times> bool"
  ti_fresh :: "fresh \<times> fresh \<times> fresh \<times> fresh"
  ti_ids :: "string \<times> string \<times> string"
  ti_sweep :: "nat \<Rightarrow> string"

definition builder_turn :: "benv \<Rightarrow> 'i faiss \<Rightarrow> turn_in \<Rightarrow> 'i world \<Rightarrow> pyexc option \<times> 'i world" where
  "builder_turn env fx ti w =
     (let now = ti_now ti; (l1, l2, l3) = ti_locks ti; (f1, f2, f3, f4) = ti_fresh ti; (n1, n2, n3) = ti_ids ti in
      case handle_topic env ''DATASET_READY'' now (\<lambda>w m. handle_dataset_ready env fx l1 w (msg_payload m) now f1) n1 w of
        (Inl e, w1) \<Rightarrow> (Some e, w1)
      | (Inr ready, w1) \<Rightarrow>
         (case handle_topic env ''DELETE_VECTORS'' now (\<lambda>w m. handle_delete_vectors env fx l2 w m now f2) n2
                 (if ready then w1 else maybe_sweep_idle_recall env w1 now (ti_sweep ti)) of
            (Inl e, w2) \<Rightarrow> (Some e, w2)
          | (Inr _, w2) \<Rightarrow>
             (case handle_topic env ''CONSOLIDATE'' now (\<lambda>w m. handle_consolidate env fx l3 w m now f3 f4) n3 w2 of
                (Inl e, w3) \<Rightarrow> (Some e, w3) | (Inr _, w3) \<Rightarrow> (None, w3))))"

text \<open>
  The loop does not guard \<open>consume\<close>: an entry that is no JSON text ends it, and stays in the list of
  messages in progress.
\<close>

lemma garbled_entry_ends_loop:
  assumes "q_redis (be_queue env)" and "q_main (topic_state (w_queue w) ''DATASET_READY'') = Garbled s # rest"
  shows "fst (builder_turn env fx ti w) = Some (ValueError s)"
    and "Garbled s \<in> set (q_proc (topic_state (w_queue (snd (builder_turn env fx ti w))) ''DATASET_READY''))"
  using assms by (simp_all add: builder_turn_def handle_topic_def consume_def tq_consume_def redis_take_def topic_of_set Let_def split: prod.split)

section \<open>A locked dataset\<close>

text \<open>The handlers leave a message of a locked dataset undone and the state as it was.\<close>

lemma locked_handlers:
  assumes "msg_key m = Some k"
  shows "recall_enabled (be_recall env) \<Longrightarrow> handle_consolidate env fx False w m now fr fr' = (Some False, w)"
    and "dget (msg_payload m) ''id'' = Some (JStr (c # cs)) \<Longrightarrow> handle_delete_vectors env fx False w m now fr = (Some False, w)"
  using assms by (simp_all add: handle_consolidate_def handle_delete_vectors_def run_consolidate_once_def run_delete_once_def)

lemma locked_build:
  assumes "dget p ''dataset'' = Some (JStr d)"
  shows "handle_dataset_ready env fx False w p now fr = (Some False, mark_build w ''skipped'' 0 [])"
  using assms by (simp add: handle_dataset_ready_def run_once_def)

fun repeat_topic ::
  "benv \<Rightarrow> string \<Rightarrow> time \<Rightarrow> (time \<Rightarrow> 'i world \<Rightarrow> message \<Rightarrow> bool option \<times> 'i world) \<Rightarrow> nat \<Rightarrow> 'i world \<Rightarrow> 'i world" where
  "repeat_topic env topic now handler 0 w = w"
| "repeat_topic env topic now handler (Suc n) w =
     repeat_topic env topic (now + 1) handler n (snd (handle_topic env topic now (handler now) [] w))"

text \<open>
  Every redelivery counts as an attempt. Taken again at once each time, a message of a locked dataset
  is on the dead-letter list after \<open>QUEUE_MAX_ATTEMPTS\<close> turns, and nothing was built.
\<close>

lemma skip_on_topic:
  fixes t :: topicq and d :: json and now :: time
  assumes "q_main t = [Wire d]" and "q_proc t = []" and "wire_id d = i" and "i \<noteq> []"
  defines "t1 \<equiv> stamp now i (t\<lparr>q_main := [], q_proc := [Wire d]\<rparr>)"
  shows "tq_consume topic now t = (Inr (Some (message_of topic d)), t1)"
    and "q_proc (snd (tq_nack mx (message_of topic d) True t1)) = []"
    and "attempts_of i t + 1 < mx \<Longrightarrow> q_main (snd (tq_nack mx (message_of topic d) True t1)) = [Wire d] \<and>
      attempts_of i (snd (tq_nack mx (message_of topic d) True t1)) = attempts_of i t + 1"
    and "\<not> attempts_of i t + 1 < mx \<Longrightarrow> Wire d \<in> set (q_dlq (snd (tq_nack mx (message_of topic d) True t1))) \<and>
      q_main (snd (tq_nack mx (message_of topic d) True t1)) = []"
proof -
  have m: "msg_id (message_of topic d) = i" "msg_raw (message_of topic d) = Wire d" using assms(3) by (simp_all add: message_of_def)
  have at: "attempts_of i t1 = attempts_of i t + 1" using assms(4) by (simp add: t1_def stamp_def attempts_of_def dget_or_def pdict_simps)
  have at2: "attempts_of i (t1\<lparr>q_proc := ps\<rparr>) = attempts_of i t + 1" for ps using at assms(4) by (simp add: attempts_of_def)
  have l: "q_proc t1 = [Wire d]" "q_main t1 = []" using assms(4) by (simp_all add: t1_def stamp_def)
  show "tq_consume topic now t = (Inr (Some (message_of topic d)), t1)"
    using assms(1,2,3) by (simp add: tq_consume_def redis_take_def t1_def)
  show "q_proc (snd (tq_nack mx (message_of topic d) True t1)) = []"
    using m l by (simp add: tq_nack_def dead_letter_def forget_def forget_received_def Let_def)
  show "attempts_of i t + 1 < mx \<Longrightarrow> q_main (snd (tq_nack mx (message_of topic d) True t1)) = [Wire d] \<and>
      attempts_of i (snd (tq_nack mx (message_of topic d) True t1)) = attempts_of i t + 1"
    using m l at2[of "[]"] assms(4) by (simp add: tq_nack_def forget_received_def attempts_of_def Let_def)
  show "\<not> attempts_of i t + 1 < mx \<Longrightarrow> Wire d \<in> set (q_dlq (snd (tq_nack mx (message_of topic d) True t1))) \<and>
      q_main (snd (tq_nack mx (message_of topic d) True t1)) = []"
    using m l at2[of "[]"] assms(4) by (simp add: tq_nack_def dead_letter_def forget_def Let_def)
qed

lemma skip_costs_attempt:
  fixes w :: "'i world" and q :: qstate and now :: time and env :: benv and topic :: string and t :: topicq
    and handler :: "'i world \<Rightarrow> message \<Rightarrow> bool option \<times> 'i world"
  assumes "q_redis (be_queue env)" and "q_main (topic_state (w_queue w) topic) = [Wire d]" and "q_proc (topic_state (w_queue w) topic) = []"
    and "wire_id d \<noteq> []" and "\<And>w. \<exists>w'. handler w (message_of topic d) = (Some False, w') \<and> w_queue w' = w_queue w"
  defines "t \<equiv> topic_state (w_queue w) topic" and "q \<equiv> w_queue (snd (handle_topic env topic now handler [] w))"
  shows "q_proc (topic_state q topic) = []"
    and "attempts_of (wire_id d) t + 1 < q_max_attempts (be_queue env) \<Longrightarrow>
      q_main (topic_state q topic) = [Wire d] \<and> attempts_of (wire_id d) (topic_state q topic) = attempts_of (wire_id d) t + 1"
    and "\<not> attempts_of (wire_id d) t + 1 < q_max_attempts (be_queue env) \<Longrightarrow>
      Wire d \<in> set (q_dlq (topic_state q topic)) \<and> q_main (topic_state q topic) = []"
proof -
  note taken = skip_on_topic(1)[where topic = topic and now = now, OF assms(2,3) refl assms(4)]
  note k = skip_on_topic(2-4)[where topic = topic and now = now and mx = "q_max_attempts (be_queue env)", OF assms(2,3) refl assms(4)]
  let ?t1 = "stamp now (wire_id d) (t\<lparr>q_main := [], q_proc := [Wire d]\<rparr>)"
  let ?q1 = "set_topic (w_queue w) topic ?t1"
  have c: "consume (be_queue env) (w_queue w) topic now = (Inr (Some (message_of topic d)), ?q1)"
    using assms(1) taken by (simp add: consume_def t_def)
  obtain w' where h: "handler (w\<lparr>w_queue := ?q1\<rparr>) (message_of topic d) = (Some False, w')" "w_queue w' = ?q1"
    using assms(5)[of "w\<lparr>w_queue := ?q1\<rparr>"] by auto
  have mt: "msg_topic (message_of topic d) = topic" by (simp add: message_of_def)
  have "topic_state q topic = snd (tq_nack (q_max_attempts (be_queue env)) (message_of topic d) True ?t1)"
    using assms(1) c h mt
    by (simp add: q_def handle_topic_def dispatch_done_def nack_def topic_of_set split_beta)
  then show "q_proc (topic_state q topic) = []"
    and "attempts_of (wire_id d) t + 1 < q_max_attempts (be_queue env) \<Longrightarrow>
      q_main (topic_state q topic) = [Wire d] \<and> attempts_of (wire_id d) (topic_state q topic) = attempts_of (wire_id d) t + 1"
    and "\<not> attempts_of (wire_id d) t + 1 < q_max_attempts (be_queue env) \<Longrightarrow>
      Wire d \<in> set (q_dlq (topic_state q topic)) \<and> q_main (topic_state q topic) = []"
    using k unfolding t_def by simp_all
qed

lemma locked_message_dead_letters:
  fixes w :: "'i world"
  assumes "q_redis (be_queue env)" and "q_main (topic_state (w_queue w) topic) = [Wire d]" and "q_proc (topic_state (w_queue w) topic) = []"
    and "wire_id d \<noteq> []" and "\<And>now w. \<exists>w'. handler now w (message_of topic d) = (Some False, w') \<and> w_queue w' = w_queue w"
    and "attempts_of (wire_id d) (topic_state (w_queue w) topic) + int (Suc n) = q_max_attempts (be_queue env)"
  shows "Wire d \<in> set (q_dlq (topic_state (w_queue (repeat_topic env topic now handler (Suc n) w)) topic))"
  using assms(2,3,6)
proof (induction n arbitrary: w now)
  case 0
  then show ?case using skip_costs_attempt(3)[where env = env and topic = topic and handler = "handler now" and now = now, OF assms(1) 0(1,2) assms(4,5)] by simp
next
  case (Suc n)
  note k = skip_costs_attempt[where env = env and topic = topic and handler = "handler now" and now = now, OF assms(1) Suc.prems(1,2) assms(4,5)]
  have less: "attempts_of (wire_id d) (topic_state (w_queue w) topic) + 1 < q_max_attempts (be_queue env)" using Suc.prems(3) by simp
  let ?w = "snd (handle_topic env topic now (handler now) [] w)"
  have "q_main (topic_state (w_queue ?w) topic) = [Wire d]" "q_proc (topic_state (w_queue ?w) topic) = []"
    "attempts_of (wire_id d) (topic_state (w_queue ?w) topic) + int (Suc n) = q_max_attempts (be_queue env)"
    using k(1) k(2)[OF less] Suc.prems(3) by simp_all
  from Suc.IH[OF this] show ?case by (simp only: repeat_topic.simps)
qed

text \<open>In particular a build request and a consolidation request, while another builder has the lock.\<close>

lemma locked_requests_dead_letter:
  fixes w :: "'i world"
  assumes "q_redis (be_queue env)" and "q_main (topic_state (w_queue w) topic) = [Wire d]" and "q_proc (topic_state (w_queue w) topic) = []"
    and "wire_id d \<noteq> []"
    and "attempts_of (wire_id d) (topic_state (w_queue w) topic) + int (Suc n) = q_max_attempts (be_queue env)"
  shows "dget (msg_payload (message_of topic d)) ''dataset'' = Some (JStr ds) \<Longrightarrow>
      Wire d \<in> set (q_dlq (topic_state (w_queue (repeat_topic env topic now
        (\<lambda>now w m. handle_dataset_ready env fx False w (msg_payload m) now fr) (Suc n) w)) topic))"
    and "recall_enabled (be_recall env) \<Longrightarrow> msg_key (message_of topic d) = Some k \<Longrightarrow>
      Wire d \<in> set (q_dlq (topic_state (w_queue (repeat_topic env topic now
        (\<lambda>now w m. handle_consolidate env fx False w m now fr fr') (Suc n) w)) topic))"
  by (rule locked_message_dead_letters[OF assms(1-4) _ assms(5)];
      simp add: locked_build locked_handlers mark_build_def)+

end
