(* ===== verification/Legacy_Query.thy ===== *)
theory Legacy_Query
  imports Ephemeral
begin

text \<open>
  The query service of \<open>services/query_api/main.py\<close>, kept for the dashboard: \<open>POST /query\<close> searches the
  newest shard of a dataset, through local copies that it never drops, or hands the query to the
  ephemeral runner. \<open>GET /query-status\<close> is \<open>v1_query_status\<close>, \<open>GET /datasets\<close> lists the catalog.
\<close>

section \<open>The endpoint\<close>

text \<open>The fields of \<open>QueryRequest\<close> the handler reads; the others are declared and ignored.\<close>

record legacy_request =
  lr_dataset :: string
  lr_vector :: "vec option"
  lr_top_k :: "int option"
  lr_mode :: "string option"

datatype legacy_answer = LHot "(int \<times> rat) list" time | LJob string

text \<open>
  \<open>_ensure_cached\<close>: a copy under \<open>CACHE_DIR\<close> that exists is taken as it is. The files are those of the
  service's directory, under their paths.
\<close>

definition legacy_cached ::
  "(uri \<Rightarrow> bool) \<Rightarrow> string \<Rightarrow> 'i bucket \<Rightarrow> (string, 'i blob) pdict \<Rightarrow> uri \<Rightarrow> (pyexc + string) \<times> (string, 'i blob) pdict" where
  "legacy_cached down dir b files u =
     (if \<not> has_scheme u then (Inl (ValueError ''Unsupported shard uri''), files)
      else let p = dir @ ''/'' @ local_name u in
        if dget files p \<noteq> None then (Inr p, files)
        else (case read_bytes down b u of
            Inl e \<Rightarrow> (Inl e, files)
          | Inr x \<Rightarrow> (Inr p, dset p x files)))"

text \<open>\<open>_load_latest_index\<close>; \<open>faiss.read_index\<close> of a file that is no index raises RuntimeError.\<close>

definition load_latest_index ::
  "(uri \<Rightarrow> bool) \<Rightarrow> string \<Rightarrow> catalog \<Rightarrow> 'i bucket \<Rightarrow> (string, 'i blob) pdict \<Rightarrow> key
   \<Rightarrow> (pyexc + ('i \<times> shard) option) \<times> (string, 'i blob) pdict" where
  "load_latest_index down dir c b files k =
     (case list_shards c k of
        [] \<Rightarrow> (Inr None, files)
      | latest # _ \<Rightarrow>
         (case legacy_cached down dir b files (sh_uri latest) of
            (Inl e, files1) \<Rightarrow> (Inl e, files1)
          | (Inr p, files1) \<Rightarrow>
             ((case dget files1 p of
                 Some (IndexB ix) \<Rightarrow> Inr (Some (ix, latest))
               | _ \<Rightarrow> Inl (RuntimeError ''could not open index file'')), files1)))"

text \<open>
  \<open>query\<close>: an exception of the hot path is dropped and the query is enqueued. \<open>dflt_k\<close> and \<open>dflt_mode\<close> are
  \<open>TOP_K\<close> and \<open>QUERY_MODE\<close>, which replace a missing, zero or empty field.
\<close>

definition legacy_top_k :: "int \<Rightarrow> legacy_request \<Rightarrow> int" where
  "legacy_top_k dflt_k r = (case lr_top_k r of None \<Rightarrow> dflt_k | Some n \<Rightarrow> if n = 0 then dflt_k else n)"

definition legacy_mode :: "string \<Rightarrow> legacy_request \<Rightarrow> string" where
  "legacy_mode dflt_mode r = (case lr_mode r of None \<Rightarrow> dflt_mode | Some m \<Rightarrow> if m = [] then dflt_mode else m)"

definition legacy_hot ::
  "'i qenv \<Rightarrow> 'i faiss \<Rightarrow> 'i world \<Rightarrow> (string, 'i blob) pdict \<Rightarrow> tenant \<Rightarrow> legacy_request \<Rightarrow> int
   \<Rightarrow> legacy_answer option \<times> (string, 'i blob) pdict" where
  "legacy_hot qe fx w files tenant_id r top_k =
     (case load_latest_index (be_down (qe_b qe)) (qe_dir qe) (w_cat w) (w_bucket w) files (tenant_id, lr_dataset r) of
        (Inr (Some (ix, s)), files1) \<Rightarrow>
         (case lr_vector r of
            None \<Rightarrow> (None, files1)
          | Some v \<Rightarrow>
             (case fx_search fx ix None (map (be_f32 (qe_b qe)) v) top_k of
                Inl _ \<Rightarrow> (None, files1)
              | Inr hits \<Rightarrow>
                  (Some (LHot (map prod.swap (take (nat (min top_k (int (length hits)))) hits)) (sh_created s)), files1)))
      | (_, files1) \<Rightarrow> (None, files1))"

definition legacy_query ::
  "'i qenv \<Rightarrow> 'i faiss \<Rightarrow> int \<Rightarrow> string \<Rightarrow> 'i world \<Rightarrow> (string, 'i blob) pdict \<Rightarrow> tenant \<Rightarrow> legacy_request \<Rightarrow> fresh
   \<Rightarrow> legacy_answer \<times> (string, 'i blob) pdict \<times> 'i world" where
  "legacy_query qe fx dflt_k dflt_mode w files tenant_id r fr =
     (let top_k = legacy_top_k dflt_k r;
          (hot, files1) = (if legacy_mode dflt_mode r \<in> {''hot'', ''auto''} then legacy_hot qe fx w files tenant_id r top_k
                           else (None, files))
      in case hot of
           Some a \<Rightarrow> (a, files1, w)
         | None \<Rightarrow>
            (let cid = fr_shard fr;
                 message = [(''dataset'', JStr (lr_dataset r)), (''tenant'', JStr tenant_id),
                   (''vector'', case lr_vector r of None \<Rightarrow> JNull | Some v \<Rightarrow> json_of_vec v), (''top_k'', JInt top_k),
                   (''correlation_id'', JStr cid), (''reply_to'', JStr (qe_result_topic qe))]
             in (LJob cid, files1,
                 w\<lparr>w_queue := publish (be_queue (qe_b qe)) (w_queue w) ''RUN_EPHEMERAL_QUERY'' message (fr_msg fr) []\<rparr>)))"

section \<open>Local copies\<close>

text \<open>
  Stored shards are never rewritten: \<open>content\<close> is what each URI of \<open>U\<close> names. As long as no two of them
  share a file name, a local copy is the stored object, and a failed download leaves no file.
\<close>

definition copies_of :: "(uri \<Rightarrow> 'i blob option) \<Rightarrow> uri set \<Rightarrow> string \<Rightarrow> (string, 'i blob) pdict \<Rightarrow> bool" where
  "copies_of content U dir files \<longleftrightarrow>
     (\<forall>u \<in> U. \<forall>x. dget files (dir @ ''/'' @ local_name u) = Some x \<longrightarrow> content u = Some x)"

lemma legacy_copies:
  assumes "inj_on local_name U" and "u \<in> U" and "copies_of content U dir files"
    and "\<And>x. dget b u = Some x \<Longrightarrow> content u = Some x"
  shows "copies_of content U dir (snd (legacy_cached down dir b files u))"
    and "fst (legacy_cached down dir b files u) = Inr p \<Longrightarrow>
      dget (snd (legacy_cached down dir b files u)) p \<noteq> None \<and> dget (snd (legacy_cached down dir b files u)) p = content u"
    and "fst (legacy_cached down dir b files u) = Inl e \<Longrightarrow> snd (legacy_cached down dir b files u) = files"
proof -
  let ?p = "dir @ ''/'' @ local_name u"
  consider "\<not> has_scheme u" | x where "has_scheme u" "dget files ?p = Some x"
    | "has_scheme u" "dget files ?p = None" by (cases "dget files ?p") auto
  then show "copies_of content U dir (snd (legacy_cached down dir b files u))"
    and "fst (legacy_cached down dir b files u) = Inr p \<Longrightarrow>
      dget (snd (legacy_cached down dir b files u)) p \<noteq> None \<and> dget (snd (legacy_cached down dir b files u)) p = content u"
    and "fst (legacy_cached down dir b files u) = Inl e \<Longrightarrow> snd (legacy_cached down dir b files u) = files"
  proof (atomize (full), cases)
    case 3
    show "copies_of content U dir (snd (legacy_cached down dir b files u)) \<and>
      (fst (legacy_cached down dir b files u) = Inr p \<longrightarrow>
        dget (snd (legacy_cached down dir b files u)) p \<noteq> None \<and> dget (snd (legacy_cached down dir b files u)) p = content u) \<and>
      (fst (legacy_cached down dir b files u) = Inl e \<longrightarrow> snd (legacy_cached down dir b files u) = files)"
    proof (cases "read_bytes down b u")
      case (Inl a)
      with 3 assms(3) show ?thesis by (simp add: legacy_cached_def Let_def)
    next
      case (Inr x)
      then have c: "content u = Some x" using assms(4) by (simp add: read_bytes_def split: if_splits option.splits)
      have "copies_of content U dir (dset ?p x files)"
        using assms(1-3) c unfolding copies_of_def inj_on_def by (auto simp: pdict_simps)
      with 3 Inr c show ?thesis by (auto simp: legacy_cached_def Let_def pdict_simps)
    qed
  qed (use assms(2,3) in \<open>auto simp: legacy_cached_def copies_of_def Let_def\<close>)
qed

section \<open>The answer\<close>

text \<open>
  A query of a dataset whose newest shard can be read is answered with the nearest vectors of that
  shard under their int64 ids, padded with id -1 when it holds fewer than \<open>top_k\<close>. Nothing is enqueued.
\<close>

lemma legacy_hot_answer:
  assumes "law_search fx" and "list_shards (w_cat w) (t, lr_dataset r) = s # rest"
    and "legacy_cached (be_down (qe_b qe)) (qe_dir qe) (w_bucket w) files (sh_uri s) = (Inr p, files1)"
    and "dget files1 p = Some (IndexB ix)" and "holds fx ix ids" and "distinct ids"
    and "lr_vector r = Some v" and "int (length v) = fx_d fx ix" and "0 < legacy_top_k k r"
    and "legacy_mode m r \<in> {''hot'', ''auto''}"
  shows "\<exists>hits pad far. legacy_query qe fx k m w files t r fr =
      (LHot (map prod.swap hits @ replicate pad (-1, far)) (sh_created s), files1, w) \<and>
    length hits + pad = nat (legacy_top_k k r) \<and> hits_ok fx ix ids None (map (be_f32 (qe_b qe)) v) (legacy_top_k k r) hits"
proof -
  let ?q = "map (be_f32 (qe_b qe)) v"
  have "int (length ?q) = fx_d fx ix" using assms(8) by simp
  with assms(1,5,6,9) obtain hits pad far where
    h: "fx_search fx ix None ?q (legacy_top_k k r) = Inr (hits @ replicate pad (far, -1))"
      "length hits + pad = nat (legacy_top_k k r)" "hits_ok fx ix ids None ?q (legacy_top_k k r) hits"
    unfolding law_search_def by blast
  from h(2) assms(9) have "int (length (hits @ replicate pad (far, -1 :: int))) = legacy_top_k k r" by simp
  with h assms(2,3,4,7,10) show ?thesis
    by (intro exI[of _ hits] exI[of _ pad] exI[of _ far])
       (simp add: legacy_query_def legacy_hot_def load_latest_index_def Let_def)
qed

text \<open>So a flat shard of fewer than \<open>top_k\<close> documents gives an answer with an id that no document has.\<close>

lemma legacy_answer_padded:
  assumes "law_search fx" and "list_shards (w_cat w) (t, lr_dataset r) = s # rest"
    and "legacy_cached (be_down (qe_b qe)) (qe_dir qe) (w_bucket w) files (sh_uri s) = (Inr p, files1)"
    and "dget files1 p = Some (IndexB ix)" and "holds fx ix ids" and "distinct ids" and "\<not> fx_ivf fx ix"
    and "lr_vector r = Some v" and "int (length v) = fx_d fx ix" and "int (length ids) < legacy_top_k k r"
    and "legacy_mode m r \<in> {''hot'', ''auto''}"
  shows "\<exists>ms far tm files2 w2. legacy_query qe fx k m w files t r fr = (LHot ms tm, files2, w2) \<and> (-1, far) \<in> set ms"
proof -
  have pos: "0 < legacy_top_k k r" using assms(10) by linarith
  from legacy_hot_answer[OF assms(1-6) assms(8,9) pos assms(11), of fr] obtain hits pad far where
    h: "legacy_query qe fx k m w files t r fr =
        (LHot (map prod.swap hits @ replicate pad (-1, far)) (sh_created s), files1, w)"
      "length hits + pad = nat (legacy_top_k k r)" "hits_ok fx ix ids None (map (be_f32 (qe_b qe)) v) (legacy_top_k k r) hits" by blast
  from h(3) assms(7) have "length hits = min (nat (legacy_top_k k r)) (length ids)" by (simp add: hits_ok_def covers_def)
  with h(2) assms(10) have "0 < pad" by simp
  then have "(-1, far) \<in> set (map prod.swap hits @ replicate pad (-1, far))" by simp
  with h(1) show ?thesis by blast
qed

text \<open>
  On a flat index the v1 endpoint makes the same search, drops the padding and names the hits by the
  sidecar.
\<close>

lemma v1_names_the_same_hits:
  assumes "\<not> fx_ivf fx ix" and "fx_search fx ix None x k = Inr hits"
  shows "run_faiss_search qe fx ix sc x k [] np =
    Inr (map (hit_match sc \<circ> prod.swap) (filter (\<lambda>(n, _). n \<noteq> -1) (map prod.swap (take (nat k) hits))))"
proof -
  have "map (hit_match sc \<circ> prod.swap) (filter (\<lambda>(n, _). n \<noteq> -1) (map prod.swap hs)) = map (hit_match sc) (filter (\<lambda>(_, n). n \<noteq> -1) hs)"
    for hs by (induction hs) auto
  with assms show ?thesis
    by (simp add: run_faiss_search_def ivf_search_params_def map_hits_to_matches_def Let_def)
qed

text \<open>The job of a query that was not answered searches the same dataset for the same vector, without a filter.\<close>

lemma legacy_job_accepted:
  assumes "lr_vector r = Some v"
  shows "job_of [(''dataset'', JStr (lr_dataset r)), (''tenant'', JStr t),
      (''vector'', case lr_vector r of None \<Rightarrow> JNull | Some v \<Rightarrow> json_of_vec v), (''top_k'', JInt n),
      (''correlation_id'', JStr cid), (''reply_to'', JStr topic)] =
    Some \<lparr>jr_key = (t, lr_dataset r), jr_vector = v, jr_top_k = n, jr_filter = [], jr_cid = cid, jr_reply = topic\<rparr>"
proof -
  have "floats_of (map JFloat v) = Inr v" by (induction v) simp_all
  with assms show ?thesis by (simp add: job_of_def json_of_vec_def str_or_def)
qed

end
