(* ===== verification/Rest_Client.thy ===== *)
theory Rest_Client
  imports Proxy Accounts_Api
begin

text \<open>
  The client library \<open>integrations/mem0/rosalinddb_client.py\<close> (path from the repository's root): the
  mapping of error envelopes, the keep-alive transport with its single retry, one function per endpoint,
  and the two polling loops. The \<open>requests\<close> session and the sockets of \<open>http.client\<close> are parameters.
\<close>

section \<open>Errors\<close>

text \<open>The classes of exceptions; the code, message and details are whatever JSON the envelope has there.\<close>

datatype err_class = AnyApiError | DatasetMissing | VectorMissing | QueryTimedOut | TransportFailed

record api_error =
  ae_class :: err_class
  ae_code :: json
  ae_message :: json
  ae_status :: "int option"
  ae_details :: json

text \<open>\<open>Py\<close> is any other exception of Python, for instance on an answer that is not JSON.\<close>

datatype client_exc = Api api_error | Py pyexc

definition attribute_error :: client_exc where
  "attribute_error = Py (OtherError ''AttributeError'')"

definition transport_error :: api_error where
  "transport_error = \<lparr>ae_class = TransportFailed, ae_code = JStr ''transport_error'', ae_message = JStr ''request failed'',
     ae_status = None, ae_details = JObj []\<rparr>"

text \<open>\<open>cl_float\<close> is the text of a float in a message; \<open>cl_loads\<close> is None for a \<open>ValueError\<close>.\<close>

record client =
  cl_token :: "string option"
  cl_dumps :: "json \<Rightarrow> string"
  cl_loads :: "string \<Rightarrow> json option"
  cl_float :: "rat \<Rightarrow> string"

definition query_timeout :: "client \<Rightarrow> string \<Rightarrow> rat \<Rightarrow> api_error" where
  "query_timeout cl job timeout = \<lparr>ae_class = QueryTimedOut, ae_code = JStr ''query_timeout'',
     ae_message = JStr (''ephemeral query '' @ job @ '' did not complete within '' @ cl_float cl timeout @ ''s''),
     ae_status = None, ae_details = JObj []\<rparr>"

text \<open>Python's \<open>or\<close>.\<close>

definition py_or :: "json \<Rightarrow> json \<Rightarrow> json" where
  "py_or x y = (if json_truthy x then x else y)"

text \<open>
  \<open>_raise_for_envelope\<close>: a body that is not JSON, or not of the shape of an envelope, becomes the
  message. Bodies are text here.
\<close>

definition raise_for_envelope :: "client \<Rightarrow> int \<Rightarrow> string \<Rightarrow> api_error" where
  "raise_for_envelope cl status_code body =
     (let plain = (JStr ''internal_error'', JStr body, JObj []);
          (code, message, details) =
            (case (if body = [] then Some (JObj []) else cl_loads cl body) of
               Some (JObj d) \<Rightarrow>
                 (case py_or (body_field d ''error'') (JObj []) of
                    JObj e \<Rightarrow> (py_or (body_field e ''code'') (JStr ''internal_error''), py_or (body_field e ''message'') (JStr []),
                              py_or (body_field e ''details'') (JObj []))
                  | _ \<Rightarrow> plain)
             | _ \<Rightarrow> plain)
      in \<lparr>ae_class = (if code = JStr ''dataset_not_found'' then DatasetMissing
                       else if code = JStr ''not_found'' then VectorMissing else AnyApiError),
          ae_code = code, ae_message = message, ae_status = Some status_code, ae_details = details\<rparr>)"

section \<open>Requests\<close>

record http_request =
  hq_method :: string
  hq_path :: string
  hq_params :: "(string \<times> string) list"
  hq_headers :: headers
  hq_body :: "string option"

text \<open>An exchange of one request, None when the transport fails, on the state of the network and the server.\<close>

type_synonym 's exchange = "http_request \<Rightarrow> 's \<Rightarrow> (int \<times> string) option \<times> 's"

definition client_headers :: "client \<Rightarrow> string option \<Rightarrow> headers" where
  "client_headers cl content_type =
     (let h = [(''Accept'', ''application/json'')];
          h1 = (case content_type of None \<Rightarrow> h | Some t \<Rightarrow> if t = [] then h else dset ''Content-Type'' t h)
      in case cl_token cl of None \<Rightarrow> h1 | Some t \<Rightarrow> if t = [] then h1 else dset ''Authorization'' (''Bearer '' @ t) h1)"

definition set_params :: "(string \<times> string option) list \<Rightarrow> (string \<times> string) list" where
  "set_params ps = concat (map (\<lambda>(k, v). case v of None \<Rightarrow> [] | Some x \<Rightarrow> [(k, x)]) ps)"

text \<open>\<open>_request\<close> on a text body with its content type; the JSON bodies pass through \<open>json_data\<close>.\<close>

definition request_of ::
  "client \<Rightarrow> string \<Rightarrow> string \<Rightarrow> (string \<times> string) option \<Rightarrow> (string \<times> string option) list \<Rightarrow> http_request" where
  "request_of cl method path data params = \<lparr>hq_method = method, hq_path = path, hq_params = set_params params,
     hq_headers = client_headers cl (map_option fst data), hq_body = map_option snd data\<rparr>"

definition client_request ::
  "client \<Rightarrow> 's exchange \<Rightarrow> string \<Rightarrow> string \<Rightarrow> (string \<times> string) option \<Rightarrow> (string \<times> string option) list \<Rightarrow> 's
   \<Rightarrow> (client_exc + string) \<times> 's" where
  "client_request cl ex method path data params s =
     (case ex (request_of cl method path data params) s of
        (None, s1) \<Rightarrow> (Inl (Api transport_error), s1)
      | (Some (status_code, content), s1) \<Rightarrow>
          (if status_code \<ge> 400 then Inl (Api (raise_for_envelope cl status_code content)) else Inr content, s1))"

definition json_data :: "client \<Rightarrow> json \<Rightarrow> (string \<times> string) option" where
  "json_data cl body = Some (''application/json'', cl_dumps cl body)"

text \<open>\<open>_Response.json\<close>\<close>

definition response_json :: "client \<Rightarrow> string \<Rightarrow> client_exc + json" where
  "response_json cl content =
     (if content = [] then Inr JNull
      else case cl_loads cl content of None \<Rightarrow> Inl (Py (ValueError ''JSON'')) | Some j \<Rightarrow> Inr j)"

definition call_json ::
  "client \<Rightarrow> 's exchange \<Rightarrow> string \<Rightarrow> string \<Rightarrow> (string \<times> string) option \<Rightarrow> (string \<times> string option) list \<Rightarrow> 's
   \<Rightarrow> (client_exc + json) \<times> 's" where
  "call_json cl ex method path data params s =
     (case client_request cl ex method path data params s of
        (Inl e, s1) \<Rightarrow> (Inl e, s1) | (Inr content, s1) \<Rightarrow> (response_json cl content, s1))"

section \<open>The keep-alive transport\<close>

text \<open>
  What a socket does with a request: it fails while sending, fails while the answer is read, or brings
  an answer. The flag of the wire says whether the connection was opened by an earlier request.
\<close>

datatype sent = SendFailed | ReplyFailed | Replied int string

type_synonym 's socket = "bool \<Rightarrow> http_request \<Rightarrow> 's \<Rightarrow> sent \<times> 's"

datatype fallback_exc = StaleSend | SocketFailed

text \<open>The state has the flag whether a connection is kept.\<close>

definition fallback_send :: "'s socket \<Rightarrow> http_request \<Rightarrow> bool \<times> 's \<Rightarrow> (fallback_exc + int \<times> string) \<times> bool \<times> 's" where
  "fallback_send net rq = (\<lambda>(reused, s).
     (case net reused rq s of
        (SendFailed, s1) \<Rightarrow> (Inl (if reused then StaleSend else SocketFailed), True, s1)
      | (ReplyFailed, s1) \<Rightarrow> (Inl SocketFailed, True, s1)
      | (Replied status_code content, s1) \<Rightarrow> (Inr (status_code, content), True, s1)))"

definition fallback_close :: "bool \<times> 's \<Rightarrow> bool \<times> 's" where
  "fallback_close c = (False, snd c)"

definition keep_alive :: "http_request \<Rightarrow> http_request" where
  "keep_alive rq = rq\<lparr>hq_headers := dset ''Connection'' ''keep-alive'' (hq_headers rq)\<rparr>"

definition fallback_request :: "'s socket \<Rightarrow> (bool \<times> 's) exchange" where
  "fallback_request net rq c =
     (case fallback_send net (keep_alive rq) c of
        (Inr r, c1) \<Rightarrow> (Some r, c1)
      | (Inl StaleSend, c1) \<Rightarrow>
         (case fallback_send net (keep_alive rq) (fallback_close c1) of
            (Inr r, c2) \<Rightarrow> (Some r, c2) | (Inl _, c2) \<Rightarrow> (None, fallback_close c2))
      | (Inl SocketFailed, c1) \<Rightarrow> (None, fallback_close c1))"

text \<open>
  A wire to a server, which handles a request at most once: not when the sending failed, perhaps when
  the answer was lost, and surely when the answer arrived.
\<close>

definition wired_to :: "(http_request \<Rightarrow> 's \<Rightarrow> (int \<times> string) \<times> 's) \<Rightarrow> 's socket \<Rightarrow> bool" where
  "wired_to srv net \<longleftrightarrow> (\<forall>reused rq s.
     (case net reused rq s of
        (SendFailed, s1) \<Rightarrow> s1 = s
      | (ReplyFailed, s1) \<Rightarrow> s1 = s \<or> s1 = snd (srv rq s)
      | (Replied status_code content, s1) \<Rightarrow> srv rq s = ((status_code, content), s1)))"

text \<open>
  The retry never makes the server handle a request twice; an answer is the server's, and a connection
  is kept exactly when there was one.
\<close>

lemma fallback_send_once:
  assumes "wired_to srv net" and "fallback_send net rq (reused, s) = (r, kept, s1)"
  shows "case r of Inr x \<Rightarrow> srv rq s = (x, s1) | Inl StaleSend \<Rightarrow> reused \<and> s1 = s | Inl SocketFailed \<Rightarrow> s1 = s \<or> s1 = snd (srv rq s)"
    and "kept"
proof -
  obtain o1 s2 where n: "net reused rq s = (o1, s2)" by fastforce
  have w: "case (o1, s2) of (SendFailed, s1) \<Rightarrow> s1 = s | (ReplyFailed, s1) \<Rightarrow> s1 = s \<or> s1 = snd (srv rq s)
      | (Replied status_code content, s1) \<Rightarrow> srv rq s = ((status_code, content), s1)"
    using assms(1) n unfolding wired_to_def by (elim allE[where x = reused] allE[where x = rq] allE[where x = s]) simp
  show "case r of Inr x \<Rightarrow> srv rq s = (x, s1) | Inl StaleSend \<Rightarrow> reused \<and> s1 = s | Inl SocketFailed \<Rightarrow> s1 = s \<or> s1 = snd (srv rq s)"
    using w n assms(2) by (cases o1) (auto simp: fallback_send_def)
  show "kept" using n assms(2) by (cases o1) (auto simp: fallback_send_def)
qed

lemma fallback_at_most_once:
  assumes "wired_to srv net" and "fallback_request net rq (reused, s) = (r, kept, s1)"
  shows "case r of Some x \<Rightarrow> srv (keep_alive rq) s = (x, s1) \<and> kept
    | None \<Rightarrow> (s1 = s \<or> s1 = snd (srv (keep_alive rq) s)) \<and> \<not> kept"
proof -
  obtain r1 k1 s2 where f: "fallback_send net (keep_alive rq) (reused, s) = (r1, k1, s2)" by (metis surj_pair)
  note once = fallback_send_once[OF assms(1) f]
  obtain r2 k2 s3 where g: "fallback_send net (keep_alive rq) (False, s2) = (r2, k2, s3)" by (metis surj_pair)
  note twice = fallback_send_once[OF assms(1) g]
  show ?thesis
  proof (cases r1)
    case (Inr x)
    with once f assms(2) show ?thesis by (auto simp: fallback_request_def)
  next
    case (Inl e1)
    show ?thesis
    proof (cases e1)
      case SocketFailed
      with Inl once f assms(2) show ?thesis by (auto simp: fallback_request_def fallback_close_def)
    next
      case StaleSend
      with Inl once have s2: "s2 = s" by simp
      show ?thesis
      proof (cases r2)
        case (Inr x)
        with Inl StaleSend s2 twice f g assms(2) show ?thesis by (auto simp add: fallback_request_def fallback_close_def)
      next
        case r2: (Inl e2)
        then have "e2 = SocketFailed" using twice(1) by (cases e2) simp_all
        with Inl StaleSend s2 r2 twice f g assms(2) show ?thesis by (auto simp: fallback_request_def fallback_close_def)
      qed
    qed
  qed
qed

text \<open>So a call of the client had one answer of the server, or it raises and the request was handled at most once.\<close>

lemma client_request_wired:
  assumes "wired_to srv net" and "\<And>rq s. srv (keep_alive rq) s = srv rq s"
    and "client_request cl (fallback_request net) method path data params (reused, s) = (r, kept, s1)"
  shows "r = Inl (Api transport_error) \<and> (s1 = s \<or> s1 = snd (srv (request_of cl method path data params) s)) \<or>
    (\<exists>status_code content. srv (request_of cl method path data params) s = ((status_code, content), s1) \<and>
      r = (if status_code \<ge> 400 then Inl (Api (raise_for_envelope cl status_code content)) else Inr content))"
proof -
  obtain a k1 s2 where f: "fallback_request net (request_of cl method path data params) (reused, s) = (a, k1, s2)" by (metis surj_pair)
  note once = fallback_at_most_once[OF assms(1) f]
  show ?thesis
  proof (cases a)
    case None
    with f once assms(2,3) show ?thesis by (auto simp: client_request_def)
  next
    case (Some x)
    with f once assms(2,3) show ?thesis by (cases x) (auto simp: client_request_def)
  qed
qed

section \<open>The endpoints\<close>

text \<open>\<open>urllib.parse.quote(s, safe="")\<close>: all but unreserved characters become the percent codes of their UTF-8 bytes.\<close>

definition unreserved :: "char \<Rightarrow> bool" where
  "unreserved c \<longleftrightarrow> is_alnum c \<or> c \<in> set ''_.-~''"

definition hex_upper :: "nat \<Rightarrow> char" where
  "hex_upper n = (if n < 10 then char_of (48 + n) else char_of (55 + n))"

definition utf8_bytes :: "char \<Rightarrow> nat list" where
  "utf8_bytes c = (let n = of_char c in if n < 128 then [n] else [192 + n div 64, 128 + n mod 64])"

definition quote_char :: "char \<Rightarrow> string" where
  "quote_char c = (if unreserved c then [c] else concat (map (\<lambda>b. [CHR ''%'', hex_upper (b div 16), hex_upper (b mod 16)]) (utf8_bytes c)))"

definition quote :: "string \<Rightarrow> string" where
  "quote s = concat (map quote_char s)"

definition dataset_path :: "string \<Rightarrow> string" where
  "dataset_path name = ''/v1/datasets/'' @ name"

definition vectors_path :: "string \<Rightarrow> string" where
  "vectors_path name = dataset_path name @ ''/vectors''"

definition vector_path :: "string \<Rightarrow> vid \<Rightarrow> string" where
  "vector_path name i = vectors_path name @ ''/'' @ quote i"

definition client_create_dataset :: "client \<Rightarrow> 's exchange \<Rightarrow> string \<Rightarrow> int \<Rightarrow> 's \<Rightarrow> (client_exc + json) \<times> 's" where
  "client_create_dataset cl ex name dm s =
     call_json cl ex ''POST'' ''/v1/datasets'' (json_data cl (JObj [(''name'', JStr name), (''dimension'', JInt dm)])) [] s"

text \<open>\<open>d.get(key, default)\<close> on an answer that may be no dictionary.\<close>

definition answer_field :: "json \<Rightarrow> string \<Rightarrow> json \<Rightarrow> client_exc + json" where
  "answer_field j k dflt = (case j of JObj d \<Rightarrow> Inr (dget_or d k dflt) | _ \<Rightarrow> Inl attribute_error)"

definition client_list_datasets :: "client \<Rightarrow> 's exchange \<Rightarrow> 's \<Rightarrow> (client_exc + json) \<times> 's" where
  "client_list_datasets cl ex s =
     (case call_json cl ex ''GET'' ''/v1/datasets'' None [] s of
        (Inl e, s1) \<Rightarrow> (Inl e, s1) | (Inr j, s1) \<Rightarrow> (answer_field j ''datasets'' (JList []), s1))"

definition client_get_dataset :: "client \<Rightarrow> 's exchange \<Rightarrow> string \<Rightarrow> 's \<Rightarrow> (client_exc + json) \<times> 's" where
  "client_get_dataset cl ex name s = call_json cl ex ''GET'' (dataset_path name) None [] s"

definition client_delete_dataset :: "client \<Rightarrow> 's exchange \<Rightarrow> string \<Rightarrow> 's \<Rightarrow> (client_exc + unit) \<times> 's" where
  "client_delete_dataset cl ex name s =
     apfst (map_sum id (\<lambda>_. ())) (client_request cl ex ''DELETE'' (dataset_path name) None [] s)"

definition client_upsert :: "client \<Rightarrow> 's exchange \<Rightarrow> string \<Rightarrow> json list \<Rightarrow> 's \<Rightarrow> (client_exc + json) \<times> 's" where
  "client_upsert cl ex name records s =
     call_json cl ex ''POST'' (vectors_path name)
       (Some (''application/x-ndjson'', join [CHR 0x0A] (map (cl_dumps cl) records))) [] s"

definition client_get :: "client \<Rightarrow> 's exchange \<Rightarrow> string \<Rightarrow> vid \<Rightarrow> bool \<Rightarrow> 's \<Rightarrow> (client_exc + json) \<times> 's" where
  "client_get cl ex name i include_values s =
     call_json cl ex ''GET'' (vector_path name i) None [(''include_values'', if include_values then Some ''true'' else None)] s"

definition client_list ::
  "client \<Rightarrow> 's exchange \<Rightarrow> string \<Rightarrow> meta \<Rightarrow> int option \<Rightarrow> string option \<Rightarrow> 's \<Rightarrow> (client_exc + json) \<times> 's" where
  "client_list cl ex name flt limit cursor s =
     call_json cl ex ''GET'' (vectors_path name) None
       [(''filter'', if flt = [] then None else Some (cl_dumps cl (JObj flt))), (''limit'', map_option str_int limit), (''cursor'', cursor)] s"

definition client_delete :: "client \<Rightarrow> 's exchange \<Rightarrow> string \<Rightarrow> vid \<Rightarrow> 's \<Rightarrow> (client_exc + unit) \<times> 's" where
  "client_delete cl ex name i s =
     apfst (map_sum id (\<lambda>_. ())) (client_request cl ex ''DELETE'' (vector_path name i) None [] s)"

section \<open>Polling\<close>

text \<open>
  The loop of both polls: a check raises, is done or goes on. \<open>clock i\<close> is the time since the start at
  the deadline test of the \<open>i\<close>-th turn, \<open>pause i\<close> what happens while the client sleeps. None: out of fuel.
\<close>

fun poll_loop ::
  "('s \<Rightarrow> (client_exc + 'r option) \<times> 's) \<Rightarrow> client_exc \<Rightarrow> rat \<Rightarrow> (nat \<Rightarrow> rat) \<Rightarrow> (nat \<Rightarrow> 's \<Rightarrow> 's) \<Rightarrow> nat \<Rightarrow> nat \<Rightarrow> 's
   \<Rightarrow> ((client_exc + 'r) \<times> 's) option" where
  "poll_loop check late timeout clock pause i 0 s = None"
| "poll_loop check late timeout clock pause i (Suc n) s =
     (case check s of
        (Inl e, s1) \<Rightarrow> Some (Inl e, s1)
      | (Inr (Some r), s1) \<Rightarrow> Some (Inr r, s1)
      | (Inr None, s1) \<Rightarrow>
          if clock i \<ge> timeout then Some (Inl late, s1)
          else poll_loop check late timeout clock pause (Suc i) n (pause i s1))"

definition check_job :: "client \<Rightarrow> 's exchange \<Rightarrow> string \<Rightarrow> 's \<Rightarrow> (client_exc + meta option) \<times> 's" where
  "check_job cl ex job s =
     (case call_json cl ex ''GET'' (''/v1/query/status/'' @ job) None [] s of
        (Inl e, s1) \<Rightarrow> (Inl e, s1)
      | (Inr (JObj d), s1) \<Rightarrow> (Inr (if json_truthy (body_field d ''ready'') then Some d else None), s1)
      | (Inr _, s1) \<Rightarrow> (Inl attribute_error, s1))"

definition poll_query ::
  "client \<Rightarrow> 's exchange \<Rightarrow> string \<Rightarrow> rat \<Rightarrow> (nat \<Rightarrow> rat) \<Rightarrow> (nat \<Rightarrow> 's \<Rightarrow> 's) \<Rightarrow> nat \<Rightarrow> 's \<Rightarrow> ((client_exc + meta) \<times> 's) option" where
  "poll_query cl ex job timeout clock pause fuel s =
     poll_loop (check_job cl ex job) (Api (query_timeout cl job timeout)) timeout clock pause 0 fuel s"

text \<open>\<open>query\<close>: job ids are texts; an answer of another shape is returned as it is.\<close>

definition client_query ::
  "client \<Rightarrow> 's exchange \<Rightarrow> string \<Rightarrow> vec \<Rightarrow> int \<Rightarrow> meta \<Rightarrow> rat \<Rightarrow> (nat \<Rightarrow> rat) \<Rightarrow> (nat \<Rightarrow> 's \<Rightarrow> 's) \<Rightarrow> nat \<Rightarrow> 's
   \<Rightarrow> ((client_exc + meta) \<times> 's) option" where
  "client_query cl ex name vector top_k flt timeout clock pause fuel s =
     (let body = JObj ([(''dataset'', JStr name), (''vector'', JList (map JFloat vector)), (''top_k'', JInt top_k)] @
            (if flt = [] then [] else [(''filter'', JObj flt)]))
      in case call_json cl ex ''POST'' ''/v1/query'' (json_data cl body) [] s of
           (Inl e, s1) \<Rightarrow> Some (Inl e, s1)
         | (Inr (JObj d), s1) \<Rightarrow>
             (case body_field d ''job_id'' of
                JStr (c # cs) \<Rightarrow>
                  if body_field d ''mode'' = JStr ''ephemeral'' then poll_query cl ex (c # cs) timeout clock pause fuel s1
                  else Some (Inr d, s1)
              | _ \<Rightarrow> Some (Inr d, s1))
         | (Inr _, s1) \<Rightarrow> Some (Inl attribute_error, s1))"

definition check_dataset :: "client \<Rightarrow> 's exchange \<Rightarrow> string \<Rightarrow> 's \<Rightarrow> (client_exc + meta option) \<times> 's" where
  "check_dataset cl ex name s =
     (case client_get_dataset cl ex name s of
        (Inl e, s1) \<Rightarrow> (Inl e, s1)
      | (Inr (JObj d), s1) \<Rightarrow>
          (if body_field d ''status'' = JStr ''indexed'' then Inr (Some d)
           else if body_field d ''status'' = JStr ''error''
           then Inl (Api \<lparr>ae_class = AnyApiError, ae_code = JStr ''dataset_error'',
             ae_message = py_or (body_field d ''error_message'') (JStr ''dataset build failed''), ae_status = None, ae_details = JObj []\<rparr>)
           else Inr None, s1)
      | (Inr _, s1) \<Rightarrow> (Inl attribute_error, s1))"

definition poll_until_indexed ::
  "client \<Rightarrow> 's exchange \<Rightarrow> string \<Rightarrow> rat \<Rightarrow> (nat \<Rightarrow> rat) \<Rightarrow> (nat \<Rightarrow> 's \<Rightarrow> 's) \<Rightarrow> nat \<Rightarrow> 's \<Rightarrow> ((client_exc + meta) \<times> 's) option" where
  "poll_until_indexed cl ex name timeout clock pause fuel s =
     poll_loop (check_dataset cl ex name) (Api (query_timeout cl (''dataset:'' @ name) timeout)) timeout clock pause 0 fuel s"

text \<open>
  A poll whose clock moves by at least the interval between two turns returns: with the result of a
  check, with an exception of one, or with the timeout, which it raises only past the deadline.
\<close>

definition poll_clock :: "rat \<Rightarrow> (nat \<Rightarrow> rat) \<Rightarrow> bool" where
  "poll_clock interval clock \<longleftrightarrow> 0 \<le> clock 0 \<and> (\<forall>i. clock i + interval \<le> clock (Suc i))"

lemma poll_clock_grows: "poll_clock interval clock \<Longrightarrow> of_nat i * interval \<le> clock i"
proof (induction i)
  case (Suc i)
  then have "of_nat i * interval \<le> clock i" "clock i + interval \<le> clock (Suc i)" by (simp_all add: poll_clock_def)
  then show ?case by (simp add: algebra_simps)
qed (simp add: poll_clock_def)

definition poll_fuel :: "rat \<Rightarrow> rat \<Rightarrow> nat" where
  "poll_fuel timeout interval = Suc (nat \<lceil>timeout / interval\<rceil>)"

lemma poll_loop_returns:
  assumes "poll_clock interval clock" and "timeout \<le> of_nat (i + n) * interval"
  shows "\<exists>r. poll_loop check late timeout clock pause i (Suc n) s = Some r"
  using assms(2)
proof (induction n arbitrary: i s)
  case 0
  then have "timeout \<le> clock i" using poll_clock_grows[OF assms(1), of i] by simp
  then show ?case by (auto split: prod.split option.split sum.split)
next
  case (Suc n)
  then have "timeout \<le> of_nat (Suc i + n) * interval" by simp
  from Suc.IH[OF this] show ?case by (subst poll_loop.simps) (auto split: prod.split option.split sum.split)
qed

lemma polls_return:
  assumes "poll_clock interval clock" and "0 < interval" and "poll_fuel timeout interval \<le> fuel"
  shows "\<exists>r. poll_query cl ex job timeout clock pause fuel s = Some r"
    and "\<exists>r. poll_until_indexed cl ex name timeout clock pause fuel s = Some r"
    and "\<exists>r. client_query cl ex name vector top_k flt timeout clock pause fuel s = Some r"
proof -
  obtain n where n: "fuel = Suc n" "nat \<lceil>timeout / interval\<rceil> \<le> n" using assms(3) by (cases fuel) (auto simp: poll_fuel_def)
  have "timeout / interval \<le> of_nat n" using of_nat_ceiling[of "timeout / interval"] n(2) by (meson dual_order.trans of_nat_mono)
  then have "timeout \<le> of_nat (0 + n) * interval" using assms(2) by (simp add: pos_divide_le_eq)
  note loop = poll_loop_returns[OF assms(1) this]
  have r: "\<exists>r. poll_query cl ex job timeout clock pause fuel s = Some r" for job s
    unfolding poll_query_def n(1) by (rule loop)
  show "\<exists>r. poll_query cl ex job timeout clock pause fuel s = Some r" by (rule r)
  show "\<exists>r. poll_until_indexed cl ex name timeout clock pause fuel s = Some r"
    unfolding poll_until_indexed_def n(1) by (rule loop)
  show "\<exists>r. client_query cl ex name vector top_k flt timeout clock pause fuel s = Some r"
    unfolding client_query_def Let_def using r
    by (auto split: prod.split sum.split json.split list.split)
qed

end
