(* ===== verification/Mem0.thy ===== *)
theory Mem0
  imports Rest_Client
begin

text \<open>
  The vector store of mem0 on top of the client, \<open>integrations/mem0/rosalinddb.py\<close> (path from the
  repository's root): one collection is one dataset. Floats are rationals.
\<close>

section \<open>Results\<close>

record output_data =
  od_id :: "string option"
  od_score :: "rat option"
  od_payload :: meta

fun all_or_exc :: "('a \<Rightarrow> client_exc + 'b) \<Rightarrow> 'a list \<Rightarrow> client_exc + 'b list" where
  "all_or_exc f [] = Inr []"
| "all_or_exc f (x # xs) =
     (case f x of
        Inl e \<Rightarrow> Inl e | Inr y \<Rightarrow> (case all_or_exc f xs of Inl e \<Rightarrow> Inl e | Inr ys \<Rightarrow> Inr (y # ys)))"

text \<open>\<open>1 / (1 + d)\<close>\<close>

definition l2_squared_to_similarity :: "rat \<Rightarrow> rat" where
  "l2_squared_to_similarity distance = 1 / (1 + distance)"

fun finite_number :: "json \<Rightarrow> client_exc + rat" where
  "finite_number (JInt n) = Inr (of_int n)"
| "finite_number (JFloat (Fin q)) = Inr q"
| "finite_number _ = Inl (Py (ValueError ''float''))"

text \<open>Building \<open>OutputData\<close> from a row: pydantic refuses an id that is no text and a payload that is no dictionary.\<close>

definition output_of :: "json \<Rightarrow> rat option \<Rightarrow> client_exc + output_data" where
  "output_of row score =
     (case row of
        JObj d \<Rightarrow>
         (case dget d ''id'' of
            None \<Rightarrow> Inl (Py KeyError)
          | Some i \<Rightarrow>
             (case (i, py_or (body_field d ''metadata'') (JObj [])) of
                (JStr t, JObj m) \<Rightarrow> Inr \<lparr>od_id = Some t, od_score = score, od_payload = m\<rparr>
              | (JNull, JObj m) \<Rightarrow> Inr \<lparr>od_id = None, od_score = score, od_payload = m\<rparr>
              | _ \<Rightarrow> Inl (Py (ValueError ''OutputData''))))
      | _ \<Rightarrow> Inl (Py (OtherError ''TypeError'')))"

definition list_items :: "json \<Rightarrow> client_exc + json list" where
  "list_items j = (case j of JList xs \<Rightarrow> Inr xs | _ \<Rightarrow> Inl (Py (OtherError ''TypeError'')))"

section \<open>Collections\<close>

text \<open>\<open>create_col\<close>: a dataset that exists is as good as a new one.\<close>

definition create_col :: "client \<Rightarrow> 's exchange \<Rightarrow> string \<Rightarrow> int \<Rightarrow> 's \<Rightarrow> (client_exc + unit) \<times> 's" where
  "create_col cl ex name vector_size s =
     (case client_create_dataset cl ex name vector_size s of
        (Inr _, s1) \<Rightarrow> (Inr (), s1)
      | (Inl (Api e), s1) \<Rightarrow> (if ae_code e = JStr ''dataset_exists'' then Inr () else Inl (Api e), s1)
      | (Inl e, s1) \<Rightarrow> (Inl e, s1))"

definition list_cols :: "client \<Rightarrow> 's exchange \<Rightarrow> 's \<Rightarrow> (client_exc + json list) \<times> 's" where
  "list_cols cl ex s =
     (case client_list_datasets cl ex s of
        (Inl e, s1) \<Rightarrow> (Inl e, s1)
      | (Inr j, s1) \<Rightarrow>
         (case list_items j of
            Inl e \<Rightarrow> Inl e
          | Inr ds \<Rightarrow> all_or_exc (\<lambda>d. case d of
              JObj fs \<Rightarrow> (case dget fs ''name'' of None \<Rightarrow> Inl (Py KeyError) | Some n \<Rightarrow> Inr n)
            | _ \<Rightarrow> Inl (Py (OtherError ''TypeError''))) ds, s1))"

definition delete_col :: "client \<Rightarrow> 's exchange \<Rightarrow> string \<Rightarrow> 's \<Rightarrow> (client_exc + unit) \<times> 's" where
  "delete_col cl ex col s = client_delete_dataset cl ex col s"

definition col_info :: "client \<Rightarrow> 's exchange \<Rightarrow> string \<Rightarrow> 's \<Rightarrow> (client_exc + json) \<times> 's" where
  "col_info cl ex col s = client_get_dataset cl ex col s"

definition reset_col :: "client \<Rightarrow> 's exchange \<Rightarrow> string \<Rightarrow> int \<Rightarrow> 's \<Rightarrow> (client_exc + unit) \<times> 's" where
  "reset_col cl ex col dims s =
     (case delete_col cl ex col s of
        (Inr _, s1) \<Rightarrow> create_col cl ex col dims s1
      | (Inl (Api e), s1) \<Rightarrow> (if ae_code e = JStr ''dataset_not_found'' then create_col cl ex col dims s1 else (Inl (Api e), s1))
      | (Inl e, s1) \<Rightarrow> (Inl e, s1))"

section \<open>Writes\<close>

definition vector_record :: "vid \<Rightarrow> json list \<Rightarrow> meta \<Rightarrow> json" where
  "vector_record i values metadata = JObj [(''id'', JStr i), (''values'', JList values), (''metadata'', JObj metadata)]"

text \<open>
  The records of \<open>insert\<close>; empty lists stand for missing \<open>payloads\<close> and \<open>ids\<close>, an empty payload also for
  None. A list that is too short raises before anything is sent.
\<close>

fun insert_records :: "nat \<Rightarrow> vec list \<Rightarrow> meta list \<Rightarrow> vid list \<Rightarrow> client_exc + json list" where
  "insert_records idx [] payloads ids = Inr []"
| "insert_records idx (v # vs) payloads ids =
     (if payloads \<noteq> [] \<and> length payloads \<le> idx \<or> ids \<noteq> [] \<and> length ids \<le> idx then Inl (Py (OtherError ''IndexError''))
      else case insert_records (Suc idx) vs payloads ids of
          Inl e \<Rightarrow> Inl e
        | Inr rs \<Rightarrow> Inr (vector_record (if ids = [] then str_int (int idx) else ids ! idx) (map JFloat v)
              (if payloads = [] then [] else payloads ! idx) # rs))"

definition insert_vectors ::
  "client \<Rightarrow> 's exchange \<Rightarrow> string \<Rightarrow> vec list \<Rightarrow> meta list \<Rightarrow> vid list \<Rightarrow> 's \<Rightarrow> (client_exc + unit) \<times> 's" where
  "insert_vectors cl ex col vectors payloads ids s =
     (case insert_records 0 vectors payloads ids of
        Inl e \<Rightarrow> (Inl e, s)
      | Inr [] \<Rightarrow> (Inr (), s)
      | Inr rs \<Rightarrow> apfst (map_sum id (\<lambda>_. ())) (client_upsert cl ex col rs s))"

text \<open>\<open>dict.update\<close>\<close>

definition meta_update :: "meta \<Rightarrow> meta \<Rightarrow> meta" where
  "meta_update m p = foldl (\<lambda>m (k, v). dset k v m) m p"

text \<open>
  \<open>update\<close> with a vector: a missing payload is read back. The metadata of an answer is a dictionary.
\<close>

definition update_with_vector ::
  "client \<Rightarrow> 's exchange \<Rightarrow> string \<Rightarrow> vid \<Rightarrow> vec \<Rightarrow> meta option \<Rightarrow> 's \<Rightarrow> (client_exc + unit) \<times> 's" where
  "update_with_vector cl ex col i v payload s =
     (let put = (\<lambda>m s. apfst (map_sum id (\<lambda>_. ())) (client_upsert cl ex col [vector_record i (map JFloat v) m] s)) in
      case payload of
        Some p \<Rightarrow> put p s
      | None \<Rightarrow>
         (case client_get cl ex col i False s of
            (Inl (Api e), s1) \<Rightarrow> if ae_class e = VectorMissing then put [] s1 else (Inl (Api e), s1)
          | (Inl e, s1) \<Rightarrow> (Inl e, s1)
          | (Inr j, s1) \<Rightarrow>
             (case answer_field j ''metadata'' (JObj []) of
                Inl e \<Rightarrow> (Inl e, s1)
              | Inr (JObj m) \<Rightarrow> put m s1
              | Inr _ \<Rightarrow> put [] s1)))"

text \<open>
  \<open>update\<close> without one: the stored embedding is read and written back with the merged metadata; an
  answer without an embedding is refused.
\<close>

definition update_metadata ::
  "client \<Rightarrow> 's exchange \<Rightarrow> string \<Rightarrow> vid \<Rightarrow> meta option \<Rightarrow> 's \<Rightarrow> (client_exc + unit) \<times> 's" where
  "update_metadata cl ex col i payload s =
     (case client_get cl ex col i True s of
        (Inl (Api e), s1) \<Rightarrow>
          (if ae_class e = VectorMissing then Inl (Py (ValueError ''cannot update metadata for unknown vector id'')) else Inl (Api e), s1)
      | (Inl e, s1) \<Rightarrow> (Inl e, s1)
      | (Inr (JObj d), s1) \<Rightarrow>
         (case (body_field d ''embedding'', py_or (body_field d ''metadata'') (JObj [])) of
            (JNull, _) \<Rightarrow> (Inl (Py (ValueError ''metadata-only update for a consolidated vector requires passing vector=...'')), s1)
          | (JList values, JObj m) \<Rightarrow>
              apfst (map_sum id (\<lambda>_. ())) (client_upsert cl ex col
                [vector_record i values (meta_update m (case payload of None \<Rightarrow> [] | Some p \<Rightarrow> p))] s1)
          | _ \<Rightarrow> (Inl (Py (OtherError ''TypeError'')), s1))
      | (Inr _, s1) \<Rightarrow> (Inl attribute_error, s1))"

definition update_vector ::
  "client \<Rightarrow> 's exchange \<Rightarrow> string \<Rightarrow> vid \<Rightarrow> vec option \<Rightarrow> meta option \<Rightarrow> 's \<Rightarrow> (client_exc + unit) \<times> 's" where
  "update_vector cl ex col i vector payload s =
     (case vector of Some v \<Rightarrow> update_with_vector cl ex col i v payload s | None \<Rightarrow> update_metadata cl ex col i payload s)"

definition delete_memory :: "client \<Rightarrow> 's exchange \<Rightarrow> string \<Rightarrow> vid \<Rightarrow> 's \<Rightarrow> (client_exc + unit) \<times> 's" where
  "delete_memory cl ex col i s = client_delete cl ex col i s"

section \<open>Reads\<close>

definition get_memory :: "client \<Rightarrow> 's exchange \<Rightarrow> string \<Rightarrow> vid \<Rightarrow> 's \<Rightarrow> (client_exc + output_data option) \<times> 's" where
  "get_memory cl ex col i s =
     (case client_get cl ex col i False s of
        (Inl (Api e), s1) \<Rightarrow> (if ae_class e = VectorMissing then Inr None else Inl (Api e), s1)
      | (Inl e, s1) \<Rightarrow> (Inl e, s1)
      | (Inr row, s1) \<Rightarrow> (map_sum id Some (output_of row None), s1))"

definition normalize_filters :: "meta \<Rightarrow> meta" where
  "normalize_filters filters = filter (\<lambda>(k, v). v \<noteq> JNull) filters"

text \<open>One match: its score, 0 when it has none, as a similarity.\<close>

definition similar :: "json \<Rightarrow> client_exc + output_data" where
  "similar m =
     (case m of
        JObj d \<Rightarrow>
         if dget d ''id'' = None then Inl (Py KeyError)
         else (case finite_number (dget_or d ''score'' (JFloat (Fin 0))) of
            Inl e \<Rightarrow> Inl e | Inr x \<Rightarrow> output_of m (Some (l2_squared_to_similarity x)))
      | _ \<Rightarrow> Inl (Py (OtherError ''TypeError'')))"

definition search_memories ::
  "client \<Rightarrow> 's exchange \<Rightarrow> string \<Rightarrow> vec \<Rightarrow> int \<Rightarrow> meta \<Rightarrow> (nat \<Rightarrow> rat) \<Rightarrow> (nat \<Rightarrow> 's \<Rightarrow> 's) \<Rightarrow> nat \<Rightarrow> 's
   \<Rightarrow> ((client_exc + output_data list) \<times> 's) option" where
  "search_memories cl ex col vector top_k filters clock pause fuel s =
     (case client_query cl ex col vector top_k (normalize_filters filters) 30 clock pause fuel s of
        None \<Rightarrow> None
      | Some (Inl e, s1) \<Rightarrow> Some (Inl e, s1)
      | Some (Inr d, s1) \<Rightarrow>
          Some (case list_items (dget_or d ''matches'' (JList [])) of Inl e \<Rightarrow> Inl e | Inr ms \<Rightarrow> all_or_exc similar ms, s1))"

definition list_memories ::
  "client \<Rightarrow> 's exchange \<Rightarrow> string \<Rightarrow> meta \<Rightarrow> int \<Rightarrow> 's \<Rightarrow> (client_exc + output_data list list) \<times> 's" where
  "list_memories cl ex col filters top_k s =
     (case client_list cl ex col (normalize_filters filters) (Some top_k) None s of
        (Inl e, s1) \<Rightarrow> (Inl e, s1)
      | (Inr j, s1) \<Rightarrow>
         (case answer_field j ''vectors'' (JList []) of
            Inl e \<Rightarrow> Inl e
          | Inr vs \<Rightarrow>
             (case list_items vs of
                Inl e \<Rightarrow> Inl e
              | Inr xs \<Rightarrow> map_sum id (\<lambda>rows. [rows]) (all_or_exc (\<lambda>v. output_of v None) xs)), s1))"

section \<open>Similarity\<close>

text \<open>Distances become similarities in \<open>(0, 1]\<close>, larger for nearer vectors, so the ranking is kept.\<close>

lemma similarity_bounds: "0 \<le> d \<Longrightarrow> 0 < l2_squared_to_similarity d \<and> l2_squared_to_similarity d \<le> 1"
  by (simp add: l2_squared_to_similarity_def)

lemma similarity_antimono: "0 \<le> d \<Longrightarrow> d < e \<Longrightarrow> l2_squared_to_similarity e < l2_squared_to_similarity d"
  by (simp add: l2_squared_to_similarity_def divide_strict_left_mono)

lemma similarity_exact: "l2_squared_to_similarity d = 1 \<longleftrightarrow> d = 0"
  by (cases "1 + d = 0") (auto simp: l2_squared_to_similarity_def)

definition match_json :: "vid \<times> rat \<times> meta \<Rightarrow> json" where
  "match_json m = (case m of (i, d, metadata) \<Rightarrow> JObj [(''id'', JStr i), (''score'', JFloat (Fin d)), (''metadata'', JObj metadata)])"

lemma similar_matches:
  "all_or_exc similar (map match_json ms) =
    Inr (map (\<lambda>(i, d, metadata). \<lparr>od_id = Some i, od_score = Some (l2_squared_to_similarity d), od_payload = metadata\<rparr>) ms)"
proof (induction ms)
  case (Cons m ms)
  obtain i d metadata where m: "m = (i, d, metadata)" by (metis surj_pair)
  have "similar (match_json m) = Inr \<lparr>od_id = Some i, od_score = Some (l2_squared_to_similarity d), od_payload = metadata\<rparr>"
    by (simp add: m similar_def match_json_def output_of_def body_field_def dget_or_def py_or_def json_truthy_def)
  with Cons show ?case by (simp add: m)
qed simp

lemma similar_ranked:
  assumes "sorted (map (\<lambda>(i, d, _). d) ms)" and "list_all (\<lambda>(i, d, _). 0 \<le> d) ms" and "all_or_exc similar (map match_json ms) = Inr out"
  shows "map od_id out = map (\<lambda>(i, _). Some i) ms" and "sorted_wrt (\<lambda>x y. the (od_score y) \<le> the (od_score x)) out"
proof -
  have o: "out = map (\<lambda>(i, d, metadata). \<lparr>od_id = Some i, od_score = Some (l2_squared_to_similarity d), od_payload = metadata\<rparr>) ms"
    using assms(3) by (simp add: similar_matches)
  show "map od_id out = map (\<lambda>(i, _). Some i) ms" unfolding o by auto
  have le: "l2_squared_to_similarity e \<le> l2_squared_to_similarity d" if "0 \<le> d" "d \<le> e" for d e
    using that similarity_antimono[of d e] by (cases "d = e") auto
  show "sorted_wrt (\<lambda>x y. the (od_score y) \<le> the (od_score x)) out"
    unfolding o using assms(1,2)
    by (induction ms) (auto simp: list_all_iff intro!: le dest: bspec)
qed

section \<open>Filters\<close>

text \<open>
  A filter without null values is passed on as it is. One with a null matches nothing on the server,
  but the adapter drops that condition: what should match nothing can match everything.
\<close>

lemma normalize_filters_id: "list_all (\<lambda>(k, v). v \<noteq> JNull) filters \<Longrightarrow> normalize_filters filters = filters"
  unfolding normalize_filters_def by (rule filter_True) (auto simp: list_all_iff)

lemma normalize_filters_widens:
  shows "metadata_matches_filter m filters \<Longrightarrow> metadata_matches_filter m (normalize_filters filters)"
    and "\<not> metadata_matches_filter m [(k, JNull)]" and "metadata_matches_filter m (normalize_filters [(k, JNull)])"
  by (auto simp: metadata_matches_filter_iff filter_spec_def normalize_filters_def)

end
