(* ===== verification/Mem0_Properties.thy ===== *)
theory Mem0_Properties
  imports Mem0 Registry_Properties Shard_Uri
begin

text \<open>
  The client and the service together: the routes of \<open>services/source_registry/main.py\<close> behind the
  keep-alive transport, and what an update of a memory does to the collection. Percent encoding is
  undone by the HTTP server, which is not part of the repository: \<open>decode\<close> is a parameter, with
  \<open>urllib.parse.unquote\<close> as its instance.
\<close>

section \<open>Percent encoding\<close>

definition hex_value :: "char \<Rightarrow> nat" where
  "hex_value c = (let n = of_char c in if n \<le> 57 then n - 48 else n - 55)"

fun percent_bytes :: "string \<Rightarrow> nat list" where
  "percent_bytes (c # h # l # r) =
     (if c = CHR ''%'' then (hex_value h * 16 + hex_value l) # percent_bytes r else of_char c # percent_bytes (h # l # r))"
| "percent_bytes cs = map of_char cs"

fun utf8_chars :: "nat list \<Rightarrow> string" where
  "utf8_chars (b # c # r) =
     (if b < 128 then char_of b # utf8_chars (c # r) else char_of ((b - 192) * 64 + (c - 128)) # utf8_chars r)"
| "utf8_chars bs = map char_of bs"

definition unquote :: "string \<Rightarrow> string" where
  "unquote s = utf8_chars (percent_bytes s)"

text \<open>What the client relies on: a plain prefix stays, a quoted rest comes back.\<close>

definition plain :: "char \<Rightarrow> bool" where
  "plain c \<longleftrightarrow> (of_char c :: nat) < 128 \<and> c \<noteq> CHR ''%''"

definition decodes :: "(string \<Rightarrow> string) \<Rightarrow> bool" where
  "decodes decode \<longleftrightarrow> (\<forall>p s. list_all plain p \<longrightarrow> decode (p @ quote s) = p @ s)"

lemma percent_plain: "c \<noteq> CHR ''%'' \<Longrightarrow> percent_bytes (c # r) = of_char c # percent_bytes r"
proof (cases r)
  case (Cons x xs)
  then show "c \<noteq> CHR ''%'' \<Longrightarrow> percent_bytes (c # r) = of_char c # percent_bytes r" by (cases xs) simp_all
qed simp

lemma hex_digits: "n < 16 \<Longrightarrow> hex_value (hex_upper n) = n"
  by (auto simp: hex_value_def hex_upper_def Let_def)

lemma percent_code: "b < 256 \<Longrightarrow> percent_bytes (CHR ''%'' # hex_upper (b div 16) # hex_upper (b mod 16) # r) = b # percent_bytes r"
  by (simp add: hex_digits div_mult_mod_eq)

lemma char_below: "(of_char c :: nat) < 256"
  using of_char_mod_256[of c, where 'a = nat] by (metis mod_less_divisor zero_less_numeral)

lemma percent_quote_char: "percent_bytes (quote_char c @ r) = utf8_bytes c @ percent_bytes r"
proof (cases "unreserved c")
  case True
  then have "c \<noteq> CHR ''%''" and "(of_char c :: nat) < 128"
    by (auto simp: unreserved_def is_alnum_def Let_def)
  with True show ?thesis by (simp add: quote_char_def percent_plain utf8_bytes_def)
next
  case False
  have b: "list_all (\<lambda>b. b < 256) (utf8_bytes c)"
  proof -
    have "(of_char c :: nat) div 64 < 4" by (rule less_mult_imp_div_less) (use char_below[of c] in simp)
    moreover have "(of_char c :: nat) mod 64 < 64" by simp
    ultimately show ?thesis by (auto simp: utf8_bytes_def Let_def)
  qed
  have "percent_bytes (concat (map (\<lambda>b. [CHR ''%'', hex_upper (b div 16), hex_upper (b mod 16)]) bs) @ r) = bs @ percent_bytes r"
    if "list_all (\<lambda>b. b < 256) bs" for bs
    using that by (induction bs) (simp_all add: percent_code del: percent_bytes.simps)
  from this[OF b] show ?thesis using False by (simp add: quote_char_def)
qed

lemma utf8_plain: "b < 128 \<Longrightarrow> utf8_chars (b # bs) = char_of b # utf8_chars bs"
  by (cases bs) auto

lemma utf8_char: "utf8_chars (utf8_bytes c @ bs) = c # utf8_chars bs"
proof (cases "(of_char c :: nat) < 128")
  case True
  then show ?thesis by (simp add: utf8_bytes_def utf8_plain)
next
  case False
  have "(of_char c :: nat) div 64 * 64 + of_char c mod 64 = of_char c" by simp
  with False show ?thesis by (simp add: utf8_bytes_def Let_def)
qed

lemma unquote_decodes: "decodes unquote"
proof -
  have q: "unquote (quote s) = s" for s
  proof -
    have "percent_bytes (concat (map quote_char s)) = concat (map utf8_bytes s)"
      by (induction s) (simp_all add: percent_quote_char)
    moreover have "utf8_chars (concat (map utf8_bytes s)) = s" by (induction s) (simp_all add: utf8_char)
    ultimately show ?thesis by (simp add: unquote_def quote_def)
  qed
  have "unquote (p @ r) = p @ unquote r" if "list_all plain p" for p r
    using that by (induction p) (simp_all add: unquote_def plain_def percent_plain utf8_plain)
  with q show ?thesis by (simp add: decodes_def)
qed

section \<open>The service behind a socket\<close>

text \<open>
  \<open>render\<close> is the JSON text of an answer. An exception that escapes a handler is a 500; an empty answer
  has no body.
\<close>

definition http_answer :: "(json \<Rightarrow> string) \<Rightarrow> pyexc + response \<Rightarrow> int \<times> string" where
  "http_answer render res =
     (case res of
        Inl _ \<Rightarrow> (500, ''Internal Server Error'')
      | Inr (c, j) \<Rightarrow> (c, if j = JNull then [] else render j))"

definition unrouted :: "int \<times> string" where
  "unrouted = (404, ''Not Found'')"

text \<open>The routes under \<open>/v1/datasets\<close> that the client uses; the tenant is the authenticated one.\<close>

definition cp_vector :: "'i rcfg \<Rightarrow> (json \<Rightarrow> string) \<Rightarrow> tenant \<Rightarrow> time \<Rightarrow> string \<Rightarrow> string \<Rightarrow> http_request \<Rightarrow> string \<Rightarrow> vid \<Rightarrow> 'i site
   \<Rightarrow> (int \<times> string) \<times> 'i site" where
  "cp_vector cfg render tn now job uid rq name i = (\<lambda>(w, a).
     if hq_method rq = ''GET''
     then (http_answer render (get_vector_endpoint cfg w tn name i (dget (hq_params rq) ''include_values'')), w, a)
     else if hq_method rq = ''DELETE''
     then (let (r, w1) = delete_vector_endpoint cfg w tn name i now job uid in (http_answer render (Inr r), w1, a))
     else (unrouted, w, a))"

definition cp_vectors :: "'i rcfg \<Rightarrow> (json \<Rightarrow> string) \<Rightarrow> tenant \<Rightarrow> time \<Rightarrow> string \<Rightarrow> string \<Rightarrow> http_request \<Rightarrow> string \<Rightarrow> 'i site
   \<Rightarrow> (int \<times> string) \<times> 'i site" where
  "cp_vectors cfg render tn now job uid rq name = (\<lambda>(w, a).
     if hq_method rq = ''POST''
     then (let (r, site) = post_vectors cfg (w, a) tn name (case hq_body rq of None \<Rightarrow> [] | Some b \<Rightarrow> b) now job uid
           in (http_answer render r, site))
     else if hq_method rq = ''GET''
     then (http_answer render (list_vectors_endpoint cfg w tn name (dget (hq_params rq) ''limit'') (dget (hq_params rq) ''cursor'')
             (dget (hq_params rq) ''filter'')), w, a)
     else (unrouted, w, a))"

definition cp_dataset :: "'i rcfg \<Rightarrow> (json \<Rightarrow> string) \<Rightarrow> tenant \<Rightarrow> time \<Rightarrow> http_request \<Rightarrow> string \<Rightarrow> 'i site \<Rightarrow> (int \<times> string) \<times> 'i site" where
  "cp_dataset cfg render tn now rq name = (\<lambda>(w, a).
     if hq_method rq = ''GET'' then (http_answer render (Inr (get_dataset_endpoint cfg w tn name)), w, a)
     else if hq_method rq = ''DELETE''
     then (let (r, w1) = delete_dataset_endpoint w tn name now in (http_answer render (Inr r), w1, a))
     else (unrouted, w, a))"

definition cp_datasets :: "'i rcfg \<Rightarrow> (json \<Rightarrow> string) \<Rightarrow> tenant \<Rightarrow> time \<Rightarrow> http_request \<Rightarrow> 'i site \<Rightarrow> (int \<times> string) \<times> 'i site" where
  "cp_datasets cfg render tn now rq = (\<lambda>(w, a).
     if hq_method rq = ''POST''
     then (let body = (case hq_body rq of None \<Rightarrow> None | Some b \<Rightarrow> (case ve_loads (rc_v cfg) b of Inr j \<Rightarrow> Some j | Inl _ \<Rightarrow> None));
               (r, w1) = create_dataset_endpoint cfg w tn body now
           in (http_answer render (Inr r), w1, a))
     else if hq_method rq = ''GET'' then (http_answer render (Inr (list_datasets_endpoint cfg w tn)), w, a)
     else (unrouted, w, a))"

definition cp_serve ::
  "'i rcfg \<Rightarrow> (json \<Rightarrow> string) \<Rightarrow> (string \<Rightarrow> string) \<Rightarrow> tenant \<Rightarrow> time \<Rightarrow> string \<Rightarrow> string \<Rightarrow> http_request \<Rightarrow> 'i site
   \<Rightarrow> (int \<times> string) \<times> 'i site" where
  "cp_serve cfg render decode tn now job uid rq site =
     (case split_on CHR ''/'' (decode (hq_path rq)) of
        [] # v # ds # rest \<Rightarrow>
          if v = ''v1'' \<and> ds = ''datasets''
          then (case rest of
              [] \<Rightarrow> cp_datasets cfg render tn now rq site
            | [name] \<Rightarrow> cp_dataset cfg render tn now rq name site
            | [name, part] \<Rightarrow> if part = ''vectors'' then cp_vectors cfg render tn now job uid rq name site else (unrouted, site)
            | [name, part, i] \<Rightarrow> if part = ''vectors'' then cp_vector cfg render tn now job uid rq name i site else (unrouted, site)
            | _ \<Rightarrow> (unrouted, site))
          else (unrouted, site)
      | _ \<Rightarrow> (unrouted, site))"

lemma keep_alive_sel:
  "hq_method (keep_alive rq) = hq_method rq" "hq_path (keep_alive rq) = hq_path rq" "hq_params (keep_alive rq) = hq_params rq"
  "hq_body (keep_alive rq) = hq_body rq"
  by (simp_all add: keep_alive_def)

lemma serve_keep_alive: "cp_serve cfg render decode tn now job uid (keep_alive rq) site = cp_serve cfg render decode tn now job uid rq site"
  unfolding cp_serve_def cp_vector_def cp_vectors_def cp_dataset_def cp_datasets_def keep_alive_sel ..

lemma name_plain: "list_all name_char name \<Longrightarrow> list_all plain name \<and> CHR ''/'' \<notin> set name"
  by (induction name) (auto simp: name_char_def plain_def)

text \<open>The paths of the client come out as the dataset and the id, unless the id has a slash.\<close>

lemma vectors_routed:
  assumes "decodes decode" and "list_all name_char name" and "hq_path rq = vectors_path name"
  shows "cp_serve cfg render decode tn now job uid rq site = cp_vectors cfg render tn now job uid rq name site"
proof -
  note n = name_plain[OF assms(2)]
  have "list_all plain (vectors_path name)" using n by (simp add: vectors_path_def dataset_path_def plain_def)
  then have "decode (vectors_path name @ quote []) = vectors_path name @ []" using assms(1) unfolding decodes_def by blast
  then have "decode (vectors_path name) = vectors_path name" by (simp add: quote_def)
  moreover have "split_on CHR ''/'' (vectors_path name) = [[], ''v1'', ''datasets'', name, ''vectors'']"
    using n by (simp add: vectors_path_def dataset_path_def split_on_Cons split_on_part)
  ultimately show ?thesis using assms(3) by (simp add: cp_serve_def)
qed

lemma vector_routed:
  assumes "decodes decode" and "list_all name_char name" and "hq_path rq = vector_path name i"
  shows "CHR ''/'' \<notin> set i \<Longrightarrow>
      cp_serve cfg render decode tn now job uid rq site = cp_vector cfg render tn now job uid rq name i site"
    and "CHR ''/'' \<in> set i \<Longrightarrow> cp_serve cfg render decode tn now job uid rq site = (unrouted, site)"
proof -
  note n = name_plain[OF assms(2)]
  have "list_all plain (vectors_path name @ ''/'')" using n by (simp add: vectors_path_def dataset_path_def plain_def)
  then have "decode ((vectors_path name @ ''/'') @ quote i) = (vectors_path name @ ''/'') @ i"
    using assms(1) unfolding decodes_def by blast
  then have d: "decode (vector_path name i) = (vectors_path name @ ''/'') @ i" by (simp add: vector_path_def)
  have sp: "split_on CHR ''/'' ((vectors_path name @ ''/'') @ i) = [[], ''v1'', ''datasets'', name, ''vectors''] @ split_on CHR ''/'' i"
    using n by (simp add: vectors_path_def dataset_path_def split_on_Cons)
  show "CHR ''/'' \<notin> set i \<Longrightarrow>
      cp_serve cfg render decode tn now job uid rq site = cp_vector cfg render tn now job uid rq name i site"
    using assms(3) d sp by (simp add: cp_serve_def split_on_part)
  assume "CHR ''/'' \<in> set i"
  then obtain p r where i: "i = p @ CHR ''/'' # r" "CHR ''/'' \<notin> set p" by (meson split_list_first)
  obtain x xs where "split_on CHR ''/'' r = x # xs"
    using split_on_join[of "CHR ''/''" r "split_on CHR ''/'' r"] by (cases "split_on CHR ''/'' r") auto
  then show "cp_serve cfg render decode tn now job uid rq site = (unrouted, site)"
    using assms(3) d sp i by (simp add: cp_serve_def split_on_Cons)
qed

section \<open>Updating the metadata of a memory\<close>

text \<open>What a client reads back is the JSON that was written.\<close>

definition reads_back :: "client \<Rightarrow> (json \<Rightarrow> string) \<Rightarrow> json \<Rightarrow> bool" where
  "reads_back cl render j \<longleftrightarrow> render j \<noteq> [] \<and> cl_loads cl (render j) = Some j"

definition memory_record :: "vid \<Rightarrow> cell \<Rightarrow> meta \<Rightarrow> json" where
  "memory_record i c p = vector_record i (map JFloat (c_values c)) (meta_update (c_metadata c) p)"

text \<open>The collection in which exactly the metadata of one memory changed.\<close>

definition metadata_updated :: "'i rcfg \<Rightarrow> 'i world \<Rightarrow> key \<Rightarrow> vid \<Rightarrow> cell \<Rightarrow> meta \<Rightarrow> 'i world \<Rightarrow> bool" where
  "metadata_updated cfg w k i c p w' \<longleftrightarrow> (\<forall>j iv. get_vector_endpoint cfg w' (fst k) (snd k) j iv =
     (if j = i then Inr (vector_body i (meta_update (c_metadata c) p) (if is_truthy_query_flag iv then Some (c_values c) else None))
      else get_vector_endpoint cfg w (fst k) (snd k) j iv))"

lemma post_updates:
  assumes "serving cfg w k" and "batch_of cfg w k body ([memory_record i c p], [])"
    and "ve_loads (rc_v cfg) (ve_dumps (rc_v cfg) (memory_record i c p)) = Inr (memory_record i c p)"
    and "rs_store (be_pg (rc_env cfg)) (be_recall (rc_env cfg)) (c_values c) = c_values c"
    and "post_vectors cfg (w, a) (fst k) (snd k) body now job uid = (res, w', a')"
  shows "metadata_updated cfg w k i c p w' \<or> w' = w \<and> (answer_code res = None \<or> (\<exists>n. answer_code res = Some n \<and> 400 \<le> n))"
proof (cases "reaches_store cfg w a k body now job uid res w' a'")
  case False
  then show ?thesis using post_vectors_cases[OF assms(5)] by auto
next
  case True
  have dumps: "list_all (\<lambda>x. ve_loads (rc_v cfg) (ve_dumps (rc_v cfg) x) = Inr x) [memory_record i c p]" using assms(3) by simp
  note st = post_recall_stored[OF True assms(2,1) dumps]
  note ans = serving_answer[OF assms(1), of w' "map vrec_of [memory_record i c p]" now]
  have s': "serving cfg w' k" using ans(1) st by simp
  have v: "vrec_of (memory_record i c p) =
      \<lparr>rec_id = i, rec_values = c_values c, rec_metadata = Some (meta_update (c_metadata c) p)\<rparr>"
    by (simp add: vrec_of_def memory_record_def vector_record_def str_field_def comp_def)
  have "id_answer cfg w' k j iv = (if j = i
      then vector_body i (meta_update (c_metadata c) p) (if is_truthy_query_flag iv then Some (c_values c) else None)
      else id_answer cfg w k j iv)" for j iv
    using ans(2)[of j iv] st assms(4) by (simp add: v find_last_def meta_or_def)
  then show ?thesis using get_endpoint[OF s'] get_endpoint[OF assms(1)] by (simp add: metadata_updated_def)
qed

lemma read_memory:
  assumes "serving cfg w k" and "look_of (rc_env cfg) w k i = Some c" and "shard_mark w k < c_lsn c" and "\<not> c_deleted c"
    and "hq_method rq = ''GET''" and "dget (hq_params rq) ''include_values'' = Some ''true''"
  shows "cp_vector cfg render (fst k) now job uid rq (snd k) i (w, a) =
    ((200, render (JObj [(''id'', JStr i), (''metadata'', JObj (c_metadata c)), (''embedding'', JList (map JFloat (c_values c)))])), w, a)"
proof -
  have "is_truthy_query_flag (Some ''true'')" by code_simp
  with assms show ?thesis
    by (simp add: cp_vector_def get_endpoint id_answer_def http_answer_def vector_body_def)
qed

text \<open>
  C8. A metadata-only update of a memory never touches its vector, and happens as a whole or not at
  all. Through the adapter, the client's transport (a stale connection and lost answers included), the
  routes and the recall tier: afterwards either nothing has changed, or GET answers the memory with the
  merged metadata and the very embedding it had, and every other id as before; and when the adapter
  returns normally, it is the latter. Assumed are a memory in the recall tier, an id without a slash,
  JSON that reads back, and that the merged record passes the record check.
\<close>

theorem memory_update_atomic:
  assumes "wired_to (cp_serve cfg render decode (fst k) now job uid) net" and "decodes decode"
    and "list_all name_char (snd k)" and "CHR ''/'' \<notin> set i"
    and "serving cfg w k" and "look_of (rc_env cfg) w k i = Some c" and "shard_mark w k < c_lsn c" and "\<not> c_deleted c"
    and "rs_store (be_pg (rc_env cfg)) (be_recall (rc_env cfg)) (c_values c) = c_values c"
    and "reads_back cl render (JObj [(''id'', JStr i), (''metadata'', JObj (c_metadata c)), (''embedding'', JList (map JFloat (c_values c)))])"
    and "batch_of cfg w k (cl_dumps cl (memory_record i c p)) ([memory_record i c p], [])"
    and "ve_loads (rc_v cfg) (ve_dumps (rc_v cfg) (memory_record i c p)) = Inr (memory_record i c p)"
    and "update_vector cl (fallback_request net) (snd k) i None (Some p) (reused, w, a) = (r, kept, w', a')"
  shows "(metadata_updated cfg w k i c p w' \<or> w' = w) \<and> (r = Inr () \<longrightarrow> metadata_updated cfg w k i c p w')"
proof -
  let ?get = "request_of cl ''GET'' (vector_path (snd k) i) None [(''include_values'', Some ''true'')]"
  let ?post = "request_of cl ''POST'' (vectors_path (snd k)) (Some (''application/x-ndjson'', cl_dumps cl (memory_record i c p))) []"
  let ?srv = "cp_serve cfg render decode (fst k) now job uid"
  let ?row = "[(''id'', JStr i), (''metadata'', JObj (c_metadata c)), (''embedding'', JList (map JFloat (c_values c)))]"
  have rq: "hq_method ?get = ''GET''" "hq_path ?get = vector_path (snd k) i" "dget (hq_params ?get) ''include_values'' = Some ''true''"
    by (simp_all add: request_of_def set_params_def)
  have get: "?srv ?get (w, a) = ((200, render (JObj ?row)), w, a)"
    by (simp only: vector_routed(1)[OF assms(2,3) rq(2) assms(4)] read_memory[OF assms(5-8) rq(1,3)])
  obtain res w1 a1 where res: "post_vectors cfg (w, a) (fst k) (snd k) (cl_dumps cl (memory_record i c p)) now job uid = (res, w1, a1)"
    by (metis surj_pair)
  moreover have "hq_method ?post = ''POST''" "hq_body ?post = Some (cl_dumps cl (memory_record i c p))"
    and path: "hq_path ?post = vectors_path (snd k)" by (simp_all add: request_of_def)
  ultimately have post: "?srv ?post (w, a) = (http_answer render res, w1, a1)"
    unfolding vectors_routed[OF assms(2,3) path] by (simp add: cp_vectors_def)
  note up = post_updates[OF assms(5,11,12,9) res]
  obtain g k1 s1 where g: "client_request cl (fallback_request net) ''GET'' (vector_path (snd k) i) None
      [(''include_values'', Some ''true'')] (reused, w, a) = (g, k1, s1)" by (metis surj_pair)
  note got = client_request_wired[OF assms(1) serve_keep_alive g, unfolded get]
  note run = assms(13)[unfolded update_vector_def option.case update_metadata_def client_get_def call_json_def if_True g prod.case]
  show ?thesis
  proof (cases g)
    case (Inl e)
    then have "e = Api transport_error" "s1 = (w, a)" using got by auto
    then have "w' = w" "r \<noteq> Inr ()" using run unfolding Inl by (auto simp: transport_error_def)
    then show ?thesis by simp
  next
    case (Inr content)
    then have "content = render (JObj ?row)" and s1: "s1 = (w, a)" using got by auto
    then have j: "response_json cl content = Inr (JObj ?row)" using assms(10) by (simp add: response_json_def reads_back_def)
    have m: "py_or (JObj (c_metadata c)) (JObj []) = JObj (c_metadata c)" by (simp add: py_or_def json_truthy_def)
    obtain h k2 s2 where h: "client_request cl (fallback_request net) ''POST'' (vectors_path (snd k))
        (Some (''application/x-ndjson'', cl_dumps cl (memory_record i c p))) [] (k1, w, a) = (h, k2, s2)" by (metis surj_pair)
    note posted = client_request_wired[OF assms(1) serve_keep_alive h, unfolded post]
    have "w' = fst s2" and r: "r = Inr () \<Longrightarrow> \<exists>x. h = Inr x"
      using run h unfolding Inr s1 sum.case j
      by (auto simp: body_field_def dget_or_def m client_upsert_def call_json_def join_def memory_record_def split: sum.splits)
    moreover have "h = Inr x \<Longrightarrow> fst s2 = w1 \<and> (\<exists>n. answer_code res = Some n \<and> n < 400)" for x
      using posted by (cases res) (auto simp: http_answer_def split: if_splits)
    ultimately show ?thesis using up posted by auto
  qed
qed

text \<open>
  An id with a slash passes the record check, but no path of the client reaches it: its memory can be
  inserted and updated with a vector, and neither read nor deleted by id.
\<close>

lemma slash_ids_unreachable:
  assumes "wired_to (cp_serve cfg render decode tn now job uid) net" and "decodes decode"
    and "list_all name_char name" and "CHR ''/'' \<in> set i"
    and "delete_memory cl (fallback_request net) name i (reused, site) = (r, kept, site')"
  shows "site' = site" and "\<exists>e. r = Inl (Api e)"
proof -
  have path: "hq_path (request_of cl ''DELETE'' (vector_path name i) None []) = vector_path name i" by (simp add: request_of_def)
  note away = vector_routed(2)[OF assms(2,3) path assms(4)]
  obtain g k1 s1 where g: "client_request cl (fallback_request net) ''DELETE'' (vector_path name i) None [] (reused, site) = (g, k1, s1)"
    by (metis surj_pair)
  note sent = client_request_wired[OF assms(1) serve_keep_alive g, unfolded away]
  from g assms(5) have "r = map_sum id (\<lambda>_. ()) g" "site' = s1" by (auto simp: delete_memory_def client_delete_def)
  then show "site' = site" and "\<exists>e. r = Inl (Api e)" using sent by (auto simp: unrouted_def)
qed

section \<open>Witness\<close>

text \<open>The collection of the demo batch; the JSON text of the merged record of \<open>a\<close> is \<open>M\<close>, of its row \<open>R\<close>.\<close>

definition memo_patch :: meta where
  "memo_patch = [(''x'', JInt 1)]"

definition memo_cell :: cell where
  "memo_cell = \<lparr>c_values = [Fin 1], c_metadata = [], c_lsn = 1, c_deleted = False\<rparr>"

definition memo_row :: json where
  "memo_row = JObj [(''id'', JStr ''a''), (''metadata'', JObj []), (''embedding'', JList [JFloat (Fin 1)])]"

definition memo_rcfg :: "list_index rcfg" where
  "memo_rcfg = api_rcfg\<lparr>rc_v := (rc_v api_rcfg)\<lparr>
     ve_loads := (\<lambda>s. if s = ''M'' then Inr (memory_record ''a'' memo_cell memo_patch) else Inl (OtherError ''JSONDecodeError'')),
     ve_dumps := (\<lambda>_. ''M'')\<rparr>\<rparr>"

definition memo_client :: client where
  "memo_client = \<lparr>cl_token = None, cl_dumps = (\<lambda>_. ''M''),
     cl_loads = (\<lambda>s. if s = ''R'' then Some memo_row else Some JNull), cl_float = (\<lambda>_. [])\<rparr>"

text \<open>A server that has closed the kept connection.\<close>

definition fresh_only :: "(http_request \<Rightarrow> 's \<Rightarrow> (int \<times> string) \<times> 's) \<Rightarrow> 's socket" where
  "fresh_only srv reused rq s =
     (if reused then (SendFailed, s) else (case srv rq s of ((c, content), s1) \<Rightarrow> (Replied c content, s1)))"

lemma fresh_only_wired: "wired_to srv (fresh_only srv)"
  by (simp add: wired_to_def fresh_only_def split: prod.split)

definition memo_serve :: "http_request \<Rightarrow> list_index site \<Rightarrow> (int \<times> string) \<times> list_index site" where
  "memo_serve = cp_serve memo_rcfg (\<lambda>_. ''R'') unquote (fst demo_key) 20 ''j'' ''u''"

definition memo_updated :: "(client_exc + unit) \<times> bool \<times> list_index site" where
  "memo_updated = update_vector memo_client (fallback_request (fresh_only memo_serve)) (snd demo_key) ''a'' None (Some memo_patch)
     (True, fst (snd posted), no_accounts)"

lemma memo_returns: "fst memo_updated = Inr ()"
  by code_simp

lemma memo_serving: "serving memo_rcfg (fst (snd posted)) demo_key"
proof -
  let ?w = "fst (snd posted)"
  have "reaches_store api_rcfg empty_world no_accounts demo_key api_body 10 ''j'' ''u'' (fst posted) ?w (snd (snd posted))"
    using post_vectors_cases[OF posted_parts] by (auto simp: posted_ok)
  note st = post_recall_stored[OF this api_batch empty_serving api_dumps]
  have "serving api_rcfg ?w demo_key"
    using serving_answer(1)[OF empty_serving, of ?w "map vrec_of api_good" 10] st by simp
  then show ?thesis by (simp add: serving_def memo_rcfg_def api_rcfg_def)
qed

theorem memory_update_atomic_witness:
  "get_vector_endpoint memo_rcfg (fst (snd (snd memo_updated))) (fst demo_key) (snd demo_key) ''a'' (Some ''true'') =
     Inr (vector_body ''a'' memo_patch (Some [Fin 1]))"
proof -
  have run: "update_vector memo_client (fallback_request (fresh_only memo_serve)) (snd demo_key) ''a'' None (Some memo_patch)
      (True, fst (snd posted), no_accounts) =
      (fst memo_updated, fst (snd memo_updated), fst (snd (snd memo_updated)), snd (snd (snd memo_updated)))"
    by (simp add: memo_updated_def)
  have name: "list_all name_char (snd demo_key)" and slash: "CHR ''/'' \<notin> set ''a''" by code_simp+
  have look: "look_of (rc_env memo_rcfg) (fst (snd posted)) demo_key ''a'' = Some memo_cell" by code_simp
  have mark: "shard_mark (fst (snd posted)) demo_key < c_lsn memo_cell" by code_simp
  have live: "\<not> c_deleted memo_cell" by (simp add: memo_cell_def)
  have stored: "rs_store (be_pg (rc_env memo_rcfg)) (be_recall (rc_env memo_rcfg)) (c_values memo_cell) = c_values memo_cell" by code_simp
  have row: "reads_back memo_client (\<lambda>_. ''R'') (JObj [(''id'', JStr ''a''), (''metadata'', JObj (c_metadata memo_cell)),
      (''embedding'', JList (map JFloat (c_values memo_cell)))])"
    by (simp add: reads_back_def memo_client_def memo_row_def memo_cell_def)
  have batch: "batch_of memo_rcfg (fst (snd posted)) demo_key (cl_dumps memo_client (memory_record ''a'' memo_cell memo_patch))
      ([memory_record ''a'' memo_cell memo_patch], [])" by code_simp
  have loads: "ve_loads (rc_v memo_rcfg) (ve_dumps (rc_v memo_rcfg) (memory_record ''a'' memo_cell memo_patch)) =
      Inr (memory_record ''a'' memo_cell memo_patch)" by (simp add: memo_rcfg_def)
  have "metadata_updated memo_rcfg (fst (snd posted)) demo_key ''a'' memo_cell memo_patch (fst (snd (snd memo_updated)))"
    using memory_update_atomic[OF fresh_only_wired unquote_decodes name slash memo_serving look mark live stored row batch loads,
        where r = "fst memo_updated"] run memo_returns unfolding memo_serve_def by blast
  moreover have "is_truthy_query_flag (Some ''true'')" by code_simp
  ultimately show ?thesis
    unfolding metadata_updated_def by (simp add: memo_cell_def memo_patch_def meta_update_def)
qed

end
