(* ===== verification/Build_Lock.thy ===== *)
theory Build_Lock
  imports Catalog
begin

text \<open>
  Builder replicas around \<open>dataset_build_lock\<close> (\<open>adapters/state/catalog.py\<close>): the session-level advisory
  locks of Postgres, one dedicated connection per attempt, and the builds inside. One atomic action per
  statement of the context manager; \<open>Work\<close> is any action of the body.
\<close>

section \<open>Builders and actions\<close>

text \<open>A builder between the statements, with its session and the dataset; \<open>Refused\<close> yields False.\<close>

datatype phase = Away | Opened nat key | Building nat key | Refused nat key | Released nat key

record lock_state =
  bl_held :: "(int, nat) pdict"
  bl_next :: nat
  bl_phase :: "nat \<Rightarrow> phase"
  bl_log :: "(key \<times> nat) list"

datatype lock_act = Open nat key | TryLock nat | Work nat | Unlock nat | Close nat | Lose nat

fun session_of :: "phase \<Rightarrow> nat option" where
  "session_of Away = None"
| "session_of (Opened s k) = Some s"
| "session_of (Building s k) = Some s"
| "session_of (Refused s k) = Some s"
| "session_of (Released s k) = Some s"

definition set_phase :: "nat \<Rightarrow> phase \<Rightarrow> lock_state \<Rightarrow> lock_state" where
  "set_phase i p st = st\<lparr>bl_phase := (bl_phase st)(i := p)\<rparr>"

text \<open>The end of a session releases its locks.\<close>

definition end_session :: "nat \<Rightarrow> lock_state \<Rightarrow> lock_state" where
  "end_session s st = st\<lparr>bl_held := filter (\<lambda>(ob, s'). s' \<noteq> s) (bl_held st)\<rparr>"

text \<open>
  \<open>TryLock\<close> is \<open>pg_try_advisory_lock\<close>, which a session that has the lock gets again. \<open>Close\<close> is the outer
  \<open>finally\<close> and also a crash, from any statement; \<open>Lose\<close> is a connection that breaks unnoticed while the
  builder goes on.
\<close>

fun bl_do :: "(string \<Rightarrow> nat list) \<Rightarrow> lock_act \<Rightarrow> lock_state \<Rightarrow> lock_state option" where
  "bl_do sha1 (Open i k) st =
     (if bl_phase st i = Away then Some (set_phase i (Opened (bl_next st) k) (st\<lparr>bl_next := Suc (bl_next st)\<rparr>)) else None)"
| "bl_do sha1 (TryLock i) st =
     (case bl_phase st i of
        Opened s k \<Rightarrow> Some
          (let ob = dataset_lock_objid sha1 k in
           if dget (bl_held st) ob \<in> {None, Some s} then set_phase i (Building s k) (st\<lparr>bl_held := dset ob s (bl_held st)\<rparr>)
           else set_phase i (Refused s k) st)
      | _ \<Rightarrow> None)"
| "bl_do sha1 (Work i) st =
     (case bl_phase st i of Building s k \<Rightarrow> Some (st\<lparr>bl_log := bl_log st @ [(k, s)]\<rparr>) | _ \<Rightarrow> None)"
| "bl_do sha1 (Unlock i) st =
     (case bl_phase st i of
        Building s k \<Rightarrow> Some
          (let ob = dataset_lock_objid sha1 k in
           set_phase i (Released s k) (if dget (bl_held st) ob = Some s then st\<lparr>bl_held := ddel ob (bl_held st)\<rparr> else st))
      | _ \<Rightarrow> None)"
| "bl_do sha1 (Close i) st =
     (case session_of (bl_phase st i) of Some s \<Rightarrow> Some (set_phase i Away (end_session s st)) | None \<Rightarrow> None)"
| "bl_do sha1 (Lose i) st = (case session_of (bl_phase st i) of Some s \<Rightarrow> Some (end_session s st) | None \<Rightarrow> None)"

definition no_locks :: lock_state where
  "no_locks = \<lparr>bl_held = [], bl_next = 0, bl_phase = (\<lambda>_. Away), bl_log = []\<rparr>"

text \<open>Runs in which no connection is lost.\<close>

inductive bl_reach :: "(string \<Rightarrow> nat list) \<Rightarrow> lock_state \<Rightarrow> bool" for sha1 where
  bl_init: "bl_reach sha1 no_locks"
| bl_act: "bl_reach sha1 st \<Longrightarrow> bl_do sha1 a st = Some st' \<Longrightarrow> (\<And>i. a \<noteq> Lose i) \<Longrightarrow> bl_reach sha1 st'"

section \<open>The invariant\<close>

text \<open>
  A lock is held exactly by a session inside a build; sessions belong to one builder each; and in the
  log of a dataset the sessions come in blocks, the current one last.
\<close>

definition key_log :: "lock_state \<Rightarrow> key \<Rightarrow> nat list" where
  "key_log st k = map snd (filter (\<lambda>e. fst e = k) (bl_log st))"

fun inside :: "(string \<Rightarrow> nat list) \<Rightarrow> phase \<Rightarrow> (int \<times> nat) option" where
  "inside sha1 (Building s k) = Some (dataset_lock_objid sha1 k, s)"
| "inside sha1 _ = None"

definition locks_ok :: "(string \<Rightarrow> nat list) \<Rightarrow> lock_state \<Rightarrow> bool" where
  "locks_ok sha1 st \<longleftrightarrow> dkeys_ok (bl_held st) \<and>
     (\<forall>ob s. dget (bl_held st) ob = Some s \<longleftrightarrow> (\<exists>i. inside sha1 (bl_phase st i) = Some (ob, s)))"

definition sessions_ok :: "lock_state \<Rightarrow> bool" where
  "sessions_ok st \<longleftrightarrow> (\<forall>i s. session_of (bl_phase st i) = Some s \<longrightarrow> s < bl_next st) \<and>
     (\<forall>i j s. session_of (bl_phase st i) = Some s \<longrightarrow> session_of (bl_phase st j) = Some s \<longrightarrow> i = j) \<and>
     list_all (\<lambda>e. snd e < bl_next st) (bl_log st)"

definition log_ok :: "lock_state \<Rightarrow> bool" where
  "log_ok st \<longleftrightarrow> (\<forall>k. distinct (remdups_adj (key_log st k))) \<and>
     (\<forall>i s k. bl_phase st i = Opened s k \<longrightarrow> s \<notin> snd ` set (bl_log st)) \<and>
     (\<forall>i s k. bl_phase st i = Building s k \<longrightarrow> s \<notin> set (key_log st k) \<or> last (key_log st k) = s)"

lemma remdups_adj_snoc:
  "remdups_adj (xs @ [x]) = (if xs = [] then [x] else if last xs = x then remdups_adj xs else remdups_adj xs @ [x])"
  by (induction xs rule: remdups_adj.induct) auto

lemma blocks_snoc: "distinct (remdups_adj xs) \<Longrightarrow> x \<notin> set xs \<or> last xs = x \<Longrightarrow> distinct (remdups_adj (xs @ [x]))"
  by (auto simp: remdups_adj_snoc)

lemma phase_frame [simp]:
  "bl_phase (set_phase i p st) = (bl_phase st)(i := p)" "bl_held (set_phase i p st) = bl_held st"
  "bl_next (set_phase i p st) = bl_next st" "bl_log (set_phase i p st) = bl_log st"
  "bl_phase (end_session s st) = bl_phase st" "bl_next (end_session s st) = bl_next st" "bl_log (end_session s st) = bl_log st"
  "bl_held (end_session s st) = filter (\<lambda>(ob, s'). s' \<noteq> s) (bl_held st)"
  by (simp_all add: set_phase_def end_session_def)

lemma key_log_frame: "bl_log st' = bl_log st \<Longrightarrow> key_log st' k = key_log st k"
  by (simp add: key_log_def)

lemma inside_session: "inside sha1 p = Some (ob, s) \<Longrightarrow> session_of p = Some s"
  by (cases p) auto

lemma inside_building: "inside sha1 p = Some (ob, s) \<longleftrightarrow> (\<exists>k. p = Building s k \<and> dataset_lock_objid sha1 k = ob)"
  by (cases p) auto

lemma one_session: "sessions_ok st \<Longrightarrow> session_of (bl_phase st i) = Some s \<Longrightarrow> session_of (bl_phase st j) = Some s \<Longrightarrow> i = j"
  unfolding sessions_ok_def by blast

lemma locks_held: "locks_ok sha1 st \<Longrightarrow> dget (bl_held st) ob = Some s \<longleftrightarrow> (\<exists>i. inside sha1 (bl_phase st i) = Some (ob, s))"
  by (simp add: locks_ok_def)

lemma one_builder:
  assumes "locks_ok sha1 st" and "sessions_ok st"
    and i: "inside sha1 (bl_phase st i) = Some (ob, s)" and j: "inside sha1 (bl_phase st j) = Some (ob, s')"
  shows "i = j"
proof -
  have "dget (bl_held st) ob = Some s" "dget (bl_held st) ob = Some s'"
    using locks_held[OF assms(1)] i j by blast+
  then have "s' = s" by simp
  with i j one_session[OF assms(2)] show ?thesis by (meson inside_session)
qed

section \<open>Preservation\<close>

text \<open>No action but \<open>Open\<close> gives a builder another session.\<close>

lemma step_frame:
  assumes "bl_do sha1 a st = Some st'" and "\<And>i k. a \<noteq> Open i k"
  shows "bl_next st' = bl_next st" and "session_of (bl_phase st' j) = Some s \<Longrightarrow> session_of (bl_phase st j) = Some s"
  using assms by (cases a; auto simp: Let_def split: if_splits option.splits phase.splits)+

lemma step_log:
  assumes "bl_do sha1 a st = Some st'"
  shows "bl_log st' = bl_log st \<or> (\<exists>i s k. a = Work i \<and> bl_phase st i = Building s k \<and> bl_log st' = bl_log st @ [(k, s)])"
  using assms by (cases a; auto simp: Let_def split: if_splits option.splits phase.splits)

lemma sessions_step:
  assumes "sessions_ok st" and "bl_do sha1 a st = Some st'"
  shows "sessions_ok st'"
proof (cases "\<exists>i k. a = Open i k")
  case True
  then obtain i k where a: "a = Open i k" by blast
  have fresh: "session_of (bl_phase st j) \<noteq> Some (bl_next st)" for j using assms(1) unfolding sessions_ok_def by blast
  have "list_all (\<lambda>e. snd e < Suc (bl_next st)) (bl_log st)"
    using assms(1) unfolding sessions_ok_def by (auto elim: list.pred_mono_strong)
  with a assms fresh show ?thesis by (auto simp: sessions_ok_def less_SucI split: if_splits)
next
  case False
  note f = step_frame[OF assms(2)]
  have "list_all (\<lambda>e. snd e < bl_next st) (bl_log st')"
    using step_log[OF assms(2)]
  proof (elim disjE exE conjE)
    fix i s k
    assume w: "bl_phase st i = Building s k" "bl_log st' = bl_log st @ [(k, s)]"
    then have "session_of (bl_phase st i) = Some s" by simp
    then have "s < bl_next st" using assms(1) unfolding sessions_ok_def by blast
    with w assms(1) show ?thesis by (simp add: sessions_ok_def)
  qed (use assms(1) in \<open>simp add: sessions_ok_def\<close>)
  moreover have "bl_next st' = bl_next st" "\<And>j s. session_of (bl_phase st' j) = Some s \<Longrightarrow> session_of (bl_phase st j) = Some s"
    using f False by blast+
  ultimately show ?thesis using assms(1) unfolding sessions_ok_def by metis
qed

text \<open>
  A held lock has its builder: a lock is taken only free or again by its session, and given up with the
  build.
\<close>

lemma ex_upd: "(\<exists>j. f ((g(i := p)) j) = x) \<longleftrightarrow> f p = x \<or> (\<exists>j. j \<noteq> i \<and> f (g j) = x)"
  by auto

lemma locks_step:
  assumes ok: "locks_ok sha1 st" "sessions_ok st" and step: "bl_do sha1 a st = Some st'" and kept: "\<And>i. a \<noteq> Lose i"
  shows "locks_ok sha1 st'"
proof -
  note held = locks_held[OF ok(1)] and keys = ok(1)[unfolded locks_ok_def, THEN conjunct1]
  have at: "dget (bl_held st) ob = Some s \<longleftrightarrow>
      inside sha1 (bl_phase st i) = Some (ob, s) \<or> (\<exists>j. j \<noteq> i \<and> inside sha1 (bl_phase st j) = Some (ob, s))" for ob s i
    by (metis held)
  show ?thesis
  proof (cases a)
    case (Open i k)
    with step have "bl_phase st i = Away" "st' = set_phase i (Opened (bl_next st) k) (st\<lparr>bl_next := Suc (bl_next st)\<rparr>)"
      by (simp_all split: if_splits)
    with keys show ?thesis unfolding locks_ok_def by simp (metis held inside.simps(2) option.distinct(1))
  next
    case (TryLock i)
    then obtain s k where p: "bl_phase st i = Opened s k" using step by (auto split: phase.splits)
    let ?ob = "dataset_lock_objid sha1 k"
    show ?thesis
    proof (cases "dget (bl_held st) ?ob \<in> {None, Some s}")
      case False
      then have "st' = set_phase i (Refused s k) st" using TryLock p step by (auto simp: Let_def)
      with keys p show ?thesis unfolding locks_ok_def by simp (metis held inside.simps(3,4) option.distinct(1))
    next
      case True
      have "dget (bl_held st) ?ob \<noteq> Some s"
      proof
        assume "dget (bl_held st) ?ob = Some s"
        then obtain j where j: "inside sha1 (bl_phase st j) = Some (?ob, s)" using held by blast
        then have "j = i" using one_session[OF ok(2)] inside_session[OF j] p by simp
        with j p show False by simp
      qed
      then have free: "dget (bl_held st) ?ob = None" using True by blast
      then have st': "st' = set_phase i (Building s k) (st\<lparr>bl_held := dset ?ob s (bl_held st)\<rparr>)" using TryLock p step by simp
      have i: "inside sha1 (bl_phase st i) = None" using p by simp
      have "dget (dset ?ob s (bl_held st)) ob = Some t \<longleftrightarrow> (\<exists>j. inside sha1 (((bl_phase st)(i := Building s k)) j) = Some (ob, t))" for ob t
        unfolding ex_upd using at[of ob t i] held[of ?ob t] free i by (auto simp: pdict_simps)
      with keys show ?thesis by (simp add: st' locks_ok_def)
    qed
  next
    case (Work i)
    with step ok(1) show ?thesis by (auto simp: locks_ok_def split: phase.splits)
  next
    case (Unlock i)
    then obtain s k where p: "bl_phase st i = Building s k" using step by (auto split: phase.splits)
    let ?ob = "dataset_lock_objid sha1 k"
    have i: "inside sha1 (bl_phase st i) = Some (?ob, s)" using p by simp
    then have "dget (bl_held st) ?ob = Some s" using held by blast
    then have st': "st' = set_phase i (Released s k) (st\<lparr>bl_held := ddel ?ob (bl_held st)\<rparr>)" using Unlock p step by simp
    have "dget (ddel ?ob (bl_held st)) ob = Some t \<longleftrightarrow> (\<exists>j. inside sha1 (((bl_phase st)(i := Released s k)) j) = Some (ob, t))" for ob t
    proof (cases "ob = ?ob")
      case True
      have "j = i" if "inside sha1 (bl_phase st j) = Some (?ob, t)" for j
        using one_builder[OF ok that i] .
      with True show ?thesis unfolding ex_upd by (auto simp: pdict_simps)
    next
      case False
      then show ?thesis unfolding ex_upd using at[of ob t i] i by (simp add: pdict_simps)
    qed
    with keys show ?thesis by (simp add: st' locks_ok_def)
  next
    case (Close i)
    then obtain s where p: "session_of (bl_phase st i) = Some s" and st': "st' = set_phase i Away (end_session s st)"
      using step by (auto split: option.splits)
    have "dget (filter (\<lambda>(ob, s'). s' \<noteq> s) (bl_held st)) ob = Some t \<longleftrightarrow>
        (\<exists>j. inside sha1 (((bl_phase st)(i := Away)) j) = Some (ob, t))" for ob t
    proof -
      have "dget (filter (\<lambda>(ob, s'). s' \<noteq> s) (bl_held st)) ob = Some t \<longleftrightarrow> dget (bl_held st) ob = Some t \<and> t \<noteq> s"
        using keys by (auto simp: dget_filter split: option.splits)
      also have "\<dots> \<longleftrightarrow> (\<exists>j. inside sha1 (((bl_phase st)(i := Away)) j) = Some (ob, t))"
      proof -
        have "t \<noteq> s \<and> j \<noteq> i \<or> t = s \<and> j = i" if "inside sha1 (bl_phase st j) = Some (ob, t)" for j
          using one_session[OF ok(2) p, of j] inside_session[OF that] p by (cases "j = i") auto
        then show ?thesis unfolding ex_upd using at[of ob t i] by (metis inside.simps(2) option.distinct(1))
      qed
      finally show ?thesis .
    qed
    with keys show ?thesis by (simp add: st' locks_ok_def)
  next
    case (Lose i)
    with kept show ?thesis by blast
  qed
qed

text \<open>A build works on its dataset in one block: a session starts no log entry before its build and comes back to none.\<close>

lemma log_step:
  assumes ok: "locks_ok sha1 st" "sessions_ok st" "log_ok st" and step: "bl_do sha1 a st = Some st'"
  shows "log_ok st'"
proof -
  have blocks: "distinct (remdups_adj (key_log st k))" for k using ok(3) unfolding log_ok_def by blast
  have unlogged: "bl_phase st i = Opened s k \<Longrightarrow> s \<notin> snd ` set (bl_log st)" for i s k using ok(3) unfolding log_ok_def by blast
  have current: "bl_phase st i = Building s k \<Longrightarrow> s \<notin> set (key_log st k) \<or> last (key_log st k) = s" for i s k
    using ok(3) unfolding log_ok_def by blast
  have logged: "e \<in> set (bl_log st) \<Longrightarrow> snd e < bl_next st" for e
    using ok(2) by (auto simp: sessions_ok_def list_all_iff)
  show ?thesis
  proof (cases "\<exists>i. a = Work i")
    case True
    then obtain i s k where p: "bl_phase st i = Building s k" and st': "st' = st\<lparr>bl_log := bl_log st @ [(k, s)]\<rparr>"
      using step by (auto split: phase.splits)
    have kl: "key_log st' k' = (if k' = k then key_log st k @ [s] else key_log st k')" for k'
      by (simp add: key_log_def st')
    have "distinct (remdups_adj (key_log st' k'))" for k'
      by (simp add: kl blocks blocks_snoc[OF blocks current[OF p]])
    moreover have "s' \<notin> snd ` set (bl_log st')" if "bl_phase st' j = Opened s' k'" for j s' k'
    proof -
      have "session_of (bl_phase st j) = Some s'" and "bl_phase st j \<noteq> bl_phase st i" using that p by (simp_all add: st')
      then have "s' \<noteq> s" using one_session[OF ok(2)] p by (metis session_of.simps(3))
      then show ?thesis using unlogged[of j s' k'] that by (simp add: st')
    qed
    moreover have "s' \<notin> set (key_log st' k') \<or> last (key_log st' k') = s'" if "bl_phase st' j = Building s' k'" for j s' k'
    proof (cases "k' = k")
      case True
      have "bl_phase st j = Building s' k'" using that by (simp add: st')
      then have "j = i" using one_builder[OF ok(1,2), of j "dataset_lock_objid sha1 k" s' i s] p True by simp
      then have "s' = s" using that p by (simp add: st')
      with True show ?thesis by (simp add: kl)
    next
      case False
      then show ?thesis using current[of j s' k'] that[unfolded st'] by (simp add: kl)
    qed
    ultimately show ?thesis by (simp add: log_ok_def)
  next
    case False
    then have l: "bl_log st' = bl_log st" using step_log[OF step] by blast
    have opened: "s \<notin> snd ` set (bl_log st)" if "bl_phase st' j = Opened s k" for j s k
    proof (cases "\<exists>i' k'. a = Open i' k'")
      case True
      then obtain i' k' where "a = Open i' k'" by blast
      then have "bl_phase st j = Opened s k \<or> s = bl_next st" using step that by (auto split: if_splits)
      then show ?thesis using unlogged[of j s k] logged by force
    next
      case False
      then have "bl_phase st j = Opened s k"
        using step that by (cases a) (auto simp: Let_def split: if_splits option.splits phase.splits)
      then show ?thesis by (rule unlogged)
    qed
    moreover have "s \<notin> set (key_log st k) \<or> last (key_log st k) = s" if "bl_phase st' j = Building s k" for j s k
    proof -
      have "bl_phase st j = Building s k \<or> bl_phase st j = Opened s k"
        using step that by (cases a) (auto simp: Let_def split: if_splits option.splits phase.splits)
      then show ?thesis
      proof
        assume "bl_phase st j = Opened s k"
        then have "s \<notin> snd ` set (bl_log st)" by (rule unlogged)
        then show ?thesis by (auto simp: key_log_def)
      qed (rule current)
    qed
    ultimately show ?thesis using blocks by (simp add: log_ok_def l key_log_frame[OF l])
  qed
qed

lemma bl_invariant: "bl_reach sha1 st \<Longrightarrow> locks_ok sha1 st \<and> sessions_ok st \<and> log_ok st"
proof (induction rule: bl_reach.induct)
  case bl_init
  show ?case by (simp add: no_locks_def locks_ok_def sessions_ok_def log_ok_def key_log_def)
next
  case (bl_act st a st')
  then show ?case using locks_step[of sha1 st a st'] sessions_step[of st sha1 a st'] log_step[of sha1 st a st'] by blast
qed

section \<open>The lock serves its purpose\<close>

text \<open>
  C9. The builds of a dataset exclude each other, whatever the replicas do and wherever they crash. In
  every reachable state at most one builder is inside a build under a lock id; the actions of the
  builds of a dataset are not interleaved, those of one session come in one block; and no lock is
  leaked: a builder that asks is refused exactly when another one is inside under its lock id, and
  otherwise builds.
\<close>

theorem builds_exclude:
  assumes "bl_reach sha1 st"
  shows "(\<forall>i j s k s' k'. bl_phase st i = Building s k \<longrightarrow> bl_phase st j = Building s' k' \<longrightarrow>
      dataset_lock_objid sha1 k = dataset_lock_objid sha1 k' \<longrightarrow> i = j) \<and>
    (\<forall>k. distinct (remdups_adj (key_log st k))) \<and>
    (\<forall>i s k. bl_phase st i = Opened s k \<longrightarrow> (\<exists>st'. bl_do sha1 (TryLock i) st = Some st' \<and>
      bl_phase st' i = (if \<exists>j s' k'. bl_phase st j = Building s' k' \<and> dataset_lock_objid sha1 k' = dataset_lock_objid sha1 k
                        then Refused s k else Building s k)))"
proof -
  have inv: "locks_ok sha1 st" "sessions_ok st" "log_ok st" using bl_invariant[OF assms] by blast+
  have "i = j" if "bl_phase st i = Building s k" "bl_phase st j = Building s' k'" "dataset_lock_objid sha1 k = dataset_lock_objid sha1 k'"
    for i j s k s' k'
    using one_builder[OF inv(1,2), of i "dataset_lock_objid sha1 k" s j s'] that by simp
  moreover have "distinct (remdups_adj (key_log st k))" for k using inv(3) unfolding log_ok_def by blast
  moreover have "\<exists>st'. bl_do sha1 (TryLock i) st = Some st' \<and>
      bl_phase st' i = (if \<exists>j s' k'. bl_phase st j = Building s' k' \<and> dataset_lock_objid sha1 k' = dataset_lock_objid sha1 k
                        then Refused s k else Building s k)" if p: "bl_phase st i = Opened s k" for i s k
  proof (cases "dget (bl_held st) (dataset_lock_objid sha1 k)")
    case None
    then have "\<not> (\<exists>j s' k'. bl_phase st j = Building s' k' \<and> dataset_lock_objid sha1 k' = dataset_lock_objid sha1 k)"
      using locks_held[OF inv(1), of "dataset_lock_objid sha1 k"] by (metis inside.simps(1) option.distinct(1))
    with None p show ?thesis by (simp add: Let_def)
  next
    case (Some t)
    then obtain j where j: "inside sha1 (bl_phase st j) = Some (dataset_lock_objid sha1 k, t)" using locks_held[OF inv(1)] by blast
    have "t \<noteq> s"
    proof
      assume "t = s"
      then have "j = i" using one_session[OF inv(2)] inside_session[OF j] p by simp
      with j p show False by simp
    qed
    moreover have "\<exists>j s' k'. bl_phase st j = Building s' k' \<and> dataset_lock_objid sha1 k' = dataset_lock_objid sha1 k"
      using j inside_building by blast
    ultimately show ?thesis using Some p by (simp add: Let_def)
  qed
  ultimately show ?thesis by blast
qed

text \<open>Runs of actions, for concrete states.\<close>

fun bl_run :: "(string \<Rightarrow> nat list) \<Rightarrow> lock_act list \<Rightarrow> lock_state \<Rightarrow> lock_state option" where
  "bl_run sha1 [] st = Some st"
| "bl_run sha1 (a # as) st = (case bl_do sha1 a st of None \<Rightarrow> None | Some st1 \<Rightarrow> bl_run sha1 as st1)"

lemma bl_run_reach: "bl_reach sha1 st \<Longrightarrow> bl_run sha1 as st = Some st' \<Longrightarrow> list_all (\<lambda>a. \<forall>i. a \<noteq> Lose i) as \<Longrightarrow> bl_reach sha1 st'"
proof (induction as arbitrary: st)
  case (Cons a as)
  then obtain st1 where "bl_do sha1 a st = Some st1" "bl_run sha1 as st1 = Some st'" by (auto split: option.splits)
  with Cons show ?case using bl_act[of sha1 st a st1] by simp
qed simp

text \<open>
  What the lock does not cover. The session ends with its connection, and the build does not notice:
  when the connection breaks, a second builder works on the dataset in between the actions of the
  first. And two datasets may share a lock id, whose builds then refuse each other.
\<close>

lemma lost_connection_two_builders:
  "\<exists>st. bl_run sha1 [Open 0 k, TryLock 0, Work 0, Lose 0, Open 1 k, TryLock 1, Work 1, Work 0] no_locks = Some st \<and>
    bl_phase st 0 = Building 0 k \<and> bl_phase st 1 = Building 1 k \<and> key_log st k = [0, 1, 0]"
  by (simp add: no_locks_def set_phase_def end_session_def key_log_def Let_def)

lemma shared_lock_id_refuses:
  assumes "dataset_lock_objid sha1 k = dataset_lock_objid sha1 k'"
  shows "\<exists>st. bl_run sha1 [Open 0 k, TryLock 0, Open 1 k', TryLock 1] no_locks = Some st \<and> bl_phase st 1 = Refused 1 k'"
  using assms by (simp add: no_locks_def set_phase_def Let_def)

definition two_builders :: "lock_act list" where
  "two_builders = [Open 0 (''t'', ''d''), TryLock 0, Open 1 (''t'', ''d''), Work 0, TryLock 1, Work 0, Close 1, Unlock 0, Open 1 (''t'', ''d''),
     Close 0, TryLock 1, Work 1]"

theorem builds_exclude_witness:
  "\<exists>st. bl_run (\<lambda>_. []) two_builders no_locks = Some st \<and> bl_phase st 1 = Building 2 (''t'', ''d'') \<and>
    key_log st (''t'', ''d'') = [0, 0, 2] \<and> distinct (remdups_adj (key_log st (''t'', ''d'')))"
proof -
  obtain st where run: "bl_run (\<lambda>_. []) two_builders no_locks = Some st" "bl_phase st 1 = Building 2 (''t'', ''d'')"
    "key_log st (''t'', ''d'') = [0, 0, 2]"
    by (simp add: two_builders_def no_locks_def set_phase_def end_session_def key_log_def dataset_lock_objid_def Let_def)
  have "bl_reach (\<lambda>_. []) st" by (rule bl_run_reach[OF bl_init run(1)]) (simp add: two_builders_def)
  from builds_exclude[OF this] have "distinct (remdups_adj (key_log st (''t'', ''d'')))" by blast
  with run show ?thesis by blast
qed

end
