(* ===== verification/Catalog_Sessions.thy ===== *)
theory Catalog_Sessions
  imports Catalog_Correct Json
begin

text \<open>
  The Postgres backend of the catalog below the level of a call (\<open>adapters/state/catalog.py\<close>,
  \<open>_PostgresBackend\<close>): the statements of concurrent transactions on \<open>dataset_catalog\<close>, interleaved under
  READ COMMITTED with row locks, and the aborted transaction behind a caught error of \<open>pg_notify\<close>.
\<close>

section \<open>Statements and calls\<close>

text \<open>
  The statements on a dataset row. \<open>SelectLive\<close> is the check of \<open>create_dataset\<close>, which raises on a live
  row; the others write. \<open>stmt_row\<close> is the row a statement writes, None when its WHERE clause has no match.
\<close>

datatype row_stmt =
    SelectLive key
  | InsertReset key int time
  | MarkDeleted key time
  | SetStatus key string "string option" "time option" time
  | FailIfStale key string "string list" time time
  | AppendSource key int uri string time
  | AddRows key int
  | SetRows key int

fun stmt_key :: "row_stmt \<Rightarrow> key" where
  "stmt_key (SelectLive k) = k"
| "stmt_key (InsertReset k dimension now) = k"
| "stmt_key (MarkDeleted k now) = k"
| "stmt_key (SetStatus k st msg indexed now) = k"
| "stmt_key (FailIfStale k msg sts cutoff now) = k"
| "stmt_key (AppendSource k dimension source fmt now) = k"
| "stmt_key (AddRows k n) = k"
| "stmt_key (SetRows k n) = k"

fun stmt_row :: "row_stmt \<Rightarrow> dsrow option \<Rightarrow> dsrow option" where
  "stmt_row (SelectLive k) r = None"
| "stmt_row (InsertReset k dimension now) None = Some (fresh_dataset dimension ''jsonl'' now)"
| "stmt_row (InsertReset k dimension now) (Some old) =
     Some (old\<lparr>d_dimension := dimension, d_row_count := 0, d_status := ''empty'', d_error := None, d_source_uris := [],
               d_last_indexed := None, d_deleted := None, d_created := now\<rparr>)"
| "stmt_row (AppendSource k dimension source fmt now) None =
     Some ((fresh_dataset dimension fmt now)\<lparr>d_source_uris := [source]\<rparr>)"
| "stmt_row (AppendSource k dimension source fmt now) (Some r) =
     Some (r\<lparr>d_source_uris := d_source_uris r @ [source], d_landing_format := fmt\<rparr>)"
| "stmt_row s None = None"
| "stmt_row (MarkDeleted k now) (Some r) = (if d_deleted r = None then Some (r\<lparr>d_deleted := Some now\<rparr>) else None)"
| "stmt_row (SetStatus k st msg indexed now) (Some r) =
     (let r1 = (if msg \<noteq> None then r\<lparr>d_status := st, d_error := msg, d_status_updated := Some now\<rparr>
                else r\<lparr>d_status := st, d_status_updated := Some now, d_error := (if st = ''error'' then d_error r else None)\<rparr>)
      in Some (if indexed \<noteq> None then r1\<lparr>d_last_indexed := Some now\<rparr> else r1))"
| "stmt_row (FailIfStale k msg sts cutoff now) (Some r) =
     (if pc_stale sts cutoff r then Some (r\<lparr>d_status := ''error'', d_status_updated := Some now, d_error := Some msg\<rparr>) else None)"
| "stmt_row (AddRows k n) (Some r) = Some (r\<lparr>d_row_count := d_row_count r + n\<rparr>)"
| "stmt_row (SetRows k n) (Some r) = Some (r\<lparr>d_row_count := max 0 n\<rparr>)"

text \<open>The methods that write a dataset row, and the statements of each.\<close>

datatype row_call =
    CreateDataset key int time
  | Writing row_stmt

fun call_stmts :: "row_call \<Rightarrow> row_stmt list" where
  "call_stmts (CreateDataset k dimension now) = [SelectLive k, InsertReset k dimension now]"
| "call_stmts (Writing s) = [s]"

section \<open>Sessions\<close>

text \<open>
  An open transaction: the statements to run, its writes, and the rows only it sees, each of which it
  has locked. The log has the statements in the order they took effect, with whether a row was written.
\<close>

record row_txn =
  tx_todo :: "row_stmt list"
  tx_wrote :: "row_stmt list"
  tx_rows :: "(key, dsrow) pdict"

record row_db =
  rd_rows :: "(key, dsrow) pdict"
  rd_open :: "(nat, row_txn) pdict"
  rd_log :: "(row_stmt \<times> bool) list"

datatype row_act = BeginTx nat row_call | RunStmt nat | CommitTx nat | AbortTx nat

definition tx_sees :: "row_db \<Rightarrow> row_txn \<Rightarrow> key \<Rightarrow> dsrow option" where
  "tx_sees db t k = (case dget (tx_rows t) k of Some r \<Rightarrow> Some r | None \<Rightarrow> dget (rd_rows db) k)"

definition row_locked :: "row_db \<Rightarrow> nat \<Rightarrow> key \<Rightarrow> bool" where
  "row_locked db i k = list_ex (\<lambda>(j, t). j \<noteq> i \<and> dget (tx_rows t) k \<noteq> None) (rd_open db)"

fun is_live :: "dsrow option \<Rightarrow> bool" where
  "is_live None = False"
| "is_live (Some r) = (d_deleted r = None)"

text \<open>
  A statement sees its transaction's rows over the committed ones. A write waits for the lock (no step)
  and looks at the row again afterwards; one that matches no row does not wait. \<open>AbortTx\<close> is an
  exception of the body, or a crash.
\<close>

fun stmt_do :: "row_act \<Rightarrow> row_db \<Rightarrow> row_db option" where
  "stmt_do (BeginTx i call) db =
     (if dget (rd_open db) i = None
      then Some (db\<lparr>rd_open := dset i \<lparr>tx_todo = call_stmts call, tx_wrote = [], tx_rows = []\<rparr> (rd_open db)\<rparr>) else None)"
| "stmt_do (RunStmt i) db =
     (case dget (rd_open db) i of
        None \<Rightarrow> None
      | Some t \<Rightarrow>
         (case tx_todo t of
            [] \<Rightarrow> None
          | SelectLive k # rest \<Rightarrow>
              Some (if is_live (tx_sees db t k) then db\<lparr>rd_open := ddel i (rd_open db)\<rparr>
                    else db\<lparr>rd_open := dset i (t\<lparr>tx_todo := rest\<rparr>) (rd_open db)\<rparr>)
          | s # rest \<Rightarrow>
             (case stmt_row s (tx_sees db t (stmt_key s)) of
                None \<Rightarrow> Some (db\<lparr>rd_open := dset i (t\<lparr>tx_todo := rest\<rparr>) (rd_open db), rd_log := rd_log db @ [(s, False)]\<rparr>)
              | Some r \<Rightarrow>
                  if row_locked db i (stmt_key s) then None
                  else Some (db\<lparr>rd_open := dset i (t\<lparr>tx_todo := rest, tx_wrote := tx_wrote t @ [s],
                                 tx_rows := dset (stmt_key s) r (tx_rows t)\<rparr>) (rd_open db)\<rparr>))))"
| "stmt_do (CommitTx i) db =
     (case dget (rd_open db) i of
        Some t \<Rightarrow>
          if tx_todo t = []
          then Some (db\<lparr>rd_rows := foldl (\<lambda>rs (k, r). dset k r rs) (rd_rows db) (tx_rows t), rd_open := ddel i (rd_open db),
                        rd_log := rd_log db @ map (\<lambda>s. (s, True)) (tx_wrote t)\<rparr>)
          else None
      | None \<Rightarrow> None)"
| "stmt_do (AbortTx i) db = (if dget (rd_open db) i = None then None else Some (db\<lparr>rd_open := ddel i (rd_open db)\<rparr>))"

inductive row_reach :: "(key, dsrow) pdict \<Rightarrow> row_db \<Rightarrow> bool" for rows where
  row_init: "row_reach rows \<lparr>rd_rows = rows, rd_open = [], rd_log = []\<rparr>"
| row_act: "row_reach rows db \<Longrightarrow> stmt_do a db = Some db' \<Longrightarrow> row_reach rows db'"

section \<open>One at a time\<close>

fun serial_run :: "(key, dsrow) pdict \<Rightarrow> row_stmt list \<Rightarrow> (key, dsrow) pdict \<times> bool list" where
  "serial_run rows [] = (rows, [])"
| "serial_run rows (s # ss) =
     (case stmt_row s (dget rows (stmt_key s)) of
        None \<Rightarrow> apsnd (Cons False) (serial_run rows ss)
      | Some r \<Rightarrow> apsnd (Cons True) (serial_run (dset (stmt_key s) r rows) ss))"

text \<open>A statement run alone is the call of the catalog.\<close>

lemma serial_is_call:
  "fst (serial_run (c_datasets c) [SetStatus k st msg ix now]) = c_datasets (pc_update_status c k st msg ix now)"
  "serial_run (c_datasets c) [FailIfStale k m sts cutoff now] =
     (c_datasets (snd (pc_fail_if_stale c k m sts cutoff now)), [fst (pc_fail_if_stale c k m sts cutoff now)])"
  "serial_run (c_datasets c) [MarkDeleted k now] =
     (c_datasets (snd (pc_delete_dataset c k now)), [fst (pc_delete_dataset c k now)])"
  "fst (serial_run (c_datasets c) [AppendSource k dm u fmt now]) = c_datasets (pc_upsert_dataset c k dm u fmt now)"
  "fst (serial_run (c_datasets c) [AddRows k n]) = c_datasets (increment_row_count c k n)"
  "fst (serial_run (c_datasets c) [SetRows k n]) = c_datasets (set_row_count c k n)"
  "\<not> is_live (dget (c_datasets c) k) \<Longrightarrow>
     fst (serial_run (c_datasets c) [InsertReset k dm now]) = c_datasets (snd (pc_create_dataset c k dm now))"
  by (auto simp: pc_update_status_def update_row_def pc_fail_if_stale_def pc_delete_dataset_def cat_row_def set_row_def
      notify_def pc_upsert_dataset_def increment_row_count_def set_row_count_def pc_create_dataset_def Let_def split: option.split)

lemma serial_run_append:
  "serial_run rows (xs @ ys) = (let (r1, b1) = serial_run rows xs; (r2, b2) = serial_run r1 ys in (r2, b1 @ b2))"
  by (induction xs arbitrary: rows) (auto simp: Let_def split: option.split prod.split)

section \<open>The invariant\<close>

text \<open>
  A transaction has not written yet, or it holds one lock, on the row its statement computes from the
  committed one; no two hold the same.
\<close>

fun is_write :: "row_stmt \<Rightarrow> bool" where
  "is_write (SelectLive k) = False"
| "is_write s = True"

definition txn_ok :: "(key, dsrow) pdict \<Rightarrow> row_txn \<Rightarrow> bool" where
  "txn_ok rows t \<longleftrightarrow> (tx_wrote t = [] \<and> tx_rows t = [] \<and> length (filter is_write (tx_todo t)) \<le> 1) \<or>
     (\<exists>s r. tx_wrote t = [s] \<and> tx_rows t = [(stmt_key s, r)] \<and> stmt_row s (dget rows (stmt_key s)) = Some r \<and>
            filter is_write (tx_todo t) = [])"

definition row_inv :: "(key, dsrow) pdict \<Rightarrow> row_db \<Rightarrow> bool" where
  "row_inv rows db \<longleftrightarrow> dkeys_ok (rd_open db) \<and> serial_run rows (map fst (rd_log db)) = (rd_rows db, map snd (rd_log db)) \<and>
     (\<forall>i t. dget (rd_open db) i = Some t \<longrightarrow> txn_ok (rd_rows db) t) \<and>
     (\<forall>i j t u k. dget (rd_open db) i = Some t \<longrightarrow> dget (rd_open db) j = Some u \<longrightarrow>
        dget (tx_rows t) k \<noteq> None \<longrightarrow> dget (tx_rows u) k \<noteq> None \<longrightarrow> i = j)"


lemma row_invD:
  assumes "row_inv rows db"
  shows "dkeys_ok (rd_open db)" and "serial_run rows (map fst (rd_log db)) = (rd_rows db, map snd (rd_log db))"
    and "dget (rd_open db) i = Some t \<Longrightarrow> txn_ok (rd_rows db) t"
    and "dget (rd_open db) i = Some t \<Longrightarrow> dget (rd_open db) j = Some u \<Longrightarrow>
       dget (tx_rows t) k \<noteq> None \<Longrightarrow> dget (tx_rows u) k \<noteq> None \<Longrightarrow> i = j"
  using assms unfolding row_inv_def by blast+

lemma row_invI:
  assumes "dkeys_ok (rd_open db)" and "serial_run rows (map fst (rd_log db)) = (rd_rows db, map snd (rd_log db))"
    and "\<And>i t. dget (rd_open db) i = Some t \<Longrightarrow> txn_ok (rd_rows db) t"
    and "\<And>i j t u k. dget (rd_open db) i = Some t \<Longrightarrow> dget (rd_open db) j = Some u \<Longrightarrow>
       dget (tx_rows t) k \<noteq> None \<Longrightarrow> dget (tx_rows u) k \<noteq> None \<Longrightarrow> i = j"
  shows "row_inv rows db"
  unfolding row_inv_def using assms by blast

lemma row_locked_iff:
  assumes "dkeys_ok (rd_open db)"
  shows "row_locked db i k \<longleftrightarrow> (\<exists>j t. j \<noteq> i \<and> dget (rd_open db) j = Some t \<and> dget (tx_rows t) k \<noteq> None)"
  using assms by (fastforce simp: row_locked_def list_ex_iff dget_in[OF assms])

lemma log_grows:
  assumes "serial_run rows (map fst l) = (r, map snd l)" and "serial_run r (map fst l') = (r', map snd l')"
  shows "serial_run rows (map fst (l @ l')) = (r', map snd (l @ l'))"
  using assms by (simp add: serial_run_append)

lemma filter_Cons_le: "length (filter P (x # xs)) \<le> 1 \<Longrightarrow> P x \<Longrightarrow> filter P xs = []"
  by simp

lemma txn_ok_open: "txn_ok rows \<lparr>tx_todo = call_stmts call, tx_wrote = [], tx_rows = []\<rparr>"
proof (cases call)
  case (Writing s)
  then show ?thesis by (cases s) (simp_all add: txn_ok_def)
qed (simp add: txn_ok_def)

text \<open>The locks of other transactions, and the rows they rest on, are out of reach of a commit.\<close>

lemma txn_ok_other:
  assumes "txn_ok rows t" and "dget (tx_rows t) k = None"
  shows "txn_ok (dset k r rows) t"
  using assms by (auto simp: txn_ok_def pdict_simps)

lemma open_dset: "dget (dset i t' op) j = Some t \<longleftrightarrow> (if j = i then t = t' else dget op j = Some t)"
  by (auto simp: pdict_simps)

lemma open_ddel: "dget (ddel i op) j = Some t \<longleftrightarrow> j \<noteq> i \<and> dget op j = Some t"
  by (auto simp: pdict_simps)

lemma inv_close:
  assumes "row_inv rows db"
  shows "row_inv rows (db\<lparr>rd_open := ddel i (rd_open db)\<rparr>)"
  using row_invD[OF assms] unfolding row_inv_def by (auto simp: open_ddel)

text \<open>A transaction that locks nothing it had not, or a row nobody has.\<close>

lemma inv_set:
  assumes inv: "row_inv rows db" and "txn_ok (rd_rows db) t'"
    and "\<And>k j u. dget (tx_rows t') k \<noteq> None \<Longrightarrow> j \<noteq> i \<Longrightarrow> dget (rd_open db) j = Some u \<Longrightarrow> dget (tx_rows u) k = None"
  shows "row_inv rows (db\<lparr>rd_open := dset i t' (rd_open db)\<rparr>)"
proof -
  have "m = n" if t: "dget (dset i t' (rd_open db)) m = Some t" and u: "dget (dset i t' (rd_open db)) n = Some u"
    and held: "dget (tx_rows t) k \<noteq> None" "dget (tx_rows u) k \<noteq> None" for m n t u k
  proof (rule ccontr)
    assume "m \<noteq> n"
    then consider "m = i" "n \<noteq> i" | "n = i" "m \<noteq> i" | "m \<noteq> i" "n \<noteq> i" by blast
    then show False
    proof cases
      case 1
      then show False using t u held assms(3)[of k n u] by (simp add: open_dset)
    next
      case 2
      then show False using t u held assms(3)[of k m t] by (simp add: open_dset)
    next
      case 3
      then show False using t u held row_invD(4)[OF inv, of m t n u k] \<open>m \<noteq> n\<close> by (simp add: open_dset)
    qed
  qed
  moreover have "txn_ok (rd_rows db) t" if "dget (dset i t' (rd_open db)) j = Some t" for j t
    using that row_invD(3)[OF inv, of j t] assms(2) by (simp add: open_dset split: if_splits)
  ultimately show ?thesis using row_invD(1,2)[OF inv] by (intro row_invI) simp_all
qed

lemma inv_log:
  assumes "row_inv rows db" and "stmt_row s (dget (rd_rows db) (stmt_key s)) = None"
  shows "row_inv rows (db\<lparr>rd_log := rd_log db @ [(s, False)]\<rparr>)"
  using row_invD[OF assms(1)] assms(2) unfolding row_inv_def by (simp add: serial_run_append del: map_append) (simp add: serial_run_append)


section \<open>Preservation\<close>

lemma inv_run:
  assumes inv: "row_inv rows db" and t: "dget (rd_open db) i = Some t" and todo: "tx_todo t = s # rest"
    and step: "stmt_do (RunStmt i) db = Some db'"
  shows "row_inv rows db'"
proof (cases "is_write s")
  case False
  then obtain k where s: "s = SelectLive k" by (cases s) auto
  have "txn_ok (rd_rows db) (t\<lparr>tx_todo := rest\<rparr>)"
    using row_invD(3)[OF inv t] todo s by (auto simp: txn_ok_def)
  moreover have "dget (tx_rows u) k = None" if "dget (tx_rows t) k \<noteq> None" "j \<noteq> i" "dget (rd_open db) j = Some u" for k j u
    using row_invD(4)[OF inv t that(3,1)] that(2) by metis
  ultimately have "row_inv rows (db\<lparr>rd_open := dset i (t\<lparr>tx_todo := rest\<rparr>) (rd_open db)\<rparr>)"
    using inv_set[OF inv, of "t\<lparr>tx_todo := rest\<rparr>" i] by simp
  with inv_close[OF inv, of i] show ?thesis using step t todo s by (simp split: if_splits)
next
  case True
  let ?k = "stmt_key s"
  have fresh: "tx_wrote t = []" "tx_rows t = []" "filter is_write rest = []"
    using row_invD(3)[OF inv t] todo True by (auto simp: txn_ok_def)
  then have sees: "tx_sees db t ?k = dget (rd_rows db) ?k" by (simp add: tx_sees_def)
  show ?thesis
  proof (cases "stmt_row s (dget (rd_rows db) ?k)")
    case None
    have "row_inv rows (db\<lparr>rd_log := rd_log db @ [(s, False)]\<rparr>)" by (rule inv_log[OF inv None])
    moreover have "txn_ok (rd_rows db) (t\<lparr>tx_todo := rest\<rparr>)" using fresh by (simp add: txn_ok_def)
    ultimately have "row_inv rows ((db\<lparr>rd_log := rd_log db @ [(s, False)]\<rparr>)\<lparr>rd_open := dset i (t\<lparr>tx_todo := rest\<rparr>) (rd_open db)\<rparr>)"
      using inv_set[of rows "db\<lparr>rd_log := rd_log db @ [(s, False)]\<rparr>" "t\<lparr>tx_todo := rest\<rparr>" i] fresh by simp
    moreover have "db' = (db\<lparr>rd_log := rd_log db @ [(s, False)]\<rparr>)\<lparr>rd_open := dset i (t\<lparr>tx_todo := rest\<rparr>) (rd_open db)\<rparr>"
      using step t todo True sees None by (cases s; cases db) auto
    ultimately show ?thesis by simp
  next
    case (Some r)
    let ?t = "t\<lparr>tx_todo := rest, tx_wrote := [s], tx_rows := [(?k, r)]\<rparr>"
    have "\<not> row_locked db i ?k \<and> db' = db\<lparr>rd_open := dset i ?t (rd_open db)\<rparr>"
      using step t todo True sees Some fresh by (cases s) (simp_all split: if_splits)
    moreover have "txn_ok (rd_rows db) ?t" using fresh Some by (simp add: txn_ok_def)
    moreover have "dget (tx_rows u) k = None" if "dget (tx_rows ?t) k \<noteq> None" "j \<noteq> i" "dget (rd_open db) j = Some u" for k j u
    proof -
      have "k = ?k" using that(1) by (simp split: if_splits)
      with that(2,3) calculation(1) show ?thesis using row_locked_iff[OF row_invD(1)[OF inv], of i ?k] by auto
    qed
    ultimately show ?thesis using inv_set[OF inv, of ?t i] by simp
  qed
qed

lemma inv_commit:
  assumes inv: "row_inv rows db" and t: "dget (rd_open db) i = Some t" and step: "stmt_do (CommitTx i) db = Some db'"
  shows "row_inv rows db'"
  using row_invD(3)[OF inv t] unfolding txn_ok_def
proof (elim disjE exE conjE)
  assume "tx_wrote t = []" "tx_rows t = []"
  then have "db' = db\<lparr>rd_open := ddel i (rd_open db)\<rparr>" using step t by (simp split: if_splits)
  then show ?thesis using inv_close[OF inv] by simp
next
  fix s r
  assume w: "tx_wrote t = [s]" "tx_rows t = [(stmt_key s, r)]" "stmt_row s (dget (rd_rows db) (stmt_key s)) = Some r"
  then have db': "db' = db\<lparr>rd_rows := dset (stmt_key s) r (rd_rows db), rd_open := ddel i (rd_open db), rd_log := rd_log db @ [(s, True)]\<rparr>"
    using step t by (simp split: if_splits)
  have "serial_run rows (map fst (rd_log db')) = (rd_rows db', map snd (rd_log db'))"
    using row_invD(2)[OF inv] w(3) by (simp add: db' serial_run_append)
  moreover have "txn_ok (rd_rows db') u" if "dget (rd_open db') j = Some u" for j u
  proof -
    have u: "j \<noteq> i" "dget (rd_open db) j = Some u" using that by (simp_all add: db' open_ddel)
    then have "dget (tx_rows u) (stmt_key s) = None" using row_invD(4)[OF inv t u(2), of "stmt_key s"] w(2) u(1) by fastforce
    then show ?thesis using txn_ok_other[OF row_invD(3)[OF inv u(2)]] by (simp add: db')
  qed
  moreover have "m = n" if "dget (rd_open db') m = Some u" "dget (rd_open db') n = Some v" "dget (tx_rows u) k \<noteq> None"
    "dget (tx_rows v) k \<noteq> None" for m n u v k
    using that row_invD(4)[OF inv, of m u n v k] by (simp add: db' open_ddel)
  moreover have "dkeys_ok (rd_open db')" using row_invD(1)[OF inv] by (simp add: db')
  ultimately show ?thesis by (intro row_invI)
qed

lemma row_inv_step: "row_inv rows db \<Longrightarrow> stmt_do a db = Some db' \<Longrightarrow> row_inv rows db'"
proof (cases a)
  case (BeginTx i call)
  assume inv: "row_inv rows db" and "stmt_do a db = Some db'"
  then have "db' = db\<lparr>rd_open := dset i \<lparr>tx_todo = call_stmts call, tx_wrote = [], tx_rows = []\<rparr> (rd_open db)\<rparr>"
    using BeginTx by (simp split: if_splits)
  then show "row_inv rows db'" using inv_set[OF inv txn_ok_open[of "rd_rows db" call], of i] by simp
next
  case (RunStmt i)
  assume inv: "row_inv rows db" and step: "stmt_do a db = Some db'"
  then obtain t s rest where "dget (rd_open db) i = Some t" "tx_todo t = s # rest"
    using RunStmt by (auto split: option.splits list.splits)
  then show "row_inv rows db'" using inv_run[OF inv] step RunStmt by blast
next
  case (CommitTx i)
  assume inv: "row_inv rows db" and step: "stmt_do a db = Some db'"
  then obtain t where "dget (rd_open db) i = Some t" using CommitTx by (auto split: option.splits)
  then show "row_inv rows db'" using inv_commit[OF inv] step CommitTx by blast
next
  case (AbortTx i)
  assume inv: "row_inv rows db" and "stmt_do a db = Some db'"
  then have "db' = db\<lparr>rd_open := ddel i (rd_open db)\<rparr>" using AbortTx by (simp split: if_splits)
  then show "row_inv rows db'" using inv_close[OF inv] by simp
qed

lemma row_reach_inv: "row_reach rows db \<Longrightarrow> row_inv rows db"
proof (induction rule: row_reach.induct)
  case row_init
  show ?case by (simp add: row_inv_def)
qed (rule row_inv_step)


section \<open>Calls are serial\<close>

lemma serial_run_length: "length (snd (serial_run rows ss)) = length ss"
  by (induction ss arbitrary: rows) (auto split: option.split)

lemma serial_run_at:
  assumes "serial_run rows (map fst (xs @ (s, True) # ys)) = (r, map snd (xs @ (s, True) # ys))"
  shows "stmt_row s (dget (fst (serial_run rows (map fst xs))) (stmt_key s)) \<noteq> None"
proof
  let ?r = "fst (serial_run rows (map fst xs))" and ?b = "snd (serial_run rows (map fst xs))"
  assume "stmt_row s (dget ?r (stmt_key s)) = None"
  then have "snd (serial_run rows (map fst xs @ s # map fst ys)) = ?b @ False # snd (serial_run ?r (map fst ys))"
    by (cases "serial_run rows (map fst xs)"; cases "serial_run ?r (map fst ys)") (auto simp: serial_run_append Let_def)
  moreover have "snd (serial_run rows (map fst xs @ s # map fst ys)) = map snd xs @ True # map snd ys"
    using assms by simp
  moreover have "length ?b = length (map snd xs)" by (simp add: serial_run_length)
  ultimately show False by simp
qed

fun added_rows :: "row_stmt \<Rightarrow> int" where
  "added_rows (AddRows k n) = n"
| "added_rows s = 0"

lemma serial_adds:
  assumes "dget rows k = Some r" and "\<forall>s \<in> set ss. stmt_key s = k \<longrightarrow> (\<exists>n. s = AddRows k n)"
  shows "\<exists>r'. dget (fst (serial_run rows ss)) k = Some r' \<and>
    d_row_count r' = d_row_count r + sum_list (map added_rows (filter (\<lambda>s. stmt_key s = k) ss))"
  using assms
proof (induction ss arbitrary: rows r)
  case (Cons s ss)
  have rest: "\<forall>s \<in> set ss. stmt_key s = k \<longrightarrow> (\<exists>n. s = AddRows k n)" using Cons.prems(2) by simp
  show ?case
  proof (cases "stmt_key s = k")
    case True
    then obtain n where s: "s = AddRows k n" using Cons.prems(2) by auto
    have "dget (dset k (r\<lparr>d_row_count := d_row_count r + n\<rparr>) rows) k = Some (r\<lparr>d_row_count := d_row_count r + n\<rparr>)"
      by (simp add: pdict_simps)
    from Cons.IH[OF this rest] Cons.prems(1) show ?thesis by (simp add: s algebra_simps)
  next
    case False
    then have "dget (dset (stmt_key s) r' rows) k = Some r" for r' using Cons.prems(1) by (simp add: pdict_simps)
    with Cons.IH[OF _ rest] Cons.prems(1) False show ?thesis by (simp split: option.split)
  qed
qed simp

text \<open>A transaction that waits for a lock waits for one that can go on.\<close>

lemma no_deadlock:
  assumes inv: "row_inv rows db" and t: "dget (rd_open db) i = Some t"
  shows "\<exists>j. stmt_do (RunStmt j) db \<noteq> None \<or> stmt_do (CommitTx j) db \<noteq> None"
proof (cases "\<exists>j u s r. dget (rd_open db) j = Some u \<and> tx_wrote u = [s]")
  case True
  then obtain j u s where u: "dget (rd_open db) j = Some u" "tx_wrote u = [s]" by blast
  then have fin: "filter is_write (tx_todo u) = []" using row_invD(3)[OF inv u(1)] by (auto simp: txn_ok_def)
  show ?thesis
  proof (cases "tx_todo u")
    case Nil
    then have "stmt_do (CommitTx j) db \<noteq> None" using u by simp
    then show ?thesis by blast
  next
    case (Cons x rest)
    with fin obtain k where "x = SelectLive k" by (cases x) auto
    then have "stmt_do (RunStmt j) db \<noteq> None" using u Cons by simp
    then show ?thesis by blast
  qed
next
  case False
  have free: "\<not> row_locked db i k" for k
  proof
    assume "row_locked db i k"
    then obtain j u where "dget (rd_open db) j = Some u" "dget (tx_rows u) k \<noteq> None"
      using row_locked_iff[OF row_invD(1)[OF inv]] by blast
    with False row_invD(3)[OF inv] show False by (fastforce simp: txn_ok_def)
  qed
  show ?thesis
  proof (cases "tx_todo t")
    case Nil
    then have "stmt_do (CommitTx i) db \<noteq> None" using t by simp
    then show ?thesis by blast
  next
    case (Cons x rest)
    then have "stmt_do (RunStmt i) db \<noteq> None" using t free by (cases x) (auto split: option.split)
    then show ?thesis by blast
  qed
qed

text \<open>
  C23. Concurrent calls on the dataset catalog are serial. Under every interleaving of the statements of
  open transactions, with crashes and roll-backs, the committed rows and the answers (was a row written)
  are those of the logged statements run one at a time. So the reaper's flip, a compare-and-set, only
  ever hits a row that is stuck and stale at that place in the order; no increment of a row count is
  lost; and no set of transactions is deadlocked.
\<close>

theorem catalog_calls_serial:
  assumes "row_reach rows db"
  shows "serial_run rows (map fst (rd_log db)) = (rd_rows db, map snd (rd_log db)) \<and>
    (\<forall>xs ys k msg sts cutoff now. rd_log db = xs @ (FailIfStale k msg sts cutoff now, True) # ys \<longrightarrow>
      (\<exists>r. dget (fst (serial_run rows (map fst xs))) k = Some r \<and> pc_stale sts cutoff r)) \<and>
    (\<forall>k r. dget rows k = Some r \<longrightarrow> (\<forall>s \<in> fst ` set (rd_log db). stmt_key s = k \<longrightarrow> (\<exists>n. s = AddRows k n)) \<longrightarrow>
      (\<exists>r'. dget (rd_rows db) k = Some r' \<and>
        d_row_count r' = d_row_count r + sum_list (map added_rows (filter (\<lambda>s. stmt_key s = k) (map fst (rd_log db)))))) \<and>
    (rd_open db \<noteq> [] \<longrightarrow> (\<exists>j. stmt_do (RunStmt j) db \<noteq> None \<or> stmt_do (CommitTx j) db \<noteq> None))"
proof -
  have inv: "row_inv rows db" by (rule row_reach_inv[OF assms])
  note serial = row_invD(2)[OF inv]
  have "\<exists>r. dget (fst (serial_run rows (map fst xs))) k = Some r \<and> pc_stale sts cutoff r"
    if "rd_log db = xs @ (FailIfStale k msg sts cutoff now, True) # ys" for xs ys k msg sts cutoff now
    using serial_run_at[OF serial[unfolded that]]
    by (cases "dget (fst (serial_run rows (map fst xs))) k") (simp_all split: if_splits)
  moreover have "\<exists>r'. dget (rd_rows db) k = Some r' \<and>
      d_row_count r' = d_row_count r + sum_list (map added_rows (filter (\<lambda>s. stmt_key s = k) (map fst (rd_log db))))"
    if "dget rows k = Some r" "\<forall>s \<in> fst ` set (rd_log db). stmt_key s = k \<longrightarrow> (\<exists>n. s = AddRows k n)" for k r
    using serial_adds[OF that(1), of "map fst (rd_log db)"] that(2) by (simp add: serial)
  moreover have "\<exists>j. stmt_do (RunStmt j) db \<noteq> None \<or> stmt_do (CommitTx j) db \<noteq> None" if "rd_open db \<noteq> []"
  proof -
    from that obtain i t op where "rd_open db = (i, t) # op" by (cases "rd_open db") auto
    then have "dget (rd_open db) i = Some t" by simp
    then show ?thesis by (rule no_deadlock[OF inv])
  qed
  ultimately show ?thesis using serial by blast
qed

text \<open>Runs of actions, for concrete states; an action that has to wait ends the run.\<close>

fun row_run :: "row_act list \<Rightarrow> row_db \<Rightarrow> row_db option" where
  "row_run [] db = Some db"
| "row_run (a # as) db = (case stmt_do a db of None \<Rightarrow> None | Some db1 \<Rightarrow> row_run as db1)"

lemma row_run_reach: "row_reach rows db \<Longrightarrow> row_run as db = Some db' \<Longrightarrow> row_reach rows db'"
  by (induction as arbitrary: db) (auto split: option.splits intro: row_act)

definition one_dataset :: "(key, dsrow) pdict" where
  "one_dataset = [((''t'', ''d''), (fresh_dataset 2 ''jsonl'' 0)\<lparr>d_status := ''indexing''\<rparr>)]"

text \<open>The reaper looks while the worker's terminal status is not committed yet: it waits, and does not flip.\<close>

definition reaper_and_worker :: "row_act list" where
  "reaper_and_worker =
     [BeginTx 0 (Writing (SetStatus (''t'', ''d'') ''indexed'' None None 9)), BeginTx 1 (Writing (FailIfStale (''t'', ''d'') ''stuck'' [''indexing''] 5 9)),
      RunStmt 0, CommitTx 0, RunStmt 1, CommitTx 1]"

theorem catalog_calls_serial_witness:
  "\<exists>db. row_run reaper_and_worker \<lparr>rd_rows = one_dataset, rd_open = [], rd_log = []\<rparr> = Some db \<and>
    map snd (rd_log db) = [True, False] \<and> serial_run one_dataset (map fst (rd_log db)) = (rd_rows db, [True, False])"
proof -
  obtain db where run: "row_run reaper_and_worker \<lparr>rd_rows = one_dataset, rd_open = [], rd_log = []\<rparr> = Some db"
    "map snd (rd_log db) = [True, False]"
    by (simp add: reaper_and_worker_def one_dataset_def fresh_dataset_def tx_sees_def row_locked_def pc_stale_def)
  have "row_reach one_dataset db" by (rule row_run_reach[OF row_init run(1)])
  from catalog_calls_serial[OF this] have "serial_run one_dataset (map fst (rd_log db)) = (rd_rows db, map snd (rd_log db))" by blast
  with run show ?thesis by simp
qed


text \<open>
  The check of \<open>create_dataset\<close> and its upsert are two statements, and the upsert resets a live row: of
  two concurrent creates of a name both succeed, and the second resets the dataset the first caller
  has already written to.
\<close>

lemma duplicate_create_resets:
  "\<exists>db. row_run [BeginTx 0 (CreateDataset k 3 1), BeginTx 1 (CreateDataset k 5 2), RunStmt 0, RunStmt 1, RunStmt 0, CommitTx 0,
       BeginTx 2 (Writing (AddRows k 7)), RunStmt 2, CommitTx 2, RunStmt 1, CommitTx 1] \<lparr>rd_rows = [], rd_open = [], rd_log = []\<rparr> = Some db \<and>
     map snd (rd_log db) = [True, True, True] \<and>
     (\<exists>r. dget (rd_rows db) k = Some r \<and> d_dimension r = 5 \<and> d_row_count r = 0 \<and> d_status r = ''empty'')"
  by (simp add: tx_sees_def row_locked_def fresh_dataset_def)

section \<open>An error inside the transaction\<close>

text \<open>
  A transaction on the whole catalog. A statement that fails aborts it: the server refuses every later
  statement, and ends the COMMIT of an aborted transaction with a roll-back, which the driver does not
  report. Sequences are not rolled back.
\<close>

record cat_txn =
  ct_cat :: catalog
  ct_aborted :: bool

definition run_stmt :: "(catalog \<Rightarrow> (pyexc + 'r) \<times> catalog) \<Rightarrow> cat_txn \<Rightarrow> (pyexc + 'r) \<times> cat_txn" where
  "run_stmt f t =
     (if ct_aborted t then (Inl (OtherError ''InFailedSqlTransaction''), t)
      else case f (ct_cat t) of
          (Inl e, c) \<Rightarrow> (Inl e, \<lparr>ct_cat = c, ct_aborted = True\<rparr>)
        | (Inr r, c) \<Rightarrow> (Inr r, \<lparr>ct_cat = c, ct_aborted = False\<rparr>))"

definition in_transaction :: "(cat_txn \<Rightarrow> (pyexc + 'r) \<times> cat_txn) \<Rightarrow> catalog \<Rightarrow> (pyexc + 'r) \<times> catalog" where
  "in_transaction body c =
     (let (r, t) = body \<lparr>ct_cat = c, ct_aborted = False\<rparr>
      in (r, if isl r \<or> ct_aborted t then c\<lparr>c_last_id := c_last_id (ct_cat t)\<rparr> else ct_cat t))"

text \<open>The insert of a shard draws the id first and then checks the foreign key; \<open>fails\<close> is an error of \<open>pg_notify\<close>.\<close>

definition insert_shard :: "shard \<Rightarrow> time \<Rightarrow> catalog \<Rightarrow> (pyexc + int) \<times> catalog" where
  "insert_shard sh now c =
     (let i = c_last_id c + 1; c1 = c\<lparr>c_last_id := i\<rparr>
      in if dget (c_datasets c) (sh_key sh) = None then (Inl (OtherError ''ForeignKeyViolation''), c1)
         else (Inr i, c1\<lparr>c_shards := c_shards c @ [sh\<lparr>sh_id := i, sh_created := now\<rparr>]\<rparr>))"

definition pg_notify :: "bool \<Rightarrow> key \<Rightarrow> uri \<Rightarrow> catalog \<Rightarrow> (pyexc + unit) \<times> catalog" where
  "pg_notify fails k u c = (if fails then (Inl (OtherError ''pg_notify''), c) else (Inr (), notify k u c))"

definition add_shard_body :: "bool \<Rightarrow> shard \<Rightarrow> time \<Rightarrow> cat_txn \<Rightarrow> (pyexc + int) \<times> cat_txn" where
  "add_shard_body fails sh now t =
     (case run_stmt (insert_shard sh now) t of
        (Inl e, t1) \<Rightarrow> (Inl e, t1)
      | (Inr i, t1) \<Rightarrow> (Inr i, snd (run_stmt (pg_notify fails (sh_key sh) (sh_uri sh)) t1)))"

definition pg_add_shard :: "bool \<Rightarrow> catalog \<Rightarrow> shard \<Rightarrow> time \<Rightarrow> (pyexc + int) \<times> catalog" where
  "pg_add_shard fails c sh now = in_transaction (add_shard_body fails sh now) c"

definition delete_dataset_body :: "bool \<Rightarrow> key \<Rightarrow> time \<Rightarrow> cat_txn \<Rightarrow> (pyexc + bool) \<times> cat_txn" where
  "delete_dataset_body fails k now t =
     (case run_stmt (\<lambda>c. (Inr (), c\<lparr>c_shards := filter (\<lambda>s. \<not> sh_key s = k) (c_shards c)\<rparr>)) t of
        (Inl e, t1) \<Rightarrow> (Inl e, t1)
      | (Inr _, t1) \<Rightarrow>
         (case run_stmt (\<lambda>c. case cat_row c k of
                 None \<Rightarrow> (Inr False, c) | Some r \<Rightarrow> (Inr True, set_row k (r\<lparr>d_deleted := Some now\<rparr>) c)) t1 of
            (Inl e, t2) \<Rightarrow> (Inl e, t2)
          | (Inr modified, t2) \<Rightarrow> (Inr modified, if modified then snd (run_stmt (pg_notify fails k []) t2) else t2)))"

definition pg_delete_dataset :: "bool \<Rightarrow> catalog \<Rightarrow> key \<Rightarrow> time \<Rightarrow> (pyexc + bool) \<times> catalog" where
  "pg_delete_dataset fails c k now = in_transaction (delete_dataset_body fails k now) c"

text \<open>With a working \<open>pg_notify\<close> the transactions are the one-step calls of the catalog.\<close>

lemma transactions_are_calls:
  "dget (c_datasets c) (sh_key sh) \<noteq> None \<Longrightarrow> pg_add_shard False c sh now = apfst Inr (add_shard c sh now)"
  "pg_delete_dataset False c k now = apfst Inr (pc_delete_dataset c k now)"
  by (auto simp: pg_add_shard_def in_transaction_def add_shard_body_def run_stmt_def insert_shard_def pg_notify_def add_shard_def
      store_shard_def pg_delete_dataset_def delete_dataset_body_def pc_delete_dataset_def Let_def split: option.split)

text \<open>A build of a dataset whose row is missing raises and changes nothing.\<close>

lemma add_shard_unknown_dataset:
  "dget (c_datasets c) (sh_key sh) = None \<Longrightarrow>
     pg_add_shard fails c sh now = (Inl (OtherError ''ForeignKeyViolation''), c\<lparr>c_last_id := c_last_id c + 1\<rparr>)"
  by (simp add: pg_add_shard_def in_transaction_def add_shard_body_def run_stmt_def insert_shard_def Let_def)

text \<open>
  The caught error of \<open>pg_notify\<close> is not harmless. The transaction is aborted, so what the call reports
  as done is rolled back: the caller gets the id of a shard that is in no row, or True for a dataset
  that is still there with its shards.
\<close>

lemma caught_notify_rolls_back:
  "dget (c_datasets c) (sh_key sh) \<noteq> None \<Longrightarrow>
     pg_add_shard True c sh now = (Inr (c_last_id c + 1), c\<lparr>c_last_id := c_last_id c + 1\<rparr>)"
  "cat_row c k \<noteq> None \<Longrightarrow> pg_delete_dataset True c k now = (Inr True, c)"
proof -
  show "pg_add_shard True c sh now = (Inr (c_last_id c + 1), c\<lparr>c_last_id := c_last_id c + 1\<rparr>)"
    if "dget (c_datasets c) (sh_key sh) \<noteq> None"
    using that by (auto simp: pg_add_shard_def in_transaction_def add_shard_body_def run_stmt_def insert_shard_def pg_notify_def Let_def)
  assume "cat_row c k \<noteq> None"
  moreover have "cat_row (c\<lparr>c_shards := x\<rparr>) k = cat_row c k" for x by (simp add: cat_row_def)
  ultimately show "pg_delete_dataset True c k now = (Inr True, c)"
    by (auto simp: pg_delete_dataset_def in_transaction_def delete_dataset_body_def run_stmt_def pg_notify_def)
qed

end
