(* ===== verification/Lifecycle.thy ===== *)
theory Lifecycle
  imports Registry_Properties
begin

text \<open>
  A dataset deleted and created again under its name, through \<open>delete_dataset_endpoint\<close> and
  \<open>create_dataset_endpoint\<close> (\<open>services/source_registry/main.py\<close>): the catalog starts clean, the recall tier and the
  landing area do not.
\<close>

definition create_body :: "string \<Rightarrow> int \<Rightarrow> json" where
  "create_body name dm = JObj [(''name'', JStr name), (''dimension'', JInt dm)]"

definition recreate :: "'i rcfg \<Rightarrow> 'i world \<Rightarrow> key \<Rightarrow> int \<Rightarrow> time \<Rightarrow> time \<Rightarrow> response list \<times> 'i world" where
  "recreate cfg w k dm now now' =
     (let (a1, w1) = delete_dataset_endpoint w (fst k) (snd k) now;
          (a2, w2) = create_dataset_endpoint cfg w1 (fst k) (Some (create_body (snd k) dm)) now'
      in ([a1, a2], w2))"

lemma recreate_catalog:
  assumes "cat_ok c" and "cat_row c k = Some r"
  shows "fst (delete_dataset c k now)" and "cat_row (snd (delete_dataset c k now)) k = None"
    and "cat_ok (snd (delete_dataset c k now))" and "list_shards (snd (delete_dataset c k now)) k = []"
proof -
  show ok: "cat_ok (snd (delete_dataset c k now))" by (rule cat_ok_delete_dataset[OF assms(1)])
  show "fst (delete_dataset c k now)" "cat_row (snd (delete_dataset c k now)) k = None"
    using assms(2) by (auto simp: delete_dataset_def mc_delete_dataset_def pc_delete_dataset_def Let_def cat_row_def split: option.splits)
  have "c_shards (snd (delete_dataset c k now)) = filter (\<lambda>s. \<not> sh_key s = k) (c_shards c)"
    using assms(2) by (auto simp: delete_dataset_def mc_delete_dataset_def pc_delete_dataset_def Let_def cat_row_def split: option.splits)
  then show "list_shards (snd (delete_dataset c k now)) k = []" by (simp add: list_shards_eq[OF ok] filter_empty_conv)
qed

lemma create_keeps_shards: "cat_ok c \<Longrightarrow> list_shards (snd (create_dataset c k dm now)) k' = list_shards c k'"
  using cat_ok_create[of c k dm now]
  by (auto simp: list_shards_eq create_dataset_def mc_create_dataset_def pc_create_dataset_def Let_def split: option.splits)

lemma create_answers:
  assumes "cat_row c k = None"
  shows "\<exists>r. fst (create_dataset c k dm now) = Inr r \<and> get_dataset (snd (create_dataset c k dm now)) k = Some r \<and> d_dimension r = dm"
  using assms by (auto simp: create_dataset_def mc_create_dataset_def pc_create_dataset_def Let_def get_dataset_def cat_row_def
      fresh_dataset_def split: option.splits)

lemma recreate_parts:
  assumes "cat_ok (w_cat w)" and "get_dataset (w_cat w) k = Some r" and "name_matches (snd k)" and "0 < dm"
    and "recreate cfg w k dm now now' = (as, w')"
  shows "map fst as = [204, 201]" and "get_dataset (w_cat w') k \<noteq> None" and "list_shards (w_cat w') k = []"
    and "w_recall w' = w_recall w" and "w_bucket w' = w_bucket w" and "w_queue w' = w_queue w"
proof -
  let ?c = "snd (delete_dataset (w_cat w) k now)"
  have row: "cat_row (w_cat w) k = Some r" using assms(2) by (simp add: get_dataset_def)
  note del = recreate_catalog[OF assms(1) row, of now]
  obtain q where q: "fst (create_dataset ?c k dm now') = Inr q" "get_dataset (snd (create_dataset ?c k dm now')) k = Some q"
    using create_answers[OF del(2)] by blast
  have out: "as = [(204, JNull), (201, dataset_response cfg (snd k) q)]" "w' = w\<lparr>w_cat := snd (create_dataset ?c k dm now')\<rparr>"
    using assms(3,4,5) del(1) q(1)
    by (auto simp: recreate_def delete_dataset_endpoint_def create_dataset_endpoint_def create_body_def Let_def split: prod.splits)
  show "map fst as = [204, 201]" by (simp add: out)
  show "get_dataset (w_cat w') k \<noteq> None" using q(2) by (simp add: out)
  show "list_shards (w_cat w') k = []" using create_keeps_shards[OF del(3)] del(4) by (simp add: out)
  show "w_recall w' = w_recall w" "w_bucket w' = w_bucket w" "w_queue w' = w_queue w" by (simp_all add: out)
qed

text \<open>
  What a reader sees in the new dataset: nothing of the shards, but every row the recall tier still has
  of the old one, and every Parquet part of the old one that is still in the landing area is new to the
  next build. The documentation of DELETE promises that a re-create starts clean.
\<close>

theorem recreated_dataset_shows_old_rows:
  assumes "cat_ok (w_cat w)" and "get_dataset (w_cat w) k = Some r" and "name_matches (snd k)" and "0 < dm"
    and "recreate cfg w k dm now now' = (as, w')"
  shows "map fst as = [204, 201] \<and> reader env fx w' k = overlay (look_of env w k) 0 (\<lambda>_. None) \<and>
    new_parts env w' k = list_landing_parts (be_down env) (w_bucket w) (landing_prefix env k)"
proof -
  note p = recreate_parts[OF assms]
  have "get_latest_shard (w_cat w') k = None" by (simp add: get_latest_shard_def p)
  moreover from this have "cold_docs env fx w' k = (\<lambda>_. None)" by (simp add: cold_docs_def fun_eq_iff)
  moreover have "dataset_watermark (w_cat w') k = 0"
    by (simp add: dataset_watermark_def p watermark_of_def current_generation_def generations_def)
  moreover have "look_of env w' k = look_of env w k" by (simp add: look_of_def p)
  ultimately show ?thesis using p by (auto simp: reader_def new_parts_def manifest_of_def split: sum.split)
qed

text \<open>Without a recall row and a landing part left the promise holds.\<close>

lemma recreated_dataset_clean:
  assumes "cat_ok (w_cat w)" and "get_dataset (w_cat w) k = Some r" and "name_matches (snd k)" and "0 < dm"
    and "recreate cfg w k dm now now' = (as, w')" and "\<And>i. look_of env w k i = None"
    and "list_landing_parts (be_down env) (w_bucket w) (landing_prefix env k) = Inr []"
  shows "reader env fx w' k i = None" and "new_parts env w' k = Inr []"
  using recreated_dataset_shows_old_rows[OF assms(1-5), of env fx] assms(6,7) by (simp_all add: overlay_def)

text \<open>A vector written to the old dataset answers GET in the new one.\<close>

lemma recreated_dataset_serves_old_vector:
  assumes "cat_ok (w_cat w)" and "serving cfg w k" and "0 \<le> shard_mark w k" and "name_matches (snd k)" and "0 < dm"
    and "look_of (rc_env cfg) w k i = Some c" and "0 < c_lsn c" and "\<not> c_deleted c"
    and "recreate cfg w k dm now now' = (as, w')"
  shows "get_vector_endpoint cfg w' (fst k) (snd k) i iv =
    Inr (vector_body i (c_metadata c) (if is_truthy_query_flag iv then Some (c_values c) else None))"
proof -
  obtain r where "get_dataset (w_cat w) k = Some r" using assms(2) by (auto simp: serving_def)
  note p = recreate_parts[OF assms(1) this assms(4,5,9)]
  have mark: "shard_mark w' k = 0" by (simp add: watermark_of_shard_def get_latest_shard_def p)
  have "serving cfg w' k" using assms(2,3) p mark by (simp add: serving_def)
  moreover have "look_of (rc_env cfg) w' k = look_of (rc_env cfg) w k" by (simp add: look_of_def p)
  ultimately show ?thesis using assms(6,7,8) mark by (simp add: get_endpoint id_answer_def)
qed

text \<open>A build that was under way when the dataset was deleted adds its shard to the new one: \<open>add_shard\<close> asks no row.\<close>

lemma build_outlives_delete:
  assumes "cat_ok (w_cat w)" and "get_dataset (w_cat w) k = Some r" and "name_matches (snd k)" and "0 < dm"
    and "recreate cfg w k dm now now' = (as, w')" and "sh_key sh = k"
  shows "map sh_uri (list_shards (snd (add_shard (w_cat w') sh t)) k) = [sh_uri sh]"
proof -
  note p = recreate_parts[OF assms(1-5)]
  have "filter (\<lambda>s. sh_key s = k) (c_shards (w_cat w')) = []"
  proof (rule ccontr)
    assume "filter (\<lambda>s. sh_key s = k) (c_shards (w_cat w')) \<noteq> []"
    then obtain s where "s \<in> set (c_shards (w_cat w'))" "sh_key s = k" by (auto simp: filter_empty_conv)
    then have "s \<in> set (list_shards (w_cat w') k)" by (simp add: list_shards_def mc_list_shards_def pc_list_shards_def)
    with p(3) show False by simp
  qed
  then have "filter (\<lambda>s. sh_key s = k) (c_shards (snd (add_shard (w_cat w') sh t))) = [sh\<lparr>sh_id := c_last_id (w_cat w') + 1, sh_created := t\<rparr>]"
    using assms(6) by (simp add: add_shard_def store_shard_def notify_def Let_def)
  then show ?thesis
    by (simp add: list_shards_def mc_list_shards_def pc_list_shards_def rev_filter[symmetric] filter_sort)
qed

end
