(* ===== verification/Object_Store.thy ===== *)
theory Object_Store
  imports Registry
begin

text \<open>
  The S3 side of the object storage adapter (\<open>adapters/storage/storage.py\<close>): URIs split into bucket and
  key, error replies classified, listings read page by page. It implements the dictionary of URIs that
  theory \<open>Store\<close> works with, and that the in-memory backend is.
\<close>

section \<open>The service\<close>

text \<open>
  What the service holds, and the requests it refuses. A missing object is answered \<open>NoSuchKey\<close> by GET
  and a bare 404 by HEAD; a listing comes sorted by key, in pages.
\<close>

datatype client_error = ClientError (error_code: "string option") (http_status: "int option")

type_synonym obj_name = "string \<times> string"

record 'i s3 =
  s3_objects :: "(obj_name, 'i blob) pdict"
  s3_refuses :: "obj_name \<Rightarrow> client_error option"
  s3_page :: nat

definition s3_lookup :: "string \<Rightarrow> 'i s3 \<Rightarrow> obj_name \<Rightarrow> client_error + 'i blob" where
  "s3_lookup code s n =
     (case s3_refuses s n of
        Some e \<Rightarrow> Inl e
      | None \<Rightarrow> (case dget (s3_objects s) n of None \<Rightarrow> Inl (ClientError (Some code) (Some 404)) | Some x \<Rightarrow> Inr x))"

fun pages :: "nat \<Rightarrow> nat \<Rightarrow> 'a list \<Rightarrow> 'a list list" where
  "pages 0 n xs = []"
| "pages (Suc fuel) n xs = (if xs = [] then [] else take n xs # pages fuel n (drop n xs))"

section \<open>The adapter\<close>

text \<open>\<open>no_scheme.split("/", 1)\<close> of a URI without a slash after the bucket is one part: ValueError.\<close>

definition split_s3 :: "uri \<Rightarrow> pyexc + obj_name" where
  "split_s3 u =
     (let no_scheme = drop 5 u; bucket = takeWhile (\<lambda>c. c \<noteq> CHR ''/'') no_scheme
      in if CHR ''/'' \<in> set no_scheme then Inr (bucket, drop (Suc (length bucket)) no_scheme)
         else Inl (ValueError ''not enough values to unpack''))"

definition s3_missing_key :: "client_error \<Rightarrow> bool" where
  "s3_missing_key e \<longleftrightarrow> error_code e \<in> {Some ''NoSuchKey'', Some ''404'', Some ''NoSuchObject''} \<or> http_status e = Some 404"

definition detect_type_from_uri :: "uri \<Rightarrow> string" where
  "detect_type_from_uri u =
     (let l = lower u in
      if ends_with ''.jsonl'' l then ''jsonl'' else if ends_with ''.json'' l then ''json''
      else if ends_with ''.parquet'' l then ''parquet'' else ''unknown'')"

definition s3_get_object :: "'i s3 \<Rightarrow> obj_name \<Rightarrow> pyexc + 'i blob" where
  "s3_get_object s n =
     (case s3_lookup ''NoSuchKey'' s n of
        Inl e \<Rightarrow> Inl (OtherError (if s3_missing_key e then ''key not found'' else ''storage unavailable''))
      | Inr x \<Rightarrow> Inr x)"

definition s3_read_bytes :: "'i s3 \<Rightarrow> uri \<Rightarrow> pyexc + 'i blob" where
  "s3_read_bytes s u = (case split_s3 u of Inl e \<Rightarrow> Inl e | Inr n \<Rightarrow> s3_get_object s n)"

definition s3_write_bytes :: "'i s3 \<Rightarrow> uri \<Rightarrow> 'i blob \<Rightarrow> pyexc + 'i s3" where
  "s3_write_bytes s u x =
     (case split_s3 u of
        Inl e \<Rightarrow> Inl e
      | Inr n \<Rightarrow> if s3_refuses s n \<noteq> None then Inl (OtherError ''storage unavailable'')
                 else Inr (s\<lparr>s3_objects := dset n x (s3_objects s)\<rparr>))"

definition s3_delete :: "'i s3 \<Rightarrow> uri \<Rightarrow> pyexc + 'i s3" where
  "s3_delete s u =
     (case split_s3 u of
        Inl e \<Rightarrow> Inl e
      | Inr n \<Rightarrow> if s3_refuses s n \<noteq> None then Inl (OtherError ''storage unavailable'')
                 else Inr (s\<lparr>s3_objects := ddel n (s3_objects s)\<rparr>))"

definition s3_exists :: "'i s3 \<Rightarrow> uri \<Rightarrow> pyexc + bool" where
  "s3_exists s u =
     (case split_s3 u of
        Inl e \<Rightarrow> Inl e
      | Inr n \<Rightarrow>
          (case s3_lookup ''404'' s n of
             Inl e \<Rightarrow> if s3_missing_key e then Inr False else Inl (OtherError ''storage unavailable'')
           | Inr _ \<Rightarrow> Inr True))"

definition s3_size :: "('i blob \<Rightarrow> int) \<Rightarrow> 'i s3 \<Rightarrow> uri \<Rightarrow> pyexc + int option" where
  "s3_size bytes s u =
     (case split_s3 u of
        Inl e \<Rightarrow> Inl e
      | Inr n \<Rightarrow>
          (case s3_lookup ''404'' s n of
             Inl e \<Rightarrow> if s3_missing_key e then Inr None else Inl (OtherError ''storage unavailable'')
           | Inr x \<Rightarrow> Inr (Some (bytes x))))"

text \<open>The URI of an object, as \<open>list\<close> puts it together.\<close>

definition s3_uri :: "obj_name \<Rightarrow> uri" where
  "s3_uri n = ''s3://'' @ fst n @ ''/'' @ snd n"

definition s3_list :: "'i s3 \<Rightarrow> uri \<Rightarrow> pyexc + uri list" where
  "s3_list s prefix =
     (case split_s3 prefix of
        Inl e \<Rightarrow> Inl e
      | Inr n \<Rightarrow>
          if s3_refuses s n \<noteq> None then Inl (OtherError ''storage unavailable'')
          else let keys = sort (filter (starts_with (snd n)) (map snd (filter (\<lambda>m. fst m = fst n) (map fst (s3_objects s)))))
               in Inr (concat (map (map (\<lambda>key. s3_uri (fst n, key))) (pages (length keys) (s3_page s) keys))))"

section \<open>Names and URIs\<close>

definition bucket_name_ok :: "obj_name \<Rightarrow> bool" where
  "bucket_name_ok n \<longleftrightarrow> CHR ''/'' \<notin> set (fst n)"

lemma split_s3_uri: "bucket_name_ok n \<Longrightarrow> split_s3 (s3_uri n) = Inr n"
proof -
  assume ok: "bucket_name_ok n"
  have d: "drop 5 (s3_uri n) = fst n @ CHR ''/'' # snd n" by (simp add: s3_uri_def)
  have "takeWhile (\<lambda>c. c \<noteq> CHR ''/'') (fst n @ CHR ''/'' # snd n) = fst n"
    using ok by (subst takeWhile_append2) (auto simp: bucket_name_ok_def)
  then show ?thesis by (simp add: split_s3_def d Let_def)
qed

lemma s3_uri_inj: "bucket_name_ok n \<Longrightarrow> bucket_name_ok m \<Longrightarrow> s3_uri n = s3_uri m \<longleftrightarrow> n = m"
  using split_s3_uri by (metis sum.inject(2))

lemma s3_uri_scheme: "has_scheme (s3_uri n)"
  by (simp add: has_scheme_def starts_with_def s3_uri_def)

lemma s3_uri_prefix: "bucket_name_ok n \<Longrightarrow> bucket_name_ok m \<Longrightarrow>
  starts_with (s3_uri n) (s3_uri m) \<longleftrightarrow> fst m = fst n \<and> starts_with (snd n) (snd m)"
proof -
  assume ok: "bucket_name_ok n" "bucket_name_ok m"
  have sw: "starts_with p s \<longleftrightarrow> (\<exists>r. s = p @ r)" for p s :: string
    unfolding starts_with_def by (metis append_eq_conv_conj append_take_drop_id)
  show ?thesis
  proof
    assume "starts_with (s3_uri n) (s3_uri m)"
    then obtain r where "s3_uri m = s3_uri n @ r" by (auto simp: sw)
    also have "\<dots> = s3_uri (fst n, snd n @ r)" by (simp add: s3_uri_def)
    finally have "m = (fst n, snd n @ r)" using s3_uri_inj[OF ok(2), of "(fst n, snd n @ r)"] ok(1) by (simp add: bucket_name_ok_def)
    then show "fst m = fst n \<and> starts_with (snd n) (snd m)" by (auto simp: sw)
  next
    assume "fst m = fst n \<and> starts_with (snd n) (snd m)"
    then show "starts_with (s3_uri n) (s3_uri m)" by (auto simp: sw s3_uri_def)
  qed
qed

lemma concat_pages: "0 < n \<Longrightarrow> length xs \<le> fuel \<Longrightarrow> concat (pages fuel n xs) = xs"
  by (induction fuel n xs rule: pages.induct) auto

section \<open>The dictionary it implements\<close>

definition s3_view :: "'i s3 \<Rightarrow> 'i bucket" where
  "s3_view s = map (\<lambda>(n, x). (s3_uri n, x)) (s3_objects s)"

text \<open>Buckets have no slash in their names, a page holds something, and a refusal is not taken for a missing key.\<close>

definition s3_ok :: "'i s3 \<Rightarrow> bool" where
  "s3_ok s \<longleftrightarrow> list_all (\<lambda>(n, x). bucket_name_ok n) (s3_objects s) \<and> 0 < s3_page s \<and>
     (\<forall>n e. s3_refuses s n = Some e \<longrightarrow> \<not> s3_missing_key e)"

definition s3_down :: "'i s3 \<Rightarrow> uri \<Rightarrow> bool" where
  "s3_down s u = (case split_s3 u of Inl e \<Rightarrow> False | Inr n \<Rightarrow> s3_refuses s n \<noteq> None)"

lemma dget_view:
  "list_all (\<lambda>(n, x). bucket_name_ok n) d \<Longrightarrow> bucket_name_ok n \<Longrightarrow> dget (map (\<lambda>(n, x). (s3_uri n, x)) d) (s3_uri n) = dget d n"
  by (induction d) (auto simp: s3_uri_inj)

lemma dset_view:
  "list_all (\<lambda>(n, x). bucket_name_ok n) d \<Longrightarrow> bucket_name_ok n \<Longrightarrow>
   map (\<lambda>(n, x). (s3_uri n, x)) (dset n y d) = dset (s3_uri n) y (map (\<lambda>(n, x). (s3_uri n, x)) d)"
  by (induction d) (auto simp: s3_uri_inj)

lemma ddel_view:
  "list_all (\<lambda>(n, x). bucket_name_ok n) d \<Longrightarrow> bucket_name_ok n \<Longrightarrow>
   map (\<lambda>(n, x). (s3_uri n, x)) (ddel n d) = ddel (s3_uri n) (map (\<lambda>(n, x). (s3_uri n, x)) d)"
  by (induction d) (auto simp: s3_uri_inj)

text \<open>Sorting the keys of a bucket sorts their URIs.\<close>

lemma append_le_iff: "p @ x \<le> p @ y \<longleftrightarrow> x \<le> (y :: string)"
  by (induction p) simp_all

lemma sort_uris: "map (\<lambda>key. s3_uri (b, key)) (sort keys) = sort (map (\<lambda>key. s3_uri (b, key)) keys)"
proof -
  have "sorted (map (\<lambda>key. s3_uri (b, key)) (sort keys))"
    unfolding sorted_map by (rule sorted_wrt_mono_rel[OF _ sorted_sort]) (simp add: s3_uri_def append_le_iff)
  moreover have "mset (map (\<lambda>key. s3_uri (b, key)) (sort keys)) = mset (map (\<lambda>key. s3_uri (b, key)) keys)" by simp
  ultimately show ?thesis by (metis properties_for_sort)
qed

lemma bucket_uris:
  assumes "list_all bucket_name_ok ms" and "bucket_name_ok n"
  shows "filter (starts_with (s3_uri n)) (map s3_uri ms) =
    map (\<lambda>key. s3_uri (fst n, key)) (filter (starts_with (snd n)) (map snd (filter (\<lambda>m. fst m = fst n) ms)))"
  using assms(1)
proof (induction ms)
  case (Cons m ms)
  have "s3_uri m = s3_uri (fst n, snd m)" if "fst m = fst n" using that by (simp add: s3_uri_def)
  with Cons show ?case by (simp add: s3_uri_prefix[OF assms(2)])
qed simp

text \<open>
  The refinement: on well-formed names every operation answers as the dictionary does, and leaves the
  dictionary that one leaves; a listing has the same URIs, sorted.
\<close>

lemma s3_implements_store:
  assumes "s3_ok s" and "bucket_name_ok n"
  shows "s3_read_bytes s (s3_uri n) = read_bytes (s3_down s) (s3_view s) (s3_uri n)"
    and "map_sum id s3_view (s3_write_bytes s (s3_uri n) x) = write_bytes (s3_down s) (s3_view s) (s3_uri n) x"
    and "map_sum id s3_view (s3_delete s (s3_uri n)) = storage_delete (s3_down s) (s3_view s) (s3_uri n)"
    and "s3_exists s (s3_uri n) = storage_exists (s3_down s) (s3_view s) (s3_uri n)"
    and "s3_list s (s3_uri n) = map_sum id sort (storage_list (s3_down s) (s3_view s) (s3_uri n))"
proof -
  have ok: "list_all (\<lambda>(n, x). bucket_name_ok n) (s3_objects s)" "0 < s3_page s"
    and ref: "s3_refuses s m = Some e \<Longrightarrow> \<not> s3_missing_key e" for m e using assms(1) unfolding s3_ok_def by blast+
  have down: "s3_down s (s3_uri n) \<longleftrightarrow> s3_refuses s n \<noteq> None" by (simp add: s3_down_def split_s3_uri[OF assms(2)])
  note base = split_s3_uri[OF assms(2)] s3_uri_scheme down s3_view_def dget_view[OF ok(1) assms(2)]
  show "s3_read_bytes s (s3_uri n) = read_bytes (s3_down s) (s3_view s) (s3_uri n)"
    using ref[of n] by (auto simp: s3_read_bytes_def read_bytes_def s3_get_object_def s3_lookup_def base s3_missing_key_def split: option.splits)
  show "map_sum id s3_view (s3_write_bytes s (s3_uri n) x) = write_bytes (s3_down s) (s3_view s) (s3_uri n) x"
    by (auto simp: s3_write_bytes_def write_bytes_def base dset_view[OF ok(1) assms(2)])
  show "map_sum id s3_view (s3_delete s (s3_uri n)) = storage_delete (s3_down s) (s3_view s) (s3_uri n)"
    by (auto simp: s3_delete_def storage_delete_def base ddel_view[OF ok(1) assms(2)])
  show "s3_exists s (s3_uri n) = storage_exists (s3_down s) (s3_view s) (s3_uri n)"
    using ref[of n] by (auto simp: s3_exists_def storage_exists_def s3_lookup_def base s3_missing_key_def split: option.splits)
  define keys where "keys = filter (starts_with (snd n)) (map snd (filter (\<lambda>m. fst m = fst n) (map fst (s3_objects s))))"
  have "list_all bucket_name_ok (map fst (s3_objects s))" using ok(1) by (simp add: list_all_iff case_prod_unfold)
  from bucket_uris[OF this assms(2)]
  have uris: "filter (starts_with (s3_uri n)) (map fst (s3_view s)) = map (\<lambda>key. s3_uri (fst n, key)) keys"
    by (simp add: keys_def s3_view_def o_def case_prod_unfold)
  have "concat (pages (length (sort keys)) (s3_page s) (sort keys)) = sort keys" by (rule concat_pages[OF ok(2) order_refl])
  then have "s3_list s (s3_uri n) = (if s3_refuses s n \<noteq> None then Inl (OtherError ''storage unavailable'')
      else Inr (map (\<lambda>key. s3_uri (fst n, key)) (sort keys)))"
    unfolding s3_list_def base sum.case keys_def[symmetric] Let_def map_concat[symmetric] by simp
  then show "s3_list s (s3_uri n) = map_sum id sort (storage_list (s3_down s) (s3_view s) (s3_uri n))"
    by (simp add: storage_list_def s3_uri_scheme down uris sort_uris)
qed

text \<open>
  What the classification of errors hides. A bucket that does not exist is answered with status 404 too
  (\<open>NoSuchBucket\<close>), so an operator's misspelt bucket looks like a missing object; and a URI without a key
  is a ValueError here, while the in-memory backend takes it.
\<close>

lemma missing_bucket_looks_empty:
  assumes "split_s3 u = Inr n" and "s3_refuses s n = Some (ClientError (Some ''NoSuchBucket'') (Some 404))"
  shows "s3_exists s u = Inr False" and "s3_read_bytes s u = Inl (OtherError ''key not found'')"
  using assms by (simp_all add: s3_exists_def s3_read_bytes_def s3_get_object_def s3_lookup_def s3_missing_key_def)

lemma uri_without_key: "s3_read_bytes s ''s3://bucket'' = Inl (ValueError ''not enough values to unpack'')"
  "read_bytes down [(''memory://bucket'', x)] ''memory://bucket'' = (if down ''memory://bucket'' then Inl (OtherError ''storage unavailable'') else Inr x)"
  by (simp_all add: s3_read_bytes_def split_s3_def read_bytes_def has_scheme_def starts_with_def)

text \<open>The type of an upload is read off its name; \<open>.jsonl\<close> goes before \<open>.json\<close>.\<close>

lemma detect_jsonl: "detect_type_from_uri (u @ ''.JSONL'') = ''jsonl''"
proof -
  have "lower (u @ ''.JSONL'') = lower u @ lower ''.JSONL''" by (simp add: lower_def)
  moreover have "lower ''.JSONL'' = ''.jsonl''" by code_simp
  ultimately show ?thesis by (simp add: detect_type_from_uri_def ends_with_def)
qed

end
