(* ===== verification/Host.thy ===== *)
theory Host
  imports Store Config Proxy
begin

text \<open>
  What a service learns from its host: the mount table and the page-fault counter of \<open>/proc\<close>
  (\<open>services/query_api/v1_query.py\<close>), the left-over files of the SSD tier (\<open>adapters/storage/shard_tier.py\<close>), the
  signing secret of a process (\<open>services/auth/jwt_utils.py\<close>) and the settings that theory \<open>Config\<close> leaves:
  those only start-up code and libraries read (\<open>adapters/config.py\<close>), and the two bounded where they are
  used, the time-outs of the proxy and the interval of the residency writer.
\<close>

section \<open>Words\<close>

text \<open>\<open>str.split()\<close>: the maximal pieces without whitespace.\<close>

fun words_from :: "string \<Rightarrow> string \<Rightarrow> string list" where
  "words_from acc [] = (if acc = [] then [] else [rev acc])"
| "words_from acc (c # cs) =
     (if blank c then (if acc = [] then words_from [] cs else rev acc # words_from [] cs) else words_from (c # acc) cs)"

definition words :: "string \<Rightarrow> string list" where
  "words s = words_from [] s"

definition word :: "string \<Rightarrow> bool" where
  "word w \<longleftrightarrow> w \<noteq> [] \<and> list_all (\<lambda>c. \<not> blank c) w"

lemma words_from_word:
  "list_all (\<lambda>c. \<not> blank c) w \<Longrightarrow> words_from acc (w @ CHR '' '' # s) = (if acc = [] \<and> w = [] then words_from [] s else (rev acc @ w) # words_from [] s)"
  by (induction w arbitrary: acc) (auto simp: blank_def)

lemma words_from_last: "list_all (\<lambda>c. \<not> blank c) w \<Longrightarrow> words_from acc w = (if acc = [] \<and> w = [] then [] else [rev acc @ w])"
  by (induction w arbitrary: acc) auto

lemma words_join: "list_all word ws \<Longrightarrow> words (join '' '' ws) = ws"
proof (induction ws)
  case (Cons w ws)
  then have w: "w \<noteq> []" "list_all (\<lambda>c. \<not> blank c) w" by (simp_all add: word_def)
  show ?case
  proof (cases ws)
    case Nil
    with w show ?thesis by (simp add: words_def join_Cons words_from_last)
  next
    case (Cons v vs)
    with w Cons.IH Cons.prems show ?thesis by (simp add: words_def join_Cons words_from_word)
  qed
qed (simp add: words_def join_def)

section \<open>The page-fault counter\<close>

text \<open>
  \<open>avail\<close> is \<open>_STAT_PATH_AVAILABLE is not False\<close>, \<open>proc\<close> whether the path is the real one, and the file is
  None when it cannot be read. Field 12 of the line is word 9 after the last closing parenthesis.
\<close>

definition majflt :: "string \<Rightarrow> int option" where
  "majflt raw =
     (if CHR '')'' \<notin> set raw \<or> before_last (CHR '')'') raw = [] then None
      else let after = words (after_last (CHR '')'') raw) in if length after \<le> 9 then None else py_int (after ! 9))"

definition read_major_faults :: "bool \<Rightarrow> bool \<Rightarrow> string option \<Rightarrow> int option \<times> bool" where
  "read_major_faults avail proc file =
     (if \<not> avail \<and> proc then (None, avail)
      else case file of None \<Rightarrow> (None, avail \<and> \<not> proc) | Some raw \<Rightarrow> (majflt raw, avail))"

lemma majflt_parts: "CHR '')'' \<notin> set q \<Longrightarrow> p \<noteq> [] \<Longrightarrow> words q = ws \<Longrightarrow> 9 < length ws \<Longrightarrow> majflt (p @ CHR '')'' # q) = py_int (ws ! 9)"
  by (simp add: majflt_def before_last_append after_last_append Let_def)

text \<open>The counter is found whatever the name of the process holds, blanks and parentheses included.\<close>

lemma majflt_any_name:
  assumes "list_all word flds" and "9 < length flds" and "list_all (\<lambda>w. CHR '')'' \<notin> set w) flds"
  shows "majflt (pid @ '' ('' @ comm @ '') '' @ join '' '' flds) = py_int (flds ! 9)"
proof -
  have "CHR '')'' \<notin> set (join '' '' ws)" if "list_all (\<lambda>w. CHR '')'' \<notin> set w) ws" for ws
    using that
  proof (induction ws)
    case Nil
    show ?case by (simp add: join_def)
  qed (simp add: join_Cons)
  from this[OF assms(3)] have tail: "CHR '')'' \<notin> set ('' '' @ join '' '' flds)" by simp
  have raw: "pid @ '' ('' @ comm @ '') '' @ join '' '' flds = (pid @ '' ('' @ comm) @ CHR '')'' # ('' '' @ join '' '' flds)" by simp
  have "words ('' '' @ join '' '' flds) = flds" using words_join[OF assms(1)] by (simp add: words_def blank_def)
  then show ?thesis unfolding raw using assms(2) by (intro majflt_parts[OF tail]) simp_all
qed

text \<open>After a first miss of the real path the file is not opened again.\<close>

lemma read_major_faults_once:
  assumes "read_major_faults avail True None = (r, avail')"
  shows "r = None \<and> \<not> avail' \<and> read_major_faults avail' True file = (None, avail')"
  using assms by (auto simp: read_major_faults_def split: if_splits)

section \<open>The mount table\<close>

definition unsafe_mmap_fstypes :: "string list" where
  "unsafe_mmap_fstypes = [''fuse'', ''fuse3'', ''fuse.s3fs'', ''fuse.goofys'', ''fuse.mountpoint-s3'', ''fuseblk'', ''s3fs'']"

text \<open>Mount point and type of a line; None when it is skipped.\<close>

definition mount_entry :: "string \<Rightarrow> (string \<times> string) option" where
  "mount_entry raw =
     (let parts = words raw in
      case index_of ''-'' parts of
        None \<Rightarrow> None
      | Some sep \<Rightarrow> if sep < 6 \<or> length parts \<le> sep + 1 then None else Some (parts ! 4, parts ! (sep + 1)))"

definition mounted_under :: "string \<Rightarrow> string \<Rightarrow> bool" where
  "mounted_under candidate mp \<longleftrightarrow> candidate = mp \<or> starts_with (rstrip_slash mp @ ''/'') candidate"

definition better_mount :: "string \<Rightarrow> string \<times> string \<Rightarrow> string \<Rightarrow> string \<times> string" where
  "better_mount candidate best raw =
     (case mount_entry raw of
        None \<Rightarrow> best
      | Some (mp, fs) \<Rightarrow> if mounted_under candidate mp \<and> length mp \<ge> length (fst best) then (mp, fs) else best)"

text \<open>The lines are None when the file cannot be read; \<open>candidate\<close> is the absolute path.\<close>

definition is_fuse_mount :: "string list option \<Rightarrow> string \<Rightarrow> bool" where
  "is_fuse_mount lines candidate =
     (case lines of
        None \<Rightarrow> False
      | Some ls \<Rightarrow> snd (foldl (better_mount candidate) ([], []) ls) \<in> set unsafe_mmap_fstypes)"

definition maybe_warn_about_fuse_cache_dir :: "bool \<Rightarrow> string list option \<Rightarrow> string \<Rightarrow> bool" where
  "maybe_warn_about_fuse_cache_dir mmap lines candidate = (mmap \<and> is_fuse_mount lines candidate)"

text \<open>The entries that hold the path, and what the loop keeps: the last of the longest.\<close>

definition holders :: "string \<Rightarrow> string list \<Rightarrow> (string \<times> string) list" where
  "holders candidate ls = filter (\<lambda>e. mounted_under candidate (fst e)) (List.map_filter mount_entry ls)"

lemma holders_snoc:
  "holders candidate (ls @ [raw]) =
     holders candidate ls @ (case mount_entry raw of None \<Rightarrow> [] | Some e \<Rightarrow> if mounted_under candidate (fst e) then [e] else [])"
  by (simp add: holders_def List.map_filter_def split: option.split)

lemma better_mount_cases:
  "mount_entry raw = None \<Longrightarrow> better_mount candidate b raw = b"
  "mount_entry raw = Some e \<Longrightarrow> better_mount candidate b raw =
     (if mounted_under candidate (fst e) \<and> length (fst b) \<le> length (fst e) then e else b)"
  by (simp_all add: better_mount_def case_prod_unfold)

lemma best_mount_longest:
  assumes "holders candidate ls \<noteq> []"
  shows "foldl (better_mount candidate) ([], []) ls \<in> set (holders candidate ls) \<and>
    (\<forall>e \<in> set (holders candidate ls). length (fst e) \<le> length (fst (foldl (better_mount candidate) ([], []) ls)))"
  using assms
proof (induction ls rule: rev_induct)
  case Nil
  then show ?case by (simp add: holders_def List.map_filter_def)
next
  case (snoc raw ls)
  let ?b = "foldl (better_mount candidate) ([], []) ls"
  have empty: "holders candidate ls = [] \<Longrightarrow> ?b = ([], [])"
  proof -
    assume "holders candidate ls = []"
    then have "list_all (\<lambda>r. \<forall>e. mount_entry r = Some e \<longrightarrow> \<not> mounted_under candidate (fst e)) ls"
      by (auto simp: holders_def List.map_filter_def filter_empty_conv list_all_iff)
    then show "?b = ([], [])"
    proof (induction ls rule: rev_induct)
      case (snoc r rs)
      then show ?case by (cases "mount_entry r") (auto simp: better_mount_cases)
    qed simp
  qed
  have f: "foldl (better_mount candidate) ([], []) (ls @ [raw]) = better_mount candidate ?b raw" by simp
  show ?case
  proof (cases "mount_entry raw")
    case None
    then show ?thesis using snoc unfolding f holders_snoc by (simp add: better_mount_cases)
  next
    case (Some e)
    show ?thesis
    proof (cases "mounted_under candidate (fst e)")
      case False
      then show ?thesis using snoc Some unfolding f holders_snoc by (simp add: better_mount_cases)
    next
      case True
      show ?thesis
      proof (cases "holders candidate ls = []")
        case empty_before: True
        then show ?thesis using empty Some True unfolding f holders_snoc by (simp add: better_mount_cases)
      next
        case False
        note IH = snoc.IH[OF False]
        show ?thesis
        proof (cases "length (fst ?b) \<le> length (fst e)")
          case True
          with IH Some \<open>mounted_under candidate (fst e)\<close> show ?thesis unfolding f holders_snoc
            by (auto simp: better_mount_cases dest!: bspec)
        next
          case False
          with IH Some show ?thesis unfolding f holders_snoc by (auto simp: better_mount_cases)
        qed
      qed
    qed
  qed
qed

text \<open>A path is flagged exactly when the type of its longest mount point is on the list.\<close>

theorem fuse_by_longest_mount:
  assumes "holders candidate ls \<noteq> []"
  shows "\<exists>e \<in> set (holders candidate ls). (\<forall>e' \<in> set (holders candidate ls). length (fst e') \<le> length (fst e)) \<and>
    is_fuse_mount (Some ls) candidate = (snd e \<in> set unsafe_mmap_fstypes)"
  using best_mount_longest[OF assms] by (auto simp: is_fuse_mount_def)

text \<open>
  The table writes a blank in a mount point as \<open>\040\<close>, and the code compares the text as it stands: a
  cache directory below such a mount is taken for one of the parent file system.
\<close>

definition escaped_table :: "string list" where
  "escaped_table = [''22 1 8:1 / / rw - ext4 /dev/sda rw'', ''40 22 0:35 / /mnt/my'' @ [CHR 0x5C] @ ''040disk rw x - fuse.s3fs s3fs rw'']"

lemma escaped_mount_missed:
  "is_fuse_mount (Some escaped_table) ''/mnt/my disk/cache'' = False"
  "is_fuse_mount (Some [''40 22 0:35 / /mnt/disk rw x - fuse.s3fs s3fs rw'']) ''/mnt/disk/cache''"
  by code_simp+

section \<open>Left-over downloads\<close>

text \<open>
  The tier's directory as names with their modification times, None when it is missing or cannot be
  read; \<open>fails\<close> are the entries whose \<open>stat\<close> or \<open>unlink\<close> raises.
\<close>

fun sweep_entries :: "(string \<Rightarrow> bool) \<Rightarrow> time \<Rightarrow> time \<Rightarrow> (string, time) pdict \<Rightarrow> int \<times> (string, time) pdict" where
  "sweep_entries fails max_age now [] = (0, [])"
| "sweep_entries fails max_age now ((name, mtime) # es) =
     (let (n, rest) = sweep_entries fails max_age now es
      in if ends_with ''.tmp'' name \<and> \<not> fails name \<and> now - mtime \<ge> max_age then (n + 1, rest) else (n, (name, mtime) # rest))"

definition sweep_orphan_tmps ::
  "(string \<Rightarrow> bool) \<Rightarrow> time \<Rightarrow> time \<Rightarrow> (string, time) pdict option \<Rightarrow> int \<times> (string, time) pdict option" where
  "sweep_orphan_tmps fails max_age now dir =
     (case dir of None \<Rightarrow> (0, None) | Some es \<Rightarrow> apsnd Some (sweep_entries fails max_age now es))"

lemma sweep_entries_filter:
  "sweep_entries fails max_age now es =
     (int (length (filter (\<lambda>(name, mtime). ends_with ''.tmp'' name \<and> \<not> fails name \<and> now - mtime \<ge> max_age) es)),
      filter (\<lambda>(name, mtime). \<not> (ends_with ''.tmp'' name \<and> \<not> fails name \<and> now - mtime \<ge> max_age)) es)"
  by (induction es) (auto simp: Let_def)

text \<open>The sweep leaves every cached shard and every young download, and counts what it removes.\<close>

lemma sweep_keeps_cached_files:
  assumes "sweep_orphan_tmps fails max_age now (Some es) = (n, Some es')"
  shows "set es' \<subseteq> set es" and "int (length es) = n + int (length es')"
    and "(name, mtime) \<in> set es \<Longrightarrow> \<not> ends_with ''.tmp'' name \<or> now - mtime < max_age \<Longrightarrow> (name, mtime) \<in> set es'"
  using assms sum_length_filter_compl[of "\<lambda>(name, mtime). ends_with ''.tmp'' name \<and> \<not> fails name \<and> now - mtime \<ge> max_age" es]
  by (auto simp: sweep_orphan_tmps_def sweep_entries_filter case_prod_unfold)

section \<open>The signing secret\<close>

text \<open>The state is the fallback of the process; \<open>token\<close> is the fresh random text of this call.\<close>

definition resolve_secret :: "environ \<Rightarrow> string \<Rightarrow> string option \<Rightarrow> string \<times> string option" where
  "resolve_secret e token fallback =
     (case conf_jwt_secret e of
        Some s \<Rightarrow> if s \<noteq> [] then (s, fallback) else (case fallback of None \<Rightarrow> (token, Some token) | Some f \<Rightarrow> (f, fallback))
      | None \<Rightarrow> (case fallback of None \<Rightarrow> (token, Some token) | Some f \<Rightarrow> (f, fallback)))"

text \<open>Within a process the secret never changes, so a token it signed verifies until it expires.\<close>

lemma secret_stable:
  "resolve_secret e token fallback = (s, fallback') \<Longrightarrow> resolve_secret e token' fallback' = (s, fallback')"
  by (auto simp: resolve_secret_def split: option.splits if_splits)

text \<open>Two replicas without \<open>JWT_SECRET\<close> sign with their own secrets.\<close>

lemma secret_per_process:
  "conf_jwt_secret e = None \<Longrightarrow> fst (resolve_secret e token1 None) = token1 \<and> fst (resolve_secret e token2 None) = token2"
  by (simp add: resolve_secret_def)

section \<open>Accessors\<close>

definition conf_cache_dir :: "environ \<Rightarrow> string" where
  "conf_cache_dir e = getenv e ''CACHE_DIR'' ''/var/cache/shards''"

definition conf_faiss_mmap :: "environ \<Rightarrow> bool" where
  "conf_faiss_mmap e \<longleftrightarrow> truthy (e ''RB_FAISS_MMAP'')"

definition conf_result_topic :: "environ \<Rightarrow> string" where
  "conf_result_topic e = getenv e ''RESULT_TOPIC'' ''RESULT_READY''"

definition conf_query_dp_read_timeout_s :: "environ \<Rightarrow> string option" where
  "conf_query_dp_read_timeout_s e = e ''RB_QUERY_DP_READ_TIMEOUT_S''"

definition conf_query_dp_timeout_s :: "environ \<Rightarrow> string option" where
  "conf_query_dp_timeout_s e = e ''RB_QUERY_DP_TIMEOUT_S''"

definition conf_query_dp_connect_timeout_s :: "environ \<Rightarrow> string option" where
  "conf_query_dp_connect_timeout_s e = e ''RB_QUERY_DP_CONNECT_TIMEOUT_S''"

definition conf_index_metrics_port :: "environ \<Rightarrow> pyexc + int" where
  "conf_index_metrics_port e = env_int e ''METRICS_PORT'' 9101"

definition conf_validator_metrics_port :: "environ \<Rightarrow> pyexc + int" where
  "conf_validator_metrics_port e = env_int e ''METRICS_PORT'' 9100"

definition conf_ephemeral_metrics_port :: "environ \<Rightarrow> pyexc + int" where
  "conf_ephemeral_metrics_port e = env_int e ''METRICS_PORT'' 9102"

definition conf_dp_id :: "environ \<Rightarrow> string option" where
  "conf_dp_id e = e ''RB_DP_ID''"

definition conf_hostname :: "environ \<Rightarrow> string option" where
  "conf_hostname e = e ''HOSTNAME''"

definition conf_dp_residency_sync_s :: "environ \<Rightarrow> string option" where
  "conf_dp_residency_sync_s e = e ''RB_DP_RESIDENCY_SYNC_S''"

definition conf_s3_endpoint_url :: "environ \<Rightarrow> string option" where
  "conf_s3_endpoint_url e = e ''S3_ENDPOINT_URL''"

definition conf_s3_access_key :: "environ \<Rightarrow> string option" where
  "conf_s3_access_key e = e ''S3_ACCESS_KEY''"

definition conf_s3_secret_key :: "environ \<Rightarrow> string option" where
  "conf_s3_secret_key e = e ''S3_SECRET_KEY''"

definition conf_s3_region :: "environ \<Rightarrow> string" where
  "conf_s3_region e = getenv e ''S3_REGION'' ''us-east-1''"

definition conf_redis_url :: "environ \<Rightarrow> string option" where
  "conf_redis_url e = e ''REDIS_URL''"

definition conf_cloud_provider :: "environ \<Rightarrow> string" where
  "conf_cloud_provider e = getenv e ''CLOUD_PROVIDER'' ''local''"

definition conf_cloudwatch_namespace :: "environ \<Rightarrow> string" where
  "conf_cloudwatch_namespace e = getenv e ''CLOUDWATCH_NAMESPACE'' ''RosalindDB''"

definition conf_service_role :: "environ \<Rightarrow> string" where
  "conf_service_role e = getenv e ''SERVICE_ROLE'' ''unknown''"

definition conf_otel_sdk_disabled :: "environ \<Rightarrow> bool" where
  "conf_otel_sdk_disabled e \<longleftrightarrow> truthy (e ''OTEL_SDK_DISABLED'')"

definition conf_otel_exporter_otlp_endpoint :: "environ \<Rightarrow> string" where
  "conf_otel_exporter_otlp_endpoint e = rstrip_slash (getenv e ''OTEL_EXPORTER_OTLP_ENDPOINT'' ''http://localhost:4318'')"

definition conf_otel_service_name :: "environ \<Rightarrow> string option" where
  "conf_otel_service_name e = e ''OTEL_SERVICE_NAME''"

definition conf_otel_metric_export_interval :: "environ \<Rightarrow> pyexc + int" where
  "conf_otel_metric_export_interval e = env_int e ''OTEL_METRIC_EXPORT_INTERVAL'' 10000"

text \<open>
  The default of \<open>REAPER_LOCK_TTL\<close> is computed first, so a malformed \<open>REAPER_INTERVAL\<close> raises here too.
  Printing the sum and reading it back gives the same float.
\<close>

definition float_plus :: "pyfloat \<Rightarrow> rat \<Rightarrow> pyfloat" where
  "float_plus x d = (case x of Fin q \<Rightarrow> Fin (q + d) | y \<Rightarrow> y)"

definition conf_reaper_lock_ttl :: "(string \<Rightarrow> pyfloat option) \<Rightarrow> environ \<Rightarrow> pyexc + pyfloat" where
  "conf_reaper_lock_ttl fl e =
     (case conf_reaper_interval fl e of
        Inl x \<Rightarrow> Inl x
      | Inr interval \<Rightarrow>
          (case e ''REAPER_LOCK_TTL'' of None \<Rightarrow> Inr (float_plus interval 30) | Some s \<Rightarrow> float_of_text fl s))"

section \<open>Bounds at the place of use\<close>

text \<open>\<open>max(b, x)\<close> for a float \<open>b\<close>: Python keeps the first argument unless the second is greater, so a NaN gives \<open>b\<close>.\<close>

definition float_max :: "rat \<Rightarrow> pyfloat \<Rightarrow> pyfloat" where
  "float_max b x = (case x of Fin q \<Rightarrow> Fin (max b q) | PInf \<Rightarrow> PInf | NInf \<Rightarrow> Fin b | NaN \<Rightarrow> Fin b)"

definition sync_interval_s :: "(string \<Rightarrow> pyfloat option) \<Rightarrow> environ \<Rightarrow> pyfloat" where
  "sync_interval_s fl e =
     (case conf_dp_residency_sync_s e of
        None \<Rightarrow> Fin 5
      | Some raw \<Rightarrow>
          if strip raw = [] then Fin 5
          else (case fl raw of None \<Rightarrow> Fin 5 | Some v \<Rightarrow> float_max (1 / 1000) v))"

record http_timeout =
  ht_connect :: pyfloat
  ht_read :: pyfloat
  ht_write :: pyfloat
  ht_pool :: pyfloat

definition dp_query_timeout :: "(string \<Rightarrow> pyfloat option) \<Rightarrow> environ \<Rightarrow> http_timeout" where
  "dp_query_timeout fl e =
     \<lparr>ht_connect = connect_timeout_s fl (conf_query_dp_connect_timeout_s e),
      ht_read = read_timeout_s fl (conf_query_dp_read_timeout_s e) (conf_query_dp_timeout_s e),
      ht_write = Fin 5, ht_pool = Fin 5\<rparr>"

definition float_least :: "rat \<Rightarrow> pyfloat \<Rightarrow> bool" where
  "float_least b x = (case x of Fin q \<Rightarrow> b \<le> q | PInf \<Rightarrow> True | _ \<Rightarrow> False)"

text \<open>Whatever the environment says, the residency writer pauses and the proxy waits a positive time.\<close>

lemma sync_interval_positive: "float_least (1 / 1000) (sync_interval_s fl e)"
  by (auto simp: sync_interval_s_def float_max_def float_least_def split: option.split pyfloat.split)

lemma dp_query_timeout_positive:
  "float_least (1 / 10) (ht_connect (dp_query_timeout fl e))" "float_least (1 / 10) (ht_read (dp_query_timeout fl e))"
proof -
  have p: "parse_positive_timeout fl raw = Some v \<Longrightarrow> float_least (1 / 10) v" for raw v
    by (auto simp: parse_positive_timeout_def float_least_def split: option.splits if_splits pyfloat.splits)
  show "float_least (1 / 10) (ht_connect (dp_query_timeout fl e))"
    using p by (auto simp: dp_query_timeout_def connect_timeout_s_def float_least_def[of _ "Fin _"] split: option.split)
  show "float_least (1 / 10) (ht_read (dp_query_timeout fl e))"
    using p by (auto simp: dp_query_timeout_def read_timeout_s_def float_least_def[of _ "Fin _"] split: option.split)
qed

text \<open>Without a setting of its own the lock of a reaper pass outlives the pause between two passes.\<close>

lemma reaper_lock_outlives_pause:
  assumes "e ''REAPER_LOCK_TTL'' = None" and "conf_reaper_interval fl e = Inr (Fin q)"
  shows "\<exists>t. conf_reaper_lock_ttl fl e = Inr (Fin t) \<and> q < t"
  using assms by (simp add: conf_reaper_lock_ttl_def float_plus_def)

end
