(* ===== verification/Notify.thy ===== *)
theory Notify
  imports Replica Catalog_Cache
begin

text \<open>
  From the notification of a catalog change to the listing cache: the payload \<open>add_shard\<close> and
  \<open>delete_dataset\<close> announce (\<open>adapters/state/catalog.py\<close>), the listener (theory \<open>Replica\<close>) and the subscriber
  \<open>_on_catalog_notify\<close> of the query service and of the runner, on the cache of theory \<open>Catalog_Cache\<close>.
\<close>

definition notify_payload :: "key \<Rightarrow> uri \<Rightarrow> meta" where
  "notify_payload k u = [(''tenant'', JStr (fst k)), (''dataset'', JStr (snd k)), (''shard_uri'', JStr u)]"

text \<open>\<open>payload.get(name) or ""\<close>, for the texts the payload holds.\<close>

definition payload_text :: "meta \<Rightarrow> string \<Rightarrow> string" where
  "payload_text p name = (case dget p name of Some (JStr s) \<Rightarrow> s | _ \<Rightarrow> [])"

definition on_catalog_notify :: "ccache callback" where
  "on_catalog_notify cb p c =
     (let tenant = payload_text p ''tenant''; dataset = payload_text p ''dataset''
      in (None, if tenant \<noteq> [] \<and> dataset \<noteq> [] then snd (cache_invalidate c (tenant, dataset)) else c))"

definition listing_cache_clear :: "ccache \<Rightarrow> ccache" where
  "listing_cache_clear c = c\<lparr>cx_entries := [], cx_gen := []\<rparr>"

lemma notify_payload_reaches:
  "fst k \<noteq> [] \<Longrightarrow> snd k \<noteq> [] \<Longrightarrow> snd (on_catalog_notify cb (notify_payload k u) c) = snd (cache_invalidate c k)"
  by (simp add: on_catalog_notify_def notify_payload_def payload_text_def Let_def)

text \<open>No notification brings an entry back or lowers a generation.\<close>

definition cache_later :: "ccache \<Rightarrow> ccache \<Rightarrow> bool" where
  "cache_later c c' \<longleftrightarrow> (\<forall>k. (dget (cx_entries c') k = dget (cx_entries c) k \<or> dget (cx_entries c') k = None) \<and>
     dget_or (cx_gen c) k 0 \<le> dget_or (cx_gen c') k 0)"

lemma cache_laterD:
  "cache_later c c' \<Longrightarrow> dget_or (cx_gen c) k 0 \<le> dget_or (cx_gen c') k 0"
  "cache_later c c' \<Longrightarrow> dget (cx_entries c) k = None \<Longrightarrow> dget (cx_entries c') k = None"
  unfolding cache_later_def by (blast, metis)

lemma cache_later_refl [simp]: "cache_later c c"
  by (simp add: cache_later_def)

lemma cache_later_trans: "cache_later c1 c2 \<Longrightarrow> cache_later c2 c3 \<Longrightarrow> cache_later c1 c3"
  unfolding cache_later_def by (metis order_trans)

lemma invalidate_later: "cache_later c (snd (cache_invalidate c k))"
  by (auto simp: cache_later_def cache_invalidate_def pdict_simps)

lemma notify_later: "cache_later c (snd (on_catalog_notify cb p c))"
  by (simp add: on_catalog_notify_def Let_def invalidate_later)

lemma calls_later: "cache_later c (foldl (\<lambda>s cb. snd (on_catalog_notify cb p s)) c subs)"
proof (induction subs arbitrary: c)
  case (Cons x xs)
  show ?case using cache_later_trans[OF notify_later Cons.IH] by simp
qed simp

lemma dispatch_later: "dispatch_payload loads on_catalog_notify subs payload c = Inr c' \<Longrightarrow> cache_later c c'"
  by (auto simp: dispatch_payload_def calls_later split: sum.splits json.splits pyexc.splits)

lemma drain_later: "cache_later c (snd (drain_notifies loads on_catalog_notify subs ns c))"
proof (induction ns arbitrary: c)
  case (Cons n ns)
  obtain ch pl where n: "n = (ch, pl)" by (cases n)
  show ?case
  proof (cases "dispatch_payload loads on_catalog_notify subs pl c")
    case (Inr c1)
    from dispatch_later[OF Inr] Cons.IH[of c1] have "cache_later c (snd (drain_notifies loads on_catalog_notify subs ns c1))"
      by (rule cache_later_trans)
    with Inr Cons.IH[of c] show ?thesis by (simp add: n)
  qed (use Cons.IH[of c] n in simp)
qed simp

text \<open>
  A poll that reaches the announcement of a change evicts the listing of its dataset and raises the
  generation, so that a read in flight is not filled in; the other subscribers and notifications of the
  poll do not matter, as long as no earlier payload ends the loop.
\<close>

lemma announcement_evicts:
  assumes "fst k \<noteq> []" and "snd k \<noteq> []" and "cb \<in> set subs" and "loads payload = Inr (JObj (notify_payload k u))"
    and "drain_notifies loads on_catalog_notify subs xs c = (True, c1)"
  shows "\<exists>c2. cache_later c2 (snd (drain_notifies loads on_catalog_notify subs (xs @ (CATALOG_CHANNEL, payload) # ys) c)) \<and>
    dget (cx_entries c2) k = None \<and> dget_or (cx_gen c) k 0 < dget_or (cx_gen c2) k 0"
  using assms(5)
proof (induction xs arbitrary: c)
  case Nil
  obtain as bs where subs: "subs = as @ cb # bs" using assms(3) by (metis split_list)
  let ?f = "foldl (\<lambda>s cb. snd (on_catalog_notify cb (notify_payload k u) s))"
  let ?c2 = "?f c subs"
  let ?m = "snd (on_catalog_notify cb (notify_payload k u) (?f c as))"
  have early: "cache_later c (?f c as)" and late: "cache_later ?m ?c2" by (simp_all add: calls_later subs)
  have m: "?m = snd (cache_invalidate (?f c as) k)" by (rule notify_payload_reaches[OF assms(1,2)])
  have "dget_or (cx_gen ?m) k 0 = dget_or (cx_gen (?f c as)) k 0 + 1" and "dget (cx_entries ?m) k = None"
    unfolding m by (simp_all add: cache_invalidate_def pdict_simps)
  then have "dget (cx_entries ?c2) k = None" and "dget_or (cx_gen c) k 0 < dget_or (cx_gen ?c2) k 0"
    using cache_laterD[OF late, of k] cache_laterD(1)[OF early, of k] by simp_all
  moreover have "drain_notifies loads on_catalog_notify subs ([] @ (CATALOG_CHANNEL, payload) # ys) c =
      drain_notifies loads on_catalog_notify subs ys ?c2"
    using assms(4) by (simp add: dispatch_payload_def)
  ultimately show ?case using drain_later by metis
next
  case (Cons x xs)
  obtain ch pl where x: "x = (ch, pl)" by (cases x)
  show ?case
  proof (cases "ch = CATALOG_CHANNEL")
    case False
    with Cons x show ?thesis by simp
  next
    case True
    with Cons.prems x obtain d where d: "dispatch_payload loads on_catalog_notify subs pl c = Inr d"
      "drain_notifies loads on_catalog_notify subs xs d = (True, c1)" by (auto split: sum.splits)
    from Cons.IH[OF d(2)] obtain c2 where
      "cache_later c2 (snd (drain_notifies loads on_catalog_notify subs (xs @ (CATALOG_CHANNEL, payload) # ys) d))"
      "dget (cx_entries c2) k = None" "dget_or (cx_gen d) k 0 < dget_or (cx_gen c2) k 0" by blast
    moreover have "dget_or (cx_gen c) k 0 \<le> dget_or (cx_gen d) k 0" by (rule cache_laterD(1)[OF dispatch_later[OF d(1)]])
    ultimately show ?thesis using True x d(1) by (intro exI[of _ c2]) simp
  qed
qed

text \<open>A payload without a tenant or a dataset is skipped.\<close>

lemma empty_payload_skipped: "snd (on_catalog_notify cb [(''tenant'', JStr [])] c) = c"
  by (simp add: on_catalog_notify_def payload_text_def Let_def)

end
