(* ===== verification/Spec2Isabelle.thy ===== *)
theory Spec2Isabelle
  imports Recall_Properties Json_Properties Delivery_Properties Catalog_Properties Build_Properties Compaction_Properties
    Tier_Properties Single_Flight Query_Properties Quota_Properties Auth_Properties Ephemeral_Properties Import_Properties Registry_Properties
    Proxy_Properties Replica Shard_Uri Accounts_Properties Config Pooling Migrations Builder_Loop Legacy_Query Mem0_Properties
    Build_Lock Catalog_Sessions Lifecycle Object_Store Host Notify
begin

text \<open>
  RosalindDB, a multi-tenant vector database. This library models its services (\<open>src/src/services\<close>)
  and adapters (\<open>src/src/adapters\<close>) and proves what makes them correct. File names below are relative
  to \<open>src/src\<close>.

  \<^bold>\<open>How the program is put together.\<close> A write goes to the control plane, which checks the records and
  puts them either into the recall tier (an append log with tombstones, numbered by log sequence
  numbers, LSNs) or into the landing area of the object store, from where the validator worker turns
  them into Parquet parts. The index builder folds recall rows and landing parts into FAISS shards,
  commits every shard as a row of the shard catalog with the LSN up to which it is consolidated (its
  watermark), sweeps superseded shards and trims the recall log. A query reads the newest shard up to
  its watermark through two cache tiers and the recall rows above the watermark, and merges the two.
  Services talk through a queue with acknowledgements; a reaper takes back messages of dead workers.
  Around this stand API keys, rate limits, quotas and import jobs.

  \<^bold>\<open>The state.\<close> The record \<open>world\<close> (theory \<open>World\<close>) holds what the services share: the catalog, the recall
  tier, the bucket, the queues and the import jobs; \<open>accounts\<close> (theory \<open>Quota\<close>) holds tenants and keys.
  Every operation is a function from the state and its inputs to a result and the new state; raised
  exceptions are values of a sum type. Time, uuids, digests and the outcome of a lock attempt are
  arguments. Dictionaries are association lists in insertion order (theory \<open>Prelude\<close>).

  \<^bold>\<open>Theories, by component.\<close>
  \<^item> Values. \<open>Prelude\<close>: dictionaries, slices, last-wins deduplication. \<open>Json\<close>: decoded JSON, Python
    equality, the metadata filter (\<open>v1_query.metadata_matches_filter\<close>, \<open>recall._metadata_matches_filter\<close>)
    and \<open>_validate_ndjson_record\<close>. \<open>Text\<close>: lines, blanks, decimals, splitting. \<open>Topk\<close>: the ranking
    contract. \<open>Lru\<close>: the \<open>OrderedDict\<close> loops of the caches. \<open>Errors\<close>: \<open>adapters/errors.py\<close>.
  \<^item> Recall tier. \<open>Memtable\<close> (\<open>adapters/recall/memtable.py\<close>), \<open>Recall_Pg\<close> and \<open>Recall\<close>
    (\<open>adapters/recall/__init__.py\<close>). \<open>Recall_Spec\<close> states the contract as a locale; \<open>Memtable_Correct\<close>,
    \<open>Recall_Pg_Correct\<close> and \<open>Recall\<close> interpret it on the two backends and on the dispatcher;
    \<open>Recall_Search\<close>, \<open>Recall_Agree\<close>: search and equivalence; \<open>Recall_Properties\<close>: C1-C6;
    \<open>Json_Properties\<close>.
  \<^item> Queue. \<open>Queue\<close> (\<open>adapters/queue/queue.py\<close>), \<open>Reaper\<close> (\<open>adapters/queue/reaper.py\<close>), \<open>Queue_Correct\<close>:
    the delivery system as an inductive step relation; \<open>Delivery_Properties\<close>: C10, C14.
  \<^item> Catalog. \<open>Catalog\<close> (\<open>adapters/state/catalog.py\<close>), \<open>Generations\<close> (\<open>adapters/state/generations.py\<close>),
    \<open>Catalog_Correct\<close> (the listing contract as a locale), \<open>Catalog_Properties\<close>: C16, C18.
    \<open>Catalog_Sessions\<close>: the statements of concurrent transactions of the Postgres backend, C23, and what a
    caught error inside a transaction does. \<open>Lifecycle\<close>: a dataset deleted and created again.
  \<^item> Index builder (\<open>services/index_builder/run.py\<close>). \<open>Store\<close>: object storage and the landing reader;
    \<open>Object_Store\<close>: the S3 branches of \<open>adapters/storage/storage.py\<close>, which implement the dictionary of
    \<open>Store\<close>; \<open>Faiss\<close>: the library's operations as a record with the laws the code relies on; \<open>Builder\<close>: the shard
    writers; \<open>Consolidate\<close>: the fold of recall rows, the delta tier and the major compaction, the
    handlers; \<open>Builder_Loop\<close>: a turn of the loop; \<open>Build_Lock\<close>: the lock between
    replicas, C9. \<open>Builder_Correct\<close>, \<open>Fold_Correct\<close>, \<open>Compaction\<close>: contents of a shard as a map;
    \<open>Cold_Tier\<close>, \<open>Fold_World\<close>, \<open>Landing_World\<close>, \<open>System\<close>: the invariant over the whole state;
    \<open>Build_Properties\<close>: C19-C21, C24; \<open>Compaction_Properties\<close>: C25. \<open>Shard_Uri\<close>
    (\<open>adapters/storage/shard_uri.py\<close>): C12.
  \<^item> Caches. \<open>Shard_Tier\<close> (\<open>adapters/storage/shard_tier.py\<close>), \<open>Tier_Properties\<close>: C26;
    \<open>Single_Flight\<close> (\<open>adapters/cache/shard_fetch.py\<close> as interleaved threads): C28; \<open>Ram_Cache\<close>
    (\<open>v1_query._SHARD_CACHE\<close>); \<open>Catalog_Cache\<close> (\<open>adapters/cache/catalog_cache.py\<close>): C30; \<open>Notify\<close>: from an
    announcement through the listener to that cache.
  \<^item> Query (\<open>services/query_api/v1_query.py\<close>). \<open>Query\<close>, \<open>Query_Correct\<close>, \<open>Query_Properties\<close>: C31-C33.
    \<open>Ephemeral\<close> (also \<open>services/ephemeral_runner/run.py\<close>, \<open>services/query_api/result_store.py\<close>),
    \<open>Ephemeral_Properties\<close>: C37-C39. \<open>Proxy\<close> (\<open>services/query_api/query_proxy.py\<close>, \<open>dp_query.py\<close>),
    \<open>Proxy_Properties\<close>: C29. \<open>Replica\<close>: the workers of a query replica (\<open>services/_common\<close>) and the
    admin endpoint of \<open>dp_app.py\<close>. \<open>Legacy_Query\<close>: the internal endpoints of
    \<open>services/query_api/main.py\<close>.
  \<^item> Accounts. \<open>Quota\<close> (\<open>adapters/state/quota.py\<close>), \<open>Quota_Properties\<close>: C34; \<open>Auth\<close>
    (\<open>services/auth/jwt_utils.py\<close>, \<open>services/auth/quota.py\<close>), \<open>Auth_Properties\<close>: C35, C36; \<open>Accounts_Api\<close>
    (\<open>services/auth/auth.py\<close>), \<open>Accounts_Properties\<close>: C11.
  \<^item> Imports. \<open>Import\<close> (\<open>services/validator_worker/run.py\<close>, \<open>adapters/landing/parquet_writer.py\<close>),
    \<open>Import_Correct\<close>, \<open>Import_Properties\<close>: C22, C40.
  \<^item> Control plane (\<open>services/source_registry/main.py\<close>). \<open>Registry\<close>: the endpoints; \<open>Registry_Correct\<close>:
    each against the contents of recall tier and shard; \<open>Import_Jobs\<close>: the import jobs as a state
    machine; \<open>Registry_Properties\<close>: C7, C13, C15, C27.
  \<^item> Clients (\<open>integrations/mem0\<close>, from the repository's root). \<open>Rest_Client\<close>: the client with its
    transport and polls; \<open>Mem0\<close>: the vector store of mem0; \<open>Mem0_Properties\<close>: both in front of the
    control plane, C8.
  \<^item> The ground. \<open>Pooling\<close> (\<open>adapters/state/pooling.py\<close>, \<open>conn_middleware.py\<close>): C17; \<open>Migrations\<close>
    (\<open>adapters/state/migrations.py\<close>); \<open>Config\<close> (\<open>adapters/config.py\<close>);
    \<open>Host\<close>: mount table, page-fault counter, left-over downloads, signing secret, the remaining settings.

  \<^bold>\<open>What the lemmas show.\<close> The recall contract gives read-your-writes and read-your-deletes across a
  consolidation; with the contents lemmas of the builder this composes to C19: a sequence of upserts,
  deletes and consolidations is seen as the client's map. The delivery system is proved for every
  interleaving of producers, workers and reapers, one queue command per step, the catalog for every
  interleaving of SQL statements; the single-flight protocol, the listing cache and the key cache likewise for every interleaving of their locked
  sections.

  \<^bold>\<open>Termination and bounds.\<close> All loops are total functions with a measure, but two that poll until a
  deadline: the checkout of a connection and the polls of the client have fuel, the deadline divided by
  the pause plus one; \<open>Pooling.checkout_returns\<close> and \<open>Rest_Client.polls_return\<close> prove that it is enough
  for every clock that moves at least the pause between two attempts. The download protocol is a step
  relation, for which progress is proved (C28). Floats are exact rationals with infinities and NaN; rounding to float32 is a parameter, idempotent
  where a theorem says so. Integers are unbounded as in Python; LSNs in a \<open>bigint\<close> column do not
  reach \<open>2^63\<close>.

  \<^bold>\<open>Parameters.\<close> FAISS (\<open>faiss_laws\<close>, with a list implementation that meets them), SHA-1 and SHA-256, the
  iteration order of a Python set, JSON and UTF-8 decoding, Parquet files, bcrypt (\<open>bcrypt_law\<close>) and JWT
  signatures (\<open>jwt_law\<close>), each with an instance that meets the law, email validation, the HTTP client
  and the sockets under it (\<open>wired_to\<close>), percent decoding (\<open>decodes\<close>, met by \<open>unquote\<close>), the
  connection pool of psycopg2, the clock and uuids, which URIs of the object store fail.

  \<^bold>\<open>Not modelled.\<close> Metrics, traces and logs (\<open>adapters/observability\<close>, \<open>adapters/metrics\<close>) carry no state
  the services read back. A SQL statement is modelled by its effect on the tables, with one commit per
  operation; only \<open>Catalog_Sessions\<close> looks below a call, on the rows of \<open>dataset_catalog\<close>. The
  transaction of a request (\<open>Pooling\<close>) is not composed with the operations inside it, and the text of
  the migration files is not read. Process start-up (\<open>cp_app.py\<close>), signal handlers and
  thread creation are left out; one turn of each worker loop is modelled. The repository's \<open>scripts\<close> and \<open>bench\<close> use the HTTP surface only.
\<close>

end
